(* ===== verification/Go_Prelude.thy ===== *)
theory Go_Prelude
  imports Main "HOL-Library.Finite_Map" "HOL-Library.List_Lexorder" "HOL-Library.Char_ord" "HOL-Library.Word" "HOL-Library.Multiset"
begin

text \<open>
  The Go vocabulary the component theories share.

  Go strings are byte strings and are modelled as \<open>string\<close> (a list of 8-bit characters), compared
  bytewise by \<open>HOL-Library.List_Lexorder\<close> and \<open>HOL-Library.Char_ord\<close>, as Go's \<open><\<close> and
  \<open>sort.Strings\<close> compare them. A Go map is a finite map \<open>('k, 'v) fmap\<close>: it is extensional, finite
  and executable, and its iteration order is never implicit in the model: a loop \<open>for k := range m\<close>
  takes the enumeration the runtime happens to produce as an argument (\<open>enumerates\<close>).
  The standard-library functions used by several components (\<open>strings.TrimSpace\<close>,
  \<open>strings.Contains\<close>, the \<open>%d\<close> verb) are translated here, followed by the generic lemmas on lists
  and finite maps the component proofs use.
\<close>

named_theorems go_defs \<open>unfolding rules of the small Go helper definitions\<close>

section \<open>Go maps\<close>

type_synonym ('k, 'v) gomap = "('k, 'v) fmap"

definition enumerates :: "('k, 'v) gomap \<Rightarrow> 'k list \<Rightarrow> bool" where
  "enumerates m ks \<longleftrightarrow> distinct ks \<and> fset_of_list ks = fmdom m"

lemma enumerates_distinct [dest]: "enumerates m ks \<Longrightarrow> distinct ks"
  by (simp add: enumerates_def)

lemma enumerates_set: "enumerates m ks \<Longrightarrow> set ks = fmdom' m"
  by (metis enumerates_def fmdom'_alt_def fset_of_list.rep_eq)

lemma enumeratesI: "distinct ks \<Longrightarrow> set ks = fmdom' m \<Longrightarrow> enumerates m ks"
  by (metis enumerates_def fmdom'_alt_def fset_inject fset_of_list.rep_eq)

lemma enumerates_mset: "enumerates m ks \<Longrightarrow> enumerates m ks' \<Longrightarrow> mset ks = mset ks'"
  by (metis enumerates_distinct enumerates_set set_eq_iff_mset_eq_distinct)

lemma enumerates_sort: "enumerates m ks \<Longrightarrow> enumerates m ks' \<Longrightarrow> sort ks = sort ks'"
  for ks :: "'k::linorder list"
  by (metis enumerates_mset properties_for_sort sorted_sort mset_sort)

lemma enumerates_length: "enumerates m ks \<Longrightarrow> length ks = fcard (fmdom m)"
  by (metis distinct_card enumerates_distinct enumerates_def fcard.rep_eq fset_of_list.rep_eq)

lemma fmlookup_in_dom: "fmlookup m k = Some v \<Longrightarrow> k |\<in>| fmdom m"
  by (simp add: fmdomI)

section \<open>Strings\<close>

definition digit_char :: "nat \<Rightarrow> char" where
  "digit_char d = char_of (48 + d)"

text \<open>The \<open>%d\<close> verb of \<open>fmt.Sprintf\<close> on a non-negative integer.\<close>

fun nat_dec :: "nat \<Rightarrow> string" where
  "nat_dec n = (if n < 10 then [digit_char n] else nat_dec (n div 10) @ [digit_char (n mod 10)])"

declare nat_dec.simps [simp del]

text \<open>\<open>strings.Contains\<close>.\<close>

fun strings_Contains :: "string \<Rightarrow> string \<Rightarrow> bool" where
  "strings_Contains [] pat = (pat = [])"
| "strings_Contains (c # cs) pat = (take (length pat) (c # cs) = pat \<or> strings_Contains cs pat)"

text \<open>
  \<open>strings.TrimSpace\<close> removes leading and trailing Unicode white space; \<open>white_space\<close> lists the UTF-8
  encodings of the code points for which \<open>unicode.IsSpace\<close> holds.
\<close>

definition white_space :: "string list" where
  "white_space =
     [[CHR 0x09], [CHR 0x0A], [CHR 0x0B], [CHR 0x0C], [CHR 0x0D], [CHR 0x20],
      [CHR 0xC2, CHR 0x85], [CHR 0xC2, CHR 0xA0], [CHR 0xE1, CHR 0x9A, CHR 0x80],
      [CHR 0xE2, CHR 0x80, CHR 0x80], [CHR 0xE2, CHR 0x80, CHR 0x81], [CHR 0xE2, CHR 0x80, CHR 0x82],
      [CHR 0xE2, CHR 0x80, CHR 0x83], [CHR 0xE2, CHR 0x80, CHR 0x84], [CHR 0xE2, CHR 0x80, CHR 0x85],
      [CHR 0xE2, CHR 0x80, CHR 0x86], [CHR 0xE2, CHR 0x80, CHR 0x87], [CHR 0xE2, CHR 0x80, CHR 0x88],
      [CHR 0xE2, CHR 0x80, CHR 0x89], [CHR 0xE2, CHR 0x80, CHR 0x8A], [CHR 0xE2, CHR 0x80, CHR 0xA8],
      [CHR 0xE2, CHR 0x80, CHR 0xA9], [CHR 0xE2, CHR 0x80, CHR 0xAF], [CHR 0xE2, CHR 0x81, CHR 0x9F],
      [CHR 0xE3, CHR 0x80, CHR 0x80]]"

definition strip_one :: "string list \<Rightarrow> string \<Rightarrow> string option" where
  "strip_one ws s = map_option (\<lambda>w. drop (length w) s) (find (\<lambda>w. w \<noteq> [] \<and> take (length w) s = w) ws)"

lemma strip_one_shorter: "strip_one ws s = Some t \<Longrightarrow> length t < length s"
  by (auto simp: strip_one_def find_Some_iff) (metis diff_less length_greater_0_conv take_eq_Nil2)

function trim_left :: "string list \<Rightarrow> string \<Rightarrow> string" where
  "trim_left ws s = (case strip_one ws s of None \<Rightarrow> s | Some t \<Rightarrow> trim_left ws t)"
  by pat_completeness auto
termination
  by (relation "measure (\<lambda>(ws, s). length s)") (auto dest: strip_one_shorter)

declare trim_left.simps [simp del]

definition strings_TrimSpace :: "string \<Rightarrow> string" where
  "strings_TrimSpace s = rev (trim_left (map rev white_space) (rev (trim_left white_space s)))"

lemma trim_left_fixed: "strip_one ws (trim_left ws s) = None"
proof (induction ws s rule: trim_left.induct)
  case (1 ws s)
  then show ?case
    by (cases "strip_one ws s") (simp_all add: trim_left.simps [of ws s])
qed

lemma trim_left_suffix: "\<exists>p. s = p @ trim_left ws s"
proof (induction ws s rule: trim_left.induct)
  case (1 ws s)
  show ?case
  proof (cases "strip_one ws s")
    case None
    then show ?thesis by (simp add: trim_left.simps [of ws s])
  next
    case (Some t)
    then have "\<exists>q. s = q @ t"
      by (auto simp: strip_one_def intro: append_take_drop_id [symmetric])
    with 1 [OF Some] obtain p q where "s = q @ t" "t = p @ trim_left ws t" by blast
    then have "s = (q @ p) @ trim_left ws t" by simp
    with Some show ?thesis
      by (metis option.simps(5) trim_left.simps)
  qed
qed

section \<open>Lists\<close>

lemma sort_eq_if_mset_eq: "mset xs = mset ys \<Longrightarrow> sort xs = sort ys"
  for xs :: "'a::linorder list"
  by (metis mset_sort properties_for_sort sorted_sort)

lemma sort_idem_sorted: "sorted xs \<Longrightarrow> sort xs = xs"
  for xs :: "'a::linorder list"
  by (rule sorted_sort_id)

lemma set_take_mono: "i \<le> j \<Longrightarrow> set (take i xs) \<subseteq> set (take j xs)"
  by (rule set_take_subset_set_take)

lemma distinct_full_length:
  "distinct xs \<Longrightarrow> set xs \<subseteq> A \<Longrightarrow> finite A \<Longrightarrow> length xs = card A \<Longrightarrow> set xs = A"
  by (metis card_subset_eq distinct_card)

text \<open>A list in which every element's predecessors stand before it.\<close>

definition predecessors_first :: "('a \<Rightarrow> 'a set) \<Rightarrow> 'a list \<Rightarrow> bool" where
  "predecessors_first preds xs \<longleftrightarrow> (\<forall>i < length xs. preds (xs ! i) \<subseteq> set (take i xs))"

lemma predecessors_first_Nil [simp]: "predecessors_first preds []"
  by (simp add: predecessors_first_def)

lemma predecessors_first_snoc:
  "predecessors_first preds (xs @ [x]) \<longleftrightarrow> predecessors_first preds xs \<and> preds x \<subseteq> set xs"
  by (auto simp: predecessors_first_def nth_append less_Suc_eq)

lemma predecessors_first_acyclic:
  assumes "predecessors_first preds xs" and "distinct xs"
    and dom: "\<And>a b. (a, b) \<in> R \<Longrightarrow> b \<in> set xs \<and> a \<in> preds b"
  shows "acyclic R"
proof -
  let ?pos = "\<lambda>x. THE i. i < length xs \<and> xs ! i = x"
  have pos: "?pos (xs ! i) = i" if "i < length xs" for i
    using that assms(2) by (auto simp: nth_eq_iff_index_eq)
  have "?pos a < ?pos b" if ab: "(a, b) \<in> R" for a b
  proof -
    from dom [OF ab] obtain j where j: "j < length xs" "xs ! j = b" and "a \<in> preds b"
      by (metis in_set_conv_nth)
    with assms(1) have "a \<in> set (take j xs)"
      by (auto simp: predecessors_first_def)
    then obtain i where "i < j" "xs ! i = a"
      using j(1) by (auto simp: in_set_conv_nth)
    with j pos [of i] pos [of j] show ?thesis by simp
  qed
  then have "R \<subseteq> measure ?pos" by auto
  then show ?thesis by (meson wf_measure wf_subset wf_acyclic)
qed

text \<open>A finite non-empty set in which every element has a predecessor contains a cycle.\<close>

lemma cycle_if_no_source:
  assumes "finite A" and "A \<noteq> {}" and "\<And>x. x \<in> A \<Longrightarrow> \<exists>y \<in> A. (y, x) \<in> R"
  shows "\<not> acyclic R"
proof
  assume ac: "acyclic R"
  let ?Q = "R \<inter> (A \<times> A)"
  have "finite ?Q" using assms(1) by simp
  moreover have "acyclic ?Q" using ac by (rule acyclic_subset) simp
  ultimately have "wf ?Q" by (rule finite_acyclic_wf)
  then obtain z where "z \<in> A" and "\<And>y. (y, z) \<in> ?Q \<Longrightarrow> y \<notin> A"
    using assms(2) by (metis all_not_in_conv wfE_min)
  with assms(3) show False by blast
qed

end
