(* ===== verification/Go_Errors.thy ===== *)
theory Go_Errors
  imports Go_Prelude
begin

text \<open>
  Go's \<open>errors\<close> package and the error values of the runtime packages.

  A Go error is a value of type \<open>goerr\<close>: a sentinel (an \<open>errors.New\<close> variable, compared by
  identity), the result of \<open>errors.Join\<close>, a foreign error with an \<open>Unwrap\<close> method, or one of the
  error structs of the modelled packages. \<open>nil\<close> is \<open>None\<close> of \<open>goerr option\<close>. The targets the code
  hands to \<open>errors.Is\<close> are sentinels only. \<open>exposed\<close> lists every error object a caller can reach by
  \<open>Unwrap\<close>, which is what the redaction properties are about. A foreign error type with an \<open>Is\<close>
  method of its own is not represented.
  The locale \<open>classification\<close> is the contract of \<open>safeClassifications\<close>, which the event bus and the
  Redis resource each implement with their own list of controlled sentinels.
\<close>

section \<open>Sentinels and operations\<close>

datatype resource_class =
  ErrInvalidGraph | ErrContextRequired | ErrStartRejected | ErrNotStarted
| ErrRunRejected | ErrRunStopped | ErrClosing

datatype bus_class =
  Bus_ErrInvalidBus | Bus_ErrInvalidOptions | Bus_ErrInvalidEvent | Bus_ErrInvalidReconciler
| Bus_ErrContextRequired | Bus_ErrStartRejected | Bus_ErrRunRejected | Bus_ErrNotStarted
| Bus_ErrClosing | Bus_ErrDegraded | Bus_ErrProviderFailed | Bus_ErrPublishFailed
| Bus_ErrPollFailed | Bus_ErrEncodeFailed | Bus_ErrDecodeFailed | Bus_ErrSubscriberFailed
| Bus_ErrSubscriberPanicked | Bus_ErrReconcileFailed | Bus_ErrReconcilerPanicked

datatype redis_class =
  Redis_ErrInvalidProfile | Redis_ErrContextRequired | Redis_ErrClientConstruction
| Redis_ErrUnavailable | Redis_ErrStartRejected | Redis_ErrNotStarted | Redis_ErrClosing
| Redis_ErrCloseFailed | Redis_ErrUseRejected | Redis_ErrDetachedCommand | Redis_ErrCommandFailed
| Redis_ErrInvalidCommand | Redis_ErrNotFound | Redis_ErrLeaseExpired | Redis_ErrUnsafeKey

text \<open>\<open>Canceled\<close> and \<open>DeadlineExceeded\<close> are the two values of \<open>ctx.Err()\<close>.\<close>

datatype sentinel =
  Canceled
| DeadlineExceeded
| Resource_class resource_class
| Bus_class bus_class
| Redis_class redis_class
| Foreign nat

datatype operation =
  OperationStart | OperationRun | OperationHealth | OperationReady | OperationRollback
| OperationClose | OperationSubscribe | OperationPublish | OperationPoll | OperationReconcile
| OperationEncode | OperationDecode | OperationUse | OperationScope | OperationGet | OperationSet
| OperationDelete | OperationExists | OperationQualify | OperationAtomic

section \<open>Error values\<close>

datatype goerr =
  Sentinel sentinel
| Joined "goerr list"
| ForeignWrap nat goerr
| LifecycleError string operation goerr
| RedactedCause goerr
| FilteredRunCause goerr sentinel
| ValidationError string string sentinel
| OperationError operation "goerr option"

text \<open>
  \<open>errors.Is\<close>: identity, then the \<open>Is\<close> method where the type has one, then \<open>Unwrap\<close>.
  \<open>RedactedCause\<close> delegates to its private cause, \<open>FilteredRunCause\<close> refuses the context error it
  filters, \<open>OperationError\<close> delegates to its safe classification.
\<close>

fun errors_Is :: "goerr \<Rightarrow> sentinel \<Rightarrow> bool" where
  "errors_Is (Sentinel s) t = (s = t)"
| "errors_Is (Joined es) t = (\<exists>e \<in> set es. errors_Is e t)"
| "errors_Is (ForeignWrap _ e) t = errors_Is e t"
| "errors_Is (LifecycleError _ _ cause) t = errors_Is cause t"
| "errors_Is (RedactedCause cause) t = errors_Is cause t"
| "errors_Is (FilteredRunCause cause ctxErr) t = (ctxErr \<noteq> t \<and> errors_Is cause t)"
| "errors_Is (ValidationError _ _ class) t = (class = t)"
| "errors_Is (OperationError _ safe) t = (case safe of None \<Rightarrow> False | Some e \<Rightarrow> errors_Is e t)"

definition is_err :: "goerr option \<Rightarrow> sentinel \<Rightarrow> bool" where
  "is_err e t = (case e of None \<Rightarrow> False | Some x \<Rightarrow> errors_Is x t)"

lemma is_err_simps [simp]: "is_err None t = False" "is_err (Some e) t = errors_Is e t"
  by (simp_all add: is_err_def)

lemma is_err_Some: "is_err r t \<Longrightarrow> \<exists>y. r = Some y"
  by (cases r) simp_all

text \<open>\<open>errors.Join\<close> drops nil arguments and returns nil when nothing is left.\<close>

definition errors_Join :: "goerr option list \<Rightarrow> goerr option" where
  "errors_Join es = (let xs = List.map_filter (\<lambda>e. e) es in if xs = [] then None else Some (Joined xs))"

lemma map_filter_id_set: "x \<in> set (List.map_filter (\<lambda>e. e) es) \<longleftrightarrow> Some x \<in> set es"
  by (induction es) (auto simp: List.map_filter_simps split: option.splits)

lemma map_filter_id_Nil: "List.map_filter (\<lambda>e. e) es = [] \<longleftrightarrow> (\<forall>e \<in> set es. e = None)"
  by (induction es) (auto simp: List.map_filter_simps split: option.splits)

lemma errors_Join_None [simp]: "errors_Join es = None \<longleftrightarrow> (\<forall>e \<in> set es. e = None)"
  by (simp add: errors_Join_def Let_def map_filter_id_Nil)

lemma errors_Join_ex [simp]: "(\<exists>y. errors_Join es = Some y) \<longleftrightarrow> (\<exists>e \<in> set es. \<exists>y. e = Some y)"
  by (metis errors_Join_None not_None_eq)

lemma is_err_Join [simp]: "is_err (errors_Join es) t \<longleftrightarrow> (\<exists>e \<in> set es. is_err e t)"
proof -
  have "is_err (errors_Join es) t \<longleftrightarrow> (\<exists>x \<in> set (List.map_filter (\<lambda>e. e) es). errors_Is x t)"
    by (auto simp: errors_Join_def Let_def)
  also have "\<dots> \<longleftrightarrow> (\<exists>x. Some x \<in> set es \<and> errors_Is x t)"
    by (simp add: map_filter_id_set Bex_def)
  also have "\<dots> \<longleftrightarrow> (\<exists>e \<in> set es. is_err e t)"
    by (force simp: is_err_def split: option.splits)
  finally show ?thesis .
qed

lemma errors_Join_eq_Some: "errors_Join es = Some e \<Longrightarrow> \<exists>x. Some x \<in> set es"
  by (metis errors_Join_None option.distinct(1) not_Some_eq)

section \<open>What a caller can reach\<close>

fun exposed :: "goerr \<Rightarrow> goerr list" where
  "exposed (Sentinel s) = [Sentinel s]"
| "exposed (Joined es) = Joined es # concat (map exposed es)"
| "exposed (ForeignWrap n e) = ForeignWrap n e # exposed e"
| "exposed (LifecycleError r op cause) = LifecycleError r op cause # exposed cause"
| "exposed (RedactedCause cause) = [RedactedCause cause]"
| "exposed (FilteredRunCause cause c) = [FilteredRunCause cause c]"
| "exposed (ValidationError p r class) = [ValidationError p r class, Sentinel class]"
| "exposed (OperationError op safe) =
     OperationError op safe # (case safe of None \<Rightarrow> [] | Some e \<Rightarrow> exposed e)"

fun foreign :: "goerr \<Rightarrow> bool" where
  "foreign (Sentinel (Foreign _)) = True"
| "foreign (ForeignWrap _ _) = True"
| "foreign _ = False"

lemma foreign_Sentinel [simp]: "foreign (Sentinel s) \<longleftrightarrow> (\<exists>n. s = Foreign n)"
  by (cases s) simp_all

definition redacted :: "goerr option \<Rightarrow> bool" where
  "redacted e = (case e of None \<Rightarrow> True | Some x \<Rightarrow> (\<forall>y \<in> set (exposed x). \<not> foreign y))"

lemma redacted_simps [simp]:
  "redacted None"
  "redacted (Some x) \<longleftrightarrow> (\<forall>y \<in> set (exposed x). \<not> foreign y)"
  by (simp_all add: redacted_def)

lemma redacted_Join [simp]: "redacted (errors_Join es) \<longleftrightarrow> (\<forall>e \<in> set es. redacted e)"
proof -
  have "redacted (errors_Join es) \<longleftrightarrow> (\<forall>x \<in> set (List.map_filter (\<lambda>e. e) es). redacted (Some x))"
    by (auto simp: errors_Join_def Let_def)
  also have "\<dots> \<longleftrightarrow> (\<forall>x. Some x \<in> set es \<longrightarrow> redacted (Some x))"
    by (simp add: map_filter_id_set Ball_def)
  also have "\<dots> \<longleftrightarrow> (\<forall>e \<in> set es. redacted e)"
    by (metis not_Some_eq redacted_simps(1))
  finally show ?thesis .
qed

section \<open>The contract of safeClassifications\<close>

definition project_classifications :: "sentinel list \<Rightarrow> goerr option \<Rightarrow> goerr option" where
  "project_classifications controlled cause =
     (case cause of None \<Rightarrow> None
      | Some c \<Rightarrow> errors_Join (map (\<lambda>s. Some (Sentinel s)) (filter (errors_Is c) controlled)))"

locale classification =
  fixes controlled :: "sentinel list"
    and safe :: "goerr option \<Rightarrow> goerr option"
  assumes safe_projects: "safe cause = project_classifications controlled cause"
    and controlled_own: "Foreign n \<notin> set controlled"
begin

lemma safe_is_err: "is_err (safe cause) t \<longleftrightarrow> t \<in> set controlled \<and> is_err cause t"
  by (cases cause) (auto simp: safe_projects project_classifications_def image_iff)

lemma safe_redacted: "redacted (safe cause)"
proof -
  have "\<not> foreign (Sentinel s)" if "s \<in> set controlled" for s
    using that controlled_own by auto
  then show ?thesis
    by (cases cause) (auto simp: safe_projects project_classifications_def)
qed

lemma safe_idem_is_err: "is_err (safe (safe cause)) t = is_err (safe cause) t"
  by (auto simp: safe_is_err)

end

end
