(* ===== verification/Resource_Errors.thy ===== *)
theory Resource_Errors
  imports Go_Errors
begin

text \<open>
  \<open>mss-boot/runtime/resource/errors.go\<close>: how the resource graph wraps provider errors.
  \<open>lifecycleError\<close> hides the provider's error behind \<open>RedactedCause\<close>; \<open>nonContextRunCause\<close> removes
  the context error a runner merely echoes. The lemmas show that classification by \<open>errors.Is\<close> is
  kept while no provider object stays reachable.
\<close>

abbreviation "resource_sentinel c \<equiv> Sentinel (Resource_class c)"

section \<open>Operations\<close>

definition invalid :: "string \<Rightarrow> string \<Rightarrow> goerr" where
  "invalid path reason = ValidationError path reason (Resource_class ErrInvalidGraph)"

definition redactCause :: "goerr option \<Rightarrow> goerr option" where
  "redactCause cause = (case cause of None \<Rightarrow> None | Some c \<Rightarrow> Some (RedactedCause c))"

definition lifecycleError :: "string \<Rightarrow> operation \<Rightarrow> goerr option \<Rightarrow> goerr option" where
  "lifecycleError resourceName op cause =
     (case redactCause cause of
        None \<Rightarrow> None
      | Some c \<Rightarrow> Some (LifecycleError resourceName op c))"

definition joinLifecycleContext :: "goerr option \<Rightarrow> operation \<Rightarrow> sentinel option \<Rightarrow> goerr option" where
  "joinLifecycleContext result op contextErr =
     (case contextErr of
        None \<Rightarrow> result
      | Some c \<Rightarrow>
          if is_err result c then result
          else errors_Join [result, lifecycleError '''' op (Some (Sentinel c))])"

fun contextOnlyErrorTree :: "goerr \<Rightarrow> sentinel \<Rightarrow> bool" where
  "contextOnlyErrorTree (Sentinel s) c = (s = c)"
| "contextOnlyErrorTree (Joined es) c = (es \<noteq> [] \<and> (\<forall>e \<in> set es. contextOnlyErrorTree e c))"
| "contextOnlyErrorTree (ForeignWrap _ e) c = contextOnlyErrorTree e c"
| "contextOnlyErrorTree (LifecycleError _ _ e) c = contextOnlyErrorTree e c"
| "contextOnlyErrorTree (RedactedCause _) c = False"
| "contextOnlyErrorTree (FilteredRunCause _ _) c = False"
| "contextOnlyErrorTree (ValidationError _ _ class) c = (class = c)"
| "contextOnlyErrorTree (OperationError _ safe) c =
     (case safe of None \<Rightarrow> False | Some e \<Rightarrow> contextOnlyErrorTree e c)"

definition nonContextRunCause :: "goerr \<Rightarrow> sentinel option \<Rightarrow> goerr option" where
  "nonContextRunCause cause contextErr =
     (case contextErr of
        None \<Rightarrow> Some cause
      | Some c \<Rightarrow>
          if \<not> errors_Is cause c then Some cause
          else if contextOnlyErrorTree cause c then None
          else Some (FilteredRunCause cause c))"

section \<open>Lemmas\<close>

lemma lifecycleError_None [simp]: "lifecycleError n op None = None"
  by (simp add: lifecycleError_def redactCause_def)

lemma lifecycleError_Some [simp]:
  "lifecycleError n op (Some c) = Some (LifecycleError n op (RedactedCause c))"
  by (simp add: lifecycleError_def redactCause_def)

lemma lifecycleError_eq_None [simp]: "lifecycleError n op c = None \<longleftrightarrow> c = None"
  by (cases c) simp_all

lemma is_err_lifecycleError: "is_err (lifecycleError n op c) t = is_err c t"
  by (cases c) simp_all

lemma redacted_lifecycleError: "redacted (lifecycleError n op c)"
  by (cases c) simp_all

lemma is_err_joinLifecycleContext:
  "is_err (joinLifecycleContext r op ce) t \<longleftrightarrow> is_err r t \<or> ce = Some t"
  by (auto simp: joinLifecycleContext_def is_err_lifecycleError split: option.splits)

lemma joinLifecycleContext_None [simp]:
  "joinLifecycleContext r op ce = None \<longleftrightarrow> r = None \<and> ce = None"
  by (cases r) (auto simp: joinLifecycleContext_def simp del: not_None_eq split: option.splits)

lemma joinLifecycleContext_ex [simp]:
  "(\<exists>y. joinLifecycleContext r op ce = Some y) \<longleftrightarrow> (\<exists>y. r = Some y) \<or> (\<exists>y. ce = Some y)"
  by (metis joinLifecycleContext_None not_None_eq)

lemma redacted_joinLifecycleContext:
  "redacted r \<Longrightarrow> redacted (joinLifecycleContext r op ce)"
  by (auto simp: joinLifecycleContext_def redacted_lifecycleError simp del: lifecycleError_Some
      split: option.splits)

lemma contextOnly_only: "contextOnlyErrorTree e c \<Longrightarrow> errors_Is e t \<longleftrightarrow> t = c"
  by (induction e c rule: contextOnlyErrorTree.induct)
    (auto split: option.splits, metis list.set_intros(1) neq_Nil_conv)

section \<open>Properties\<close>

text \<open>
  \<open>lifecycleError\<close> keeps every classification of the provider error (the result matches a
  sentinel exactly when the cause does, and is nil exactly when the cause is nil) while no provider
  error object can be reached from it by unwrapping.
\<close>

theorem lifecycleError_classifies_and_redacts:
  "(lifecycleError n op cause = None \<longleftrightarrow> cause = None)
   \<and> (\<forall>t. is_err (lifecycleError n op cause) t = is_err cause t)
   \<and> redacted (lifecycleError n op cause)"
  by (simp add: is_err_lifecycleError redacted_lifecycleError)

text \<open>
  Filtering the echoed context error out of a runner's result removes exactly that
  classification: the filtered error matches a sentinel if and only if the runner's error did and the
  sentinel is not the context error. In particular an error is dropped only when it carried nothing
  but the context error.
\<close>

theorem nonContextRunCause_exact:
  "is_err (nonContextRunCause cause (Some c)) t \<longleftrightarrow> errors_Is cause t \<and> t \<noteq> c"
  by (auto simp: nonContextRunCause_def contextOnly_only)

end
