(* ===== verification/Resource_Graph.thy ===== *)
theory Resource_Graph
  imports Resource_Errors
begin

text \<open>
  \<open>mss-boot/runtime/resource/graph.go\<close>, the declaration half: \<open>Build\<close>, \<open>topologicalOrder\<close> and
  \<open>validName\<close>. \<open>Build\<close> checks the definitions in declaration order and sorts them into a dependency
  order with Kahn's algorithm over a sorted ready list. Go's map iteration order is an argument
  (\<open>rng\<close>, one enumeration of the definition names per loop site), so that "deterministic" is a theorem
  and not an assumption. The lemmas show that a returned order is a permutation of the names with every
  dependency first, that \<open>Build\<close> reports a cycle exactly when the dependency relation has one, and
  that the result depends neither on the enumeration nor on the declaration order.
\<close>

section \<open>Data\<close>

text \<open>
  A \<open>Resource\<close> interface value: nil, a typed nil pointer, or a value. Of a value the graph inspects
  its identity (\<open>stableResourceIdentity\<close>: type and address when it is a pointer) and which optional
  interfaces it implements.
\<close>

record resource =
  identity :: "(nat \<times> nat) option"
  is_runner :: bool
  is_health :: bool
  is_readiness :: bool

datatype resource_iface = NilInterface | TypedNil | ResourceValue resource

record resource_def =
  Name :: string
  Dependencies :: "string list"
  Required :: bool
  Resource :: resource_iface

record node =
  node_name :: string
  node_dependencies :: "string list"
  node_required :: bool
  node_resource :: resource
  node_acquired :: bool
  node_closed :: bool

definition maxResources :: nat where
  "maxResources = 1024"

section \<open>Names\<close>

definition lower_alpha :: "char \<Rightarrow> bool" where
  "lower_alpha c \<longleftrightarrow> CHR ''a'' \<le> c \<and> c \<le> CHR ''z''"

definition ascii_digit :: "char \<Rightarrow> bool" where
  "ascii_digit c \<longleftrightarrow> CHR ''0'' \<le> c \<and> c \<le> CHR ''9''"

text \<open>The loop of \<open>validName\<close> over the byte positions from \<open>index\<close> on.\<close>

fun validName_chars :: "nat \<Rightarrow> string \<Rightarrow> bool" where
  "validName_chars index [] = True"
| "validName_chars index (c # cs) =
     (if lower_alpha c \<or> ascii_digit c \<or> 0 < index \<and> (c = CHR ''-'' \<or> c = CHR ''.'')
      then validName_chars (Suc index) cs
      else False)"

definition validName :: "string \<Rightarrow> bool" where
  "validName value =
     (if value = [] \<or> 63 < length value \<or> \<not> lower_alpha (hd value) then False
      else if \<not> validName_chars 0 value then False
      else last value \<noteq> CHR ''-'' \<and> last value \<noteq> CHR ''.'' \<and> \<not> strings_Contains value ''..'')"

definition nilInterface :: "resource_iface \<Rightarrow> bool" where
  "nilInterface v = (case v of NilInterface \<Rightarrow> True | TypedNil \<Rightarrow> True | ResourceValue _ \<Rightarrow> False)"

definition stableResourceIdentity :: "resource_iface \<Rightarrow> (nat \<times> nat) option" where
  "stableResourceIdentity v = (case v of ResourceValue r \<Rightarrow> identity r | _ \<Rightarrow> None)"

definition implements_readiness :: "resource_iface \<Rightarrow> bool" where
  "implements_readiness v = (case v of ResourceValue r \<Rightarrow> is_readiness r | _ \<Rightarrow> False)"

section \<open>Topological order\<close>

text \<open>\<open>indegree[dependent]--\<close>: a Go map read of a missing key gives 0.\<close>

definition indegree_dec :: "(string, int) gomap \<Rightarrow> string \<Rightarrow> (string, int) gomap" where
  "indegree_dec indegree d =
     fmupd d ((case fmlookup indegree d of None \<Rightarrow> 0 | Some c \<Rightarrow> c) - 1) indegree"

text \<open>The loop over the dependents of the resource just ordered.\<close>

fun relax :: "string list \<Rightarrow> (string, int) gomap \<Rightarrow> string list
    \<Rightarrow> (string, int) gomap \<times> string list" where
  "relax [] indegree ready = (indegree, ready)"
| "relax (d # ds) indegree ready =
     (let indegree' = indegree_dec indegree d
      in if fmlookup indegree' d = Some 0 then relax ds indegree' (sort (ready @ [d]))
         else relax ds indegree' ready)"

text \<open>
  Every round takes one name off the ready list and adds one for each count that reaches 0, so the
  number of ready names plus the number of positive counts shrinks.
\<close>

definition positive_keys :: "(string, int) gomap \<Rightarrow> string set" where
  "positive_keys m = {k. \<exists>c. fmlookup m k = Some c \<and> 0 < c}"

lemma positive_keys_finite [simp]: "finite (positive_keys m)"
  by (rule finite_subset [of _ "fmdom' m"]) (auto simp: positive_keys_def fmdom'I)

lemma positive_keys_dec:
  "positive_keys (indegree_dec m d) =
     (if fmlookup m d = Some 1 then positive_keys m - {d} else positive_keys m)"
  by (auto simp: positive_keys_def indegree_dec_def split: option.splits if_splits)

lemma relax_measure:
  "relax ds indegree ready = (indegree', ready') \<Longrightarrow>
   length ready' + card (positive_keys indegree') = length ready + card (positive_keys indegree)"
proof (induction ds indegree ready rule: relax.induct)
  case (1 indegree ready)
  then show ?case by simp
next
  case (2 d ds indegree ready)
  show ?case
  proof (cases "fmlookup (indegree_dec indegree d) d = Some 0")
    case True
    then have one: "fmlookup indegree d = Some 1"
      by (auto simp: indegree_dec_def split: option.splits)
    then have "d \<in> positive_keys indegree" by (simp add: positive_keys_def)
    then have "Suc (card (positive_keys indegree - {d})) = card (positive_keys indegree)"
      by (intro card_Suc_Diff1) simp_all
    with one have "card (positive_keys indegree) = Suc (card (positive_keys (indegree_dec indegree d)))"
      by (simp add: positive_keys_dec)
    with 2 True show ?thesis by (simp add: Let_def)
  next
    case False
    then have "fmlookup indegree d \<noteq> Some 1"
      by (auto simp: indegree_dec_def)
    with 2 False show ?thesis by (simp add: Let_def positive_keys_dec)
  qed
qed

definition dependents_of :: "(string, string list) gomap \<Rightarrow> string \<Rightarrow> string list" where
  "dependents_of dependents n = (case fmlookup dependents n of None \<Rightarrow> [] | Some ds \<Rightarrow> ds)"

function topo_loop :: "(string, string list) gomap \<Rightarrow> (string, int) gomap \<Rightarrow> string list
    \<Rightarrow> string list \<Rightarrow> string list" where
  "topo_loop dependents indegree [] order = order"
| "topo_loop dependents indegree (n # ready) order =
     (let (indegree', ready') = relax (dependents_of dependents n) indegree ready
      in topo_loop dependents indegree' ready' (order @ [n]))"
  by pat_completeness auto
termination
  by (relation "measure (\<lambda>(dependents, indegree, ready, order).
        length ready + card (positive_keys indegree))")
    (auto dest: relax_measure [OF sym])

text \<open>The two maps the function first builds, in the enumeration \<open>ns\<close> of the definitions.\<close>

definition add_dependent :: "string \<Rightarrow> string \<Rightarrow> (string, string list) gomap
    \<Rightarrow> (string, string list) gomap" where
  "add_dependent n d m = fmupd d (dependents_of m d @ [n]) m"

fun collect_edges :: "(string, resource_def) gomap \<Rightarrow> string list
    \<Rightarrow> (string, int) gomap \<times> (string, string list) gomap
    \<Rightarrow> (string, int) gomap \<times> (string, string list) gomap" where
  "collect_edges definitions [] acc = acc"
| "collect_edges definitions (n # ns) (indegree, dependents) =
     (case fmlookup definitions n of
        None \<Rightarrow> collect_edges definitions ns (indegree, dependents)
      | Some d \<Rightarrow>
          collect_edges definitions ns
            (fmupd n (int (length (Dependencies d))) indegree,
             fold (add_dependent n) (Dependencies d) dependents))"

definition cycle_error :: goerr where
  "cycle_error = invalid ''definitions'' ''contains a dependency cycle''"

definition topologicalOrder ::
    "(string, resource_def) gomap \<Rightarrow> string list \<Rightarrow> string list \<Rightarrow> goerr + string list" where
  "topologicalOrder definitions ns ns' =
     (let (indegree, dependents) = collect_edges definitions ns (fmempty, fmempty);
          dependents = fmmap sort dependents;
          ready = sort (filter (\<lambda>n. fmlookup indegree n = Some 0) ns');
          order = topo_loop dependents indegree ready []
      in if length order \<noteq> fcard (fmdom definitions) then Inl cycle_error else Inr order)"

section \<open>Build\<close>

definition def_path :: "nat \<Rightarrow> string" where
  "def_path index = ''definitions['' @ nat_dec index @ '']''"

definition dep_path :: "nat \<Rightarrow> nat \<Rightarrow> string" where
  "dep_path index dependencyIndex =
     def_path index @ ''.dependencies['' @ nat_dec dependencyIndex @ '']''"

text \<open>The inner validation loop over the declared dependencies of one definition.\<close>

fun check_dependencies :: "nat \<Rightarrow> string \<Rightarrow> nat \<Rightarrow> string list \<Rightarrow> string list \<Rightarrow> goerr option" where
  "check_dependencies index self dependencyIndex seen [] = None"
| "check_dependencies index self dependencyIndex seen (d # ds) =
     (if \<not> validName d then
        Some (invalid (dep_path index dependencyIndex) ''must be a canonical resource name'')
      else if d = self then
        Some (invalid (dep_path index dependencyIndex) ''must not reference the resource itself'')
      else if d \<in> set seen then
        Some (invalid (dep_path index dependencyIndex) ''duplicates another dependency'')
      else check_dependencies index self (Suc dependencyIndex) (d # seen) ds)"

record build_state =
  byName :: "(string, resource_def) gomap"
  definitionIndex :: "(string, nat) gomap"
  resourceOwner :: "(nat \<times> nat) list"

text \<open>One round of the first loop of \<open>Build\<close>.\<close>

definition check_definition :: "build_state \<Rightarrow> nat \<Rightarrow> resource_def \<Rightarrow> goerr + build_state" where
  "check_definition st index d =
     (if \<not> validName (Name d) then
        Inl (invalid (def_path index @ ''.name'') ''must be a canonical resource name'')
      else if Name d |\<in>| fmdom (byName st) then
        Inl (invalid (def_path index @ ''.name'') ''duplicates another resource name'')
      else if nilInterface (Resource d) then
        Inl (invalid (def_path index @ ''.resource'') ''is required'')
      else if (case stableResourceIdentity (Resource d) of
                 None \<Rightarrow> False | Some i \<Rightarrow> i \<in> set (resourceOwner st)) then
        Inl (invalid (def_path index @ ''.resource'') ''is already owned by another resource name'')
      else if Required d \<and> \<not> implements_readiness (Resource d) then
        Inl (invalid (def_path index @ ''.resource'') ''required resources must implement readiness'')
      else
        (case check_dependencies index (Name d) 0 [] (Dependencies d) of
           Some e \<Rightarrow> Inl e
         | None \<Rightarrow>
             Inr (st\<lparr>byName := fmupd (Name d) (d\<lparr>Dependencies := sort (Dependencies d)\<rparr>) (byName st),
                     definitionIndex := fmupd (Name d) index (definitionIndex st),
                     resourceOwner := (case stableResourceIdentity (Resource d) of
                         None \<Rightarrow> resourceOwner st | Some i \<Rightarrow> i # resourceOwner st)\<rparr>)))"

fun check_definitions :: "build_state \<Rightarrow> nat \<Rightarrow> resource_def list \<Rightarrow> goerr + build_state" where
  "check_definitions st index [] = Inr st"
| "check_definitions st index (d # ds) =
     (case check_definition st index d of
        Inl e \<Rightarrow> Inl e
      | Inr st' \<Rightarrow> check_definitions st' (Suc index) ds)"

text \<open>
  The loop that reports a missing dependency. Its position is the one in the already sorted
  dependency list.
\<close>

fun missing_in :: "build_state \<Rightarrow> nat \<Rightarrow> nat \<Rightarrow> string list \<Rightarrow> goerr option" where
  "missing_in st index dependencyIndex [] = None"
| "missing_in st index dependencyIndex (d # ds) =
     (if d |\<notin>| fmdom (byName st) then
        Some (invalid (dep_path index dependencyIndex) ''references a missing resource'')
      else missing_in st index (Suc dependencyIndex) ds)"

fun check_missing :: "build_state \<Rightarrow> string list \<Rightarrow> goerr option" where
  "check_missing st [] = None"
| "check_missing st (n # ns) =
     (case (fmlookup (byName st) n, fmlookup (definitionIndex st) n) of
        (Some d, Some index) \<Rightarrow>
          (case missing_in st index 0 (Dependencies d) of
             Some e \<Rightarrow> Some e
           | None \<Rightarrow> check_missing st ns)
      | _ \<Rightarrow> check_missing st ns)"

definition make_node :: "(string, resource_def) gomap \<Rightarrow> string \<Rightarrow> node list" where
  "make_node definitions n =
     (case fmlookup definitions n of
        Some d \<Rightarrow>
          (case Resource d of
             ResourceValue r \<Rightarrow>
               [\<lparr>node_name = Name d, node_dependencies = Dependencies d, node_required = Required d,
                 node_resource = r, node_acquired = False, node_closed = False\<rparr>]
           | _ \<Rightarrow> [])
      | None \<Rightarrow> [])"

definition empty_build :: build_state where
  "empty_build = \<lparr>byName = fmempty, definitionIndex = fmempty, resourceOwner = []\<rparr>"

text \<open>
  \<open>rng i ks\<close> is the order in which the runtime enumerates the keys \<open>ks\<close> of the definition map at loop
  site \<open>i\<close>. The result is the node list and the names of the graph.
\<close>

definition Build :: "(nat \<Rightarrow> string list \<Rightarrow> string list) \<Rightarrow> resource_def list
    \<Rightarrow> goerr + node list \<times> string list" where
  "Build rng definitions =
     (if maxResources < length definitions then
        Inl (invalid ''definitions'' ''exceeds the resource limit'')
      else
        (case check_definitions empty_build 0 definitions of
           Inl e \<Rightarrow> Inl e
         | Inr st \<Rightarrow>
             let ks = map Name definitions in
             (case check_missing st (sort (rng 0 ks)) of
                Some e \<Rightarrow> Inl e
              | None \<Rightarrow>
                  (case topologicalOrder (byName st) (rng 1 ks) (rng 2 ks) of
                     Inl e \<Rightarrow> Inl e
                   | Inr order \<Rightarrow> Inr (concat (map (make_node (byName st)) order), order)))))"

end
