(* ===== verification/Resource_Topo.thy ===== *)
theory Resource_Topo
  imports Resource_Graph
begin

text \<open>
  Correctness of \<open>topologicalOrder\<close>: the loop invariant of Kahn's algorithm, preserved by every round
  and carried to the end; the result is a permutation of the names with dependencies first, or the
  cycle error exactly when the dependency relation has a cycle; and it does not depend on the
  enumeration order of the two map loops.
\<close>

section \<open>Correctness of the Kahn loop\<close>

lemma relax_spec:
  assumes "relax ds indegree ready = (indegree', ready')" and "distinct ds"
    and "\<forall>d \<in> set ds. fmlookup indegree d \<noteq> None"
  shows "fmlookup indegree' k =
           (if k \<in> set ds then map_option (\<lambda>c. c - 1) (fmlookup indegree k) else fmlookup indegree k)
         \<and> mset ready' = mset ready + mset (filter (\<lambda>d. fmlookup indegree d = Some 1) ds)"
  using assms
proof (induction ds indegree ready rule: relax.induct)
  case (1 indegree ready)
  then show ?case by simp
next
  case (2 d ds indegree ready)
  let ?ind = "indegree_dec indegree d"
  have look: "fmlookup ?ind k = (if k = d then map_option (\<lambda>c. c - 1) (fmlookup indegree k)
      else fmlookup indegree k)" for k
    using 2(5) by (auto simp: indegree_dec_def)
  have same: "filter (\<lambda>e. fmlookup ?ind e = Some 1) ds = filter (\<lambda>e. fmlookup indegree e = Some 1) ds"
    using 2(4) by (intro filter_cong) (auto simp: look)
  have rest: "\<forall>e \<in> set ds. fmlookup ?ind e \<noteq> None"
    using 2(4,5) by (auto simp: look)
  show ?case
  proof (cases "fmlookup ?ind d = Some 0")
    case True
    then have "fmlookup indegree d = Some 1" by (auto simp: look)
    moreover have "relax ds ?ind (sort (ready @ [d])) = (indegree', ready')"
      using 2(3) True by (simp add: Let_def)
    moreover have "mset ready' = mset (sort (ready @ [d])) +
        mset (filter (\<lambda>e. fmlookup ?ind e = Some 1) ds)"
      and "fmlookup indegree' k = (if k \<in> set ds then map_option (\<lambda>c. c - 1) (fmlookup ?ind k)
        else fmlookup ?ind k)"
      using 2(1) [OF refl True calculation(2) _ rest] 2(4) by auto
    ultimately show ?thesis
      unfolding same using 2(4) by (auto simp: look)
  next
    case False
    then have "fmlookup indegree d \<noteq> Some 1" by (auto simp: look)
    moreover have "relax ds ?ind ready = (indegree', ready')"
      using 2(3) False by (simp add: Let_def)
    moreover have "mset ready' = mset ready + mset (filter (\<lambda>e. fmlookup ?ind e = Some 1) ds)"
      and "fmlookup indegree' k = (if k \<in> set ds then map_option (\<lambda>c. c - 1) (fmlookup ?ind k)
        else fmlookup ?ind k)"
      using 2(2) [OF refl False calculation(2) _ rest] 2(4) by auto
    ultimately show ?thesis
      unfolding same using 2(4) by (auto simp: look)
  qed
qed

text \<open>
  The loop invariant: ready and ordered names are disjoint and exactly the names whose dependencies
  are all ordered, every count is the number of dependencies still missing, and the order so far
  lists dependencies first.
\<close>

definition kahn_inv :: "string set \<Rightarrow> (string \<Rightarrow> string set) \<Rightarrow> (string, int) gomap \<Rightarrow> string list
    \<Rightarrow> string list \<Rightarrow> bool" where
  "kahn_inv N deps indegree ready order \<longleftrightarrow>
     distinct (order @ ready)
   \<and> (\<forall>n. n \<in> set (order @ ready) \<longleftrightarrow> n \<in> N \<and> deps n \<subseteq> set order)
   \<and> (\<forall>n \<in> N. fmlookup indegree n = Some (int (card (deps n - set order))))
   \<and> predecessors_first deps order"

lemma kahn_inv_step:
  assumes inv: "kahn_inv N deps indegree (n # ready) order"
    and fin: "finite N" and closed: "\<forall>m \<in> N. deps m \<subseteq> N"
    and ds: "distinct ds" "set ds = {m \<in> N. n \<in> deps m}"
    and relaxed: "relax ds indegree ready = (indegree', ready')"
  shows "kahn_inv N deps indegree' ready' (order @ [n])"
proof -
  have fin_deps: "finite (deps m)" if "m \<in> N" for m
    using that closed fin finite_subset by blast
  have n: "n \<in> N" "n \<notin> set order" "n \<notin> set ready" "deps n \<subseteq> set order"
    and dist: "distinct (order @ ready)"
    and mem: "\<And>m. m \<in> set order \<or> m = n \<or> m \<in> set ready \<longleftrightarrow> m \<in> N \<and> deps m \<subseteq> set order"
    and cnt: "\<And>m. m \<in> N \<Longrightarrow> fmlookup indegree m = Some (int (card (deps m - set order)))"
    using inv by (auto simp: kahn_inv_def)
  have spec: "fmlookup indegree' k =
        (if k \<in> set ds then map_option (\<lambda>c. c - 1) (fmlookup indegree k) else fmlookup indegree k)"
      "mset ready' = mset ready + mset (filter (\<lambda>d. fmlookup indegree d = Some 1) ds)" for k
    using relax_spec [OF relaxed ds(1)] ds(2) cnt by auto
  have minus: "deps m - insert n (set order) = (deps m - set order) - {n}" for m by auto
  have cnt': "fmlookup indegree' m = Some (int (card (deps m - set (order @ [n]))))" if m: "m \<in> N" for m
  proof (cases "n \<in> deps m")
    case True
    with n(2) fin_deps [OF m] have "Suc (card (deps m - set order - {n})) = card (deps m - set order)"
      by (intro card_Suc_Diff1) auto
    with True m show ?thesis by (simp add: spec(1) ds(2) cnt minus del: of_nat_Suc)
  next
    case False
    with m show ?thesis by (simp add: spec(1) ds(2) cnt minus)
  qed
  have newset: "set (filter (\<lambda>d. fmlookup indegree d = Some 1) ds) =
      {m \<in> N. n \<in> deps m \<and> deps m - set order = {n}}"
  proof -
    have "(fmlookup indegree m = Some 1) = (deps m - set order = {n})" if "m \<in> N" "n \<in> deps m" for m
    proof -
      let ?A = "deps m - set order"
      have "n \<in> ?A" using that n(2) by blast
      then have "card ?A = 1 \<longleftrightarrow> ?A = {n}"
        by (metis card_1_singleton_iff One_nat_def is_singletonI is_singleton_altdef singletonD)
      then show ?thesis by (simp add: cnt [OF that(1)])
    qed
    then show ?thesis by (auto simp: ds(2))
  qed
  have setr: "set ready' = set ready \<union> {m \<in> N. n \<in> deps m \<and> deps m - set order = {n}}"
    using arg_cong [OF spec(2), of set_mset] by (simp only: set_mset_mset set_mset_union newset)
  have disj: "set ready \<inter> set (filter (\<lambda>d. fmlookup indegree d = Some 1) ds) = {}"
    unfolding newset using mem n(2) by blast
  have dr: "distinct ready'"
    using dist ds(1) disj spec(2)
    by (metis distinct_append distinct_filter mset_append mset_eq_imp_distinct_iff)
  have mem': "m \<in> set (order @ [n] @ ready') \<longleftrightarrow> m \<in> N \<and> deps m \<subseteq> set (order @ [n])" for m
  proof -
    have "m \<in> set (order @ [n] @ ready') \<longleftrightarrow>
        (m \<in> N \<and> deps m \<subseteq> set order) \<or> (m \<in> N \<and> n \<in> deps m \<and> deps m - set order = {n})"
      using mem [of m] by (auto simp: setr)
    also have "\<dots> \<longleftrightarrow> m \<in> N \<and> deps m \<subseteq> set (order @ [n])" by auto
    finally show ?thesis .
  qed
  have "set ready' \<inter> set (order @ [n]) = {}"
  proof -
    have "m \<notin> set order" "m \<noteq> n" if "m \<in> N" "n \<in> deps m" "deps m - set order = {n}" for m
      using that mem [of m] n(2,4) by blast+
    with dist n(2,3) show ?thesis by (auto simp: setr)
  qed
  with dist n dr have "distinct ((order @ [n]) @ ready')" by auto
  moreover have "predecessors_first deps (order @ [n])"
    using inv n(4) by (simp add: kahn_inv_def predecessors_first_snoc)
  ultimately show ?thesis
    using mem' cnt' unfolding kahn_inv_def by simp
qed

lemma topo_loop_inv:
  assumes "kahn_inv N deps indegree ready order"
    and "finite N" and "\<forall>m \<in> N. deps m \<subseteq> N"
    and "\<forall>n. distinct (dependents_of dependents n)
           \<and> set (dependents_of dependents n) = {m \<in> N. n \<in> deps m}"
  shows "\<exists>indegree'. kahn_inv N deps indegree' [] (topo_loop dependents indegree ready order)"
  using assms
proof (induction dependents indegree ready order rule: topo_loop.induct)
  case (1 dependents indegree order)
  then show ?case by auto
next
  case (2 dependents indegree n ready order)
  obtain indegree' ready' where r: "relax (dependents_of dependents n) indegree ready = (indegree', ready')"
    by fastforce
  have "kahn_inv N deps indegree' ready' (order @ [n])"
    using 2(2,3,4,5) by (intro kahn_inv_step [OF 2(2) _ _ _ _ r]) auto
  with 2(1) [OF r [symmetric] refl] 2(3,4,5) show ?case by (simp add: r)
qed

section \<open>The order of a definition map\<close>

definition def_deps :: "(string, resource_def) gomap \<Rightarrow> string \<Rightarrow> string set" where
  "def_deps definitions n =
     (case fmlookup definitions n of None \<Rightarrow> {} | Some d \<Rightarrow> set (Dependencies d))"

definition well_formed :: "(string, resource_def) gomap \<Rightarrow> bool" where
  "well_formed definitions \<longleftrightarrow>
     (\<forall>n d. fmlookup definitions n = Some d \<longrightarrow>
        distinct (Dependencies d) \<and> set (Dependencies d) \<subseteq> fmdom' definitions)"

lemma dependents_of_add_dependent:
  "distinct ds \<Longrightarrow> dependents_of (fold (add_dependent n) ds m) d =
     dependents_of m d @ (if d \<in> set ds then [n] else [])"
  by (induction ds arbitrary: m) (auto simp: add_dependent_def dependents_of_def)

lemma dependents_of_fmmap_sort: "dependents_of (fmmap sort m) d = sort (dependents_of m d)"
  by (auto simp: dependents_of_def split: option.splits)

lemma dependents_of_fmempty [simp]: "dependents_of fmempty d = []"
  by (simp add: dependents_of_def)

lemma collect_edges_spec:
  assumes "collect_edges D ns (ind, dep) = (ind', dep')" and "distinct ns"
    and "\<forall>n \<in> set ns. \<exists>d. fmlookup D n = Some d \<and> distinct (Dependencies d)"
  shows "fmlookup ind' k = (if k \<in> set ns then Some (int (card (def_deps D k))) else fmlookup ind k)
    \<and> dependents_of dep' e = dependents_of dep e @ filter (\<lambda>n. e \<in> def_deps D n) ns"
  using assms
proof (induction ns arbitrary: ind dep)
  case Nil
  then show ?case by simp
next
  case (Cons n ns)
  then obtain d where d: "fmlookup D n = Some d" "distinct (Dependencies d)" by auto
  have "collect_edges D ns (fmupd n (int (length (Dependencies d))) ind,
      fold (add_dependent n) (Dependencies d) dep) = (ind', dep')"
    using Cons(2) d by simp
  note IH = Cons(1) [OF this]
  show ?case
    using IH Cons(3,4) d
    by (auto simp: dependents_of_add_dependent def_deps_def distinct_card)
qed

lemma topo_loop_cong:
  "(\<And>n. dependents_of m n = dependents_of m' n) \<Longrightarrow>
   topo_loop m indegree ready order = topo_loop m' indegree ready order"
proof (induction m indegree ready order rule: topo_loop.induct)
  case (1 m indegree order)
  then show ?case by simp
next
  case (2 m indegree n ready order)
  then show ?case by (simp split: prod.splits)
qed

text \<open>The enumerations of the two map loops do not influence the result.\<close>

lemma topologicalOrder_enumeration:
  assumes wf: "well_formed D" and e: "enumerates D ns" "enumerates D ns'" "enumerates D ms" "enumerates D ms'"
  shows "topologicalOrder D ns ns' = topologicalOrder D ms ms'"
proof -
  obtain ind dep where c: "collect_edges D ns (fmempty, fmempty) = (ind, dep)" by fastforce
  obtain ind2 dep2 where c2: "collect_edges D ms (fmempty, fmempty) = (ind2, dep2)" by fastforce
  have pre: "\<forall>n \<in> set ks. \<exists>d. fmlookup D n = Some d \<and> distinct (Dependencies d)"
    if "enumerates D ks" for ks
    using wf enumerates_set [OF that] by (auto simp: well_formed_def fmlookup_dom'_iff)
  note s = collect_edges_spec [OF c _ pre [OF e(1)]] and s2 = collect_edges_spec [OF c2 _ pre [OF e(3)]]
  have "ind = ind2"
    using s s2 e enumerates_set [OF e(1)] enumerates_set [OF e(3)]
    by (intro fmap_ext) (auto simp: enumerates_def)
  moreover have "dependents_of (fmmap sort dep) n = dependents_of (fmmap sort dep2) n" for n
    using s s2 e enumerates_mset [OF e(1,3)]
    by (auto simp: dependents_of_fmmap_sort enumerates_def intro!: sort_eq_if_mset_eq)
  moreover have "sort (filter P ns') = sort (filter P ms')" for P
    using enumerates_mset [OF e(2,4)] by (intro sort_eq_if_mset_eq) simp
  ultimately show ?thesis
    using topo_loop_cong [of "fmmap sort dep" "fmmap sort dep2"]
    by (simp add: topologicalOrder_def c c2 Let_def)
qed

definition dep_relation :: "(string, resource_def) gomap \<Rightarrow> (string \<times> string) set" where
  "dep_relation D = {(a, b). a \<in> def_deps D b}"

lemma topologicalOrder_run:
  assumes wf: "well_formed D" and e: "enumerates D ns" "enumerates D ns'"
  obtains order indegree where
    "topologicalOrder D ns ns' =
       (if length order \<noteq> fcard (fmdom D) then Inl cycle_error else Inr order)"
    "kahn_inv (fmdom' D) (def_deps D) indegree [] order"
proof -
  obtain ind dep where c: "collect_edges D ns (fmempty, fmempty) = (ind, dep)" by fastforce
  have N: "set ns = fmdom' D" "set ns' = fmdom' D" "distinct ns" "distinct ns'"
    using e enumerates_set by (auto simp: enumerates_def)
  have "\<forall>n \<in> set ns. \<exists>d. fmlookup D n = Some d \<and> distinct (Dependencies d)"
    using wf N by (auto simp: well_formed_def fmlookup_dom'_iff)
  note s = collect_edges_spec [OF c N(3) this]
  have closed: "\<forall>m \<in> fmdom' D. def_deps D m \<subseteq> fmdom' D"
    using wf by (auto simp: well_formed_def def_deps_def split: option.splits)
  have fin: "finite (def_deps D n)" for n by (simp add: def_deps_def split: option.splits)
  let ?ready = "sort (filter (\<lambda>n. fmlookup ind n = Some 0) ns')"
  have "kahn_inv (fmdom' D) (def_deps D) ind ?ready []"
    using s N fin by (auto simp: kahn_inv_def)
  moreover have "\<forall>n. distinct (dependents_of (fmmap sort dep) n)
      \<and> set (dependents_of (fmmap sort dep) n) = {m \<in> fmdom' D. n \<in> def_deps D m}"
    using s N by (auto simp: dependents_of_fmmap_sort)
  ultimately obtain ind' where
    "kahn_inv (fmdom' D) (def_deps D) ind' [] (topo_loop (fmmap sort dep) ind ?ready [])"
    using topo_loop_inv [OF _ finite_fmdom' closed] by blast
  then show thesis
    by (intro that [of "topo_loop (fmmap sort dep) ind ?ready []"])
      (simp_all add: topologicalOrder_def c Let_def)
qed

lemma kahn_complete:
  assumes inv: "kahn_inv N deps indegree [] order" and fin: "finite N"
    and closed: "\<forall>m \<in> N. deps m \<subseteq> N" and out: "\<And>n. n \<notin> N \<Longrightarrow> deps n = {}"
  shows "length order = card N \<longleftrightarrow> acyclic {(a, b). a \<in> deps b}"
proof -
  have d: "distinct order" and m: "\<And>n. n \<in> set order \<longleftrightarrow> n \<in> N \<and> deps n \<subseteq> set order"
    and p: "predecessors_first deps order"
    using inv by (auto simp: kahn_inv_def)
  have sub: "set order \<subseteq> N" using m by blast
  show ?thesis
  proof (cases "set order = N")
    case True
    then have "acyclic {(a, b). a \<in> deps b}"
      using out by (intro predecessors_first_acyclic [OF p d]) auto
    with True d show ?thesis using distinct_card [OF d] by simp
  next
    case False
    have "length order < card N"
      using False sub fin d by (metis distinct_card psubsetI psubset_card_mono)
    moreover have "\<not> acyclic {(a, b). a \<in> deps b}"
    proof (rule cycle_if_no_source [of "N - set order"])
      show "finite (N - set order)" using fin by simp
      show "N - set order \<noteq> {}" using False sub by blast
      fix x assume "x \<in> N - set order"
      then have "x \<in> N" "\<not> deps x \<subseteq> set order" using m by blast+
      then show "\<exists>y \<in> N - set order. (y, x) \<in> {(a, b). a \<in> deps b}"
        using closed by blast
    qed
    ultimately show ?thesis by simp
  qed
qed

lemma topologicalOrder_spec:
  assumes wf: "well_formed D" and e: "enumerates D ns" "enumerates D ns'"
  shows "topologicalOrder D ns ns' = Inl cycle_error \<and> \<not> acyclic (dep_relation D)
    \<or> (\<exists>order. topologicalOrder D ns ns' = Inr order \<and> acyclic (dep_relation D)
        \<and> distinct order \<and> set order = fmdom' D \<and> predecessors_first (def_deps D) order)"
proof -
  obtain order ind where t: "topologicalOrder D ns ns' =
       (if length order \<noteq> fcard (fmdom D) then Inl cycle_error else Inr order)"
    and inv: "kahn_inv (fmdom' D) (def_deps D) ind [] order"
    using topologicalOrder_run [OF wf e] by blast
  have closed: "\<forall>m \<in> fmdom' D. def_deps D m \<subseteq> fmdom' D"
    using wf by (auto simp: well_formed_def def_deps_def split: option.splits)
  have out: "def_deps D n = {}" if "n \<notin> fmdom' D" for n
    using that by (simp add: def_deps_def fmdom'_notD)
  have fc: "fcard (fmdom D) = card (fmdom' D)"
    by (simp add: fcard.rep_eq fmdom'_alt_def)
  have ac: "length order = card (fmdom' D) \<longleftrightarrow> acyclic (dep_relation D)"
    using kahn_complete [OF inv _ closed out] by (simp add: dep_relation_def)
  have props: "distinct order" "set order \<subseteq> fmdom' D" "predecessors_first (def_deps D) order"
    using inv by (auto simp: kahn_inv_def)
  show ?thesis
  proof (cases "acyclic (dep_relation D)")
    case True
    with ac have "set order = fmdom' D"
      by (intro distinct_full_length props) simp_all
    with True ac fc t props show ?thesis by simp
  next
    case False
    with ac fc t show ?thesis by simp
  qed
qed

end
