(* ===== verification/Resource_Build.thy ===== *)
theory Resource_Build
  imports Resource_Topo
begin

text \<open>
  The specification of \<open>Build\<close>: \<open>valid_graph\<close> states declaratively which definitions are accepted;
  the lemmas follow the code's phases (the per-definition loop, the missing-dependency loop, the
  topological order) and the properties say that \<open>Build\<close> accepts exactly those, what the returned
  graph is, and that it is the same for every declaration order and every map enumeration.
\<close>

section \<open>What Build accepts\<close>

text \<open>The declarative reading of the checks.\<close>

definition owned_identities :: "resource_def list \<Rightarrow> (nat \<times> nat) list" where
  "owned_identities ds = List.map_filter (\<lambda>d. stableResourceIdentity (Resource d)) ds"

definition valid_definition :: "resource_def \<Rightarrow> bool" where
  "valid_definition d \<longleftrightarrow>
     validName (Name d) \<and> \<not> nilInterface (Resource d)
   \<and> (Required d \<longrightarrow> implements_readiness (Resource d))
   \<and> list_all validName (Dependencies d) \<and> distinct (Dependencies d) \<and> Name d \<notin> set (Dependencies d)"

definition edges :: "resource_def list \<Rightarrow> (string \<times> string) set" where
  "edges ds = {(a, b). \<exists>d \<in> set ds. Name d = b \<and> a \<in> set (Dependencies d)}"

definition valid_graph :: "resource_def list \<Rightarrow> bool" where
  "valid_graph ds \<longleftrightarrow>
     length ds \<le> maxResources \<and> list_all valid_definition ds
   \<and> distinct (map Name ds) \<and> distinct (owned_identities ds)
   \<and> (\<forall>d \<in> set ds. set (Dependencies d) \<subseteq> Name ` set ds)
   \<and> acyclic (edges ds)"

definition fair_range :: "(nat \<Rightarrow> string list \<Rightarrow> string list) \<Rightarrow> bool" where
  "fair_range rng \<longleftrightarrow> (\<forall>i ks. mset (rng i ks) = mset ks)"

section \<open>The validation loops\<close>

lemma check_dependencies_None:
  "check_dependencies index self i seen ds = None \<longleftrightarrow>
     list_all validName ds \<and> self \<notin> set ds \<and> distinct ds \<and> set ds \<inter> set seen = {}"
  by (induction ds arbitrary: i seen) auto

lemma check_dependencies_Some:
  "check_dependencies index self i seen ds = Some e \<Longrightarrow>
     \<not> (list_all validName ds \<and> self \<notin> set ds \<and> distinct ds \<and> set ds \<inter> set seen = {})"
  using check_dependencies_None [of index self i seen ds] by simp

definition sorted_def :: "resource_def \<Rightarrow> resource_def" where
  "sorted_def d = d\<lparr>Dependencies := sort (Dependencies d)\<rparr>"

lemma sorted_def_simps [simp]:
  "Name (sorted_def d) = Name d" "Required (sorted_def d) = Required d"
  "Resource (sorted_def d) = Resource d" "set (Dependencies (sorted_def d)) = set (Dependencies d)"
  "distinct (Dependencies (sorted_def d)) = distinct (Dependencies d)"
  by (simp_all add: sorted_def_def)

text \<open>What the first loop has recorded after the definitions \<open>done\<close>.\<close>

definition build_inv :: "resource_def list \<Rightarrow> build_state \<Rightarrow> bool" where
  "build_inv done st \<longleftrightarrow>
     distinct (map Name done) \<and> list_all valid_definition done
   \<and> byName st = fmap_of_list (map (\<lambda>d. (Name d, sorted_def d)) done)
   \<and> definitionIndex st = fmap_of_list (zip (map Name done) [0..<length done])
   \<and> resourceOwner st = rev (owned_identities done) \<and> distinct (owned_identities done)"

lemma fmupd_add: "k |\<notin>| fmdom m \<Longrightarrow> fmupd k v fmempty ++\<^sub>f m = fmupd k v m"
  by (rule fmap_ext) (auto simp: fmdom_notD)

lemma byName_dom: "build_inv done st \<Longrightarrow> fmdom' (byName st) = Name ` set done"
  by (auto simp: build_inv_def fmdom'_alt_def fset_of_list_elem image_iff)

lemma owned_identities_append: "owned_identities (xs @ ys) = owned_identities xs @ owned_identities ys"
  by (simp add: owned_identities_def List.map_filter_def)

lemma owned_identities_snoc:
  "owned_identities (ds @ [d]) = owned_identities ds
     @ (case stableResourceIdentity (Resource d) of None \<Rightarrow> [] | Some i \<Rightarrow> [i])"
  by (simp add: owned_identities_def List.map_filter_def split: option.splits)

lemma check_definition_step:
  assumes inv: "build_inv done st"
  shows "(case check_definition st (length done) d of
            Inl e \<Rightarrow> \<not> (valid_definition d \<and> Name d \<notin> Name ` set done
                        \<and> distinct (owned_identities (done @ [d])))
          | Inr st' \<Rightarrow> build_inv (done @ [d]) st')"
proof -
  have dom: "Name d |\<in>| fmdom (byName st) \<longleftrightarrow> Name d \<in> Name ` set done"
    using byName_dom [OF inv] by (metis fmdom'_alt_def)
  have own: "set (resourceOwner st) = set (owned_identities done)" "distinct (owned_identities done)"
    using inv by (simp_all add: build_inv_def)
  show ?thesis
  proof (cases "check_definition st (length done) d")
    case (Inl e)
    then show ?thesis
      using own by (auto simp: check_definition_def dom valid_definition_def owned_identities_snoc
          dest!: check_dependencies_Some split: if_splits option.splits)
  next
    case (Inr st')
    then have ok: "valid_definition d" "Name d \<notin> Name ` set done"
      and st': "byName st' = fmupd (Name d) (sorted_def d) (byName st)"
        "definitionIndex st' = fmupd (Name d) (length done) (definitionIndex st)"
        "resourceOwner st' = (case stableResourceIdentity (Resource d) of
             None \<Rightarrow> resourceOwner st | Some i \<Rightarrow> i # resourceOwner st)"
      and own': "\<forall>i. stableResourceIdentity (Resource d) = Some i \<longrightarrow> i \<notin> set (owned_identities done)"
      by (auto simp: check_definition_def dom valid_definition_def check_dependencies_None
          sorted_def_def own(1) split: if_splits option.splits)
    have "Name d |\<notin>| fmdom (fmap_of_list (map (\<lambda>d. (Name d, sorted_def d)) done))"
      using ok(2) by (auto simp: fset_of_list_elem)
    from fmupd_add [OF this]
    have "byName st' = fmap_of_list (map (\<lambda>d. (Name d, sorted_def d)) (done @ [d]))"
      using inv st'(1) by (simp add: build_inv_def)
    moreover have "definitionIndex st' = fmap_of_list (zip (map Name (done @ [d])) [0..<length (done @ [d])])"
    proof -
      have "Name d |\<notin>| fmdom (fmap_of_list (zip (map Name done) [0..<length done]))"
        using ok(2) by (auto simp: fset_of_list_elem dest!: set_zip_leftD)
      from fmupd_add [OF this] show ?thesis
        using inv st'(2) by (simp add: build_inv_def)
    qed
    ultimately show ?thesis
      using inv ok own' st'(3) Inr
      by (auto simp: build_inv_def owned_identities_snoc split: option.splits)
  qed
qed

lemma check_definitions_spec:
  assumes "build_inv done st"
  shows "(case check_definitions st (length done) ds of
            Inl e \<Rightarrow> \<not> (list_all valid_definition ds \<and> distinct (map Name (done @ ds))
                        \<and> distinct (owned_identities (done @ ds)))
          | Inr st' \<Rightarrow> build_inv (done @ ds) st')"
  using assms
proof (induction ds arbitrary: "done" st)
  case Nil
  then show ?case by simp
next
  case (Cons d ds)
  note step = check_definition_step [OF Cons.prems, of d]
  show ?case
  proof (cases "check_definition st (length done) d")
    case (Inl e)
    with step have "\<not> (valid_definition d \<and> Name d \<notin> Name ` set done
        \<and> distinct (owned_identities (done @ [d])))" by simp
    moreover have "distinct (owned_identities (done @ d # ds)) \<Longrightarrow> distinct (owned_identities (done @ [d]))"
      using owned_identities_append [of "done @ [d]" ds] by simp
    ultimately show ?thesis using Inl by auto
  next
    case (Inr st')
    with step have "build_inv (done @ [d]) st'" by simp
    from Cons.IH [OF this] Inr step show ?thesis
      by (auto simp: build_inv_def split: sum.splits)
  qed
qed

lemma missing_in_None: "missing_in st index i ds = None \<longleftrightarrow> set ds \<subseteq> fmdom' (byName st)"
  by (induction ds arbitrary: i) (auto simp: fmdom'_alt_def)

lemma missing_in_Some: "missing_in st index i ds = Some e \<Longrightarrow> \<not> set ds \<subseteq> fmdom' (byName st)"
  using missing_in_None [of st index i ds] by simp

lemma check_missing_None:
  assumes "\<forall>n \<in> set ns. n \<in> fmdom' (byName st) \<and> n \<in> fmdom' (definitionIndex st)"
  shows "check_missing st ns = None \<longleftrightarrow>
    (\<forall>n \<in> set ns. \<forall>d. fmlookup (byName st) n = Some d \<longrightarrow> set (Dependencies d) \<subseteq> fmdom' (byName st))"
  using assms
proof (induction ns)
  case Nil
  then show ?case by simp
next
  case (Cons n ns)
  then obtain d index where "fmlookup (byName st) n = Some d" "fmlookup (definitionIndex st) n = Some index"
    by (auto simp: fmlookup_dom'_iff)
  with Cons show ?case
    using missing_in_None [of st index 0 "Dependencies d"] by (cases "missing_in st index 0 (Dependencies d)") auto
qed


section \<open>Build\<close>

lemma fair_enumerates:
  assumes "fair_range rng" and "distinct ks" and "set ks = fmdom' m"
  shows "enumerates m (rng i ks)"
proof -
  have ms: "mset (rng i ks) = mset ks" using assms(1) by (simp add: fair_range_def)
  then have "distinct (rng i ks)" using assms(2) mset_eq_imp_distinct_iff by blast
  moreover have "set (rng i ks) = fmdom' m" using ms assms(3) by (metis set_mset_mset)
  ultimately show ?thesis by (rule enumeratesI)
qed

lemma map_of_named:
  assumes "distinct (map fst (map (\<lambda>d. (Name d, g d)) ds))"
  shows "map_of (map (\<lambda>d. (Name d, g d)) ds) n = Some e \<longleftrightarrow> (\<exists>d \<in> set ds. Name d = n \<and> e = g d)"
proof -
  have "(n, e) \<in> set (map (\<lambda>d. (Name d, g d)) ds) \<longleftrightarrow> (\<exists>d \<in> set ds. Name d = n \<and> e = g d)"
    by auto
  then show ?thesis by (simp only: map_of_eq_Some_iff [OF assms])
qed

lemma build_inv_lookup:
  assumes "build_inv ds st"
  shows "fmlookup (byName st) n = Some d' \<longleftrightarrow> (\<exists>d \<in> set ds. Name d = n \<and> d' = sorted_def d)"
proof -
  have "distinct (map Name ds)" and bn: "byName st = fmap_of_list (map (\<lambda>d. (Name d, sorted_def d)) ds)"
    using assms by (simp_all add: build_inv_def)
  then have d: "distinct (map fst (map (\<lambda>d. (Name d, sorted_def d)) ds))" by (simp add: o_def)
  show ?thesis
    by (simp only: bn fmlookup_of_list map_of_named [OF d])
qed

lemma build_inv_index: "build_inv ds st \<Longrightarrow> fmdom' (definitionIndex st) = Name ` set ds"
proof -
  assume "build_inv ds st"
  then have "definitionIndex st = fmap_of_list (zip (map Name ds) [0..<length ds])"
    by (simp add: build_inv_def)
  then have "fmdom' (definitionIndex st) = set (map fst (zip (map Name ds) [0..<length ds]))"
    by (auto simp: fmdom'_alt_def fset_of_list_elem)
  then show ?thesis by simp
qed

lemma build_inv_deps:
  assumes "build_inv ds st" and "d \<in> set ds"
  shows "def_deps (byName st) (Name d) = set (Dependencies d)"
proof -
  have "fmlookup (byName st) (Name d) = Some (sorted_def d)"
    using build_inv_lookup [OF assms(1)] assms(2) by blast
  then show ?thesis by (simp add: def_deps_def)
qed

lemma build_inv_edges:
  assumes inv: "build_inv ds st"
  shows "dep_relation (byName st) = edges ds"
proof -
  have "a \<in> def_deps (byName st) b \<longleftrightarrow> (\<exists>d \<in> set ds. Name d = b \<and> a \<in> set (Dependencies d))" for a b
  proof (cases "fmlookup (byName st) b")
    case None
    then have "\<not> (\<exists>d \<in> set ds. Name d = b)"
      using build_inv_lookup [OF inv, of b] by (metis option.distinct(1))
    with None show ?thesis by (auto simp: def_deps_def)
  next
    case (Some d')
    then obtain d where d: "d \<in> set ds" "Name d = b" using build_inv_lookup [OF inv] by blast
    moreover have "d2 = d" if "d2 \<in> set ds" "Name d2 = b" for d2
      using that d inv by (auto simp: build_inv_def distinct_map inj_on_def)
    ultimately show ?thesis using build_inv_deps [OF inv d(1)] by blast
  qed
  then show ?thesis by (auto simp: dep_relation_def edges_def)
qed

definition closed_defs :: "resource_def list \<Rightarrow> bool" where
  "closed_defs ds \<longleftrightarrow> (\<forall>d \<in> set ds. set (Dependencies d) \<subseteq> Name ` set ds)"

lemma build_missing:
  assumes inv: "build_inv ds st" and fair: "fair_range rng"
  shows "check_missing st (sort (rng i (map Name ds))) = None \<longleftrightarrow> closed_defs ds"
proof -
  have s: "set (sort (rng i (map Name ds))) = Name ` set ds"
    using fair by (metis fair_range_def set_map set_mset_mset set_sort)
  have "check_missing st (sort (rng i (map Name ds))) = None \<longleftrightarrow>
      (\<forall>n \<in> Name ` set ds. \<forall>d. fmlookup (byName st) n = Some d \<longrightarrow> set (Dependencies d) \<subseteq> Name ` set ds)"
    using check_missing_None [of "sort (rng i (map Name ds))" st]
    by (simp add: s byName_dom [OF inv] build_inv_index [OF inv] del: set_sort)
  also have "\<dots> \<longleftrightarrow> closed_defs ds"
    unfolding closed_defs_def build_inv_lookup [OF inv] by (metis image_iff sorted_def_simps(4))
  finally show ?thesis .
qed

lemma build_well_formed:
  assumes inv: "build_inv ds st" and "closed_defs ds"
  shows "well_formed (byName st)"
proof -
  have "distinct (Dependencies d)" if "d \<in> set ds" for d
    using inv that by (auto simp: build_inv_def valid_definition_def list_all_iff)
  with assms(2) show ?thesis
    unfolding well_formed_def build_inv_lookup [OF inv] byName_dom [OF inv] closed_defs_def
    by (metis sorted_def_simps(4,5))
qed

text \<open>Where \<open>Build\<close> stops, in the order of its phases.\<close>

lemma Build_cases:
  assumes fair: "fair_range rng"
  obtains
    (limit) "maxResources < length ds" "\<exists>e. Build rng ds = Inl e"
  | (bad) "\<not> (list_all valid_definition ds \<and> distinct (map Name ds) \<and> distinct (owned_identities ds))"
      "\<exists>e. Build rng ds = Inl e"
  | (missing) "\<not> closed_defs ds" "\<exists>e. Build rng ds = Inl e"
  | (cycle) "\<not> acyclic (edges ds)" "Build rng ds = Inl cycle_error"
  | (built) st order where "valid_graph ds" "build_inv ds st"
      "topologicalOrder (byName st) (rng 1 (map Name ds)) (rng 2 (map Name ds)) = Inr order"
      "Build rng ds = Inr (concat (map (make_node (byName st)) order), order)"
      "distinct order" "set order = Name ` set ds" "predecessors_first (def_deps (byName st)) order"
proof (cases "maxResources < length ds")
  case True
  then show ?thesis by (intro limit) (simp_all add: Build_def)
next
  case len: False
  have init: "build_inv [] empty_build"
    by (simp add: build_inv_def empty_build_def owned_identities_def)
  note spec = check_definitions_spec [OF init, of ds, simplified]
  show ?thesis
  proof (cases "check_definitions empty_build 0 ds")
    case (Inl e)
    with spec show ?thesis by (intro bad) (simp_all add: Build_def len)
  next
    case (Inr st)
    with spec have inv: "build_inv ds st" by simp
    show ?thesis
    proof (cases "check_missing st (sort (rng 0 (map Name ds)))")
      case (Some e)
      with build_missing [OF inv fair, of 0] have "\<not> closed_defs ds" by simp
      moreover have "Build rng ds = Inl e" by (simp add: Build_def len Inr Some Let_def)
      ultimately show ?thesis by (intro missing) simp_all
    next
      case None
      with build_missing [OF inv fair, of 0] have closed: "closed_defs ds" by simp
      have en: "enumerates (byName st) (rng i (map Name ds))" for i
        using inv byName_dom [OF inv] by (intro fair_enumerates [OF fair]) (simp_all add: build_inv_def)
      from topologicalOrder_spec [OF build_well_formed [OF inv closed] en [of 1] en [of 2]]
      show ?thesis
      proof (elim disjE exE conjE)
        assume "topologicalOrder (byName st) (rng 1 (map Name ds)) (rng 2 (map Name ds)) = Inl cycle_error"
          and "\<not> acyclic (dep_relation (byName st))"
        then show ?thesis
          by (intro cycle) (simp_all add: Build_def len Inr None Let_def build_inv_edges [OF inv])
      next
        fix order
        assume t: "topologicalOrder (byName st) (rng 1 (map Name ds)) (rng 2 (map Name ds)) = Inr order"
          and a: "acyclic (dep_relation (byName st))" and o: "distinct order"
            "set order = fmdom' (byName st)" "predecessors_first (def_deps (byName st)) order"
        have "valid_graph ds"
          using inv len closed a build_inv_edges [OF inv]
          by (simp add: valid_graph_def build_inv_def closed_defs_def)
        then show ?thesis
          using inv t o byName_dom [OF inv]
          by (intro built) (simp_all add: Build_def len Inr None Let_def)
      qed
    qed
  qed
qed

lemma make_node_built:
  assumes "build_inv ds st" and "d \<in> set ds" and "list_all valid_definition ds"
  obtains r where "Resource d = ResourceValue r"
    "make_node (byName st) (Name d) =
       [\<lparr>node_name = Name d, node_dependencies = sort (Dependencies d), node_required = Required d,
         node_resource = r, node_acquired = False, node_closed = False\<rparr>]"
proof -
  have "\<not> nilInterface (Resource d)"
    using assms(2,3) by (auto simp: list_all_iff valid_definition_def)
  then obtain r where r: "Resource d = ResourceValue r"
    by (cases "Resource d") (simp_all add: nilInterface_def)
  have "fmlookup (byName st) (Name d) = Some (sorted_def d)"
    using build_inv_lookup [OF assms(1)] assms(2) by blast
  with r show thesis by (intro that [OF r]) (simp add: make_node_def sorted_def_def)
qed

lemma Build_Inr:
  assumes "fair_range rng" and "Build rng ds = Inr (nodes, order)"
  obtains st where "valid_graph ds" "build_inv ds st"
      "topologicalOrder (byName st) (rng 1 (map Name ds)) (rng 2 (map Name ds)) = Inr order"
      "nodes = concat (map (make_node (byName st)) order)"
      "distinct order" "set order = Name ` set ds" "predecessors_first (def_deps (byName st)) order"
  using assms(1) by (rule Build_cases [of rng ds]) (use assms(2) in auto)

lemma valid_graph_perm: "mset ds = mset ds' \<Longrightarrow> valid_graph ds \<Longrightarrow> valid_graph ds'"
proof -
  assume p: "mset ds = mset ds'" and v: "valid_graph ds"
  have "set ds = set ds'" "length ds = length ds'" using p mset_eq_setD mset_eq_length by blast+
  moreover have "mset (map Name ds) = mset (map Name ds')" using p by (simp add: mset_map)
  moreover have "mset (owned_identities ds) = mset (owned_identities ds')"
    using p by (simp add: owned_identities_def List.map_filter_def mset_map)
  ultimately show ?thesis
    using v unfolding valid_graph_def edges_def list_all_iff
    by (metis mset_eq_imp_distinct_iff)
qed

section \<open>Properties\<close>

text \<open>
  C1. \<open>Build\<close> succeeds exactly on the valid declarations: at most 1024 definitions, canonical and
  distinct names, every resource present and owned once, required resources implementing readiness,
  dependency lists canonical, duplicate-free, not self-referring and inside the graph, and no
  dependency cycle.
\<close>

theorem Build_accepts_iff_valid:
  assumes "fair_range rng"
  shows "(\<exists>g. Build rng ds = Inr g) \<longleftrightarrow> valid_graph ds"
  by (rule Build_cases [OF assms, of ds]) (auto simp: valid_graph_def closed_defs_def)

text \<open>
  C2. The graph \<open>Build\<close> returns lists every declared name once, in an order in which every declared
  dependency of a resource stands before it; the nodes follow that order, carry the declared
  dependencies, requirement and resource, and start neither acquired nor closed.
\<close>

theorem Build_orders_dependencies_first:
  assumes "fair_range rng" and "Build rng ds = Inr (nodes, order)"
  shows "distinct order \<and> set order = Name ` set ds \<and> map node_name nodes = order
    \<and> (\<forall>i < length order. \<exists>d \<in> set ds. Name d = order ! i
         \<and> set (Dependencies d) \<subseteq> set (take i order)
         \<and> (\<exists>r. Resource d = ResourceValue r
              \<and> nodes ! i = \<lparr>node_name = Name d, node_dependencies = sort (Dependencies d),
                  node_required = Required d, node_resource = r,
                  node_acquired = False, node_closed = False\<rparr>))"
  using assms
proof (rule Build_Inr)
  fix st
  assume v: "valid_graph ds" and inv: "build_inv ds st"
    and nodes: "nodes = concat (map (make_node (byName st)) order)"
    and o: "distinct order" "set order = Name ` set ds"
    and p: "predecessors_first (def_deps (byName st)) order"
  have la: "list_all valid_definition ds" using v by (simp add: valid_graph_def)
  have one: "\<exists>d \<in> set ds. Name d = n \<and> (\<exists>r. Resource d = ResourceValue r
      \<and> make_node (byName st) n = [\<lparr>node_name = Name d, node_dependencies = sort (Dependencies d),
           node_required = Required d, node_resource = r, node_acquired = False, node_closed = False\<rparr>])"
    if "n \<in> set order" for n
    using that o(2) make_node_built [OF inv _ la] by (metis imageE)
  then have hd: "nodes = map (\<lambda>n. hd (make_node (byName st) n)) order"
    unfolding nodes by (induction order) fastforce+
  have "node_name (hd (make_node (byName st) n)) = n" if "n \<in> set order" for n
    using one [OF that] by auto
  then have "map node_name nodes = order" by (simp add: hd map_idI o_def)
  moreover have "\<exists>d \<in> set ds. Name d = order ! i \<and> set (Dependencies d) \<subseteq> set (take i order)
         \<and> (\<exists>r. Resource d = ResourceValue r
              \<and> nodes ! i = \<lparr>node_name = Name d, node_dependencies = sort (Dependencies d),
                  node_required = Required d, node_resource = r,
                  node_acquired = False, node_closed = False\<rparr>)" if i: "i < length order" for i
  proof -
    obtain d r where d: "d \<in> set ds" "Name d = order ! i" "Resource d = ResourceValue r"
      and mk: "make_node (byName st) (order ! i) = [\<lparr>node_name = Name d,
          node_dependencies = sort (Dependencies d), node_required = Required d, node_resource = r,
          node_acquired = False, node_closed = False\<rparr>]"
      using one [of "order ! i"] i by (metis nth_mem)
    have "set (Dependencies d) \<subseteq> set (take i order)"
      using p i d(2) build_inv_deps [OF inv d(1)] unfolding predecessors_first_def by metis
    with d mk i show ?thesis by (auto simp: hd)
  qed
  ultimately show ?thesis using o by blast
qed

text \<open>
  C3. The result is deterministic: permuting the definitions and changing the runtime's map
  enumeration order never changes the graph that is built.
\<close>

theorem Build_deterministic:
  assumes "fair_range rng" and "fair_range rng'" and "mset ds = mset ds'"
    and "Build rng ds = Inr g"
  shows "Build rng' ds' = Inr g"
proof -
  obtain nodes order where g: "g = (nodes, order)" by fastforce
  obtain st where v: "valid_graph ds" and inv: "build_inv ds st"
    and t: "topologicalOrder (byName st) (rng 1 (map Name ds)) (rng 2 (map Name ds)) = Inr order"
    and n: "nodes = concat (map (make_node (byName st)) order)"
    using Build_Inr [OF assms(1)] assms(4) g by metis
  obtain g' where "Build rng' ds' = Inr g'"
    using Build_accepts_iff_valid [OF assms(2)] valid_graph_perm [OF assms(3) v] by blast
  then obtain st' order' where inv': "build_inv ds' st'"
    and t': "topologicalOrder (byName st') (rng' 1 (map Name ds')) (rng' 2 (map Name ds')) = Inr order'"
    and b': "Build rng' ds' = Inr (concat (map (make_node (byName st')) order'), order')"
    using Build_Inr [OF assms(2)] by (metis prod.exhaust)
  have s: "set ds = set ds'" using assms(3) mset_eq_setD by blast
  have same: "byName st = byName st'"
    using build_inv_lookup [OF inv] build_inv_lookup [OF inv'] s
    by (intro fmap_ext) (metis option.exhaust)
  have en: "enumerates (byName st) (rng i (map Name ds))"
    and en': "enumerates (byName st) (rng' i (map Name ds'))" for i
    using inv inv' byName_dom [OF inv] byName_dom [OF inv'] same
    by (auto intro!: fair_enumerates [OF assms(1)] fair_enumerates [OF assms(2)] simp: build_inv_def)
  have wf: "well_formed (byName st)"
    using build_well_formed [OF inv] v by (simp add: valid_graph_def closed_defs_def)
  then have "order = order'"
    using t t' topologicalOrder_enumeration [OF wf en [of 1] en [of 2] en' [of 1] en' [of 2]]
    unfolding same by simp
  with b' n g same show ?thesis by simp
qed


text \<open>Concrete declarations: a cache and an API over a database.\<close>

definition demo_resource :: "nat \<Rightarrow> resource_iface" where
  "demo_resource i = ResourceValue \<lparr>identity = Some (0, i), is_runner = False, is_health = True,
     is_readiness = True\<rparr>"

definition demo_defs :: "resource_def list" where
  "demo_defs =
     [\<lparr>Name = ''api'', Dependencies = [''db'', ''cache''], Required = True, Resource = demo_resource 1\<rparr>,
      \<lparr>Name = ''cache'', Dependencies = [''db''], Required = False, Resource = demo_resource 2\<rparr>,
      \<lparr>Name = ''db'', Dependencies = [], Required = True, Resource = demo_resource 3\<rparr>]"

definition in_order :: "nat \<Rightarrow> string list \<Rightarrow> string list" where
  "in_order i ks = ks"

definition reversed :: "nat \<Rightarrow> string list \<Rightarrow> string list" where
  "reversed i ks = rev ks"

lemma fair_in_order: "fair_range in_order" and fair_reversed: "fair_range reversed"
  by (simp_all add: fair_range_def in_order_def reversed_def)

lemma demo_build: "\<exists>nodes. Build in_order demo_defs = Inr (nodes, [''db'', ''cache'', ''api''])"
proof -
  have "map_sum id snd (Build in_order demo_defs) = Inr [''db'', ''cache'', ''api'']"
    by code_simp
  then show ?thesis by (cases "Build in_order demo_defs") auto
qed

lemma Build_accepts_iff_valid_witness: "fair_range in_order \<and> valid_graph demo_defs"
  using Build_accepts_iff_valid [OF fair_in_order, of demo_defs] demo_build fair_in_order by auto

lemma Build_orders_dependencies_first_witness:
  "\<exists>nodes. Build in_order demo_defs = Inr (nodes, [''db'', ''cache'', ''api''])
     \<and> map node_name nodes = [''db'', ''cache'', ''api'']"
  using demo_build Build_orders_dependencies_first [OF fair_in_order] by metis

lemma Build_deterministic_witness:
  "\<exists>g. Build in_order demo_defs = Inr g \<and> Build reversed (rev demo_defs) = Inr g"
  using demo_build Build_deterministic [OF fair_in_order fair_reversed, of demo_defs "rev demo_defs"]
  by auto

text \<open>
  The error of a missing dependency names a position in the sorted list: the missing \<open>zz\<close> is declared
  at position 0 of its declaration, the path says \<open>dependencies[1]\<close>.
\<close>

lemma missing_dependency_path_is_sorted_position:
  "Build in_order
     [\<lparr>Name = ''api'', Dependencies = [''zz'', ''db''], Required = False, Resource = demo_resource 1\<rparr>,
      \<lparr>Name = ''db'', Dependencies = [], Required = False, Resource = demo_resource 2\<rparr>]
   = Inl (invalid ''definitions[0].dependencies[1]'' ''references a missing resource'')"
  by code_simp

end
