(* ===== verification/Resource_Lifecycle.thy ===== *)
theory Resource_Lifecycle
  imports Resource_Build
begin

text \<open>
  The lifecycle half of the resource graph: \<open>Start\<close> with its rollback (graph.go), \<open>Close\<close> and
  \<open>closeIndexes\<close> (close.go), \<open>Health\<close> and \<open>Ready\<close> (check.go).

  Every call of a provider method, every read of \<open>ctx.Err()\<close> and every wait is an event, appended to
  a history; the environment (\<open>env\<close>) answers from the history so far, so that its answers may depend on
  everything that happened before. \<open>interference\<close> is what the other goroutines have done to the graph
  when a method takes the mutex again. Contexts are identified by name: the caller's, the derived start
  context, the rollback context and the context handed to \<open>Close\<close>.
\<close>

section \<open>Events and the environment\<close>

datatype context_id = CallerCtx | StartCtx | RollbackCtx

datatype event =
  StartCall nat
| ReadyCall nat
| HealthCall nat
| CloseCall nat
| Poll context_id
| WaitStart | WaitRun | WaitInspections | WaitGeneration

datatype channel = NilChan | OpenChan | ClosedChan

record graph =
  nodes :: "node list"
  names :: "string list"
  startAttempted :: bool
  startSucceeded :: bool
  startDone :: channel
  runAttempted :: bool
  runDone :: channel
  closeRequested :: bool
  graph_closed :: bool
  activeClose :: bool
  inspections :: nat

record env =
  provider :: "event list \<Rightarrow> goerr option"
  ctxErr :: "event list \<Rightarrow> sentinel option"
  generation_result :: "event list \<Rightarrow> goerr option"
  interference :: "event list \<Rightarrow> graph \<Rightarrow> graph"

definition new_graph :: "node list \<Rightarrow> string list \<Rightarrow> graph" where
  "new_graph ns order =
     \<lparr>nodes = ns, names = order, startAttempted = False, startSucceeded = False, startDone = NilChan,
      runAttempted = False, runDone = NilChan, closeRequested = False, graph_closed = False,
      activeClose = False, inspections = 0\<rparr>"

definition set_acquired :: "nat \<Rightarrow> node list \<Rightarrow> node list" where
  "set_acquired i ns = ns[i := (ns ! i)\<lparr>node_acquired := True\<rparr>]"

definition set_closed :: "nat \<Rightarrow> node list \<Rightarrow> node list" where
  "set_closed i ns = ns[i := (ns ! i)\<lparr>node_closed := True\<rparr>]"

section \<open>closeIndexes\<close>

text \<open>The loop over the positions; the list is already in traversal (reverse) order.\<close>

fun close_loop :: "env \<Rightarrow> context_id \<Rightarrow> operation \<Rightarrow> nat list \<Rightarrow> node list \<Rightarrow> event list
    \<Rightarrow> goerr option \<Rightarrow> node list \<times> event list \<times> goerr option" where
  "close_loop E c op [] ns h result = (ns, h, result)"
| "close_loop E c op (index # rest) ns h result =
     (let h1 = h @ [Poll c] in
      case ctxErr E h1 of
        Some e \<Rightarrow> (ns, h1, errors_Join [result, lifecycleError '''' op (Some (Sentinel e))])
      | None \<Rightarrow>
          if node_closed (ns ! index) then close_loop E c op rest ns h1 result
          else
            (let h2 = h1 @ [CloseCall index]; h3 = h2 @ [Poll c] in
             case provider E h2 of
               None \<Rightarrow>
                 (let ns' = set_closed index ns in
                  case ctxErr E h3 of
                    Some e \<Rightarrow> (ns', h3, errors_Join [result, lifecycleError '''' op (Some (Sentinel e))])
                  | None \<Rightarrow> close_loop E c op rest ns' h3 result)
             | Some err \<Rightarrow>
                 (let result' = errors_Join [result, lifecycleError (node_name (ns ! index)) op (Some err)] in
                  case ctxErr E h3 of
                    Some e \<Rightarrow> (ns, h3, joinLifecycleContext result' op (Some e))
                  | None \<Rightarrow> close_loop E c op rest ns h3 result')))"

definition closeIndexes :: "env \<Rightarrow> context_id \<Rightarrow> nat list \<Rightarrow> operation \<Rightarrow> node list \<Rightarrow> event list
    \<Rightarrow> node list \<times> event list \<times> goerr option" where
  "closeIndexes E c indexes op ns h = close_loop E c op (rev indexes) ns h None"

section \<open>Start\<close>

definition beginStart :: "graph \<Rightarrow> goerr + graph" where
  "beginStart g =
     (if startAttempted g \<or> closeRequested g \<or> graph_closed g
      then Inl (resource_sentinel ErrStartRejected)
      else Inr (g\<lparr>startAttempted := True, startDone := OpenChan\<rparr>))"

definition finishStart :: "bool \<Rightarrow> graph \<Rightarrow> graph" where
  "finishStart succeeded g = g\<lparr>startSucceeded := succeeded, startDone := ClosedChan\<rparr>"

text \<open>\<open>rollbackStartup\<close> and the deferred \<open>finishStart(false)\<close> that follows it.\<close>

definition rollbackStartup :: "env \<Rightarrow> nat list \<Rightarrow> goerr option \<Rightarrow> graph \<Rightarrow> event list
    \<Rightarrow> graph \<times> event list \<times> goerr option" where
  "rollbackStartup E acquired original g h =
     (let (ns, h', closeErr) = closeIndexes E RollbackCtx acquired OperationRollback (nodes g) h
      in (finishStart False (g\<lparr>nodes := ns\<rparr>), h', errors_Join [original, closeErr]))"

fun start_loop :: "env \<Rightarrow> nat list \<Rightarrow> nat list \<Rightarrow> graph \<Rightarrow> event list
    \<Rightarrow> graph \<times> event list \<times> goerr option" where
  "start_loop E [] acquired g h =
     (let h1 = h @ [Poll StartCtx] in
      case ctxErr E h1 of
        Some e \<Rightarrow> rollbackStartup E acquired (lifecycleError '''' OperationStart (Some (Sentinel e))) g h1
      | None \<Rightarrow>
          (let g1 = interference E h1 g in
           if closeRequested g1 then
             rollbackStartup E acquired
               (lifecycleError '''' OperationStart (Some (resource_sentinel ErrClosing))) g1 h1
           else (finishStart True (g1\<lparr>startSucceeded := True\<rparr>), h1, None)))"
| "start_loop E (index # rest) acquired g h =
     (let h1 = h @ [Poll StartCtx] in
      case ctxErr E h1 of
        Some e \<Rightarrow> rollbackStartup E acquired (lifecycleError '''' OperationStart (Some (Sentinel e))) g h1
      | None \<Rightarrow>
          (let g1 = g\<lparr>nodes := set_acquired index (nodes g)\<rparr>;
               acquired1 = acquired @ [index];
               nd = nodes g ! index;
               h2 = h1 @ [StartCall index] in
           case provider E h2 of
             Some err \<Rightarrow>
               (let h3 = h2 @ [Poll CallerCtx] in
                rollbackStartup E acquired1
                  (joinLifecycleContext (lifecycleError (node_name nd) OperationStart (Some err))
                     OperationStart (ctxErr E h3)) g1 h3)
           | None \<Rightarrow>
               if node_required nd then
                 (let h3 = h2 @ [ReadyCall index] in
                  case provider E h3 of
                    Some err \<Rightarrow>
                      (let h4 = h3 @ [Poll CallerCtx] in
                       rollbackStartup E acquired1
                         (joinLifecycleContext (lifecycleError (node_name nd) OperationReady (Some err))
                            OperationReady (ctxErr E h4)) g1 h4)
                  | None \<Rightarrow> start_loop E rest acquired1 g1 h3)
               else start_loop E rest acquired1 g1 h2))"

text \<open>\<open>ctx\<close> tells whether the caller passed a non-nil context; a nil graph is \<open>None\<close>.\<close>

definition Start :: "env \<Rightarrow> bool \<Rightarrow> graph option \<Rightarrow> event list
    \<Rightarrow> graph option \<times> event list \<times> goerr option" where
  "Start E ctx graph h =
     (case graph of
        None \<Rightarrow> (None, h, Some (resource_sentinel ErrInvalidGraph))
      | Some g \<Rightarrow>
          if \<not> ctx then (Some g, h, Some (resource_sentinel ErrContextRequired))
          else
            (let h1 = h @ [Poll CallerCtx] in
             case ctxErr E h1 of
               Some e \<Rightarrow> (Some g, h1, lifecycleError '''' OperationStart (Some (Sentinel e)))
             | None \<Rightarrow>
                 (case beginStart g of
                    Inl e \<Rightarrow> (Some g, h1, Some e)
                  | Inr g1 \<Rightarrow>
                      (let (g2, h2, r) = start_loop E [0..<length (nodes g1)] [] g1 h1
                       in (Some g2, h2, r)))))"

section \<open>Close\<close>

definition openIndexesLocked :: "node list \<Rightarrow> nat list" where
  "openIndexesLocked ns =
     filter (\<lambda>i. node_acquired (ns ! i) \<and> \<not> node_closed (ns ! i)) [0..<length ns]"

definition allClosedLocked :: "node list \<Rightarrow> bool" where
  "allClosedLocked ns \<longleftrightarrow> \<not> list_ex (\<lambda>nd. node_acquired nd \<and> \<not> node_closed nd) ns"

text \<open>
  \<open>waitForLifecycle\<close>: no wait on a nil channel; otherwise the environment tells which of the two
  select branches fired.
\<close>

definition waitForLifecycle :: "env \<Rightarrow> channel \<Rightarrow> event \<Rightarrow> event list \<Rightarrow> event list \<times> goerr option" where
  "waitForLifecycle E done w h =
     (if done = NilChan then (h, None)
      else (let h' = h @ [w] in
            (h', case ctxErr E h' of None \<Rightarrow> None
                 | Some e \<Rightarrow> lifecycleError '''' OperationClose (Some (Sentinel e)))))"

definition waitForInspections :: "env \<Rightarrow> graph \<Rightarrow> event list \<Rightarrow> event list \<times> goerr option" where
  "waitForInspections E g h =
     (if inspections g = 0 then (h, None) else waitForLifecycle E OpenChan WaitInspections h)"

definition close_attempt :: "env \<Rightarrow> graph \<Rightarrow> event list \<Rightarrow> graph \<times> event list \<times> goerr option" where
  "close_attempt E g h =
     (if allClosedLocked (nodes g) then (g\<lparr>graph_closed := True\<rparr>, h, None)
      else if activeClose g then
        (let h' = h @ [WaitGeneration] in
         (g, h', case ctxErr E h' of None \<Rightarrow> generation_result E h'
                 | Some e \<Rightarrow> lifecycleError '''' OperationClose (Some (Sentinel e))))
      else
        (let (ns, h', result) = closeIndexes E CallerCtx (openIndexesLocked (nodes g)) OperationClose (nodes g) h
         in (g\<lparr>nodes := ns, graph_closed := graph_closed g \<or> allClosedLocked ns, activeClose := False\<rparr>,
             h', result)))"

definition Close :: "env \<Rightarrow> bool \<Rightarrow> graph option \<Rightarrow> event list
    \<Rightarrow> graph option \<times> event list \<times> goerr option" where
  "Close E ctx graph h =
     (case graph of
        None \<Rightarrow> (None, h, Some (resource_sentinel ErrInvalidGraph))
      | Some g \<Rightarrow>
          if \<not> ctx then (Some g, h, Some (resource_sentinel ErrContextRequired))
          else if graph_closed g then (Some g, h, None)
          else
            (let g1 = g\<lparr>closeRequested := True\<rparr>; h1 = h @ [Poll CallerCtx] in
             case ctxErr E h1 of
               Some e \<Rightarrow> (Some g1, h1, lifecycleError '''' OperationClose (Some (Sentinel e)))
             | None \<Rightarrow>
                 (case waitForLifecycle E (startDone g1) WaitStart h1 of
                    (h2, Some e) \<Rightarrow> (Some g1, h2, Some e)
                  | (h2, None) \<Rightarrow>
                      (case waitForLifecycle E (runDone g1) WaitRun h2 of
                         (h3, Some e) \<Rightarrow> (Some g1, h3, Some e)
                       | (h3, None) \<Rightarrow>
                           (case waitForInspections E (interference E h3 g1) h3 of
                              (h4, Some e) \<Rightarrow> (Some (interference E h3 g1), h4, Some e)
                            | (h4, None) \<Rightarrow>
                                (let (g2, h5, r) = close_attempt E (interference E h4 (interference E h3 g1)) h4
                                 in (Some g2, h5, r)))))))"

section \<open>Health and Ready\<close>

definition beginInspection :: "graph \<Rightarrow> goerr + graph" where
  "beginInspection g =
     (if \<not> startSucceeded g then Inl (resource_sentinel ErrNotStarted)
      else if closeRequested g \<or> graph_closed g then Inl (resource_sentinel ErrClosing)
      else Inr (g\<lparr>inspections := inspections g + 1\<rparr>))"

definition finishInspection :: "graph \<Rightarrow> graph" where
  "finishInspection g = g\<lparr>inspections := inspections g - 1\<rparr>"

text \<open>
  The loop of \<open>Health\<close> and of \<open>Ready\<close>, which differ in the interface they look for and in the
  operation they report.
\<close>

fun inspect_loop :: "env \<Rightarrow> operation \<Rightarrow> (node \<Rightarrow> bool) \<Rightarrow> (nat \<Rightarrow> event) \<Rightarrow> node list \<Rightarrow> nat list
    \<Rightarrow> event list \<Rightarrow> goerr option \<Rightarrow> event list \<times> goerr option" where
  "inspect_loop E op checks call ns [] h result =
     (let h1 = h @ [Poll CallerCtx] in
      (h1, case ctxErr E h1 of
             None \<Rightarrow> result
           | Some e \<Rightarrow>
               if is_err result e then result
               else errors_Join [result, lifecycleError '''' op (Some (Sentinel e))]))"
| "inspect_loop E op checks call ns (index # rest) h result =
     (let h1 = h @ [Poll CallerCtx] in
      case ctxErr E h1 of
        Some e \<Rightarrow> (h1, errors_Join [result, lifecycleError '''' op (Some (Sentinel e))])
      | None \<Rightarrow>
          if \<not> checks (ns ! index) then inspect_loop E op checks call ns rest h1 result
          else
            (let h2 = h1 @ [call index] in
             inspect_loop E op checks call ns rest h2
               (errors_Join [result, lifecycleError (node_name (ns ! index)) op (provider E h2)])))"

definition inspect_graph :: "operation \<Rightarrow> (node \<Rightarrow> bool) \<Rightarrow> (nat \<Rightarrow> event) \<Rightarrow> env \<Rightarrow> bool
    \<Rightarrow> graph option \<Rightarrow> event list \<Rightarrow> graph option \<times> event list \<times> goerr option" where
  "inspect_graph op checks call E ctx graph h =
     (case graph of
        None \<Rightarrow> (None, h, Some (resource_sentinel ErrInvalidGraph))
      | Some g \<Rightarrow>
          if \<not> ctx then (Some g, h, Some (resource_sentinel ErrContextRequired))
          else
            (let h1 = h @ [Poll CallerCtx] in
             case ctxErr E h1 of
               Some e \<Rightarrow> (Some g, h1, lifecycleError '''' op (Some (Sentinel e)))
             | None \<Rightarrow>
                 (case beginInspection g of
                    Inl e \<Rightarrow> (Some g, h1, Some e)
                  | Inr g1 \<Rightarrow>
                      (let (h2, r) = inspect_loop E op checks call (nodes g1) [0..<length (nodes g1)] h1 None
                       in (Some (finishInspection (interference E h2 g1)), h2, r)))))"

definition Health :: "env \<Rightarrow> bool \<Rightarrow> graph option \<Rightarrow> event list
    \<Rightarrow> graph option \<times> event list \<times> goerr option" where
  "Health = inspect_graph OperationHealth (\<lambda>nd. is_health (node_resource nd)) HealthCall"

definition Ready :: "env \<Rightarrow> bool \<Rightarrow> graph option \<Rightarrow> event list
    \<Rightarrow> graph option \<times> event list \<times> goerr option" where
  "Ready = inspect_graph OperationReady (\<lambda>nd. is_readiness (node_resource nd)) ReadyCall"

end
