(* ===== verification/Resource_Start.thy ===== *)
theory Resource_Start
  imports Resource_Lifecycle "HOL-Library.Sublist"
begin

text \<open>
  How a history of the resource graph is read (\<open>nil_call\<close>, \<open>live\<close>, \<open>close_calls\<close>, \<open>start_calls\<close>), and
  the specification of \<open>closeIndexes\<close>: the resources it closes are a prefix of the open positions in
  traversal order, all of them unless the context expired, and a node is marked closed exactly when its
  provider's \<open>Close\<close> returned nil.
\<close>

section \<open>Reading a history\<close>

text \<open>\<open>nil_call\<close>: the call happened in the extension and the provider returned nil.\<close>

fun nil_call :: "env \<Rightarrow> event list \<Rightarrow> event list \<Rightarrow> event \<Rightarrow> bool" where
  "nil_call E h [] e = False"
| "nil_call E h (x # ext) e = (x = e \<and> provider E (h @ [x]) = None \<or> nil_call E (h @ [x]) ext e)"

text \<open>\<open>live\<close>: no read of the context's error in the extension saw an error.\<close>

fun live :: "env \<Rightarrow> context_id \<Rightarrow> event list \<Rightarrow> event list \<Rightarrow> bool" where
  "live E c h [] = True"
| "live E c h (x # ext) = ((x = Poll c \<longrightarrow> ctxErr E (h @ [x]) = None) \<and> live E c (h @ [x]) ext)"

fun close_calls :: "event list \<Rightarrow> nat list" where
  "close_calls [] = []"
| "close_calls (CloseCall i # es) = i # close_calls es"
| "close_calls (_ # es) = close_calls es"

fun start_calls :: "event list \<Rightarrow> nat list" where
  "start_calls [] = []"
| "start_calls (StartCall i # es) = i # start_calls es"
| "start_calls (_ # es) = start_calls es"

lemma close_calls_append [simp]: "close_calls (xs @ ys) = close_calls xs @ close_calls ys"
  by (induction xs rule: close_calls.induct) simp_all

lemma start_calls_append [simp]: "start_calls (xs @ ys) = start_calls xs @ start_calls ys"
  by (induction xs rule: start_calls.induct) simp_all

lemma nil_call_append:
  "nil_call E h (xs @ ys) e \<longleftrightarrow> nil_call E h xs e \<or> nil_call E (h @ xs) ys e"
  by (induction xs arbitrary: h) auto

lemma live_append: "live E c h (xs @ ys) \<longleftrightarrow> live E c h xs \<and> live E c (h @ xs) ys"
  by (induction xs arbitrary: h) auto

lemma nil_call_mem: "nil_call E h xs e \<Longrightarrow> e \<in> set xs"
  by (induction xs arbitrary: h) auto

lemma close_calls_set: "i \<in> set (close_calls xs) \<longleftrightarrow> CloseCall i \<in> set xs"
  by (induction xs rule: close_calls.induct) auto

lemma start_calls_set: "i \<in> set (start_calls xs) \<longleftrightarrow> StartCall i \<in> set xs"
  by (induction xs rule: start_calls.induct) auto

lemma set_closed_nth:
  "i < length ns \<Longrightarrow> set_closed i ns ! j = (if j = i then (ns ! i)\<lparr>node_closed := True\<rparr> else ns ! j)"
  by (simp add: set_closed_def nth_list_update)

lemma set_acquired_nth:
  "i < length ns \<Longrightarrow> set_acquired i ns ! j = (if j = i then (ns ! i)\<lparr>node_acquired := True\<rparr> else ns ! j)"
  by (simp add: set_acquired_def nth_list_update)

lemma length_set [simp]:
  "length (set_closed i ns) = length ns" "length (set_acquired i ns) = length ns"
  by (simp_all add: set_closed_def set_acquired_def)

lemma node_closed_idem: "(nd :: node)\<lparr>node_closed := node_closed nd\<rparr> = nd"
  by simp

section \<open>closeIndexes\<close>

definition closes :: "env \<Rightarrow> event list \<Rightarrow> event list \<Rightarrow> node list \<Rightarrow> node list \<Rightarrow> bool" where
  "closes E h ext ns ns' \<longleftrightarrow>
     length ns' = length ns
   \<and> (\<forall>i < length ns. ns' ! i =
        (ns ! i)\<lparr>node_closed := node_closed (ns ! i) \<or> nil_call E h ext (CloseCall i)\<rparr>)"

lemma close_loop_spec:
  assumes "close_loop E c op is ns h r0 = (ns', h', r)"
    and "distinct is" and "\<forall>i \<in> set is. i < length ns"
  shows "\<exists>ext. h' = h @ ext \<and> closes E h ext ns ns'
    \<and> prefix (close_calls ext) (filter (\<lambda>i. \<not> node_closed (ns ! i)) is)
    \<and> (live E c h ext \<longrightarrow> close_calls ext = filter (\<lambda>i. \<not> node_closed (ns ! i)) is)
    \<and> (r = None \<longleftrightarrow> r0 = None \<and> live E c h ext \<and> (\<forall>i \<in> set is. node_closed (ns' ! i)))
    \<and> start_calls ext = []"
  using assms
proof (induction E c op "is" ns h r0 rule: close_loop.induct)
  case (1 E c op ns h result)
  then show ?case by (intro exI [of _ "[]"]) (simp add: closes_def)
next
  case (2 E c op index rest ns h result)
  let ?h1 = "h @ [Poll c]" and ?h2 = "(h @ [Poll c]) @ [CloseCall index]"
  let ?h3 = "((h @ [Poll c]) @ [CloseCall index]) @ [Poll c]"
  have idx: "index < length ns" "index \<notin> set rest" "distinct rest" "\<forall>i \<in> set rest. i < length ns"
    using 2(5,6) by auto
  show ?case
  proof (cases "ctxErr E ?h1")
    case (Some e)
    with 2(4) show ?thesis
      by (intro exI [of _ "[Poll c]"]) (auto simp: closes_def)
  next
    case None
    note alive1 = this
    show ?thesis
    proof (cases "node_closed (ns ! index)")
      case True
      with 2(4) None have "close_loop E c op rest ns ?h1 result = (ns', h', r)" by (simp add: Let_def)
      from 2(1) [OF refl None True this idx(3,4)] obtain ext where ext:
        "h' = ?h1 @ ext" "closes E ?h1 ext ns ns'"
        "prefix (close_calls ext) (filter (\<lambda>i. \<not> node_closed (ns ! i)) rest)"
        "live E c ?h1 ext \<longrightarrow> close_calls ext = filter (\<lambda>i. \<not> node_closed (ns ! i)) rest"
        "r = None \<longleftrightarrow> result = None \<and> live E c ?h1 ext \<and> (\<forall>i \<in> set rest. node_closed (ns' ! i))"
        "start_calls ext = []"
        by blast
      moreover have "node_closed (ns' ! index)" using ext(2) True idx(1) by (simp add: closes_def)
      ultimately show ?thesis
        using None True by (intro exI [of _ "Poll c # ext"]) (simp add: closes_def)
    next
      case open_: False
      show ?thesis
      proof (cases "provider E ?h2")
        case None
        let ?ns = "set_closed index ns"
        have same: "filter (\<lambda>i. \<not> node_closed (?ns ! i)) rest = filter (\<lambda>i. \<not> node_closed (ns ! i)) rest"
          using idx by (intro filter_cong) (auto simp: set_closed_nth)
        show ?thesis
        proof (cases "ctxErr E ?h3")
          case (Some e)
          with 2(4) alive1 open_ None show ?thesis
            by (intro exI [of _ "[Poll c, CloseCall index, Poll c]"])
              (auto simp: closes_def set_closed_nth idx(1))
        next
          case alive3: None
          with 2(4) alive1 open_ None have "close_loop E c op rest ?ns ?h3 result = (ns', h', r)"
            by (simp add: Let_def)
          from 2(2) [OF refl alive1 open_ refl refl None refl alive3 this idx(3)] idx(4)
          obtain ext where ext: "h' = ?h3 @ ext" "closes E ?h3 ext ?ns ns'"
            "prefix (close_calls ext) (filter (\<lambda>i. \<not> node_closed (?ns ! i)) rest)"
            "live E c ?h3 ext \<longrightarrow> close_calls ext = filter (\<lambda>i. \<not> node_closed (?ns ! i)) rest"
            "r = None \<longleftrightarrow> result = None \<and> live E c ?h3 ext \<and> (\<forall>i \<in> set rest. node_closed (ns' ! i))"
            "start_calls ext = []"
            by auto
          have "closes E h (Poll c # CloseCall index # Poll c # ext) ns ns'"
            using ext(2) None idx(1) by (auto simp: closes_def set_closed_nth)
          moreover have "node_closed (ns' ! index)"
            using ext(2) idx(1) by (simp add: closes_def set_closed_nth)
          ultimately show ?thesis
            using ext alive1 alive3 open_ same
            by (intro exI [of _ "Poll c # CloseCall index # Poll c # ext"]) simp
        qed
      next
        case (Some err)
        show ?thesis
        proof (cases "ctxErr E ?h3")
          case (Some e)
          with 2(4) alive1 open_ \<open>provider E ?h2 = Some err\<close> show ?thesis
            by (intro exI [of _ "[Poll c, CloseCall index, Poll c]"])
              (auto simp: closes_def)
        next
          case alive3: None
          let ?r = "errors_Join [result, lifecycleError (node_name (ns ! index)) op (Some err)]"
          from 2(4) alive1 open_ Some alive3 have "close_loop E c op rest ns ?h3 ?r = (ns', h', r)"
            by (simp add: Let_def)
          from 2(3) [OF refl alive1 open_ refl refl Some refl alive3 this idx(3)] idx(4)
          obtain ext where ext: "h' = ?h3 @ ext" "closes E ?h3 ext ns ns'"
            "prefix (close_calls ext) (filter (\<lambda>i. \<not> node_closed (ns ! i)) rest)"
            "live E c ?h3 ext \<longrightarrow> close_calls ext = filter (\<lambda>i. \<not> node_closed (ns ! i)) rest"
            "r = None \<longleftrightarrow> ?r = None \<and> live E c ?h3 ext \<and> (\<forall>i \<in> set rest. node_closed (ns' ! i))"
            "start_calls ext = []"
            by auto
          have "set (close_calls ext) \<subseteq> set rest"
            using set_mono_prefix [OF ext(3)] by auto
          then have "CloseCall index \<notin> set ext" using idx(2) close_calls_set by blast
          then have "\<not> nil_call E ?h3 ext (CloseCall index)" using nil_call_mem by blast
          then have "closes E h (Poll c # CloseCall index # Poll c # ext) ns ns'" "\<not> node_closed (ns' ! index)"
            using ext(2) Some idx(1) open_ by (auto simp: closes_def)
          then show ?thesis
            using ext alive1 alive3 open_
            by (intro exI [of _ "Poll c # CloseCall index # Poll c # ext"]) simp
        qed
      qed
    qed
  qed
qed

text \<open>
  The start loop of the resource graph and its rollback: \<open>start_outcome\<close> states what one run of the loop
  guarantees from any point on, and \<open>start_loop_spec\<close> proves it by induction on the loop.
\<close>

section \<open>Start\<close>

lemma append_Cons_split:
  "xs @ ys = p @ x # q \<Longrightarrow> (\<exists>us. xs = p @ x # us) \<or> (\<exists>p'. p = xs @ p' \<and> ys = p' @ x # q)"
  by (auto simp: append_eq_append_conv2 append_eq_Cons_conv)

lemma rollback_spec:
  assumes "rollbackStartup E acq orig g h = (g', h', r)" and "orig \<noteq> None"
    and "distinct acq" and "\<forall>i \<in> set acq. i < length (nodes g)"
  shows "\<exists>ext. h' = h @ ext \<and> closes E h ext (nodes g) (nodes g') \<and> start_calls ext = []
    \<and> prefix (close_calls ext) (filter (\<lambda>i. \<not> node_closed (nodes g ! i)) (rev acq))
    \<and> (live E RollbackCtx h ext \<longrightarrow>
         close_calls ext = filter (\<lambda>i. \<not> node_closed (nodes g ! i)) (rev acq))
    \<and> r \<noteq> None \<and> \<not> startSucceeded g' \<and> startDone g' = ClosedChan"
proof -
  obtain ns h2 ce where c: "close_loop E RollbackCtx OperationRollback (rev acq) (nodes g) h None = (ns, h2, ce)"
    using prod_cases3 by blast
  have eq: "h' = h2" "g' = finishStart False (g\<lparr>nodes := ns\<rparr>)" "r = errors_Join [orig, ce]"
    using assms(1) by (simp_all add: rollbackStartup_def closeIndexes_def c)
  from close_loop_spec [OF c] assms(2,3,4) show ?thesis
    by (auto simp: eq finishStart_def)
qed

text \<open>
  \<open>gated\<close>: whenever a resource is started, every resource started before it had answered its
  \<open>Start\<close>, and its \<open>Ready\<close> when it is required, with nil.
\<close>

definition answered :: "env \<Rightarrow> node list \<Rightarrow> event list \<Rightarrow> event list \<Rightarrow> nat \<Rightarrow> bool" where
  "answered E ns h p i \<longleftrightarrow>
     nil_call E h p (StartCall i) \<and> (node_required (ns ! i) \<longrightarrow> nil_call E h p (ReadyCall i))"

definition gated :: "env \<Rightarrow> node list \<Rightarrow> event list \<Rightarrow> event list \<Rightarrow> bool" where
  "gated E ns h ext \<longleftrightarrow>
     (\<forall>p j q. ext = p @ StartCall j # q \<longrightarrow> (\<forall>i \<in> set (start_calls p). answered E ns h p i))"

lemma gated_no_start: "start_calls ext = [] \<Longrightarrow> gated E ns h ext"
  by (auto simp: gated_def)

lemma gated_Poll: "gated E ns (h @ [Poll c]) ext \<Longrightarrow> gated E ns h (Poll c # ext)"
  by (auto simp: gated_def Cons_eq_append_conv answered_def)

lemma gated_step:
  assumes "gated E ns (h @ pre) ext" and "start_calls pre = [k]" and "answered E ns h pre k"
    and "\<And>p q. pre \<noteq> p @ StartCall k # q \<or> start_calls p = []"
  shows "gated E ns h (pre @ ext)"
  unfolding gated_def
proof (intro allI impI ballI)
  fix p j q i
  assume e: "pre @ ext = p @ StartCall j # q" and i: "i \<in> set (start_calls p)"
  consider (inside) us where "pre = p @ StartCall j # us"
    | (after) p' where "p = pre @ p'" "ext = p' @ StartCall j # q"
    using append_Cons_split [OF e] by blast
  then show "answered E ns h p i"
  proof cases
    case inside
    then have "j = k" using assms(2) by (auto simp: append_eq_Cons_conv)
    with inside assms(4) i show ?thesis by fastforce
  next
    case after
    with i assms(2) consider "i = k" | "i \<in> set (start_calls p')" by auto
    then show ?thesis
    proof cases
      case 1
      with assms(3) after(1) show ?thesis by (auto simp: answered_def nil_call_append)
    next
      case 2
      with assms(1) after show ?thesis by (auto simp: gated_def answered_def nil_call_append)
    qed
  qed
qed

definition start_nodes :: "env \<Rightarrow> event list \<Rightarrow> event list \<Rightarrow> node list \<Rightarrow> node list \<Rightarrow> bool" where
  "start_nodes E h ext ns ns' \<longleftrightarrow>
     length ns' = length ns
   \<and> (\<forall>i < length ns. ns' ! i =
        (ns ! i)\<lparr>node_acquired := node_acquired (ns ! i) \<or> StartCall i \<in> set ext,
                 node_closed := node_closed (ns ! i) \<or> nil_call E h ext (CloseCall i)\<rparr>)"

definition startup_trace :: "node list \<Rightarrow> nat list \<Rightarrow> event list" where
  "startup_trace ns is =
     concat (map (\<lambda>i. [Poll StartCtx, StartCall i] @ (if node_required (ns ! i) then [ReadyCall i] else [])) is)
     @ [Poll StartCtx]"

definition keeps_nodes :: "env \<Rightarrow> bool" where
  "keeps_nodes E \<longleftrightarrow> (\<forall>h g. nodes (interference E h g) = nodes g)"

text \<open>What one run of the start loop guarantees, from any point of the loop on.\<close>

definition start_outcome :: "env \<Rightarrow> nat list \<Rightarrow> nat list \<Rightarrow> graph \<Rightarrow> event list \<Rightarrow> event list
    \<Rightarrow> graph \<Rightarrow> goerr option \<Rightarrow> bool" where
  "start_outcome E todo acq g h ext g' r \<longleftrightarrow>
     start_nodes E h ext (nodes g) (nodes g')
   \<and> gated E (nodes g) h ext
   \<and> prefix (start_calls ext) todo
   \<and> startDone g' = ClosedChan
   \<and> (startSucceeded g' \<longleftrightarrow> r = None)
   \<and> (r = None \<longrightarrow> ext = startup_trace (nodes g) todo)
   \<and> (r \<noteq> None \<longrightarrow>
        prefix (close_calls ext) (filter (\<lambda>i. \<not> node_closed (nodes g ! i)) (rev (acq @ start_calls ext)))
      \<and> (live E RollbackCtx h ext \<longrightarrow>
           close_calls ext = filter (\<lambda>i. \<not> node_closed (nodes g ! i)) (rev (acq @ start_calls ext))))"

lemma closes_start_nodes:
  "closes E h ext ns ns' \<Longrightarrow> start_calls ext = [] \<Longrightarrow> start_nodes E h ext ns ns'"
  by (auto simp: closes_def start_nodes_def start_calls_set [symmetric])

lemma rollback_outcome:
  assumes "rollbackStartup E (acq @ ks) orig g h' = (g', h'', r)" and "orig \<noteq> None"
    and "distinct (acq @ ks)" and "\<forall>i \<in> set (acq @ ks). i < length (nodes g0)"
    and pre: "h' = h @ pre" "start_calls pre = ks" "close_calls pre = []" "live E RollbackCtx h pre"
    and "gated E (nodes g0) h pre" and "prefix ks todo"
    and g: "nodes g = fold set_acquired ks (nodes g0)" and small: "length ks \<le> 1"
  shows "\<exists>ext. h'' = h @ ext \<and> start_outcome E todo acq g0 h ext g' r"
proof -
  have len: "length (nodes g) = length (nodes g0)"
    unfolding g by (induction ks arbitrary: g0 rule: rev_induct) simp_all
  have nth: "nodes g ! i = (nodes g0 ! i)\<lparr>node_acquired := node_acquired (nodes g0 ! i) \<or> i \<in> set ks\<rparr>"
    if "i < length (nodes g0)" for i
  proof -
    consider "ks = []" | k where "ks = [k]" using small by (cases ks) auto
    then show ?thesis
      using that assms(4) by cases (auto simp: g set_acquired_nth)
  qed
  from rollback_spec [OF assms(1,2,3)] assms(4) len obtain ext where ext:
    "h'' = h' @ ext" "closes E h' ext (nodes g) (nodes g')" "start_calls ext = []"
    "prefix (close_calls ext) (filter (\<lambda>i. \<not> node_closed (nodes g ! i)) (rev (acq @ ks)))"
    "live E RollbackCtx h' ext \<longrightarrow>
       close_calls ext = filter (\<lambda>i. \<not> node_closed (nodes g ! i)) (rev (acq @ ks))"
    "r \<noteq> None" "\<not> startSucceeded g'" "startDone g' = ClosedChan"
    by auto
  have same: "filter (\<lambda>i. \<not> node_closed (nodes g ! i)) (rev (acq @ ks)) =
      filter (\<lambda>i. \<not> node_closed (nodes g0 ! i)) (rev (acq @ ks))"
    using assms(4) by (intro filter_cong) (auto simp: nth)
  have no_close: "\<not> nil_call E h pre (CloseCall i)" for i
    using pre(3) nil_call_mem by (metis close_calls_set empty_iff list.set(1))
  have "start_nodes E h (pre @ ext) (nodes g0) (nodes g')"
    using ext(2,3) len pre(1,2) no_close
    by (auto simp: start_nodes_def closes_def nth nil_call_append start_calls_set [symmetric])
  moreover have "gated E (nodes g0) h (pre @ ext)"
  proof -
    have "StartCall j \<notin> set ext" for j using ext(3) by (metis start_calls_set empty_iff list.set(1))
    then show ?thesis
      using assms(9) unfolding gated_def by (metis append_Cons_split in_set_conv_decomp)
  qed
  ultimately show ?thesis
    using ext pre assms(10) same
    by (intro exI [of _ "pre @ ext"]) (auto simp: start_outcome_def live_append)
qed

lemma start_outcome_step:
  assumes "start_outcome E rest (acq @ [k]) g1 (h @ pre) ext g' r"
    and g1: "nodes g1 = set_acquired k (nodes g0)" and k: "k < length (nodes g0)" "k \<notin> set rest"
    and acq: "\<forall>i \<in> set acq. i < length (nodes g0)" "\<forall>i \<in> set rest. i < length (nodes g0)"
    and pre: "pre = [Poll StartCtx, StartCall k] @ (if node_required (nodes g0 ! k) then [ReadyCall k] else [])"
    and ans: "answered E (nodes g0) h pre k"
  shows "start_outcome E (k # rest) acq g0 h (pre @ ext) g' r"
proof -
  have nth: "nodes g1 ! i = (nodes g0 ! i)\<lparr>node_acquired := node_acquired (nodes g0 ! i) \<or> i = k\<rparr>"
    if "i < length (nodes g0)" for i
    using that k(1) by (auto simp: g1 set_acquired_nth)
  have req: "node_required (nodes g1 ! i) = node_required (nodes g0 ! i)" for i
    using k(1) by (auto simp: g1 set_acquired_nth)
  have len: "length (nodes g1) = length (nodes g0)" by (simp add: g1)
  have o: "start_nodes E (h @ pre) ext (nodes g1) (nodes g')" "gated E (nodes g1) (h @ pre) ext"
    "prefix (start_calls ext) rest" "startDone g' = ClosedChan" "startSucceeded g' \<longleftrightarrow> r = None"
    "r = None \<Longrightarrow> ext = startup_trace (nodes g1) rest"
    "r \<noteq> None \<Longrightarrow> prefix (close_calls ext)
       (filter (\<lambda>i. \<not> node_closed (nodes g1 ! i)) (rev ((acq @ [k]) @ start_calls ext)))"
    "r \<noteq> None \<Longrightarrow> live E RollbackCtx (h @ pre) ext \<longrightarrow> close_calls ext =
       filter (\<lambda>i. \<not> node_closed (nodes g1 ! i)) (rev ((acq @ [k]) @ start_calls ext))"
    using assms(1) by (auto simp: start_outcome_def)
  have calls: "start_calls pre = [k]" "close_calls pre = []" "live E RollbackCtx h pre"
    by (simp_all add: pre)
  have inb: "\<forall>i \<in> set ((acq @ [k]) @ start_calls ext). i < length (nodes g0)"
    using acq k(1) set_mono_prefix [OF o(3)] by auto
  have same: "filter (\<lambda>i. \<not> node_closed (nodes g1 ! i)) (rev ((acq @ [k]) @ start_calls ext)) =
      filter (\<lambda>i. \<not> node_closed (nodes g0 ! i)) (rev (acq @ start_calls (pre @ ext)))"
  proof -
    have "acq @ start_calls (pre @ ext) = (acq @ [k]) @ start_calls ext" by (simp add: calls)
    with inb show ?thesis by (simp only:) (intro filter_cong, auto simp: nth)
  qed
  have no_close: "\<not> nil_call E h pre (CloseCall i)" for i
    using calls(2) nil_call_mem by (metis close_calls_set empty_iff list.set(1))
  have mem: "StartCall i \<in> set (pre @ ext) \<longleftrightarrow> i = k \<or> StartCall i \<in> set ext" for i
    by (auto simp: pre)
  have "start_nodes E h (pre @ ext) (nodes g0) (nodes g')"
    using o(1) len no_close unfolding start_nodes_def mem by (simp add: nth nil_call_append)
  moreover have "gated E (nodes g0) h (pre @ ext)"
  proof (rule gated_step [OF _ calls(1) ans])
    show "gated E (nodes g0) (h @ pre) ext"
      using o(2) by (simp add: gated_def answered_def req)
    show "pre \<noteq> p @ StartCall k # q \<or> start_calls p = []" for p q
      using calls(1) by (auto simp: append_eq_Cons_conv)
  qed
  moreover have "startup_trace (nodes g0) (k # rest) = pre @ startup_trace (nodes g1) rest"
    by (simp add: startup_trace_def pre req)
  ultimately show ?thesis
    using o calls same by (auto simp: start_outcome_def live_append)
qed

text \<open>The main lemma: one case per way a round of the loop can go.\<close>

lemma start_loop_spec:
  assumes "start_loop E todo acq g h = (g', h', r)" and "keeps_nodes E"
    and "distinct (acq @ todo)" and "\<forall>i \<in> set (acq @ todo). i < length (nodes g)"
  shows "\<exists>ext. h' = h @ ext \<and> start_outcome E todo acq g h ext g' r"
  using assms
proof (induction E todo acq g h rule: start_loop.induct)
  case (1 E acq g h)
  let ?h1 = "h @ [Poll StartCtx]"
  show ?case
  proof (cases "ctxErr E ?h1")
    case (Some e)
    with 1 show ?thesis
      by (intro rollback_outcome [where ks = "[]" and pre = "[Poll StartCtx]" and g = g])
        (auto simp: Let_def gated_no_start)
  next
    case None
    let ?g1 = "interference E ?h1 g"
    have n: "nodes ?g1 = nodes g" using 1(2) by (simp add: keeps_nodes_def)
    show ?thesis
    proof (cases "closeRequested ?g1")
      case True
      with 1 None n show ?thesis
        by (intro rollback_outcome [where ks = "[]" and pre = "[Poll StartCtx]" and g = ?g1])
          (auto simp: Let_def gated_no_start)
    next
      case False
      with 1 None n show ?thesis
        by (intro exI [of _ "[Poll StartCtx]"])
          (auto simp: Let_def finishStart_def start_outcome_def startup_trace_def gated_no_start
            start_nodes_def)
    qed
  qed
next
  case (2 E index rest acq g h)
  let ?h1 = "h @ [Poll StartCtx]" and ?h2 = "(h @ [Poll StartCtx]) @ [StartCall index]"
  let ?h3 = "((h @ [Poll StartCtx]) @ [StartCall index]) @ [ReadyCall index]"
  let ?g1 = "g\<lparr>nodes := set_acquired index (nodes g)\<rparr>"
  have idx: "index < length (nodes g)" "index \<notin> set rest" "distinct ((acq @ [index]) @ rest)"
    "\<forall>i \<in> set ((acq @ [index]) @ rest). i < length (nodes ?g1)"
    "\<forall>i \<in> set acq. i < length (nodes g)" "\<forall>i \<in> set rest. i < length (nodes g)"
    using 2(5,6) by auto
  show ?case
  proof (cases "ctxErr E ?h1")
    case (Some e)
    with 2(3,5,6) show ?thesis
      by (intro rollback_outcome [where ks = "[]" and pre = "[Poll StartCtx]" and g = g])
        (auto simp: Let_def gated_no_start)
  next
    case alive: None
    show ?thesis
    proof (cases "provider E ?h2")
      case (Some err)
      with 2(3) alive idx show ?thesis
        by (intro rollback_outcome [where ks = "[index]" and g = ?g1
              and pre = "[Poll StartCtx, StartCall index, Poll CallerCtx]"])
          (auto simp: Let_def gated_def Cons_eq_append_conv)
    next
      case started: None
      show ?thesis
      proof (cases "node_required (nodes g ! index)")
        case False
        with 2(3) alive started have "start_loop E rest (acq @ [index]) ?g1 ?h2 = (g', h', r)"
          by (simp add: Let_def)
        from 2(2) [OF refl alive refl refl refl refl started False this 2(4) idx(3,4)]
        obtain ext where ext: "h' = ?h2 @ ext" "start_outcome E rest (acq @ [index]) ?g1 ?h2 ext g' r"
          by blast
        with False started idx show ?thesis
          by (intro exI [of _ "[Poll StartCtx, StartCall index] @ ext"] conjI start_outcome_step [where ?g1.0 = ?g1])
            (auto simp: answered_def)
      next
        case True
        show ?thesis
        proof (cases "provider E ?h3")
          case (Some err)
          with 2(3) alive started True idx show ?thesis
            by (intro rollback_outcome [where ks = "[index]" and g = ?g1
                  and pre = "[Poll StartCtx, StartCall index, ReadyCall index, Poll CallerCtx]"])
              (auto simp: Let_def gated_def Cons_eq_append_conv)
        next
          case None
          with 2(3) alive started True have "start_loop E rest (acq @ [index]) ?g1 ?h3 = (g', h', r)"
            by (simp add: Let_def)
          from 2(1) [OF refl alive refl refl refl refl started True refl None this 2(4) idx(3,4)]
          obtain ext where ext: "h' = ?h3 @ ext" "start_outcome E rest (acq @ [index]) ?g1 ?h3 ext g' r"
            by blast
          with True started None idx show ?thesis
            by (intro exI [of _ "[Poll StartCtx, StartCall index, ReadyCall index] @ ext"] conjI
                start_outcome_step [where ?g1.0 = ?g1])
              (auto simp: answered_def)
        qed
      qed
    qed
  qed
qed

end
