(* ===== verification/Resource_Close.thy ===== *)
theory Resource_Close
  imports Resource_Start
begin

text \<open>
  One \<open>Close\<close> call and the inspection loop of \<open>Health\<close> and \<open>Ready\<close>: what they call, in which order, and
  which errors they report.
\<close>

section \<open>Close, Health and Ready\<close>

lemma openIndexes_bounds: "\<forall>i \<in> set (rev (openIndexesLocked ns)). i < length ns"
  and openIndexes_distinct: "distinct (rev (openIndexesLocked ns))"
  and openIndexes_open: "filter (\<lambda>i. \<not> node_closed (ns ! i)) (rev (openIndexesLocked ns)) = rev (openIndexesLocked ns)"
  by (simp_all add: openIndexesLocked_def filter_id_conv)

lemma allClosed_open: "allClosedLocked ns \<longleftrightarrow> openIndexesLocked ns = []"
  by (auto simp: allClosedLocked_def openIndexesLocked_def list_ex_iff filter_empty_conv
      all_set_conv_all_nth)

lemma closes_refl: "closes E h [] ns ns"
  by (simp add: closes_def)

lemma no_close_call: "close_calls ext = [] \<Longrightarrow> \<not> nil_call E h ext (CloseCall i)"
  using nil_call_mem [of E h ext "CloseCall i"] close_calls_set [of i ext] by auto

lemma closes_no_call: "close_calls ext = [] \<Longrightarrow> closes E h ext ns ns"
  by (simp add: closes_def no_close_call)

text \<open>What one pass through the second half of \<open>Close\<close> guarantees.\<close>

definition close_outcome :: "env \<Rightarrow> node list \<Rightarrow> event list \<Rightarrow> event list \<Rightarrow> node list \<Rightarrow> bool" where
  "close_outcome E ns h ext ns' \<longleftrightarrow>
     closes E h ext ns ns' \<and> start_calls ext = []
   \<and> prefix (close_calls ext) (rev (openIndexesLocked ns))"

lemma close_outcome_prefix:
  "close_calls pre = [] \<Longrightarrow> start_calls pre = [] \<Longrightarrow> close_outcome E ns (h @ pre) ext ns' \<Longrightarrow>
   close_outcome E ns h (pre @ ext) ns'"
  by (simp add: close_outcome_def closes_def nil_call_append no_close_call)

lemma close_attempt_spec:
  assumes "close_attempt E g h = (g', h', r)"
  shows "\<exists>ext. h' = h @ ext \<and> close_outcome E (nodes g) h ext (nodes g')
    \<and> (\<not> activeClose g \<longrightarrow>
         (r = None \<longrightarrow> graph_closed g' \<and> allClosedLocked (nodes g'))
       \<and> (live E CallerCtx h ext \<longrightarrow> close_calls ext = rev (openIndexesLocked (nodes g))))"
proof (cases "allClosedLocked (nodes g)")
  case True
  then have "openIndexesLocked (nodes g) = []" by (simp add: allClosed_open)
  with assms True show ?thesis
    by (intro exI [of _ "[]"]) (auto simp: close_attempt_def closes_refl close_outcome_def)
next
  case False
  show ?thesis
  proof (cases "activeClose g")
    case True
    with assms False show ?thesis
      by (intro exI [of _ "[WaitGeneration]"])
        (auto simp: close_attempt_def Let_def closes_no_call close_outcome_def)
  next
    case inactive: False
    obtain ns h2 ce where
      c: "close_loop E CallerCtx OperationClose (rev (openIndexesLocked (nodes g))) (nodes g) h None = (ns, h2, ce)"
      using prod_cases3 by blast
    have eq: "h' = h2" "nodes g' = ns" "r = ce" "graph_closed g' \<longleftrightarrow> graph_closed g \<or> allClosedLocked ns"
      using assms False inactive by (auto simp: close_attempt_def closeIndexes_def c)
    from close_loop_spec [OF c openIndexes_distinct openIndexes_bounds] obtain ext where ext:
      "h2 = h @ ext" "closes E h ext (nodes g) ns" "prefix (close_calls ext) (rev (openIndexesLocked (nodes g)))"
      "live E CallerCtx h ext \<longrightarrow> close_calls ext = rev (openIndexesLocked (nodes g))"
      "ce = None \<longleftrightarrow> live E CallerCtx h ext \<and> (\<forall>i \<in> set (rev (openIndexesLocked (nodes g))). node_closed (ns ! i))"
      "start_calls ext = []"
      unfolding openIndexes_open by auto
    have "allClosedLocked ns" if "ce = None"
    proof -
      have "node_closed (ns ! i)" if i: "i < length ns" "node_acquired (ns ! i)" for i
      proof (cases "node_closed (nodes g ! i)")
        case True
        with i ext(2) show ?thesis by (simp add: closes_def)
      next
        case False
        with i ext(2) have "i \<in> set (rev (openIndexesLocked (nodes g)))"
          by (simp add: closes_def openIndexesLocked_def)
        with \<open>ce = None\<close> ext(5) show ?thesis by blast
      qed
      then show ?thesis by (auto simp: allClosedLocked_def list_ex_iff in_set_conv_nth)
    qed
    with ext eq show ?thesis by (auto simp: close_outcome_def)
  qed
qed

lemma waitForLifecycle_spec:
  "waitForLifecycle E ch w h = (h', e) \<Longrightarrow> w \<in> {WaitStart, WaitRun, WaitInspections} \<Longrightarrow>
   \<exists>ext. h' = h @ ext \<and> close_calls ext = [] \<and> start_calls ext = [] \<and> live E c h ext"
  by (cases "ch = NilChan") (auto simp: waitForLifecycle_def Let_def)

lemma Close_spec:
  assumes "Close E True (Some g) h = (Some g', h', r)" and "keeps_nodes E"
  shows "\<exists>ext. h' = h @ ext \<and> close_outcome E (nodes g) h ext (nodes g')"
proof (cases "graph_closed g")
  case True
  with assms(1) show ?thesis
    by (intro exI [of _ "[]"]) (auto simp: Close_def closes_refl close_outcome_def)
next
  case open_: False
  let ?g1 = "g\<lparr>closeRequested := True\<rparr>" and ?h1 = "h @ [Poll CallerCtx]"
  have stop: "close_outcome E (nodes g) h ext (nodes g)" if "close_calls ext = []" "start_calls ext = []" for ext
    using that by (simp add: close_outcome_def closes_no_call)
  show ?thesis
  proof (cases "ctxErr E ?h1")
    case (Some e)
    with assms(1) open_ show ?thesis
      by (intro exI [of _ "[Poll CallerCtx]"]) (auto simp: Close_def Let_def intro!: stop)
  next
    case alive: None
    obtain h2 e2 where w1: "waitForLifecycle E (startDone g) WaitStart ?h1 = (h2, e2)" by fastforce
    then obtain x1 where x1: "h2 = ?h1 @ x1" "close_calls x1 = []" "start_calls x1 = []"
      using waitForLifecycle_spec by blast
    obtain h3 e3 where w2: "waitForLifecycle E (runDone g) WaitRun h2 = (h3, e3)" by fastforce
    then obtain x2 where x2: "h3 = h2 @ x2" "close_calls x2 = []" "start_calls x2 = []"
      using waitForLifecycle_spec by blast
    obtain h4 e4 where w3: "waitForInspections E (interference E h3 ?g1) h3 = (h4, e4)" by fastforce
    then obtain x3 where x3: "h4 = h3 @ x3" "close_calls x3 = []" "start_calls x3 = []"
      using waitForLifecycle_spec [of E OpenChan WaitInspections h3 h4 e4]
      by (auto simp: waitForInspections_def split: if_splits)
    let ?g4 = "interference E h4 (interference E h3 ?g1)"
    have n: "nodes (interference E h3 ?g1) = nodes g" "nodes ?g4 = nodes g"
      using assms(2) by (simp_all add: keeps_nodes_def)
    show ?thesis
    proof (cases "e2 = None \<and> e3 = None \<and> e4 = None")
      case False
      then consider e where "e2 = Some e" | e where "e2 = None" "e3 = Some e"
        | e where "e2 = None" "e3 = None" "e4 = Some e"
        by (cases e2; cases e3; cases e4) auto
      then show ?thesis
      proof cases
        case 1
        with assms(1) open_ alive w1 x1 show ?thesis
          by (intro exI [of _ "Poll CallerCtx # x1"]) (auto simp: Close_def Let_def intro!: stop)
      next
        case 2
        with assms(1) open_ alive w1 w2 x1 x2 show ?thesis
          by (intro exI [of _ "Poll CallerCtx # x1 @ x2"]) (auto simp: Close_def Let_def intro!: stop)
      next
        case 3
        with assms(1) open_ alive w1 w2 w3 n x1 x2 x3 show ?thesis
          by (intro exI [of _ "Poll CallerCtx # x1 @ x2 @ x3"])
            (auto simp: Close_def Let_def intro!: stop)
      qed
    next
      case True
      obtain g5 h5 r5 where a: "close_attempt E ?g4 h4 = (g5, h5, r5)" using prod_cases3 by blast
      from close_attempt_spec [OF a] n obtain ext where ext: "h5 = h4 @ ext"
        "close_outcome E (nodes g) h4 ext (nodes g5)" by auto
      let ?pre = "Poll CallerCtx # x1 @ x2 @ x3"
      have h4: "h4 = h @ ?pre" using x1 x2 x3 by simp
      have "close_calls ?pre = []" "start_calls ?pre = []" using x1 x2 x3 by simp_all
      then have "close_outcome E (nodes g) h (?pre @ ext) (nodes g5)"
        using ext(2) unfolding h4 by (rule close_outcome_prefix)
      moreover have "Close E True (Some g) h = (Some g5, h5, r5)"
        using open_ alive w1 w2 w3 True a by (simp add: Close_def Let_def)
      then have "g' = g5" "h' = h5" using assms(1) by simp_all
      ultimately show ?thesis using ext(1) h4 by auto
    qed
  qed
qed

fun inspect_calls :: "event list \<Rightarrow> nat list" where
  "inspect_calls [] = []"
| "inspect_calls (HealthCall i # es) = i # inspect_calls es"
| "inspect_calls (ReadyCall i # es) = i # inspect_calls es"
| "inspect_calls (_ # es) = inspect_calls es"

text \<open>An error of the sentinel was seen: from a checker, or as the context's error.\<close>

fun saw_error :: "env \<Rightarrow> event list \<Rightarrow> event list \<Rightarrow> sentinel \<Rightarrow> bool" where
  "saw_error E h [] t = False"
| "saw_error E h (x # ext) t =
     ((case x of
         Poll _ \<Rightarrow> ctxErr E (h @ [x]) = Some t
       | _ \<Rightarrow> is_err (provider E (h @ [x])) t)
      \<or> saw_error E (h @ [x]) ext t)"

fun all_nil :: "env \<Rightarrow> event list \<Rightarrow> event list \<Rightarrow> bool" where
  "all_nil E h [] = True"
| "all_nil E h (x # ext) =
     ((case x of
         Poll _ \<Rightarrow> ctxErr E (h @ [x]) = None
       | _ \<Rightarrow> provider E (h @ [x]) = None)
      \<and> all_nil E (h @ [x]) ext)"

lemma inspect_loop_spec:
  assumes "inspect_loop E op checks call ns todo h r0 = (h', r)"
    and "call = HealthCall \<or> call = ReadyCall"
  shows "\<exists>ext. h' = h @ ext
    \<and> prefix (inspect_calls ext) (filter (\<lambda>i. checks (ns ! i)) todo)
    \<and> (live E CallerCtx h ext \<longrightarrow> inspect_calls ext = filter (\<lambda>i. checks (ns ! i)) todo)
    \<and> (\<forall>t. is_err r t \<longleftrightarrow> is_err r0 t \<or> saw_error E h ext t)
    \<and> (r = None \<longleftrightarrow> r0 = None \<and> all_nil E h ext)
    \<and> (redacted r0 \<longrightarrow> redacted r)"
  using assms
proof (induction E op checks call ns todo h r0 rule: inspect_loop.induct)
  case (1 E op checks call ns h result)
  then show ?case
    by (intro exI [of _ "[Poll CallerCtx]"])
      (auto simp: Let_def dest: is_err_Some split: option.splits if_splits)
next
  case (2 E op checks call ns index rest h result)
  let ?h1 = "h @ [Poll CallerCtx]" and ?h2 = "(h @ [Poll CallerCtx]) @ [call index]"
  show ?case
  proof (cases "ctxErr E ?h1")
    case (Some e)
    with 2(3) show ?thesis
      by (intro exI [of _ "[Poll CallerCtx]"]) (auto simp: Let_def)
  next
    case None
    show ?thesis
    proof (cases "checks (ns ! index)")
      case False
      with 2(3) None have "inspect_loop E op checks call ns rest ?h1 result = (h', r)" by (simp add: Let_def)
      from 2(1) [OF refl None False this 2(4)] obtain ext where ext: "h' = ?h1 @ ext"
        "prefix (inspect_calls ext) (filter (\<lambda>i. checks (ns ! i)) rest)"
        "live E CallerCtx ?h1 ext \<longrightarrow> inspect_calls ext = filter (\<lambda>i. checks (ns ! i)) rest"
        "\<forall>t. is_err r t \<longleftrightarrow> is_err result t \<or> saw_error E ?h1 ext t"
        "r = None \<longleftrightarrow> result = None \<and> all_nil E ?h1 ext"
        "redacted result \<longrightarrow> redacted r" by blast
      with None False show ?thesis
        by (intro exI [of _ "Poll CallerCtx # ext"]) simp
    next
      case True
      let ?r = "errors_Join [result, lifecycleError (node_name (ns ! index)) op (provider E ?h2)]"
      from 2(3) None True have "inspect_loop E op checks call ns rest ?h2 ?r = (h', r)" by (simp add: Let_def)
      from 2(2) [OF refl None _ refl this 2(4)] True obtain ext where ext: "h' = ?h2 @ ext"
        "prefix (inspect_calls ext) (filter (\<lambda>i. checks (ns ! i)) rest)"
        "live E CallerCtx ?h2 ext \<longrightarrow> inspect_calls ext = filter (\<lambda>i. checks (ns ! i)) rest"
        "\<forall>t. is_err r t \<longleftrightarrow> is_err ?r t \<or> saw_error E ?h2 ext t"
        "r = None \<longleftrightarrow> ?r = None \<and> all_nil E ?h2 ext"
        "redacted ?r \<longrightarrow> redacted r" by blast
      have r: "is_err ?r t \<longleftrightarrow> is_err result t \<or> is_err (provider E ?h2) t"
        "?r = None \<longleftrightarrow> result = None \<and> provider E ?h2 = None"
        "redacted ?r \<longleftrightarrow> redacted result" for t
        using redacted_lifecycleError is_err_lifecycleError by simp_all
      from 2(4) have "inspect_calls (Poll CallerCtx # call index # ext) = index # inspect_calls ext"
        "saw_error E h (Poll CallerCtx # call index # ext) t \<longleftrightarrow>
           is_err (provider E ?h2) t \<or> saw_error E ?h2 ext t"
        "all_nil E h (Poll CallerCtx # call index # ext) \<longleftrightarrow> provider E ?h2 = None \<and> all_nil E ?h2 ext"
        "live E CallerCtx h (Poll CallerCtx # call index # ext) \<longleftrightarrow> live E CallerCtx ?h2 ext" for t
        using None by (elim disjE; simp)+
      then show ?thesis
        using ext True unfolding r
        by (intro exI [of _ "Poll CallerCtx # call index # ext"]) simp
    qed
  qed
qed

end
