(* ===== verification/Resource_Properties.thy ===== *)
theory Resource_Properties
  imports Resource_Close
begin

text \<open>
  The properties of whole \<open>Start\<close>, \<open>Close\<close> and \<open>Health\<close> calls, each with a concrete graph and
  environment where its hypotheses hold.
\<close>

section \<open>Whole calls\<close>

lemma Start_accepted:
  assumes "Start E True (Some g) h = (Some g', h', r)" and "keeps_nodes E"
    and "ctxErr E (h @ [Poll CallerCtx]) = None" and "beginStart g = Inr g1"
  shows "\<exists>ext. h' = h @ Poll CallerCtx # ext
    \<and> start_outcome E [0..<length (nodes g)] [] g (h @ [Poll CallerCtx]) ext g' r"
proof -
  have g1: "nodes g1 = nodes g" using assms(4) by (auto simp: beginStart_def split: if_splits)
  obtain g2 h2 r2 where l: "start_loop E [0..<length (nodes g1)] [] g1 (h @ [Poll CallerCtx]) = (g2, h2, r2)"
    using prod_cases3 by blast
  with assms have "g' = g2" "h' = h2" "r = r2" by (simp_all add: Start_def Let_def)
  moreover have "start_outcome E todo acq g1 h0 ext g' r = start_outcome E todo acq g h0 ext g' r" for todo acq h0 ext
    by (simp add: start_outcome_def g1)
  ultimately show ?thesis
    using start_loop_spec [OF l assms(2)] g1 by auto
qed

lemma Start_not_accepted:
  assumes "Start E ctx (Some g) h = (Some g', h', r)"
    and "\<not> ctx \<or> ctxErr E (h @ [Poll CallerCtx]) \<noteq> None \<or> (\<exists>e. beginStart g = Inl e)"
  shows "g' = g \<and> r \<noteq> None \<and> (h' = h \<or> h' = h @ [Poll CallerCtx])"
  using assms by (auto simp: Start_def Let_def beginStart_def split: if_splits option.splits sum.splits)

lemma Close_returns_graph: "\<exists>g' h' r. Close E ctx (Some g) h = (Some g', h', r)"
  by (auto simp: Close_def Let_def split: option.splits prod.splits)

lemma start_calls_upt:
  assumes "prefix (start_calls (p @ StartCall j # q)) [0..<n]"
  shows "start_calls p = [0..<j] \<and> j < n"
proof -
  obtain zs where z: "[0..<n] = start_calls p @ j # start_calls q @ zs"
    using assms by (auto simp: prefix_def)
  let ?k = "length (start_calls p)"
  have k: "?k < n" using z by (metis length_append length_upt less_add_Suc1 list.size(4) minus_nat.diff_0 add_Suc_right)
  have "[0..<n] ! ?k = j" unfolding z by simp
  with k have j: "j = ?k" by simp
  moreover have "start_calls p = take ?k [0..<n]" unfolding z by simp
  ultimately show ?thesis using k by (simp add: take_upt)
qed

section \<open>Properties\<close>

text \<open>
  C4. Start gate: when \<open>Start\<close> calls a resource's \<open>Start\<close>, every resource before it in the
  topological order has been started, its \<open>Start\<close> has returned nil, and if it is required its \<open>Ready\<close>
  has returned nil too. This holds on every path, rollbacks included.
\<close>

theorem Start_gates_dependents:
  assumes "keeps_nodes E" and "Start E ctx (Some g) h = (Some g', h @ ext, r)"
    and "ext = p @ StartCall j # q" and "i < j"
  shows "j < length (nodes g) \<and> nil_call E h p (StartCall i)
    \<and> (node_required (nodes g ! i) \<longrightarrow> nil_call E h p (ReadyCall i))"
proof (cases "ctx \<and> ctxErr E (h @ [Poll CallerCtx]) = None \<and> (\<exists>g1. beginStart g = Inr g1)")
  case False
  then have "h @ ext = h \<or> h @ ext = h @ [Poll CallerCtx]"
    using Start_not_accepted [OF assms(2)] by (metis (no_types, lifting) old.sum.exhaust)
  with assms(3) show ?thesis by (auto simp: Cons_eq_append_conv append_eq_Cons_conv)
next
  case True
  then obtain g1 where g1: "beginStart g = Inr g1" by blast
  have st: "Start E True (Some g) h = (Some g', h @ ext, r)" using assms(2) True by simp
  obtain ext' where e: "ext = Poll CallerCtx # ext'"
    and o: "start_outcome E [0..<length (nodes g)] [] g (h @ [Poll CallerCtx]) ext' g' r"
    using Start_accepted [OF st assms(1) _ g1] True by auto
  with assms(3) obtain p' where p': "p = Poll CallerCtx # p'" "ext' = p' @ StartCall j # q"
    by (auto simp: Cons_eq_append_conv)
  have u: "start_calls p' = [0..<j]" "j < length (nodes g)"
    using o start_calls_upt unfolding start_outcome_def p'(2) by blast+
  have "answered E (nodes g) (h @ [Poll CallerCtx]) p' i"
    using o assms(4) u(1) unfolding start_outcome_def gated_def p'(2) by auto
  with u(2) show ?thesis by (simp add: answered_def p'(1))
qed

text \<open>
  A \<open>Start\<close> that returns nil has started every resource once, in topological order, asking each
  required resource for readiness right after its start, and has closed none; every node is acquired.
\<close>

theorem Start_success_trace:
  assumes "keeps_nodes E" and "Start E ctx (Some g) h = (Some g', h', None)"
  shows "h' = h @ Poll CallerCtx # startup_trace (nodes g) [0..<length (nodes g)]
    \<and> startSucceeded g' \<and> startDone g' = ClosedChan
    \<and> (\<forall>i < length (nodes g). nodes g' ! i = (nodes g ! i)\<lparr>node_acquired := True\<rparr>)"
proof -
  have acc: "ctx" "ctxErr E (h @ [Poll CallerCtx]) = None" "\<exists>g1. beginStart g = Inr g1"
    using Start_not_accepted [OF assms(2)] by (metis (no_types, lifting) old.sum.exhaust)+
  then obtain g1 ext where h': "h' = h @ Poll CallerCtx # ext"
    and o: "start_outcome E [0..<length (nodes g)] [] g (h @ [Poll CallerCtx]) ext g' None"
    using Start_accepted [OF _ assms(1)] assms(2) by metis
  have ext: "ext = startup_trace (nodes g) [0..<length (nodes g)]" using o by (simp add: start_outcome_def)
  have nc: "close_calls ext = []"
  proof -
    have "close_calls (concat (map f is)) = []" if "\<forall>i. close_calls (f i) = []"
      for f :: "nat \<Rightarrow> event list" and "is"
      using that by (induction "is") simp_all
    then show ?thesis by (simp add: ext startup_trace_def)
  qed
  have "nodes g' ! i = (nodes g ! i)\<lparr>node_acquired := True\<rparr>" if i: "i < length (nodes g)" for i
  proof -
    have "StartCall i \<in> set ext" using i by (auto simp: ext startup_trace_def)
    with o i nc show ?thesis by (simp add: start_outcome_def start_nodes_def no_close_call)
  qed
  with o h' ext show ?thesis by (simp add: start_outcome_def)
qed

text \<open>
  C5. Rollback: if an accepted \<open>Start\<close> of a graph with nothing closed returns an error, the resources
  it closed are a prefix of the started ones in reverse order, and all of them unless the rollback
  context expired; a node ends up closed exactly when its \<open>Close\<close> returned nil, and the graph is not
  started.
\<close>

theorem Start_failure_rolls_back:
  assumes "keeps_nodes E" and "Start E True (Some g) h = (Some g', h @ Poll CallerCtx # ext, Some err)"
    and "ctxErr E (h @ [Poll CallerCtx]) = None" and "beginStart g = Inr g1"
    and "\<forall>nd \<in> set (nodes g). \<not> node_closed nd"
  shows "prefix (close_calls ext) (rev (start_calls ext))
    \<and> (live E RollbackCtx (h @ [Poll CallerCtx]) ext \<longrightarrow> close_calls ext = rev (start_calls ext))
    \<and> (\<forall>i < length (nodes g). node_closed (nodes g' ! i) \<longleftrightarrow>
          nil_call E (h @ [Poll CallerCtx]) ext (CloseCall i))
    \<and> \<not> startSucceeded g'"
proof -
  from Start_accepted [OF assms(2,1,3,4)]
  have o: "start_outcome E [0..<length (nodes g)] [] g (h @ [Poll CallerCtx]) ext g' (Some err)" by simp
  have "set (start_calls ext) \<subseteq> {0..<length (nodes g)}"
    using o set_mono_prefix by (fastforce simp: start_outcome_def)
  then have "filter (\<lambda>i. \<not> node_closed (nodes g ! i)) (rev (start_calls ext)) = rev (start_calls ext)"
    using assms(5) by (intro filter_True) auto
  with o assms(5) show ?thesis by (auto simp: start_outcome_def start_nodes_def)
qed

text \<open>
  Retry: what one \<open>Close\<close> call closed successfully is never closed again by a later \<open>Close\<close> call,
  whatever the providers and the other goroutines did in between; each call closes in reverse
  topological order and only acquired resources.
\<close>

theorem Close_never_closes_twice:
  assumes "keeps_nodes E" and "keeps_nodes E'"
    and "Close E True (Some g) h = (Some g1, h @ ext, r)"
    and "Close E' True (Some g1) k = (Some g2, k @ ext', r')"
    and "nil_call E h ext (CloseCall i)"
  shows "CloseCall i \<notin> set ext'"
proof -
  have o: "close_outcome E (nodes g) h ext (nodes g1)" "close_outcome E' (nodes g1) k ext' (nodes g2)"
    using Close_spec [OF assms(3,1)] Close_spec [OF assms(4,2)] by simp_all
  have "CloseCall i \<in> set ext" using assms(5) by (rule nil_call_mem)
  then have "i \<in> set (rev (openIndexesLocked (nodes g)))"
    using o(1) set_mono_prefix by (fastforce simp: close_outcome_def close_calls_set [symmetric])
  then have "node_closed (nodes g1 ! i)"
    using o(1) assms(5) openIndexes_bounds by (auto simp: close_outcome_def closes_def)
  then have "i \<notin> set (rev (openIndexesLocked (nodes g1)))" by (simp add: openIndexesLocked_def)
  then show ?thesis
    using o(2) set_mono_prefix by (fastforce simp: close_outcome_def close_calls_set [symmetric])
qed

text \<open>
  \<open>Health\<close> asks the health checkers in topological order, all of them while the context lives;
  the error it returns matches exactly the sentinels that some checker or the context reported, is nil
  exactly when all of them reported nil, and exposes no provider error.
\<close>

theorem Health_joins_all_failures:
  assumes "Health E True (Some g) h = (g', h', r)"
    and "ctxErr E (h @ [Poll CallerCtx]) = None" and "startSucceeded g"
    and "\<not> closeRequested g" and "\<not> graph_closed g"
  shows "\<exists>ext. h' = h @ Poll CallerCtx # ext
    \<and> prefix (inspect_calls ext) (filter (\<lambda>i. is_health (node_resource (nodes g ! i))) [0..<length (nodes g)])
    \<and> (live E CallerCtx (h @ [Poll CallerCtx]) ext \<longrightarrow>
         inspect_calls ext = filter (\<lambda>i. is_health (node_resource (nodes g ! i))) [0..<length (nodes g)])
    \<and> (\<forall>t. is_err r t \<longleftrightarrow> saw_error E (h @ [Poll CallerCtx]) ext t)
    \<and> (r = None \<longleftrightarrow> all_nil E (h @ [Poll CallerCtx]) ext)
    \<and> redacted r"
proof -
  let ?g = "g\<lparr>inspections := inspections g + 1\<rparr>"
  obtain h2 r2 where l: "inspect_loop E OperationHealth (\<lambda>nd. is_health (node_resource nd)) HealthCall (nodes ?g)
      [0..<length (nodes ?g)] (h @ [Poll CallerCtx]) None = (h2, r2)" by fastforce
  have "beginInspection g = Inr ?g" using assms(3,4,5) by (simp add: beginInspection_def)
  with assms(1,2) l have "h' = h2" "r = r2"
    by (simp_all add: Health_def inspect_graph_def Let_def)
  with inspect_loop_spec [OF l] show ?thesis by auto
qed

section \<open>Concrete runs\<close>

text \<open>
  Two resources, the second depending on the first; \<open>failing e\<close> answers one provider call with an error
  and everything else with nil, and no context ever expires.
\<close>

definition demo_node :: "string \<Rightarrow> string list \<Rightarrow> bool \<Rightarrow> node" where
  "demo_node name deps required =
     \<lparr>node_name = name, node_dependencies = deps, node_required = required,
      node_resource = \<lparr>identity = None, is_runner = False, is_health = True, is_readiness = True\<rparr>,
      node_acquired = False, node_closed = False\<rparr>"

definition demo_nodes :: "node list" where
  "demo_nodes = [demo_node ''db'' [] True, demo_node ''api'' [''db''] False]"

definition demo_graph :: graph where
  "demo_graph = new_graph demo_nodes [''db'', ''api'']"

definition failing :: "event option \<Rightarrow> env" where
  "failing e = \<lparr>provider = (\<lambda>h. if h \<noteq> [] \<and> Some (last h) = e then Some (Sentinel (Foreign 7)) else None),
     ctxErr = (\<lambda>h. None), generation_result = (\<lambda>h. None), interference = (\<lambda>h g. g)\<rparr>"

lemmas demo_simps = demo_graph_def new_graph_def demo_nodes_def demo_node_def failing_def Let_def
  set_acquired_def set_closed_def upt_rec

lemma failing_keeps_nodes: "keeps_nodes (failing e)"
  by (simp add: keeps_nodes_def failing_def)

lemma demo_start_failure:
  "\<exists>g' err. Start (failing (Some (StartCall 1))) True (Some demo_graph) [] =
     (Some g', [] @ [Poll CallerCtx, Poll StartCtx, StartCall 0, ReadyCall 0, Poll StartCtx, StartCall 1,
        Poll CallerCtx, Poll RollbackCtx, CloseCall 1, Poll RollbackCtx, Poll RollbackCtx, CloseCall 0,
        Poll RollbackCtx], Some err)"
  by (simp add: Start_def beginStart_def finishStart_def rollbackStartup_def closeIndexes_def demo_simps
      joinLifecycleContext_def errors_Join_def List.map_filter_simps)

lemma Start_gates_dependents_witness:
  "nil_call (failing (Some (StartCall 1))) []
     [Poll CallerCtx, Poll StartCtx, StartCall 0, ReadyCall 0, Poll StartCtx] (ReadyCall 0)"
proof -
  obtain g' err where s: "Start (failing (Some (StartCall 1))) True (Some demo_graph) [] =
     (Some g', [] @ [Poll CallerCtx, Poll StartCtx, StartCall 0, ReadyCall 0, Poll StartCtx, StartCall 1,
        Poll CallerCtx, Poll RollbackCtx, CloseCall 1, Poll RollbackCtx, Poll RollbackCtx, CloseCall 0,
        Poll RollbackCtx], Some err)"
    using demo_start_failure by blast
  have "node_required (nodes demo_graph ! 0)" by (simp add: demo_simps)
  then show ?thesis
    using Start_gates_dependents [OF failing_keeps_nodes s, where i = 0 and j = 1 and
        p = "[Poll CallerCtx, Poll StartCtx, StartCall 0, ReadyCall 0, Poll StartCtx]"] by simp
qed

lemma Start_success_trace_witness:
  "startSucceeded (the (fst (Start (failing None) True (Some demo_graph) [])))"
proof -
  obtain g' h' where "Start (failing None) True (Some demo_graph) [] = (Some g', h', None)"
    by (simp add: Start_def beginStart_def demo_simps)
  from Start_success_trace [OF failing_keeps_nodes this] this show ?thesis by simp
qed

lemma Start_failure_rolls_back_witness:
  "\<exists>g'. fst (Start (failing (Some (StartCall 1))) True (Some demo_graph) []) = Some g'
     \<and> node_closed (nodes g' ! 0) \<and> \<not> startSucceeded g'"
proof -
  obtain g' err where s: "Start (failing (Some (StartCall 1))) True (Some demo_graph) [] =
     (Some g', [] @ Poll CallerCtx # [Poll StartCtx, StartCall 0, ReadyCall 0, Poll StartCtx, StartCall 1,
        Poll CallerCtx, Poll RollbackCtx, CloseCall 1, Poll RollbackCtx, Poll RollbackCtx, CloseCall 0,
        Poll RollbackCtx], Some err)"
    using demo_start_failure by auto
  have "ctxErr (failing (Some (StartCall 1))) ([] @ [Poll CallerCtx]) = None" by (simp add: failing_def)
  moreover have "beginStart demo_graph = Inr (demo_graph\<lparr>startAttempted := True, startDone := OpenChan\<rparr>)"
    by (simp add: beginStart_def demo_simps)
  moreover have "\<forall>nd \<in> set (nodes demo_graph). \<not> node_closed nd" "0 < length (nodes demo_graph)"
    by (simp_all add: demo_simps)
  ultimately have "node_closed (nodes g' ! 0) \<and> \<not> startSucceeded g'"
    using Start_failure_rolls_back [OF failing_keeps_nodes s] by (simp add: failing_def)
  with s show ?thesis by simp
qed

text \<open>The first \<open>Close\<close> closes the second resource and fails on the first; the retry leaves it alone.\<close>

definition demo_started :: graph where
  "demo_started = demo_graph\<lparr>nodes := map (\<lambda>nd. nd\<lparr>node_acquired := True\<rparr>) demo_nodes,
     startAttempted := True, startSucceeded := True, startDone := ClosedChan\<rparr>"

lemma Close_never_closes_twice_witness:
  "\<exists>g1 h1 r. Close (failing (Some (CloseCall 0))) True (Some demo_started) [] = (Some g1, h1, r)
     \<and> nil_call (failing (Some (CloseCall 0))) [] h1 (CloseCall 1)
     \<and> CloseCall 1 \<notin> set (fst (snd (Close (failing None) True (Some g1) [])))"
proof -
  let ?x = "[Poll CallerCtx, WaitStart, Poll CallerCtx, CloseCall 1, Poll CallerCtx, Poll CallerCtx,
     CloseCall 0, Poll CallerCtx]"
  obtain g1 r where c1: "Close (failing (Some (CloseCall 0))) True (Some demo_started) [] = (Some g1, [] @ ?x, r)"
    by (simp add: Close_def waitForLifecycle_def waitForInspections_def close_attempt_def closeIndexes_def
        openIndexesLocked_def allClosedLocked_def demo_started_def demo_simps)
  obtain g2 ext' r' where c2: "Close (failing None) True (Some g1) [] = (Some g2, [] @ ext', r')"
    using Close_returns_graph by (metis append_Nil)
  have n: "nil_call (failing (Some (CloseCall 0))) [] ?x (CloseCall 1)" by (simp add: failing_def)
  from Close_never_closes_twice [OF failing_keeps_nodes failing_keeps_nodes c1 c2 n] n c1 c2
  show ?thesis by simp
qed

lemma Health_joins_all_failures_witness:
  "is_err (snd (snd (Health (failing (Some (HealthCall 1))) True (Some demo_started) []))) (Foreign 7)"
proof -
  obtain g' h' r where s: "Health (failing (Some (HealthCall 1))) True (Some demo_started) [] = (g', h', r)"
    using prod_cases3 by blast
  have "ctxErr (failing (Some (HealthCall 1))) ([] @ [Poll CallerCtx]) = None" "startSucceeded demo_started"
    "\<not> closeRequested demo_started" "\<not> graph_closed demo_started"
    by (simp_all add: failing_def demo_started_def demo_simps)
  from Health_joins_all_failures [OF s this] obtain ext where
    h: "h' = [] @ [Poll CallerCtx] @ ext"
    and e: "is_err r (Foreign 7) \<longleftrightarrow> saw_error (failing (Some (HealthCall 1))) ([] @ [Poll CallerCtx]) ext (Foreign 7)"
    by auto
  have "h' = [Poll CallerCtx, Poll CallerCtx, HealthCall 0, Poll CallerCtx, HealthCall 1, Poll CallerCtx]"
    using s by (simp add: Health_def inspect_graph_def beginInspection_def demo_started_def demo_simps)
  with h have "ext = [Poll CallerCtx, HealthCall 0, Poll CallerCtx, HealthCall 1, Poll CallerCtx]" by simp
  with e s show ?thesis by (simp add: failing_def)
qed

end
