(* ===== verification/Resource_Run.thy ===== *)
theory Resource_Run
  imports Resource_Properties
begin

text \<open>
  \<open>mss-boot/runtime/resource/run.go\<close>: \<open>Run\<close> starts every runner in a goroutine of its own and collects
  one result from each, in the order in which they are delivered. The environment chooses which of the
  workers that have not delivered yet is next, with the error its \<open>Run\<close> returned and the error of the
  run context at that moment; its choice depends on the history, so that it sees the cancellation that
  \<open>Run\<close> sends to the peers of the first unexpected result.
\<close>

record runResult =
  run_name :: string
  run_err :: "goerr option"
  run_contextErr :: "sentinel option"

datatype run_event = Spawned "string list" | Received runResult | CancelPeers | PollCaller

record run_env =
  deliver :: "run_event list \<Rightarrow> string list \<Rightarrow> nat \<times> goerr option \<times> sentinel option"
  caller_ctxErr :: "run_event list \<Rightarrow> sentinel option"
  run_interference :: "run_event list \<Rightarrow> graph \<Rightarrow> graph"

section \<open>Operations\<close>

definition beginRun :: "graph \<Rightarrow> goerr + graph \<times> string list" where
  "beginRun g =
     (if \<not> startSucceeded g then Inl (resource_sentinel ErrNotStarted)
      else if closeRequested g \<or> graph_closed g then Inl (resource_sentinel ErrClosing)
      else if runAttempted g then Inl (resource_sentinel ErrRunRejected)
      else Inr (g\<lparr>runAttempted := True, runDone := OpenChan\<rparr>,
                map node_name (filter (\<lambda>nd. is_runner (node_resource nd)) (nodes g))))"

definition finishRun :: "graph \<Rightarrow> graph" where
  "finishRun g = g\<lparr>runDone := ClosedChan\<rparr>"

definition remove_nth :: "nat \<Rightarrow> 'a list \<Rightarrow> 'a list" where
  "remove_nth k xs = take k xs @ drop (Suc k) xs"

lemma remove_nth_shorter: "xs \<noteq> [] \<Longrightarrow> length (remove_nth (i mod length xs) xs) < length xs"
proof -
  assume "xs \<noteq> []"
  then have "i mod length xs < length xs" by simp
  then show ?thesis by (simp add: remove_nth_def)
qed

definition cancel_once :: "bool \<Rightarrow> run_event list \<Rightarrow> run_event list" where
  "cancel_once unexpected h = (if unexpected then h else h @ [CancelPeers])"

text \<open>The loop over the result channel; \<open>pending\<close> holds the runners that have not delivered.\<close>

function run_loop :: "run_env \<Rightarrow> string list \<Rightarrow> bool \<Rightarrow> goerr option \<Rightarrow> run_event list
    \<Rightarrow> run_event list \<times> goerr option" where
  "run_loop E pending unexpected result h =
     (if pending = [] then (h, result)
      else
        (let (i, err, contextErr) = deliver E h pending;
             k = i mod length pending;
             current = \<lparr>run_name = pending ! k, run_err = err, run_contextErr = contextErr\<rparr>;
             h1 = h @ [Received current];
             rest = remove_nth k pending in
         case err of
           None \<Rightarrow>
             if contextErr \<noteq> None then run_loop E rest unexpected result h1
             else run_loop E rest True
                    (errors_Join [result, lifecycleError (run_name current) OperationRun
                                            (Some (resource_sentinel ErrRunStopped))])
                    (cancel_once unexpected h1)
         | Some e \<Rightarrow>
             (case (case contextErr of None \<Rightarrow> Some e
                    | Some c \<Rightarrow> if errors_Is e c then nonContextRunCause e contextErr else Some e) of
                None \<Rightarrow> run_loop E rest unexpected result h1
              | Some e' \<Rightarrow>
                  run_loop E rest True
                    (errors_Join [result, lifecycleError (run_name current) OperationRun (Some e')])
                    (cancel_once unexpected h1))))"
  by pat_completeness auto
termination
  by (relation "measure (\<lambda>(E, pending, u, r, h). length pending)") (auto simp: remove_nth_shorter)

declare run_loop.simps [simp del]

definition Run :: "run_env \<Rightarrow> bool \<Rightarrow> graph option \<Rightarrow> run_event list
    \<Rightarrow> graph option \<times> run_event list \<times> goerr option" where
  "Run E ctx graph h =
     (case graph of
        None \<Rightarrow> (None, h, Some (resource_sentinel ErrInvalidGraph))
      | Some g \<Rightarrow>
          if \<not> ctx then (Some g, h, Some (resource_sentinel ErrContextRequired))
          else
            (let h1 = h @ [PollCaller] in
             case caller_ctxErr E h1 of
               Some e \<Rightarrow> (Some g, h1, lifecycleError '''' OperationRun (Some (Sentinel e)))
             | None \<Rightarrow>
                 (case beginRun g of
                    Inl e \<Rightarrow> (Some g, h1, Some e)
                  | Inr (g1, runners) \<Rightarrow>
                      if runners = [] then (Some (finishRun g1), h1, None)
                      else
                        (let (h2, result) = run_loop E runners False None (h1 @ [Spawned runners]);
                             h3 = h2 @ [PollCaller] in
                         (Some (finishRun (run_interference E h3 g1)), h3,
                          case caller_ctxErr E h3 of
                            None \<Rightarrow> result
                          | Some e \<Rightarrow>
                              errors_Join [result, lifecycleError '''' OperationRun (Some (Sentinel e))])))))"

section \<open>What Run reports\<close>

text \<open>A result the collector skips: the runner stopped because the run context ended.\<close>

definition benign :: "runResult \<Rightarrow> bool" where
  "benign x \<longleftrightarrow>
     (case run_contextErr x of None \<Rightarrow> False
      | Some c \<Rightarrow> (case run_err x of None \<Rightarrow> True | Some e \<Rightarrow> contextOnlyErrorTree e c))"

definition blames :: "runResult \<Rightarrow> sentinel \<Rightarrow> bool" where
  "blames x t \<longleftrightarrow>
     (case run_err x of
        None \<Rightarrow> run_contextErr x = None \<and> t = Resource_class ErrRunStopped
      | Some e \<Rightarrow> errors_Is e t \<and> run_contextErr x \<noteq> Some t)"

fun received :: "run_event list \<Rightarrow> runResult list" where
  "received [] = []"
| "received (Received x # es) = x # received es"
| "received (_ # es) = received es"

lemma received_append [simp]: "received (xs @ ys) = received xs @ received ys"
  by (induction xs rule: received.induct) simp_all

lemma mset_remove_nth: "k < length xs \<Longrightarrow> add_mset (xs ! k) (mset (remove_nth k xs)) = mset xs"
proof -
  assume k: "k < length xs"
  have "mset xs = mset (take k xs @ xs ! k # drop (Suc k) xs)" using id_take_nth_drop [OF k] by simp
  then show ?thesis by (simp add: remove_nth_def)
qed

text \<open>What the collector does with one result, the three branches at once.\<close>

lemma run_loop_step:
  assumes "pending \<noteq> []"
  shows "\<exists>x rest. add_mset (run_name x) (mset rest) = mset pending \<and> length rest < length pending
    \<and> (if benign x
       then run_loop E pending u r h = run_loop E rest u r (h @ [Received x])
       else \<exists>e. (\<forall>t. errors_Is e t \<longleftrightarrow> blames x t)
          \<and> run_loop E pending u r h =
              run_loop E rest True (errors_Join [r, lifecycleError (run_name x) OperationRun (Some e)])
                (cancel_once u (h @ [Received x])))"
proof -
  obtain i err ce where d: "deliver E h pending = (i, err, ce)" using prod_cases3 by blast
  let ?k = "i mod length pending"
  let ?x = "\<lparr>run_name = pending ! ?k, run_err = err, run_contextErr = ce\<rparr>" and ?rest = "remove_nth ?k pending"
  have k: "?k < length pending" using assms by simp
  have m: "add_mset (run_name ?x) (mset ?rest) = mset pending" using mset_remove_nth [OF k] by simp
  moreover have "length ?rest < length pending" using k by (simp add: remove_nth_def)
  moreover have "if benign ?x
       then run_loop E pending u r h = run_loop E ?rest u r (h @ [Received ?x])
       else \<exists>e. (\<forall>t. errors_Is e t \<longleftrightarrow> blames ?x t)
          \<and> run_loop E pending u r h =
              run_loop E ?rest True (errors_Join [r, lifecycleError (run_name ?x) OperationRun (Some e)])
                (cancel_once u (h @ [Received ?x]))"
  proof (cases err)
    case None
    show ?thesis
      using assms
      by (cases ce) (auto simp: run_loop.simps [of E pending] d None benign_def blames_def Let_def
          intro!: exI [of _ "resource_sentinel ErrRunStopped"])
  next
    case (Some e)
    show ?thesis
    proof (cases ce)
      case None
      with assms show ?thesis
        by (auto simp: run_loop.simps [of E pending] d Some benign_def blames_def Let_def
            intro!: exI [of _ e])
    next
      case c: (Some c)
      consider "\<not> errors_Is e c" | "contextOnlyErrorTree e c" | "errors_Is e c" "\<not> contextOnlyErrorTree e c"
        by blast
      then show ?thesis
      proof cases
        case 1
        then have "\<not> contextOnlyErrorTree e c" using contextOnly_only by blast
        with 1 assms show ?thesis
          by (auto simp: run_loop.simps [of E pending] d Some c benign_def blames_def Let_def intro!: exI [of _ e])
      next
        case 2
        then have "errors_Is e c" using contextOnly_only by blast
        with 2 assms show ?thesis
          by (simp add: run_loop.simps [of E pending] d Some c benign_def nonContextRunCause_def Let_def)
      next
        case 3
        with assms show ?thesis
          by (auto simp: run_loop.simps [of E pending] d Some c benign_def blames_def nonContextRunCause_def Let_def
              intro!: exI [of _ "FilteredRunCause e c"])
      qed
    qed
  qed
  ultimately show ?thesis by blast
qed

definition cancels :: "run_event list \<Rightarrow> nat" where
  "cancels h = length (filter (\<lambda>e. e = CancelPeers) h)"

lemma cancels_simps [simp]: "cancels [] = 0" "cancels (xs @ ys) = cancels xs + cancels ys"
  "cancels (x # xs) = (if x = CancelPeers then Suc (cancels xs) else cancels xs)"
  by (simp_all add: cancels_def)

lemma run_loop_spec:
  "run_loop E pending u r0 h = (h', r) \<Longrightarrow>
   \<exists>ext. h' = h @ ext
     \<and> mset (map run_name (received ext)) = mset pending
     \<and> (\<forall>t. is_err r t \<longleftrightarrow> is_err r0 t \<or> (\<exists>x \<in> set (received ext). \<not> benign x \<and> blames x t))
     \<and> (r = None \<longleftrightarrow> r0 = None \<and> (\<forall>x \<in> set (received ext). benign x))
     \<and> (redacted r0 \<longrightarrow> redacted r)
     \<and> cancels ext = (if u \<or> (\<forall>x \<in> set (received ext). benign x) then 0 else 1)"
proof (induction "length pending" arbitrary: pending u r0 h rule: less_induct)
  case less
  show ?case
  proof (cases "pending = []")
    case True
    with less.prems show ?thesis by (intro exI [of _ "[]"]) (simp add: run_loop.simps)
  next
    case False
    from run_loop_step [OF this, of E u r0 h] obtain x rest where
      x: "add_mset (run_name x) (mset rest) = mset pending" "length rest < length pending"
      and step: "if benign x
       then run_loop E pending u r0 h = run_loop E rest u r0 (h @ [Received x])
       else \<exists>e. (\<forall>t. errors_Is e t \<longleftrightarrow> blames x t)
          \<and> run_loop E pending u r0 h =
              run_loop E rest True (errors_Join [r0, lifecycleError (run_name x) OperationRun (Some e)])
                (cancel_once u (h @ [Received x]))"
      by blast
    show ?thesis
    proof (cases "benign x")
      case True
      with step less.prems have "run_loop E rest u r0 (h @ [Received x]) = (h', r)" by simp
      from less.hyps [OF x(2) this] obtain ext where ext: "h' = (h @ [Received x]) @ ext"
        "mset (map run_name (received ext)) = mset rest"
        "\<forall>t. is_err r t \<longleftrightarrow> is_err r0 t \<or> (\<exists>x \<in> set (received ext). \<not> benign x \<and> blames x t)"
        "r = None \<longleftrightarrow> r0 = None \<and> (\<forall>x \<in> set (received ext). benign x)"
        "redacted r0 \<longrightarrow> redacted r"
        "cancels ext = (if u \<or> (\<forall>x \<in> set (received ext). benign x) then 0 else 1)" by blast
      with True x(1) show ?thesis by (intro exI [of _ "Received x # ext"]) auto
    next
      case False
      with step obtain e where e: "\<forall>t. errors_Is e t \<longleftrightarrow> blames x t"
        and s: "run_loop E pending u r0 h =
              run_loop E rest True (errors_Join [r0, lifecycleError (run_name x) OperationRun (Some e)])
                (cancel_once u (h @ [Received x]))" by auto
      let ?r = "errors_Join [r0, lifecycleError (run_name x) OperationRun (Some e)]"
      have "run_loop E rest True ?r (cancel_once u (h @ [Received x])) = (h', r)" using s less.prems by simp
      from less.hyps [OF x(2) this] obtain ext where
        ext: "h' = cancel_once u (h @ [Received x]) @ ext"
        "mset (map run_name (received ext)) = mset rest"
        "\<forall>t. is_err r t \<longleftrightarrow> is_err ?r t \<or> (\<exists>x \<in> set (received ext). \<not> benign x \<and> blames x t)"
        "r = None \<longleftrightarrow> ?r = None \<and> (\<forall>x \<in> set (received ext). benign x)"
        "redacted ?r \<longrightarrow> redacted r" "cancels ext = 0"
        by (metis (no_types, lifting))
      have r: "is_err ?r t \<longleftrightarrow> is_err r0 t \<or> blames x t" "?r \<noteq> None" "redacted r0 \<longrightarrow> redacted ?r" for t
        using e by simp_all
      let ?ext = "Received x # (if u then [] else [CancelPeers]) @ ext"
      show ?thesis
      proof (intro exI [of _ ?ext] conjI)
        show "h' = h @ ?ext" using ext(1) by (simp add: cancel_once_def)
        show "mset (map run_name (received ?ext)) = mset pending" using ext(2) x(1) by simp
        show "\<forall>t. is_err r t \<longleftrightarrow> is_err r0 t \<or> (\<exists>x \<in> set (received ?ext). \<not> benign x \<and> blames x t)"
          using ext(3) r(1) False by auto
        show "r = None \<longleftrightarrow> r0 = None \<and> (\<forall>x \<in> set (received ?ext). benign x)"
          using ext(4) r(2) False by simp
        show "redacted r0 \<longrightarrow> redacted r" using ext(5) r(3) by blast
        show "cancels ?ext = (if u \<or> (\<forall>x \<in> set (received ?ext). benign x) then 0 else 1)"
          using ext(6) False by simp
      qed
    qed
  qed
qed

section \<open>Properties\<close>

text \<open>
  \<open>Run\<close> collects exactly one result from every runner. It returns nil exactly when every runner
  stopped because the run context ended and the caller's context is alive; the error it returns
  matches exactly the sentinels some runner is to blame for, never the context error a runner merely
  echoes, and the caller's own context error; it cancels the peers once, and only after a failure.
\<close>

theorem Run_reports_exactly:
  assumes "Run E True (Some g) h = (g', h', r)" and "caller_ctxErr E (h @ [PollCaller]) = None"
    and "beginRun g = Inr (g1, runners)" and "runners \<noteq> []"
  shows "\<exists>rs. mset (map run_name rs) = mset runners
    \<and> (\<exists>ext. h' = h @ ext \<and> received ext = rs
         \<and> cancels ext = (if \<forall>x \<in> set rs. benign x then 0 else 1))
    \<and> (\<forall>t. is_err r t \<longleftrightarrow> (\<exists>x \<in> set rs. \<not> benign x \<and> blames x t) \<or> caller_ctxErr E h' = Some t)
    \<and> (r = None \<longleftrightarrow> (\<forall>x \<in> set rs. benign x) \<and> caller_ctxErr E h' = None)
    \<and> redacted r"
proof -
  let ?h1 = "h @ [PollCaller] @ [Spawned runners]"
  obtain h2 r2 where l: "run_loop E runners False None ?h1 = (h2, r2)" by fastforce
  then obtain ext where ext: "h2 = ?h1 @ ext" "mset (map run_name (received ext)) = mset runners"
    "\<forall>t. is_err r2 t \<longleftrightarrow> (\<exists>x \<in> set (received ext). \<not> benign x \<and> blames x t)"
    "r2 = None \<longleftrightarrow> (\<forall>x \<in> set (received ext). benign x)" "redacted r2"
    "cancels ext = (if \<forall>x \<in> set (received ext). benign x then 0 else 1)"
    using run_loop_spec [OF l] by auto
  have h': "h' = h2 @ [PollCaller]"
    and r: "r = (case caller_ctxErr E h' of None \<Rightarrow> r2
              | Some e \<Rightarrow> errors_Join [r2, lifecycleError '''' OperationRun (Some (Sentinel e))])"
    using assms l by (auto simp: Run_def Let_def)
  have "\<forall>t. is_err r t \<longleftrightarrow> (\<exists>x \<in> set (received ext). \<not> benign x \<and> blames x t) \<or> caller_ctxErr E h' = Some t"
    using ext(3) by (cases "caller_ctxErr E h'") (auto simp: r)
  moreover have "r = None \<longleftrightarrow> (\<forall>x \<in> set (received ext). benign x) \<and> caller_ctxErr E h' = None"
    using ext(4) by (cases "caller_ctxErr E h'") (auto simp: r)
  moreover have "redacted r" using ext(5) by (cases "caller_ctxErr E h'") (auto simp: r)
  moreover have "\<exists>x. h' = h @ x \<and> received x = received ext \<and> cancels x = cancels ext"
    by (intro exI [of _ "PollCaller # Spawned runners # ext @ [PollCaller]"]) (simp add: h' ext(1))
  ultimately show ?thesis using ext(2,6) by (intro exI [of _ "received ext"]) auto
qed

text \<open>One runner fails, its peer is cancelled and echoes the cancellation; only the failure is reported.\<close>

definition failing_runners :: run_env where
  "failing_runners =
     \<lparr>deliver = (\<lambda>h pending. if CancelPeers \<in> set h then (0, Some (Sentinel Canceled), Some Canceled)
                              else (1, Some (Sentinel (Foreign 7)), None)),
      caller_ctxErr = (\<lambda>h. None), run_interference = (\<lambda>h g. g)\<rparr>"

definition running_graph :: graph where
  "running_graph = demo_started\<lparr>nodes := map (\<lambda>nd. nd\<lparr>node_resource := (node_resource nd)\<lparr>is_runner := True\<rparr>\<rparr>)
     (nodes demo_started)\<rparr>"

lemma Run_reports_exactly_witness:
  "is_err (snd (snd (Run failing_runners True (Some running_graph) []))) (Foreign 7)
   \<and> \<not> is_err (snd (snd (Run failing_runners True (Some running_graph) []))) Canceled"
proof -
  obtain g' h' r where s: "Run failing_runners True (Some running_graph) [] = (g', h', r)"
    using prod_cases3 by blast
  have a: "caller_ctxErr failing_runners ([] @ [PollCaller]) = None"
    "beginRun running_graph = Inr (running_graph\<lparr>runAttempted := True, runDone := OpenChan\<rparr>, [''db'', ''api''])"
    by (simp_all add: failing_runners_def beginRun_def running_graph_def demo_started_def demo_simps)
  let ?x = "\<lparr>run_name = ''api'', run_err = Some (Sentinel (Foreign 7)), run_contextErr = None\<rparr>"
  let ?y = "\<lparr>run_name = ''db'', run_err = Some (Sentinel Canceled), run_contextErr = Some Canceled\<rparr>"
  have "h' = [PollCaller, Spawned [''db'', ''api''], Received ?x, CancelPeers, Received ?y, PollCaller]"
    using s a by (simp add: Run_def run_loop.simps failing_runners_def Let_def remove_nth_def cancel_once_def
        nonContextRunCause_def)
  then have "received h' = [?x, ?y]" by simp
  with Run_reports_exactly [OF s a] s show ?thesis
    by (auto simp: failing_runners_def blames_def benign_def)
qed

end
