(* ===== verification/Resource_Concurrency.thy ===== *)
theory Resource_Concurrency
  imports Resource_Run
begin

text \<open>
  The resource graph under concurrent calls. Any number of goroutines call \<open>Start\<close>, \<open>Run\<close>,
  \<open>Health\<close>/\<open>Ready\<close> and \<open>Close\<close>; each is at a program point (\<open>point\<close>), and a step is one critical
  section of the mutex, the beginning or the end of a provider call, or the end of a wait. The critical
  sections are the functions of the sequential model (\<open>beginStart\<close>, \<open>finishStart\<close>, \<open>beginRun\<close>,
  \<open>beginInspection\<close>, \<open>openIndexesLocked\<close>). Provider results and context expiry are nondeterministic.
  The theorems say that a provider's \<open>Close\<close> is never in flight together with any other provider call.
\<close>

section \<open>Program points and steps\<close>

text \<open>
  \<open>WaitingStart s r\<close> holds what \<open>Close\<close> snapshotted in its first critical section: whether the start
  and the run channel existed.
\<close>

datatype point =
  Idle
| Starting "nat list"
| InStart nat "nat list"
| InReady nat "nat list"
| RollingBack "nat list"
| InRollback nat "nat list"
| Committed
| Running
| Inspecting
| WaitingStart bool bool
| WaitingRun bool
| WaitingInspections
| Attempting
| Joining
| Cleaning "nat list"
| InClose nat "nat list"

type_synonym cstate = "graph \<times> (nat \<Rightarrow> point)"

definition acquired_indexes :: "graph \<Rightarrow> nat list" where
  "acquired_indexes g = filter (\<lambda>i. node_acquired (nodes g ! i)) [0..<length (nodes g)]"

inductive step :: "cstate \<Rightarrow> cstate \<Rightarrow> bool" where
  start_begin: "T t = Idle \<Longrightarrow> beginStart g = Inr g' \<Longrightarrow>
    step (g, T) (g', T(t := Starting [0..<length (nodes g)]))"
| start_acquire: "T t = Starting (i # todo) \<Longrightarrow>
    step (g, T) (g\<lparr>nodes := set_acquired i (nodes g)\<rparr>, T(t := InStart i todo))"
| start_expired: "T t = Starting todo \<Longrightarrow>
    step (g, T) (g, T(t := RollingBack (rev (acquired_indexes g))))"
| start_failed: "T t = InStart i todo \<Longrightarrow>
    step (g, T) (g, T(t := RollingBack (rev (acquired_indexes g))))"
| start_returned: "T t = InStart i todo \<Longrightarrow>
    step (g, T) (g, T(t := (if node_required (nodes g ! i) then InReady i todo else Starting todo)))"
| ready_failed: "T t = InReady i todo \<Longrightarrow>
    step (g, T) (g, T(t := RollingBack (rev (acquired_indexes g))))"
| ready_returned: "T t = InReady i todo \<Longrightarrow> step (g, T) (g, T(t := Starting todo))"
| start_commit: "T t = Starting [] \<Longrightarrow> \<not> closeRequested g \<Longrightarrow>
    step (g, T) (g\<lparr>startSucceeded := True\<rparr>, T(t := Committed))"
| start_closing: "T t = Starting [] \<Longrightarrow> closeRequested g \<Longrightarrow>
    step (g, T) (g, T(t := RollingBack (rev (acquired_indexes g))))"
| start_finish: "T t = Committed \<Longrightarrow> step (g, T) (finishStart True g, T(t := Idle))"
| rollback_skip: "T t = RollingBack (i # todo) \<Longrightarrow> node_closed (nodes g ! i) \<Longrightarrow>
    step (g, T) (g, T(t := RollingBack todo))"
| rollback_call: "T t = RollingBack (i # todo) \<Longrightarrow> \<not> node_closed (nodes g ! i) \<Longrightarrow>
    step (g, T) (g, T(t := InRollback i todo))"
| rollback_closed: "T t = InRollback i todo \<Longrightarrow>
    step (g, T) (g\<lparr>nodes := set_closed i (nodes g)\<rparr>, T(t := RollingBack todo))"
| rollback_failed: "T t = InRollback i todo \<Longrightarrow> step (g, T) (g, T(t := RollingBack todo))"
| rollback_done: "T t = RollingBack todo \<Longrightarrow> step (g, T) (finishStart False g, T(t := Idle))"
| run_begin: "T t = Idle \<Longrightarrow> beginRun g = Inr (g', runners) \<Longrightarrow> step (g, T) (g', T(t := Running))"
| run_finish: "T t = Running \<Longrightarrow> step (g, T) (finishRun g, T(t := Idle))"
| inspect_begin: "T t = Idle \<Longrightarrow> beginInspection g = Inr g' \<Longrightarrow> step (g, T) (g', T(t := Inspecting))"
| inspect_finish: "T t = Inspecting \<Longrightarrow> step (g, T) (finishInspection g, T(t := Idle))"
| close_begin: "T t = Idle \<Longrightarrow> \<not> graph_closed g \<Longrightarrow>
    step (g, T) (g\<lparr>closeRequested := True\<rparr>,
                 T(t := WaitingStart (startDone g \<noteq> NilChan) (runDone g \<noteq> NilChan)))"
| close_start_done: "T t = WaitingStart s r \<Longrightarrow> s \<longrightarrow> startDone g = ClosedChan \<Longrightarrow>
    step (g, T) (g, T(t := WaitingRun r))"
| close_run_done: "T t = WaitingRun r \<Longrightarrow> r \<longrightarrow> runDone g = ClosedChan \<Longrightarrow>
    step (g, T) (g, T(t := WaitingInspections))"
| close_inspections_done: "T t = WaitingInspections \<Longrightarrow> inspections g = 0 \<Longrightarrow>
    step (g, T) (g, T(t := Attempting))"
| close_expired: "T t \<in> {WaitingStart s r, WaitingRun r, WaitingInspections} \<Longrightarrow>
    step (g, T) (g, T(t := Idle))"
| close_nothing: "T t = Attempting \<Longrightarrow> allClosedLocked (nodes g) \<Longrightarrow>
    step (g, T) (g\<lparr>graph_closed := True\<rparr>, T(t := Idle))"
| close_join: "T t = Attempting \<Longrightarrow> \<not> allClosedLocked (nodes g) \<Longrightarrow> activeClose g \<Longrightarrow>
    step (g, T) (g, T(t := Joining))"
| close_own: "T t = Attempting \<Longrightarrow> \<not> allClosedLocked (nodes g) \<Longrightarrow> \<not> activeClose g \<Longrightarrow>
    step (g, T) (g\<lparr>activeClose := True\<rparr>, T(t := Cleaning (rev (openIndexesLocked (nodes g)))))"
| clean_skip: "T t = Cleaning (i # todo) \<Longrightarrow> node_closed (nodes g ! i) \<Longrightarrow>
    step (g, T) (g, T(t := Cleaning todo))"
| clean_call: "T t = Cleaning (i # todo) \<Longrightarrow> \<not> node_closed (nodes g ! i) \<Longrightarrow>
    step (g, T) (g, T(t := InClose i todo))"
| clean_closed: "T t = InClose i todo \<Longrightarrow>
    step (g, T) (g\<lparr>nodes := set_closed i (nodes g)\<rparr>, T(t := Cleaning todo))"
| clean_failed: "T t = InClose i todo \<Longrightarrow> step (g, T) (g, T(t := Cleaning todo))"
| clean_done: "T t = Cleaning todo \<Longrightarrow>
    step (g, T) (g\<lparr>graph_closed := graph_closed g \<or> allClosedLocked (nodes g), activeClose := False\<rparr>,
                 T(t := Idle))"
| join_done: "T t = Joining \<Longrightarrow> step (g, T) (g, T(t := Idle))"

inductive_cases step_elim: "step s s'"

definition initial :: "node list \<Rightarrow> string list \<Rightarrow> cstate" where
  "initial ns order = (new_graph ns order, \<lambda>t. Idle)"

definition reachable :: "node list \<Rightarrow> string list \<Rightarrow> cstate \<Rightarrow> bool" where
  "reachable ns order s \<longleftrightarrow> step\<^sup>*\<^sup>* (initial ns order) s"

section \<open>The invariant\<close>

fun owns_start :: "point \<Rightarrow> bool" where
  "owns_start (Starting _) = True"
| "owns_start (InStart _ _) = True"
| "owns_start (InReady _ _) = True"
| "owns_start (RollingBack _) = True"
| "owns_start (InRollback _ _) = True"
| "owns_start Committed = True"
| "owns_start _ = False"

fun owns_close :: "point \<Rightarrow> bool" where
  "owns_close (Cleaning _) = True"
| "owns_close (InClose _ _) = True"
| "owns_close _ = False"

definition start_open :: "graph \<Rightarrow> bool" where
  "start_open g \<longleftrightarrow> startDone g = OpenChan \<and> startAttempted g \<and> \<not> graph_closed g"

definition held :: "graph \<Rightarrow> nat \<Rightarrow> bool" where
  "held g i \<longleftrightarrow> i < length (nodes g) \<and> node_acquired (nodes g ! i)"

definition settled :: "graph \<Rightarrow> bool" where
  "settled g \<longleftrightarrow> closeRequested g \<and> startDone g \<noteq> OpenChan"

definition stopped :: "graph \<Rightarrow> bool" where
  "stopped g \<longleftrightarrow> settled g \<and> runDone g \<noteq> OpenChan"

fun point_ok :: "graph \<Rightarrow> point \<Rightarrow> bool" where
  "point_ok g Idle = True"
| "point_ok g (Starting todo) = (start_open g \<and> \<not> startSucceeded g \<and> (\<forall>i \<in> set todo. i < length (nodes g)))"
| "point_ok g (InStart i todo) =
     (start_open g \<and> \<not> startSucceeded g \<and> held g i \<and> (\<forall>i \<in> set todo. i < length (nodes g)))"
| "point_ok g (InReady i todo) =
     (start_open g \<and> \<not> startSucceeded g \<and> held g i \<and> (\<forall>i \<in> set todo. i < length (nodes g)))"
| "point_ok g (RollingBack todo) = (start_open g \<and> \<not> startSucceeded g \<and> (\<forall>i \<in> set todo. held g i))"
| "point_ok g (InRollback i todo) =
     (start_open g \<and> \<not> startSucceeded g \<and> held g i \<and> \<not> node_closed (nodes g ! i) \<and> (\<forall>i \<in> set todo. held g i))"
| "point_ok g Committed = (start_open g \<and> startSucceeded g)"
| "point_ok g Running = (runDone g = OpenChan \<and> startSucceeded g)"
| "point_ok g Inspecting = startSucceeded g"
| "point_ok g (WaitingStart s r) =
     (closeRequested g \<and> (\<not> s \<longrightarrow> startDone g = NilChan) \<and> (\<not> r \<longrightarrow> runDone g = NilChan))"
| "point_ok g (WaitingRun r) = (settled g \<and> (\<not> r \<longrightarrow> runDone g = NilChan))"
| "point_ok g WaitingInspections = stopped g"
| "point_ok g Attempting = (stopped g \<and> inspections g = 0)"
| "point_ok g Joining = (stopped g \<and> inspections g = 0)"
| "point_ok g (Cleaning todo) =
     (stopped g \<and> inspections g = 0 \<and> activeClose g \<and> (\<forall>i \<in> set todo. held g i))"
| "point_ok g (InClose i todo) =
     (stopped g \<and> inspections g = 0 \<and> activeClose g \<and> held g i \<and> \<not> node_closed (nodes g ! i)
      \<and> (\<forall>i \<in> set todo. held g i))"

definition graph_ok :: "graph \<Rightarrow> bool" where
  "graph_ok g \<longleftrightarrow>
     (startDone g = NilChan \<longleftrightarrow> \<not> startAttempted g)
   \<and> (runDone g = NilChan \<longleftrightarrow> \<not> runAttempted g)
   \<and> (startSucceeded g \<longrightarrow> startAttempted g)
   \<and> (graph_closed g \<longrightarrow> stopped g \<and> inspections g = 0 \<and> allClosedLocked (nodes g))"

definition exclusive :: "(point \<Rightarrow> bool) \<Rightarrow> (nat \<Rightarrow> point) \<Rightarrow> bool" where
  "exclusive P T \<longleftrightarrow> (\<forall>t u. P (T t) \<and> P (T u) \<longrightarrow> t = u)"

definition counted :: "graph \<Rightarrow> (nat \<Rightarrow> point) \<Rightarrow> bool" where
  "counted g T \<longleftrightarrow> finite {t. T t = Inspecting} \<and> inspections g = card {t. T t = Inspecting}"

definition conc_inv :: "cstate \<Rightarrow> bool" where
  "conc_inv s \<longleftrightarrow>
     (case s of (g, T) \<Rightarrow>
        graph_ok g \<and> (\<forall>t. point_ok g (T t)) \<and> counted g T
      \<and> exclusive owns_start T \<and> exclusive owns_close T \<and> exclusive (\<lambda>p. p = Running) T)"

lemmas point_defs = start_open_def settled_def stopped_def held_def

lemma acquired_indexes_held: "i \<in> set (acquired_indexes g) \<Longrightarrow> held g i"
  by (simp add: acquired_indexes_def held_def)

lemma openIndexes_held: "i \<in> set (openIndexesLocked (nodes g)) \<Longrightarrow> held g i"
  by (simp add: openIndexesLocked_def held_def)

lemma held_set_closed [simp]:
  "i < length (nodes g) \<Longrightarrow> held (g\<lparr>nodes := set_closed i (nodes g)\<rparr>) j \<longleftrightarrow> held g j"
  by (auto simp: held_def set_closed_nth)

lemma held_set_acquired:
  "i < length (nodes g) \<Longrightarrow> held (g\<lparr>nodes := set_acquired i (nodes g)\<rparr>) j \<longleftrightarrow> held g j \<or> j = i"
  by (auto simp: held_def set_acquired_nth)

lemma allClosed_set_closed: "allClosedLocked ns \<Longrightarrow> i < length ns \<Longrightarrow> allClosedLocked (set_closed i ns)"
  by (auto simp: allClosedLocked_def list_ex_iff in_set_conv_nth set_closed_nth) (metis nth_mem)

lemma exclusive_upd:
  "exclusive P T \<Longrightarrow> (P p \<Longrightarrow> P (T t) \<or> (\<forall>u. \<not> P (T u))) \<Longrightarrow> exclusive P (T(t := p))"
  by (auto simp: exclusive_def)

lemma exclusiveD: "exclusive P T \<Longrightarrow> P (T t) \<Longrightarrow> P (T u) \<Longrightarrow> u = t"
  by (auto simp: exclusive_def)

lemma counted_other:
  "counted g T \<Longrightarrow> T t \<noteq> Inspecting \<Longrightarrow> p \<noteq> Inspecting \<Longrightarrow> inspections g' = inspections g \<Longrightarrow>
   counted g' (T(t := p))"
proof -
  assume a: "counted g T" "T t \<noteq> Inspecting" "p \<noteq> Inspecting" "inspections g' = inspections g"
  then have "{u. (T(t := p)) u = Inspecting} = {u. T u = Inspecting}" by auto
  with a show ?thesis by (simp add: counted_def)
qed

lemma counted_enter:
  "counted g T \<Longrightarrow> T t \<noteq> Inspecting \<Longrightarrow> inspections g' = Suc (inspections g) \<Longrightarrow> counted g' (T(t := Inspecting))"
proof -
  assume a: "counted g T" "T t \<noteq> Inspecting" "inspections g' = Suc (inspections g)"
  have "{u. (T(t := Inspecting)) u = Inspecting} = insert t {u. T u = Inspecting}" by auto
  with a show ?thesis by (simp add: counted_def)
qed

lemma counted_leave:
  "counted g T \<Longrightarrow> T t = Inspecting \<Longrightarrow> p \<noteq> Inspecting \<Longrightarrow> inspections g' = inspections g - 1 \<Longrightarrow>
   counted g' (T(t := p))"
proof -
  assume a: "counted g T" "T t = Inspecting" "p \<noteq> Inspecting" "inspections g' = inspections g - 1"
  have "{u. (T(t := p)) u = Inspecting} = {u. T u = Inspecting} - {t}" using a(3) by auto
  with a show ?thesis by (simp add: counted_def card_Diff_singleton)
qed

lemma counted_positive: "counted g T \<Longrightarrow> T t = Inspecting \<Longrightarrow> 0 < inspections g"
  by (auto simp: counted_def card_gt_0_iff)

text \<open>Threads other than the one that moves keep their point under each change of the graph.\<close>

lemma point_ok_acquire:
  assumes "point_ok g p" and "i < length (nodes g)" and "\<not> owns_start p" and "start_open g"
  shows "point_ok (g\<lparr>nodes := set_acquired i (nodes g)\<rparr>) p"
  using assms by (cases p) (auto simp: point_defs)

lemma point_ok_closed:
  assumes "point_ok g p" and "i < length (nodes g)" and "\<not> owns_close p" and "\<not> owns_start p \<or> stopped g"
  shows "point_ok (g\<lparr>nodes := set_closed i (nodes g)\<rparr>) p"
  using assms by (cases p) (auto simp: point_defs)

lemma point_ok_begin:
  assumes "point_ok g p" and "graph_ok g" and "beginStart g = Inr g'"
  shows "point_ok g' p"
  using assms by (cases p) (auto simp: point_defs graph_ok_def beginStart_def split: if_splits)

lemma point_ok_finish:
  assumes "point_ok g p" and "\<not> owns_start p" and "start_open g" and "ok \<or> \<not> startSucceeded g"
  shows "point_ok (finishStart ok g) p"
  using assms by (cases p) (auto simp: point_defs finishStart_def)

lemma point_ok_succeeded:
  assumes "point_ok g p" and "\<not> owns_start p"
  shows "point_ok (g\<lparr>startSucceeded := True\<rparr>) p"
  using assms by (cases p) (auto simp: point_defs)

lemma point_ok_run:
  assumes "point_ok g p" and "graph_ok g" and "beginRun g = Inr (g', rs)"
  shows "point_ok g' p"
  using assms by (cases p) (auto simp: point_defs graph_ok_def beginRun_def split: if_splits)

lemma point_ok_run_finish:
  assumes "point_ok g p" and "p \<noteq> Running" and "runDone g = OpenChan"
  shows "point_ok (finishRun g) p"
  using assms by (cases p) (auto simp: point_defs finishRun_def)

lemma point_ok_inspect:
  assumes "point_ok g p" and "beginInspection g = Inr g'"
  shows "point_ok g' p"
  using assms by (cases p) (auto simp: point_defs beginInspection_def split: if_splits)

lemma point_ok_inspect_finish:
  assumes "point_ok g p" and "0 < inspections g"
  shows "point_ok (finishInspection g) p"
  using assms by (cases p) (auto simp: point_defs finishInspection_def)

lemma point_ok_request:
  assumes "point_ok g p"
  shows "point_ok (g\<lparr>closeRequested := True\<rparr>) p"
  using assms by (cases p) (auto simp: point_defs)

lemma point_ok_graph_closed:
  assumes "point_ok g p" and "stopped g"
  shows "point_ok (g\<lparr>graph_closed := c\<rparr>) p"
  using assms by (cases p) (auto simp: point_defs)

lemma point_ok_active:
  assumes "point_ok g p" and "\<not> owns_close p \<or> c"
  shows "point_ok (g\<lparr>activeClose := c\<rparr>) p"
  using assms by (cases p) (auto simp: point_defs)


lemma graph_ok_step:
  assumes "step (g, T) (g', T')" and "graph_ok g" and "\<And>t. point_ok g (T t)" and "counted g T"
  shows "graph_ok g'"
  using assms(1)
proof (cases rule: step.cases)
  case (start_acquire t i todo)
  then show ?thesis
    using assms(2) assms(3) [of t] by (auto simp: graph_ok_def point_defs)
next
  case (rollback_closed t i todo)
  then show ?thesis
    using assms(2) assms(3) [of t] by (auto simp: graph_ok_def point_defs)
next
  case (clean_closed t i todo)
  then show ?thesis
    using assms(2) assms(3) [of t] by (auto simp: graph_ok_def point_defs intro: allClosed_set_closed)
next
  case (start_finish t)
  then show ?thesis
    using assms(2) assms(3) [of t] by (auto simp: graph_ok_def point_defs finishStart_def)
next
  case (rollback_done t todo)
  then show ?thesis
    using assms(2) assms(3) [of t] by (auto simp: graph_ok_def point_defs finishStart_def)
next
  case (start_begin t)
  then show ?thesis
    using assms(2) by (auto simp: graph_ok_def point_defs beginStart_def split: if_splits)
next
  case (run_begin t runners)
  then show ?thesis
    using assms(2) by (auto simp: graph_ok_def point_defs beginRun_def split: if_splits)
next
  case (run_finish t)
  then show ?thesis
    using assms(2) assms(3) [of t] by (auto simp: graph_ok_def point_defs finishRun_def)
next
  case (inspect_begin t)
  then show ?thesis
    using assms(2) by (auto simp: graph_ok_def point_defs beginInspection_def split: if_splits)
next
  case (inspect_finish t)
  then show ?thesis
    using assms(2) by (auto simp: graph_ok_def point_defs finishInspection_def)
next
  case (start_commit t)
  then show ?thesis
    using assms(2) assms(3) [of t] by (auto simp: graph_ok_def point_defs)
next
  case (close_begin t)
  then show ?thesis
    using assms(2) by (auto simp: graph_ok_def point_defs)
next
  case (close_nothing t)
  then show ?thesis
    using assms(2) assms(3) [of t] by (auto simp: graph_ok_def point_defs)
next
  case (close_own t)
  then show ?thesis
    using assms(2) by (auto simp: graph_ok_def point_defs)
next
  case (clean_done t todo)
  then show ?thesis
    using assms(2) assms(3) [of t] by (auto simp: graph_ok_def point_defs)
qed (use assms(2) in auto)

lemma counted_step:
  assumes "step (g, T) (g', T')" and "counted g T"
  shows "counted g' T'"
  using assms(1)
proof (cases rule: step.cases)
  case (inspect_begin t)
  then show ?thesis
    using assms(2) by (auto simp: beginInspection_def intro!: counted_enter split: if_splits)
next
  case (inspect_finish t)
  then show ?thesis
    using assms(2) by (auto simp: finishInspection_def intro!: counted_leave)
next
  case (start_begin t)
  then show ?thesis
    using assms(2) by (auto simp: beginStart_def intro!: counted_other split: if_splits)
next
  case (run_begin t)
  then show ?thesis
    using assms(2) by (auto simp: beginRun_def intro!: counted_other split: if_splits)
qed (use assms(2) in \<open>auto simp: finishStart_def finishRun_def intro!: counted_other\<close>)

lemma no_starter: "\<And>t. point_ok g (T t) \<Longrightarrow> graph_ok g \<Longrightarrow> startDone g \<noteq> OpenChan \<Longrightarrow> \<not> owns_start (T t)"
  for T :: "nat \<Rightarrow> point"
proof -
  fix t
  assume "point_ok g (T t)" "startDone g \<noteq> OpenChan"
  then show "\<not> owns_start (T t)" by (cases "T t") (auto simp: point_defs)
qed

lemma exclusive_step:
  assumes "step (g, T) (g', T')" and "graph_ok g" and ok: "\<And>t. point_ok g (T t)"
    and "exclusive owns_start T" and "exclusive owns_close T" and "exclusive (\<lambda>p. p = Running) T"
  shows "exclusive owns_start T'" and "exclusive owns_close T'" and "exclusive (\<lambda>p. p = Running) T'"
proof -
  have s: "\<not> owns_start (T u)" if "startDone g \<noteq> OpenChan" for u
    using no_starter ok assms(2) that by blast
  have c: "\<not> owns_close (T u)" if "\<not> activeClose g" for u
    using ok [of u] that by (cases "T u") auto
  have r: "T u \<noteq> Running" if "runDone g \<noteq> OpenChan" for u
    using ok [of u] that by (cases "T u") auto
  show "exclusive owns_start T'"
    using assms(1)
  proof (cases rule: step.cases)
    case (start_begin t)
    then have "startDone g \<noteq> OpenChan"
      using assms(2) by (auto simp: beginStart_def graph_ok_def split: if_splits)
    with start_begin s assms(4) show ?thesis by (auto intro!: exclusive_upd)
  qed (use assms(4) in \<open>auto intro!: exclusive_upd\<close>)
  show "exclusive owns_close T'"
    using assms(1)
  proof (cases rule: step.cases)
    case (close_own t)
    with c assms(5) show ?thesis by (auto intro!: exclusive_upd)
  qed (use assms(5) in \<open>auto intro!: exclusive_upd\<close>)
  show "exclusive (\<lambda>p. p = Running) T'"
    using assms(1)
  proof (cases rule: step.cases)
    case (run_begin t)
    then have "runDone g \<noteq> OpenChan"
      using assms(2) by (auto simp: beginRun_def graph_ok_def split: if_splits)
    with run_begin r assms(6) show ?thesis by (auto intro!: exclusive_upd)
  qed (use assms(6) in \<open>auto intro!: exclusive_upd\<close>)
qed

lemma point_ok_step:
  assumes "step (g, T) (g', T')" and g: "graph_ok g" and ok: "\<And>t. point_ok g (T t)" and n: "counted g T"
    and x: "exclusive owns_start T" "exclusive owns_close T" "exclusive (\<lambda>p. p = Running) T"
  shows "point_ok g' (T' u)"
  using assms(1)
proof (cases rule: step.cases)
  case (start_begin t)
  then show ?thesis
    using point_ok_begin [OF ok [of u] g] g
    by (auto simp: point_defs graph_ok_def beginStart_def split: if_splits)
next
  case (start_acquire t i todo)
  with ok [of t] have "i < length (nodes g)" "start_open g" by auto
  with start_acquire exclusiveD [OF x(1), of t u] point_ok_acquire [OF ok [of u]] ok [of t] show ?thesis
    by (cases "u = t") (auto simp: point_defs set_acquired_nth)
next
  case (rollback_closed t i todo)
  with ok [of t] have i: "i < length (nodes g)" "start_open g" by (auto simp: held_def)
  then have "\<not> owns_close (T u)" using ok [of u] by (cases "T u") (auto simp: point_defs)
  with i rollback_closed exclusiveD [OF x(1), of t u] point_ok_closed [OF ok [of u]] ok [of t] show ?thesis
    by (cases "u = t") (auto simp: start_open_def)
next
  case (clean_closed t i todo)
  with ok [of t] have i: "i < length (nodes g)" "stopped g" by (auto simp: held_def)
  with clean_closed exclusiveD [OF x(2), of t u] point_ok_closed [OF ok [of u]] ok [of t] show ?thesis
    by (cases "u = t") (auto simp: stopped_def settled_def)
next
  case (start_finish t)
  with ok [of t] exclusiveD [OF x(1), of t u] point_ok_finish [OF ok [of u]] show ?thesis
    by (cases "u = t") auto
next
  case (rollback_done t todo)
  with ok [of t] exclusiveD [OF x(1), of t u] point_ok_finish [OF ok [of u]] show ?thesis
    by (cases "u = t") auto
next
  case (start_commit t)
  with ok [of t] exclusiveD [OF x(1), of t u] point_ok_succeeded [OF ok [of u]] show ?thesis
    by (cases "u = t") (auto simp: start_open_def)
next
  case (run_begin t runners)
  then show ?thesis
    using point_ok_run [OF ok [of u] g] by (auto simp: beginRun_def split: if_splits)
next
  case (run_finish t)
  with ok [of t] exclusiveD [OF x(3), of t u] point_ok_run_finish [OF ok [of u]] show ?thesis
    by (cases "u = t") auto
next
  case (inspect_begin t)
  then show ?thesis
    using point_ok_inspect [OF ok [of u]] by (auto simp: beginInspection_def split: if_splits)
next
  case (inspect_finish t)
  then show ?thesis
    using point_ok_inspect_finish [OF ok [of u]] counted_positive [OF n] by auto
next
  case (close_begin t)
  then show ?thesis using point_ok_request [OF ok [of u]] by auto
next
  case (close_nothing t)
  with ok [of t] have "stopped g" by simp
  with close_nothing point_ok_graph_closed [OF ok [of u]] show ?thesis by auto
next
  case (close_own t)
  with ok [of t] point_ok_active [OF ok [of u], of True] show ?thesis
    by (auto simp: point_defs openIndexesLocked_def)
next
  case (clean_done t todo)
  with ok [of t] have "stopped g" by simp
  from clean_done exclusiveD [OF x(2), of t u] show ?thesis
    using point_ok_active [OF point_ok_graph_closed [OF ok [of u] \<open>stopped g\<close>], of False]
    by (cases "u = t") auto
next
  case (start_expired t todo)
  with ok [of u] ok [of t] show ?thesis by (auto dest: acquired_indexes_held)
next
  case (start_failed t i todo)
  with ok [of u] ok [of t] show ?thesis by (auto dest: acquired_indexes_held)
next
  case (ready_failed t i todo)
  with ok [of u] ok [of t] show ?thesis by (auto dest: acquired_indexes_held)
next
  case (start_closing t)
  with ok [of u] ok [of t] show ?thesis by (auto dest: acquired_indexes_held)
next
  case (start_returned t i todo)
  with ok [of u] ok [of t] show ?thesis by auto
next
  case (close_start_done t s r)
  with ok [of u] ok [of t] show ?thesis by (auto simp: point_defs)
next
  case (close_run_done t r)
  with ok [of u] ok [of t] show ?thesis by (auto simp: point_defs)
next
  case (ready_returned t i todo)
  with ok [of u] ok [of t] show ?thesis by auto
next
  case (rollback_skip t i todo)
  with ok [of u] ok [of t] show ?thesis by auto
next
  case (rollback_call t i todo)
  with ok [of u] ok [of t] show ?thesis by auto
next
  case (rollback_failed t i todo)
  with ok [of u] ok [of t] show ?thesis by auto
next
  case (close_inspections_done t)
  with ok [of u] ok [of t] show ?thesis by auto
next
  case (clean_skip t i todo)
  with ok [of u] ok [of t] show ?thesis by auto
next
  case (clean_call t i todo)
  with ok [of u] ok [of t] show ?thesis by auto
next
  case (clean_failed t i todo)
  with ok [of u] ok [of t] show ?thesis by auto
next
  case (close_join t)
  with ok [of u] ok [of t] show ?thesis by auto
qed (use ok [of u] in auto)

lemma conc_inv_step: "step s s' \<Longrightarrow> conc_inv s \<Longrightarrow> conc_inv s'"
proof -
  assume st: "step s s'" and inv: "conc_inv s"
  obtain g T g' T' where s: "s = (g, T)" "s' = (g', T')" by (metis prod.exhaust)
  with inv have i: "graph_ok g" "\<And>t. point_ok g (T t)" "counted g T" "exclusive owns_start T"
    "exclusive owns_close T" "exclusive (\<lambda>p. p = Running) T"
    by (auto simp: conc_inv_def)
  note st' = st [unfolded s]
  show "conc_inv s'"
    using graph_ok_step [OF st' i(1,2,3)] point_ok_step [OF st' i] counted_step [OF st' i(3)]
      exclusive_step [OF st' i(1,2,4,5,6)]
    by (simp add: conc_inv_def s(2))
qed

lemma conc_inv_initial: "conc_inv (initial ns order)"
  by (simp add: conc_inv_def initial_def new_graph_def graph_ok_def counted_def exclusive_def)

lemma conc_inv_reachable: "reachable ns order s \<Longrightarrow> conc_inv s"
  unfolding reachable_def
  by (induction rule: rtranclp_induct) (auto intro: conc_inv_initial conc_inv_step)

section \<open>Properties\<close>

text \<open>A provider method is running.\<close>

fun in_provider :: "point \<Rightarrow> bool" where
  "in_provider (InStart _ _) = True"
| "in_provider (InReady _ _) = True"
| "in_provider (InRollback _ _) = True"
| "in_provider (InClose _ _) = True"
| "in_provider Running = True"
| "in_provider Inspecting = True"
| "in_provider _ = False"

fun closing_provider :: "point \<Rightarrow> nat option" where
  "closing_provider (InRollback i _) = Some i"
| "closing_provider (InClose i _) = Some i"
| "closing_provider _ = None"

text \<open>
  C6. Cleanup is exclusive: in every reachable state, while one goroutine is inside a provider's
  \<open>Close\<close>, in \<open>Close\<close> or in the rollback of a failed \<open>Start\<close>, no other goroutine is inside any
  provider method; and the provider being closed is one the graph started and has not yet closed.
\<close>

theorem provider_Close_is_exclusive:
  assumes "reachable ns order (g, T)" and "closing_provider (T t) = Some i"
  shows "(\<forall>u. in_provider (T u) \<longrightarrow> u = t)
    \<and> i < length (nodes g) \<and> node_acquired (nodes g ! i) \<and> \<not> node_closed (nodes g ! i)"
proof -
  have inv: "conc_inv (g, T)" using assms(1) by (rule conc_inv_reachable)
  then have ok: "\<And>t. point_ok g (T t)" and n: "counted g T"
    and x: "exclusive owns_start T" "exclusive owns_close T"
    by (auto simp: conc_inv_def)
  have z: "T u \<noteq> Inspecting" if "inspections g = 0" for u
    using counted_positive [OF n, of u] that by auto
  consider (roll) todo where "T t = InRollback i todo" | (clean) todo where "T t = InClose i todo"
    using assms(2) by (cases "T t") auto
  then show ?thesis
  proof cases
    case roll
    with ok [of t] have p: "start_open g" "\<not> startSucceeded g" "held g i" "\<not> node_closed (nodes g ! i)" by auto
    have "u = t" if "in_provider (T u)" for u
      using that exclusiveD [OF x(1), of t u] ok [of u] p roll
      by (cases "T u") (auto simp: point_defs)
    with p show ?thesis by (auto simp: held_def)
  next
    case clean
    with ok [of t] have p: "stopped g" "inspections g = 0" "held g i" "\<not> node_closed (nodes g ! i)" by auto
    have "u = t" if "in_provider (T u)" for u
      using that exclusiveD [OF x(2), of t u] ok [of u] p clean z [of u]
      by (cases "T u") (auto simp: point_defs)
    with p show ?thesis by (auto simp: held_def)
  qed
qed

text \<open>
  A closed graph is quiescent: once the graph is marked closed, every resource it acquired is
  closed and no goroutine is inside a provider method or will be again.
\<close>

theorem closed_graph_is_quiescent:
  assumes "reachable ns order (g, T)" and "graph_closed g"
  shows "(\<forall>i < length (nodes g). node_acquired (nodes g ! i) \<longrightarrow> node_closed (nodes g ! i))
    \<and> (\<forall>g' T' u. step\<^sup>*\<^sup>* (g, T) (g', T') \<longrightarrow> \<not> in_provider (T' u))"
proof -
  have quiet: "\<not> in_provider (T' u) \<and> allClosedLocked (nodes g')" if "conc_inv (g', T')" "graph_closed g'" for g' T' u
  proof -
    from that have ok: "point_ok g' (T' u)" and n: "counted g' T'"
      and q: "stopped g'" "inspections g' = 0" "allClosedLocked (nodes g')"
      by (auto simp: conc_inv_def graph_ok_def)
    have "\<not> held g' i" if "\<not> node_closed (nodes g' ! i)" for i
      using q(3) that by (auto simp: allClosedLocked_def list_ex_iff held_def)
    moreover have "T' u \<noteq> Inspecting" using counted_positive [OF n, of u] q(2) by auto
    ultimately show ?thesis using ok q by (cases "T' u") (auto simp: point_defs)
  qed
  have stays: "graph_closed (fst s')" if "step s s'" "graph_closed (fst s)" for s s'
    using that by (elim step_elim)
      (auto simp: beginStart_def finishStart_def beginRun_def finishRun_def beginInspection_def
        finishInspection_def split: if_splits)
  have "conc_inv s \<and> graph_closed (fst s)" if "step\<^sup>*\<^sup>* (g, T) s" for s
    using that
  proof (induction rule: rtranclp_induct)
    case base
    then show ?case using conc_inv_reachable [OF assms(1)] assms(2) by simp
  next
    case (step y z)
    then show ?case using conc_inv_step stays by blast
  qed
  then have "conc_inv (g', T') \<and> graph_closed g'" if "step\<^sup>*\<^sup>* (g, T) (g', T')" for g' T'
    using that by fastforce
  moreover have "allClosedLocked (nodes g)"
    using quiet [OF conc_inv_reachable [OF assms(1)] assms(2)] by blast
  ultimately have "\<forall>g' T' u. step\<^sup>*\<^sup>* (g, T) (g', T') \<longrightarrow> \<not> in_provider (T' u)"
    and "\<forall>nd \<in> set (nodes g). node_acquired nd \<longrightarrow> node_closed nd"
    using quiet by (blast, simp add: allClosedLocked_def list_ex_iff)
  then show ?thesis by simp
qed

section \<open>Concrete runs\<close>

text \<open>One resource is started, and goroutine 1 closes it while goroutine 0 has finished.\<close>

lemma reachable_step: "reachable ns order s \<Longrightarrow> step s s' \<Longrightarrow> reachable ns order s'"
  by (simp add: reachable_def rtranclp.rtrancl_into_rtrancl)

definition one_node :: "node list" where
  "one_node = [demo_node ''db'' [] False]"

definition started_node :: graph where
  "started_node = (new_graph one_node [''db''])\<lparr>nodes := set_acquired 0 one_node, startAttempted := True,
     startSucceeded := True, startDone := ClosedChan\<rparr>"

lemmas one_node_simps = one_node_def demo_node_def new_graph_def started_node_def set_acquired_def
  finishStart_def beginStart_def allClosedLocked_def openIndexesLocked_def

lemma started_reachable: "\<exists>T. reachable one_node [''db''] (started_node, T) \<and> (\<forall>t. T t = Idle)"
proof -
  let ?g0 = "new_graph one_node [''db'']" and ?T0 = "\<lambda>t :: nat. Idle"
  let ?g1 = "?g0\<lparr>startAttempted := True, startDone := OpenChan\<rparr>"
  let ?T1 = "?T0(0 := Starting [0])"
  let ?g2 = "?g1\<lparr>nodes := set_acquired 0 one_node\<rparr>" and ?T2 = "?T1(0 := InStart 0 [])"
  let ?T3 = "?T2(0 := Starting [])" and ?T4 = "?T2(0 := Starting [], 0 := Committed)"
  let ?g4 = "?g2\<lparr>startSucceeded := True\<rparr>"
  have s1: "reachable one_node [''db''] (?g0, ?T0)" by (simp add: reachable_def initial_def)
  have s2: "step (?g0, ?T0) (?g1, ?T1)"
    using step.start_begin [of ?T0 0 ?g0 ?g1] by (simp add: one_node_simps)
  have s3: "step (?g1, ?T1) (?g2, ?T2)"
    using step.start_acquire [of ?T1 0 0 "[]" ?g1] by (simp add: new_graph_def)
  have s4: "step (?g2, ?T2) (?g2, ?T3)"
    using step.start_returned [of ?T2 0 0 "[]" ?g2] by (simp add: one_node_simps)
  have s5: "step (?g2, ?T3) (?g4, ?T4)"
    using step.start_commit [of ?T3 0 ?g2] by (simp add: new_graph_def)
  have s6: "step (?g4, ?T4) (started_node, ?T4(0 := Idle))"
    using step.start_finish [of ?T4 0 ?g4] by (simp add: one_node_simps)
  have "reachable one_node [''db''] (started_node, ?T4(0 := Idle))"
    by (rule reachable_step [OF reachable_step [OF reachable_step [OF reachable_step [OF reachable_step [OF s1 s2] s3] s4] s5] s6])
  then show ?thesis by (intro exI [of _ "?T4(0 := Idle)"]) simp
qed

lemma closing_reachable:
  "\<exists>T. reachable one_node [''db''] (started_node\<lparr>closeRequested := True, activeClose := True\<rparr>, T)
     \<and> T 1 = InClose 0 []"
proof -
  obtain T where T: "reachable one_node [''db''] (started_node, T)" "\<forall>t. T t = Idle"
    using started_reachable by blast
  let ?g1 = "started_node\<lparr>closeRequested := True\<rparr>" and ?g2 = "started_node\<lparr>closeRequested := True, activeClose := True\<rparr>"
  let ?T1 = "T(1 := WaitingStart True False)"
  let ?T2 = "?T1(1 := WaitingRun False)" let ?T3 = "?T2(1 := WaitingInspections)"
  let ?T4 = "?T3(1 := Attempting)" let ?T5 = "?T4(1 := Cleaning [0])" let ?T6 = "?T5(1 := InClose 0 [])"
  have s1: "step (started_node, T) (?g1, ?T1)"
    using step.close_begin [of T 1 started_node] T(2) by (simp add: one_node_simps)
  have s2: "step (?g1, ?T1) (?g1, ?T2)"
    using step.close_start_done [of ?T1 1 True False ?g1] by (simp add: one_node_simps)
  have s3: "step (?g1, ?T2) (?g1, ?T3)"
    using step.close_run_done [of ?T2 1 False ?g1] by (simp add: one_node_simps)
  have s4: "step (?g1, ?T3) (?g1, ?T4)"
    using step.close_inspections_done [of ?T3 1 ?g1] by (simp add: one_node_simps)
  have s5: "step (?g1, ?T4) (?g2, ?T5)"
    using step.close_own [of ?T4 1 ?g1] by (simp add: one_node_simps)
  have s6: "step (?g2, ?T5) (?g2, ?T6)"
    using step.clean_call [of ?T5 1 0 "[]" ?g2] by (simp add: one_node_simps)
  have "reachable one_node [''db''] (?g2, ?T6)"
    by (rule reachable_step [OF reachable_step [OF reachable_step [OF reachable_step [OF reachable_step
          [OF reachable_step [OF T(1) s1] s2] s3] s4] s5] s6])
  then show ?thesis by (intro exI [of _ ?T6]) simp
qed

lemma provider_Close_is_exclusive_witness:
  "\<exists>g T. reachable one_node [''db''] (g, T) \<and> T 1 = InClose 0 [] \<and> \<not> in_provider (T 0)"
proof -
  obtain T where T: "reachable one_node [''db''] (started_node\<lparr>closeRequested := True, activeClose := True\<rparr>, T)"
    "T 1 = InClose 0 []" using closing_reachable by blast
  then have "closing_provider (T 1) = Some 0" by simp
  with T provider_Close_is_exclusive [OF T(1), of 1 0] show ?thesis by (metis zero_neq_one)
qed

lemma closed_graph_is_quiescent_witness:
  "\<exists>g T. reachable one_node [''db''] (g, T) \<and> graph_closed g \<and> node_closed (nodes g ! 0)"
proof -
  let ?g = "started_node\<lparr>closeRequested := True, activeClose := True\<rparr>"
  let ?g1 = "?g\<lparr>nodes := set_closed 0 (nodes ?g)\<rparr>"
  let ?g2 = "?g1\<lparr>graph_closed := graph_closed ?g1 \<or> allClosedLocked (nodes ?g1), activeClose := False\<rparr>"
  obtain T where T: "reachable one_node [''db''] (?g, T)" "T 1 = InClose 0 []"
    using closing_reachable by blast
  have s1: "step (?g, T) (?g1, T(1 := Cleaning []))" using T(2) by (rule step.clean_closed)
  have s2: "step (?g1, T(1 := Cleaning [])) (?g2, (T(1 := Cleaning []))(1 := Idle))"
    by (rule step.clean_done) simp
  have r: "reachable one_node [''db''] (?g2, (T(1 := Cleaning []))(1 := Idle))"
    by (rule reachable_step [OF reachable_step [OF T(1) s1] s2])
  have "graph_closed ?g2" "0 < length (nodes ?g2)" "node_acquired (nodes ?g2 ! 0)"
    by (simp_all add: one_node_simps set_closed_def)
  with r closed_graph_is_quiescent [OF r] show ?thesis by blast
qed

end
