(* ===== verification/Bus_Errors.thy ===== *)
theory Bus_Errors
  imports Go_Errors
begin

text \<open>
  \<open>mss-boot/runtime/eventbus/errors.go\<close> and \<open>mss-boot/runtime/redisresource/errors.go\<close>: both packages
  project an arbitrary cause onto a fixed list of sentinels (\<open>safeClassifications\<close>) and wrap it with a
  class of their own. Both implement the contract \<open>classification\<close>; the facts of the two
  interpretations (\<open>bus.safe_is_err\<close>, \<open>redis.safe_is_err\<close>, ...) are what the bus and the Redis
  resource use. \<open>OperationError\<close> of the bus and \<open>LifecycleError\<close> of the Redis resource have the same
  shape, an operation and a safe classification, and are both \<open>OperationError\<close> here.
\<close>

abbreviation "bus_sentinel c \<equiv> Sentinel (Bus_class c)"
abbreviation "redis_sentinel c \<equiv> Sentinel (Redis_class c)"

section \<open>The event bus\<close>

definition bus_controlled :: "sentinel list" where
  "bus_controlled =
     map Bus_class
       [Bus_ErrInvalidBus, Bus_ErrInvalidOptions, Bus_ErrInvalidEvent, Bus_ErrInvalidReconciler,
        Bus_ErrContextRequired, Bus_ErrStartRejected, Bus_ErrRunRejected, Bus_ErrNotStarted,
        Bus_ErrClosing, Bus_ErrDegraded, Bus_ErrProviderFailed, Bus_ErrPublishFailed, Bus_ErrPollFailed,
        Bus_ErrEncodeFailed, Bus_ErrDecodeFailed, Bus_ErrSubscriberFailed, Bus_ErrSubscriberPanicked,
        Bus_ErrReconcileFailed, Bus_ErrReconcilerPanicked]
     @ [Canceled, DeadlineExceeded]"

text \<open>The loop over the controlled sentinels.\<close>

fun classify_loop :: "goerr \<Rightarrow> sentinel list \<Rightarrow> goerr option list \<Rightarrow> goerr option list" where
  "classify_loop cause [] result = result"
| "classify_loop cause (c # cs) result =
     (if errors_Is cause c then classify_loop cause cs (result @ [Some (Sentinel c)])
      else classify_loop cause cs result)"

definition bus_safeClassifications :: "goerr option \<Rightarrow> goerr option" where
  "bus_safeClassifications cause =
     (case cause of None \<Rightarrow> None | Some c \<Rightarrow> errors_Join (classify_loop c bus_controlled []))"

definition operationError :: "operation \<Rightarrow> goerr \<Rightarrow> goerr option \<Rightarrow> goerr" where
  "operationError op class cause =
     OperationError op (errors_Join [Some class, bus_safeClassifications cause])"

definition bus_invalid :: "string \<Rightarrow> string \<Rightarrow> bus_class \<Rightarrow> goerr" where
  "bus_invalid path reason class = ValidationError path reason (Bus_class class)"

section \<open>The Redis resource\<close>

definition redis_controlled :: "sentinel list" where
  "redis_controlled =
     map Redis_class
       [Redis_ErrInvalidProfile, Redis_ErrContextRequired, Redis_ErrClientConstruction,
        Redis_ErrUnavailable, Redis_ErrStartRejected, Redis_ErrNotStarted, Redis_ErrClosing,
        Redis_ErrCloseFailed, Redis_ErrUseRejected, Redis_ErrDetachedCommand, Redis_ErrCommandFailed,
        Redis_ErrInvalidCommand, Redis_ErrNotFound, Redis_ErrLeaseExpired, Redis_ErrUnsafeKey]
     @ [Canceled, DeadlineExceeded]"

definition redis_safeClassifications :: "goerr option \<Rightarrow> goerr option" where
  "redis_safeClassifications cause =
     (case cause of None \<Rightarrow> None | Some c \<Rightarrow> errors_Join (classify_loop c redis_controlled []))"

definition redis_lifecycleError :: "operation \<Rightarrow> goerr \<Rightarrow> goerr option \<Rightarrow> goerr" where
  "redis_lifecycleError op class cause =
     OperationError op (errors_Join [Some class, redis_safeClassifications cause])"

definition redis_invalid :: "string \<Rightarrow> string \<Rightarrow> goerr" where
  "redis_invalid path reason = ValidationError path reason (Redis_class Redis_ErrInvalidProfile)"

definition unsafeKey :: "string \<Rightarrow> goerr" where
  "unsafeKey reason = ValidationError ''logicalKey'' reason (Redis_class Redis_ErrUnsafeKey)"

definition invalidCommand :: "string \<Rightarrow> string \<Rightarrow> goerr" where
  "invalidCommand path reason = ValidationError path reason (Redis_class Redis_ErrInvalidCommand)"

section \<open>Both implement the contract\<close>

lemma classify_loop_eq:
  "classify_loop c cs result = result @ map (\<lambda>s. Some (Sentinel s)) (filter (errors_Is c) cs)"
  by (induction c cs result rule: classify_loop.induct) simp_all

interpretation bus: classification bus_controlled bus_safeClassifications
  by unfold_locales
    (auto simp: bus_safeClassifications_def project_classifications_def classify_loop_eq bus_controlled_def
      split: option.split)

interpretation redis: classification redis_controlled redis_safeClassifications
  by unfold_locales
    (auto simp: redis_safeClassifications_def project_classifications_def classify_loop_eq redis_controlled_def
      split: option.split)

lemma bus_class_controlled [simp]: "Bus_class c \<in> set bus_controlled"
  by (cases c) (simp_all add: bus_controlled_def)

lemma context_controlled [simp]: "Canceled \<in> set bus_controlled" "DeadlineExceeded \<in> set bus_controlled"
  "Canceled \<in> set redis_controlled" "DeadlineExceeded \<in> set redis_controlled"
  by (simp_all add: bus_controlled_def redis_controlled_def)

lemma redis_class_controlled [simp]: "Redis_class c \<in> set redis_controlled"
  by (cases c) (simp_all add: redis_controlled_def)

lemma operationError_safe:
  "errors_Join [Some class, bus_safeClassifications cause] = Some e \<Longrightarrow>
   operationError op class cause = OperationError op (Some e)"
  by (simp add: operationError_def)

lemma errors_Is_OperationError: "errors_Is (OperationError op safe) t = is_err safe t"
  by (cases safe) simp_all

lemma errors_Is_operationError:
  "errors_Is (operationError op class cause) t \<longleftrightarrow>
     errors_Is class t \<or> t \<in> set bus_controlled \<and> is_err cause t"
  by (simp add: operationError_def errors_Is_OperationError bus.safe_is_err del: errors_Is.simps)

lemma errors_Is_redis_lifecycleError:
  "errors_Is (redis_lifecycleError op class cause) t \<longleftrightarrow>
     errors_Is class t \<or> t \<in> set redis_controlled \<and> is_err cause t"
  by (simp add: redis_lifecycleError_def errors_Is_OperationError redis.safe_is_err del: errors_Is.simps)

lemma redacted_OperationError: "redacted (Some (OperationError op safe)) \<longleftrightarrow> redacted safe"
  by (cases safe) simp_all

lemma redacted_operationError:
  "redacted (Some class) \<Longrightarrow> redacted (Some (operationError op class cause))"
  by (simp add: operationError_def redacted_OperationError bus.safe_redacted del: redacted_simps)

lemma redacted_redis_lifecycleError:
  "redacted (Some class) \<Longrightarrow> redacted (Some (redis_lifecycleError op class cause))"
  by (simp add: redis_lifecycleError_def redacted_OperationError redis.safe_redacted del: redacted_simps)

section \<open>Properties\<close>

text \<open>
  The public error of a bus operation matches its own class and exactly the controlled
  classifications of the cause, whatever provider, codec or handler error the cause is, and no
  provider error object can be reached from it; re-wrapping adds only the outer class.
\<close>

theorem operationError_projects_cause:
  "(\<forall>t. errors_Is (operationError op (bus_sentinel class) cause) t \<longleftrightarrow>
        t = Bus_class class \<or> t \<in> set bus_controlled \<and> is_err cause t)
   \<and> redacted (Some (operationError op (bus_sentinel class) cause))
   \<and> (\<forall>t. errors_Is (operationError op' (bus_sentinel class')
                       (Some (operationError op (bus_sentinel class) cause))) t \<longleftrightarrow>
        t = Bus_class class' \<or> errors_Is (operationError op (bus_sentinel class) cause) t)"
proof -
  have "redacted (Some (operationError op (bus_sentinel class) cause))"
    by (rule redacted_operationError) simp
  then show ?thesis by (auto simp: errors_Is_operationError)
qed

end
