(* ===== verification/EventBus_Core.thy ===== *)
theory EventBus_Core
  imports Bus_Errors
begin

text \<open>
  \<open>mss-boot/runtime/eventbus/core.go\<close>: the revision event bus. A revision is a 64-bit word; 0 means
  "none observed". The core record holds the fields of the Go struct; a channel field is modelled by
  whether it is closed. A subscriber is a heap object (\<open>sub_ref\<close> is its address, never reused), which
  \<open>deliverActive\<close> compares by identity before it records a delivery.

  Handler outcomes and context errors come from the environment as functions of the history; the
  mutex is free while a handler runs, and \<open>meanwhile\<close> is what the other goroutines (and the handler
  itself) do to the core until it is taken again.
\<close>

section \<open>State\<close>

record 'p bus_event =
  Revision :: "64 word"
  Payload :: 'p

record subscriber =
  sub_id :: "64 word"
  sub_handler :: nat
  sub_revision :: "64 word"
  sub_ref :: nat

record core =
  core_startAttempted :: bool
  core_started :: bool
  core_startDone :: bool
  core_runAttempted :: bool
  core_runDone :: bool
  core_closing :: bool
  core_closed :: bool
  active :: int
  nextSubscriber :: "64 word"
  subscribers :: "(64 word, subscriber) gomap"
  lastRevision :: "64 word"
  deliveryErr :: "goerr option"
  next_ref :: nat

datatype deliveryMode = deliveryNotification | deliveryReconciliation

text \<open>A context argument: nil, or a context with the value of its \<open>Err()\<close> when the operation starts.\<close>

datatype ctx_arg = NilContext | Context "sentinel option"

definition newCore :: core where
  "newCore =
     \<lparr>core_startAttempted = False, core_started = False, core_startDone = True,
      core_runAttempted = False, core_runDone = True, core_closing = False, core_closed = False,
      active = 0, nextSubscriber = 0, subscribers = fmempty, lastRevision = 0, deliveryErr = None,
      next_ref = 0\<rparr>"

section \<open>Lifecycle\<close>

text \<open>The critical section in front of the probe, and the one behind it.\<close>

definition start_enter :: "ctx_arg \<Rightarrow> core \<Rightarrow> goerr + core" where
  "start_enter ctx c =
     (case ctx of
        NilContext \<Rightarrow> Inl (operationError OperationStart (bus_sentinel Bus_ErrContextRequired)
                             (Some (bus_sentinel Bus_ErrContextRequired)))
      | Context (Some e) \<Rightarrow> Inl (operationError OperationStart (bus_sentinel Bus_ErrStartRejected)
                                   (Some (Sentinel e)))
      | Context None \<Rightarrow>
          if core_closing c \<or> core_closed c then
            Inl (operationError OperationStart (bus_sentinel Bus_ErrClosing) (Some (bus_sentinel Bus_ErrClosing)))
          else if core_startAttempted c then
            Inl (operationError OperationStart (bus_sentinel Bus_ErrStartRejected)
                   (Some (bus_sentinel Bus_ErrStartRejected)))
          else Inr (c\<lparr>core_startAttempted := True, core_startDone := False\<rparr>))"

definition start_leave :: "goerr option \<Rightarrow> core \<Rightarrow> core \<times> goerr option" where
  "start_leave probeErr c =
     (let closing = core_closing c \<or> core_closed c;
          c' = (if probeErr = None \<and> \<not> closing then c\<lparr>core_started := True\<rparr> else c)\<lparr>core_startDone := True\<rparr>
      in (c',
          if closing then
            Some (operationError OperationStart (bus_sentinel Bus_ErrClosing)
                    (errors_Join [probeErr, Some (bus_sentinel Bus_ErrClosing)]))
          else case probeErr of
                 Some e \<Rightarrow> Some (operationError OperationStart (bus_sentinel Bus_ErrProviderFailed) (Some e))
               | None \<Rightarrow> None))"

definition start :: "ctx_arg \<Rightarrow> goerr option \<Rightarrow> (core \<Rightarrow> core) \<Rightarrow> core \<Rightarrow> core \<times> goerr option" where
  "start ctx probeErr during c =
     (case start_enter ctx c of
        Inl e \<Rightarrow> (c, Some e)
      | Inr c1 \<Rightarrow> start_leave probeErr (during c1))"

definition core_beginRun :: "ctx_arg \<Rightarrow> core \<Rightarrow> goerr + core" where
  "core_beginRun ctx c =
     (case ctx of
        NilContext \<Rightarrow> Inl (operationError OperationRun (bus_sentinel Bus_ErrContextRequired)
                             (Some (bus_sentinel Bus_ErrContextRequired)))
      | Context (Some e) \<Rightarrow> Inl (operationError OperationRun (bus_sentinel Bus_ErrRunRejected) (Some (Sentinel e)))
      | Context None \<Rightarrow>
          if core_closing c \<or> core_closed c then
            Inl (operationError OperationRun (bus_sentinel Bus_ErrClosing) (Some (bus_sentinel Bus_ErrClosing)))
          else if \<not> core_started c then
            Inl (operationError OperationRun (bus_sentinel Bus_ErrNotStarted) (Some (bus_sentinel Bus_ErrNotStarted)))
          else if core_runAttempted c then
            Inl (operationError OperationRun (bus_sentinel Bus_ErrRunRejected) (Some (bus_sentinel Bus_ErrRunRejected)))
          else Inr (c\<lparr>core_runAttempted := True, core_runDone := False\<rparr>))"

definition core_finishRun :: "core \<Rightarrow> core" where
  "core_finishRun c = c\<lparr>core_runDone := True\<rparr>"

definition beginActive :: "ctx_arg \<Rightarrow> operation \<Rightarrow> core \<Rightarrow> goerr + core" where
  "beginActive ctx op c =
     (case ctx of
        NilContext \<Rightarrow> Inl (operationError op (bus_sentinel Bus_ErrContextRequired)
                             (Some (bus_sentinel Bus_ErrContextRequired)))
      | Context (Some e) \<Rightarrow> Inl (operationError op (Sentinel e) (Some (Sentinel e)))
      | Context None \<Rightarrow>
          if core_closing c \<or> core_closed c then
            Inl (operationError op (bus_sentinel Bus_ErrClosing) (Some (bus_sentinel Bus_ErrClosing)))
          else if \<not> core_started c then
            Inl (operationError op (bus_sentinel Bus_ErrNotStarted) (Some (bus_sentinel Bus_ErrNotStarted)))
          else Inr (c\<lparr>active := active c + 1\<rparr>))"

text \<open>The function \<open>beginActive\<close> returns; \<open>sync.Once\<close> makes it run once.\<close>

definition release :: "core \<Rightarrow> core" where
  "release c = c\<lparr>active := active c - 1\<rparr>"

definition close_enter :: "core \<Rightarrow> core" where
  "close_enter c = c\<lparr>core_closing := True\<rparr>"

definition close_finish :: "core \<Rightarrow> core" where
  "close_finish c = c\<lparr>core_closed := True, core_started := False, subscribers := fmempty\<rparr>"

section \<open>Subscriptions\<close>

definition subscribe :: "nat option \<Rightarrow> core \<Rightarrow> goerr + core \<times> 64 word" where
  "subscribe handler c =
     (case handler of
        None \<Rightarrow> Inl (bus_invalid ''handler'' ''is required'' Bus_ErrInvalidOptions)
      | Some callback \<Rightarrow>
          if core_closing c \<or> core_closed c then
            Inl (operationError OperationSubscribe (bus_sentinel Bus_ErrClosing)
                   (Some (bus_sentinel Bus_ErrClosing)))
          else
            (let i = nextSubscriber c + 1 in
             Inr (c\<lparr>nextSubscriber := i,
                    subscribers := fmupd i \<lparr>sub_id = i, sub_handler = callback, sub_revision = 0,
                                            sub_ref = next_ref c\<rparr> (subscribers c),
                    next_ref := Suc (next_ref c)\<rparr>, i)))"

text \<open>The effect of the first \<open>Subscription.Cancel\<close>; \<open>sync.Once\<close> makes later calls do nothing.\<close>

definition cancel_subscription :: "64 word \<Rightarrow> core \<Rightarrow> core" where
  "cancel_subscription i c = c\<lparr>subscribers := fmdrop i (subscribers c)\<rparr>"

definition Cancel :: "64 word \<Rightarrow> bool \<Rightarrow> core \<Rightarrow> bool \<times> core" where
  "Cancel i done c = (if done then (True, c) else (True, cancel_subscription i c))"

section \<open>Delivery\<close>

datatype outcome = Panicked | Returned "goerr option"

datatype bus_action = AwaitToken | PollDelivery | HandlerCall nat "64 word"
| AwaitStart | AwaitRun | AwaitZero

record bus_env =
  handler_outcome :: "bus_action list \<Rightarrow> outcome"
  bus_ctxErr :: "bus_action list \<Rightarrow> sentinel option"
  meanwhile :: "bus_action list \<Rightarrow> core \<Rightarrow> core"
  range_order :: "(64 word, subscriber) gomap \<Rightarrow> 64 word list"

definition callHandler :: "outcome \<Rightarrow> goerr option" where
  "callHandler out =
     (case out of
        Panicked \<Rightarrow> Some (operationError OperationPublish (bus_sentinel Bus_ErrSubscriberPanicked)
                            (Some (bus_sentinel Bus_ErrSubscriberPanicked)))
      | Returned (Some e) \<Rightarrow> Some (operationError OperationPublish (bus_sentinel Bus_ErrSubscriberFailed) (Some e))
      | Returned None \<Rightarrow> None)"

text \<open>The ids of the subscribers behind the revision, in the map's enumeration order.\<close>

fun behind :: "(64 word, subscriber) gomap \<Rightarrow> 64 word \<Rightarrow> 64 word list \<Rightarrow> 64 word list" where
  "behind m revision [] = []"
| "behind m revision (i # ids) =
     (case fmlookup m i of
        Some s \<Rightarrow> if sub_revision s < revision then i # behind m revision ids else behind m revision ids
      | None \<Rightarrow> behind m revision ids)"

definition targets :: "bus_env \<Rightarrow> (64 word, subscriber) gomap \<Rightarrow> 64 word \<Rightarrow> subscriber list" where
  "targets E m revision = map (\<lambda>i. the (fmlookup m i)) (sort (behind m revision (range_order E m)))"

text \<open>Recording a delivery: only if the very same subscriber is still registered.\<close>

definition mark_delivered :: "subscriber \<Rightarrow> 64 word \<Rightarrow> core \<Rightarrow> core" where
  "mark_delivered target revision c =
     (case fmlookup (subscribers c) (sub_id target) of
        None \<Rightarrow> c
      | Some registered \<Rightarrow>
          if sub_ref registered = sub_ref target \<and> sub_revision registered < revision
          then c\<lparr>subscribers := fmupd (sub_id target) (registered\<lparr>sub_revision := revision\<rparr>) (subscribers c)\<rparr>
          else c)"

fun deliver_loop :: "bus_env \<Rightarrow> 64 word \<Rightarrow> subscriber list \<Rightarrow> core \<Rightarrow> bus_action list \<Rightarrow> goerr option
    \<Rightarrow> core \<times> bus_action list \<times> goerr option" where
  "deliver_loop E revision [] c h result = (c, h, result)"
| "deliver_loop E revision (target # rest) c h result =
     (let h1 = h @ [PollDelivery] in
      case bus_ctxErr E h1 of
        Some e \<Rightarrow>
          (c, h1, errors_Join [result, Some (operationError OperationPublish (bus_sentinel Bus_ErrPublishFailed)
                                               (Some (Sentinel e)))])
      | None \<Rightarrow>
          (let h2 = h1 @ [HandlerCall (sub_ref target) revision]; c1 = meanwhile E h2 c in
           case callHandler (handler_outcome E h2) of
             Some handlerErr \<Rightarrow> deliver_loop E revision rest c1 h2 (errors_Join [result, Some handlerErr])
           | None \<Rightarrow> deliver_loop E revision rest (mark_delivered target revision c1) h2 result))"

definition settle :: "deliveryMode \<Rightarrow> subscriber list \<Rightarrow> goerr option \<Rightarrow> core \<Rightarrow> core" where
  "settle mode current result c =
     (if is_err result (Bus_class Bus_ErrSubscriberFailed) \<or> is_err result (Bus_class Bus_ErrSubscriberPanicked)
      then c\<lparr>deliveryErr := bus_safeClassifications result\<rparr>
      else if mode = deliveryReconciliation \<or> current \<noteq> [] then c\<lparr>deliveryErr := None\<rparr>
      else c)"

definition deliverActive :: "bus_env \<Rightarrow> 'p bus_event \<Rightarrow> deliveryMode \<Rightarrow> core \<Rightarrow> bus_action list
    \<Rightarrow> core \<times> bus_action list \<times> goerr option" where
  "deliverActive E event mode c h =
     (if Revision event = 0 then
        (c, h, Some (operationError OperationPublish (bus_sentinel Bus_ErrInvalidEvent)
                       (Some (bus_sentinel Bus_ErrInvalidEvent))))
      else
        (let h1 = h @ [AwaitToken] in
         case bus_ctxErr E h1 of
           Some e \<Rightarrow> (c, h1, Some (operationError OperationPublish (bus_sentinel Bus_ErrPublishFailed)
                                     (Some (Sentinel e))))
         | None \<Rightarrow>
             (let c1 = meanwhile E h1 c in
              if Revision event < lastRevision c1
                 \<or> Revision event = lastRevision c1 \<and> mode = deliveryNotification
              then (c1, h1, None)
              else
                (let c2 = (if lastRevision c1 < Revision event
                           then c1\<lparr>lastRevision := Revision event\<rparr> else c1);
                     current = targets E (subscribers c2) (Revision event);
                     (c3, h3, result) = deliver_loop E (Revision event) current c2 h1 None
                 in (settle mode current result c3, h3, result)))))"

definition deliver :: "bus_env \<Rightarrow> ctx_arg \<Rightarrow> 'p bus_event \<Rightarrow> deliveryMode \<Rightarrow> core \<Rightarrow> bus_action list
    \<Rightarrow> core \<times> bus_action list \<times> goerr option" where
  "deliver E ctx event mode c h =
     (case beginActive ctx OperationPublish c of
        Inl e \<Rightarrow> (c, h, Some e)
      | Inr c1 \<Rightarrow>
          (let (c2, h2, r) = deliverActive E event mode c1 h in (release c2, h2, r)))"

section \<open>Inspection\<close>

definition inspection :: "ctx_arg \<Rightarrow> operation \<Rightarrow> core \<Rightarrow> goerr option" where
  "inspection ctx op c =
     (case beginActive ctx op c of
        Inl e \<Rightarrow> Some e
      | Inr _ \<Rightarrow>
          (case deliveryErr c of
             None \<Rightarrow> None
           | Some degraded \<Rightarrow> Some (operationError op (bus_sentinel Bus_ErrDegraded) (Some degraded))))"

section \<open>Close\<close>

text \<open>
  The loop that waits until no operation is active. It may wait forever, so it is a partial function;
  \<open>None\<close> is "does not return".
\<close>

partial_function (option) close_drain :: "bus_env \<Rightarrow> core \<Rightarrow> bus_action list
    \<Rightarrow> (core \<times> bus_action list \<times> goerr option) option" where
  "close_drain E c h =
     (let c1 = meanwhile E h c in
      if active c1 = 0 then Some (close_finish c1, h, None)
      else
        (let h1 = h @ [AwaitZero] in
         case bus_ctxErr E h1 of
           Some e \<Rightarrow> Some (c1, h1, Some (operationError OperationClose (bus_sentinel Bus_ErrClosing)
                                          (Some (Sentinel e))))
         | None \<Rightarrow> close_drain E c1 h1))"

definition await_lifecycle :: "bus_env \<Rightarrow> bus_action \<Rightarrow> bus_action list \<Rightarrow> bus_action list \<times> goerr option" where
  "await_lifecycle E a h =
     (let h1 = h @ [a] in
      (h1, case bus_ctxErr E h1 of None \<Rightarrow> None
           | Some e \<Rightarrow> Some (operationError OperationClose (bus_sentinel Bus_ErrClosing) (Some (Sentinel e)))))"

definition close_core :: "bus_env \<Rightarrow> ctx_arg \<Rightarrow> core \<Rightarrow> bus_action list
    \<Rightarrow> (core \<times> bus_action list \<times> goerr option) option" where
  "close_core E ctx c h =
     (if ctx = NilContext then
        Some (c, h, Some (operationError OperationClose (bus_sentinel Bus_ErrContextRequired)
                            (Some (bus_sentinel Bus_ErrContextRequired))))
      else if core_closed c then Some (c, h, None)
      else
        (let c1 = close_enter c in
         case await_lifecycle E AwaitStart h of
           (h1, Some e) \<Rightarrow> Some (c1, h1, Some e)
         | (h1, None) \<Rightarrow>
             (let c2 = meanwhile E h1 c1 in
              case await_lifecycle E AwaitRun h1 of
                (h2, Some e) \<Rightarrow> Some (c2, h2, Some e)
              | (h2, None) \<Rightarrow> close_drain E c2 h2)))"

end
