(* ===== verification/EventBus_Delivery.thy ===== *)
theory EventBus_Delivery
  imports EventBus_Core "HOL-Library.Sublist"
begin

text \<open>
  Proofs about the delivery path of the event bus: which subscribers one \<open>deliverActive\<close> calls, what it
  records, what it reports, and over any sequence of operations that a subscriber sees strictly
  increasing revisions. \<open>peer_step\<close> is one critical section another goroutine can take while a delivery
  runs: deliveries exclude each other by the delivery token, and \<open>close_finish\<close> waits for \<open>active = 0\<close>.
\<close>

section \<open>Peers\<close>

inductive peer_step :: "core \<Rightarrow> core \<Rightarrow> bool" where
  peer_subscribe: "subscribe handler c = Inr (c', i) \<Longrightarrow> peer_step c c'"
| peer_cancel: "peer_step c (snd (Cancel i done c))"
| peer_enter: "beginActive ctx op c = Inr c' \<Longrightarrow> peer_step c c'"
| peer_leave: "peer_step c (release c)"
| peer_run: "core_beginRun ctx c = Inr c' \<Longrightarrow> peer_step c c'"
| peer_run_done: "peer_step c (core_finishRun c)"
| peer_closing: "peer_step c (close_enter c)"

definition respects_peers :: "bus_env \<Rightarrow> bool" where
  "respects_peers E \<longleftrightarrow> (\<forall>h c. peer_step\<^sup>*\<^sup>* c (meanwhile E h c))"

definition fair_order :: "bus_env \<Rightarrow> bool" where
  "fair_order E \<longleftrightarrow> (\<forall>m. enumerates m (range_order E m))"

definition subs_inv :: "core \<Rightarrow> bool" where
  "subs_inv c \<longleftrightarrow>
     (\<forall>i s. fmlookup (subscribers c) i = Some s \<longrightarrow>
        sub_id s = i \<and> sub_revision s \<le> lastRevision c \<and> sub_ref s < next_ref c)
   \<and> (\<forall>i j s t. fmlookup (subscribers c) i = Some s \<and> fmlookup (subscribers c) j = Some t
        \<and> sub_ref s = sub_ref t \<longrightarrow> i = j)"

text \<open>
  \<open>evolves D c c'\<close>: nothing but new subscribers and removals happened, and the subscribers in \<open>D\<close> were
  moved to the revision.
\<close>

definition evolves :: "64 word \<Rightarrow> nat set \<Rightarrow> core \<Rightarrow> core \<Rightarrow> bool" where
  "evolves revision D c c' \<longleftrightarrow>
     next_ref c \<le> next_ref c' \<and> lastRevision c' = lastRevision c
   \<and> (\<forall>i s'. fmlookup (subscribers c') i = Some s' \<longrightarrow>
        next_ref c \<le> sub_ref s' \<and> sub_revision s' = 0
      \<or> (\<exists>s. fmlookup (subscribers c) i = Some s
            \<and> s' = (if sub_ref s \<in> D then s\<lparr>sub_revision := revision\<rparr> else s)))"

lemma evolves_refl: "evolves revision {} c c"
  by (simp add: evolves_def)

lemma evolves_trans:
  assumes "evolves revision D c c'" and "evolves revision D' c' c''" and "\<forall>r \<in> D'. r < next_ref c"
  shows "evolves revision (D \<union> D') c c''"
  unfolding evolves_def
proof (intro conjI allI impI)
  show "next_ref c \<le> next_ref c''" "lastRevision c'' = lastRevision c"
    using assms(1,2) by (auto simp: evolves_def)
  fix i s''
  assume s'': "fmlookup (subscribers c'') i = Some s''"
  then consider (new) "next_ref c' \<le> sub_ref s''" "sub_revision s'' = 0"
    | (old) s' where "fmlookup (subscribers c') i = Some s'"
        "s'' = (if sub_ref s' \<in> D' then s'\<lparr>sub_revision := revision\<rparr> else s')"
    using assms(2) unfolding evolves_def by blast
  then show "next_ref c \<le> sub_ref s'' \<and> sub_revision s'' = 0
      \<or> (\<exists>s. fmlookup (subscribers c) i = Some s
            \<and> s'' = (if sub_ref s \<in> D \<union> D' then s\<lparr>sub_revision := revision\<rparr> else s))"
  proof cases
    case new
    with assms(1) show ?thesis by (auto simp: evolves_def)
  next
    case old
    from old(1) assms(1) consider (n) "next_ref c \<le> sub_ref s'" "sub_revision s' = 0"
      | (o) s where "fmlookup (subscribers c) i = Some s"
          "s' = (if sub_ref s \<in> D then s\<lparr>sub_revision := revision\<rparr> else s)"
      unfolding evolves_def by blast
    then show ?thesis
    proof cases
      case n
      with assms(3) have "sub_ref s' \<notin> D'" by auto
      with n old(2) show ?thesis by simp
    next
      case o
      with old(2) show ?thesis by auto
    qed
  qed
qed

lemma peer_evolves:
  assumes "peer_step c c'" and "subs_inv c"
  shows "evolves revision {} c c' \<and> subs_inv c'"
  using assms(1)
proof (cases rule: peer_step.cases)
  case (peer_subscribe handler i)
  then show ?thesis
    using assms(2)
    by (fastforce simp: subscribe_def evolves_def subs_inv_def Let_def split: option.splits if_splits)
next
  case (peer_cancel i don)
  then show ?thesis
    using assms(2)
    by (auto simp: Cancel_def cancel_subscription_def evolves_def subs_inv_def split: if_splits)
next
  case (peer_enter ctx op)
  then show ?thesis
    using assms(2)
    by (auto simp: beginActive_def evolves_def subs_inv_def split: ctx_arg.splits option.splits if_splits)
next
  case (peer_run ctx)
  then show ?thesis
    using assms(2)
    by (auto simp: core_beginRun_def evolves_def subs_inv_def split: ctx_arg.splits option.splits if_splits)
qed (use assms(2) in \<open>auto simp: release_def core_finishRun_def close_enter_def evolves_def subs_inv_def\<close>)

lemma peers_evolve:
  "peer_step\<^sup>*\<^sup>* c c' \<Longrightarrow> subs_inv c \<Longrightarrow> evolves revision {} c c' \<and> subs_inv c'"
proof (induction rule: rtranclp_induct)
  case base
  then show ?case by (simp add: evolves_refl)
next
  case (step y z)
  with peer_evolves [of y z revision] evolves_trans [of revision "{}" c y "{}" z] show ?case by simp
qed

lemma meanwhile_evolves:
  "respects_peers E \<Longrightarrow> subs_inv c \<Longrightarrow> evolves revision {} c (meanwhile E h c) \<and> subs_inv (meanwhile E h c)"
  using peers_evolve [of c "meanwhile E h c" revision] by (simp add: respects_peers_def)

section \<open>Reading a delivery's history\<close>

fun called :: "bus_action list \<Rightarrow> (nat \<times> 64 word) list" where
  "called [] = []"
| "called (HandlerCall r v # ext) = (r, v) # called ext"
| "called (_ # ext) = called ext"

text \<open>The handler calls that returned nil.\<close>

fun handled :: "bus_env \<Rightarrow> bus_action list \<Rightarrow> bus_action list \<Rightarrow> (nat \<times> 64 word) list" where
  "handled E h [] = []"
| "handled E h (HandlerCall r v # ext) =
     (if callHandler (handler_outcome E (h @ [HandlerCall r v])) = None then [(r, v)] else [])
     @ handled E (h @ [HandlerCall r v]) ext"
| "handled E h (a # ext) = handled E (h @ [a]) ext"

abbreviation "publish_failed e \<equiv>
  operationError OperationPublish (bus_sentinel Bus_ErrPublishFailed) (Some (Sentinel e))"

text \<open>The errors seen: a handler's, or the delivery context's.\<close>

fun delivery_errors :: "bus_env \<Rightarrow> bus_action list \<Rightarrow> bus_action list \<Rightarrow> goerr list" where
  "delivery_errors E h [] = []"
| "delivery_errors E h (HandlerCall r v # ext) =
     (case callHandler (handler_outcome E (h @ [HandlerCall r v])) of None \<Rightarrow> [] | Some e \<Rightarrow> [e])
     @ delivery_errors E (h @ [HandlerCall r v]) ext"
| "delivery_errors E h (a # ext) =
     (case bus_ctxErr E (h @ [a]) of None \<Rightarrow> [] | Some e \<Rightarrow> [publish_failed e])
     @ delivery_errors E (h @ [a]) ext"

fun bus_live :: "bus_env \<Rightarrow> bus_action list \<Rightarrow> bus_action list \<Rightarrow> bool" where
  "bus_live E h [] = True"
| "bus_live E h (a # ext) =
     (((\<exists>r v. a = HandlerCall r v) \<or> bus_ctxErr E (h @ [a]) = None) \<and> bus_live E (h @ [a]) ext)"

lemma callHandler_redacted: "redacted (callHandler out)"
proof (cases "callHandler out")
  case (Some e)
  then obtain k cause where "e = operationError OperationPublish (bus_sentinel k) cause"
    by (auto simp: callHandler_def split: outcome.splits option.splits)
  then show ?thesis
    using Some redacted_operationError [of "bus_sentinel k"] by simp
qed simp

lemma publish_failed_redacted: "redacted (Some (publish_failed e))"
  by (rule redacted_operationError) simp

lemma delivery_errors_redacted: "e \<in> set (delivery_errors E h ext) \<Longrightarrow> redacted (Some e)"
proof (induction E h ext rule: delivery_errors.induct)
  case (2 E h r v ext)
  then show ?case
    using callHandler_redacted [of "handler_outcome E (h @ [HandlerCall r v])"]
    by (auto simp del: redacted_simps split: option.splits)
qed (auto simp del: redacted_simps simp: publish_failed_redacted split: option.splits)

section \<open>The delivery loop\<close>

definition snapshot_ok :: "64 word \<Rightarrow> core \<Rightarrow> subscriber list \<Rightarrow> bool" where
  "snapshot_ok revision c ts \<longleftrightarrow>
     distinct (map sub_ref ts)
   \<and> (\<forall>t \<in> set ts. sub_ref t < next_ref c \<and> sub_revision t < revision
        \<and> (\<forall>i s. fmlookup (subscribers c) i = Some s \<and> sub_ref s = sub_ref t \<longrightarrow> s = t))"

lemma snapshot_evolves:
  assumes "snapshot_ok revision c ts" and "evolves revision D c c'" and "\<forall>t \<in> set ts. sub_ref t \<notin> D"
  shows "snapshot_ok revision c' ts"
  unfolding snapshot_ok_def
proof (intro conjI ballI allI impI)
  show "distinct (map sub_ref ts)" using assms(1) by (simp add: snapshot_ok_def)
  fix t assume t: "t \<in> set ts"
  with assms(1) have b: "sub_ref t < next_ref c" "sub_revision t < revision" by (auto simp: snapshot_ok_def)
  show "sub_revision t < revision" by (rule b)
  show "sub_ref t < next_ref c'" using assms(2) b(1) by (auto simp: evolves_def)
  fix i s
  assume s: "fmlookup (subscribers c') i = Some s \<and> sub_ref s = sub_ref t"
  with b(1) assms(2) obtain s0 where s0: "fmlookup (subscribers c) i = Some s0"
    "s = (if sub_ref s0 \<in> D then s0\<lparr>sub_revision := revision\<rparr> else s0)"
    unfolding evolves_def by (metis linorder_not_less)
  then have "sub_ref s0 = sub_ref t" using s by (auto split: if_splits)
  with s0 t assms(1,3) show "s = t" by (auto simp: snapshot_ok_def)
qed

lemma mark_evolves:
  assumes "snapshot_ok revision c (t # ts)" and "subs_inv c" and "revision \<le> lastRevision c"
  shows "evolves revision {sub_ref t} c (mark_delivered t revision c)
    \<and> subs_inv (mark_delivered t revision c)"
proof -
  have t: "sub_revision t < revision"
    "\<And>i s. fmlookup (subscribers c) i = Some s \<Longrightarrow> sub_ref s = sub_ref t \<Longrightarrow> s = t"
    using assms(1) by (auto simp: snapshot_ok_def)
  have key: "\<And>i s. fmlookup (subscribers c) i = Some s \<Longrightarrow> sub_id s = i"
    using assms(2) by (auto simp: subs_inv_def)
  show ?thesis
  proof (cases "fmlookup (subscribers c) (sub_id t) = Some t")
    case True
    let ?t = "t\<lparr>sub_revision := revision\<rparr>"
    have m: "mark_delivered t revision c = c\<lparr>subscribers := fmupd (sub_id t) ?t (subscribers c)\<rparr>"
      using True t(1) by (simp add: mark_delivered_def)
    have look: "fmlookup (subscribers (mark_delivered t revision c)) i =
        (if i = sub_id t then Some ?t else fmlookup (subscribers c) i)" for i
      by (simp add: m)
    have other: "sub_ref s \<noteq> sub_ref t" if "fmlookup (subscribers c) i = Some s" "i \<noteq> sub_id t" for i s
      using t(2) [OF that(1)] key [OF that(1)] that(2) by metis
    have inv: "sub_ref t < next_ref c" "\<And>i s. fmlookup (subscribers c) i = Some s \<Longrightarrow>
        sub_id s = i \<and> sub_revision s \<le> lastRevision c \<and> sub_ref s < next_ref c"
      "\<And>i j s u. fmlookup (subscribers c) i = Some s \<Longrightarrow> fmlookup (subscribers c) j = Some u \<Longrightarrow>
         sub_ref s = sub_ref u \<Longrightarrow> i = j"
      using True assms(2) unfolding subs_inv_def by blast+
    have "evolves revision {sub_ref t} c (mark_delivered t revision c)"
      unfolding evolves_def
    proof (intro conjI allI impI disjI2)
      fix i s'
      assume "fmlookup (subscribers (mark_delivered t revision c)) i = Some s'"
      with look [of i] have "s' = (if i = sub_id t then ?t else s')"
        "i \<noteq> sub_id t \<longrightarrow> fmlookup (subscribers c) i = Some s'" by (auto split: if_splits)
      then show "\<exists>s. fmlookup (subscribers c) i = Some s
          \<and> s' = (if sub_ref s \<in> {sub_ref t} then s\<lparr>sub_revision := revision\<rparr> else s)"
        using True other [of i s'] by (cases "i = sub_id t") auto
    qed (simp_all add: m)
    moreover have "subs_inv (mark_delivered t revision c)"
      unfolding subs_inv_def
    proof (intro conjI allI impI)
      fix i s
      assume l: "fmlookup (subscribers (mark_delivered t revision c)) i = Some s"
      have "i = sub_id t \<and> s = ?t \<or> fmlookup (subscribers c) i = Some s"
        using l look [of i] by (auto split: if_splits)
      with inv(1) inv(2) [of i s] assms(3)
      show "sub_id s = i" "sub_revision s \<le> lastRevision (mark_delivered t revision c)"
        "sub_ref s < next_ref (mark_delivered t revision c)" by (auto simp: m)
    next
      fix i j s u
      assume l: "fmlookup (subscribers (mark_delivered t revision c)) i = Some s
        \<and> fmlookup (subscribers (mark_delivered t revision c)) j = Some u \<and> sub_ref s = sub_ref u"
      show "i = j"
      proof (cases "i = sub_id t"; cases "j = sub_id t")
        assume "i = sub_id t" "j \<noteq> sub_id t"
        with l look [of i] look [of j] other [of j u] show ?thesis by auto
      next
        assume "i \<noteq> sub_id t" "j = sub_id t"
        with l look [of i] look [of j] other [of i s] show ?thesis by auto
      next
        assume "i \<noteq> sub_id t" "j \<noteq> sub_id t"
        with l look [of i] look [of j] inv(3) [of i s j u] show ?thesis by simp
      qed simp
    qed
    ultimately show ?thesis by blast
  next
    case False
    have none: "sub_ref s \<noteq> sub_ref t" if "fmlookup (subscribers c) i = Some s" for i s
      using t(2) [OF that] key [OF that] that False by metis
    then have "mark_delivered t revision c = c"
      by (auto simp: mark_delivered_def split: option.splits)
    with none assms(2) show ?thesis by (auto simp: evolves_def)
  qed
qed

definition delivered :: "bus_env \<Rightarrow> bus_action list \<Rightarrow> bus_action list \<Rightarrow> 64 word \<Rightarrow> core \<Rightarrow> core \<Rightarrow> bool" where
  "delivered E h ext revision c c' \<longleftrightarrow> evolves revision (fst ` set (handled E h ext)) c c' \<and> subs_inv c'"

lemma deliver_loop_spec:
  assumes "deliver_loop E revision ts c h r0 = (c', h', r)"
    and "snapshot_ok revision c ts" and "subs_inv c" and "respects_peers E" and "revision \<le> lastRevision c"
  shows "\<exists>ext. h' = h @ ext \<and> delivered E h ext revision c c'
    \<and> prefix (called ext) (map (\<lambda>t. (sub_ref t, revision)) ts)
    \<and> (bus_live E h ext \<longrightarrow> called ext = map (\<lambda>t. (sub_ref t, revision)) ts)
    \<and> set (handled E h ext) \<subseteq> set (called ext) \<and> distinct (map fst (handled E h ext))
    \<and> (\<forall>x. is_err r x \<longleftrightarrow> is_err r0 x \<or> (\<exists>e \<in> set (delivery_errors E h ext). errors_Is e x))
    \<and> (r = None \<longleftrightarrow> r0 = None \<and> delivery_errors E h ext = [])
    \<and> (delivery_errors E h ext = [] \<longrightarrow> handled E h ext = map (\<lambda>t. (sub_ref t, revision)) ts)
    \<and> (redacted r0 \<longrightarrow> redacted r)"
  using assms
proof (induction E revision ts c h r0 rule: deliver_loop.induct)
  case (1 E revision c h result)
  then show ?case
    by (intro exI [of _ "[]"]) (simp add: delivered_def evolves_refl)
next
  case (2 E revision t ts c h result)
  let ?h1 = "h @ [PollDelivery]"
  let ?h2 = "?h1 @ [HandlerCall (sub_ref t) revision]"
  let ?c1 = "meanwhile E ?h2 c"
  show ?case
  proof (cases "bus_ctxErr E ?h1")
    case (Some e)
    with 2(3,5) publish_failed_redacted [of e] show ?thesis
      by (intro exI [of _ "[PollDelivery]"])
        (auto simp: delivered_def evolves_refl simp del: redacted_simps(2))
  next
    case alive: None
    have ev1: "evolves revision {} c ?c1" "subs_inv ?c1"
      using meanwhile_evolves [OF 2(6,5)] by auto
    have snap1: "snapshot_ok revision ?c1 (t # ts)" using snapshot_evolves [OF 2(4) ev1(1)] by simp
    then have snap2: "snapshot_ok revision ?c1 ts" and nt: "sub_ref t \<notin> set (map sub_ref ts)"
      by (auto simp: snapshot_ok_def)
    have last1: "revision \<le> lastRevision ?c1" using 2(7) ev1(1) by (simp add: evolves_def)
    have tr: "sub_ref t < next_ref c" "\<forall>u \<in> set ts. sub_ref u < next_ref c"
      using 2(4) by (auto simp: snapshot_ok_def)
    show ?thesis
    proof (cases "callHandler (handler_outcome E ?h2)")
      case (Some err)
      let ?r = "errors_Join [result, Some err]"
      have l: "deliver_loop E revision ts ?c1 ?h2 ?r = (c', h', r)"
        using 2(3) alive Some by (simp add: Let_def)
      from 2(2) [OF refl alive refl refl Some l snap2 ev1(2) 2(6) last1] obtain ext where ext:
        "h' = ?h2 @ ext" "delivered E ?h2 ext revision ?c1 c'"
        "prefix (called ext) (map (\<lambda>t. (sub_ref t, revision)) ts)"
        "bus_live E ?h2 ext \<longrightarrow> called ext = map (\<lambda>t. (sub_ref t, revision)) ts"
        "set (handled E ?h2 ext) \<subseteq> set (called ext)" "distinct (map fst (handled E ?h2 ext))"
        "\<forall>x. is_err r x \<longleftrightarrow> is_err ?r x \<or> (\<exists>e \<in> set (delivery_errors E ?h2 ext). errors_Is e x)"
        "r = None \<longleftrightarrow> ?r = None \<and> delivery_errors E ?h2 ext = []"
        "redacted ?r \<longrightarrow> redacted r" by blast
      have red: "redacted (Some err)" using callHandler_redacted Some by metis
      have D: "\<forall>x \<in> fst ` set (handled E ?h2 ext). x < next_ref c"
        using ext(5) set_mono_prefix [OF ext(3)] tr(2) by fastforce
      let ?x = "PollDelivery # HandlerCall (sub_ref t) revision # ext"
      have hd: "handled E h ?x = handled E ?h2 ext" "delivery_errors E h ?x = err # delivery_errors E ?h2 ext"
        "called ?x = (sub_ref t, revision) # called ext" "bus_live E h ?x \<longleftrightarrow> bus_live E ?h2 ext"
        using alive Some by simp_all
      have st: "delivered E h ?x revision c c'"
        using ext(2) evolves_trans [OF ev1(1) _ D] unfolding delivered_def hd by auto
      show ?thesis
      proof (intro exI [of _ ?x] conjI)
        show "h' = h @ ?x" using ext(1) by simp
        show "delivered E h ?x revision c c'" by (rule st)
        show "prefix (called ?x) (map (\<lambda>t. (sub_ref t, revision)) (t # ts))" using ext(3) by (simp add: hd(3))
        show "bus_live E h ?x \<longrightarrow> called ?x = map (\<lambda>t. (sub_ref t, revision)) (t # ts)"
          using ext(4) by (simp only: hd(3,4) list.map) blast
        show "set (handled E h ?x) \<subseteq> set (called ?x)" unfolding hd(1,3) using ext(5) by auto
        show "distinct (map fst (handled E h ?x))" unfolding hd(1) using ext(6) by simp
        show "\<forall>x. is_err r x \<longleftrightarrow> is_err result x \<or> (\<exists>e \<in> set (delivery_errors E h ?x). errors_Is e x)"
          unfolding hd(2) using ext(7) by auto
        show "r = None \<longleftrightarrow> result = None \<and> delivery_errors E h ?x = []"
          unfolding hd(2) using ext(8) by simp
        show "delivery_errors E h ?x = [] \<longrightarrow> handled E h ?x = map (\<lambda>t. (sub_ref t, revision)) (t # ts)"
          unfolding hd(1,2) by simp
        show "redacted result \<longrightarrow> redacted r"
          using ext(9) red by (simp del: redacted_simps)
      qed
    next
      case None
      let ?c2 = "mark_delivered t revision ?c1"
      have ev2: "evolves revision {sub_ref t} ?c1 ?c2" "subs_inv ?c2"
        using mark_evolves [OF snap1 ev1(2) last1] by auto
      have snap3: "snapshot_ok revision ?c2 ts"
      proof (rule snapshot_evolves [OF snap2 ev2(1)])
        show "\<forall>u \<in> set ts. sub_ref u \<notin> {sub_ref t}"
          using nt by (metis image_eqI list.set_map singletonD)
      qed
      have last2: "revision \<le> lastRevision ?c2" using last1 ev2(1) by (simp add: evolves_def)
      have l: "deliver_loop E revision ts ?c2 ?h2 result = (c', h', r)"
        using 2(3) alive None by (simp add: Let_def)
      from 2(1) [OF refl alive refl refl None l snap3 ev2(2) 2(6) last2] obtain ext where ext:
        "h' = ?h2 @ ext" "delivered E ?h2 ext revision ?c2 c'"
        "prefix (called ext) (map (\<lambda>t. (sub_ref t, revision)) ts)"
        "bus_live E ?h2 ext \<longrightarrow> called ext = map (\<lambda>t. (sub_ref t, revision)) ts"
        "set (handled E ?h2 ext) \<subseteq> set (called ext)" "distinct (map fst (handled E ?h2 ext))"
        "\<forall>x. is_err r x \<longleftrightarrow> is_err result x \<or> (\<exists>e \<in> set (delivery_errors E ?h2 ext). errors_Is e x)"
        "r = None \<longleftrightarrow> result = None \<and> delivery_errors E ?h2 ext = []"
        "delivery_errors E ?h2 ext = [] \<longrightarrow> handled E ?h2 ext = map (\<lambda>t. (sub_ref t, revision)) ts"
        "redacted result \<longrightarrow> redacted r" by blast
      have sub: "fst ` set (handled E ?h2 ext) \<subseteq> set (map sub_ref ts)"
        using ext(5) set_mono_prefix [OF ext(3)] by fastforce
      then have D: "\<forall>x \<in> fst ` set (handled E ?h2 ext). x < next_ref c" using tr(2) by auto
      have D1: "\<forall>x \<in> {sub_ref t}. x < next_ref c" using tr(1) by simp
      let ?x = "PollDelivery # HandlerCall (sub_ref t) revision # ext"
      have hd: "handled E h ?x = (sub_ref t, revision) # handled E ?h2 ext"
        "delivery_errors E h ?x = delivery_errors E ?h2 ext"
        "called ?x = (sub_ref t, revision) # called ext" "bus_live E h ?x \<longleftrightarrow> bus_live E ?h2 ext"
        using alive None by simp_all
      have "evolves revision ({} \<union> {sub_ref t}) c ?c2" by (rule evolves_trans [OF ev1(1) ev2(1) D1])
      then have "evolves revision ({} \<union> {sub_ref t} \<union> fst ` set (handled E ?h2 ext)) c c'"
        using ext(2) D unfolding delivered_def by (blast intro: evolves_trans)
      with ext(2) have st: "delivered E h ?x revision c c'" unfolding delivered_def hd(1) by simp
      have new: "sub_ref t \<notin> set (map fst (handled E ?h2 ext))" using sub nt by auto
      show ?thesis
      proof (intro exI [of _ ?x] conjI)
        show "h' = h @ ?x" using ext(1) by simp
        show "delivered E h ?x revision c c'" by (rule st)
        show "prefix (called ?x) (map (\<lambda>t. (sub_ref t, revision)) (t # ts))" using ext(3) by (simp add: hd(3))
        show "bus_live E h ?x \<longrightarrow> called ?x = map (\<lambda>t. (sub_ref t, revision)) (t # ts)"
          using ext(4) by (simp only: hd(3,4) list.map) blast
        show "set (handled E h ?x) \<subseteq> set (called ?x)" unfolding hd(1,3) using ext(5) by auto
        show "distinct (map fst (handled E h ?x))" unfolding hd(1) using ext(6) new by simp
        show "\<forall>x. is_err r x \<longleftrightarrow> is_err result x \<or> (\<exists>e \<in> set (delivery_errors E h ?x). errors_Is e x)"
          unfolding hd(2) using ext(7) by auto
        show "r = None \<longleftrightarrow> result = None \<and> delivery_errors E h ?x = []"
          unfolding hd(2) using ext(8) by simp
        show "delivery_errors E h ?x = [] \<longrightarrow> handled E h ?x = map (\<lambda>t. (sub_ref t, revision)) (t # ts)"
          unfolding hd(1,2) using ext(9) by simp
        show "redacted result \<longrightarrow> redacted r"
          using ext(10) by blast
      qed
    qed
  qed
qed

section \<open>Whole deliveries\<close>

lemma behind_filter:
  "behind m revision ids = filter (\<lambda>i. \<exists>s. fmlookup m i = Some s \<and> sub_revision s < revision) ids"
  by (induction m revision ids rule: behind.induct) (auto split: option.splits)

lemma targets_spec:
  assumes "fair_order E" and "subs_inv c" and "ts = targets E (subscribers c) revision"
  shows "set ts = {s. \<exists>i. fmlookup (subscribers c) i = Some s \<and> sub_revision s < revision}"
    and "sorted (map sub_id ts)" and "snapshot_ok revision c ts"
proof -
  let ?m = "subscribers c"
  let ?ids = "sort (behind ?m revision (range_order E ?m))"
  have en: "enumerates ?m (range_order E ?m)" using assms(1) by (simp add: fair_order_def)
  have dom: "i \<in> fmdom' ?m" if "fmlookup ?m i = Some s" for i s
    using that by (rule fmdom'I)
  have ids: "set ?ids = {i. \<exists>s. fmlookup ?m i = Some s \<and> sub_revision s < revision}"
    using dom by (auto simp: behind_filter enumerates_set [OF en])
  have dist: "distinct ?ids" using enumerates_distinct [OF en] by (simp add: behind_filter)
  have ts: "ts = map (\<lambda>i. the (fmlookup ?m i)) ?ids" using assms(3) by (simp add: targets_def)
  show set_ts: "set ts = {s. \<exists>i. fmlookup ?m i = Some s \<and> sub_revision s < revision}"
    unfolding ts using ids by (auto simp: image_iff) (metis option.sel)
  have key: "sub_id (the (fmlookup ?m i)) = i" if "i \<in> set ?ids" for i
    using that ids assms(2) by (auto simp: subs_inv_def)
  have "map sub_id ts = ?ids" unfolding ts map_map comp_def by (rule map_idI) (rule key)
  then show "sorted (map sub_id ts)" by simp
  have "inj_on (\<lambda>i. sub_ref (the (fmlookup ?m i))) (set ?ids)"
    using ids assms(2) unfolding inj_on_def subs_inv_def by fastforce
  then have "distinct (map sub_ref ts)"
    unfolding ts using dist by (simp add: distinct_map comp_def)
  moreover have "s = t" if "t \<in> set ts" "fmlookup ?m i = Some s" "sub_ref s = sub_ref t" for i s t
  proof -
    from that(1) set_ts obtain j where j: "fmlookup ?m j = Some t" by auto
    with that(2,3) assms(2) have "i = j" unfolding subs_inv_def by blast
    with j that(2) show "s = t" by simp
  qed
  moreover have "sub_ref t < next_ref c" "sub_revision t < revision" if "t \<in> set ts" for t
    using that set_ts assms(2) by (auto simp: subs_inv_def)
  ultimately show "snapshot_ok revision c ts" by (auto simp: snapshot_ok_def)
qed

lemma settle_fields [simp]:
  "lastRevision (settle mode ts r c) = lastRevision c" "subscribers (settle mode ts r c) = subscribers c"
  "next_ref (settle mode ts r c) = next_ref c" "active (settle mode ts r c) = active c"
  by (simp_all add: settle_def)

lemma subs_inv_settle [simp]: "subs_inv (settle mode ts r c) \<longleftrightarrow> subs_inv c"
  by (simp add: subs_inv_def)

lemma evolves_settle [simp]: "evolves revision D c (settle mode ts r c') \<longleftrightarrow> evolves revision D c c'"
  by (simp add: evolves_def)

text \<open>A delivery that is neither refused nor stale.\<close>

definition accepts :: "bus_env \<Rightarrow> 'p bus_event \<Rightarrow> deliveryMode \<Rightarrow> core \<Rightarrow> bus_action list \<Rightarrow> bool" where
  "accepts E event mode c h \<longleftrightarrow>
     Revision event \<noteq> 0 \<and> bus_ctxErr E (h @ [AwaitToken]) = None
   \<and> (lastRevision c < Revision event \<or> lastRevision c = Revision event \<and> mode = deliveryReconciliation)"

lemma deliverActive_refused:
  assumes "deliverActive E event mode c h = (c', h', r)" and "\<not> accepts E event mode c h"
    and "respects_peers E" and "subs_inv c"
  shows "(h' = h \<and> c' = c \<or> h' = h @ [AwaitToken]) \<and> evolves (Revision event) {} c c' \<and> subs_inv c'"
proof -
  let ?c1 = "meanwhile E (h @ [AwaitToken]) c"
  have ev: "evolves (Revision event) {} c ?c1" "subs_inv ?c1"
    using meanwhile_evolves [OF assms(3,4)] by auto
  have "lastRevision ?c1 = lastRevision c" using ev(1) by (simp add: evolves_def)
  with assms(1,2) have "h' = h \<and> c' = c \<or> h' = h @ [AwaitToken] \<and> (c' = c \<or> c' = ?c1)"
    by (cases mode) (auto simp: deliverActive_def accepts_def Let_def split: if_splits option.splits)
  with ev assms(4) show ?thesis by (auto simp: evolves_refl)
qed

lemma deliverActive_spec:
  assumes "deliverActive E event mode c h = (c', h', r)" and "accepts E event mode c h"
    and "respects_peers E" and "fair_order E" and "subs_inv c"
  shows "\<exists>c1 ts ext. h' = (h @ [AwaitToken]) @ ext
    \<and> evolves (Revision event) {} c c1 \<and> subs_inv c1
    \<and> set ts = {s. \<exists>i. fmlookup (subscribers c1) i = Some s \<and> sub_revision s < Revision event}
    \<and> sorted (map sub_id ts)
    \<and> evolves (Revision event) (fst ` set (handled E (h @ [AwaitToken]) ext)) (c1\<lparr>lastRevision := Revision event\<rparr>) c'
    \<and> subs_inv c'
    \<and> prefix (called ext) (map (\<lambda>t. (sub_ref t, Revision event)) ts)
    \<and> (bus_live E (h @ [AwaitToken]) ext \<longrightarrow> called ext = map (\<lambda>t. (sub_ref t, Revision event)) ts)
    \<and> set (handled E (h @ [AwaitToken]) ext) \<subseteq> set (called ext)
    \<and> distinct (map fst (handled E (h @ [AwaitToken]) ext))
    \<and> (\<forall>x. is_err r x \<longleftrightarrow> (\<exists>e \<in> set (delivery_errors E (h @ [AwaitToken]) ext). errors_Is e x))
    \<and> (r = None \<longleftrightarrow> delivery_errors E (h @ [AwaitToken]) ext = [])
    \<and> (r = None \<longrightarrow> handled E (h @ [AwaitToken]) ext = map (\<lambda>t. (sub_ref t, Revision event)) ts)
    \<and> redacted r"
proof -
  let ?h1 = "h @ [AwaitToken]" let ?c1 = "meanwhile E ?h1 c" let ?v = "Revision event"
  let ?c2 = "?c1\<lparr>lastRevision := ?v\<rparr>"
  have ev: "evolves ?v {} c ?c1" "subs_inv ?c1"
    using meanwhile_evolves [OF assms(3,5)] by auto
  then have last: "lastRevision ?c1 = lastRevision c" by (simp add: evolves_def)
  with assms(2) have le: "lastRevision ?c1 \<le> ?v" by (auto simp: accepts_def)
  have c2: "(if lastRevision ?c1 < ?v then ?c1\<lparr>lastRevision := ?v\<rparr> else ?c1) = ?c2"
  proof (cases "lastRevision ?c1 < ?v")
    case False
    with le have "lastRevision ?c1 = ?v" by simp
    then show ?thesis by simp
  qed simp
  have inv2: "subs_inv ?c2" using ev(2) le by (fastforce simp: subs_inv_def)
  let ?ts = "targets E (subscribers ?c2) ?v"
  note ts = targets_spec [OF assms(4) inv2 refl, of ?v]
  obtain c3 h3 r3 where l: "deliver_loop E ?v ?ts ?c2 ?h1 None = (c3, h3, r3)" using prod_cases3 by blast
  have d: "c' = settle mode ?ts r3 c3" "h' = h3" "r = r3"
  proof -
    have stale: "(?v < lastRevision ?c1 \<or> ?v = lastRevision ?c1 \<and> mode = deliveryNotification) = False"
      using assms(2) last by (auto simp: accepts_def)
    have z: "(?v = 0) = False" "bus_ctxErr E ?h1 = None" using assms(2) by (auto simp: accepts_def)
    have "deliverActive E event mode c h = (settle mode ?ts r3 c3, h3, r3)"
      unfolding deliverActive_def Let_def z if_False option.case stale c2 l by simp
    with assms(1) show "c' = settle mode ?ts r3 c3" "h' = h3" "r = r3" by (metis prod.inject)+
  qed
  have "?v \<le> lastRevision ?c2" by simp
  from deliver_loop_spec [OF l ts(3) inv2 assms(3) this] obtain ext where ext:
    "h3 = ?h1 @ ext" "delivered E ?h1 ext ?v ?c2 c3"
    "prefix (called ext) (map (\<lambda>t. (sub_ref t, ?v)) ?ts)"
    "bus_live E ?h1 ext \<longrightarrow> called ext = map (\<lambda>t. (sub_ref t, ?v)) ?ts"
    "set (handled E ?h1 ext) \<subseteq> set (called ext)" "distinct (map fst (handled E ?h1 ext))"
    "\<forall>x. is_err r3 x \<longleftrightarrow> is_err None x \<or> (\<exists>e \<in> set (delivery_errors E ?h1 ext). errors_Is e x)"
    "r3 = None \<longleftrightarrow> (None :: goerr option) = None \<and> delivery_errors E ?h1 ext = []"
    "delivery_errors E ?h1 ext = [] \<longrightarrow> handled E ?h1 ext = map (\<lambda>t. (sub_ref t, ?v)) ?ts"
    "redacted None \<longrightarrow> redacted r3" by blast
  have "set ?ts = {s. \<exists>i. fmlookup (subscribers ?c1) i = Some s \<and> sub_revision s < ?v}"
    using ts(1) by simp
  moreover have "evolves ?v (fst ` set (handled E ?h1 ext)) ?c2 c'" "subs_inv c'"
    using ext(2) by (simp_all add: delivered_def d(1))
  ultimately show ?thesis
    using d(2,3) ev ts(2) ext(1,3-10)
    by (intro exI [of _ ?c1] exI [of _ ?ts] exI [of _ ext]) simp
qed

end
