(* ===== verification/EventBus_Properties.thy ===== *)
theory EventBus_Properties
  imports EventBus_Delivery
begin

text \<open>
  Properties of the event bus. \<open>bus_reach c log\<close>: the core \<open>c\<close> can be reached from a new bus by any
  sequence of bus operations, during which the handlers accepted the deliveries in \<open>log\<close> (subscriber
  object and event, in order).
\<close>

section \<open>Reachable buses\<close>

inductive bus_reach :: "core \<Rightarrow> (nat \<times> 'p bus_event) list \<Rightarrow> bool" where
  reach_new: "bus_reach newCore []"
| reach_peer: "bus_reach c log \<Longrightarrow> peer_step c c' \<Longrightarrow> bus_reach c' log"
| reach_start: "bus_reach c log \<Longrightarrow> start_enter ctx c = Inr c' \<Longrightarrow> bus_reach c' log"
| reach_started: "bus_reach c log \<Longrightarrow> bus_reach (fst (start_leave probeErr c)) log"
| reach_closed: "bus_reach c log \<Longrightarrow> active c = 0 \<Longrightarrow> bus_reach (close_finish c) log"
| reach_deliver: "bus_reach c log \<Longrightarrow> respects_peers E \<Longrightarrow> fair_order E \<Longrightarrow>
    deliverActive E event mode c h = (c', h @ ext, r) \<Longrightarrow>
    bus_reach c' (log @ map (\<lambda>p. (fst p, event)) (handled E h ext))"

definition log_inv :: "core \<Rightarrow> (nat \<times> 'p bus_event) list \<Rightarrow> bool" where
  "log_inv c log \<longleftrightarrow>
     (\<forall>(r, e) \<in> set log. r < next_ref c \<and> Revision e \<le> lastRevision c
        \<and> (\<forall>i s. fmlookup (subscribers c) i = Some s \<and> sub_ref s = r \<longrightarrow> Revision e \<le> sub_revision s))"

definition increasing :: "(nat \<times> 'p bus_event) list \<Rightarrow> bool" where
  "increasing log \<longleftrightarrow>
     (\<forall>r. sorted_wrt (<) (map (\<lambda>p. Revision (snd p)) (filter (\<lambda>p. fst p = r) log)))"

lemma log_inv_evolves:
  assumes "log_inv c log" and "evolves v D c c'" and "lastRevision c \<le> v"
  shows "log_inv c' log"
  unfolding log_inv_def
proof clarify
  fix r e assume "(r, e) \<in> set log"
  with assms(1) have p: "r < next_ref c" "Revision e \<le> lastRevision c"
    "\<And>i s. fmlookup (subscribers c) i = Some s \<Longrightarrow> sub_ref s = r \<Longrightarrow> Revision e \<le> sub_revision s"
    by (auto simp: log_inv_def)
  have "Revision e \<le> sub_revision s'" if s': "fmlookup (subscribers c') i = Some s'" "sub_ref s' = r" for i s'
  proof -
    from s' p(1) assms(2) obtain s where s: "fmlookup (subscribers c) i = Some s"
      "s' = (if sub_ref s \<in> D then s\<lparr>sub_revision := v\<rparr> else s)"
      unfolding evolves_def by (metis linorder_not_less)
    with s'(2) have "sub_ref s = r" by (auto split: if_splits)
    with s p(2) p(3) [OF s(1)] assms(3) show ?thesis by (auto intro: order_trans)
  qed
  with p(1,2) assms(2) show "r < next_ref c' \<and> Revision e \<le> lastRevision c'
      \<and> (\<forall>i s. fmlookup (subscribers c') i = Some s \<and> sub_ref s = r \<longrightarrow> Revision e \<le> sub_revision s)"
    by (auto simp: evolves_def)
qed

lemma increasing_append:
  assumes "increasing log" and "distinct (map fst new)"
    and "\<And>r e e'. (r, e) \<in> set log \<Longrightarrow> (r, e') \<in> set new \<Longrightarrow> Revision e < Revision e'"
  shows "increasing (log @ new)"
  unfolding increasing_def
proof
  fix r
  have one: "length (filter (\<lambda>p. fst p = r) new) \<le> 1"
    using assms(2)
  proof (induction new)
    case (Cons a new)
    then show ?case
      by (cases "fst a = r") (auto simp: filter_empty_conv image_iff)
  qed simp
  then have "sorted_wrt (<) (map (\<lambda>p. Revision (snd p)) (filter (\<lambda>p. fst p = r) new))"
    by (cases "filter (\<lambda>p. fst p = r) new") auto
  then show "sorted_wrt (<) (map (\<lambda>p. Revision (snd p)) (filter (\<lambda>p. fst p = r) (log @ new)))"
    using assms(1,3) by (auto simp: increasing_def sorted_wrt_append)
qed

lemma deliver_log:
  assumes "subs_inv c" and "log_inv c log" and "increasing log" and "respects_peers E" and "fair_order E"
    and "deliverActive E event mode c h = (c', h @ ext, r)"
  shows "subs_inv c' \<and> log_inv c' (log @ map (\<lambda>p. (fst p, event)) (handled E h ext))
    \<and> increasing (log @ map (\<lambda>p. (fst p, event)) (handled E h ext))
    \<and> lastRevision c \<le> lastRevision c'"
proof (cases "accepts E event mode c h")
  case False
  have d: "ext = [] \<and> c' = c \<or> ext = [AwaitToken]" "evolves (Revision event) {} c c'" "subs_inv c'"
    using deliverActive_refused [OF assms(6) False assms(4,1)] by auto
  then have "handled E h ext = []" by auto
  moreover have "evolves (lastRevision c) {} c c'" using d(2) by (simp add: evolves_def)
  then have "log_inv c' log" using log_inv_evolves [OF assms(2)] by blast
  ultimately show ?thesis using d assms(3) by (simp add: evolves_def)
next
  case True
  let ?h1 = "h @ [AwaitToken]" and ?v = "Revision event"
  obtain c1 ts ext' where e: "h @ ext = ?h1 @ ext'" "evolves ?v {} c c1" "subs_inv c1"
    "set ts = {s. \<exists>i. fmlookup (subscribers c1) i = Some s \<and> sub_revision s < ?v}"
    "evolves ?v (fst ` set (handled E ?h1 ext')) (c1\<lparr>lastRevision := ?v\<rparr>) c'" "subs_inv c'"
    "prefix (called ext') (map (\<lambda>t. (sub_ref t, ?v)) ts)"
    "set (handled E ?h1 ext') \<subseteq> set (called ext')" "distinct (map fst (handled E ?h1 ext'))"
    using deliverActive_spec [OF assms(6) True assms(4,5,1)] by blast
  have ext: "ext = AwaitToken # ext'" using e(1) by simp
  have last: "lastRevision c \<le> ?v" "lastRevision c1 = lastRevision c"
    using True e(2) by (auto simp: accepts_def evolves_def)
  let ?new = "map (\<lambda>p. (fst p, event)) (handled E ?h1 ext')"
  have new: "handled E h ext = handled E ?h1 ext'" by (simp add: ext)
  have l1: "log_inv c1 log" by (rule log_inv_evolves [OF assms(2) e(2) last(1)])
  have l2: "log_inv (c1\<lparr>lastRevision := ?v\<rparr>) log"
    using l1 last unfolding log_inv_def by (auto intro: order_trans)
  have t: "\<exists>s \<in> set ts. sub_ref s = r" if "r \<in> fst ` set (handled E ?h1 ext')" for r
    using that e(8) set_mono_prefix [OF e(7)] by fastforce
  have reg: "r < next_ref c1 \<and> (\<forall>(r', x) \<in> set log. r' = r \<longrightarrow> Revision x < ?v)"
    if "r \<in> fst ` set (handled E ?h1 ext')" for r
  proof -
    from t [OF that] obtain s where "s \<in> set ts" and sr: "sub_ref s = r" by blast
    with e(4) obtain i where s: "fmlookup (subscribers c1) i = Some s" "sub_revision s < ?v" by blast
    have "r < next_ref c1" using s(1) sr e(3) unfolding subs_inv_def by blast
    moreover have "Revision x < ?v" if "(r, x) \<in> set log" for x
    proof -
      have "Revision x \<le> sub_revision s" using l1 that s(1) sr unfolding log_inv_def by blast
      from this s(2) show ?thesis by (rule order_le_less_trans)
    qed
    ultimately show ?thesis by auto
  qed
  have "log_inv c' log" by (rule log_inv_evolves [OF l2 e(5)]) simp
  moreover have "log_inv c' ?new"
    unfolding log_inv_def
  proof clarify
    fix r x assume "(r, x) \<in> set ?new"
    then have r: "r \<in> fst ` set (handled E ?h1 ext')" "x = event" by auto
    have "?v \<le> sub_revision s'" if s': "fmlookup (subscribers c') i = Some s'" "sub_ref s' = r" for i s'
    proof -
      consider "next_ref c1 \<le> sub_ref s'"
        | s where "s' = (if sub_ref s \<in> fst ` set (handled E ?h1 ext') then s\<lparr>sub_revision := ?v\<rparr> else s)"
        using e(5) s'(1) unfolding evolves_def by auto
      then show ?thesis
      proof cases
        case 1
        with reg [OF r(1)] s'(2) show ?thesis by simp
      next
        case 2
        with s'(2) r(1) show ?thesis by (auto split: if_splits)
      qed
    qed
    with reg [OF r(1)] e(5) r(2) show "r < next_ref c' \<and> Revision x \<le> lastRevision c'
      \<and> (\<forall>i s. fmlookup (subscribers c') i = Some s \<and> sub_ref s = r \<longrightarrow> Revision x \<le> sub_revision s)"
      by (auto simp: evolves_def)
  qed
  ultimately have "log_inv c' (log @ ?new)" by (auto simp: log_inv_def)
  moreover have "increasing (log @ ?new)"
  proof (rule increasing_append [OF assms(3)])
    show "distinct (map fst ?new)" using e(9) by (simp add: comp_def)
    fix r x x' assume "(r, x) \<in> set log" "(r, x') \<in> set ?new"
    then show "Revision x < Revision x'" using reg by force
  qed
  moreover have "lastRevision c \<le> lastRevision c'" using e(5) last by (simp add: evolves_def)
  ultimately show ?thesis using e(6) new by simp
qed

lemma bus_reach_inv: "bus_reach c log \<Longrightarrow> subs_inv c \<and> log_inv c log \<and> increasing log"
proof (induction rule: bus_reach.induct)
  case reach_new
  show ?case by (simp add: newCore_def subs_inv_def log_inv_def increasing_def)
next
  case (reach_peer c log c')
  with peer_evolves [of c c' "lastRevision c"] log_inv_evolves [of c log "lastRevision c" "{}" c']
  show ?case by simp
next
  case (reach_start c log ctx c')
  then show ?case
    by (auto simp: start_enter_def subs_inv_def log_inv_def split: ctx_arg.splits option.splits if_splits)
next
  case (reach_started c log probeErr)
  then show ?case by (auto simp: start_leave_def Let_def subs_inv_def log_inv_def)
next
  case (reach_closed c log)
  then show ?case by (auto simp: close_finish_def subs_inv_def log_inv_def)
next
  case (reach_deliver c log E event mode h c' ext r)
  with deliver_log [of c log E event mode h c' ext r] show ?case by blast
qed

lemma delivery_converges:
  assumes "subs_inv c" and "respects_peers E" and "fair_order E"
    and "accepts E event deliveryReconciliation c h"
    and "deliverActive E event deliveryReconciliation c h = (c', h', None)"
  shows "lastRevision c' = Revision event
    \<and> (\<forall>i s. fmlookup (subscribers c') i = Some s \<longrightarrow>
         sub_revision s = Revision event \<or> next_ref c \<le> sub_ref s)
    \<and> deliveryErr c' = None"
proof -
  note inv = assms(1)
  let ?h1 = "h @ [AwaitToken]" and ?v = "Revision event"
  obtain c1 ts ext where e: "evolves ?v {} c c1"
    "set ts = {s. \<exists>i. fmlookup (subscribers c1) i = Some s \<and> sub_revision s < ?v}"
    "evolves ?v (fst ` set (handled E ?h1 ext)) (c1\<lparr>lastRevision := ?v\<rparr>) c'" "subs_inv c'"
    "handled E ?h1 ext = map (\<lambda>t. (sub_ref t, ?v)) ts"
    using deliverActive_spec [OF assms(5,4,2,3) inv] by blast
  have last: "lastRevision c' = ?v" using e(3) by (simp add: evolves_def)
  have "sub_revision s' = ?v \<or> next_ref c \<le> sub_ref s'" if s': "fmlookup (subscribers c') i = Some s'" for i s'
  proof (cases "next_ref c1 \<le> sub_ref s'")
    case True
    with e(1) show ?thesis by (auto simp: evolves_def)
  next
    case False
    then obtain s where s: "fmlookup (subscribers c1) i = Some s"
      "s' = (if sub_ref s \<in> fst ` set (handled E ?h1 ext) then s\<lparr>sub_revision := ?v\<rparr> else s)"
      using e(3) s' by (auto simp: evolves_def)
    have "sub_revision s' \<le> ?v" using e(4) s' last by (auto simp: subs_inv_def)
    moreover have "sub_ref s \<in> fst ` set (handled E ?h1 ext)" if "sub_revision s < ?v"
    proof -
      have "s \<in> set ts" using that s(1) e(2) by auto
      then show ?thesis unfolding e(5) by force
    qed
    ultimately have "sub_revision s' = ?v" using s(2) by (cases "sub_revision s < ?v") auto
    then show ?thesis by blast
  qed
  moreover have "deliveryErr c' = None"
  proof -
    obtain ts c3 where "c' = settle deliveryReconciliation ts None c3"
      using assms(4,5) meanwhile_evolves [OF assms(2) inv, of 0 ?h1]
      by (auto simp: evolves_def deliverActive_def accepts_def Let_def split: if_splits prod.splits)
    then show ?thesis by (simp add: settle_def)
  qed
  ultimately show ?thesis using last by blast
qed

section \<open>Properties\<close>


text \<open>
  Error isolation: an accepted delivery calls every subscriber that is behind the event's
  revision, in ascending id order, while the context lives; a handler that fails or panics does not
  keep the others from being called. The result matches exactly the failures seen, is nil exactly when
  there were none, and exposes no handler error.
\<close>

theorem delivery_isolates_failures:
  assumes "bus_reach c log" and "respects_peers E" and "fair_order E" and "accepts E event mode c h"
    and "deliverActive E event mode c h = (c', h', r)"
  shows "\<exists>(c1 :: core) (ts :: subscriber list) ext. h' = (h @ [AwaitToken]) @ ext
    \<and> (\<forall>i s. fmlookup (subscribers c1) i = Some s \<longrightarrow>
         fmlookup (subscribers c) i = Some s \<or> next_ref c \<le> sub_ref s)
    \<and> set ts = {s. \<exists>i. fmlookup (subscribers c1) i = Some s \<and> sub_revision s < Revision event}
    \<and> sorted (map sub_id ts)
    \<and> prefix (called ext) (map (\<lambda>t. (sub_ref t, Revision event)) ts)
    \<and> (bus_live E (h @ [AwaitToken]) ext \<longrightarrow> called ext = map (\<lambda>t. (sub_ref t, Revision event)) ts)
    \<and> (\<forall>x. is_err r x \<longleftrightarrow> (\<exists>e \<in> set (delivery_errors E (h @ [AwaitToken]) ext). errors_Is e x))
    \<and> (r = None \<longleftrightarrow> delivery_errors E (h @ [AwaitToken]) ext = [])
    \<and> redacted r \<and> lastRevision c' = Revision event"
proof -
  have inv: "subs_inv c" using bus_reach_inv [OF assms(1)] by blast
  let ?h1 = "h @ [AwaitToken]"
  obtain c1 ts ext where e: "h' = ?h1 @ ext" "evolves (Revision event) {} c c1"
    "set ts = {s. \<exists>i. fmlookup (subscribers c1) i = Some s \<and> sub_revision s < Revision event}"
    "sorted (map sub_id ts)"
    "evolves (Revision event) (fst ` set (handled E ?h1 ext)) (c1\<lparr>lastRevision := Revision event\<rparr>) c'"
    "prefix (called ext) (map (\<lambda>t. (sub_ref t, Revision event)) ts)"
    "bus_live E ?h1 ext \<longrightarrow> called ext = map (\<lambda>t. (sub_ref t, Revision event)) ts"
    "\<forall>x. is_err r x \<longleftrightarrow> (\<exists>e \<in> set (delivery_errors E ?h1 ext). errors_Is e x)"
    "r = None \<longleftrightarrow> delivery_errors E ?h1 ext = []" "redacted r"
    using deliverActive_spec [OF assms(5,4,2,3) inv] by blast
  have old: "\<forall>i s. fmlookup (subscribers c1) i = Some s \<longrightarrow>
         fmlookup (subscribers c) i = Some s \<or> next_ref c \<le> sub_ref s"
    using e(2) by (auto simp: evolves_def)
  have last: "lastRevision c' = Revision event" using e(5) by (simp add: evolves_def)
  show ?thesis
    by (rule exI [of _ c1], rule exI [of _ ts], rule exI [of _ ext], intro conjI) (fact e old last)+
qed

text \<open>
  C8. Reconciliation converges: after a reconciliation delivery of the authoritative revision that
  returns nil, every subscriber that was registered when it began, however often it failed or missed a
  notification before, is at that revision, and the bus is not degraded.
\<close>

theorem reconciliation_converges:
  assumes "bus_reach c log" and "respects_peers E" and "fair_order E"
    and "accepts E event deliveryReconciliation c h"
    and "deliverActive E event deliveryReconciliation c h = (c', h', None)"
  shows "lastRevision c' = Revision event
    \<and> (\<forall>i s. fmlookup (subscribers c') i = Some s \<longrightarrow>
         sub_revision s = Revision event \<or> next_ref c \<le> sub_ref s)
    \<and> deliveryErr c' = None"
  using delivery_converges [OF _ assms(2-5)] bus_reach_inv [OF assms(1)] by blast

section \<open>Closing\<close>

text \<open>The core and the history after \<open>n\<close> rounds of waiting for the active operations.\<close>

fun drain_state :: "bus_env \<Rightarrow> core \<Rightarrow> bus_action list \<Rightarrow> nat \<Rightarrow> core \<times> bus_action list" where
  "drain_state E c h 0 = (c, h)"
| "drain_state E c h (Suc n) = drain_state E (meanwhile E h c) (h @ [AwaitZero]) n"

definition drain_ends :: "bus_env \<Rightarrow> core \<Rightarrow> bus_action list \<Rightarrow> nat \<Rightarrow> bool" where
  "drain_ends E c h n \<longleftrightarrow>
     (case drain_state E c h n of (c1, h1) \<Rightarrow>
        active (meanwhile E h1 c1) = 0 \<or> bus_ctxErr E (h1 @ [AwaitZero]) \<noteq> None)"

lemma close_drain_returns: "drain_ends E c h n \<Longrightarrow> close_drain E c h \<noteq> None"
proof (induction n arbitrary: c h)
  case 0
  then show ?case by (subst close_drain.simps) (auto simp: drain_ends_def Let_def)
next
  case (Suc n)
  then have "close_drain E (meanwhile E h c) (h @ [AwaitZero]) \<noteq> None" by (simp add: drain_ends_def)
  then show ?case by (subst close_drain.simps) (auto simp: Let_def split: option.splits)
qed

definition closed_bus :: "core \<Rightarrow> bool" where
  "closed_bus c \<longleftrightarrow> core_closed c \<and> \<not> core_started c \<and> subscribers c = fmempty \<and> active c = 0"

lemma close_drain_closes:
  assumes "close_drain E c h = Some y"
  shows "snd (snd y) = None \<longrightarrow> closed_bus (fst y)"
proof (rule close_drain.raw_induct [OF _ assms])
  fix rec E c h and y :: "core \<times> bus_action list \<times> goerr option"
  assume "\<And>E c h y. rec E c h = Some y \<Longrightarrow> snd (snd y) = None \<longrightarrow> closed_bus (fst y)"
    and "(let c1 = meanwhile E h c in
      if active c1 = 0 then Some (close_finish c1, h, None)
      else
        (let h1 = h @ [AwaitZero] in
         case bus_ctxErr E h1 of
           Some e \<Rightarrow> Some (c1, h1, Some (operationError OperationClose (bus_sentinel Bus_ErrClosing)
                                          (Some (Sentinel e))))
         | None \<Rightarrow> rec E c1 h1)) = Some y"
  then show "snd (snd y) = None \<longrightarrow> closed_bus (fst y)"
    by (auto simp: Let_def closed_bus_def close_finish_def split: if_splits option.splits)
qed

text \<open>
  \<open>Close\<close> returns as soon as no operation is active or its context ends; when it returns nil the
  bus is closed with no subscriber left, and from then on every operation is refused with
  \<open>ErrClosing\<close> and a further \<open>Close\<close> returns nil at once.
\<close>

theorem close_returns_and_refuses:
  assumes "\<not> core_closed c"
    and "bus_ctxErr E (h @ [AwaitStart]) = None" and "bus_ctxErr E (h @ [AwaitStart, AwaitRun]) = None"
    and "drain_ends E (meanwhile E (h @ [AwaitStart]) (close_enter c)) (h @ [AwaitStart, AwaitRun]) n"
  shows "\<exists>c' h' r. close_core E (Context live) c h = Some (c', h', r)
    \<and> (r = None \<longrightarrow> core_closed c' \<and> subscribers c' = fmempty \<and> active c' = 0
        \<and> (\<forall>op. \<exists>e. beginActive (Context None) op c' = Inl e \<and> errors_Is e (Bus_class Bus_ErrClosing))
        \<and> (\<forall>handler. \<exists>e. subscribe (Some handler) c' = Inl e \<and> errors_Is e (Bus_class Bus_ErrClosing))
        \<and> (\<exists>e. start_enter (Context None) c' = Inl e \<and> errors_Is e (Bus_class Bus_ErrClosing))
        \<and> (\<exists>e. core_beginRun (Context None) c' = Inl e \<and> errors_Is e (Bus_class Bus_ErrClosing))
        \<and> (\<forall>E' h2 live'. close_core E' (Context live') c' h2 = Some (c', h2, None)))"
proof -
  have d: "close_core E (Context live) c h =
      close_drain E (meanwhile E (h @ [AwaitStart]) (close_enter c)) (h @ [AwaitStart, AwaitRun])"
    using assms(1-3) by (simp add: close_core_def await_lifecycle_def Let_def)
  with close_drain_returns [OF assms(4)] obtain c' h' r where
    r: "close_core E (Context live) c h = Some (c', h', r)" by auto
  have "closed_bus c'" if "r = None" using close_drain_closes [OF r [unfolded d]] that by simp
  then show ?thesis
    using r
    by (intro exI [of _ c'] exI [of _ h'] exI [of _ r])
      (simp add: closed_bus_def beginActive_def subscribe_def start_enter_def core_beginRun_def close_core_def
        errors_Is_operationError)
qed

section \<open>Concrete runs\<close>

text \<open>
  A bus with two subscribers; the first subscriber's handler panics on the notification of revision 5 and
  accepts it on reconciliation.
\<close>

definition demo_bus_env :: "bool \<Rightarrow> bus_env" where
  "demo_bus_env panics =
     \<lparr>handler_outcome = (\<lambda>h. if panics \<and> last h = HandlerCall 0 5 then Panicked else Returned None),
      bus_ctxErr = (\<lambda>h. None), meanwhile = (\<lambda>h c. c), range_order = (\<lambda>m. sorted_list_of_fset (fmdom m))\<rparr>"

lemma demo_env_simps [simp]:
  "handler_outcome (demo_bus_env p) h = (if p \<and> last h = HandlerCall 0 5 then Panicked else Returned None)"
  "bus_ctxErr (demo_bus_env p) h = None" "meanwhile (demo_bus_env p) h c = c"
  by (simp_all add: demo_bus_env_def)

lemma demo_bus_env_ok: "respects_peers (demo_bus_env p)" "fair_order (demo_bus_env p)"
  unfolding fair_order_def
  by (simp_all add: respects_peers_def)
    (auto simp: demo_bus_env_def sorted_list_of_fset.rep_eq fmdom'_alt_def intro!: enumeratesI)

definition demo_sub :: "nat \<Rightarrow> 64 word \<Rightarrow> subscriber" where
  "demo_sub n v = \<lparr>sub_id = of_nat (Suc n), sub_handler = n, sub_revision = v, sub_ref = n\<rparr>"

definition demo_bus :: core where
  "demo_bus = newCore\<lparr>core_startAttempted := True, core_started := True, nextSubscriber := 2,
     subscribers := fmupd 2 (demo_sub 1 0) (fmupd 1 (demo_sub 0 0) fmempty), next_ref := 2\<rparr>"

lemma demo_bus_reach: "bus_reach demo_bus []"
proof -
  let ?c1 = "newCore\<lparr>core_startAttempted := True, core_startDone := False\<rparr>"
  let ?c2 = "fst (start_leave None ?c1)"
  let ?c3 = "?c2\<lparr>nextSubscriber := 1, subscribers := fmupd 1 (demo_sub 0 0) fmempty, next_ref := 1\<rparr>"
  have "start_enter (Context None) newCore = Inr ?c1" by (simp add: start_enter_def newCore_def)
  from reach_started [OF reach_start [OF reach_new this]] have r: "bus_reach ?c2 []" .
  have "subscribe (Some 0) ?c2 = Inr (?c3, 1)"
    by (simp add: subscribe_def start_leave_def newCore_def Let_def demo_sub_def)
  from reach_peer [OF r peer_subscribe [OF this]] have r: "bus_reach ?c3 []" .
  have "subscribe (Some 1) ?c3 = Inr (demo_bus, 2)"
    by (simp add: subscribe_def start_leave_def newCore_def Let_def demo_sub_def demo_bus_def)
  from reach_peer [OF r peer_subscribe [OF this]] show ?thesis .
qed

definition demo_event :: "string bus_event" where
  "demo_event = \<lparr>Revision = 5, Payload = ''state''\<rparr>"

lemma two_le_one: "\<not> (2 :: 64 word) \<le> 1"
  by (simp add: word_le_nat_alt)

lemma demo_targets:
  "targets (demo_bus_env p) (fmupd 2 (demo_sub 1 a) (fmupd 1 (demo_sub 0 b) fmempty)) 5 =
     (if b < 5 then [demo_sub 0 b] else []) @ (if a < 5 then [demo_sub 1 a] else [])"
  by (simp add: targets_def demo_bus_env_def sorted_list_of_fset.rep_eq demo_sub_def two_le_one)

lemma demo_targets_0: "targets (demo_bus_env p) (subscribers demo_bus) 5 = [demo_sub 0 0, demo_sub 1 0]"
  using demo_targets [of p 0 0] by (simp add: demo_bus_def)

lemma demo_deliver:
  assumes "lastRevision c < 5 \<or> lastRevision c = 5 \<and> mode = deliveryReconciliation"
    and "targets (demo_bus_env p) (subscribers c) 5 = ts"
  shows "deliverActive (demo_bus_env p) demo_event mode c h =
      (let (c3, h3, result) = deliver_loop (demo_bus_env p) 5 ts (c\<lparr>lastRevision := 5\<rparr>) (h @ [AwaitToken]) None
       in (settle mode ts result c3, h3, result))"
proof -
  have same: "c\<lparr>lastRevision := 5\<rparr> = c" if "lastRevision c = 5" using that by (cases c) simp
  from assms show ?thesis by (auto simp: deliverActive_def demo_event_def Let_def same)
qed

lemma demo_delivery:
  "\<exists>c' r. deliverActive (demo_bus_env True) demo_event deliveryNotification demo_bus [] =
     (c', [] @ [AwaitToken, PollDelivery, HandlerCall 0 5, PollDelivery, HandlerCall 1 5], r)
   \<and> subscribers c' = fmupd 2 (demo_sub 1 5) (fmupd 1 (demo_sub 0 0) fmempty) \<and> lastRevision c' = 5 \<and> next_ref c' = 2"
proof -
  have l: "lastRevision demo_bus < 5" by (simp add: demo_bus_def newCore_def)
  show ?thesis
    unfolding demo_deliver [OF disjI1 [OF l] demo_targets_0]
    by (simp add: demo_bus_def newCore_def Let_def callHandler_def mark_delivered_def demo_sub_def)
qed

lemma demo_delivered_reach:
  "\<exists>c. bus_reach c [(1, demo_event)] \<and> subscribers c = fmupd 2 (demo_sub 1 5) (fmupd 1 (demo_sub 0 0) fmempty)
     \<and> lastRevision c = 5 \<and> next_ref c = 2"
proof -
  obtain c' r where d: "deliverActive (demo_bus_env True) demo_event deliveryNotification demo_bus [] =
     (c', [] @ [AwaitToken, PollDelivery, HandlerCall 0 5, PollDelivery, HandlerCall 1 5], r)"
    and c': "subscribers c' = fmupd 2 (demo_sub 1 5) (fmupd 1 (demo_sub 0 0) fmempty)" "lastRevision c' = 5"
      "next_ref c' = 2"
    using demo_delivery by blast
  from c' reach_deliver [OF demo_bus_reach demo_bus_env_ok d] show ?thesis
    by (intro exI [of _ c']) (simp add: callHandler_def)
qed


lemma delivery_isolates_failures_witness:
  "\<exists>c' h' r. deliverActive (demo_bus_env True) demo_event deliveryNotification demo_bus [] = (c', h', r)
     \<and> HandlerCall 1 5 \<in> set h' \<and> r \<noteq> None \<and> redacted r"
proof -
  obtain c' r where d: "deliverActive (demo_bus_env True) demo_event deliveryNotification demo_bus [] =
     (c', [] @ [AwaitToken, PollDelivery, HandlerCall 0 5, PollDelivery, HandlerCall 1 5], r)"
    using demo_delivery by blast
  have "lastRevision demo_bus < 5" by (simp add: demo_bus_def newCore_def)
  then have a: "accepts (demo_bus_env True) demo_event deliveryNotification demo_bus []"
    by (simp add: accepts_def demo_event_def)
  from delivery_isolates_failures [OF demo_bus_reach demo_bus_env_ok a d] obtain ext where
    "[] @ [AwaitToken, PollDelivery, HandlerCall 0 5, PollDelivery, HandlerCall 1 5] = ([] @ [AwaitToken]) @ ext"
    "r = None \<longleftrightarrow> delivery_errors (demo_bus_env True) ([] @ [AwaitToken]) ext = []" "redacted r" by blast
  with d show ?thesis by (auto simp: callHandler_def simp del: redacted_simps)
qed

lemma reconciliation_converges_witness:
  "\<exists>c c' h'. bus_reach c [(1, demo_event)] \<and> fmlookup (subscribers c) 1 = Some (demo_sub 0 0)
     \<and> deliverActive (demo_bus_env False) demo_event deliveryReconciliation c [] = (c', h', None)
     \<and> lastRevision c' = 5 \<and> deliveryErr c' = None"
proof -
  obtain c where c: "bus_reach c [(1, demo_event)]" "lastRevision c = 5"
    "subscribers c = fmupd 2 (demo_sub 1 5) (fmupd 1 (demo_sub 0 0) fmempty)"
    using demo_delivered_reach by blast
  have t: "targets (demo_bus_env False) (subscribers c) 5 = [demo_sub 0 0]"
    using demo_targets [of False 5 0] c(3) by simp
  have a: "accepts (demo_bus_env False) demo_event deliveryReconciliation c []"
    using c(2) by (simp add: accepts_def demo_event_def)
  have "lastRevision c < 5 \<or> lastRevision c = 5 \<and> deliveryReconciliation = deliveryReconciliation"
    using c(2) by simp
  from demo_deliver [OF this t] obtain c' h' where
    d: "deliverActive (demo_bus_env False) demo_event deliveryReconciliation c [] = (c', h', None)"
    by (simp add: Let_def callHandler_def)
  from reconciliation_converges [OF c(1) demo_bus_env_ok a d] c d show ?thesis
    by (auto simp: demo_event_def)
qed

lemma close_returns_and_refuses_witness:
  "\<exists>c' h' r. close_core (demo_bus_env False) (Context None) demo_bus [] = Some (c', h', r)"
proof -
  have "drain_ends (demo_bus_env False) (meanwhile (demo_bus_env False) ([] @ [AwaitStart]) (close_enter demo_bus))
      ([] @ [AwaitStart, AwaitRun]) 0"
    by (simp add: drain_ends_def close_enter_def demo_bus_def newCore_def)
  from close_returns_and_refuses [OF _ _ _ this, of None] show ?thesis
    by (auto simp: demo_bus_def newCore_def)
qed

definition cancelled_env :: bus_env where
  "cancelled_env = (demo_bus_env False)\<lparr>bus_ctxErr := (\<lambda>h. if last h = PollDelivery then Some Canceled else None)\<rparr>"

text \<open>
  A reconciliation whose context ends before the first handler is called clears the degradation of an
  earlier failed delivery, although the subscriber that failed is still behind.
\<close>

lemma cancelled_reconciliation_clears_degradation:
  "let c = demo_bus\<lparr>lastRevision := 5, deliveryErr := Some (bus_sentinel Bus_ErrSubscriberFailed)\<rparr>;
       (c', h', r) = deliverActive cancelled_env demo_event deliveryReconciliation c []
   in inspection (Context None) OperationReady c \<noteq> None \<and> inspection (Context None) OperationReady c' = None
      \<and> fmlookup (subscribers c') 1 = Some (demo_sub 0 0)"
proof -
  have "range_order cancelled_env = range_order (demo_bus_env False)" by (simp add: cancelled_env_def)
  then have "targets cancelled_env = targets (demo_bus_env False)"
    by (intro ext) (simp add: targets_def)
  then have "targets cancelled_env (subscribers demo_bus) 5 = [demo_sub 0 0, demo_sub 1 0]"
    using demo_targets_0 by simp
  moreover have "bus_ctxErr cancelled_env h = (if last h = PollDelivery then Some Canceled else None)"
    "meanwhile cancelled_env h c = c" for h c
    by (simp_all add: cancelled_env_def)
  ultimately show ?thesis
    by (simp add: deliverActive_def demo_event_def Let_def settle_def inspection_def beginActive_def
        demo_bus_def newCore_def errors_Is_operationError demo_sub_def)
qed

end
