(* ===== verification/EventBus_Providers.thy ===== *)
theory EventBus_Providers
  imports EventBus_Properties
begin

text \<open>
  The two providers of the event bus: \<open>mss-boot/runtime/eventbus/memory.go\<close> and \<open>redis.go\<close>, with the
  reconciler of \<open>event.go\<close>. A nil bus is \<open>None\<close>. The payload codec, the lease of the Redis scope and
  the authoritative source belong to the caller and to other packages: their results are arguments
  (\<open>provider\<close>, \<open>latest\<close>), and \<open>replicas\<close> is what other replicas write to the shared key between the
  read and the write of \<open>storeLatest\<close>. The JSON wire form is kept as the value it encodes together with
  the length of its encoding, which is what \<open>decode\<close> checks first.
\<close>

section \<open>Reconciler\<close>

datatype 'p latest = LatestPanicked | LatestReturned "'p bus_event" bool "goerr option"

text \<open>
  \<open>ctx\<close> is the context at entry, \<open>after\<close> its error when the source has returned; \<open>source\<close> tells whether
  the reconciler and its source are non-nil.
\<close>

definition Reconcile :: "ctx_arg \<Rightarrow> bool \<Rightarrow> 'p latest \<Rightarrow> sentinel option \<Rightarrow> 64 word
    \<Rightarrow> goerr + 'p bus_event option" where
  "Reconcile ctx source latest after observed =
     (case ctx of
        NilContext \<Rightarrow> Inl (operationError OperationReconcile (bus_sentinel Bus_ErrContextRequired)
                             (Some (bus_sentinel Bus_ErrContextRequired)))
      | Context (Some e) \<Rightarrow> Inl (operationError OperationReconcile (bus_sentinel Bus_ErrReconcileFailed)
                                   (Some (Sentinel e)))
      | Context None \<Rightarrow>
          if \<not> source then
            Inl (operationError OperationReconcile (bus_sentinel Bus_ErrInvalidReconciler)
                   (Some (bus_sentinel Bus_ErrInvalidReconciler)))
          else
            (case latest of
               LatestPanicked \<Rightarrow>
                 Inl (operationError OperationReconcile (bus_sentinel Bus_ErrReconcilerPanicked)
                        (Some (bus_sentinel Bus_ErrReconcilerPanicked)))
             | LatestReturned event found sourceErr \<Rightarrow>
                 (case sourceErr of
                    Some e \<Rightarrow> Inl (operationError OperationReconcile (bus_sentinel Bus_ErrReconcileFailed) (Some e))
                  | None \<Rightarrow>
                      (case after of
                         Some e \<Rightarrow> Inl (operationError OperationReconcile (bus_sentinel Bus_ErrReconcileFailed)
                                          (Some (Sentinel e)))
                       | None \<Rightarrow>
                           if \<not> found then Inr None
                           else if Revision event = 0 then
                             Inl (operationError OperationReconcile (bus_sentinel Bus_ErrReconcileFailed)
                                    (Some (bus_sentinel Bus_ErrInvalidEvent)))
                           else if Revision event < observed then Inr None
                           else Inr (Some event)))))"

section \<open>Memory\<close>

definition nil_bus :: "operation \<Rightarrow> goerr" where
  "nil_bus op = operationError op (bus_sentinel Bus_ErrInvalidBus) (Some (bus_sentinel Bus_ErrInvalidBus))"

definition Memory_Start :: "ctx_arg \<Rightarrow> (core \<Rightarrow> core) \<Rightarrow> core option \<Rightarrow> core option \<times> goerr option" where
  "Memory_Start ctx during b =
     (case b of None \<Rightarrow> (None, Some (nil_bus OperationStart))
      | Some c \<Rightarrow> map_prod Some id (start ctx None during c))"

definition Memory_Subscribe :: "nat option \<Rightarrow> core option \<Rightarrow> goerr + core \<times> 64 word" where
  "Memory_Subscribe handler b =
     (case b of None \<Rightarrow> Inl (nil_bus OperationSubscribe) | Some c \<Rightarrow> subscribe handler c)"

definition Memory_Publish :: "bus_env \<Rightarrow> ctx_arg \<Rightarrow> 'p bus_event \<Rightarrow> core option \<Rightarrow> bus_action list
    \<Rightarrow> core option \<times> bus_action list \<times> goerr option" where
  "Memory_Publish E ctx event b h =
     (case b of None \<Rightarrow> (None, h, Some (nil_bus OperationPublish))
      | Some c \<Rightarrow> map_prod Some id (deliver E ctx event deliveryNotification c h))"

text \<open>\<open>during\<close> is what the other goroutines did while the source was read.\<close>

definition Memory_Reconcile :: "bus_env \<Rightarrow> ctx_arg \<Rightarrow> ctx_arg \<Rightarrow> bool \<Rightarrow> 'p latest \<Rightarrow> sentinel option
    \<Rightarrow> (core \<Rightarrow> core) \<Rightarrow> core option \<Rightarrow> bus_action list \<Rightarrow> core option \<times> bus_action list \<times> goerr option" where
  "Memory_Reconcile E ctx ctx' reconciler latest after during b h =
     (case b of None \<Rightarrow> (None, h, Some (nil_bus OperationReconcile))
      | Some c \<Rightarrow>
          (case beginActive ctx OperationReconcile c of
             Inl e \<Rightarrow> (Some c, h, Some e)
           | Inr c1 \<Rightarrow>
               if \<not> reconciler then
                 (Some (release c1), h,
                  Some (operationError OperationReconcile (bus_sentinel Bus_ErrInvalidReconciler)
                          (Some (bus_sentinel Bus_ErrInvalidReconciler))))
               else
                 (case Reconcile ctx' True latest after (lastRevision c1) of
                    Inl e \<Rightarrow> (Some (release (during c1)), h, Some e)
                  | Inr None \<Rightarrow> (Some (release (during c1)), h, None)
                  | Inr (Some event) \<Rightarrow>
                      (let (c2, h2, r) = deliverActive E event deliveryReconciliation (during c1) h
                       in (Some (release c2), h2, r)))))"

definition LastRevision :: "core option \<Rightarrow> 64 word" where
  "LastRevision b = (case b of None \<Rightarrow> 0 | Some c \<Rightarrow> lastRevision c)"

definition Memory_inspect :: "operation \<Rightarrow> ctx_arg \<Rightarrow> core option \<Rightarrow> goerr option" where
  "Memory_inspect op ctx b = (case b of None \<Rightarrow> Some (nil_bus op) | Some c \<Rightarrow> inspection ctx op c)"

definition Memory_Close :: "bus_env \<Rightarrow> ctx_arg \<Rightarrow> core option \<Rightarrow> bus_action list
    \<Rightarrow> (core option \<times> bus_action list \<times> goerr option) option" where
  "Memory_Close E ctx b h =
     (case b of None \<Rightarrow> Some (None, h, None)
      | Some c \<Rightarrow> map_option (map_prod Some id) (close_core E ctx c h))"

section \<open>Redis: options\<close>

record redis_options =
  opt_Reconciler :: bool
  opt_PollInterval :: int
  opt_PollTimeout :: int
  opt_MaxPayloadBytes :: int

record redis_bus =
  rcore :: core
  pollErr :: "goerr option"
  reconcileErr :: "goerr option"
  pollInterval :: int
  pollTimeout :: int
  maxPayload :: int

text \<open>Durations are nanoseconds.\<close>

definition second :: int where "second = 1000000000"
definition millisecond :: int where "millisecond = 1000000"
definition defaultMaxPayloadSize :: int where "defaultMaxPayloadSize = 2 ^ 20"
definition maxPayloadSize :: int where "maxPayloadSize = 8 * 2 ^ 20"

definition BuildRedis :: "bool \<Rightarrow> redis_options \<Rightarrow> goerr + redis_bus" where
  "BuildRedis scope opts =
     (if \<not> scope then Inl (bus_invalid ''scope'' ''is required'' Bus_ErrInvalidOptions)
      else if \<not> opt_Reconciler opts then Inl (bus_invalid ''reconciler'' ''is required'' Bus_ErrInvalidReconciler)
      else
        (let interval = (if opt_PollInterval opts = 0 then second else opt_PollInterval opts) in
         if interval < millisecond then
           Inl (bus_invalid ''pollInterval'' ''must be at least one millisecond'' Bus_ErrInvalidOptions)
         else
           (let timeout = (if opt_PollTimeout opts = 0 then second else opt_PollTimeout opts) in
            if timeout \<le> 0 then Inl (bus_invalid ''pollTimeout'' ''must be positive'' Bus_ErrInvalidOptions)
            else
              (let size = (if opt_MaxPayloadBytes opts = 0 then defaultMaxPayloadSize
                           else opt_MaxPayloadBytes opts) in
               if size < 1 \<or> maxPayloadSize < size then
                 Inl (bus_invalid ''maxPayloadBytes'' ''is outside the supported range'' Bus_ErrInvalidOptions)
               else
                 Inr \<lparr>rcore = newCore, pollErr = None, reconcileErr = None, pollInterval = interval,
                      pollTimeout = timeout, maxPayload = size\<rparr>))))"

section \<open>Redis: the stored event\<close>

text \<open>
  A \<open>[]byte\<close> payload is nil (\<open>None\<close>) or a byte string; \<open>encoding/json\<close> writes nil as \<open>null\<close> and bytes as
  a base64 string.
\<close>

datatype stored = Wire "64 word" "string option" | Malformed nat

definition payload_len :: "string option \<Rightarrow> nat" where
  "payload_len p = (case p of None \<Rightarrow> 0 | Some bs \<Rightarrow> length bs)"

definition base64_len :: "nat \<Rightarrow> nat" where
  "base64_len n = 4 * ((n + 2) div 3)"

definition wire_length :: "stored \<Rightarrow> nat" where
  "wire_length w =
     (case w of
        Malformed n \<Rightarrow> n
      | Wire v p \<Rightarrow>
          length ''{\"revision\":'' + length (nat_dec (unat v)) + length '',\"payload\":''
          + (case p of None \<Rightarrow> length ''null'' | Some bs \<Rightarrow> 2 + base64_len (length bs)) + length ''}'')"

record 'p provider =
  marshal :: "'p \<Rightarrow> goerr + string option"
  unmarshal :: "string option \<Rightarrow> goerr + 'p"
  json_error :: goerr
  get_error :: "goerr option"
  replicas :: "stored option \<Rightarrow> stored option"
  set_applied :: bool
  set_error :: "goerr option"

definition decode_failed :: "goerr option \<Rightarrow> goerr" where
  "decode_failed e = operationError OperationDecode (bus_sentinel Bus_ErrDecodeFailed) e"

definition decode :: "'p provider \<Rightarrow> int \<Rightarrow> stored \<Rightarrow> goerr + 'p bus_event" where
  "decode P limit encoded =
     (if int (wire_length encoded) > limit * 2 + 256 then
        Inl (decode_failed (Some (bus_sentinel Bus_ErrInvalidEvent)))
      else
        (case encoded of
           Malformed _ \<Rightarrow> Inl (decode_failed (Some (json_error P)))
         | Wire v payload \<Rightarrow>
             if v = 0 \<or> int (payload_len payload) > limit then Inl (decode_failed None)
             else
               (case unmarshal P payload of
                  Inl e \<Rightarrow> Inl (decode_failed (Some e))
                | Inr value \<Rightarrow> Inr \<lparr>Revision = v, Payload = value\<rparr>)))"

definition storeLatest :: "'p provider \<Rightarrow> int \<Rightarrow> 'p bus_event \<Rightarrow> stored option
    \<Rightarrow> stored option \<times> 'p bus_event \<times> goerr option" where
  "storeLatest P limit proposed remote =
     (case marshal P (Payload proposed) of
        Inl e \<Rightarrow> (remote, proposed, Some (operationError OperationEncode (bus_sentinel Bus_ErrEncodeFailed) (Some e)))
      | Inr payload \<Rightarrow>
          if int (payload_len payload) > limit then
            (remote, proposed, Some (operationError OperationEncode (bus_sentinel Bus_ErrEncodeFailed)
                                       (Some (bus_sentinel Bus_ErrInvalidEvent))))
          else
            (let encoded = Wire (Revision proposed) payload;
                 failed = (\<lambda>e. operationError OperationPublish (bus_sentinel Bus_ErrProviderFailed) (Some e));
                 write = (let remote' = replicas P remote in
                          (if set_applied P then Some encoded else remote', proposed,
                           map_option failed (set_error P))) in
             case get_error P of
               Some e \<Rightarrow> (remote, proposed, Some (failed e))
             | None \<Rightarrow>
                 (case remote of
                    None \<Rightarrow> write
                  | Some current \<Rightarrow>
                      (case decode P limit current of
                         Inl decodeErr \<Rightarrow> (remote, proposed, Some decodeErr)
                       | Inr existing \<Rightarrow>
                           if Revision proposed \<le> Revision existing then (remote, existing, None) else write))))"

definition loadLatest :: "'p provider \<Rightarrow> int \<Rightarrow> stored option \<Rightarrow> goerr + 'p bus_event option" where
  "loadLatest P limit remote =
     (case get_error P of
        Some e \<Rightarrow> Inl (operationError OperationPoll (bus_sentinel Bus_ErrProviderFailed) (Some e))
      | None \<Rightarrow>
          (case remote of
             None \<Rightarrow> Inr None
           | Some encoded \<Rightarrow>
               (case decode P limit encoded of Inl e \<Rightarrow> Inl e | Inr event \<Rightarrow> Inr (Some event))))"

section \<open>Redis: operations\<close>

definition setPollError :: "goerr option \<Rightarrow> redis_bus \<Rightarrow> redis_bus" where
  "setPollError e b =
     (case e of None \<Rightarrow> b\<lparr>pollErr := None\<rparr>
      | Some x \<Rightarrow> b\<lparr>pollErr := bus_safeClassifications (errors_Join [Some x, Some (bus_sentinel Bus_ErrPollFailed)])\<rparr>)"

definition setReconcileError :: "goerr option \<Rightarrow> redis_bus \<Rightarrow> redis_bus" where
  "setReconcileError e b =
     (case e of None \<Rightarrow> b\<lparr>reconcileErr := None\<rparr>
      | Some x \<Rightarrow> b\<lparr>reconcileErr := bus_safeClassifications (Some x)\<rparr>)"

text \<open>The authoritative source as one reconciliation meets it: the context at entry, the outcome, the context after.\<close>

record 'p source =
  src_ctx :: ctx_arg
  src_latest :: "'p latest"
  src_after :: "sentinel option"
  src_during :: "core \<Rightarrow> core"

definition reconcileActive :: "bus_env \<Rightarrow> 'p source \<Rightarrow> redis_bus \<Rightarrow> bus_action list
    \<Rightarrow> redis_bus \<times> bus_action list \<times> goerr option" where
  "reconcileActive E S b h =
     (let b1 = b\<lparr>rcore := src_during S (rcore b)\<rparr> in
      case Reconcile (src_ctx S) True (src_latest S) (src_after S) (lastRevision (rcore b)) of
        Inl e \<Rightarrow> (setReconcileError (Some e) b1, h, Some e)
      | Inr None \<Rightarrow> (setReconcileError None b1, h, None)
      | Inr (Some event) \<Rightarrow>
          (let (c, h', err) = deliverActive E event deliveryReconciliation (rcore b1) h
           in (setReconcileError err (b1\<lparr>rcore := c\<rparr>), h', err)))"

definition Redis_Publish :: "bus_env \<Rightarrow> 'p provider \<Rightarrow> 'p source \<Rightarrow> ctx_arg \<Rightarrow> sentinel option \<Rightarrow> 'p bus_event
    \<Rightarrow> redis_bus option \<Rightarrow> stored option \<Rightarrow> bus_action list
    \<Rightarrow> redis_bus option \<times> stored option \<times> bus_action list \<times> goerr option" where
  "Redis_Publish E P S ctx ctxLater event bus remote h =
     (case bus of None \<Rightarrow> (None, remote, h, Some (nil_bus OperationPublish))
      | Some b \<Rightarrow>
          if Revision event = 0 then
            (bus, remote, h, Some (operationError OperationPublish (bus_sentinel Bus_ErrInvalidEvent)
                                     (Some (bus_sentinel Bus_ErrInvalidEvent))))
          else
            (case beginActive ctx OperationPublish (rcore b) of
               Inl e \<Rightarrow> (bus, remote, h, Some e)
             | Inr c1 \<Rightarrow>
                 (let (remote', selected, providerErr) = storeLatest P (maxPayload b) event remote;
                      b1 = setPollError providerErr (b\<lparr>rcore := c1\<rparr>);
                      (c2, h2, deliveryErr) = deliverActive E selected deliveryNotification (rcore b1) h;
                      b2 = b1\<lparr>rcore := c2\<rparr>;
                      (b3, h3, reconcileErr) =
                        (if providerErr \<noteq> None \<and> ctxLater = None then reconcileActive E S b2 h2
                         else (b2, h2, None));
                      result = errors_Join [providerErr, deliveryErr, reconcileErr]
                  in (Some (b3\<lparr>rcore := release (rcore b3)\<rparr>), remote', h3,
                      if result = None then None
                      else Some (operationError OperationPublish (bus_sentinel Bus_ErrPublishFailed) result)))))"

definition poll_deliver :: "bus_env \<Rightarrow> goerr + 'p bus_event option \<Rightarrow> redis_bus \<Rightarrow> bus_action list
    \<Rightarrow> redis_bus \<times> bus_action list \<times> goerr option" where
  "poll_deliver E loaded b h =
     (case loaded of
        Inr (Some event) \<Rightarrow>
          (let (c, h', r) = deliverActive E event deliveryNotification (rcore b) h
           in (b\<lparr>rcore := c\<rparr>, h', r))
      | _ \<Rightarrow> (b, h, None))"

definition pollActive :: "bus_env \<Rightarrow> 'p provider \<Rightarrow> 'p source \<Rightarrow> redis_bus \<Rightarrow> stored option \<Rightarrow> bus_action list
    \<Rightarrow> redis_bus \<times> bus_action list \<times> goerr option" where
  "pollActive E P S b remote h =
     (let loaded = loadLatest P (maxPayload b) remote;
          providerErr = (case loaded of Inl e \<Rightarrow> Some e | Inr _ \<Rightarrow> None);
          b1 = setPollError providerErr b;
          (b2, h2, deliveryErr) = poll_deliver E loaded b1 h;
          (b3, h3, reconcileErr) = reconcileActive E S b2 h2;
          result = errors_Join [providerErr, deliveryErr, reconcileErr]
      in (b3, h3,
          if result = None then None
          else Some (operationError OperationPoll (bus_sentinel Bus_ErrPollFailed) result)))"

definition PollOnce :: "bus_env \<Rightarrow> 'p provider \<Rightarrow> 'p source \<Rightarrow> ctx_arg \<Rightarrow> redis_bus option \<Rightarrow> stored option
    \<Rightarrow> bus_action list \<Rightarrow> redis_bus option \<times> bus_action list \<times> goerr option" where
  "PollOnce E P S ctx bus remote h =
     (case bus of None \<Rightarrow> (None, h, Some (nil_bus OperationPoll))
      | Some b \<Rightarrow>
          (case beginActive ctx OperationPoll (rcore b) of
             Inl e \<Rightarrow> (bus, h, Some e)
           | Inr c1 \<Rightarrow>
               (let (b', h', r) = pollActive E P S (b\<lparr>rcore := c1\<rparr>) remote h
                in (Some (b'\<lparr>rcore := release (rcore b')\<rparr>), h', r))))"

definition Redis_Reconcile :: "bus_env \<Rightarrow> 'p source \<Rightarrow> ctx_arg \<Rightarrow> redis_bus option \<Rightarrow> bus_action list
    \<Rightarrow> redis_bus option \<times> bus_action list \<times> goerr option" where
  "Redis_Reconcile E S ctx bus h =
     (case bus of None \<Rightarrow> (None, h, Some (nil_bus OperationReconcile))
      | Some b \<Rightarrow>
          (case beginActive ctx OperationReconcile (rcore b) of
             Inl e \<Rightarrow> (bus, h, Some e)
           | Inr c1 \<Rightarrow>
               (let (b', h', r) = reconcileActive E S (b\<lparr>rcore := c1\<rparr>) h
                in (Some (b'\<lparr>rcore := release (rcore b')\<rparr>), h', r))))"

definition Redis_inspect :: "operation \<Rightarrow> ctx_arg \<Rightarrow> goerr option \<Rightarrow> redis_bus option
    \<Rightarrow> redis_bus option \<times> goerr option" where
  "Redis_inspect op ctx scopeErr bus =
     (case bus of None \<Rightarrow> (None, Some (nil_bus op))
      | Some b \<Rightarrow>
          (case beginActive ctx op (rcore b) of
             Inl e \<Rightarrow> (bus, Some e)
           | Inr _ \<Rightarrow>
               (let b1 = (case scopeErr of None \<Rightarrow> b
                          | Some e \<Rightarrow> setPollError (Some (operationError op (bus_sentinel Bus_ErrProviderFailed) (Some e))) b);
                    degraded = errors_Join [pollErr b1, reconcileErr b1, deliveryErr (rcore b1)]
                in (Some b1, if degraded = None then None
                             else Some (operationError op (bus_sentinel Bus_ErrDegraded) degraded)))))"

definition Redis_Start :: "ctx_arg \<Rightarrow> goerr option \<Rightarrow> (core \<Rightarrow> core) \<Rightarrow> redis_bus option
    \<Rightarrow> redis_bus option \<times> goerr option" where
  "Redis_Start ctx scopeErr during bus =
     (case bus of None \<Rightarrow> (None, Some (nil_bus OperationStart))
      | Some b \<Rightarrow>
          (let (c, err) = start ctx scopeErr during (rcore b)
           in (Some (setPollError err (b\<lparr>rcore := c\<rparr>)), err)))"

text \<open>
  The ticker loop of \<open>Run\<close>: in round \<open>n\<close> either the run context is done (\<open>over n\<close>) or one poll runs
  (\<open>poll n\<close>). The loop may run forever.
\<close>

partial_function (option) run_ticks :: "(nat \<Rightarrow> sentinel option)
    \<Rightarrow> (nat \<Rightarrow> redis_bus option \<Rightarrow> bus_action list \<Rightarrow> redis_bus option \<times> bus_action list)
    \<Rightarrow> nat \<Rightarrow> redis_bus option \<Rightarrow> bus_action list
    \<Rightarrow> (redis_bus option \<times> bus_action list \<times> goerr option) option" where
  "run_ticks over poll n bus h =
     (case over n of
        Some e \<Rightarrow> Some (bus, h, Some (operationError OperationRun (bus_sentinel Bus_ErrRunRejected)
                                       (Some (Sentinel e))))
      | None \<Rightarrow> (case poll n bus h of (bus', h') \<Rightarrow> run_ticks over poll (Suc n) bus' h'))"

definition Redis_Run :: "ctx_arg \<Rightarrow> (nat \<Rightarrow> sentinel option)
    \<Rightarrow> (nat \<Rightarrow> redis_bus option \<Rightarrow> bus_action list \<Rightarrow> redis_bus option \<times> bus_action list)
    \<Rightarrow> redis_bus option \<Rightarrow> bus_action list
    \<Rightarrow> (redis_bus option \<times> bus_action list \<times> goerr option) option" where
  "Redis_Run ctx over poll bus h =
     (case bus of None \<Rightarrow> Some (None, h, Some (nil_bus OperationRun))
      | Some b \<Rightarrow>
          (case core_beginRun ctx (rcore b) of
             Inl e \<Rightarrow> Some (bus, h, Some e)
           | Inr c \<Rightarrow>
               (case poll 0 (Some (b\<lparr>rcore := c\<rparr>)) h of
                  (bus1, h1) \<Rightarrow>
                    map_option (map_prod (map_option (\<lambda>b. b\<lparr>rcore := core_finishRun (rcore b)\<rparr>)) id)
                      (run_ticks over poll 1 bus1 h1))))"

end
