(* ===== verification/EventBus_Redis.thy ===== *)
theory EventBus_Redis
  imports EventBus_Providers
begin

text \<open>
  Properties of the Redis event bus: a stored event decodes to what was published and never loses to an
  older one, the authoritative source repairs a replica whatever the provider does, and the bus reports
  itself ready only when nothing is degraded.
\<close>

section \<open>Lengths\<close>

lemma nat_dec_length: "n < 10 ^ Suc k \<Longrightarrow> length (nat_dec n) \<le> Suc k"
proof (induction k arbitrary: n)
  case 0
  then show ?case by (simp add: nat_dec.simps)
next
  case (Suc k)
  show ?case
  proof (cases "n < 10")
    case True
    then show ?thesis by (simp add: nat_dec.simps)
  next
    case False
    have "n div 10 < 10 ^ Suc k" using Suc.prems by (simp add: less_mult_imp_div_less mult.commute)
    from Suc.IH [OF this] False show ?thesis by (simp add: nat_dec.simps [of n])
  qed
qed

lemma revision_digits: "length (nat_dec (unat (v :: 64 word))) \<le> 20"
proof -
  have "unat v < 2 ^ 64" using unsigned_less [of v, where ?'a = nat] by simp
  also have "(2 ^ 64 :: nat) < 10 ^ Suc 19" by simp
  finally show ?thesis using nat_dec_length by fastforce
qed

lemma base64_len_bound: "base64_len n \<le> 2 * n + 4"
  unfolding base64_len_def by presburger

lemma wire_length_bound: "int (payload_len p) \<le> limit \<Longrightarrow> int (wire_length (Wire v p)) \<le> limit * 2 + 256"
  using revision_digits [of v] base64_len_bound [of "payload_len p"]
  by (cases p) (auto simp: wire_length_def payload_len_def)

section \<open>The stored event\<close>

definition faithful_codec :: "'p provider \<Rightarrow> bool" where
  "faithful_codec P \<longleftrightarrow>
     (\<forall>x bs. marshal P x = Inr bs \<longrightarrow> unmarshal P bs = Inr x) \<and> (set_error P = None \<longrightarrow> set_applied P)"

lemma decode_stored:
  assumes "faithful_codec P" and "marshal P x = Inr bs" and "v \<noteq> 0" and "int (payload_len bs) \<le> limit"
  shows "decode P limit (Wire v bs) = Inr \<lparr>Revision = v, Payload = x\<rparr>"
  using assms wire_length_bound [OF assms(4), of v] by (simp add: decode_def faithful_codec_def)

text \<open>
  Round trip through Redis: when \<open>storeLatest\<close> succeeds, the next \<open>loadLatest\<close> returns exactly the
  event it selected, which is at least as new as the proposed event and as what was stored before; every
  payload within the limit passes the size check of \<open>decode\<close>.
\<close>

theorem storeLatest_round_trip:
  assumes "faithful_codec P" and "Revision proposed \<noteq> 0"
    and "storeLatest P limit proposed remote = (remote', selected, None)"
  shows "loadLatest P limit remote' = Inr (Some selected)
    \<and> Revision proposed \<le> Revision selected
    \<and> (\<forall>current existing. remote = Some current \<and> decode P limit current = Inr existing \<longrightarrow>
         Revision existing \<le> Revision selected)"
proof -
  obtain bs where m: "marshal P (Payload proposed) = Inr bs" and l: "int (payload_len bs) \<le> limit"
    and g: "get_error P = None"
    using assms(3) by (auto simp: storeLatest_def Let_def split: sum.splits if_splits option.splits)
  have self: "decode P limit (Wire (Revision proposed) bs) = Inr proposed"
    using decode_stored [OF assms(1) m assms(2) l] by simp
  have applied: "set_error P = None \<Longrightarrow> set_applied P" using assms(1) by (simp add: faithful_codec_def)
  show ?thesis
  proof (cases remote)
    case None
    with assms(3) m l g have "set_error P = None" by (simp add: storeLatest_def Let_def not_less)
    with assms(3) m l g None applied have "remote' = Some (Wire (Revision proposed) bs) \<and> selected = proposed"
      by (auto simp: storeLatest_def Let_def)
    with g self None show ?thesis by (simp add: loadLatest_def)
  next
    case (Some current)
    show ?thesis
    proof (cases "decode P limit current")
      case (Inl e)
      with assms(3) m l g Some show ?thesis by (simp add: storeLatest_def Let_def)
    next
      case (Inr existing)
      show ?thesis
      proof (cases "Revision proposed \<le> Revision existing")
        case True
        with assms(3) m l g Some Inr have "remote' = remote" "selected = existing"
          by (simp_all add: storeLatest_def Let_def not_less)
        with g Some Inr True show ?thesis by (simp add: loadLatest_def)
      next
        case False
        with assms(3) m l g Some Inr have "set_error P = None" by (simp add: storeLatest_def Let_def not_less)
        with assms(3) m l g Some Inr False applied
        have "remote' = Some (Wire (Revision proposed) bs) \<and> selected = proposed"
          by (auto simp: storeLatest_def Let_def)
        with g self Some Inr False show ?thesis by (simp add: loadLatest_def)
      qed
    qed
  qed
qed

section \<open>Repair by the authoritative source\<close>

lemma reach_peers: "peer_step\<^sup>*\<^sup>* c c' \<Longrightarrow> bus_reach c log \<Longrightarrow> bus_reach c' log"
  by (induction rule: rtranclp_induct) (auto intro: reach_peer)

lemma deliver_loop_history: "\<exists>ext. fst (snd (deliver_loop E v ts c h r)) = h @ ext"
proof (induction ts arbitrary: c h r)
  case (Cons t ts)
  show ?case
  proof (cases "bus_ctxErr E (h @ [PollDelivery])")
    case None
    let ?h2 = "h @ [PollDelivery, HandlerCall (sub_ref t) v]"
    have "\<exists>c2 r2. deliver_loop E v (t # ts) c h r = deliver_loop E v ts c2 ?h2 r2"
      using None by (cases "callHandler (handler_outcome E ?h2)") (auto simp: Let_def)
    then obtain c2 r2 where "deliver_loop E v (t # ts) c h r = deliver_loop E v ts c2 ?h2 r2" by blast
    with Cons [of c2 ?h2 r2] show ?thesis by auto
  qed (simp add: Let_def)
qed simp

lemma deliverActive_history:
  assumes "deliverActive E event mode c h = (c', h', r)"
  shows "\<exists>ext. h' = h @ ext"
proof (cases "Revision event = 0")
  case True
  with assms show ?thesis by (auto simp: deliverActive_def Let_def)
next
  case nonzero: False
  show ?thesis
  proof (cases "bus_ctxErr E (h @ [AwaitToken])")
    case (Some e)
    with assms nonzero show ?thesis by (auto simp: deliverActive_def Let_def)
  next
    case None
    note False = nonzero None
    let ?c1 = "meanwhile E (h @ [AwaitToken]) c"
    show ?thesis
    proof (cases "Revision event < lastRevision ?c1 \<or> Revision event = lastRevision ?c1 \<and> mode = deliveryNotification")
      case True
      with assms False show ?thesis by (auto simp: deliverActive_def Let_def)
    next
      case fresh: False
      let ?c2 = "if lastRevision ?c1 < Revision event then ?c1\<lparr>lastRevision := Revision event\<rparr> else ?c1"
      let ?loop = "deliver_loop E (Revision event) (targets E (subscribers ?c2) (Revision event)) ?c2 (h @ [AwaitToken]) None"
have e: "h' = fst (snd ?loop)"
        using assms False fresh unfolding deliverActive_def Let_def by (cases ?loop) auto
      obtain ext where "fst (snd ?loop) = (h @ [AwaitToken]) @ ext" using deliver_loop_history by blast
      with e have "h' = h @ ([AwaitToken] @ ext)" by simp
      then show ?thesis by blast
    qed
  qed
qed

lemma reach_after_deliver:
  fixes event :: "'p bus_event" and log :: "(nat \<times> 'p bus_event) list"
  assumes "bus_reach c log" and "respects_peers E" and "fair_order E"
    and "deliverActive E event mode c h = (c', h', r)"
  shows "\<exists>log' :: (nat \<times> 'p bus_event) list. bus_reach c' log' \<and> next_ref c \<le> next_ref c'
    \<and> lastRevision c \<le> lastRevision c'"
proof -
  obtain ext where h': "h' = h @ ext" using deliverActive_history [OF assms(4)] by blast
  have inv: "subs_inv c" "log_inv c log" "increasing log" using bus_reach_inv [OF assms(1)] by auto
  have n: "next_ref c \<le> next_ref c'"
  proof (cases "accepts E event mode c h")
    case True
    from deliverActive_spec [OF assms(4) True assms(2,3) inv(1)] obtain c1 D where
      "evolves (Revision event) {} c c1" "evolves (Revision event) D (c1\<lparr>lastRevision := Revision event\<rparr>) c'" by blast
    then show ?thesis by (simp add: evolves_def)
  next
    case False
    from deliverActive_refused [OF assms(4) False assms(2) inv(1)] show ?thesis by (simp add: evolves_def)
  qed
  show ?thesis
    using reach_deliver [OF assms(1,2,3) assms(4) [unfolded h']] n
      deliver_log [OF inv assms(2,3) assms(4) [unfolded h']] by blast
qed

lemma delivery_errors_class: "e \<in> set (delivery_errors E h ext) \<Longrightarrow> \<exists>k. errors_Is e (Bus_class k)"
proof (induction E h ext rule: delivery_errors.induct)
  case (2 E h r v ext)
  then show ?case
    by (auto simp: callHandler_def errors_Is_operationError split: option.splits outcome.splits)
qed (auto simp: errors_Is_operationError split: option.splits)

lemma delivery_error_kept:
  assumes "deliverActive E event mode c h = (c', h', Some x)" and "accepts E event mode c h"
    and "respects_peers E" and "fair_order E" and "subs_inv c"
  shows "bus_safeClassifications (Some x) \<noteq> None"
proof -
  obtain ext where "Some x = None \<longleftrightarrow> delivery_errors E (h @ [AwaitToken]) ext = []"
    and t: "\<forall>t. is_err (Some x) t \<longleftrightarrow> (\<exists>e \<in> set (delivery_errors E (h @ [AwaitToken]) ext). errors_Is e t)"
    using deliverActive_spec [OF assms] by blast
  then obtain e where "e \<in> set (delivery_errors E (h @ [AwaitToken]) ext)"
    by (cases "delivery_errors E (h @ [AwaitToken]) ext") auto
  with t obtain k where "is_err (Some x) (Bus_class k)" using delivery_errors_class by blast
  then have "is_err (bus_safeClassifications (Some x)) (Bus_class k)" by (simp add: bus.safe_is_err)
  from is_err_Some [OF this] show ?thesis by auto
qed

definition source_live :: "'p source \<Rightarrow> 'p bus_event \<Rightarrow> bool" where
  "source_live S event \<longleftrightarrow>
     src_ctx S = Context None \<and> src_latest S = LatestReturned event True None \<and> src_after S = None
   \<and> Revision event \<noteq> 0 \<and> (\<forall>c. peer_step\<^sup>*\<^sup>* c (src_during S c))"

lemma reconcile_repairs:
  fixes event :: "'p bus_event" and log :: "(nat \<times> 'p bus_event) list"
  assumes "bus_reach (rcore b) log" and "respects_peers E" and "fair_order E"
    and "source_live S event" and "reconcileActive E S b h = (b', h', r)" and "reconcileErr b' = None"
    and "lastRevision (rcore b) \<le> Revision event"
    and "\<forall>h. bus_ctxErr E (h @ [AwaitToken]) = None"
  shows "lastRevision (rcore b') = Revision event
    \<and> (\<forall>i s. fmlookup (subscribers (rcore b')) i = Some s \<longrightarrow>
         sub_revision s = Revision event \<or> next_ref (rcore b) \<le> sub_ref s)"
proof -
  let ?c = "src_during S (rcore b)"
  have p: "peer_step\<^sup>*\<^sup>* (rcore b) ?c" using assms(4) by (simp add: source_live_def)
  have inv: "subs_inv (rcore b)" using bus_reach_inv [OF assms(1)] by blast
  have inv': "subs_inv ?c" and "evolves 0 {} (rcore b) ?c" using peers_evolve [OF p inv, of 0] by auto
  then have last: "lastRevision ?c = lastRevision (rcore b)" "next_ref (rcore b) \<le> next_ref ?c"
    by (simp_all add: evolves_def)
  have acc: "accepts E event deliveryReconciliation ?c h"
    using assms(4,7,8) last by (auto simp: accepts_def source_live_def)
  obtain c' h2 err where d: "deliverActive E event deliveryReconciliation ?c h = (c', h2, err)"
    using prod_cases3 by blast
  have "Reconcile (src_ctx S) True (src_latest S) (src_after S) (lastRevision (rcore b)) = Inr (Some event)"
    using assms(4,7) by (auto simp: Reconcile_def source_live_def)
  with assms(5) d have b': "b' = setReconcileError err (b\<lparr>rcore := c'\<rparr>)"
    by (auto simp: reconcileActive_def Let_def)
  have "err = None"
  proof (cases err)
    case (Some x)
    with d have "bus_safeClassifications (Some x) \<noteq> None"
      using delivery_error_kept [OF _ acc assms(2,3) inv'] by blast
    with assms(6) b' Some show ?thesis by (simp add: setReconcileError_def)
  qed
  with d have d': "deliverActive E event deliveryReconciliation ?c h = (c', h2, None)" by simp
  have "rcore b' = c'" using b' \<open>err = None\<close> by (simp add: setReconcileError_def)
  with delivery_converges [OF inv' assms(2,3) acc d'] last(2) show ?thesis by (auto intro: order_trans)
qed

lemma poll_deliver_reach:
  fixes log :: "(nat \<times> 'p bus_event) list" and loaded :: "goerr + 'p bus_event option"
  assumes "bus_reach (rcore b) log" and "respects_peers E" and "fair_order E"
    and "poll_deliver E loaded b h = (b2, h2, de)"
  shows "(\<exists>log2 :: (nat \<times> 'p bus_event) list. bus_reach (rcore b2) log2)
    \<and> next_ref (rcore b) \<le> next_ref (rcore b2)"
proof (cases "\<exists>ev. loaded = Inr (Some ev)")
  case True
  then obtain ev where ev: "loaded = Inr (Some ev)" by blast
  obtain c hh rr where dl: "deliverActive E ev deliveryNotification (rcore b) h = (c, hh, rr)"
    using prod_cases3 by blast
  with assms(4) ev have "rcore b2 = c" by (auto simp: poll_deliver_def)
  with reach_after_deliver [OF assms(1,2,3) dl] show ?thesis by blast
next
  case False
  with assms(4) have "b2 = b" by (auto simp: poll_deliver_def split: sum.splits option.splits)
  with assms(1) show ?thesis by auto
qed

text \<open>
  A provider failure never keeps the authoritative source from repairing a replica: whatever the
  read from Redis gave, after a poll whose reconciliation left no error the bus is at the authoritative
  revision, or beyond it when Redis was ahead, and if it is at the authoritative revision then every
  subscriber registered before the poll has accepted it.
\<close>

theorem poll_repairs_despite_provider:
  fixes event :: "'p bus_event" and log :: "(nat \<times> 'p bus_event) list"
  assumes "bus_reach (rcore b) log" and "respects_peers E" and "fair_order E"
    and "source_live S event" and "\<forall>h. bus_ctxErr E (h @ [AwaitToken]) = None"
    and "pollActive E P S b remote h = (b', h', r)" and "reconcileErr b' = None"
  shows "Revision event \<le> lastRevision (rcore b')
    \<and> (lastRevision (rcore b') = Revision event \<longrightarrow>
         (\<forall>i s. fmlookup (subscribers (rcore b')) i = Some s \<longrightarrow>
            sub_revision s = Revision event \<or> next_ref (rcore b) \<le> sub_ref s))"
proof -
  let ?loaded = "loadLatest P (maxPayload b) remote"
  let ?b1 = "setPollError (case ?loaded of Inl e \<Rightarrow> Some e | Inr _ \<Rightarrow> None) b"
  have same: "rcore ?b1 = rcore b" by (simp add: setPollError_def split: option.split)
  obtain b2 h2 de where two: "poll_deliver E ?loaded ?b1 h = (b2, h2, de)" using prod_cases3 by blast
  obtain b3 h3 r2 where three: "reconcileActive E S b2 h2 = (b3, h3, r2)" using prod_cases3 by blast
  have "b3 = b'" "h3 = h'" using assms(6) two three by (auto simp: pollActive_def Let_def)
  with three have rec: "reconcileActive E S b2 h2 = (b', h', r2)" by simp
  have reach: "\<exists>log2 :: (nat \<times> 'p bus_event) list. bus_reach (rcore b2) log2" "next_ref (rcore b) \<le> next_ref (rcore b2)"
    using poll_deliver_reach [OF assms(1) [folded same] assms(2,3) two] same by auto
  obtain log2 :: "(nat \<times> 'p bus_event) list" where log2: "bus_reach (rcore b2) log2" using reach(1) by blast
  show ?thesis
  proof (cases "lastRevision (rcore b2) \<le> Revision event")
    case True
    from reconcile_repairs [OF log2 assms(2,3,4) rec assms(7) True assms(5)] reach(2)
    show ?thesis by (auto intro: order_trans)
  next
    case False
    then have "Reconcile (src_ctx S) True (src_latest S) (src_after S) (lastRevision (rcore b2)) = Inr None"
      using assms(4) by (auto simp: Reconcile_def source_live_def)
    with rec have "rcore b' = src_during S (rcore b2)"
      by (auto simp: reconcileActive_def Let_def setReconcileError_def)
    moreover have "lastRevision (src_during S (rcore b2)) = lastRevision (rcore b2)"
      using peers_evolve [of "rcore b2" "src_during S (rcore b2)" 0] bus_reach_inv [OF log2] assms(4)
      by (auto simp: source_live_def evolves_def)
    ultimately show ?thesis using False by auto
  qed
qed

section \<open>Readiness\<close>

text \<open>
  The Redis bus reports itself healthy exactly when it is open, the Redis scope answers, and
  neither polling, reconciliation nor delivery has an outstanding failure; a failing scope is remembered
  until the next successful poll.
\<close>

theorem inspect_nil_iff_healthy:
  "(snd (Redis_inspect op ctx scopeErr (Some b)) = None \<longleftrightarrow>
      ctx = Context None \<and> core_started (rcore b) \<and> \<not> core_closing (rcore b) \<and> \<not> core_closed (rcore b)
      \<and> scopeErr = None \<and> pollErr b = None \<and> reconcileErr b = None \<and> deliveryErr (rcore b) = None)
   \<and> (ctx = Context None \<and> core_started (rcore b) \<and> \<not> core_closing (rcore b) \<and> \<not> core_closed (rcore b)
      \<and> scopeErr \<noteq> None \<longrightarrow>
      (\<exists>b'. fst (Redis_inspect op ctx scopeErr (Some b)) = Some b' \<and> is_err (pollErr b') (Bus_class Bus_ErrPollFailed)))"
proof -
  have p: "is_err (pollErr (setPollError (Some e) b)) (Bus_class Bus_ErrPollFailed)" for e
    by (simp add: setPollError_def bus.safe_is_err)
  then have n: "pollErr (setPollError (Some e) b) \<noteq> None" for e by (metis is_err_simps(1))
  show ?thesis
  proof (cases "\<exists>c. beginActive ctx op (rcore b) = Inr c")
    case False
    then show ?thesis
      by (auto simp: Redis_inspect_def beginActive_def split: sum.splits ctx_arg.splits option.splits if_splits)
  next
    case True
    then have o: "ctx = Context None" "core_started (rcore b)" "\<not> core_closing (rcore b)" "\<not> core_closed (rcore b)"
      by (auto simp: beginActive_def split: ctx_arg.splits option.splits if_splits)
    from True o p n show ?thesis
      by (cases scopeErr; cases "pollErr b"; cases "reconcileErr b"; cases "deliveryErr (rcore b)")
        (auto simp: Redis_inspect_def Let_def)
  qed
qed

section \<open>Concrete runs\<close>

text \<open>A codec that stores the string itself, with Redis answering (\<open>None\<close>) or failing.\<close>

definition demo_provider :: "goerr option \<Rightarrow> string provider" where
  "demo_provider e =
     \<lparr>marshal = (\<lambda>x. Inr (Some x)), unmarshal = (\<lambda>bs. case bs of None \<Rightarrow> Inr [] | Some x \<Rightarrow> Inr x),
      json_error = Sentinel (Foreign 1), get_error = e, replicas = (\<lambda>r. r), set_applied = True, set_error = None\<rparr>"

definition demo_source :: "string source" where
  "demo_source = \<lparr>src_ctx = Context None, src_latest = LatestReturned demo_event True None, src_after = None,
     src_during = (\<lambda>c. c)\<rparr>"

definition demo_redis :: redis_bus where
  "demo_redis = \<lparr>rcore = demo_bus, pollErr = None, reconcileErr = None, pollInterval = second,
     pollTimeout = second, maxPayload = defaultMaxPayloadSize\<rparr>"

lemma storeLatest_round_trip_witness:
  "\<exists>remote'. storeLatest (demo_provider None) 1024 demo_event None = (remote', demo_event, None)
     \<and> loadLatest (demo_provider None) 1024 remote' = Inr (Some demo_event)"
proof -
  have "faithful_codec (demo_provider None)" by (simp add: faithful_codec_def demo_provider_def)
  moreover have "Revision demo_event \<noteq> 0" by (simp add: demo_event_def)
  moreover have s: "storeLatest (demo_provider None) 1024 demo_event None =
      (Some (Wire 5 (Some ''state'')), demo_event, None)"
    by (simp add: storeLatest_def demo_provider_def demo_event_def payload_len_def Let_def)
  ultimately show ?thesis using storeLatest_round_trip [of "demo_provider None" demo_event 1024 None] by auto
qed

lemma poll_repairs_despite_provider_witness:
  "\<exists>b' h' r. pollActive (demo_bus_env False) (demo_provider (Some (Sentinel (Foreign 7)))) demo_source demo_redis None []
       = (b', h', r) \<and> 5 \<le> lastRevision (rcore b')"
proof -
  let ?P = "demo_provider (Some (Sentinel (Foreign 7)))"
  obtain b' h' r where p: "pollActive (demo_bus_env False) ?P demo_source demo_redis None [] = (b', h', r)"
    using prod_cases3 by blast
  have reach: "bus_reach (rcore demo_redis) ([] :: (nat \<times> string bus_event) list)"
    using demo_bus_reach by (simp add: demo_redis_def)
  have src: "source_live demo_source demo_event" by (simp add: source_live_def demo_source_def demo_event_def)
  have ctx: "\<forall>h. bus_ctxErr (demo_bus_env False) (h @ [AwaitToken]) = None" by simp
  have "lastRevision demo_bus < 5" by (simp add: demo_bus_def newCore_def)
  then obtain c2 h2 where
    "deliverActive (demo_bus_env False) demo_event deliveryReconciliation demo_bus [] = (c2, h2, None)"
    using demo_deliver [OF disjI1 demo_targets_0, where mode = deliveryReconciliation and p = False and h = "[]"]
    by (auto simp: Let_def callHandler_def)
  then have "reconcileErr b' = None"
    using p by (auto simp: pollActive_def poll_deliver_def loadLatest_def demo_provider_def reconcileActive_def
        Reconcile_def demo_source_def demo_redis_def setPollError_def setReconcileError_def demo_event_def
        demo_bus_def newCore_def Let_def)
  from poll_repairs_despite_provider [OF reach demo_bus_env_ok src ctx p this] p show ?thesis
    by (simp add: demo_event_def)
qed

lemma inspect_nil_iff_healthy_witness:
  "\<exists>b'. fst (Redis_inspect OperationReady (Context None) (Some (Sentinel (Foreign 7))) (Some demo_redis)) = Some b'
     \<and> is_err (pollErr b') (Bus_class Bus_ErrPollFailed)"
proof -
  have "core_started (rcore demo_redis)" "\<not> core_closing (rcore demo_redis)" "\<not> core_closed (rcore demo_redis)"
    by (simp_all add: demo_redis_def demo_bus_def newCore_def)
  then show ?thesis
    using inspect_nil_iff_healthy [of OperationReady "Context None" "Some (Sentinel (Foreign 7))" demo_redis] by auto
qed

end
