(* ===== verification/Challenge_Scripts.thy ===== *)
theory Challenge_Scripts
  imports Bus_Errors
begin

text \<open>
  The Lua scripts of \<open>mss-boot/runtime/internal/redisbridge/scripts.go\<close>, which Redis runs atomically.
  Redis itself is not part of this repository: its commands are the fields of the record \<open>redis\<close>, over an
  abstract store \<open>'s\<close>, and every script takes that record. \<open>redis_laws\<close> states the documented behaviour
  of the commands the scripts rely on.

  A script returns the store and its reply; \<open>None\<close> is a Lua error (arithmetic on nil), which keeps the
  writes made before it. Hash values are strings; numbers are written in decimal (\<open>lua_number\<close>) and read
  back by \<open>lua_tonumber\<close>. Lua numbers are doubles; millisecond times stay far below \<open>2^53\<close>, where
  integer arithmetic is exact, and are integers here.
\<close>

section \<open>Redis commands\<close>

record 's redis =
  rtime :: "'s \<Rightarrow> int \<times> int"
  hget :: "'s \<Rightarrow> string \<Rightarrow> string \<Rightarrow> string option"
  hset :: "string \<Rightarrow> (string \<times> string) list \<Rightarrow> 's \<Rightarrow> 's"
  hdel :: "string \<Rightarrow> string list \<Rightarrow> 's \<Rightarrow> 's"
  del :: "string \<Rightarrow> 's \<Rightarrow> 's"
  zscore :: "'s \<Rightarrow> string \<Rightarrow> string \<Rightarrow> int option"
  zadd :: "string \<Rightarrow> int \<Rightarrow> string \<Rightarrow> 's \<Rightarrow> 's"
  zcard :: "'s \<Rightarrow> string \<Rightarrow> int"
  zremrangebyscore :: "string \<Rightarrow> int \<Rightarrow> 's \<Rightarrow> 's"
  pexpire :: "string \<Rightarrow> int \<Rightarrow> 's \<Rightarrow> 's"

text \<open>\<open>TIME\<close> gives seconds and microseconds.\<close>

definition redis_now :: "'s redis \<Rightarrow> 's \<Rightarrow> int" where
  "redis_now R s = (case rtime R s of (seconds, micros) \<Rightarrow> seconds * 1000 + micros div 1000)"

definition redis_laws :: "'s redis \<Rightarrow> bool" where
  "redis_laws R \<longleftrightarrow>
     (\<forall>s k fvs k' f. hget R (hset R k fvs s) k' f =
        (if k' = k then case map_of (rev fvs) f of Some v \<Rightarrow> Some v | None \<Rightarrow> hget R s k' f else hget R s k' f))
   \<and> (\<forall>s k fs k' f. hget R (hdel R k fs s) k' f = (if k' = k \<and> f \<in> set fs then None else hget R s k' f))
   \<and> (\<forall>s k k' f. hget R (del R k s) k' f = (if k' = k then None else hget R s k' f))
   \<and> (\<forall>s k v m k' f. hget R (zadd R k v m s) k' f = hget R s k' f)
   \<and> (\<forall>s k v k' f. hget R (zremrangebyscore R k v s) k' f = hget R s k' f)
   \<and> (\<forall>s k v k' f. v > 0 \<longrightarrow> hget R (pexpire R k v s) k' f = hget R s k' f)
   \<and> (\<forall>s k fvs k' m. zscore R (hset R k fvs s) k' m = zscore R s k' m)
   \<and> (\<forall>s k fs k' m. zscore R (hdel R k fs s) k' m = zscore R s k' m)
   \<and> (\<forall>s k k' m. zscore R (del R k s) k' m = (if k' = k then None else zscore R s k' m))
   \<and> (\<forall>s k v x k' m. zscore R (zadd R k v x s) k' m = (if k' = k \<and> m = x then Some v else zscore R s k' m))
   \<and> (\<forall>s k v k' m. zscore R (zremrangebyscore R k v s) k' m =
        (if k' = k then case zscore R s k' m of Some w \<Rightarrow> if w \<le> v then None else Some w | None \<Rightarrow> None
         else zscore R s k' m))
   \<and> (\<forall>s k v k' m. v > 0 \<longrightarrow> zscore R (pexpire R k v s) k' m = zscore R s k' m)
   \<and> (\<forall>s k. finite {m. zscore R s k m \<noteq> None} \<and> zcard R s k = int (card {m. zscore R s k m \<noteq> None}))"

section \<open>Lua values\<close>

definition lua_number :: "int \<Rightarrow> string" where
  "lua_number n = (if n < 0 then CHR ''-'' # nat_dec (nat (- n)) else nat_dec (nat n))"

fun dec_digits :: "nat \<Rightarrow> string \<Rightarrow> nat option" where
  "dec_digits acc [] = Some acc"
| "dec_digits acc (c # cs) =
     (if CHR ''0'' \<le> c \<and> c \<le> CHR ''9'' then dec_digits (acc * 10 + (of_char c - 48)) cs else None)"

text \<open>\<open>tonumber\<close> on the decimal integers the scripts store.\<close>

definition lua_tonumber :: "string \<Rightarrow> int option" where
  "lua_tonumber v =
     (case v of
        [] \<Rightarrow> None
      | c # cs \<Rightarrow>
          if c = CHR ''-'' then (if cs = [] then None else map_option (\<lambda>n. - int n) (dec_digits 0 cs))
          else map_option int (dec_digits 0 v))"

text \<open>\<open>tonumber(redis.call('HGET', ...) or '0')\<close>.\<close>

definition num_or_zero :: "string option \<Rightarrow> int option" where
  "num_or_zero v = (case v of None \<Rightarrow> Some 0 | Some x \<Rightarrow> lua_tonumber x)"

text \<open>\<open>string.find(replay, '|', 1, true)\<close> with the two halves.\<close>

fun split_bar :: "string \<Rightarrow> (string \<times> string) option" where
  "split_bar [] = None"
| "split_bar (c # cs) =
     (if c = CHR ''|'' then Some ([], cs) else map_option (\<lambda>(a, b). (c # a, b)) (split_bar cs))"

section \<open>challengeRateLua\<close>

definition challengeRate :: "'s redis \<Rightarrow> string \<Rightarrow> string \<Rightarrow> string \<Rightarrow> int \<Rightarrow> int \<Rightarrow> int \<Rightarrow> int \<Rightarrow> int \<Rightarrow> 's
    \<Rightarrow> 's \<times> string option" where
  "challengeRate R caller global operation_id caller_window caller_limit global_window global_limit grace s =
     (let now = redis_now R s;
          s1 = zremrangebyscore R caller (now - caller_window) s;
          s2 = zremrangebyscore R global (now - global_window) s1;
          caller_replay = zscore R s2 caller operation_id;
          global_replay = zscore R s2 global operation_id in
      if caller_replay \<noteq> None \<and> global_replay \<noteq> None then (s2, Some ''OK'')
      else if caller_replay \<noteq> None \<or> global_replay \<noteq> None then (s2, Some ''INCONSISTENT'')
      else if zcard R s2 caller \<ge> caller_limit then (s2, Some ''CALLER'')
      else if zcard R s2 global \<ge> global_limit then (s2, Some ''GLOBAL'')
      else
        (let s3 = zadd R caller now operation_id s2;
             s4 = zadd R global now operation_id s3;
             s5 = pexpire R caller (max 1 (caller_window + grace)) s4;
             s6 = pexpire R global (max 1 (global_window + grace)) s5
         in (s6, Some ''OK'')))"

section \<open>challengeBeginLua\<close>

record begin_args =
  issue_id :: string
  max_issues :: int
  issue_digest :: string
  issue_pepper :: string
  pending_ttl :: int
  challenge_ttl :: int
  cooldown_ttl :: int
  quota_window :: int
  expiry_grace :: int

definition pending_fields :: "string list" where
  "pending_fields =
     [''pending_id'', ''pending_digest'', ''pending_pepper'', ''pending_lease_until'', ''pending_ttl_ms'',
      ''pending_cooldown_ms'']"

text \<open>The part after the pending reservation has been looked at.\<close>

definition begin_reserve :: "'s redis \<Rightarrow> string \<Rightarrow> string \<Rightarrow> begin_args \<Rightarrow> int \<Rightarrow> 's \<Rightarrow> 's \<times> string option" where
  "begin_reserve R state quota a now s =
     (case num_or_zero (hget R s state ''cooldown_until'') of
        None \<Rightarrow> (s, None)
      | Some cooldown \<Rightarrow>
          if cooldown > now then (s, Some ''COOLDOWN'')
          else
            (let s1 = zremrangebyscore R quota (now - quota_window a) s in
             if zcard R s1 quota \<ge> max_issues a then (s1, Some ''QUOTA'')
             else
               (let s2 = zadd R quota now (issue_id a) s1;
                    s3 = hset R state
                           [(''pending_id'', issue_id a), (''pending_digest'', issue_digest a),
                            (''pending_pepper'', issue_pepper a),
                            (''pending_lease_until'', lua_number (now + pending_ttl a)),
                            (''pending_ttl_ms'', lua_number (challenge_ttl a)),
                            (''pending_cooldown_ms'', lua_number (cooldown_ttl a))] s2 in
                case num_or_zero (hget R s3 state ''active_expires_at'') of
                  None \<Rightarrow> (s3, None)
                | Some active_expires \<Rightarrow>
                    (let deadline = max active_expires (max (now + pending_ttl a) cooldown);
                         s4 = pexpire R state (max 1 (deadline - now + expiry_grace a)) s3;
                         s5 = pexpire R quota (max 1 (quota_window a + expiry_grace a)) s4
                     in (s5, Some ''OK'')))))"

definition challengeBegin :: "'s redis \<Rightarrow> string \<Rightarrow> string \<Rightarrow> begin_args \<Rightarrow> 's \<Rightarrow> 's \<times> string option" where
  "challengeBegin R state quota a s =
     (let now = redis_now R s in
      case hget R s state ''pending_id'' of
        None \<Rightarrow> begin_reserve R state quota a now s
      | Some pending_id \<Rightarrow>
          (case num_or_zero (hget R s state ''pending_lease_until'') of
             None \<Rightarrow> (s, None)
           | Some pending_lease \<Rightarrow>
               if pending_id = issue_id a \<and> pending_lease > now then (s, Some ''OK'')
               else if pending_lease > now then (s, Some ''PENDING'')
               else begin_reserve R state quota a now (hdel R state pending_fields s)))"

section \<open>challengeCommitLua\<close>

definition challengeCommit :: "'s redis \<Rightarrow> string \<Rightarrow> string \<Rightarrow> string \<Rightarrow> int \<Rightarrow> 's \<Rightarrow> 's \<times> string option" where
  "challengeCommit R state ops iid grace s =
     (let now = redis_now R s in
      if hget R s state ''active_id'' = Some iid then (s, Some ''OK'')
      else if hget R s state ''pending_id'' \<noteq> Some iid then (s, Some ''STALE'')
      else
        (case num_or_zero (hget R s state ''pending_lease_until'') of
           None \<Rightarrow> (s, None)
         | Some lease \<Rightarrow>
             if lease \<le> now then (hdel R state pending_fields s, Some ''EXPIRED'')
             else
               (case (hget R s state ''pending_digest'', hget R s state ''pending_pepper'',
                      Option.bind (hget R s state ''pending_ttl_ms'') lua_tonumber,
                      Option.bind (hget R s state ''pending_cooldown_ms'') lua_tonumber) of
                  (Some digest, Some pepper, Some ttl, Some cool) \<Rightarrow>
                    (let expires = now + ttl; cooldown = now + cool;
                         s1 = hset R state
                                [(''active_id'', iid), (''active_digest'', digest), (''active_pepper'', pepper),
                                 (''active_expires_at'', lua_number expires), (''active_attempts'', lua_number 0),
                                 (''cooldown_until'', lua_number cooldown)] s;
                         s2 = hdel R state pending_fields s1;
                         s3 = del R ops s2;
                         deadline = max expires cooldown;
                         s4 = pexpire R state (max 1 (deadline - now + grace)) s3
                     in (s4, Some ''OK''))
                | _ \<Rightarrow> (s, None))))"

section \<open>challengeAbortLua\<close>

definition challengeAbort :: "'s redis \<Rightarrow> string \<Rightarrow> string \<Rightarrow> 's \<Rightarrow> 's \<times> string option" where
  "challengeAbort R state iid s =
     (if hget R s state ''last_abort_id'' = Some iid then (s, Some ''OK'')
      else if hget R s state ''pending_id'' \<noteq> Some iid then (s, Some ''STALE'')
      else
        (let s1 = hdel R state pending_fields s;
             s2 = hset R state [(''last_abort_id'', iid)] s1
         in (s2, Some ''OK'')))"

section \<open>challengeReadVerifierLua\<close>

text \<open>
  A Lua table whose first elements are false reaches the client as nil replies, which the bridge turns
  into empty strings.
\<close>

definition challengeReadVerifier :: "'s redis \<Rightarrow> string \<Rightarrow> 's \<Rightarrow> string option list" where
  "challengeReadVerifier R state s =
     [hget R s state ''active_id'', hget R s state ''active_digest'', hget R s state ''active_pepper'']"

section \<open>challengeCompleteVerifyLua\<close>

record verify_args =
  expected_id :: string
  expected_digest :: string
  operation_id :: string
  max_attempts :: int
  matched :: bool
  idempotency_ttl :: int

definition active_fields :: "string list" where
  "active_fields = [''active_id'', ''active_digest'', ''active_pepper'', ''active_expires_at'', ''active_attempts'']"

definition clear_active :: "'s redis \<Rightarrow> string \<Rightarrow> 's \<Rightarrow> 's" where
  "clear_active R state s = hdel R state active_fields s"

definition remember :: "'s redis \<Rightarrow> string \<Rightarrow> verify_args \<Rightarrow> string \<Rightarrow> 's \<Rightarrow> 's \<times> string option" where
  "remember R ops a result s =
     (pexpire R ops (idempotency_ttl a) (hset R ops [(operation_id a, expected_id a @ ''|'' @ result)] s),
      Some result)"

definition challengeCompleteVerify :: "'s redis \<Rightarrow> string \<Rightarrow> string \<Rightarrow> verify_args \<Rightarrow> 's \<Rightarrow> 's \<times> string option" where
  "challengeCompleteVerify R state ops a s =
     (let now = redis_now R s in
      case hget R s ops (operation_id a) of
        Some replay \<Rightarrow>
          (case split_bar replay of
             Some (before, rest) \<Rightarrow>
               if before = expected_id a then (s, Some rest) else (s, Some ''STALE'')
           | None \<Rightarrow> (s, Some ''STALE''))
      | None \<Rightarrow>
          if hget R s state ''active_id'' \<noteq> Some (expected_id a)
             \<or> hget R s state ''active_digest'' \<noteq> Some (expected_digest a) then (s, Some ''STALE'')
          else
            (case num_or_zero (hget R s state ''active_expires_at'') of
               None \<Rightarrow> (s, None)
             | Some expires \<Rightarrow>
                 if expires \<le> now then remember R ops a ''EXPIRED'' (clear_active R state s)
                 else if matched a then remember R ops a ''SUCCESS'' (clear_active R state s)
                 else
                   (case num_or_zero (hget R s state ''active_attempts'') of
                      None \<Rightarrow> (s, None)
                    | Some n \<Rightarrow>
                        (let attempts = n + 1 in
                         if attempts \<ge> max_attempts a then remember R ops a ''LOCKED'' (clear_active R state s)
                         else remember R ops a ''INVALID''
                                (hset R state [(''active_attempts'', lua_number attempts)] s)))))"

section \<open>Decimal numbers round-trip\<close>

lemma of_char_digit: "n < 10 \<Longrightarrow> of_char (digit_char n) = 48 + n"
  by (simp add: digit_char_def)

lemma digit_range: "n < 10 \<Longrightarrow> CHR ''0'' \<le> digit_char n \<and> digit_char n \<le> CHR ''9''"
  by (simp add: less_eq_char_def digit_char_def)

lemma dec_digits_append: "dec_digits acc (xs @ ys) = Option.bind (dec_digits acc xs) (\<lambda>a. dec_digits a ys)"
  by (induction xs arbitrary: acc) auto

lemma dec_digits_nat_dec: "dec_digits 0 (nat_dec n) = Some n"
proof (induction n rule: nat_dec.induct)
  case (1 n)
  show ?case
  proof (cases "n < 10")
    case True
    then show ?thesis using digit_range by (simp add: nat_dec.simps [of n] of_char_digit)
  next
    case False
    have r: "n mod 10 < 10" by simp
    from 1 [OF False] False show ?thesis
      using digit_range [OF r] by (simp add: nat_dec.simps [of n] dec_digits_append of_char_digit)
  qed
qed

lemma nat_dec_not_Nil: "nat_dec n \<noteq> []"
  by (simp add: nat_dec.simps [of n])

lemma nat_dec_no_minus: "hd (nat_dec n) \<noteq> CHR ''-''"
proof (induction n rule: nat_dec.induct)
  case (1 n)
  show ?case
  proof (cases "n < 10")
    case True
    with digit_range [OF True] show ?thesis
      by (auto simp: nat_dec.simps [of n] less_eq_char_def)
  next
    case False
    with 1 [OF False] show ?thesis by (simp add: nat_dec.simps [of n] nat_dec_not_Nil)
  qed
qed

lemma lua_round_trip [simp]: "lua_tonumber (lua_number n) = Some n"
proof (cases "n < 0")
  case True
  then show ?thesis by (simp add: lua_tonumber_def lua_number_def dec_digits_nat_dec nat_dec_not_Nil)
next
  case False
  obtain c cs where c: "nat_dec (nat n) = c # cs" using nat_dec_not_Nil by (metis list.exhaust)
  then have "c \<noteq> CHR ''-''" using nat_dec_no_minus [of "nat n"] by simp
  with False c dec_digits_nat_dec [of "nat n"] show ?thesis
    by (auto simp: lua_tonumber_def lua_number_def)
qed

end
