(* ===== verification/Challenge_Spec.thy ===== *)
theory Challenge_Spec
  imports Challenge_Scripts
begin

text \<open>
  The abstract challenge of one subject: a pending reservation, an active verifier, a cooldown, the issue
  quota and the remembered answers, and what each script does to it. \<open>repr\<close> relates it to the Redis store;
  the refinement lemmas show that each Lua script, run on a store that represents a challenge, never
  raises a Lua error, replies as the specification says and represents the specification's result.
\<close>

section \<open>The abstract challenge\<close>

record pending =
  p_id :: string
  p_digest :: string
  p_pepper :: string
  p_lease :: int
  p_ttl :: int
  p_cooldown :: int

record verifier =
  v_id :: string
  v_digest :: string
  v_pepper :: string
  v_expires :: int
  v_attempts :: int

record challenge =
  pend :: "pending option"
  act :: "verifier option"
  cool :: "int option"
  last_abort :: "string option"
  issued :: "string \<Rightarrow> int option"
  answers :: "string \<Rightarrow> string option"

definition no_challenge :: challenge where
  "no_challenge = \<lparr>pend = None, act = None, cool = None, last_abort = None, issued = (\<lambda>_. None), answers = (\<lambda>_. None)\<rparr>"

definition prune :: "int \<Rightarrow> (string \<Rightarrow> int option) \<Rightarrow> string \<Rightarrow> int option" where
  "prune v q = (\<lambda>m. case q m of Some w \<Rightarrow> if w \<le> v then None else Some w | None \<Rightarrow> None)"

definition members :: "(string \<Rightarrow> int option) \<Rightarrow> int" where
  "members q = int (card {m. q m \<noteq> None})"

definition cooldown_until :: "challenge \<Rightarrow> int" where
  "cooldown_until c = (case cool c of None \<Rightarrow> 0 | Some x \<Rightarrow> x)"

text \<open>A live reservation blocks; otherwise the cooldown, then the quota, decide.\<close>

definition spec_reserve :: "begin_args \<Rightarrow> int \<Rightarrow> challenge \<Rightarrow> challenge \<times> string" where
  "spec_reserve a now c =
     (if cooldown_until c > now then (c, ''COOLDOWN'')
      else
        (let q = prune (now - quota_window a) (issued c) in
         if members q \<ge> max_issues a then (c\<lparr>issued := q\<rparr>, ''QUOTA'')
         else (c\<lparr>issued := q(issue_id a \<mapsto> now),
                 pend := Some \<lparr>p_id = issue_id a, p_digest = issue_digest a, p_pepper = issue_pepper a,
                   p_lease = now + pending_ttl a, p_ttl = challenge_ttl a, p_cooldown = cooldown_ttl a\<rparr>\<rparr>,
               ''OK'')))"

definition spec_begin :: "begin_args \<Rightarrow> int \<Rightarrow> challenge \<Rightarrow> challenge \<times> string" where
  "spec_begin a now c =
     (case pend c of
        None \<Rightarrow> spec_reserve a now c
      | Some p \<Rightarrow>
          if p_lease p > now then (c, if p_id p = issue_id a then ''OK'' else ''PENDING'')
          else spec_reserve a now (c\<lparr>pend := None\<rparr>))"

definition spec_commit :: "string \<Rightarrow> int \<Rightarrow> challenge \<Rightarrow> challenge \<times> string" where
  "spec_commit iid now c =
     (if map_option v_id (act c) = Some iid then (c, ''OK'')
      else
        (case pend c of
           None \<Rightarrow> (c, ''STALE'')
         | Some p \<Rightarrow>
             if p_id p \<noteq> iid then (c, ''STALE'')
             else if p_lease p \<le> now then (c\<lparr>pend := None\<rparr>, ''EXPIRED'')
             else (c\<lparr>pend := None,
                     act := Some \<lparr>v_id = iid, v_digest = p_digest p, v_pepper = p_pepper p,
                                  v_expires = now + p_ttl p, v_attempts = 0\<rparr>,
                     cool := Some (now + p_cooldown p), answers := (\<lambda>_. None)\<rparr>, ''OK'')))"

definition spec_abort :: "string \<Rightarrow> challenge \<Rightarrow> challenge \<times> string" where
  "spec_abort iid c =
     (if last_abort c = Some iid then (c, ''OK'')
      else if map_option p_id (pend c) \<noteq> Some iid then (c, ''STALE'')
      else (c\<lparr>pend := None, last_abort := Some iid\<rparr>, ''OK''))"

definition answer :: "verify_args \<Rightarrow> string \<Rightarrow> challenge \<Rightarrow> challenge \<times> string" where
  "answer a r c = (c\<lparr>answers := (answers c)(operation_id a \<mapsto> expected_id a @ ''|'' @ r)\<rparr>, r)"

definition spec_complete :: "verify_args \<Rightarrow> int \<Rightarrow> challenge \<Rightarrow> challenge \<times> string" where
  "spec_complete a now c =
     (case answers c (operation_id a) of
        Some replay \<Rightarrow>
          (c, case split_bar replay of
                Some (before, rest) \<Rightarrow> if before = expected_id a then rest else ''STALE''
              | None \<Rightarrow> ''STALE'')
      | None \<Rightarrow>
          (case act c of
             None \<Rightarrow> (c, ''STALE'')
           | Some v \<Rightarrow>
               if v_id v \<noteq> expected_id a \<or> v_digest v \<noteq> expected_digest a then (c, ''STALE'')
               else if v_expires v \<le> now then answer a ''EXPIRED'' (c\<lparr>act := None\<rparr>)
               else if matched a then answer a ''SUCCESS'' (c\<lparr>act := None\<rparr>)
               else if v_attempts v + 1 \<ge> max_attempts a then answer a ''LOCKED'' (c\<lparr>act := None\<rparr>)
               else answer a ''INVALID'' (c\<lparr>act := Some (v\<lparr>v_attempts := v_attempts v + 1\<rparr>)\<rparr>)))"

section \<open>Representation\<close>

definition repr :: "'s redis \<Rightarrow> string \<Rightarrow> string \<Rightarrow> string \<Rightarrow> 's \<Rightarrow> challenge \<Rightarrow> bool" where
  "repr R state quota ops s c \<longleftrightarrow>
     hget R s state ''pending_id'' = map_option p_id (pend c)
   \<and> hget R s state ''pending_digest'' = map_option p_digest (pend c)
   \<and> hget R s state ''pending_pepper'' = map_option p_pepper (pend c)
   \<and> hget R s state ''pending_lease_until'' = map_option (\<lambda>p. lua_number (p_lease p)) (pend c)
   \<and> hget R s state ''pending_ttl_ms'' = map_option (\<lambda>p. lua_number (p_ttl p)) (pend c)
   \<and> hget R s state ''pending_cooldown_ms'' = map_option (\<lambda>p. lua_number (p_cooldown p)) (pend c)
   \<and> hget R s state ''active_id'' = map_option v_id (act c)
   \<and> hget R s state ''active_digest'' = map_option v_digest (act c)
   \<and> hget R s state ''active_pepper'' = map_option v_pepper (act c)
   \<and> hget R s state ''active_expires_at'' = map_option (\<lambda>v. lua_number (v_expires v)) (act c)
   \<and> hget R s state ''active_attempts'' = map_option (\<lambda>v. lua_number (v_attempts v)) (act c)
   \<and> hget R s state ''cooldown_until'' = map_option lua_number (cool c)
   \<and> hget R s state ''last_abort_id'' = last_abort c
   \<and> (\<forall>m. zscore R s quota m = issued c m)
   \<and> (\<forall>f. hget R s ops f = answers c f)"

definition good_keys :: "string \<Rightarrow> string \<Rightarrow> string \<Rightarrow> bool" where
  "good_keys state quota ops \<longleftrightarrow> state \<noteq> quota \<and> state \<noteq> ops \<and> quota \<noteq> ops"

lemma good_keysD:
  "good_keys state quota ops \<Longrightarrow> state \<noteq> quota \<and> quota \<noteq> state \<and> state \<noteq> ops \<and> ops \<noteq> state \<and> quota \<noteq> ops \<and> ops \<noteq> quota"
  by (auto simp: good_keys_def)

lemma num_or_zero_number [simp]: "num_or_zero (Some (lua_number n)) = Some n" "num_or_zero None = Some 0"
  by (simp_all add: num_or_zero_def)

lemma redis_rules:
  assumes "redis_laws R"
  shows "hget R (hset R k fvs s) k' f =
        (if k' = k then case map_of (rev fvs) f of Some v \<Rightarrow> Some v | None \<Rightarrow> hget R s k' f else hget R s k' f)"
    and "hget R (hdel R k fs s) k' f = (if k' = k \<and> f \<in> set fs then None else hget R s k' f)"
    and "hget R (del R k s) k' f = (if k' = k then None else hget R s k' f)"
    and "hget R (zadd R k i m s) k' f = hget R s k' f"
    and "hget R (zremrangebyscore R k i s) k' f = hget R s k' f"
    and "i > 0 \<Longrightarrow> hget R (pexpire R k i s) k' f = hget R s k' f"
    and "zscore R (hset R k fvs s) k' m = zscore R s k' m"
    and "zscore R (hdel R k fs s) k' m = zscore R s k' m"
    and "zscore R (del R k s) k' m = (if k' = k then None else zscore R s k' m)"
    and "zscore R (zadd R k i x s) k' m = (if k' = k \<and> m = x then Some i else zscore R s k' m)"
    and "zscore R (zremrangebyscore R k i s) k' m =
        (if k' = k then prune i (zscore R s k') m else zscore R s k' m)"
    and "i > 0 \<Longrightarrow> zscore R (pexpire R k i s) k' m = zscore R s k' m"
    and "finite {m. zscore R s k m \<noteq> None}" and "zcard R s k = members (zscore R s k)"
  using assms unfolding redis_laws_def by (simp_all add: prune_def members_def)

lemma repr_clear_pending:
  assumes "redis_laws R" and "good_keys state quota ops" and "repr R state quota ops s c"
  shows "repr R state quota ops (hdel R state pending_fields s) (c\<lparr>pend := None\<rparr>)"
  using good_keysD [OF assms(2)] assms(3) unfolding repr_def
  by (simp add: redis_rules [OF assms(1)] pending_fields_def)

lemma repr_clear_active:
  assumes "redis_laws R" and "good_keys state quota ops" and "repr R state quota ops s c"
  shows "repr R state quota ops (clear_active R state s) (c\<lparr>act := None\<rparr>)"
  using good_keysD [OF assms(2)] assms(3) unfolding repr_def clear_active_def
  by (simp add: redis_rules [OF assms(1)] active_fields_def)

lemma repr_remember:
  assumes "redis_laws R" and "good_keys state quota ops" and "repr R state quota ops s c"
    and "idempotency_ttl a > 0" and "remember R ops a r s = (s', reply)"
  shows "reply = Some r \<and> repr R state quota ops s' (fst (answer a r c))"
  using good_keysD [OF assms(2)] assms(3-5) unfolding repr_def remember_def answer_def
  by (auto simp: redis_rules [OF assms(1)])

section \<open>Refinement\<close>

lemma begin_reserve_refines:
  assumes "redis_laws R" and "good_keys state quota ops" and "repr R state quota ops s c"
    and "begin_reserve R state quota a now s = (s', reply)"
  shows "reply = Some (snd (spec_reserve a now c)) \<and> repr R state quota ops s' (fst (spec_reserve a now c))"
proof -
  note rules = redis_rules [OF assms(1)]
  have cd: "num_or_zero (hget R s state ''cooldown_until'') = Some (cooldown_until c)"
    using assms(3) by (auto simp: repr_def cooldown_until_def split: option.split)
  let ?s1 = "zremrangebyscore R quota (now - quota_window a) s" and ?q = "prune (now - quota_window a) (issued c)"
  have z1: "zscore R ?s1 quota = ?q"
    using assms(3) by (auto simp: rules repr_def prune_def)
  have r1: "repr R state quota ops ?s1 (c\<lparr>issued := ?q\<rparr>)"
    using assms(3) z1 unfolding repr_def by (simp add: rules)
  show ?thesis
  proof (cases "cooldown_until c > now \<or> members ?q \<ge> max_issues a")
    case True
    with assms(3,4) cd r1 show ?thesis
      by (auto simp: begin_reserve_def spec_reserve_def rules(14) z1 Let_def split: if_splits)
  next
    case False
    let ?fields = "[(''pending_id'', issue_id a), (''pending_digest'', issue_digest a),
      (''pending_pepper'', issue_pepper a), (''pending_lease_until'', lua_number (now + pending_ttl a)),
      (''pending_ttl_ms'', lua_number (challenge_ttl a)), (''pending_cooldown_ms'', lua_number (cooldown_ttl a))]"
    let ?s3 = "hset R state ?fields (zadd R quota now (issue_id a) ?s1)"
    let ?p = "\<lparr>p_id = issue_id a, p_digest = issue_digest a, p_pepper = issue_pepper a,
      p_lease = now + pending_ttl a, p_ttl = challenge_ttl a, p_cooldown = cooldown_ttl a\<rparr>"
    let ?c = "c\<lparr>issued := ?q(issue_id a \<mapsto> now), pend := Some ?p\<rparr>"
    have r3: "repr R state quota ops ?s3 ?c"
      using r1 good_keysD [OF assms(2)] unfolding repr_def by (simp add: rules)
    then obtain n where n: "num_or_zero (hget R ?s3 state ''active_expires_at'') = Some n"
      by (cases "act c") (auto simp: repr_def)
    have r5: "repr R state quota ops (pexpire R quota (max 1 i) (pexpire R state (max 1 j) ?s3)) ?c" for i j
      using r3 unfolding repr_def by (simp add: rules)
    have "reply = Some ''OK'' \<and> (\<exists>i j. s' = pexpire R quota (max 1 i) (pexpire R state (max 1 j) ?s3))"
      using assms(4) cd False n by (auto simp: begin_reserve_def rules(14) z1 Let_def)
    moreover have "spec_reserve a now c = (?c, ''OK'')" using False by (simp add: spec_reserve_def Let_def)
    ultimately show ?thesis using r5 by auto
  qed
qed

lemma challengeBegin_refines:
  assumes "redis_laws R" and "good_keys state quota ops" and "repr R state quota ops s c"
    and "challengeBegin R state quota a s = (s', reply)"
  shows "reply = Some (snd (spec_begin a (redis_now R s) c))
    \<and> repr R state quota ops s' (fst (spec_begin a (redis_now R s) c))"
proof (cases "pend c")
  case None
  with assms(3) have "hget R s state ''pending_id'' = None" by (simp add: repr_def)
  with assms(4) have "begin_reserve R state quota a (redis_now R s) s = (s', reply)"
    by (simp add: challengeBegin_def Let_def)
  from begin_reserve_refines [OF assms(1-3) this] None show ?thesis by (simp add: spec_begin_def)
next
  case (Some p)
  then have h: "hget R s state ''pending_id'' = Some (p_id p)"
    "num_or_zero (hget R s state ''pending_lease_until'') = Some (p_lease p)"
    using assms(3) by (simp_all add: repr_def)
  show ?thesis
  proof (cases "p_lease p > redis_now R s")
    case True
    with assms(3,4) h Some show ?thesis by (auto simp: challengeBegin_def spec_begin_def Let_def split: if_splits)
  next
    case False
    with assms(4) h have "begin_reserve R state quota a (redis_now R s) (hdel R state pending_fields s) = (s', reply)"
      by (simp add: challengeBegin_def Let_def)
    from begin_reserve_refines [OF assms(1,2) repr_clear_pending [OF assms(1-3)] this] Some False
    show ?thesis by (simp add: spec_begin_def)
  qed
qed

lemma challengeCommit_refines:
  assumes "redis_laws R" and "good_keys state quota ops" and "repr R state quota ops s c"
    and "challengeCommit R state ops iid grace s = (s', reply)"
  shows "reply = Some (snd (spec_commit iid (redis_now R s) c))
    \<and> repr R state quota ops s' (fst (spec_commit iid (redis_now R s) c))"
proof (cases "map_option v_id (act c) = Some iid \<or> map_option p_id (pend c) \<noteq> Some iid")
  case True
  then show ?thesis
    using assms(3,4) by (auto simp: challengeCommit_def spec_commit_def repr_def Let_def split: option.splits if_splits)
next
  case False
  note rules = redis_rules [OF assms(1)]
  from False obtain p where p: "pend c = Some p" "p_id p = iid" by auto
  then have h: "hget R s state ''pending_id'' = Some iid" "hget R s state ''active_id'' \<noteq> Some iid"
    "num_or_zero (hget R s state ''pending_lease_until'') = Some (p_lease p)"
    "hget R s state ''pending_digest'' = Some (p_digest p)" "hget R s state ''pending_pepper'' = Some (p_pepper p)"
    "Option.bind (hget R s state ''pending_ttl_ms'') lua_tonumber = Some (p_ttl p)"
    "Option.bind (hget R s state ''pending_cooldown_ms'') lua_tonumber = Some (p_cooldown p)"
    using assms(3) False by (auto simp: repr_def)
  show ?thesis
  proof (cases "p_lease p \<le> redis_now R s")
    case True
    with assms(4) h p False repr_clear_pending [OF assms(1-3)] show ?thesis
      by (auto simp: challengeCommit_def spec_commit_def Let_def)
  next
    case live: False
    let ?now = "redis_now R s"
    let ?fields = "[(''active_id'', iid), (''active_digest'', p_digest p), (''active_pepper'', p_pepper p),
      (''active_expires_at'', lua_number (?now + p_ttl p)), (''active_attempts'', lua_number 0),
      (''cooldown_until'', lua_number (?now + p_cooldown p))]"
    let ?s3 = "del R ops (hdel R state pending_fields (hset R state ?fields s))"
    let ?c = "c\<lparr>pend := None,
      act := Some \<lparr>v_id = iid, v_digest = p_digest p, v_pepper = p_pepper p, v_expires = ?now + p_ttl p, v_attempts = 0\<rparr>,
      cool := Some (?now + p_cooldown p), answers := (\<lambda>_. None)\<rparr>"
    have "repr R state quota ops ?s3 ?c"
      using good_keysD [OF assms(2)] assms(3) unfolding repr_def by (simp add: rules pending_fields_def)
    then have r: "repr R state quota ops (pexpire R state (max 1 i) ?s3) ?c" for i
      unfolding repr_def by (simp add: rules)
    have "reply = Some ''OK'' \<and> (\<exists>i. s' = pexpire R state (max 1 i) ?s3)"
      using assms(4) h live by (auto simp: challengeCommit_def Let_def)
    moreover have "spec_commit iid ?now c = (?c, ''OK'')" using False p live by (auto simp: spec_commit_def)
    ultimately show ?thesis using r by auto
  qed
qed

lemma challengeAbort_refines:
  assumes "redis_laws R" and "good_keys state quota ops" and "repr R state quota ops s c"
    and "challengeAbort R state iid s = (s', reply)"
  shows "reply = Some (snd (spec_abort iid c)) \<and> repr R state quota ops s' (fst (spec_abort iid c))"
proof (cases "last_abort c = Some iid \<or> map_option p_id (pend c) \<noteq> Some iid")
  case True
  with assms(3,4) show ?thesis
    by (auto simp: challengeAbort_def spec_abort_def repr_def split: if_splits)
next
  case False
  have r: "repr R state quota ops (hset R state [(''last_abort_id'', iid)] (hdel R state pending_fields s))
      (c\<lparr>pend := None, last_abort := Some iid\<rparr>)"
    using repr_clear_pending [OF assms(1-3)] good_keysD [OF assms(2)] unfolding repr_def
    by (simp add: redis_rules [OF assms(1)])
  have "hget R s state ''last_abort_id'' = last_abort c" "hget R s state ''pending_id'' = map_option p_id (pend c)"
    using assms(3) by (simp_all add: repr_def)
  with assms(4) False r show ?thesis by (auto simp: challengeAbort_def spec_abort_def Let_def)
qed

lemma challengeCompleteVerify_refines:
  assumes "redis_laws R" and "good_keys state quota ops" and "repr R state quota ops s c"
    and "idempotency_ttl a > 0" and "challengeCompleteVerify R state ops a s = (s', reply)"
  shows "reply = Some (snd (spec_complete a (redis_now R s) c))
    \<and> repr R state quota ops s' (fst (spec_complete a (redis_now R s) c))"
proof -
  have h: "hget R s ops f = answers c f" "hget R s state ''active_id'' = map_option v_id (act c)"
    "hget R s state ''active_digest'' = map_option v_digest (act c)"
    "num_or_zero (hget R s state ''active_expires_at'') = Some (case act c of None \<Rightarrow> 0 | Some v \<Rightarrow> v_expires v)"
    "num_or_zero (hget R s state ''active_attempts'') = Some (case act c of None \<Rightarrow> 0 | Some v \<Rightarrow> v_attempts v)" for f
    using assms(3) by (auto simp: repr_def split: option.split)
  have snd_answer: "snd (answer a r d) = r" for r d by (simp add: answer_def)
  show ?thesis
  proof (cases "answers c (operation_id a)")
    case (Some replay)
    with assms(3,5) h show ?thesis
      by (auto simp: challengeCompleteVerify_def spec_complete_def Let_def split: option.splits prod.splits if_splits)
  next
    case fresh: None
    show ?thesis
    proof (cases "act c")
      case None
      with assms(3,5) h fresh show ?thesis by (auto simp: challengeCompleteVerify_def spec_complete_def Let_def)
    next
      case (Some v)
      note rem = repr_remember [OF assms(1,2) _ assms(4)]
      note cleared = repr_clear_active [OF assms(1-3)]
      have counted: "repr R state quota ops (hset R state [(''active_attempts'', lua_number (v_attempts v + 1))] s)
          (c\<lparr>act := Some (v\<lparr>v_attempts := v_attempts v + 1\<rparr>)\<rparr>)"
        using good_keysD [OF assms(2)] assms(3) Some unfolding repr_def by (simp add: redis_rules [OF assms(1)])
      show ?thesis
        using assms(3,5) h fresh Some rem [OF cleared] rem [OF counted]
        by (auto simp: challengeCompleteVerify_def spec_complete_def Let_def snd_answer split: if_splits)
    qed
  qed
qed

end
