(* ===== verification/Challenge_Once.thy ===== *)
theory Challenge_Once
  imports Challenge_Spec
begin

text \<open>
  One-time verification over any interleaving of the scripts. \<open>store_run R N state quota ops s B L\<close>: the
  store \<open>s\<close> is reachable from an empty one by scripts of any clients on one subject, by the clock and by
  keys expiring at any moment; \<open>B\<close> are the issue ids ever used and \<open>L\<close> the verification calls. An id is
  used by one \<open>BeginIssue\<close> only (it is 192 random bits), except that its own begin script may be retried
  while the reservation is pending.
\<close>

section \<open>Runs\<close>

text \<open>A call: expected id, operation id, whether it was evaluated (not answered from memory), result.\<close>

type_synonym call = "string \<times> string \<times> bool \<times> string"

definition same_key :: "'s redis \<Rightarrow> string \<Rightarrow> 's \<Rightarrow> 's \<Rightarrow> bool" where
  "same_key R k s s' \<longleftrightarrow>
     (\<forall>f. hget R s' k f = hget R s k f) \<and> (\<forall>m. zscore R s' k m = zscore R s k m)"

definition gone_key :: "'s redis \<Rightarrow> string \<Rightarrow> 's \<Rightarrow> bool" where
  "gone_key R k s' \<longleftrightarrow> (\<forall>f. hget R s' k f = None) \<and> (\<forall>m. zscore R s' k m = None)"

inductive store_run :: "'s redis \<Rightarrow> int \<Rightarrow> string \<Rightarrow> string \<Rightarrow> string \<Rightarrow> 's \<Rightarrow> string set \<Rightarrow> call list \<Rightarrow> bool"
  for R N state quota ops where
  run_empty: "(\<And>k. gone_key R k s) \<Longrightarrow> store_run R N state quota ops s {} []"
| run_begin: "store_run R N state quota ops s B L \<Longrightarrow>
    issue_id a \<notin> B \<or> hget R s state ''pending_id'' = Some (issue_id a) \<Longrightarrow>
    challengeBegin R state quota a s = (s', reply) \<Longrightarrow> store_run R N state quota ops s' (insert (issue_id a) B) L"
| run_commit: "store_run R N state quota ops s B L \<Longrightarrow>
    challengeCommit R state ops iid grace s = (s', reply) \<Longrightarrow> store_run R N state quota ops s' B L"
| run_abort: "store_run R N state quota ops s B L \<Longrightarrow>
    challengeAbort R state iid s = (s', reply) \<Longrightarrow> store_run R N state quota ops s' B L"
| run_verify: "store_run R N state quota ops s B L \<Longrightarrow> max_attempts a = N \<Longrightarrow> idempotency_ttl a > 0 \<Longrightarrow>
    challengeCompleteVerify R state ops a s = (s', Some reply) \<Longrightarrow>
    store_run R N state quota ops s' B
      (L @ [(expected_id a, operation_id a, hget R s ops (operation_id a) = None, reply)])"
| run_expire: "store_run R N state quota ops s B L \<Longrightarrow>
    (\<And>k. same_key R k s s' \<or> gone_key R k s') \<Longrightarrow> store_run R N state quota ops s' B L"

section \<open>The invariant\<close>

definition evals :: "string \<Rightarrow> call list \<Rightarrow> string list" where
  "evals i L = map (\<lambda>(_, _, _, r). r) (filter (\<lambda>(j, _, e, r). j = i \<and> e \<and> r \<noteq> ''STALE'') L)"

lemma evals_snoc [simp]:
  "evals i [] = []"
  "evals i (L @ [(j, x, e, r)]) = evals i L @ (if j = i \<and> e \<and> r \<noteq> ''STALE'' then [r] else [])"
  by (simp_all add: evals_def)

definition final_results :: "string list" where
  "final_results = [''EXPIRED'', ''SUCCESS'', ''LOCKED'']"

definition bounded_evals :: "int \<Rightarrow> string list \<Rightarrow> bool" where
  "bounded_evals N rs \<longleftrightarrow>
     (\<exists>k tail. rs = replicate k ''INVALID'' @ tail \<and> length tail \<le> 1 \<and> set tail \<subseteq> set final_results
        \<and> int (length rs) \<le> N)"

definition once_inv :: "int \<Rightarrow> challenge \<Rightarrow> string set \<Rightarrow> call list \<Rightarrow> bool" where
  "once_inv N c B L \<longleftrightarrow>
     (\<forall>p. pend c = Some p \<longrightarrow> p_id p \<in> B \<and> evals (p_id p) L = [] \<and> map_option v_id (act c) \<noteq> Some (p_id p))
   \<and> (\<forall>v. act c = Some v \<longrightarrow> v_id v \<in> B \<and> 0 \<le> v_attempts v \<and> v_attempts v < N
        \<and> evals (v_id v) L = replicate (nat (v_attempts v)) ''INVALID'')
   \<and> (\<forall>i. i \<notin> B \<longrightarrow> evals i L = [])
   \<and> (\<forall>i. bounded_evals N (evals i L))
   \<and> (\<forall>x y. answers c x = Some y \<longrightarrow>
        (\<exists>i r. y = i @ ''|'' @ r \<and> (i, x, True, r) \<in> set L \<and> r \<in> set (''INVALID'' # final_results)))
   \<and> (\<forall>i x r. (i, x, False, r) \<in> set L \<and> CHR ''|'' \<notin> set r \<and> r \<noteq> ''STALE'' \<longrightarrow> (i, x, True, r) \<in> set L)"

lemma split_bar_append: "CHR ''|'' \<notin> set i \<Longrightarrow> split_bar (i @ CHR ''|'' # r) = Some (i, r)"
  by (induction i) auto

lemma split_bar_Some: "split_bar s = Some (a, b) \<Longrightarrow> s = a @ CHR ''|'' # b \<and> CHR ''|'' \<notin> set a"
  by (induction s arbitrary: a) (auto split: if_splits)

lemma first_bar_unique:
  "x \<notin> set xs \<Longrightarrow> x \<notin> set xs' \<Longrightarrow> xs @ x # ys = xs' @ x # ys' \<Longrightarrow> xs = xs' \<and> ys = ys'"
proof (induction xs arbitrary: xs')
  case Nil
  then show ?case by (cases xs') auto
next
  case (Cons a xs)
  then show ?case by (cases xs') auto
qed

lemma last_bar_unique:
  "CHR ''|'' \<notin> set r \<Longrightarrow> CHR ''|'' \<notin> set r' \<Longrightarrow> i @ CHR ''|'' # r = i' @ CHR ''|'' # r' \<Longrightarrow> i = i' \<and> r = r'"
proof -
  assume a: "CHR ''|'' \<notin> set r" "CHR ''|'' \<notin> set r'" "i @ CHR ''|'' # r = i' @ CHR ''|'' # r'"
  from a(3) have "rev (i @ CHR ''|'' # r) = rev (i' @ CHR ''|'' # r')" by simp
  then have "rev r @ CHR ''|'' # rev i = rev r' @ CHR ''|'' # rev i'" by simp
  with a(1,2) have "rev r = rev r' \<and> rev i = rev i'"
    by (intro first_bar_unique) simp_all
  then show ?thesis by simp
qed

lemma once_inv_no_pend: "once_inv N c B L \<Longrightarrow> once_inv N (c\<lparr>pend := None\<rparr>) B L"
  by (simp add: once_inv_def)

lemma once_inv_issued: "once_inv N (c\<lparr>issued := q\<rparr>) B L \<longleftrightarrow> once_inv N c B L"
  by (simp add: once_inv_def)

lemma once_inv_more_ids: "once_inv N c B L \<Longrightarrow> once_inv N c (insert i B) L"
  by (auto simp: once_inv_def)

lemma once_inv_reserve:
  assumes "once_inv N c B L" and "issue_id a \<notin> B \<or> map_option p_id (pend c) = Some (issue_id a)"
  shows "once_inv N (fst (spec_reserve a now (c\<lparr>pend := None\<rparr>))) (insert (issue_id a) B) L"
proof -
  have free: "evals (issue_id a) L = []" "map_option v_id (act c) \<noteq> Some (issue_id a)"
    using assms by (auto simp: once_inv_def)
  have inv: "once_inv N (c\<lparr>pend := None\<rparr>) (insert (issue_id a) B) L"
    using assms(1) by (intro once_inv_more_ids once_inv_no_pend)
  show ?thesis
    using inv free unfolding spec_reserve_def Let_def
    by (auto simp: once_inv_issued) (auto simp: once_inv_def)
qed

lemma once_inv_begin:
  assumes "once_inv N c B L" and "issue_id a \<notin> B \<or> map_option p_id (pend c) = Some (issue_id a)"
  shows "once_inv N (fst (spec_begin a now c)) (insert (issue_id a) B) L"
proof (cases "pend c")
  case None
  then have "c\<lparr>pend := None\<rparr> = c" by (cases c) simp
  with once_inv_reserve [OF assms, of now] None show ?thesis by (simp add: spec_begin_def)
next
  case (Some p)
  with once_inv_reserve [OF assms, of now] once_inv_more_ids [OF assms(1)] show ?thesis
    by (simp add: spec_begin_def)
qed

lemma once_inv_commit:
  assumes "once_inv N c B L" and "N > 0"
  shows "once_inv N (fst (spec_commit iid now c)) B L"
  using assms unfolding spec_commit_def once_inv_def
  by (auto split: option.splits)

lemma once_inv_abort:
  assumes "once_inv N c B L"
  shows "once_inv N (fst (spec_abort iid c)) B L"
  using assms unfolding spec_abort_def once_inv_def by auto

lemma results_no_bar: "r \<in> set (''INVALID'' # final_results) \<Longrightarrow> CHR ''|'' \<notin> set r"
  by (auto simp: final_results_def)

lemma once_inv_replay:
  assumes "once_inv N c B L" and "answers c (operation_id a) = Some y" and "spec_complete a now c = (c', r)"
  shows "once_inv N c' B (L @ [(expected_id a, operation_id a, False, r)])"
proof -
  have c': "c' = c" using assms(2,3) by (simp add: spec_complete_def)
  have "(expected_id a, operation_id a, True, r) \<in> set L"
    if "CHR ''|'' \<notin> set r" "r \<noteq> ''STALE''"
  proof -
    obtain i q where y: "y = i @ ''|'' @ q" "(i, operation_id a, True, q) \<in> set L"
      "q \<in> set (''INVALID'' # final_results)"
      using assms(1,2) unfolding once_inv_def by blast
    from assms(2,3) that(2) have "split_bar y = Some (expected_id a, r)"
      by (auto simp: spec_complete_def split: option.splits prod.splits if_splits)
    from split_bar_Some [OF this] y(1) have e: "i @ CHR ''|'' # q = expected_id a @ CHR ''|'' # r" by simp
    from last_bar_unique [OF results_no_bar [OF y(3)] that(1) e] y(2) show ?thesis by simp
  qed
  with assms(1) show ?thesis unfolding c' once_inv_def by auto
qed

lemma bounded_evals_snoc:
  "r = ''INVALID'' \<or> r \<in> set final_results \<Longrightarrow> int k < N \<Longrightarrow>
   bounded_evals N (replicate k ''INVALID'' @ [r])"
proof -
  assume r: "r = ''INVALID'' \<or> r \<in> set final_results" and k: "int k < N"
  show ?thesis
  proof (cases "r = ''INVALID''")
    case True
    then have "replicate k ''INVALID'' @ [r] = replicate (Suc k) ''INVALID'' @ []"
      by (simp add: replicate_append_same)
    with k show ?thesis unfolding bounded_evals_def by fastforce
  next
    case False
    with r k show ?thesis unfolding bounded_evals_def
      by (intro exI [of _ k] exI [of _ "[r]"]) simp
  qed
qed

text \<open>An evaluated call against the active verifier \<open>v\<close> with result \<open>r\<close>; \<open>w\<close> is the verifier left behind.\<close>

lemma once_inv_evaluated:
  assumes inv: "once_inv N c B L" and v: "act c = Some v" "v_id v = expected_id a"
    and r: "r \<in> set (''INVALID'' # final_results)"
    and w: "w = None \<or> r = ''INVALID'' \<and> w = Some (v\<lparr>v_attempts := v_attempts v + 1\<rparr>) \<and> v_attempts v + 1 < N"
  shows "once_inv N (fst (answer a r (c\<lparr>act := w\<rparr>))) B (L @ [(expected_id a, operation_id a, True, r)])"
proof -
  let ?L = "L @ [(expected_id a, operation_id a, True, r)]"
  have n: "v_id v \<in> B" "0 \<le> v_attempts v" "v_attempts v < N"
    "evals (v_id v) L = replicate (nat (v_attempts v)) ''INVALID''"
    using inv v(1) by (auto simp: once_inv_def)
  have st: "r \<noteq> ''STALE''" using r by (auto simp: final_results_def)
  have ev: "evals i ?L = (if i = v_id v then replicate (nat (v_attempts v)) ''INVALID'' @ [r] else evals i L)" for i
    using st n(4) v(2) by simp
  have b: "bounded_evals N (evals i ?L)" for i
  proof (cases "i = v_id v")
    case True
    have "int (nat (v_attempts v)) < N" using n(2,3) by simp
    with True r bounded_evals_snoc [of r "nat (v_attempts v)" N] show ?thesis by (simp only: ev if_True) simp
  next
    case False
    with inv show ?thesis by (simp only: ev if_False once_inv_def)
  qed
  have pend: "p_id p \<noteq> v_id v" if "pend c = Some p" for p
    using inv that v(1) by (auto simp: once_inv_def)
  have act: "evals (v_id v) ?L = replicate (nat (v_attempts v + 1)) ''INVALID''" if "r = ''INVALID''"
    using that n(2) unfolding ev by (simp add: nat_add_distrib replicate_append_same)
  show ?thesis
    unfolding once_inv_def answer_def fst_conv
  proof (intro conjI allI impI)
    fix p assume "pend (c\<lparr>act := w, answers := (answers (c\<lparr>act := w\<rparr>))(operation_id a \<mapsto> expected_id a @ ''|'' @ r)\<rparr>) = Some p"
    then have p: "pend c = Some p" by simp
    with inv pend [OF p] show "p_id p \<in> B" "evals (p_id p) ?L = []"
      unfolding ev by (auto simp: once_inv_def)
    show "map_option v_id (act (c\<lparr>act := w, answers := (answers (c\<lparr>act := w\<rparr>))(operation_id a \<mapsto> expected_id a @ ''|'' @ r)\<rparr>)) \<noteq> Some (p_id p)"
      using w pend [OF p] by auto
  next
    fix u assume "act (c\<lparr>act := w, answers := (answers (c\<lparr>act := w\<rparr>))(operation_id a \<mapsto> expected_id a @ ''|'' @ r)\<rparr>) = Some u"
    with w have u: "u = v\<lparr>v_attempts := v_attempts v + 1\<rparr>" "r = ''INVALID''" "v_attempts v + 1 < N" by auto
    with n act show "v_id u \<in> B" "0 \<le> v_attempts u" "v_attempts u < N"
      "evals (v_id u) ?L = replicate (nat (v_attempts u)) ''INVALID''" by simp_all
  next
    fix i assume "i \<notin> B"
    with inv n(1) show "evals i ?L = []" unfolding ev by (auto simp: once_inv_def)
  next
    fix i show "bounded_evals N (evals i ?L)" by (rule b)
  next
    fix x y
    assume "answers (c\<lparr>act := w, answers := (answers (c\<lparr>act := w\<rparr>))(operation_id a \<mapsto> expected_id a @ ''|'' @ r)\<rparr>) x = Some y"
    then have y: "(if x = operation_id a then Some (expected_id a @ CHR ''|'' # r) else answers c x) = Some y"
      by (simp split del: if_split)
    show "\<exists>i q. y = i @ ''|'' @ q \<and> (i, x, True, q) \<in> set ?L \<and> q \<in> set (''INVALID'' # final_results)"
    proof (cases "x = operation_id a")
      case True
      with y have "y = expected_id a @ ''|'' @ r" by simp
      with True r show ?thesis by (intro exI [of _ "expected_id a"] exI [of _ r]) simp
    next
      case False
      with y have "answers c x = Some y" by simp
      with inv obtain i q where "y = i @ ''|'' @ q" "(i, x, True, q) \<in> set L" "q \<in> set (''INVALID'' # final_results)"
        unfolding once_inv_def by blast
      then show ?thesis by auto
    qed
  next
    fix i x q assume "(i, x, False, q) \<in> set ?L \<and> CHR ''|'' \<notin> set q \<and> q \<noteq> ''STALE''"
    with inv show "(i, x, True, q) \<in> set ?L" unfolding once_inv_def by auto
  qed
qed

lemma once_inv_stale:
  "once_inv N c B L \<Longrightarrow> once_inv N c B (L @ [(i, x, e, ''STALE'')])"
  unfolding once_inv_def by auto blast

lemma once_inv_complete:
  assumes inv: "once_inv N c B L" and "max_attempts a = N" and "spec_complete a now c = (c', r)"
  shows "once_inv N c' B (L @ [(expected_id a, operation_id a, answers c (operation_id a) = None, r)])"
proof (cases "answers c (operation_id a)")
  case (Some y)
  with once_inv_replay [OF inv Some assms(3)] show ?thesis by simp
next
  case fresh: None
  show ?thesis
  proof (cases "\<exists>v. act c = Some v \<and> v_id v = expected_id a \<and> v_digest v = expected_digest a")
    case False
    with assms(3) fresh have "c' = c" "r = ''STALE''" by (auto simp: spec_complete_def split: option.splits if_splits)
    with once_inv_stale [OF inv] show ?thesis by simp
  next
    case True
    then obtain v where v: "act c = Some v" "v_id v = expected_id a" "v_digest v = expected_digest a" by blast
    consider "v_expires v \<le> now" "(c', r) = answer a ''EXPIRED'' (c\<lparr>act := None\<rparr>)"
      | "matched a" "(c', r) = answer a ''SUCCESS'' (c\<lparr>act := None\<rparr>)"
      | "v_attempts v + 1 \<ge> N" "(c', r) = answer a ''LOCKED'' (c\<lparr>act := None\<rparr>)"
      | "v_attempts v + 1 < N" "(c', r) = answer a ''INVALID'' (c\<lparr>act := Some (v\<lparr>v_attempts := v_attempts v + 1\<rparr>)\<rparr>)"
      using assms(2,3) fresh v by (auto simp: spec_complete_def split: if_splits)
    then obtain w where "c' = fst (answer a r (c\<lparr>act := w\<rparr>))" "r \<in> set (''INVALID'' # final_results)"
      "w = None \<or> r = ''INVALID'' \<and> w = Some (v\<lparr>v_attempts := v_attempts v + 1\<rparr>) \<and> v_attempts v + 1 < N"
    proof cases
      case 1 then show thesis by (intro that [of None]) (auto simp: answer_def final_results_def)
    next
      case 2 then show thesis by (intro that [of None]) (auto simp: answer_def final_results_def)
    next
      case 3 then show thesis by (intro that [of None]) (auto simp: answer_def final_results_def)
    next
      case 4 then show thesis
        by (intro that [of "Some (v\<lparr>v_attempts := v_attempts v + 1\<rparr>)"]) (auto simp: answer_def)
    qed
    with once_inv_evaluated [OF inv v(1,2)] fresh show ?thesis by simp
  qed
qed

lemma once_inv_expire:
  assumes "once_inv N c B L" and "(\<forall>x. d x = answers c x) \<or> (\<forall>x. d x = None)"
  shows "once_inv N (c\<lparr>answers := d, issued := q\<rparr>) B L"
    and "once_inv N (c\<lparr>pend := None, act := None, cool := None, last_abort := None, answers := d, issued := q\<rparr>) B L"
  using assms by (auto simp: once_inv_def)

section \<open>Every run keeps the invariant\<close>

lemma repr_expire:
  assumes "good_keys state quota ops" and "repr R state quota ops s c"
    and k: "\<And>k. same_key R k s s' \<or> gone_key R k s'"
  shows "\<exists>d q. ((\<forall>x. d x = answers c x) \<or> (\<forall>x. d x = None))
    \<and> (repr R state quota ops s' (c\<lparr>answers := d, issued := q\<rparr>)
       \<or> repr R state quota ops s'
           (c\<lparr>pend := None, act := None, cool := None, last_abort := None, answers := d, issued := q\<rparr>))"
proof -
  let ?d = "\<lambda>x. hget R s' ops x" and ?q = "\<lambda>m. zscore R s' quota m"
  have "(\<forall>x. ?d x = answers c x) \<or> (\<forall>x. ?d x = None)"
    using k [of ops] assms(2) by (auto simp: same_key_def gone_key_def repr_def)
  moreover have "repr R state quota ops s' (c\<lparr>answers := ?d, issued := ?q\<rparr>)" if "same_key R state s s'"
    using that assms(2) by (simp add: same_key_def repr_def)
  moreover have "repr R state quota ops s'
      (c\<lparr>pend := None, act := None, cool := None, last_abort := None, answers := ?d, issued := ?q\<rparr>)"
    if "gone_key R state s'"
    using that by (simp add: gone_key_def repr_def)
  ultimately show ?thesis using k [of state] by blast
qed

lemma store_run_inv:
  assumes "redis_laws R" and "good_keys state quota ops" and "N > 0"
  shows "store_run R N state quota ops s B L \<Longrightarrow> \<exists>c. repr R state quota ops s c \<and> once_inv N c B L"
proof (induction rule: store_run.induct)
  case (run_empty s)
  then have "repr R state quota ops s no_challenge" by (simp add: gone_key_def repr_def no_challenge_def)
  moreover have "once_inv N no_challenge {} []"
    using assms(3) by (simp add: once_inv_def no_challenge_def bounded_evals_def)
  ultimately show ?case by blast
next
  case (run_begin s B L a s' reply)
  then obtain c where c: "repr R state quota ops s c" "once_inv N c B L" by blast
  then have "hget R s state ''pending_id'' = map_option p_id (pend c)" by (simp add: repr_def)
  with run_begin(2) have "issue_id a \<notin> B \<or> map_option p_id (pend c) = Some (issue_id a)" by simp
  from once_inv_begin [OF c(2) this] challengeBegin_refines [OF assms(1,2) c(1) run_begin(3)] show ?case by blast
next
  case (run_commit s B L iid grace s' reply)
  then obtain c where c: "repr R state quota ops s c" "once_inv N c B L" by blast
  from once_inv_commit [OF c(2) assms(3)] challengeCommit_refines [OF assms(1,2) c(1) run_commit(2)] show ?case by blast
next
  case (run_abort s B L iid s' reply)
  then obtain c where c: "repr R state quota ops s c" "once_inv N c B L" by blast
  from once_inv_abort [OF c(2)] challengeAbort_refines [OF assms(1,2) c(1) run_abort(2)] show ?case by blast
next
  case (run_verify s B L a s' reply)
  then obtain c where c: "repr R state quota ops s c" "once_inv N c B L" by blast
  obtain c' r where sp: "spec_complete a (redis_now R s) c = (c', r)" by fastforce
  from challengeCompleteVerify_refines [OF assms(1,2) c(1) run_verify(3,4)] sp
  have "reply = r" "repr R state quota ops s' c'" by simp_all
  moreover have "hget R s ops (operation_id a) = answers c (operation_id a)" using c(1) by (simp add: repr_def)
  ultimately show ?case using once_inv_complete [OF c(2) run_verify(2) sp] by auto
next
  case (run_expire s B L s')
  then obtain c where c: "repr R state quota ops s c" "once_inv N c B L" by blast
  from repr_expire [OF assms(2) c(1) run_expire(2)] once_inv_expire [OF c(2)] show ?case by blast
qed

section \<open>Properties\<close>

lemma evals_success:
  assumes "bounded_evals N (evals i L)" and "(i, x, True, ''SUCCESS'') \<in> set L" and "(i, y, True, ''SUCCESS'') \<in> set L"
  shows "x = y"
proof (rule ccontr)
  assume "x \<noteq> y"
  let ?P = "\<lambda>(j, _, e, r). j = i \<and> e \<and> r = ''SUCCESS''"
  have "{(i, x, True, ''SUCCESS''), (i, y, True, ''SUCCESS'')} \<subseteq> set (filter ?P L)" using assms(2,3) by auto
  then have "card {(i, x, True, ''SUCCESS''), (i, y, True, ''SUCCESS'')} \<le> length (filter ?P L)"
    by (meson card_length card_mono finite_set order_trans)
  with \<open>x \<noteq> y\<close> have two: "2 \<le> length (filter ?P L)" by simp
  have "length (filter ?P L) = length (filter (\<lambda>r. r = ''SUCCESS'') (evals i L))"
    unfolding evals_def by (induction L) auto
  also have "\<dots> \<le> 1"
  proof -
    obtain k tail where "evals i L = replicate k ''INVALID'' @ tail" "length tail \<le> 1"
      using assms(1) unfolding bounded_evals_def by blast
    moreover from \<open>length tail \<le> 1\<close> have "length (filter (\<lambda>r. r = ''SUCCESS'') tail) \<le> 1"
      by (rule le_trans [OF length_filter_le])
    ultimately show ?thesis by simp
  qed
  finally show False using two by simp
qed

text \<open>
  C9. A challenge verifies at most once: over any interleaving of begin, commit, abort and verify
  scripts of any number of clients, with keys expiring at any moment, all calls that report SUCCESS for
  one issue carry the same operation id, that is they are one verification and its retries.
\<close>

theorem challenge_verifies_once:
  assumes "redis_laws R" and "good_keys state quota ops" and "N > 0"
    and "store_run R N state quota ops s B L"
    and "(i, x, e, ''SUCCESS'') \<in> set L" and "(i, y, f, ''SUCCESS'') \<in> set L"
  shows "x = y"
proof -
  obtain c where c: "once_inv N c B L" using store_run_inv [OF assms(1-4)] by blast
  have "(i, z, True, ''SUCCESS'') \<in> set L" if "(i, z, g, ''SUCCESS'') \<in> set L" for z g
    using c that by (cases g) (auto simp: once_inv_def)
  with assms(5,6) c show ?thesis
    using evals_success [of N i L x y] unfolding once_inv_def by blast
qed

text \<open>
  C11. The number of guesses is bounded: for every issue at most \<open>MaxAttempts\<close> verification calls are
  evaluated, all but the last of them INVALID, whatever the interleaving, the retries and the expiries.
\<close>

theorem challenge_attempts_bounded:
  assumes "redis_laws R" and "good_keys state quota ops" and "N > 0"
    and "store_run R N state quota ops s B L"
  shows "int (length (evals i L)) \<le> N
    \<and> (\<forall>r \<in> set (butlast (evals i L)). r = ''INVALID'') \<and> set (evals i L) \<subseteq> set (''INVALID'' # final_results)"
proof -
  obtain c where c: "once_inv N c B L" using store_run_inv [OF assms] by blast
  then obtain k tail where e: "evals i L = replicate k ''INVALID'' @ tail" "length tail \<le> 1"
    "set tail \<subseteq> set final_results" "int (length (evals i L)) \<le> N"
    unfolding once_inv_def bounded_evals_def by blast
  have "set (butlast (evals i L)) \<subseteq> {''INVALID''}"
    using e(2) by (cases tail) (auto simp: e(1) butlast_append dest: in_set_butlastD)
  with e show ?thesis by auto
qed

text \<open>
  C10. Each Lua script implements the abstract challenge: on a store that represents a challenge it
  raises no Lua error, its reply is the specification's, and the resulting store represents the
  specification's result.
\<close>

theorem scripts_implement_challenge:
  assumes "redis_laws R" and "good_keys state quota ops" and "repr R state quota ops s c"
    and "idempotency_ttl va > 0"
  shows "(case challengeBegin R state quota ba s of (s', r) \<Rightarrow>
      r = Some (snd (spec_begin ba (redis_now R s) c)) \<and> repr R state quota ops s' (fst (spec_begin ba (redis_now R s) c)))
    \<and> (case challengeCommit R state ops iid grace s of (s', r) \<Rightarrow>
      r = Some (snd (spec_commit iid (redis_now R s) c)) \<and> repr R state quota ops s' (fst (spec_commit iid (redis_now R s) c)))
    \<and> (case challengeAbort R state iid s of (s', r) \<Rightarrow>
      r = Some (snd (spec_abort iid c)) \<and> repr R state quota ops s' (fst (spec_abort iid c)))
    \<and> (case challengeCompleteVerify R state ops va s of (s', r) \<Rightarrow>
      r = Some (snd (spec_complete va (redis_now R s) c)) \<and> repr R state quota ops s' (fst (spec_complete va (redis_now R s) c)))
    \<and> challengeReadVerifier R state s =
        [map_option v_id (act c), map_option v_digest (act c), map_option v_pepper (act c)]"
  using challengeBegin_refines [OF assms(1-3)] challengeCommit_refines [OF assms(1-3)]
    challengeAbort_refines [OF assms(1-3)] challengeCompleteVerify_refines [OF assms(1-4)] assms(3)
  by (auto simp: challengeReadVerifier_def repr_def split: prod.split)

text \<open>
  An issue is reserved only when it may be: if the begin script reserves a new issue, no live
  reservation of another issue existed, the cooldown was over, and the issues counted in the window,
  this one included, do not exceed \<open>MaxIssues\<close>.
\<close>

theorem begin_respects_limits:
  assumes "redis_laws R" and "good_keys state quota ops" and "repr R state quota ops s c" and "max_issues a > 0"
    and "challengeBegin R state quota a s = (s', Some ''OK'')" and "hget R s state ''pending_id'' \<noteq> Some (issue_id a)"
  shows "(\<forall>p. pend c = Some p \<longrightarrow> p_lease p \<le> redis_now R s) \<and> cooldown_until c \<le> redis_now R s
    \<and> zcard R s' quota \<le> max_issues a \<and> hget R s' state ''pending_id'' = Some (issue_id a)"
proof -
  let ?now = "redis_now R s"
  let ?q = "prune (?now - quota_window a) (issued c)"
  have sp: "snd (spec_begin a ?now c) = ''OK''" and rp: "repr R state quota ops s' (fst (spec_begin a ?now c))"
    using challengeBegin_refines [OF assms(1-3,5)] by auto
  have np: "map_option p_id (pend c) \<noteq> Some (issue_id a)" using assms(3,6) by (simp add: repr_def)
  have live: "p_lease p \<le> ?now" if "pend c = Some p" for p
    using sp np that by (auto simp: spec_begin_def split: if_splits)
  have "snd (spec_reserve a ?now (c\<lparr>pend := None\<rparr>)) = ''OK'' \<and>
      fst (spec_begin a ?now c) = fst (spec_reserve a ?now (c\<lparr>pend := None\<rparr>))"
  proof (cases "pend c")
    case None
    then have same: "c\<lparr>pend := None\<rparr> = c" by (cases c) simp
    from sp None show ?thesis unfolding same by (simp add: spec_begin_def)
  next
    case (Some p)
    with sp live [OF Some] show ?thesis by (simp add: spec_begin_def not_less)
  qed
  then have r: "cooldown_until c \<le> ?now" "members ?q < max_issues a"
    "issued (fst (spec_begin a ?now c)) = ?q(issue_id a \<mapsto> ?now)"
    "map_option p_id (pend (fst (spec_begin a ?now c))) = Some (issue_id a)"
    by (auto simp: spec_reserve_def cooldown_until_def Let_def split: if_splits)
  have fin: "finite {m. ?q m \<noteq> None}"
  proof (rule finite_subset)
    show "{m. ?q m \<noteq> None} \<subseteq> {m. zscore R s quota m \<noteq> None}"
      using assms(3) by (auto simp: prune_def repr_def split: option.splits)
    show "finite {m. zscore R s quota m \<noteq> None}" by (rule redis_rules(13) [OF assms(1)])
  qed
  have "{m. (?q(issue_id a \<mapsto> ?now)) m \<noteq> None} = insert (issue_id a) {m. ?q m \<noteq> None}" by auto
  then have "members (?q(issue_id a \<mapsto> ?now)) \<le> members ?q + 1"
    using fin by (simp add: members_def card_insert_if)
  moreover have "zscore R s' quota = issued (fst (spec_begin a ?now c))" using rp by (auto simp: repr_def)
  ultimately have "zcard R s' quota \<le> max_issues a"
    using r(2,3) redis_rules(14) [OF assms(1)] by simp
  moreover have "hget R s' state ''pending_id'' = Some (issue_id a)" using rp r(4) by (simp add: repr_def)
  ultimately show ?thesis using live r(1) by blast
qed

text \<open>
  The rate script admits a new operation only while both the caller's and the global window are
  below their limits, counts it in both, and counts nothing when it refuses; a retried operation that was
  counted is admitted without being counted again.
\<close>

theorem rate_limits_both_windows:
  assumes "redis_laws R" and "caller \<noteq> global" and "caller_limit > 0" and "global_limit > 0"
    and "challengeRate R caller global op cw caller_limit gw global_limit grace s = (s', reply)"
  shows "reply \<in> {Some ''OK'', Some ''CALLER'', Some ''GLOBAL'', Some ''INCONSISTENT''}
    \<and> (reply = Some ''OK'' \<and> zscore R s caller op = None \<longrightarrow>
         zcard R s' caller \<le> caller_limit \<and> zcard R s' global \<le> global_limit
         \<and> zscore R s' caller op = Some (redis_now R s) \<and> zscore R s' global op = Some (redis_now R s))
    \<and> (reply \<noteq> Some ''OK'' \<longrightarrow> (\<forall>k m v. zscore R s' k m = Some v \<longrightarrow> zscore R s k m = Some v))
    \<and> (zscore R s' caller op \<noteq> None \<and> zscore R s' global op \<noteq> None \<longleftrightarrow> reply = Some ''OK'')"
proof -
  note rules = redis_rules [OF assms(1)]
  let ?now = "redis_now R s"
  let ?s2 = "zremrangebyscore R global (?now - gw) (zremrangebyscore R caller (?now - cw) s)"
  have z2: "zscore R ?s2 caller = prune (?now - cw) (zscore R s caller)"
    "zscore R ?s2 global = prune (?now - gw) (zscore R s global)"
    "\<And>k. k \<noteq> caller \<Longrightarrow> k \<noteq> global \<Longrightarrow> zscore R ?s2 k = zscore R s k"
    using assms(2) by (auto simp: rules prune_def)
  have sub: "zscore R ?s2 k m = Some v \<Longrightarrow> zscore R s k m = Some v" for k m v
    by (auto simp: rules prune_def split: if_splits option.splits)
  show ?thesis
  proof (cases "zscore R ?s2 caller op = None \<and> zscore R ?s2 global op = None
      \<and> zcard R ?s2 caller < caller_limit \<and> zcard R ?s2 global < global_limit")
    case False
    then have old: "s' = ?s2 \<and> reply \<in> {Some ''OK'', Some ''CALLER'', Some ''GLOBAL'', Some ''INCONSISTENT''}
      \<and> (reply = Some ''OK'' \<longleftrightarrow> zscore R ?s2 caller op \<noteq> None \<and> zscore R ?s2 global op \<noteq> None)"
      using assms(5) by (auto simp: challengeRate_def Let_def split: if_splits)
    show ?thesis
    proof (intro conjI)
      show "reply \<in> {Some ''OK'', Some ''CALLER'', Some ''GLOBAL'', Some ''INCONSISTENT''}" using old by blast
      show "reply = Some ''OK'' \<and> zscore R s caller op = None \<longrightarrow>
         zcard R s' caller \<le> caller_limit \<and> zcard R s' global \<le> global_limit
         \<and> zscore R s' caller op = Some ?now \<and> zscore R s' global op = Some ?now"
      proof (intro impI, elim conjE)
        assume "reply = Some ''OK''" "zscore R s caller op = None"
        with old obtain v where "zscore R ?s2 caller op = Some v" by blast
        from sub [OF this] \<open>zscore R s caller op = None\<close> show "zcard R s' caller \<le> caller_limit
         \<and> zcard R s' global \<le> global_limit
         \<and> zscore R s' caller op = Some ?now \<and> zscore R s' global op = Some ?now" by simp
      qed
      show "reply \<noteq> Some ''OK'' \<longrightarrow> (\<forall>k m v. zscore R s' k m = Some v \<longrightarrow> zscore R s k m = Some v)"
        using old sub by blast
      show "zscore R s' caller op \<noteq> None \<and> zscore R s' global op \<noteq> None \<longleftrightarrow> reply = Some ''OK''"
        using old by blast
    qed
  next
    case True
    let ?s4 = "zadd R global ?now op (zadd R caller ?now op ?s2)"
    have s': "s' = pexpire R global (max 1 (gw + grace)) (pexpire R caller (max 1 (cw + grace)) ?s4)"
      and ok: "reply = Some ''OK''"
      using True assms(5) by (auto simp: challengeRate_def Let_def)
    have z: "zscore R s' k m = (if (k = caller \<or> k = global) \<and> m = op then Some ?now else zscore R ?s2 k m)" for k m
      using assms(2) by (auto simp: s' rules(10,12))
    have grow: "zcard R s' k \<le> zcard R ?s2 k + 1" for k
    proof -
      have "{m. zscore R s' k m \<noteq> None} \<subseteq> insert op {m. zscore R ?s2 k m \<noteq> None}" by (auto simp: z)
      then have "card {m. zscore R s' k m \<noteq> None} \<le> card (insert op {m. zscore R ?s2 k m \<noteq> None})"
        using rules(13) by (intro card_mono) auto
      also have "\<dots> \<le> Suc (card {m. zscore R ?s2 k m \<noteq> None})" by (rule card_insert_le_m1) simp_all
      finally show ?thesis unfolding rules(14) members_def by linarith
    qed
    from grow [of caller] grow [of global] True have "zcard R s' caller \<le> caller_limit" "zcard R s' global \<le> global_limit"
      by linarith+
    with ok z show ?thesis by simp
  qed
qed

section \<open>A concrete store\<close>

text \<open>Hashes and sorted sets in memory, with a stopped clock and no expiry.\<close>

type_synonym mem = "(string \<Rightarrow> string \<Rightarrow> string option) \<times> (string \<Rightarrow> (string, int) fmap)"

definition mem_redis :: "mem redis" where
  "mem_redis =
     \<lparr>rtime = (\<lambda>s. (1000, 0)),
      hget = (\<lambda>s k f. fst s k f),
      hset = (\<lambda>k fvs s. ((fst s)(k := \<lambda>f. case map_of (rev fvs) f of Some v \<Rightarrow> Some v | None \<Rightarrow> fst s k f), snd s)),
      hdel = (\<lambda>k fs s. ((fst s)(k := \<lambda>f. if f \<in> set fs then None else fst s k f), snd s)),
      del = (\<lambda>k s. ((fst s)(k := \<lambda>f. None), (snd s)(k := fmempty))),
      zscore = (\<lambda>s k m. fmlookup (snd s k) m),
      zadd = (\<lambda>k v m s. (fst s, (snd s)(k := fmupd m v (snd s k)))),
      zcard = (\<lambda>s k. int (fcard (fmdom (snd s k)))),
      zremrangebyscore = (\<lambda>k v s. (fst s, (snd s)(k :=
        fmfilter (\<lambda>m. case fmlookup (snd s k) m of Some w \<Rightarrow> \<not> w \<le> v | None \<Rightarrow> False) (snd s k)))),
      pexpire = (\<lambda>k v s. s)\<rparr>"

lemma mem_redis_dom: "{m. \<exists>v. fmlookup f m = Some v} = fset (fmdom f)"
  by (auto intro: fmdomI dest: fmdomE)

lemma mem_redis_laws: "redis_laws mem_redis"
  unfolding redis_laws_def mem_redis_def
  by (auto simp: mem_redis_dom fcard.rep_eq fmfilter_alt_defs split: option.split)

definition demo_begin :: begin_args where
  "demo_begin = \<lparr>issue_id = ''i1'', max_issues = 5, issue_digest = ''d'', issue_pepper = ''v1'',
     pending_ttl = 30000, challenge_ttl = 300000, cooldown_ttl = 60000, quota_window = 3600000,
     expiry_grace = 60000\<rparr>"

definition demo_verify :: "string \<Rightarrow> bool \<Rightarrow> verify_args" where
  "demo_verify x m = \<lparr>expected_id = ''i1'', expected_digest = ''d'', operation_id = x, max_attempts = 5,
     matched = m, idempotency_ttl = 120000\<rparr>"

definition demo_keys :: "string \<times> string \<times> string" where
  "demo_keys = (''s'', ''q'', ''o'')"

lemma demo_good_keys: "good_keys ''s'' ''q'' ''o''"
  by (simp add: good_keys_def)

definition mem_empty :: mem where
  "mem_empty = (\<lambda>_ _. None, \<lambda>_. fmempty)"

lemma mem_now [simp]: "redis_now mem_redis s = 1000000"
  by (simp add: redis_now_def mem_redis_def)

lemma mem_empty_repr: "repr mem_redis ''s'' ''q'' ''o'' mem_empty no_challenge"
  by (simp add: repr_def mem_redis_def mem_empty_def no_challenge_def)

text \<open>The challenge after begin and commit.\<close>

definition demo_active :: challenge where
  "demo_active = no_challenge\<lparr>issued := [''i1'' \<mapsto> 1000000], cool := Some 1060000,
     act := Some \<lparr>v_id = ''i1'', v_digest = ''d'', v_pepper = ''v1'', v_expires = 1300000, v_attempts = 0\<rparr>\<rparr>"

lemma demo_spec_begin:
  "spec_begin demo_begin 1000000 no_challenge =
     (no_challenge\<lparr>issued := [''i1'' \<mapsto> 1000000],
        pend := Some \<lparr>p_id = ''i1'', p_digest = ''d'', p_pepper = ''v1'', p_lease = 1030000, p_ttl = 300000,
                      p_cooldown = 60000\<rparr>\<rparr>, ''OK'')"
  by (simp add: spec_begin_def spec_reserve_def no_challenge_def demo_begin_def cooldown_until_def prune_def
      members_def Let_def)

lemma demo_run:
  "\<exists>s. store_run mem_redis 5 ''s'' ''q'' ''o'' s {''i1''} [] \<and> repr mem_redis ''s'' ''q'' ''o'' s demo_active"
proof -
  have r0: "store_run mem_redis 5 ''s'' ''q'' ''o'' mem_empty {} []"
    by (rule run_empty) (simp add: gone_key_def mem_redis_def mem_empty_def)
  obtain s1 r1 where b: "challengeBegin mem_redis ''s'' ''q'' demo_begin mem_empty = (s1, r1)" by fastforce
  have r1: "store_run mem_redis 5 ''s'' ''q'' ''o'' s1 (insert (issue_id demo_begin) {}) []"
    by (rule run_begin [OF r0 _ b]) simp
  obtain s2 r2 where c: "challengeCommit mem_redis ''s'' ''o'' ''i1'' 60000 s1 = (s2, r2)" by fastforce
  have r2: "store_run mem_redis 5 ''s'' ''q'' ''o'' s2 (insert (issue_id demo_begin) {}) []"
    by (rule run_commit [OF r1 c])
  have p1: "repr mem_redis ''s'' ''q'' ''o'' s1 (fst (spec_begin demo_begin 1000000 no_challenge))"
    using challengeBegin_refines [OF mem_redis_laws demo_good_keys mem_empty_repr b] by simp
  have "fst (spec_commit ''i1'' 1000000 (fst (spec_begin demo_begin 1000000 no_challenge))) = demo_active"
    by (simp add: demo_spec_begin) (simp add: spec_commit_def demo_active_def no_challenge_def)
  with challengeCommit_refines [OF mem_redis_laws demo_good_keys p1 c]
  have p2: "repr mem_redis ''s'' ''q'' ''o'' s2 demo_active" by simp
  have "insert (issue_id demo_begin) {} = {''i1''}" by (simp add: demo_begin_def)
  with r2 have r2': "store_run mem_redis 5 ''s'' ''q'' ''o'' s2 {''i1''} []" by simp
  show ?thesis by (rule exI [of _ s2], rule conjI, rule r2', rule p2)
qed

text \<open>One wrong guess, the right code, and a retry of that verification.\<close>

lemma demo_verified:
  "\<exists>s. store_run mem_redis 5 ''s'' ''q'' ''o'' s {''i1''}
     [(''i1'', ''a'', True, ''INVALID''), (''i1'', ''b'', True, ''SUCCESS''), (''i1'', ''b'', False, ''SUCCESS'')]"
proof -
  note laws = mem_redis_laws and keys = demo_good_keys
  obtain s where s: "store_run mem_redis 5 ''s'' ''q'' ''o'' s {''i1''} []" "repr mem_redis ''s'' ''q'' ''o'' s demo_active"
    using demo_run by blast
  let ?a = "demo_verify ''a'' False" and ?b = "demo_verify ''b'' True"
  have ok: "idempotency_ttl ?a > 0" "idempotency_ttl ?b > 0" "max_attempts ?a = 5" "max_attempts ?b = 5"
    by (simp_all add: demo_verify_def)
  let ?c1 = "fst (spec_complete ?a 1000000 demo_active)"
  let ?c2 = "fst (spec_complete ?b 1000000 ?c1)"
  have e1: "snd (spec_complete ?a 1000000 demo_active) = ''INVALID''" "answers demo_active ''a'' = None"
    "answers ?c1 ''b'' = None" "snd (spec_complete ?b 1000000 ?c1) = ''SUCCESS''"
    "snd (spec_complete ?b 1000000 ?c2) = ''SUCCESS''" "answers ?c2 ''b'' \<noteq> None"
    by (simp_all add: spec_complete_def demo_active_def no_challenge_def demo_verify_def answer_def)
  obtain s1 r1 where v1: "challengeCompleteVerify mem_redis ''s'' ''o'' ?a s = (s1, r1)" by fastforce
  with challengeCompleteVerify_refines [OF laws keys s(2) ok(1) v1] e1(1)
  have v1': "challengeCompleteVerify mem_redis ''s'' ''o'' ?a s = (s1, Some ''INVALID'')"
    and p1: "repr mem_redis ''s'' ''q'' ''o'' s1 ?c1" by simp_all
  obtain s2 r2 where v2: "challengeCompleteVerify mem_redis ''s'' ''o'' ?b s1 = (s2, r2)" by fastforce
  with challengeCompleteVerify_refines [OF laws keys p1 ok(2) v2] e1(4)
  have v2': "challengeCompleteVerify mem_redis ''s'' ''o'' ?b s1 = (s2, Some ''SUCCESS'')"
    and p2: "repr mem_redis ''s'' ''q'' ''o'' s2 ?c2" by simp_all
  obtain s3 r3 where v3: "challengeCompleteVerify mem_redis ''s'' ''o'' ?b s2 = (s3, r3)" by fastforce
  with challengeCompleteVerify_refines [OF laws keys p2 ok(2) v3] e1(5)
  have v3': "challengeCompleteVerify mem_redis ''s'' ''o'' ?b s2 = (s3, Some ''SUCCESS'')" by simp
  have h: "hget mem_redis s ''o'' ''a'' = None" "hget mem_redis s1 ''o'' ''b'' = None" "hget mem_redis s2 ''o'' ''b'' \<noteq> None"
    using s(2) p1 p2 e1 unfolding repr_def by simp_all
  have i: "expected_id ?a = ''i1''" "operation_id ?a = ''a''" "expected_id ?b = ''i1''" "operation_id ?b = ''b''"
    by (simp_all add: demo_verify_def)
  from run_verify [OF run_verify [OF run_verify [OF s(1) ok(3,1) v1'] ok(4,2) v2'] ok(4,2) v3']
  show ?thesis using h i by (intro exI [of _ s3]) simp
qed

lemma challenge_verifies_once_witness:
  "\<exists>s L. store_run mem_redis 5 ''s'' ''q'' ''o'' s {''i1''} L \<and> (''i1'', ''b'', True, ''SUCCESS'') \<in> set L
     \<and> (\<forall>y f. (''i1'', y, f, ''SUCCESS'') \<in> set L \<longrightarrow> y = ''b'')"
proof -
  obtain s where s: "store_run mem_redis 5 ''s'' ''q'' ''o'' s {''i1''}
     [(''i1'', ''a'', True, ''INVALID''), (''i1'', ''b'', True, ''SUCCESS''), (''i1'', ''b'', False, ''SUCCESS'')]"
    using demo_verified by blast
  have "y = ''b''" if "(''i1'', y, f, ''SUCCESS'') \<in> set
     [(''i1'', ''a'', True, ''INVALID''), (''i1'', ''b'', True, ''SUCCESS''), (''i1'', ''b'', False, ''SUCCESS'')]" for y f
    using challenge_verifies_once [OF mem_redis_laws demo_good_keys _ s that, where y = "''b''" and f = True] by simp
  then have "\<forall>y f. (''i1'', y, f, ''SUCCESS'') \<in> set
     [(''i1'', ''a'', True, ''INVALID''), (''i1'', ''b'', True, ''SUCCESS''), (''i1'', ''b'', False, ''SUCCESS'')] \<longrightarrow> y = ''b''"
    by blast
  moreover have "(''i1'', ''b'', True, ''SUCCESS'') \<in> set
     [(''i1'', ''a'', True, ''INVALID''), (''i1'', ''b'', True, ''SUCCESS''), (''i1'', ''b'', False, ''SUCCESS'')]" by simp
  ultimately show ?thesis using s by blast
qed

lemma challenge_attempts_bounded_witness:
  "\<exists>s L. store_run mem_redis 5 ''s'' ''q'' ''o'' s {''i1''} L \<and> evals ''i1'' L = [''INVALID'', ''SUCCESS'']
     \<and> int (length (evals ''i1'' L)) \<le> 5"
proof -
  obtain s where s: "store_run mem_redis 5 ''s'' ''q'' ''o'' s {''i1''}
     [(''i1'', ''a'', True, ''INVALID''), (''i1'', ''b'', True, ''SUCCESS''), (''i1'', ''b'', False, ''SUCCESS'')]"
    using demo_verified by blast
  have "evals ''i1'' [(''i1'', ''a'', True, ''INVALID''), (''i1'', ''b'', True, ''SUCCESS''), (''i1'', ''b'', False, ''SUCCESS'')]
      = [''INVALID'', ''SUCCESS'']" by (simp add: evals_def)
  moreover have "int (length (evals ''i1''
     [(''i1'', ''a'', True, ''INVALID''), (''i1'', ''b'', True, ''SUCCESS''), (''i1'', ''b'', False, ''SUCCESS'')])) \<le> 5"
    using challenge_attempts_bounded [OF mem_redis_laws demo_good_keys _ s, of "''i1''"] by simp
  ultimately show ?thesis using s by blast
qed

lemma scripts_implement_challenge_witness:
  "snd (challengeCommit mem_redis ''s'' ''o'' ''i1'' 60000 mem_empty) = Some ''STALE''"
proof -
  have "snd (spec_commit ''i1'' 1000000 no_challenge) = ''STALE''" by (simp add: spec_commit_def no_challenge_def)
  moreover have "idempotency_ttl (demo_verify ''a'' True) > 0" by (simp add: demo_verify_def)
  ultimately show ?thesis
    using scripts_implement_challenge [OF mem_redis_laws demo_good_keys mem_empty_repr, of "demo_verify ''a'' True"
        demo_begin "''i1''" 60000]
    by (auto split: prod.splits)
qed

lemma begin_respects_limits_witness:
  "\<exists>s'. challengeBegin mem_redis ''s'' ''q'' demo_begin mem_empty = (s', Some ''OK'') \<and> zcard mem_redis s' ''q'' \<le> 5"
proof -
  obtain s1 r1 where b: "challengeBegin mem_redis ''s'' ''q'' demo_begin mem_empty = (s1, r1)" by fastforce
  from challengeBegin_refines [OF mem_redis_laws demo_good_keys mem_empty_repr b] have "r1 = Some ''OK''"
    by (simp add: demo_spec_begin)
  with b have b': "challengeBegin mem_redis ''s'' ''q'' demo_begin mem_empty = (s1, Some ''OK'')" by simp
  have "hget mem_redis mem_empty ''s'' ''pending_id'' \<noteq> Some (issue_id demo_begin)" "max_issues demo_begin = 5"
    by (simp_all add: mem_redis_def mem_empty_def demo_begin_def)
  with begin_respects_limits [OF mem_redis_laws demo_good_keys mem_empty_repr _ b'] b' show ?thesis by auto
qed

lemma rate_limits_both_windows_witness:
  "\<exists>s'. challengeRate mem_redis ''c'' ''g'' ''op'' 600000 10 600000 1000 60000 mem_empty = (s', Some ''OK'')
     \<and> zcard mem_redis s' ''c'' \<le> 10"
proof -
  obtain s' r where s: "challengeRate mem_redis ''c'' ''g'' ''op'' 600000 10 600000 1000 60000 mem_empty = (s', r)" by fastforce
  have none: "zscore mem_redis (zremrangebyscore mem_redis ''g'' v (zremrangebyscore mem_redis ''c'' w mem_empty)) k m = None"
    and zero: "zcard mem_redis (zremrangebyscore mem_redis ''g'' v (zremrangebyscore mem_redis ''c'' w mem_empty)) k = 0"
    for v w k m
    by (simp_all add: mem_redis_def mem_empty_def fcard.rep_eq)
  have "r = Some ''OK''"
    using s by (simp add: challengeRate_def none zero Let_def del: fst_conv snd_conv split: prod.splits)
  moreover have "zscore mem_redis mem_empty ''c'' ''op'' = None" by (simp add: mem_redis_def mem_empty_def)
  ultimately show ?thesis
    using rate_limits_both_windows [OF mem_redis_laws _ _ _ s] s by (intro exI [of _ s']) simp
qed

end
