(* ===== verification/Go_Text.thy ===== *)
theory Go_Text
  imports Go_Prelude
begin

text \<open>
  The text functions of Go's standard library that the runtime packages use on byte strings:
  \<open>utf8.ValidString\<close>, \<open>strings.ToLower\<close>, \<open>strings.HasPrefix\<close>/\<open>HasSuffix\<close>/\<open>Split\<close>/\<open>ContainsAny\<close>,
  \<open>encoding/hex\<close>, \<open>base64.RawURLEncoding\<close>, the \<open>%06d\<close> verb and the byte-wise use of \<open>range\<close> over a
  string, with the round trips and ranges the properties need.
\<close>

section \<open>Character classes\<close>

definition char_in :: "char \<Rightarrow> char \<Rightarrow> char \<Rightarrow> bool" where
  "char_in lo hi c \<longleftrightarrow> lo \<le> c \<and> c \<le> hi"

abbreviation is_lower :: "char \<Rightarrow> bool" where "is_lower \<equiv> char_in (CHR ''a'') (CHR ''z'')"
abbreviation is_upper :: "char \<Rightarrow> bool" where "is_upper \<equiv> char_in (CHR ''A'') (CHR ''Z'')"
abbreviation is_digit :: "char \<Rightarrow> bool" where "is_digit \<equiv> char_in (CHR ''0'') (CHR ''9'')"

lemma char_in_code: "char_in lo hi c \<longleftrightarrow> of_char lo \<le> (of_char c :: nat) \<and> (of_char c :: nat) \<le> of_char hi"
  by (simp add: char_in_def less_eq_char_def)

section \<open>UTF-8\<close>

definition byte_in :: "nat \<Rightarrow> nat \<Rightarrow> char \<Rightarrow> bool" where
  "byte_in lo hi c \<longleftrightarrow> lo \<le> of_char c \<and> of_char c \<le> hi"

text \<open>The bytes that may follow a leading byte: the accept ranges of package utf8.\<close>

definition utf8_tail :: "char \<Rightarrow> (char \<Rightarrow> bool) list option" where
  "utf8_tail a =
     (let cont = byte_in 0x80 0xBF in
      if byte_in 0x00 0x7F a then Some []
      else if byte_in 0xC2 0xDF a then Some [cont]
      else if byte_in 0xE0 0xE0 a then Some [byte_in 0xA0 0xBF, cont]
      else if byte_in 0xED 0xED a then Some [byte_in 0x80 0x9F, cont]
      else if byte_in 0xE1 0xEF a then Some [cont, cont]
      else if byte_in 0xF0 0xF0 a then Some [byte_in 0x90 0xBF, cont, cont]
      else if byte_in 0xF1 0xF3 a then Some [cont, cont, cont]
      else if byte_in 0xF4 0xF4 a then Some [byte_in 0x80 0x8F, cont, cont]
      else None)"

fun accept_tail :: "(char \<Rightarrow> bool) list \<Rightarrow> string \<Rightarrow> string option" where
  "accept_tail [] s = Some s"
| "accept_tail (p # ps) [] = None"
| "accept_tail (p # ps) (c # s) = (if p c then accept_tail ps s else None)"

lemma accept_tail_shorter: "accept_tail ps s = Some t \<Longrightarrow> length t \<le> length s"
  by (induction ps s rule: accept_tail.induct) (auto split: if_splits)

function utf8_valid :: "string \<Rightarrow> bool" where
  "utf8_valid [] = True"
| "utf8_valid (a # s) =
     (case utf8_tail a of
        None \<Rightarrow> False
      | Some ps \<Rightarrow> (case accept_tail ps s of None \<Rightarrow> False | Some t \<Rightarrow> utf8_valid t))"
  by pat_completeness auto
termination
  by (relation "measure length") (auto dest: accept_tail_shorter)

definition ascii :: "string \<Rightarrow> bool" where
  "ascii s \<longleftrightarrow> list_all (byte_in 0x00 0x7F) s"

lemma ascii_utf8_valid: "ascii s \<Longrightarrow> utf8_valid s"
  by (induction s) (simp_all add: ascii_def utf8_tail_def)

text \<open>\<open>utf8.RuneCountInString\<close>: a byte that starts no valid encoding is a rune of its own.\<close>

function utf8_RuneCountInString :: "string \<Rightarrow> nat" where
  "utf8_RuneCountInString [] = 0"
| "utf8_RuneCountInString (c # cs) =
     (case utf8_tail c of
        None \<Rightarrow> Suc (utf8_RuneCountInString cs)
      | Some ps \<Rightarrow>
          (case accept_tail ps cs of
             None \<Rightarrow> Suc (utf8_RuneCountInString cs)
           | Some rest \<Rightarrow> Suc (utf8_RuneCountInString rest)))"
  by pat_completeness auto
termination by (relation "measure length") (auto dest: accept_tail_shorter)

section \<open>strings\<close>

text \<open>
  \<open>strings.ToLower\<close>: the ASCII letters, and the two other code points whose lower case is ASCII
  (U+0130 and the Kelvin sign). Other bytes are kept: the code matches the result against ASCII
  patterns only, which refuse a non-ASCII byte in either case.
\<close>

fun strings_ToLower :: "string \<Rightarrow> string" where
  "strings_ToLower [] = []"
| "strings_ToLower (a # s) =
     (case s of
        b # s' \<Rightarrow>
          if a = CHR 0xC4 \<and> b = CHR 0xB0 then CHR ''i'' # strings_ToLower s'
          else (case s' of
                  c # s'' \<Rightarrow>
                    if a = CHR 0xE2 \<and> b = CHR 0x84 \<and> c = CHR 0xAA then CHR ''k'' # strings_ToLower s''
                    else (if is_upper a then char_of (of_char a + (32 :: nat)) else a) # strings_ToLower s
                | [] \<Rightarrow> (if is_upper a then char_of (of_char a + (32 :: nat)) else a) # strings_ToLower s)
      | [] \<Rightarrow> [if is_upper a then char_of (of_char a + (32 :: nat)) else a])"

definition strings_HasPrefix :: "string \<Rightarrow> string \<Rightarrow> bool" where
  "strings_HasPrefix s p \<longleftrightarrow> take (length p) s = p"

definition strings_HasSuffix :: "string \<Rightarrow> string \<Rightarrow> bool" where
  "strings_HasSuffix s p \<longleftrightarrow> length p \<le> length s \<and> drop (length s - length p) s = p"

definition strings_ContainsAny :: "string \<Rightarrow> string \<Rightarrow> bool" where
  "strings_ContainsAny s chars \<longleftrightarrow> list_ex (\<lambda>c. c \<in> set chars) s"

text \<open>\<open>strings.Split\<close> with a one-byte separator.\<close>

fun strings_Split :: "char \<Rightarrow> string \<Rightarrow> string list" where
  "strings_Split sep [] = [[]]"
| "strings_Split sep (c # s) =
     (if c = sep then [] # strings_Split sep s
      else (case strings_Split sep s of [] \<Rightarrow> [[c]] | w # ws \<Rightarrow> (c # w) # ws))"

section \<open>Hexadecimal\<close>

definition hex_digit :: "nat \<Rightarrow> char" where
  "hex_digit n = ''0123456789abcdef'' ! n"

definition hex_EncodeToString :: "string \<Rightarrow> string" where
  "hex_EncodeToString bs =
     concat (map (\<lambda>c. [hex_digit (of_char c div 16), hex_digit (of_char c mod 16)]) bs)"

definition hex_value :: "char \<Rightarrow> nat option" where
  "hex_value c =
     (if is_digit c then Some (of_char c - 48)
      else if char_in (CHR ''a'') (CHR ''f'') c then Some (of_char c - 87)
      else if char_in (CHR ''A'') (CHR ''F'') c then Some (of_char c - 55)
      else None)"

fun hex_DecodeString :: "string \<Rightarrow> string option" where
  "hex_DecodeString [] = Some []"
| "hex_DecodeString [_] = None"
| "hex_DecodeString (a # b # s) =
     (case (hex_value a, hex_value b, hex_DecodeString s) of
        (Some x, Some y, Some bs) \<Rightarrow> Some (char_of (16 * x + y) # bs)
      | _ \<Rightarrow> None)"

lemma hex_digit_value: "n < 16 \<Longrightarrow> hex_value (hex_digit n) = Some n"
proof -
  have "\<forall>n \<in> set [0..<16]. hex_value (hex_digit n) = Some n"
    by (simp add: upt_rec hex_digit_def hex_value_def char_in_def less_eq_char_def)
  then show "n < 16 \<Longrightarrow> ?thesis" by simp
qed

lemma hex_digits: "n < 16 \<Longrightarrow> is_digit (hex_digit n) \<or> is_lower (hex_digit n)"
proof -
  have "\<forall>n \<in> set [0..<16]. is_digit (hex_digit n) \<or> is_lower (hex_digit n)"
    by (simp add: upt_rec hex_digit_def char_in_def less_eq_char_def)
  then show "n < 16 \<Longrightarrow> ?thesis" by simp
qed

lemma of_char_256: "(of_char c :: nat) < 256"
  by (metis nat_of_char_less_256 of_char_eq_iff)

lemma of_char_nibble: "(of_char c :: nat) div 16 < 16"
  by (rule less_mult_imp_div_less) (use of_char_256 [of c] in simp)

lemma hex_round_trip: "hex_DecodeString (hex_EncodeToString bs) = Some bs"
proof (induction bs)
  case (Cons c bs)
  have "(of_char c :: nat) div 16 < 16" by (rule of_char_nibble)
  moreover have "char_of (16 * (of_char c div 16) + of_char c mod 16 :: nat) = c"
    by (simp only: mult_div_mod_eq char_of_char)
  ultimately show ?case using Cons by (simp add: hex_EncodeToString_def hex_digit_value)
qed (simp add: hex_EncodeToString_def)

lemma length_hex: "length (hex_EncodeToString bs) = 2 * length bs"
  by (induction bs) (simp_all add: hex_EncodeToString_def)

lemma set_hex: "c \<in> set (hex_EncodeToString bs) \<Longrightarrow> is_digit c \<or> is_lower c"
  unfolding hex_EncodeToString_def using hex_digits [OF of_char_nibble] hex_digits [of "n mod 16" for n]
  by (induction bs) auto

section \<open>Unpadded URL-safe base64\<close>

definition base64_alphabet :: string where
  "base64_alphabet = ''ABCDEFGHIJKLMNOPQRSTUVWXYZabcdefghijklmnopqrstuvwxyz0123456789-_''"

definition base64_char :: "nat \<Rightarrow> char" where
  "base64_char n = base64_alphabet ! (n mod 64)"

fun base64_EncodeToString :: "string \<Rightarrow> string" where
  "base64_EncodeToString [] = []"
| "base64_EncodeToString [a] =
     (let n = of_char a * 16 in [base64_char (n div 64), base64_char n])"
| "base64_EncodeToString [a, b] =
     (let n = (of_char a * 256 + of_char b) * 4
      in [base64_char (n div 4096), base64_char (n div 64), base64_char n])"
| "base64_EncodeToString (a # b # c # s) =
     (let n = (of_char a * 256 + of_char b) * 256 + of_char c
      in [base64_char (n div 262144), base64_char (n div 4096), base64_char (n div 64), base64_char n]
         @ base64_EncodeToString s)"

lemma length_base64: "length (base64_EncodeToString s) = (4 * length s + 2) div 3"
  by (induction s rule: base64_EncodeToString.induct) (simp_all add: Let_def)

lemma base64_alphabet_chars: "base64_char n \<in> set base64_alphabet"
  unfolding base64_char_def by (rule nth_mem) (simp add: base64_alphabet_def)

lemma set_base64: "set (base64_EncodeToString s) \<subseteq> set base64_alphabet"
  by (induction s rule: base64_EncodeToString.induct) (simp_all add: base64_alphabet_chars Let_def)

section \<open>Decimal codes\<close>

text \<open>\<open>fmt.Sprintf("%06d", n)\<close> for a non-negative integer.\<close>

definition sprintf_06d :: "nat \<Rightarrow> string" where
  "sprintf_06d n = replicate (6 - length (nat_dec n)) (CHR ''0'') @ nat_dec n"

lemma digit_char_digit: "d < 10 \<Longrightarrow> is_digit (digit_char d)"
  by (simp add: char_in_def less_eq_char_def digit_char_def)

lemma set_nat_dec: "\<forall>c \<in> set (nat_dec n). is_digit c"
proof (induction n rule: nat_dec.induct)
  case (1 n)
  then show ?case
    by (cases "n < 10") (simp_all add: nat_dec.simps [of n] digit_char_digit)
qed

lemma length_nat_dec: "k > 0 \<Longrightarrow> n < 10 ^ k \<Longrightarrow> length (nat_dec n) \<le> k"
proof (induction n arbitrary: k rule: nat_dec.induct)
  case (1 n)
  show ?case
  proof (cases "n < 10")
    case True
    with 1(2) show ?thesis by (simp add: nat_dec.simps [of n])
  next
    case False
    then have "k \<noteq> 1" using 1(3) by auto
    with 1(2) obtain j where j: "k = Suc j" "j > 0" by (cases k) auto
    then have "n div 10 < 10 ^ j" using 1(3) by (simp add: less_mult_imp_div_less mult.commute)
    with 1(1) [OF False j(2)] have "length (nat_dec (n div 10)) \<le> j" .
    with False j show ?thesis by (simp add: nat_dec.simps [of n])
  qed
qed

lemma sprintf_06d_digits: "\<forall>c \<in> set (sprintf_06d n). is_digit c"
  using set_nat_dec [of n] by (auto simp: sprintf_06d_def char_in_def less_eq_char_def)

lemma length_sprintf_06d: "n < 1000000 \<Longrightarrow> length (sprintf_06d n) = 6"
  using length_nat_dec [of 6 n] by (simp add: sprintf_06d_def)

section \<open>Printable text\<close>

text \<open>A printable byte is ASCII and no white space.\<close>

abbreviation printable :: "char \<Rightarrow> bool" where "printable \<equiv> byte_in 0x21 0x7E"

lemma strip_one_fixed:
  assumes "\<forall>w \<in> set ws. w \<noteq> [] \<and> \<not> P (hd w)" and "\<forall>c \<in> set s. P c"
  shows "strip_one ws s = None"
proof -
  have "\<not> (w \<noteq> [] \<and> take (length w) s = w)" if "w \<in> set ws" for w
  proof
    assume w: "w \<noteq> [] \<and> take (length w) s = w"
    then have "hd w = hd s" "s \<noteq> []" by (metis hd_take length_greater_0_conv) (use w in auto)
    with assms(2) have "P (hd w)" by simp
    with assms(1) that show False by blast
  qed
  then show ?thesis by (simp add: strip_one_def find_None_iff)
qed

lemma white_space_not_printable: "w \<in> set white_space \<Longrightarrow> w \<noteq> [] \<and> \<not> printable (hd w) \<and> \<not> printable (last w)"
  by (auto simp: white_space_def byte_in_def)

lemma TrimSpace_printable: "\<forall>c \<in> set s. printable c \<Longrightarrow> strings_TrimSpace s = s"
proof -
  assume s: "\<forall>c \<in> set s. printable c"
  have "strip_one white_space s = None" by (rule strip_one_fixed) (use white_space_not_printable s in auto)
  moreover have "strip_one (map rev white_space) (rev s) = None"
    by (rule strip_one_fixed) (use white_space_not_printable s in \<open>auto simp: hd_rev\<close>)
  ultimately show ?thesis by (simp add: strings_TrimSpace_def trim_left.simps)
qed

lemma utf8_valid_printable: "\<forall>c \<in> set s. printable c \<Longrightarrow> utf8_valid s"
  by (rule ascii_utf8_valid) (auto simp: ascii_def list_all_iff byte_in_def)

section \<open>Paths\<close>

lemma Split_join: "sep \<notin> set a \<Longrightarrow> strings_Split sep (a @ sep # b) = a # strings_Split sep b"
proof (induction a)
  case (Cons x a)
  then show ?case by auto
qed simp

lemma Split_none: "sep \<notin> set a \<Longrightarrow> strings_Split sep a = [a]"
  by (induction a) auto

lemma no_double_sep:
  "sep \<notin> set a \<Longrightarrow> a \<noteq> [] \<Longrightarrow> b \<noteq> [] \<Longrightarrow> hd b \<noteq> sep \<Longrightarrow> \<not> strings_Contains b [sep, sep]
    \<Longrightarrow> \<not> strings_Contains (a @ sep # b) [sep, sep]"
proof (induction a)
  case (Cons x a)
  show ?case
  proof (cases a)
    case Nil
    with Cons.prems show ?thesis by (cases b) auto
  next
    case (Cons y ys)
    with Cons.prems Cons.IH show ?thesis by auto
  qed
qed simp

lemma Contains_needs: "strings_Contains s (p # ps) \<Longrightarrow> p \<in> set s"
proof (induction s)
  case (Cons c cs)
  then show ?case by (cases "c = p") auto
qed simp

end
