(* ===== verification/Redis_Resource.thy ===== *)
theory Redis_Resource
  imports Bus_Errors Resource_Lifecycle
begin

text \<open>
  \<open>mss-boot/runtime/redisresource/lifecycle.go\<close>: one Redis client with an irreversible lifecycle. Each
  critical section of the mutex is a function on \<open>lifecycleState\<close>; the methods compose them with what the
  environment does in between (\<open>renv\<close>): the results of the client factory and of \<open>Ping\<close>, the contexts,
  and what other goroutines make of the state while the mutex is free. A channel field is nil, open or
  closed; \<open>activeZero\<close> is replaced each time the first borrower enters, and is the pair of a generation
  number and whether that channel is closed.
\<close>

section \<open>State\<close>

record lifecycleState =
  r_startAttempted :: bool
  r_startInProgress :: bool
  r_startDone :: channel
  r_started :: bool
  r_closing :: bool
  r_closed :: bool
  r_client :: bool
  r_active :: int
  r_zeroGen :: nat
  r_zeroClosed :: bool
  r_closeInProgress :: bool
  r_closeDone :: channel
  r_closeErr :: "goerr option"
  r_clientCloseMade :: bool

definition newLifecycleState :: lifecycleState where
  "newLifecycleState =
     \<lparr>r_startAttempted = False, r_startInProgress = False, r_startDone = NilChan, r_started = False,
      r_closing = False, r_closed = False, r_client = False, r_active = 0, r_zeroGen = 0,
      r_zeroClosed = True, r_closeInProgress = False, r_closeDone = NilChan, r_closeErr = None,
      r_clientCloseMade = False\<rparr>"

datatype rctx = RNil | RCtx "sentinel option"

text \<open>What the environment does: see the methods for when each field is consulted.\<close>

record renv =
  new_err :: "goerr option"
  new_client :: bool
  during_new :: "lifecycleState \<Rightarrow> lifecycleState"
  ping_err :: "goerr option"
  ping_cause :: "goerr option"
  ping_ctx_err :: "sentinel option"
  during_ping :: "lifecycleState \<Rightarrow> lifecycleState"
  wait_generation :: "lifecycleState \<Rightarrow> lifecycleState \<times> sentinel option"
  wait_start :: "lifecycleState \<Rightarrow> lifecycleState \<times> sentinel option"
  wait_zero :: "nat \<Rightarrow> lifecycleState \<Rightarrow> lifecycleState \<times> sentinel option"

abbreviation "redis_error op class \<equiv> redis_lifecycleError op (redis_sentinel class)"

definition closeResult :: "goerr option \<Rightarrow> goerr option" where
  "closeResult err =
     (case err of None \<Rightarrow> None | Some e \<Rightarrow> Some (redis_error OperationClose Redis_ErrCloseFailed (Some e)))"

section \<open>The provider's Close\<close>

text \<open>
  \<open>ensureCloseGenerationLocked\<close> returns the channel to wait for, \<open>None\<close> for nil; the last component
  tells whether the goroutine that calls the provider's \<open>Close\<close> was started.
\<close>

definition ensureCloseGenerationLocked :: "bool \<Rightarrow> lifecycleState \<Rightarrow> lifecycleState \<times> channel option \<times> bool" where
  "ensureCloseGenerationLocked client s =
     (if r_closed s then (s, None, False)
      else if r_closeInProgress s \<or> r_clientCloseMade s then (s, Some (r_closeDone s), False)
      else if \<not> client then (s\<lparr>r_closed := True, r_started := False\<rparr>, None, False)
      else (s\<lparr>r_closeInProgress := True, r_clientCloseMade := True, r_closeDone := OpenChan\<rparr>,
            Some OpenChan, True))"

text \<open>The end of that goroutine.\<close>

definition generation_finish :: "goerr option \<Rightarrow> lifecycleState \<Rightarrow> lifecycleState" where
  "generation_finish closeErr s =
     s\<lparr>r_closeErr := closeErr, r_closeInProgress := False, r_closed := True, r_started := False,
       r_closeDone := ClosedChan\<rparr>"

section \<open>Start\<close>

definition start_claim :: "lifecycleState \<Rightarrow> goerr + lifecycleState" where
  "start_claim s =
     (if r_closing s then Inl (redis_error OperationStart Redis_ErrClosing (Some (redis_sentinel Redis_ErrClosing)))
      else if r_startAttempted s then
        Inl (redis_error OperationStart Redis_ErrStartRejected (Some (redis_sentinel Redis_ErrStartRejected)))
      else Inr (s\<lparr>r_startAttempted := True, r_startInProgress := True, r_startDone := OpenChan\<rparr>))"

definition start_adopt :: "lifecycleState \<Rightarrow> lifecycleState" where
  "start_adopt s = s\<lparr>r_client := True\<rparr>"

definition start_publish :: "lifecycleState \<Rightarrow> lifecycleState" where
  "start_publish s = s\<lparr>r_started := True, r_startInProgress := False, r_startDone := ClosedChan\<rparr>"

text \<open>The critical section at the head of \<open>finishFailedStart\<close>.\<close>

definition fail_enter :: "bool \<Rightarrow> lifecycleState \<Rightarrow> lifecycleState \<times> channel option \<times> bool" where
  "fail_enter client s =
     (let s1 = s\<lparr>r_closing := True, r_started := False, r_startInProgress := False\<rparr>;
          s2 = (if client then s1 else s1\<lparr>r_closed := True\<rparr>);
          (s3, done, spawn) = ensureCloseGenerationLocked client s2
      in (s3\<lparr>r_startDone := ClosedChan\<rparr>, done, spawn))"

definition finishFailedStart :: "renv \<Rightarrow> bool \<Rightarrow> lifecycleState \<Rightarrow> lifecycleState \<times> goerr option" where
  "finishFailedStart E client s =
     (case fail_enter client s of
        (s1, None, _) \<Rightarrow> (s1, None)
      | (s1, Some _, _) \<Rightarrow>
          (case wait_generation E s1 of
             (s2, Some e) \<Rightarrow> (s2, Some (redis_error OperationClose Redis_ErrCloseFailed (Some (Sentinel e))))
           | (s2, None) \<Rightarrow> (s2, closeResult (r_closeErr s2))))"

text \<open>A provider error together with the context that ended, unless the error says so already.\<close>

definition with_cause :: "goerr option \<Rightarrow> goerr option \<Rightarrow> (goerr \<Rightarrow> bool) \<Rightarrow> goerr option" where
  "with_cause err cause known =
     (case cause of Some c \<Rightarrow> if known c then err else errors_Join [err, Some c] | None \<Rightarrow> err)"

text \<open>
  \<open>errors.Is(err, contextErr)\<close> for the cause of a context: a sentinel, or another error object that is
  never part of \<open>err\<close>.
\<close>

definition cause_in :: "goerr option \<Rightarrow> goerr \<Rightarrow> bool" where
  "cause_in err cause = (case cause of Sentinel s \<Rightarrow> is_err err s | _ \<Rightarrow> False)"

definition ping_result :: "renv \<Rightarrow> goerr option" where
  "ping_result E = with_cause (ping_err E) (ping_cause E) (cause_in (ping_err E))"

definition Resource_Start :: "renv \<Rightarrow> rctx \<Rightarrow> lifecycleState option \<Rightarrow> lifecycleState option \<times> goerr option" where
  "Resource_Start E ctx r =
     (case r of
        None \<Rightarrow> (None, Some (redis_error OperationStart Redis_ErrStartRejected (Some (redis_sentinel Redis_ErrStartRejected))))
      | Some s \<Rightarrow>
     (case ctx of
        RNil \<Rightarrow> (r, Some (redis_error OperationStart Redis_ErrContextRequired (Some (redis_sentinel Redis_ErrContextRequired))))
      | RCtx (Some e) \<Rightarrow> (r, Some (redis_error OperationStart Redis_ErrUnavailable (Some (Sentinel e))))
      | RCtx None \<Rightarrow>
     (case start_claim s of
        Inl e \<Rightarrow> (r, Some e)
      | Inr s1 \<Rightarrow>
          (let s2 = during_new E s1 in
           if new_err E \<noteq> None \<or> \<not> new_client E then
             (let constructErr = (if new_err E = None then Some (redis_sentinel Redis_ErrClientConstruction) else new_err E);
                  (s3, _) = finishFailedStart E False s2
              in (Some s3, Some (redis_error OperationStart Redis_ErrClientConstruction constructErr)))
           else
             (let s3 = start_adopt s2 in
              if r_closing s3 then
                (let (s4, closeErr) = finishFailedStart E True s3
                 in (Some s4, Some (redis_error OperationStart Redis_ErrClosing
                                     (errors_Join [Some (redis_sentinel Redis_ErrClosing), closeErr]))))
              else
                (let s4 = during_ping E s3 in
                 case ping_result E of
                   Some pingErr \<Rightarrow>
                     (let (s5, closeErr) = finishFailedStart E True s4
                      in (Some s5, Some (redis_error OperationStart Redis_ErrUnavailable
                                          (errors_Join [Some pingErr, closeErr]))))
                 | None \<Rightarrow>
                     if r_closing s4 then
                       (let (s5, closeErr) = finishFailedStart E True s4
                        in (Some s5, Some (redis_error OperationStart Redis_ErrClosing
                                            (errors_Join [Some (redis_sentinel Redis_ErrClosing), closeErr]))))
                     else (Some (start_publish s4), None)))))))"

section \<open>Borrowing\<close>

definition beginBorrow :: "operation \<Rightarrow> lifecycleState \<Rightarrow> goerr + lifecycleState" where
  "beginBorrow op s =
     (if r_closing s \<or> r_closed s then Inl (redis_error op Redis_ErrClosing (Some (redis_sentinel Redis_ErrClosing)))
      else if \<not> r_started s \<or> \<not> r_client s then
        Inl (redis_error op Redis_ErrNotStarted (Some (redis_sentinel Redis_ErrNotStarted)))
      else
        Inr ((if r_active s = 0 then s\<lparr>r_zeroGen := Suc (r_zeroGen s), r_zeroClosed := False\<rparr> else s)
               \<lparr>r_active := r_active s + 1\<rparr>))"

definition endBorrow :: "lifecycleState \<Rightarrow> lifecycleState" where
  "endBorrow s =
     (let s1 = s\<lparr>r_active := r_active s - 1\<rparr> in if r_active s1 = 0 then s1\<lparr>r_zeroClosed := True\<rparr> else s1)"

text \<open>\<open>Ready\<close> and \<open>Health\<close>.\<close>

definition Resource_ping :: "renv \<Rightarrow> operation \<Rightarrow> rctx \<Rightarrow> lifecycleState option
    \<Rightarrow> lifecycleState option \<times> goerr option" where
  "Resource_ping E op ctx r =
     (case ctx of
        RNil \<Rightarrow> (r, Some (redis_error op Redis_ErrContextRequired (Some (redis_sentinel Redis_ErrContextRequired))))
      | RCtx (Some e) \<Rightarrow> (r, Some (redis_error op Redis_ErrUnavailable (Some (Sentinel e))))
      | RCtx None \<Rightarrow>
     (case r of
        None \<Rightarrow> (None, Some (redis_error op Redis_ErrNotStarted (Some (redis_sentinel Redis_ErrNotStarted))))
      | Some s \<Rightarrow>
     (case beginBorrow op s of
        Inl e \<Rightarrow> (r, Some e)
      | Inr s1 \<Rightarrow>
          (let s2 = endBorrow (during_ping E s1) in
           case ping_result E of
             Some e \<Rightarrow> (Some s2, Some (redis_error op Redis_ErrUnavailable (Some e)))
           | None \<Rightarrow>
               (case ping_ctx_err E of
                  Some e \<Rightarrow> (Some s2, Some (redis_error op Redis_ErrUnavailable (Some (Sentinel e))))
                | None \<Rightarrow> (Some s2, None))))))"

definition Resource_Ready :: "renv \<Rightarrow> rctx \<Rightarrow> lifecycleState option \<Rightarrow> lifecycleState option \<times> goerr option" where
  "Resource_Ready E = Resource_ping E OperationReady"

definition Resource_Health :: "renv \<Rightarrow> rctx \<Rightarrow> lifecycleState option \<Rightarrow> lifecycleState option \<times> goerr option" where
  "Resource_Health E = Resource_ping E OperationHealth"

section \<open>Close\<close>

definition wait_failed :: "sentinel \<Rightarrow> goerr" where
  "wait_failed e = redis_error OperationClose Redis_ErrCloseFailed (Some (Sentinel e))"

text \<open>\<open>Inl\<close>: \<open>Close\<close> returns; \<open>Inr\<close>: it goes on to wait for \<open>Start\<close>.\<close>

definition close_claim :: "lifecycleState \<Rightarrow> lifecycleState \<times> (goerr option + unit)" where
  "close_claim s =
     (let s1 = s\<lparr>r_closing := True\<rparr> in
      if r_closed s1 then (s1, Inl (closeResult (r_closeErr s1)))
      else if \<not> r_startAttempted s1 then (s1\<lparr>r_closed := True\<rparr>, Inl None)
      else (s1, Inr ()))"

text \<open>The loop; it may wait for borrowers several times.\<close>

partial_function (option) redis_drain :: "renv \<Rightarrow> nat \<Rightarrow> lifecycleState \<Rightarrow> (lifecycleState \<times> goerr option) option" where
  "redis_drain E n s =
     (if r_closed s then Some (s, closeResult (r_closeErr s))
      else if r_active s > 0 then
        (case wait_zero E n s of
           (s1, Some e) \<Rightarrow> Some (s1, Some (wait_failed e))
         | (s1, None) \<Rightarrow> redis_drain E (Suc n) s1)
      else
        (case ensureCloseGenerationLocked (r_client s) s of
           (s1, None, _) \<Rightarrow> Some (s1, closeResult (r_closeErr s1))
         | (s1, Some _, _) \<Rightarrow>
             (case wait_generation E s1 of
                (s2, Some e) \<Rightarrow> Some (s2, Some (wait_failed e))
              | (s2, None) \<Rightarrow> Some (s2, closeResult (r_closeErr s2)))))"

definition Resource_Close :: "renv \<Rightarrow> bool \<Rightarrow> lifecycleState option
    \<Rightarrow> (lifecycleState option \<times> goerr option) option" where
  "Resource_Close E ctx r =
     (case r of
        None \<Rightarrow> Some (None, None)
      | Some s \<Rightarrow>
          if \<not> ctx then
            Some (r, Some (redis_error OperationClose Redis_ErrContextRequired (Some (redis_sentinel Redis_ErrContextRequired))))
          else
            (case close_claim s of
               (s1, Inl res) \<Rightarrow> Some (Some s1, res)
             | (s1, Inr _) \<Rightarrow>
                 (case wait_start E s1 of
                    (s2, Some e) \<Rightarrow> Some (Some s2, Some (wait_failed e))
                  | (s2, None) \<Rightarrow> map_option (map_prod Some id) (redis_drain E 0 s2))))"

end
