(* ===== verification/Redis_Concurrency.thy ===== *)
theory Redis_Concurrency
  imports Redis_Resource
begin

text \<open>
  The Redis resource under concurrent calls of \<open>Start\<close>, \<open>Ready\<close>/\<open>Health\<close>/\<open>Use\<close> and \<open>Close\<close>. A step is
  one critical section of Redis_Resource, the end of a provider call or the end of a wait; results of
  the provider and expiry of contexts are nondeterministic. The provider's \<open>Close\<close> runs in a goroutine
  of its own: \<open>provider_closing\<close> counts the calls in flight, \<open>provider_closes\<close> all calls ever made.
\<close>

section \<open>Program points and steps\<close>

datatype rpoint =
  AtRest
| Constructing
| Pinging
| Publishing
| FailedWithout
| FailedWith
| Borrowing
| AwaitingStart
| Draining
| AwaitingZero nat
| AwaitingClose

record rsystem =
  life :: lifecycleState
  threads :: "nat \<Rightarrow> rpoint"
  provider_closing :: nat
  provider_closes :: nat

definition move :: "nat \<Rightarrow> rpoint \<Rightarrow> lifecycleState \<Rightarrow> rsystem \<Rightarrow> rsystem" where
  "move t p s S = S\<lparr>life := s, threads := (threads S)(t := p)\<rparr>"

text \<open>The goroutine of a close generation starts with the call of the provider's \<open>Close\<close>.\<close>

definition spawned :: "bool \<Rightarrow> rsystem \<Rightarrow> rsystem" where
  "spawned b S = (if b then S\<lparr>provider_closing := Suc (provider_closing S), provider_closes := Suc (provider_closes S)\<rparr> else S)"

inductive rstep :: "rsystem \<Rightarrow> rsystem \<Rightarrow> bool" where
  r_claim: "threads S t = AtRest \<Longrightarrow> start_claim (life S) = Inr s \<Longrightarrow> rstep S (move t Constructing s S)"
| r_no_client: "threads S t = Constructing \<Longrightarrow> rstep S (move t FailedWithout (life S) S)"
| r_adopt: "threads S t = Constructing \<Longrightarrow>
    rstep S (move t (if r_closing (life S) then FailedWith else Pinging) (start_adopt (life S)) S)"
| r_pinged: "threads S t = Pinging \<Longrightarrow> p \<in> {Publishing, FailedWith} \<Longrightarrow> rstep S (move t p (life S) S)"
| r_publish: "threads S t = Publishing \<Longrightarrow> \<not> r_closing (life S) \<Longrightarrow>
    rstep S (move t AtRest (start_publish (life S)) S)"
| r_publish_closing: "threads S t = Publishing \<Longrightarrow> r_closing (life S) \<Longrightarrow> rstep S (move t FailedWith (life S) S)"
| r_failed: "threads S t = (if client then FailedWith else FailedWithout) \<Longrightarrow>
    fail_enter client (life S) = (s, done, spawn) \<Longrightarrow>
    rstep S (spawned spawn (move t (if done = None then AtRest else AwaitingClose) s S))"
| r_borrow: "threads S t = AtRest \<Longrightarrow> beginBorrow op (life S) = Inr s \<Longrightarrow> rstep S (move t Borrowing s S)"
| r_return: "threads S t = Borrowing \<Longrightarrow> rstep S (move t AtRest (endBorrow (life S)) S)"
| r_close: "threads S t = AtRest \<Longrightarrow> close_claim (life S) = (s, res) \<Longrightarrow>
    rstep S (move t (case res of Inl _ \<Rightarrow> AtRest | Inr _ \<Rightarrow> AwaitingStart) s S)"
| r_start_done: "threads S t = AwaitingStart \<Longrightarrow> r_startDone (life S) = ClosedChan \<Longrightarrow>
    rstep S (move t Draining (life S) S)"
| r_drained_closed: "threads S t = Draining \<Longrightarrow> r_closed (life S) \<Longrightarrow> rstep S (move t AtRest (life S) S)"
| r_drain_wait: "threads S t = Draining \<Longrightarrow> \<not> r_closed (life S) \<Longrightarrow> r_active (life S) > 0 \<Longrightarrow>
    rstep S (move t (AwaitingZero (r_zeroGen (life S))) (life S) S)"
| r_zero: "threads S t = AwaitingZero g \<Longrightarrow> g < r_zeroGen (life S) \<or> r_zeroClosed (life S) \<Longrightarrow>
    rstep S (move t Draining (life S) S)"
| r_generation: "threads S t = Draining \<Longrightarrow> \<not> r_closed (life S) \<Longrightarrow> \<not> r_active (life S) > 0 \<Longrightarrow>
    ensureCloseGenerationLocked (r_client (life S)) (life S) = (s, done, spawn) \<Longrightarrow>
    rstep S (spawned spawn (move t (if done = None then AtRest else AwaitingClose) s S))"
| r_joined: "threads S t = AwaitingClose \<Longrightarrow> r_closeDone (life S) = ClosedChan \<Longrightarrow>
    rstep S (move t AtRest (life S) S)"
| r_expired: "threads S t \<in> {AwaitingStart, AwaitingZero g, AwaitingClose} \<Longrightarrow> rstep S (move t AtRest (life S) S)"
| r_provider_closed: "provider_closing S > 0 \<Longrightarrow>
    rstep S (S\<lparr>life := generation_finish err (life S), provider_closing := provider_closing S - 1\<rparr>)"

inductive_cases rstep_elim: "rstep S S'"

definition rinitial :: rsystem where
  "rinitial = \<lparr>life = newLifecycleState, threads = \<lambda>t. AtRest, provider_closing = 0, provider_closes = 0\<rparr>"

definition rreachable :: "rsystem \<Rightarrow> bool" where
  "rreachable S \<longleftrightarrow> rstep\<^sup>*\<^sup>* rinitial S"

section \<open>The invariant\<close>

fun owner :: "rpoint \<Rightarrow> bool" where
  "owner Constructing = True"
| "owner Pinging = True"
| "owner Publishing = True"
| "owner FailedWithout = True"
| "owner FailedWith = True"
| "owner _ = False"

definition life_ok :: "lifecycleState \<Rightarrow> bool" where
  "life_ok s \<longleftrightarrow>
     (\<not> r_startAttempted s \<longrightarrow> r_startDone s = NilChan \<and> \<not> r_client s)
   \<and> (r_started s \<longrightarrow> r_startDone s = ClosedChan)
   \<and> (r_active s > 0 \<longrightarrow> r_startDone s = ClosedChan)
   \<and> (r_clientCloseMade s \<longrightarrow> r_closing s \<and> r_active s = 0 \<and> r_startDone s = ClosedChan \<and> r_client s)
   \<and> (r_closeInProgress s \<longrightarrow> r_clientCloseMade s)
   \<and> (r_closed s \<longrightarrow> r_closing s \<and> r_startDone s \<noteq> OpenChan \<and> \<not> r_closeInProgress s)
   \<and> (r_closed s \<and> r_client s \<longrightarrow> r_clientCloseMade s)
   \<and> (r_clientCloseMade s \<longrightarrow> r_closed s \<or> r_closeInProgress s)
   \<and> (r_closeDone s = ClosedChan \<longrightarrow> r_closed s)"

fun rpoint_ok :: "lifecycleState \<Rightarrow> rpoint \<Rightarrow> bool" where
  "rpoint_ok s Constructing = (r_startDone s = OpenChan \<and> r_startAttempted s \<and> \<not> r_client s)"
| "rpoint_ok s Pinging = (r_startDone s = OpenChan \<and> r_startAttempted s \<and> r_client s)"
| "rpoint_ok s Publishing = (r_startDone s = OpenChan \<and> r_startAttempted s \<and> r_client s)"
| "rpoint_ok s FailedWithout = (r_startDone s = OpenChan \<and> r_startAttempted s \<and> \<not> r_client s)"
| "rpoint_ok s FailedWith = (r_startDone s = OpenChan \<and> r_startAttempted s \<and> r_client s)"
| "rpoint_ok s Draining = (r_closing s \<and> r_startDone s = ClosedChan)"
| "rpoint_ok s (AwaitingZero g) = (r_closing s \<and> r_startDone s = ClosedChan)"
| "rpoint_ok s AwaitingStart = (r_closing s)"
| "rpoint_ok s _ = True"

definition one_owner :: "(nat \<Rightarrow> rpoint) \<Rightarrow> bool" where
  "one_owner T \<longleftrightarrow> (\<forall>t u. owner (T t) \<and> owner (T u) \<longrightarrow> t = u)"

definition borrowers :: "rsystem \<Rightarrow> nat set" where
  "borrowers S = {t. threads S t = Borrowing}"

definition rinv :: "rsystem \<Rightarrow> bool" where
  "rinv S \<longleftrightarrow>
     life_ok (life S) \<and> (\<forall>t. rpoint_ok (life S) (threads S t)) \<and> one_owner (threads S)
   \<and> finite (borrowers S) \<and> r_active (life S) = int (card (borrowers S))
   \<and> provider_closing S = (if r_closeInProgress (life S) then 1 else 0)
   \<and> provider_closes S = (if r_clientCloseMade (life S) then 1 else 0)"

lemmas section_defs = start_claim_def start_adopt_def start_publish_def fail_enter_def
  ensureCloseGenerationLocked_def generation_finish_def beginBorrow_def endBorrow_def close_claim_def

lemma rinv_initial: "rinv rinitial"
  by (auto simp: rinv_def rinitial_def life_ok_def newLifecycleState_def one_owner_def borrowers_def)

text \<open>The five parts of a move of one thread.\<close>

lemma rinv_move:
  assumes inv: "rinv S"
    and life: "life_ok s"
    and here: "rpoint_ok s p"
    and others: "\<And>u. u \<noteq> t \<Longrightarrow> rpoint_ok s (threads S u)"
    and own: "owner p \<Longrightarrow> owner (threads S t) \<or> (\<forall>u. \<not> owner (threads S u))"
    and act: "r_active s = r_active (life S) + (if p = Borrowing then 1 else 0)
                - (if threads S t = Borrowing then 1 else 0)"
    and calls: "(r_closeInProgress s, r_clientCloseMade s)
      = (if b then (True, True) else (r_closeInProgress (life S), r_clientCloseMade (life S)))"
      "b \<Longrightarrow> \<not> r_clientCloseMade (life S)"
  shows "rinv (spawned b (move t p s S))"
proof -
  have eq: "borrowers (spawned b (move t p s S)) =
      (if p = Borrowing then insert t (borrowers S) else borrowers S - {t})"
    by (auto simp: borrowers_def spawned_def move_def)
  have t: "t \<in> borrowers S \<longleftrightarrow> threads S t = Borrowing" by (simp add: borrowers_def)
  have fin: "finite (borrowers S)" and n: "r_active (life S) = int (card (borrowers S))"
    using inv by (simp_all add: rinv_def)
  have "card (borrowers S) > 0" if "threads S t = Borrowing"
    using that t fin card_gt_0_iff by blast
  then have "r_active s = int (card (borrowers (spawned b (move t p s S))))"
    using act n fin t unfolding eq
    by (auto simp: card_insert_if card_Diff_singleton_if of_nat_diff)
  moreover have "one_owner (threads (spawned b (move t p s S)))"
    using inv own by (auto simp: rinv_def one_owner_def spawned_def move_def)
  moreover have "provider_closing (spawned b (move t p s S)) = (if r_closeInProgress s then 1 else 0)"
    "provider_closes (spawned b (move t p s S)) = (if r_clientCloseMade s then 1 else 0)"
    using inv calls by (auto simp: rinv_def spawned_def move_def life_ok_def split: if_splits)
  moreover have "\<forall>u. rpoint_ok s (threads (spawned b (move t p s S)) u)"
    using here others by (auto simp: spawned_def move_def)
  moreover have "life (spawned b (move t p s S)) = s" by (simp add: spawned_def move_def)
  moreover have "finite (borrowers (spawned b (move t p s S)))" using fin by (simp add: eq)
  ultimately show ?thesis using life by (simp add: rinv_def)
qed

lemmas rinv_move0 = rinv_move [where b = False, unfolded spawned_def, simplified]

section \<open>The invariant is kept\<close>

lemma rinvD:
  assumes "rinv S"
  shows "life_ok (life S)" "\<And>t. rpoint_ok (life S) (threads S t)" "one_owner (threads S)"
    "\<And>t. threads S t = Borrowing \<Longrightarrow> r_active (life S) > 0"
    "\<And>t u. owner (threads S t) \<Longrightarrow> u \<noteq> t \<Longrightarrow> \<not> owner (threads S u)"
    "r_active (life S) \<ge> 0"
proof -
  show "life_ok (life S)" "\<And>t. rpoint_ok (life S) (threads S t)" "one_owner (threads S)"
    "r_active (life S) \<ge> 0"
    using assms by (simp_all add: rinv_def)
  show "\<And>t u. owner (threads S t) \<Longrightarrow> u \<noteq> t \<Longrightarrow> \<not> owner (threads S u)"
    using assms by (auto simp: rinv_def one_owner_def)
  show "r_active (life S) > 0" if "threads S t = Borrowing" for t
  proof -
    from that have "t \<in> borrowers S" by (simp add: borrowers_def)
    with assms show ?thesis by (auto simp: rinv_def card_gt_0_iff)
  qed
qed

lemma no_owner_unless_open:
  assumes "rinv S" and "r_startDone (life S) \<noteq> OpenChan"
  shows "\<not> owner (threads S u)"
  using rinvD(2) [OF assms(1), of u] assms(2) by (cases "threads S u") auto

lemma rpoint_ok_claim: "rpoint_ok s q \<Longrightarrow> \<not> owner q \<Longrightarrow> life_ok s \<Longrightarrow> start_claim s = Inr s' \<Longrightarrow> rpoint_ok s' q"
  by (cases q) (auto simp: start_claim_def life_ok_def split: if_splits)

lemma rpoint_ok_borrow: "rpoint_ok s q \<Longrightarrow> beginBorrow op s = Inr s' \<Longrightarrow> rpoint_ok s' q"
  by (cases q) (auto simp: beginBorrow_def split: if_splits)

lemma rpoint_ok_return: "rpoint_ok s q \<Longrightarrow> rpoint_ok (endBorrow s) q"
  by (cases q) (auto simp: endBorrow_def Let_def)

lemma rpoint_ok_close: "rpoint_ok s q \<Longrightarrow> close_claim s = (s', res) \<Longrightarrow> rpoint_ok s' q"
  by (cases q) (auto simp: close_claim_def Let_def split: if_splits)

lemma close_claim_fields:
  "close_claim s = (s', res) \<Longrightarrow>
   r_active s' = r_active s \<and> r_closeInProgress s' = r_closeInProgress s
   \<and> r_clientCloseMade s' = r_clientCloseMade s \<and> r_closing s'"
  by (auto simp: close_claim_def Let_def split: if_splits)

lemma life_ok_close:
  assumes "life_ok s" and "close_claim s = (s', res)"
  shows "life_ok s'"
proof (cases "\<not> r_closed s \<and> \<not> r_startAttempted s")
  case True
  with assms(2) have "s' = s\<lparr>r_closing := True, r_closed := True\<rparr>" by (simp add: close_claim_def Let_def)
  with assms(1) True show ?thesis by (auto simp: life_ok_def)
next
  case False
  with assms(2) have "s' = s\<lparr>r_closing := True\<rparr>" by (auto simp: close_claim_def Let_def split: if_splits)
  with assms(1) show ?thesis by (simp add: life_ok_def)
qed

lemma rpoint_ok_ensure:
  "rpoint_ok s q \<Longrightarrow> ensureCloseGenerationLocked c s = (s', d, b) \<Longrightarrow> rpoint_ok s' q"
  by (cases q) (auto simp: ensureCloseGenerationLocked_def split: if_splits)

lemma rpoint_ok_fail:
  "rpoint_ok s q \<Longrightarrow> \<not> owner q \<Longrightarrow> fail_enter c s = (s', d, b) \<Longrightarrow> rpoint_ok s' q"
  by (cases q) (auto simp: fail_enter_def ensureCloseGenerationLocked_def Let_def split: if_splits)

lemma rpoint_ok_publish: "rpoint_ok s q \<Longrightarrow> \<not> owner q \<Longrightarrow> rpoint_ok (start_publish s) q"
  by (cases q) (auto simp: start_publish_def)

lemma rpoint_ok_adopt: "rpoint_ok s q \<Longrightarrow> \<not> owner q \<Longrightarrow> rpoint_ok (start_adopt s) q"
  by (cases q) (auto simp: start_adopt_def)

lemma rpoint_ok_generation: "rpoint_ok s q \<Longrightarrow> rpoint_ok (generation_finish e s) q"
  by (cases q) (auto simp: generation_finish_def)

text \<open>A step that changes no field of the state.\<close>

lemma rinv_stay:
  assumes "rinv S" and "rpoint_ok (life S) p" and "p \<noteq> Borrowing" and "threads S t \<noteq> Borrowing"
    and "owner p \<Longrightarrow> owner (threads S t)"
  shows "rinv (move t p (life S) S)"
  by (rule rinv_move0) (use assms rinvD [OF assms(1)] in auto)

lemma rinv_fail:
  assumes inv: "rinv S" and t: "threads S t = (if client then FailedWith else FailedWithout)"
    and f: "fail_enter client (life S) = (s, done, spawn)"
  shows "rinv (spawned spawn (move t (if done = None then AtRest else AwaitingClose) s S))"
proof (rule rinv_move [OF inv])
  note ok = rinvD [OF inv]
  have p: "rpoint_ok (life S) (if client then FailedWith else FailedWithout)" using ok(2) [of t] t by simp
  show "life_ok s"
    using p ok(1,6) f by (cases client) (auto simp: life_ok_def fail_enter_def ensureCloseGenerationLocked_def Let_def split: if_splits)
  show "rpoint_ok s (if done = None then AtRest else AwaitingClose)" by simp
  show "rpoint_ok s (threads S u)" if "u \<noteq> t" for u
    using rpoint_ok_fail [OF ok(2) _ f] ok(5) [of t u] that t by (cases client) auto
  show "r_active s = r_active (life S) + (if (if done = None then AtRest else AwaitingClose) = Borrowing then 1 else 0)
      - (if threads S t = Borrowing then 1 else 0)"
    using f t by (auto simp: fail_enter_def ensureCloseGenerationLocked_def Let_def split: if_splits)
  show "(r_closeInProgress s, r_clientCloseMade s)
      = (if spawn then (True, True) else (r_closeInProgress (life S), r_clientCloseMade (life S)))"
    "spawn \<Longrightarrow> \<not> r_clientCloseMade (life S)"
    using f by (auto simp: fail_enter_def ensureCloseGenerationLocked_def Let_def split: if_splits)
qed (simp split: if_splits)

lemma rinv_generation:
  assumes inv: "rinv S" and t: "threads S t = Draining" and open': "\<not> r_closed (life S)" "\<not> r_active (life S) > 0"
    and f: "ensureCloseGenerationLocked (r_client (life S)) (life S) = (s, done, spawn)"
  shows "rinv (spawned spawn (move t (if done = None then AtRest else AwaitingClose) s S))"
proof (rule rinv_move [OF inv])
  note ok = rinvD [OF inv]
  have p: "rpoint_ok (life S) Draining" using ok(2) [of t] t by simp
  show "life_ok s"
    using p ok(1,6) f open' by (auto simp: life_ok_def ensureCloseGenerationLocked_def split: if_splits)
  show "rpoint_ok s (if done = None then AtRest else AwaitingClose)" by simp
  show "rpoint_ok s (threads S u)" for u
    by (rule rpoint_ok_ensure [OF ok(2) f])
  show "r_active s = r_active (life S) + (if (if done = None then AtRest else AwaitingClose) = Borrowing then 1 else 0)
      - (if threads S t = Borrowing then 1 else 0)"
    using f t by (auto simp: ensureCloseGenerationLocked_def split: if_splits)
  show "(r_closeInProgress s, r_clientCloseMade s)
      = (if spawn then (True, True) else (r_closeInProgress (life S), r_clientCloseMade (life S)))"
    "spawn \<Longrightarrow> \<not> r_clientCloseMade (life S)"
    using f by (auto simp: ensureCloseGenerationLocked_def split: if_splits)
qed (simp split: if_splits)

lemma rinv_provider_closed:
  assumes inv: "rinv S" and c: "provider_closing S > 0"
  shows "rinv (S\<lparr>life := generation_finish err (life S), provider_closing := provider_closing S - 1\<rparr>)"
proof -
  note ok = rinvD [OF inv]
  have "r_closeInProgress (life S)" using inv c by (simp add: rinv_def split: if_splits)
  with ok(1) have "life_ok (generation_finish err (life S))"
    by (auto simp: life_ok_def generation_finish_def)
  moreover have "\<forall>t. rpoint_ok (generation_finish err (life S)) (threads S t)"
    using rpoint_ok_generation ok(2) by blast
  ultimately show ?thesis
    using inv \<open>r_closeInProgress (life S)\<close> by (auto simp: rinv_def generation_finish_def borrowers_def)
qed

lemma rinv_step:
  assumes "rstep S S'" and inv: "rinv S"
  shows "rinv S'"
  using assms(1)
proof (cases rule: rstep.cases)
  case (r_claim t s)
  note ok = rinvD [OF inv]
  from r_claim ok(1) have "r_startDone (life S) \<noteq> OpenChan"
    by (auto simp: start_claim_def life_ok_def split: if_splits)
  then have no: "\<not> owner (threads S u)" for u using no_owner_unless_open inv by blast
  have "rinv (move t Constructing s S)"
  proof (rule rinv_move0 [OF inv])
    show "life_ok s" using r_claim ok(1,6) by (auto simp: start_claim_def life_ok_def split: if_splits)
    show "rpoint_ok s Constructing" using r_claim ok(1) by (auto simp: start_claim_def life_ok_def split: if_splits)
    show "rpoint_ok s (threads S u)" for u by (rule rpoint_ok_claim [OF ok(2) no ok(1) r_claim(3)])
  qed (use no r_claim in \<open>auto simp: start_claim_def split: if_splits\<close>)
  with r_claim show ?thesis by simp
next
  case (r_no_client t)
  with rinvD(2) [OF inv, of t] show ?thesis by (auto intro!: rinv_stay [OF inv])
next
  case (r_adopt t)
  note ok = rinvD [OF inv]
  have "rinv (move t (if r_closing (life S) then FailedWith else Pinging) (start_adopt (life S)) S)"
  proof (rule rinv_move0 [OF inv])
    show "life_ok (start_adopt (life S))"
      using r_adopt ok(1) ok(2) [of t] by (auto simp: start_adopt_def life_ok_def)
    show "rpoint_ok (start_adopt (life S)) (threads S u)" if "u \<noteq> t" for u
      by (rule rpoint_ok_adopt [OF ok(2)]) (use ok(5) [of t u] that r_adopt in auto)
  qed (use r_adopt ok(2) [of t] in \<open>auto simp: start_adopt_def\<close>)
  with r_adopt show ?thesis by simp
next
  case (r_pinged t p)
  with rinvD(2) [OF inv, of t] show ?thesis by (auto intro!: rinv_stay [OF inv])
next
  case (r_publish t)
  note ok = rinvD [OF inv]
  have "rinv (move t AtRest (start_publish (life S)) S)"
  proof (rule rinv_move0 [OF inv])
    show "life_ok (start_publish (life S))"
      using r_publish ok(1) ok(2) [of t] by (auto simp: start_publish_def life_ok_def)
    show "rpoint_ok (start_publish (life S)) (threads S u)" if "u \<noteq> t" for u
      by (rule rpoint_ok_publish [OF ok(2)]) (use ok(5) [of t u] that r_publish in auto)
  qed (use r_publish ok(2) [of t] in \<open>auto simp: start_publish_def\<close>)
  with r_publish show ?thesis by simp
next
  case (r_publish_closing t)
  with rinvD(2) [OF inv, of t] show ?thesis by (auto intro!: rinv_stay [OF inv])
next
  case (r_failed t client s don spawn)
  with rinv_fail [OF inv r_failed(2,3)] show ?thesis by simp
next
  case (r_borrow t op s)
  note ok = rinvD [OF inv]
  have "rinv (move t Borrowing s S)"
  proof (rule rinv_move0 [OF inv])
    show "life_ok s" using r_borrow ok(1) by (auto simp: beginBorrow_def life_ok_def split: if_splits)
    show "rpoint_ok s (threads S u)" for u by (rule rpoint_ok_borrow [OF ok(2) r_borrow(3)])
  qed (use r_borrow in \<open>auto simp: beginBorrow_def split: if_splits\<close>)
  with r_borrow show ?thesis by simp
next
  case (r_return t)
  note ok = rinvD [OF inv]
  have "rinv (move t AtRest (endBorrow (life S)) S)"
  proof (rule rinv_move0 [OF inv])
    show "life_ok (endBorrow (life S))"
      using r_return ok(1) ok(4) [of t] by (auto simp: endBorrow_def life_ok_def Let_def)
    show "rpoint_ok (endBorrow (life S)) (threads S u)" for u by (rule rpoint_ok_return [OF ok(2)])
  qed (use r_return in \<open>auto simp: endBorrow_def Let_def\<close>)
  with r_return show ?thesis by simp
next
  case (r_close t s res)
  note ok = rinvD [OF inv]
  have "rinv (move t (case res of Inl _ \<Rightarrow> AtRest | Inr _ \<Rightarrow> AwaitingStart) s S)"
  proof (rule rinv_move0 [OF inv])
    show "life_ok s" by (rule life_ok_close [OF ok(1) r_close(3)])
    show "rpoint_ok s (threads S u)" for u by (rule rpoint_ok_close [OF ok(2) r_close(3)])
  qed (use r_close(2) close_claim_fields [OF r_close(3)] in \<open>auto split: sum.splits\<close>)
  with r_close show ?thesis by simp
next
  case (r_start_done t)
  with rinvD(2) [OF inv, of t] show ?thesis by (auto intro!: rinv_stay [OF inv])
next
  case (r_drained_closed t)
  with rinvD(2) [OF inv, of t] show ?thesis by (auto intro!: rinv_stay [OF inv])
next
  case (r_drain_wait t)
  with rinvD(2) [OF inv, of t] show ?thesis by (auto intro!: rinv_stay [OF inv])
next
  case (r_zero t g)
  with rinvD(2) [OF inv, of t] show ?thesis by (auto intro!: rinv_stay [OF inv])
next
  case (r_generation t s don spawn)
  with rinv_generation [OF inv r_generation(2-5)] show ?thesis by simp
next
  case (r_joined t)
  with rinvD(2) [OF inv, of t] show ?thesis by (auto intro!: rinv_stay [OF inv])
next
  case (r_expired t g)
  with rinvD(2) [OF inv, of t] show ?thesis by (auto intro!: rinv_stay [OF inv])
next
  case (r_provider_closed err)
  with rinv_provider_closed [OF inv] show ?thesis by simp
qed

lemma rreachable_inv: "rreachable S \<Longrightarrow> rinv S"
  unfolding rreachable_def
  by (induction rule: rtranclp_induct) (auto intro: rinv_initial rinv_step)

section \<open>Properties\<close>

text \<open>
  C15. However the calls of \<open>Start\<close>, \<open>Ready\<close>, \<open>Health\<close>, \<open>Use\<close> and \<open>Close\<close> interleave, the provider's
  \<open>Close\<close> is called at most once in the life of the resource; once it has been called no goroutine is
  or ever will be inside a borrow of the client or the start probe; and a resource that reports itself closed has
  no client left open: the call for the client it constructed has returned.
\<close>

theorem redis_client_closed_once_unused:
  assumes "rreachable S" and "rstep\<^sup>*\<^sup>* S S'"
  shows "provider_closes S' \<le> 1
   \<and> (provider_closes S > 0 \<longrightarrow>
        provider_closes S' = 1 \<and> (\<forall>t. threads S' t \<noteq> Borrowing \<and> threads S' t \<noteq> Pinging))
   \<and> (r_closed (life S') \<and> r_client (life S') \<longrightarrow> provider_closes S' = 1 \<and> provider_closing S' = 0)"
proof (intro conjI)
  have "rreachable S'" using assms unfolding rreachable_def by (rule rtranclp_trans)
  then have inv: "rinv S'" by (rule rreachable_inv)
  note ok = rinvD [OF inv]
  show one: "provider_closes S' \<le> 1" using inv by (simp add: rinv_def)
  have mono: "provider_closes S \<le> provider_closes S'"
    using assms(2)
  proof (induction rule: rtranclp_induct)
    case (step S1 S2)
    have "provider_closes S1 \<le> provider_closes S2"
      using step(2) by (cases rule: rstep.cases) (auto simp: move_def spawned_def)
    with step(3) show ?case by simp
  qed simp
  have "threads S' t \<noteq> Borrowing \<and> threads S' t \<noteq> Pinging" if "provider_closes S' = 1" for t
  proof -
    from that inv have "r_clientCloseMade (life S')" by (simp add: rinv_def split: if_splits)
    with ok(1) have "r_active (life S') = 0" "r_startDone (life S') = ClosedChan"
      by (simp_all add: life_ok_def)
    with ok(4) [of t] no_owner_unless_open [OF inv, of t] show ?thesis by auto
  qed
  with one mono show "provider_closes S > 0 \<longrightarrow>
        provider_closes S' = 1 \<and> (\<forall>t. threads S' t \<noteq> Borrowing \<and> threads S' t \<noteq> Pinging)"
    by auto
  show "r_closed (life S') \<and> r_client (life S') \<longrightarrow> provider_closes S' = 1 \<and> provider_closing S' = 0"
    using inv ok(1) by (auto simp: rinv_def life_ok_def)
qed

text \<open>One start and one close of a single goroutine, up to the call of the provider's \<open>Close\<close>.\<close>

lemma demo_closing: "\<exists>S. rreachable S \<and> provider_closes S = 1 \<and> provider_closing S = 1"
proof -
  let ?s1 = "newLifecycleState\<lparr>r_startAttempted := True, r_startInProgress := True, r_startDone := OpenChan\<rparr>"
  let ?S1 = "move 0 Constructing ?s1 rinitial"
  let ?S2 = "move 0 Pinging (start_adopt (life ?S1)) ?S1"
  let ?S3 = "move 0 Publishing (life ?S2) ?S2"
  let ?S4 = "move 0 AtRest (start_publish (life ?S3)) ?S3"
  let ?S5 = "move 0 AwaitingStart ((life ?S4)\<lparr>r_closing := True\<rparr>) ?S4"
  let ?S6 = "move 0 Draining (life ?S5) ?S5"
  let ?s7 = "(life ?S6)\<lparr>r_closeInProgress := True, r_clientCloseMade := True, r_closeDone := OpenChan\<rparr>"
  let ?S7 = "spawned True (move 0 AwaitingClose ?s7 ?S6)"
  note defs = move_def rinitial_def newLifecycleState_def start_adopt_def start_publish_def
  have "rstep rinitial ?S1" by (rule r_claim) (simp_all add: defs start_claim_def)
  moreover have "rstep ?S1 ?S2" using r_adopt [of ?S1 0] by (simp add: defs)
  moreover have "rstep ?S2 ?S3" by (rule r_pinged) (simp_all add: defs)
  moreover have "rstep ?S3 ?S4" by (rule r_publish) (simp_all add: defs)
  moreover have "rstep ?S4 ?S5"
    using r_close [of ?S4 0 "(life ?S4)\<lparr>r_closing := True\<rparr>" "Inr ()"] by (simp add: defs close_claim_def)
  moreover have "rstep ?S5 ?S6" by (rule r_start_done) (simp_all add: defs)
  moreover have "rstep ?S6 ?S7"
    using r_generation [of ?S6 0 ?s7 "Some OpenChan" True] by (simp add: defs ensureCloseGenerationLocked_def)
  ultimately have "rreachable ?S7"
    unfolding rreachable_def by (meson rtranclp.rtrancl_into_rtrancl rtranclp.rtrancl_refl)
  moreover have "provider_closes ?S7 = 1 \<and> provider_closing ?S7 = 1"
    by (simp add: spawned_def defs)
  ultimately show ?thesis by blast
qed

lemma redis_client_closed_once_unused_witness:
  "\<exists>S S'. rreachable S \<and> rstep\<^sup>*\<^sup>* S S' \<and> provider_closes S' = 1 \<and> provider_closing S' = 0
     \<and> (\<forall>t. threads S' t \<noteq> Borrowing)"
proof -
  obtain S where S: "rreachable S" "provider_closes S = 1" "provider_closing S = 1" using demo_closing by blast
  let ?S' = "S\<lparr>life := generation_finish None (life S), provider_closing := provider_closing S - 1\<rparr>"
  have "rstep S ?S'" by (rule r_provider_closed) (use S in simp)
  then have "rstep\<^sup>*\<^sup>* S ?S'" by blast
  from redis_client_closed_once_unused [OF S(1) this] S(2)
  have "\<forall>t. threads ?S' t \<noteq> Borrowing" by simp
  moreover have "provider_closes ?S' = 1" "provider_closing ?S' = 0" using S by simp_all
  ultimately show ?thesis using S(1) \<open>rstep\<^sup>*\<^sup>* S ?S'\<close> by blast
qed

end
