(* ===== verification/Redis_Outcomes.thy ===== *)
theory Redis_Outcomes
  imports Redis_Resource
begin

text \<open>
  What one call of \<open>Start\<close>, \<open>Ready\<close>/\<open>Health\<close> and \<open>Close\<close> achieves, whatever the provider answers. The
  other goroutines are constrained by \<open>peers_ok\<close>, which is what the concurrent model allows them: while
  \<open>Start\<close> runs they can only ask for the shutdown, the close generation ends before its channel is closed,
  and once the shutdown is requested borrowers only leave.
\<close>

section \<open>The other goroutines\<close>

definition requests_close :: "(lifecycleState \<Rightarrow> lifecycleState) \<Rightarrow> bool" where
  "requests_close f \<longleftrightarrow> (\<forall>s. f s = s \<or> f s = s\<lparr>r_closing := True\<rparr>)"

definition generation_wait :: "(lifecycleState \<Rightarrow> lifecycleState \<times> sentinel option) \<Rightarrow> bool" where
  "generation_wait w \<longleftrightarrow>
     (\<forall>s s' r. w s = (s', r) \<longrightarrow>
        (s' = s \<or> (\<exists>e. s' = generation_finish e s)) \<and> (r = None \<longrightarrow> r_closeDone s' = ClosedChan))"

definition zero_wait :: "(lifecycleState \<Rightarrow> lifecycleState \<times> sentinel option) \<Rightarrow> bool" where
  "zero_wait w \<longleftrightarrow>
     (\<forall>s s' r. r_closing s \<and> w s = (s', r) \<longrightarrow>
        r_closing s' \<and> (r = None \<longrightarrow> r_active s' = 0))"

text \<open>While \<open>Close\<close> waits for \<open>Start\<close>, the other goroutines leave a state in which \<open>Start\<close> has ended.\<close>

definition start_wait :: "(lifecycleState \<Rightarrow> lifecycleState \<times> sentinel option) \<Rightarrow> bool" where
  "start_wait w \<longleftrightarrow>
     (\<forall>s s' r. r_closing s \<and> w s = (s', r) \<longrightarrow> r_closing s' \<and> (r = None \<longrightarrow> r_startDone s' = ClosedChan))"

definition peers_ok :: "renv \<Rightarrow> bool" where
  "peers_ok E \<longleftrightarrow>
     requests_close (during_new E) \<and> requests_close (during_ping E) \<and> generation_wait (wait_generation E)
   \<and> start_wait (wait_start E) \<and> (\<forall>n. zero_wait (wait_zero E n))"

definition fresh :: "lifecycleState \<Rightarrow> bool" where
  "fresh s \<longleftrightarrow> \<not> r_startAttempted s \<and> \<not> r_closing s \<and> \<not> r_closed s \<and> \<not> r_closeInProgress s \<and> \<not> r_clientCloseMade s
     \<and> \<not> r_client s \<and> \<not> r_started s \<and> r_closeDone s = NilChan"

lemma fresh_new: "fresh newLifecycleState"
  by (simp add: fresh_def newLifecycleState_def)

section \<open>Start\<close>

lemma finishFailedStart_without:
  "finishFailedStart E False s = (s', e) \<Longrightarrow>
   r_closing s' \<and> \<not> r_started s' \<and> r_startDone s' = ClosedChan \<and> r_closed s' \<and> r_client s' = r_client s
   \<and> r_startAttempted s' = r_startAttempted s"
  by (auto simp: finishFailedStart_def fail_enter_def ensureCloseGenerationLocked_def Let_def)

lemma finishFailedStart_with:
  assumes "finishFailedStart E True s = (s', e)" and "generation_wait (wait_generation E)"
    and "\<not> r_closed s" and "\<not> r_closeInProgress s" and "\<not> r_clientCloseMade s"
  shows "r_closing s' \<and> \<not> r_started s' \<and> r_startDone s' = ClosedChan \<and> r_clientCloseMade s' \<and> r_client s' = r_client s
   \<and> r_startAttempted s' = r_startAttempted s"
proof -
  let ?s1 = "s\<lparr>r_closing := True, r_started := False, r_startInProgress := False, r_closeInProgress := True,
      r_clientCloseMade := True, r_closeDone := OpenChan, r_startDone := ClosedChan\<rparr>"
  have f: "fail_enter True s = (?s1, Some OpenChan, True)"
    using assms(3-5) by (simp add: fail_enter_def ensureCloseGenerationLocked_def Let_def)
  obtain s2 r where w: "wait_generation E ?s1 = (s2, r)" by fastforce
  with assms(1) f have "s' = s2" by (auto simp: finishFailedStart_def split: option.splits)
  moreover have "s2 = ?s1 \<or> (\<exists>e. s2 = generation_finish e ?s1)"
    using assms(2) w unfolding generation_wait_def by blast
  ultimately show ?thesis by (auto simp: generation_finish_def)
qed

lemma requests_closeD:
  "requests_close f \<Longrightarrow> f s = s \<or> f s = s\<lparr>r_closing := True\<rparr>"
  by (simp add: requests_close_def)

text \<open>
  Construction is all or nothing: when the first \<open>Start\<close> of a Redis resource returns nil, its client
  answered the probe, no shutdown was requested and the resource lends the client; when it returns an
  error, the resource is closed for good - it refuses every later \<open>Start\<close> and borrow - and a client that
  had been constructed has been handed to the one close generation.
\<close>

theorem Resource_Start_all_or_nothing:
  assumes "peers_ok E" and "fresh s" and "Resource_Start E (RCtx None) (Some s) = (Some s', res)"
  shows "(res = None \<longrightarrow> r_started s' \<and> r_client s' \<and> \<not> r_closing s' \<and> ping_result E = None
            \<and> (\<exists>s2. beginBorrow op s' = Inr s2))
       \<and> (res \<noteq> None \<longrightarrow> r_closing s' \<and> \<not> r_started s' \<and> (r_client s' \<longrightarrow> r_clientCloseMade s')
            \<and> (\<exists>e. beginBorrow op s' = Inl e \<and> errors_Is e (Redis_class Redis_ErrClosing))
            \<and> (\<exists>e. start_claim s' = Inl e \<and> errors_Is e (Redis_class Redis_ErrClosing)))"
proof -
  let ?s1 = "s\<lparr>r_startAttempted := True, r_startInProgress := True, r_startDone := OpenChan\<rparr>"
  let ?s2 = "during_new E ?s1"
  let ?s3 = "start_adopt ?s2"
  let ?s4 = "during_ping E ?s3"
  have c: "start_claim s = Inr ?s1" using assms(2) by (simp add: start_claim_def fresh_def)
  have 2: "?s2 = ?s1 \<or> ?s2 = ?s1\<lparr>r_closing := True\<rparr>" and 4: "?s4 = ?s3 \<or> ?s4 = ?s3\<lparr>r_closing := True\<rparr>"
    and g: "generation_wait (wait_generation E)"
    using assms(1) unfolding peers_ok_def by (blast dest: requests_closeD)+
  have clean: "\<not> r_closed ?s2" "\<not> r_closeInProgress ?s2" "\<not> r_clientCloseMade ?s2" "\<not> r_client ?s2"
    "\<not> r_started ?s2"
    using 2 assms(2) by (auto simp: fresh_def)
  then have clean3: "\<not> r_closed ?s3" "\<not> r_closeInProgress ?s3" "\<not> r_clientCloseMade ?s3" "r_client ?s3"
    by (simp_all add: start_adopt_def)
  then have clean4: "\<not> r_closed ?s4" "\<not> r_closeInProgress ?s4" "\<not> r_clientCloseMade ?s4" "r_client ?s4"
    using 4 by auto
  have failed: ?thesis if "res \<noteq> None" "r_closing s'" "\<not> r_started s'" "r_client s' \<longrightarrow> r_clientCloseMade s'"
    using that by (simp add: beginBorrow_def start_claim_def errors_Is_redis_lifecycleError)
  show ?thesis
  proof (cases "new_err E \<noteq> None \<or> \<not> new_client E")
    case True
    obtain s5 e where f: "finishFailedStart E False ?s2 = (s5, e)" by fastforce
    with True assms(3) c have "s' = s5" "res \<noteq> None" by (auto simp: Resource_Start_def Let_def)
    with finishFailedStart_without [OF f] clean(4) show ?thesis by (intro failed) simp_all
  next
    case False
    show ?thesis
    proof (cases "r_closing ?s3")
      case True
      obtain s5 e where f: "finishFailedStart E True ?s3 = (s5, e)" by fastforce
      with True False assms(3) c have "s' = s5" "res \<noteq> None" by (auto simp: Resource_Start_def Let_def)
      with finishFailedStart_with [OF f g clean3(1-3)] show ?thesis by (intro failed) simp_all
    next
      case open3: False
      show ?thesis
      proof (cases "ping_result E = None \<and> \<not> r_closing ?s4")
        case True
        with open3 False assms(3) c have "s' = start_publish ?s4" "res = None"
          by (auto simp: Resource_Start_def Let_def)
        with True clean4 show ?thesis by (simp add: start_publish_def beginBorrow_def)
      next
        case bad: False
        obtain s5 e where f: "finishFailedStart E True ?s4 = (s5, e)" by fastforce
        with bad open3 False assms(3) c have "s' = s5" "res \<noteq> None"
          by (auto simp: Resource_Start_def Let_def split: option.splits)
        with finishFailedStart_with [OF f g clean4(1-3)] show ?thesis by (intro failed) simp_all
      qed
    qed
  qed
qed

section \<open>Close\<close>

lemma redis_drain_last:
  assumes "peers_ok E" and "r_closing s" and "\<not> r_active s > 0"
  shows "\<exists>s' res. redis_drain E n s = Some (s', res) \<and> r_closing s'
     \<and> (res = None \<longrightarrow> r_closed s' \<or> r_closeDone s' = ClosedChan)
     \<and> (\<forall>e. res = Some e \<longrightarrow> errors_Is e (Redis_class Redis_ErrCloseFailed))"
proof -
  have g: "generation_wait (wait_generation E)" using assms(1) by (simp add: peers_ok_def)
  have cr: "closeResult x = None \<longleftrightarrow> x = None"
    "closeResult x = Some e \<Longrightarrow> errors_Is e (Redis_class Redis_ErrCloseFailed)" for x e
    by (auto simp: closeResult_def errors_Is_redis_lifecycleError split: option.splits)
  show ?thesis
  proof (cases "r_closed s")
    case True
    then show ?thesis using assms(2) cr by (auto simp: redis_drain.simps [of E n s])
  next
    case False
    obtain s1 d b where e: "ensureCloseGenerationLocked (r_client s) s = (s1, d, b)" using prod_cases3 by blast
    have c1: "r_closing s1" using e assms(2) by (auto simp: ensureCloseGenerationLocked_def split: if_splits)
    show ?thesis
    proof (cases d)
      case None
      with e False have "r_closed s1" by (auto simp: ensureCloseGenerationLocked_def split: if_splits)
      with None e False assms(3) c1 cr show ?thesis by (auto simp: redis_drain.simps [of E n s])
    next
      case (Some ch)
      obtain s2 r where w: "wait_generation E s1 = (s2, r)" by fastforce
      from g w have s2: "s2 = s1 \<or> (\<exists>e. s2 = generation_finish e s1)" "r = None \<longrightarrow> r_closeDone s2 = ClosedChan"
        unfolding generation_wait_def by blast+
      then have "r_closing s2" using c1 by (auto simp: generation_finish_def)
      with Some e w False assms(3) s2(2) cr show ?thesis
        by (cases r) (auto simp: redis_drain.simps [of E n s] wait_failed_def errors_Is_redis_lifecycleError)
    qed
  qed
qed

lemma redis_drain_returns:
  assumes "peers_ok E" and "r_closing s"
  shows "\<exists>s' res. redis_drain E n s = Some (s', res) \<and> r_closing s'
     \<and> (res = None \<longrightarrow> r_closed s' \<or> r_closeDone s' = ClosedChan)
     \<and> (\<forall>e. res = Some e \<longrightarrow> errors_Is e (Redis_class Redis_ErrCloseFailed))"
proof (cases "r_closed s \<or> \<not> r_active s > 0")
  case True
  show ?thesis
  proof (cases "r_active s > 0")
    case False
    then show ?thesis by (rule redis_drain_last [OF assms(1,2)])
  next
    case active: True
    with True have "redis_drain E n s = redis_drain E n (s\<lparr>r_active := 0\<rparr>) \<or> r_closed s" by simp
    with active True assms(2) show ?thesis
      by (auto simp: redis_drain.simps [of E n s] closeResult_def errors_Is_redis_lifecycleError split: option.splits)
  qed
next
  case False
  obtain s1 r where w: "wait_zero E n s = (s1, r)" by fastforce
  have z: "zero_wait (wait_zero E n)" using assms(1) by (simp add: peers_ok_def)
  with w assms(2) have s1: "r_closing s1" "r = None \<longrightarrow> r_active s1 = 0"
    unfolding zero_wait_def by blast+
  show ?thesis
  proof (cases r)
    case None
    with False w have "redis_drain E n s = redis_drain E (Suc n) s1" by (simp add: redis_drain.simps [of E n s])
    with redis_drain_last [OF assms(1) s1(1), of "Suc n"] s1 None show ?thesis by simp
  next
    case (Some e)
    with False w s1(1) show ?thesis
      by (simp add: redis_drain.simps [of E n s] wait_failed_def errors_Is_redis_lifecycleError)
  qed
qed

text \<open>
  \<open>Close\<close> always returns, whatever the interleaving with borrowers and with an unfinished \<open>Start\<close>:
  it waits for the borrowers at most once. From then on the resource refuses every borrow and every
  \<open>Start\<close>. A nil result means the resource is closed - never started, or the one close generation is
  over; any error carries \<open>ErrCloseFailed\<close>, and a retry with a fresh context is possible.
\<close>

theorem Resource_Close_returns:
  assumes "peers_ok E"
  shows "\<exists>s' res. Resource_Close E True (Some s) = Some (Some s', res)
     \<and> r_closing s'
     \<and> (\<exists>e. beginBorrow op s' = Inl e \<and> errors_Is e (Redis_class Redis_ErrClosing))
     \<and> (\<exists>e. start_claim s' = Inl e)
     \<and> (res = None \<longrightarrow> r_closed s' \<or> r_closeDone s' = ClosedChan)
     \<and> (\<forall>e. res = Some e \<longrightarrow> errors_Is e (Redis_class Redis_ErrCloseFailed))"
proof -
  have core: "\<exists>s' res. Resource_Close E True (Some s) = Some (Some s', res) \<and> r_closing s'
     \<and> (res = None \<longrightarrow> r_closed s' \<or> r_closeDone s' = ClosedChan)
     \<and> (\<forall>e. res = Some e \<longrightarrow> errors_Is e (Redis_class Redis_ErrCloseFailed))"
  proof (cases "r_closed s \<or> \<not> r_startAttempted s")
    case True
    then show ?thesis
      by (auto simp: Resource_Close_def close_claim_def Let_def closeResult_def errors_Is_redis_lifecycleError
          split: option.splits)
  next
    case False
    let ?s1 = "s\<lparr>r_closing := True\<rparr>"
    obtain s2 r where w: "wait_start E ?s1 = (s2, r)" by fastforce
    have "start_wait (wait_start E)" using assms by (simp add: peers_ok_def)
    moreover have "r_closing ?s1" by simp
    ultimately have c2: "r_closing s2" using w unfolding start_wait_def by blast
    show ?thesis
    proof (cases r)
      case None
      from redis_drain_returns [OF assms c2, of 0] obtain s' res where
        "redis_drain E 0 s2 = Some (s', res)" "r_closing s'"
        "res = None \<longrightarrow> r_closed s' \<or> r_closeDone s' = ClosedChan"
        "\<forall>e. res = Some e \<longrightarrow> errors_Is e (Redis_class Redis_ErrCloseFailed)" by blast
      with None w False show ?thesis by (simp add: Resource_Close_def close_claim_def Let_def)
    next
      case (Some e)
      with w False c2 show ?thesis
        by (simp add: Resource_Close_def close_claim_def Let_def wait_failed_def errors_Is_redis_lifecycleError)
    qed
  qed
  then obtain s' res where r: "Resource_Close E True (Some s) = Some (Some s', res)" "r_closing s'"
    "res = None \<longrightarrow> r_closed s' \<or> r_closeDone s' = ClosedChan"
    "\<forall>e. res = Some e \<longrightarrow> errors_Is e (Redis_class Redis_ErrCloseFailed)" by blast
  have "\<exists>e. beginBorrow op s' = Inl e \<and> errors_Is e (Redis_class Redis_ErrClosing)" "\<exists>e. start_claim s' = Inl e"
    using r(2) by (simp_all add: beginBorrow_def start_claim_def errors_Is_redis_lifecycleError)
  with r show ?thesis by blast
qed

section \<open>An undisturbed call\<close>

definition quiet :: "goerr option \<Rightarrow> renv" where
  "quiet ping =
     \<lparr>new_err = None, new_client = True, during_new = id, ping_err = ping, ping_cause = None, ping_ctx_err = None,
      during_ping = id, wait_generation = (\<lambda>s. (generation_finish None s, None)),
      wait_start = (\<lambda>s. (s\<lparr>r_startDone := ClosedChan\<rparr>, None)),
      wait_zero = (\<lambda>n s. (s\<lparr>r_active := 0\<rparr>, None))\<rparr>"

lemma quiet_peers: "peers_ok (quiet p)"
  by (auto simp: peers_ok_def quiet_def requests_close_def generation_wait_def zero_wait_def start_wait_def
      generation_finish_def)

lemma Resource_Start_all_or_nothing_witness:
  "(\<exists>s'. Resource_Start (quiet None) (RCtx None) (Some newLifecycleState) = (Some s', None) \<and> r_started s')
   \<and> (\<exists>s' e. Resource_Start (quiet (Some (Sentinel (Foreign 7)))) (RCtx None) (Some newLifecycleState) = (Some s', Some e)
        \<and> r_clientCloseMade s')"
proof
  obtain s' where s: "Resource_Start (quiet None) (RCtx None) (Some newLifecycleState) = (Some s', None)"
    by (auto simp: Resource_Start_def quiet_def start_claim_def newLifecycleState_def Let_def ping_result_def
        with_cause_def start_adopt_def)
  with Resource_Start_all_or_nothing [OF quiet_peers fresh_new s] show
    "\<exists>s'. Resource_Start (quiet None) (RCtx None) (Some newLifecycleState) = (Some s', None) \<and> r_started s'"
    by simp
  obtain s2 e where f: "Resource_Start (quiet (Some (Sentinel (Foreign 7)))) (RCtx None) (Some newLifecycleState)
      = (Some s2, Some e)" "r_client s2"
    by (auto simp: Resource_Start_def quiet_def start_claim_def newLifecycleState_def Let_def ping_result_def
        with_cause_def start_adopt_def finishFailedStart_def fail_enter_def ensureCloseGenerationLocked_def
        generation_finish_def)
  with Resource_Start_all_or_nothing [OF quiet_peers fresh_new f(1)] show
    "\<exists>s' e. Resource_Start (quiet (Some (Sentinel (Foreign 7)))) (RCtx None) (Some newLifecycleState) = (Some s', Some e)
        \<and> r_clientCloseMade s'"
    by auto
qed

lemma Resource_Close_returns_witness:
  "\<exists>s' res. Resource_Close (quiet None) True (Some (newLifecycleState\<lparr>r_startAttempted := True, r_active := 2\<rparr>))
     = Some (Some s', res) \<and> r_closing s'"
  using Resource_Close_returns [OF quiet_peers, of None "newLifecycleState\<lparr>r_startAttempted := True, r_active := 2\<rparr>"]
  by (fastforce simp: quiet_def)

end
