(* ===== verification/Redis_Lease.thy ===== *)
theory Redis_Lease
  imports Redis_Resource Go_Text
begin

text \<open>
  \<open>mss-boot/runtime/redisresource/lease.go\<close>, with the name grammars of \<open>build.go\<close>: scopes of a Redis
  resource, the lease a scope lends for the time of one callback, and the commands of the lease.

  The go-redis client is third-party code: \<open>ownedClient\<close> holds its operations as functions on a world
  \<open>'w\<close>, together with what the context of a running command says when the operation is over
  (\<open>command_cause\<close>). \<open>*keyCapability\<close> pointers are numbers, handed out by the resource.
\<close>

section \<open>Names\<close>

definition maxScopeNameBytes :: nat where "maxScopeNameBytes = 63"
definition maxLogicalKeyBytes :: nat where "maxLogicalKeyBytes = 512"

fun scope_chars :: "nat \<Rightarrow> string \<Rightarrow> bool" where
  "scope_chars index [] = True"
| "scope_chars index (c # cs) =
     ((is_lower c \<or> is_digit c \<or> index > 0 \<and> (c = CHR ''-'' \<or> c = CHR ''.'')) \<and> scope_chars (Suc index) cs)"

definition validScopeName :: "string \<Rightarrow> bool" where
  "validScopeName value \<longleftrightarrow>
     value \<noteq> [] \<and> length value \<le> maxScopeNameBytes \<and> is_lower (hd value) \<and> scope_chars 0 value
     \<and> last value \<noteq> CHR ''-'' \<and> last value \<noteq> CHR ''.'' \<and> \<not> strings_Contains value ''..''"

definition segment_char :: "char \<Rightarrow> bool" where
  "segment_char c \<longleftrightarrow> is_lower c \<or> is_upper c \<or> is_digit c \<or> c = CHR ''-'' \<or> c = CHR ''_'' \<or> c = CHR ''.''"

text \<open>The loop ranges over runes; a rune is in the set exactly when all its bytes are.\<close>

definition validLogicalKey :: "string \<Rightarrow> bool" where
  "validLogicalKey value \<longleftrightarrow>
     value \<noteq> [] \<and> length value \<le> maxLogicalKeyBytes \<and> utf8_valid value \<and> strings_TrimSpace value = value
     \<and> \<not> (strings_HasPrefix value ''/'' \<or> strings_HasSuffix value ''/'' \<or> strings_Contains value ''//''
          \<or> strings_ContainsAny value ('':{}'' @ [CHR 0x5C]))
     \<and> list_all (\<lambda>segment. segment \<noteq> [] \<and> segment \<noteq> ''.'' \<and> segment \<noteq> ''..'' \<and> list_all segment_char segment)
         (strings_Split (CHR ''/'') value)"

section \<open>Resources and scopes\<close>

datatype redisMode = RedisStandalone | RedisSentinel | RedisCluster | OtherMode nat

record scope =
  scope_resource :: string
  scope_name :: string
  scope_prefix :: string
  scope_cluster :: bool
  scope_capability :: nat

record redisResource =
  res_name :: string
  res_mode :: redisMode
  res_scopes :: "(string, scope) gomap"
  res_state :: lifecycleState
  next_capability :: nat

text \<open>\<open>Resource.Scope\<close>; the heap address of the new \<open>keyCapability\<close> is fresh.\<close>

definition Resource_Scope :: "string \<Rightarrow> redisResource option \<Rightarrow> redisResource option \<times> (goerr + scope)" where
  "Resource_Scope scopeName r =
     (case r of
        None \<Rightarrow> (None, Inl (redis_error OperationScope Redis_ErrUseRejected (Some (redis_sentinel Redis_ErrUseRejected))))
      | Some R \<Rightarrow>
          if \<not> validScopeName scopeName then (r, Inl (invalidCommand ''scopeName'' ''must be canonical''))
          else if r_closing (res_state R) \<or> r_closed (res_state R) then
            (r, Inl (redis_error OperationScope Redis_ErrClosing (Some (redis_sentinel Redis_ErrClosing))))
          else
            (case fmlookup (res_scopes R) scopeName of
               Some sc \<Rightarrow> (r, Inr sc)
             | None \<Rightarrow>
                 (let sc = \<lparr>scope_resource = res_name R, scope_name = scopeName,
                            scope_prefix = res_name R @ '':'' @ scopeName,
                            scope_cluster = (res_mode R = RedisCluster), scope_capability = next_capability R\<rparr>
                  in (Some (R\<lparr>res_scopes := fmupd scopeName sc (res_scopes R),
                              next_capability := Suc (next_capability R)\<rparr>), Inr sc))))"

section \<open>Keys and leases\<close>

record redisKey =
  key_value :: string
  key_resource :: string
  key_scope :: string
  key_owner :: "nat option"

record lease =
  lease_active :: bool
  lease_inFlight :: nat
  lease_resource :: string
  lease_scope :: string
  lease_prefix :: string
  lease_cluster :: bool
  lease_capability :: nat

record 'w ownedClient =
  client_Get :: "string \<Rightarrow> 'w \<Rightarrow> 'w \<times> string \<times> bool \<times> goerr option"
  client_Set :: "string \<Rightarrow> string \<Rightarrow> int \<Rightarrow> 'w \<Rightarrow> 'w \<times> goerr option"
  client_Delete :: "string list \<Rightarrow> 'w \<Rightarrow> 'w \<times> int \<times> goerr option"
  client_Exists :: "string list \<Rightarrow> 'w \<Rightarrow> 'w \<times> int \<times> goerr option"
  command_cause :: "'w \<Rightarrow> goerr option"

definition new_lease :: "scope \<Rightarrow> lease" where
  "new_lease sc =
     \<lparr>lease_active = True, lease_inFlight = 0, lease_resource = scope_resource sc, lease_scope = scope_name sc,
      lease_prefix = scope_prefix sc, lease_cluster = scope_cluster sc, lease_capability = scope_capability sc\<rparr>"

definition withContextError :: "goerr option \<Rightarrow> goerr option \<Rightarrow> goerr option" where
  "withContextError contextErr err =
     (case contextErr of
        None \<Rightarrow> err
      | Some c \<Rightarrow> if cause_in err c then err else errors_Join [err, Some c])"

definition QualifyKey :: "string \<Rightarrow> lease option \<Rightarrow> goerr + redisKey" where
  "QualifyKey logical l =
     (case l of
        None \<Rightarrow> Inl (redis_error OperationQualify Redis_ErrLeaseExpired (Some (redis_sentinel Redis_ErrLeaseExpired)))
      | Some l \<Rightarrow>
          if \<not> lease_active l then
            Inl (redis_error OperationQualify Redis_ErrLeaseExpired (Some (redis_sentinel Redis_ErrLeaseExpired)))
          else if \<not> validLogicalKey logical then Inl (unsafeKey ''must be a canonical relative key'')
          else Inr \<lparr>key_value = lease_prefix l @ '':'' @ logical, key_resource = lease_resource l,
                    key_scope = lease_scope l, key_owner = Some (lease_capability l)\<rparr>)"

definition foreign_key :: "lease \<Rightarrow> redisKey \<Rightarrow> bool" where
  "foreign_key l key \<longleftrightarrow>
     key_owner key = None \<or> key_owner key \<noteq> Some (lease_capability l) \<or> key_resource key \<noteq> lease_resource l
     \<or> key_scope key \<noteq> lease_scope l \<or> key_value key = []"

definition beginCommand :: "rctx \<Rightarrow> redisKey list \<Rightarrow> operation \<Rightarrow> lease option \<Rightarrow> goerr + lease" where
  "beginCommand ctx keys op l =
     (case l of
        None \<Rightarrow> Inl (redis_error op Redis_ErrLeaseExpired (Some (redis_sentinel Redis_ErrLeaseExpired)))
      | Some l \<Rightarrow>
     (case ctx of
        RNil \<Rightarrow> Inl (redis_error op Redis_ErrContextRequired (Some (redis_sentinel Redis_ErrContextRequired)))
      | RCtx (Some e) \<Rightarrow> Inl (redis_error op Redis_ErrUnavailable (Some (Sentinel e)))
      | RCtx None \<Rightarrow>
          if keys = [] then Inl (unsafeKey ''at least one key is required'')
          else if list_ex (foreign_key l) keys then Inl (unsafeKey ''does not belong to this scope capability'')
          else if \<not> lease_active l then
            Inl (redis_error op Redis_ErrLeaseExpired (Some (redis_sentinel Redis_ErrLeaseExpired)))
          else Inr (l\<lparr>lease_inFlight := Suc (lease_inFlight l)\<rparr>)))"

text \<open>The function \<open>beginCommand\<close> returns to end the command.\<close>

definition endCommand :: "lease \<Rightarrow> lease" where
  "endCommand l = l\<lparr>lease_inFlight := lease_inFlight l - 1\<rparr>"

definition physicalKeys :: "redisKey list \<Rightarrow> string list" where
  "physicalKeys keys = map key_value keys"

section \<open>Commands\<close>

text \<open>
  A command returns the world and its result. The lease itself is only read: a command that is over has
  undone its own \<open>inFlight\<close>.
\<close>

definition lease_Get :: "'w ownedClient \<Rightarrow> rctx \<Rightarrow> redisKey \<Rightarrow> lease option \<Rightarrow> 'w \<Rightarrow> 'w \<times> (goerr + string)" where
  "lease_Get C ctx key l w =
     (case beginCommand ctx [key] OperationGet l of
        Inl e \<Rightarrow> (w, Inl e)
      | Inr _ \<Rightarrow>
          (let (w1, value, found, err) = client_Get C (key_value key) w in
           case withContextError (command_cause C w1) err of
             Some e \<Rightarrow> (w1, Inl (redis_error OperationGet Redis_ErrCommandFailed (Some e)))
           | None \<Rightarrow> if found then (w1, Inr value) else (w1, Inl (redis_sentinel Redis_ErrNotFound))))"

definition lease_Set :: "'w ownedClient \<Rightarrow> rctx \<Rightarrow> redisKey \<Rightarrow> string \<Rightarrow> int \<Rightarrow> lease option \<Rightarrow> 'w \<Rightarrow> 'w \<times> goerr option" where
  "lease_Set C ctx key value expiration l w =
     (case beginCommand ctx [key] OperationSet l of
        Inl e \<Rightarrow> (w, Some e)
      | Inr _ \<Rightarrow>
          if expiration < 0 then (w, Some (invalidCommand ''expiration'' ''must not be negative''))
          else
            (let (w1, err) = client_Set C (key_value key) value expiration w in
             case withContextError (command_cause C w1) err of
               Some e \<Rightarrow> (w1, Some (redis_error OperationSet Redis_ErrCommandFailed (Some e)))
             | None \<Rightarrow> (w1, None)))"

text \<open>The loop of \<open>multiKey\<close> in cluster mode: one command for each key, up to the first failure.\<close>

fun multiKey_loop :: "('w \<Rightarrow> goerr option) \<Rightarrow> operation \<Rightarrow> (string list \<Rightarrow> 'w \<Rightarrow> 'w \<times> int \<times> goerr option)
    \<Rightarrow> string list \<Rightarrow> int \<Rightarrow> 'w \<Rightarrow> 'w \<times> int \<times> goerr option" where
  "multiKey_loop cause op command [] acc w = (w, acc, None)"
| "multiKey_loop cause op command (key # keys) acc w =
     (let (w1, count, err) = command [key] w in
      case withContextError (cause w1) err of
        Some e \<Rightarrow> (w1, acc + count, Some (redis_error op Redis_ErrCommandFailed (Some e)))
      | None \<Rightarrow> multiKey_loop cause op command keys (acc + count) w1)"

definition multiKey :: "('w \<Rightarrow> goerr option) \<Rightarrow> bool \<Rightarrow> redisKey list \<Rightarrow> operation
    \<Rightarrow> (string list \<Rightarrow> 'w \<Rightarrow> 'w \<times> int \<times> goerr option) \<Rightarrow> 'w \<Rightarrow> 'w \<times> int \<times> goerr option" where
  "multiKey cause cluster keys op command w =
     (let qualified = physicalKeys keys in
      if \<not> cluster then
        (let (w1, count, err) = command qualified w in
         case withContextError (cause w1) err of
           Some e \<Rightarrow> (w1, count, Some (redis_error op Redis_ErrCommandFailed (Some e)))
         | None \<Rightarrow> (w1, count, None))
      else multiKey_loop cause op command qualified 0 w)"

definition lease_Delete :: "'w ownedClient \<Rightarrow> rctx \<Rightarrow> redisKey list \<Rightarrow> lease option \<Rightarrow> 'w \<Rightarrow> 'w \<times> int \<times> goerr option" where
  "lease_Delete C ctx keys l w =
     (case beginCommand ctx keys OperationDelete l of
        Inl e \<Rightarrow> (w, 0, Some e)
      | Inr l1 \<Rightarrow> multiKey (command_cause C) (lease_cluster l1) keys OperationDelete (client_Delete C) w)"

definition lease_Exists :: "'w ownedClient \<Rightarrow> rctx \<Rightarrow> redisKey list \<Rightarrow> lease option \<Rightarrow> 'w \<Rightarrow> 'w \<times> int \<times> goerr option" where
  "lease_Exists C ctx keys l w =
     (case beginCommand ctx keys OperationExists l of
        Inl e \<Rightarrow> (w, 0, Some e)
      | Inr l1 \<Rightarrow> multiKey (command_cause C) (lease_cluster l1) keys OperationExists (client_Exists C) w)"

section \<open>Use\<close>

text \<open>
  What a callback leaves behind: it returned an error or nil, or it panicked; \<open>lease_inFlight\<close> of the lease
  it leaves counts the commands its goroutines still have running.
\<close>

datatype callback_result = CallbackPanicked | CallbackReturned "goerr option"

datatype use_result = UsePanicked | UseReturned "goerr option"

text \<open>
  \<open>expireCancelAndWait\<close>: the lease ends, the running commands are cancelled and waited for. The result
  tells whether there were any.
\<close>

definition expireCancelAndWait :: "lease \<Rightarrow> lease \<times> bool" where
  "expireCancelAndWait l = (l\<lparr>lease_active := False, lease_inFlight := 0\<rparr>, lease_inFlight l > 0)"

record 'w use_env =
  use_cause :: "'w \<Rightarrow> goerr option"
  use_ctx_err :: "'w \<Rightarrow> sentinel option"
  during_use :: "lifecycleState \<Rightarrow> lifecycleState"

text \<open>The lease is returned, because the callback may have kept it.\<close>

definition Scope_Use :: "'w use_env \<Rightarrow> rctx \<Rightarrow> scope option \<Rightarrow> (lease \<Rightarrow> 'w \<Rightarrow> lease \<times> 'w \<times> callback_result) option
    \<Rightarrow> lifecycleState \<Rightarrow> 'w \<Rightarrow> lifecycleState \<times> 'w \<times> lease option \<times> use_result" where
  "Scope_Use E ctx sc callback s w =
     (case ctx of
        RNil \<Rightarrow> (s, w, None, UseReturned (Some (redis_error OperationUse Redis_ErrContextRequired
                                               (Some (redis_sentinel Redis_ErrContextRequired)))))
      | RCtx c \<Rightarrow>
     (case callback of
        None \<Rightarrow> (s, w, None, UseReturned (Some (redis_error OperationUse Redis_ErrUseRejected
                                               (Some (redis_sentinel Redis_ErrUseRejected)))))
      | Some cb \<Rightarrow>
     (case c of
        Some e \<Rightarrow> (s, w, None, UseReturned (Some (redis_error OperationUse Redis_ErrUseRejected (Some (Sentinel e)))))
      | None \<Rightarrow>
     (case sc of
        None \<Rightarrow> (s, w, None, UseReturned (Some (redis_error OperationUse Redis_ErrUseRejected
                                               (Some (redis_sentinel Redis_ErrUseRejected)))))
      | Some sc \<Rightarrow>
     (case beginBorrow OperationUse s of
        Inl e \<Rightarrow> (s, w, None, UseReturned (Some e))
      | Inr s1 \<Rightarrow>
          (let (l, w1, r) = cb (new_lease sc) w;
               s2 = during_use E s1;
               (l1, detached) = expireCancelAndWait l in
           case r of
             CallbackPanicked \<Rightarrow> (endBorrow s2, w1, Some l1, UsePanicked)
           | CallbackReturned err \<Rightarrow>
               (let err1 = withContextError (use_cause E w1) err;
                    err2 = (if detached then errors_Join [err1, Some (redis_sentinel Redis_ErrDetachedCommand)] else err1)
                in (endBorrow s2, w1, Some l1,
                    UseReturned
                      (case err2 of
                         Some e \<Rightarrow> Some (redis_error OperationUse Redis_ErrUseRejected (Some e))
                       | None \<Rightarrow>
                           (case use_ctx_err E w1 of
                              Some e \<Rightarrow> Some (redis_error OperationUse Redis_ErrUseRejected (Some (Sentinel e)))
                            | None \<Rightarrow> None))))))))))"

section \<open>Building a resource\<close>

text \<open>
  \<open>makeClientSpec\<close> on the parts of the profile that it checks. TLS material is checked by crypto/tls:
  \<open>tls_valid\<close> is \<open>None\<close> without TLS, otherwise the result of \<open>makeTLSConfig\<close>.
\<close>

datatype credentials_kind = RedisCredentialsAnonymous | RedisCredentialsPassword | OtherCredentials nat

record redisProfile =
  prof_mode :: redisMode
  prof_endpoints :: "string list"
  prof_masterName :: string
  prof_database :: int
  prof_timeouts :: "int \<times> int \<times> int"
  prof_credentials :: credentials_kind
  prof_username :: "string option"
  prof_password :: "string option"
  prof_tls :: "(goerr + unit) option"

record clientSpec =
  spec_mode :: redisMode
  spec_endpoints :: "string list"
  spec_masterName :: string
  spec_database :: int
  spec_timeouts :: "int \<times> int \<times> int"
  spec_username :: string
  spec_password :: string
  spec_tls :: bool

definition topology_error :: "redisProfile \<Rightarrow> goerr option" where
  "topology_error p =
     (case prof_mode p of
        RedisStandalone \<Rightarrow>
          if length (prof_endpoints p) \<noteq> 1 \<or> prof_masterName p \<noteq> [] then
            Some (redis_invalid ''profile.redis.standalone'' ''has inconsistent topology'') else None
      | RedisSentinel \<Rightarrow>
          if prof_endpoints p = [] \<or> prof_masterName p = [] then
            Some (redis_invalid ''profile.redis.sentinel'' ''has inconsistent topology'') else None
      | RedisCluster \<Rightarrow>
          if prof_endpoints p = [] \<or> prof_masterName p \<noteq> [] then
            Some (redis_invalid ''profile.redis.cluster'' ''has inconsistent topology'')
          else if prof_database p \<noteq> 0 then
            Some (redis_invalid ''profile.redis.database'' ''must be zero in cluster mode'') else None
      | OtherMode _ \<Rightarrow> Some (redis_invalid ''profile.redis.mode'' ''is unsupported''))"

definition credentials_of :: "redisProfile \<Rightarrow> goerr + string \<times> string" where
  "credentials_of p =
     (case prof_credentials p of
        RedisCredentialsAnonymous \<Rightarrow>
          if prof_username p \<noteq> None then
            Inl (redis_invalid ''profile.redis.credentials'' ''anonymous credentials contain a username'')
          else if prof_password p \<noteq> None then
            Inl (redis_invalid ''profile.redis.credentials'' ''anonymous credentials contain a password'')
          else Inr ([], [])
      | RedisCredentialsPassword \<Rightarrow>
          (case prof_password p of
             None \<Rightarrow> Inl (redis_invalid ''profile.redis.credentials.password'' ''is required'')
           | Some secret \<Rightarrow>
               if secret = [] then Inl (redis_invalid ''profile.redis.credentials.password'' ''is required'')
               else Inr (case prof_username p of None \<Rightarrow> [] | Some u \<Rightarrow> u, secret))
      | OtherCredentials _ \<Rightarrow> Inl (redis_invalid ''profile.redis.credentials.kind'' ''is unsupported''))"

definition makeClientSpec :: "redisProfile \<Rightarrow> goerr + clientSpec" where
  "makeClientSpec p =
     (case prof_timeouts p of (dial, rd, wr) \<Rightarrow>
      if dial \<le> 0 \<or> rd \<le> 0 \<or> wr \<le> 0 then Inl (redis_invalid ''profile.redis.timeouts'' ''must be positive'')
      else if list_ex (\<lambda>e. e = []) (prof_endpoints p) then
        Inl (redis_invalid ''profile.redis.endpoints'' ''contains an empty endpoint'')
      else
        (case topology_error p of
           Some e \<Rightarrow> Inl e
         | None \<Rightarrow>
             (case credentials_of p of
                Inl e \<Rightarrow> Inl e
              | Inr (username, secret) \<Rightarrow>
                  (case prof_tls p of
                     Some (Inl e) \<Rightarrow> Inl e
                   | tls \<Rightarrow>
                       Inr \<lparr>spec_mode = prof_mode p, spec_endpoints = prof_endpoints p,
                            spec_masterName = prof_masterName p, spec_database = prof_database p,
                            spec_timeouts = prof_timeouts p, spec_username = username, spec_password = secret,
                            spec_tls = (tls \<noteq> None)\<rparr>))))"

text \<open>A profile: its provider, its Redis part where present and its name.\<close>

definition buildWithFactory :: "bool \<Rightarrow> redisProfile option \<Rightarrow> string \<Rightarrow> bool \<Rightarrow> goerr + redisResource \<times> clientSpec" where
  "buildWithFactory is_redis redisProfile name factory =
     (if \<not> is_redis then Inl (redis_invalid ''profile.provider'' ''must be redis'')
      else
        (case redisProfile of
           None \<Rightarrow> Inl (redis_invalid ''profile.redis'' ''is required'')
         | Some p \<Rightarrow>
             if \<not> validScopeName name then Inl (redis_invalid ''profile.name'' ''must be canonical'')
             else if \<not> factory then Inl (redis_invalid ''clientFactory'' ''is required'')
             else
               (case makeClientSpec p of
                  Inl e \<Rightarrow> Inl e
                | Inr spec \<Rightarrow>
                    Inr (\<lparr>res_name = name, res_mode = spec_mode spec, res_scopes = fmempty,
                          res_state = newLifecycleState, next_capability = 0\<rparr>, spec))))"

text \<open>\<open>defaultClientFactory.New\<close>: which client it constructs, or the error.\<close>

datatype redis_client_kind = StandaloneClient string int | FailoverClient string "string list" int | ClusterClient "string list"

definition factory_New :: "clientSpec \<Rightarrow> goerr + redis_client_kind" where
  "factory_New spec =
     (case spec_mode spec of
        RedisStandalone \<Rightarrow> Inr (StandaloneClient (spec_endpoints spec ! 0) (spec_database spec))
      | RedisSentinel \<Rightarrow> Inr (FailoverClient (spec_masterName spec) (spec_endpoints spec) (spec_database spec))
      | RedisCluster \<Rightarrow>
          if spec_database spec \<noteq> 0 then Inl (redis_sentinel Redis_ErrInvalidProfile)
          else Inr (ClusterClient (spec_endpoints spec))
      | OtherMode _ \<Rightarrow> Inl (redis_sentinel Redis_ErrInvalidProfile))"

end
