(* ===== verification/Redis_Scopes.thy ===== *)
theory Redis_Scopes
  imports Redis_Lease Redis_Outcomes Resource_Graph
begin

text \<open>
  What scopes and leases promise: physical keys of different scopes never meet, a lease kept after its
  callback is inert, a borrow always ends, cluster commands carry one key each, and a profile that was
  accepted constructs a client.
\<close>

section \<open>Names\<close>

lemma sep_inject:
  "a @ c # x = b @ c # y \<Longrightarrow> c \<notin> set a \<Longrightarrow> c \<notin> set b \<Longrightarrow> a = b \<and> x = y"
proof (induction a arbitrary: b)
  case Nil
  then show ?case by (cases b) auto
next
  case (Cons d a)
  then show ?case by (cases b) auto
qed

lemma scope_chars_no:
  "scope_chars i s \<Longrightarrow> \<not> is_lower c \<Longrightarrow> \<not> is_digit c \<Longrightarrow> c \<noteq> CHR ''-'' \<Longrightarrow> c \<noteq> CHR ''.'' \<Longrightarrow> c \<notin> set s"
  by (induction i s rule: scope_chars.induct) auto

lemma validScopeName_no_colon: "validScopeName s \<Longrightarrow> CHR '':'' \<notin> set s"
  unfolding validScopeName_def by (auto dest!: scope_chars_no [where c = "CHR '':''"] simp: char_in_code)

lemma validScopeName_no_brace: "validScopeName s \<Longrightarrow> CHR ''{'' \<notin> set s \<and> CHR ''}'' \<notin> set s"
  using scope_chars_no [of 0 s "CHR ''{''"] scope_chars_no [of 0 s "CHR ''}''"]
  by (simp add: validScopeName_def char_in_code)

lemma validLogicalKey_no_brace: "validLogicalKey s \<Longrightarrow> CHR ''{'' \<notin> set s \<and> CHR '':'' \<notin> set s"
  by (auto simp: validLogicalKey_def strings_ContainsAny_def list_ex_iff)

lemma scope_chars_eq: "scope_chars i s = validName_chars i s"
  by (induction i s rule: scope_chars.induct) (auto simp: char_in_def lower_alpha_def ascii_digit_def)

text \<open>
  The two copies of the name grammar agree: the names \<open>redisresource.Build\<close> accepts are exactly the
  names \<open>resource.Build\<close> accepts, so a Redis resource always has a name the graph takes.
\<close>

theorem validScopeName_is_validName: "validScopeName name = validName name"
  by (auto simp: validScopeName_def validName_def scope_chars_eq maxScopeNameBytes_def char_in_def lower_alpha_def)

section \<open>Isolation\<close>

definition made_by :: "redisResource \<Rightarrow> scope \<Rightarrow> bool" where
  "made_by R sc \<longleftrightarrow> validScopeName (res_name R) \<and> validScopeName (scope_name sc) \<and> scope_resource sc = res_name R
     \<and> scope_prefix sc = res_name R @ '':'' @ scope_name sc"

definition scopes_ok :: "redisResource \<Rightarrow> bool" where
  "scopes_ok R \<longleftrightarrow>
     validScopeName (res_name R)
   \<and> (\<forall>n sc. fmlookup (res_scopes R) n = Some sc \<longrightarrow> made_by R sc \<and> scope_name sc = n \<and> scope_capability sc < next_capability R)
   \<and> (\<forall>n m sc sd. fmlookup (res_scopes R) n = Some sc \<and> fmlookup (res_scopes R) m = Some sd
        \<and> scope_capability sc = scope_capability sd \<longrightarrow> n = m)"

text \<open>
  \<open>Scope\<close> is deterministic and hands out one capability for each name: starting from a built resource
  the registry stays well formed, asking twice for a name returns the same capability and changes
  nothing, and different names get different capabilities.
\<close>

theorem Resource_Scope_capabilities:
  assumes "scopes_ok R" and "Resource_Scope name (Some R) = (Some R', Inr sc)"
  shows "scopes_ok R' \<and> made_by R' sc \<and> scope_name sc = name
     \<and> Resource_Scope name (Some R') = (Some R', Inr sc)
     \<and> (\<forall>m sd. m \<noteq> name \<and> fmlookup (res_scopes R') m = Some sd \<longrightarrow> scope_capability sd \<noteq> scope_capability sc)"
proof -
  have v: "validScopeName name" "\<not> r_closing (res_state R)" "\<not> r_closed (res_state R)"
    using assms(2) by (auto simp: Resource_Scope_def split: if_splits)
  show ?thesis
  proof (cases "fmlookup (res_scopes R) name")
    case (Some sd)
    with assms v have "R' = R" "sc = sd" by (auto simp: Resource_Scope_def)
    with Some assms v show ?thesis by (auto simp: scopes_ok_def Resource_Scope_def)
  next
    case None
    with assms(2) v have R': "sc = \<lparr>scope_resource = res_name R, scope_name = name, scope_prefix = res_name R @ '':'' @ name,
        scope_cluster = (res_mode R = RedisCluster), scope_capability = next_capability R\<rparr>"
      "R' = R\<lparr>res_scopes := fmupd name sc (res_scopes R), next_capability := Suc (next_capability R)\<rparr>"
      by (auto simp: Resource_Scope_def Let_def)
    have old: "scope_capability sd < next_capability R" if "fmlookup (res_scopes R) m = Some sd" for m sd
      using assms(1) that by (simp add: scopes_ok_def)
    have "made_by R' sc" using assms(1) v by (simp add: R' made_by_def scopes_ok_def)
    moreover have "scopes_ok R'"
    proof -
      have "made_by R' sd \<and> scope_name sd = m \<and> scope_capability sd < next_capability R'"
        if "fmlookup (res_scopes R') m = Some sd" for m sd
        using assms(1) v that by (auto simp: R' made_by_def scopes_ok_def less_SucI split: if_splits)
      moreover have "m = k"
        if a: "fmlookup (res_scopes R') m = Some sd" "fmlookup (res_scopes R') k = Some se"
          "scope_capability sd = scope_capability se" for m k sd se
      proof (cases "m = name \<or> k = name")
        case True
        with a old show ?thesis by (fastforce simp: R' split: if_splits)
      next
        case False
        with a assms(1) show ?thesis by (auto simp: R' scopes_ok_def)
      qed
      moreover have "validScopeName (res_name R')" using assms(1) by (simp add: R' scopes_ok_def)
      ultimately show ?thesis unfolding scopes_ok_def by blast
    qed
    moreover have "Resource_Scope name (Some R') = (Some R', Inr sc)"
      using v by (simp add: Resource_Scope_def R')
    moreover have "scope_capability sd \<noteq> scope_capability sc"
      if "m \<noteq> name" "fmlookup (res_scopes R') m = Some sd" for m sd
      using that old [of m sd] by (auto simp: R')
    moreover have "scope_name sc = name" by (simp add: R')
    ultimately show ?thesis by blast
  qed
qed

text \<open>
  C16. Scopes are isolated: two keys qualified by leases of scopes of valid resources have the same
  physical value only if the resource, the scope and the logical key are the same; and a lease runs no
  command - it returns \<open>ErrUnsafeKey\<close> without touching the provider - on a key of another resource,
  another scope or another capability.
\<close>

theorem scopes_are_isolated:
  assumes "made_by R sc" and "made_by R' sc'"
    and "QualifyKey logical (Some (new_lease sc)) = Inr k" and "QualifyKey logical' (Some (new_lease sc')) = Inr k'"
  shows "(key_value k = key_value k' \<longrightarrow> res_name R = res_name R' \<and> scope_name sc = scope_name sc' \<and> logical = logical')
     \<and> ((res_name R, scope_name sc, scope_capability sc) \<noteq> (res_name R', scope_name sc', scope_capability sc') \<longrightarrow>
          (\<exists>e. errors_Is e (Redis_class Redis_ErrUnsafeKey)
             \<and> lease_Get C (RCtx None) k' (Some (new_lease sc)) w = (w, Inl e)
             \<and> lease_Set C (RCtx None) k' v d (Some (new_lease sc)) w = (w, Some e)
             \<and> lease_Delete C (RCtx None) [k, k'] (Some (new_lease sc)) w = (w, 0, Some e)
             \<and> lease_Exists C (RCtx None) [k, k'] (Some (new_lease sc)) w = (w, 0, Some e)))"
proof -
  have k: "k = \<lparr>key_value = scope_prefix sc @ '':'' @ logical, key_resource = scope_resource sc,
      key_scope = scope_name sc, key_owner = Some (scope_capability sc)\<rparr>"
    using assms(3) by (auto simp: QualifyKey_def new_lease_def split: if_splits)
  have k': "k' = \<lparr>key_value = scope_prefix sc' @ '':'' @ logical', key_resource = scope_resource sc',
      key_scope = scope_name sc', key_owner = Some (scope_capability sc')\<rparr>"
    using assms(4) by (auto simp: QualifyKey_def new_lease_def split: if_splits)
  have no: "CHR '':'' \<notin> set (res_name R)" "CHR '':'' \<notin> set (res_name R')" "CHR '':'' \<notin> set (scope_name sc)"
    "CHR '':'' \<notin> set (scope_name sc')"
    using assms(1,2) by (auto simp: made_by_def dest: validScopeName_no_colon)
  have same: "res_name R = res_name R' \<and> scope_name sc = scope_name sc' \<and> logical = logical'"
    if "key_value k = key_value k'"
  proof -
    from that have "res_name R @ CHR '':'' # (scope_name sc @ CHR '':'' # logical)
        = res_name R' @ CHR '':'' # (scope_name sc' @ CHR '':'' # logical')"
      using assms(1,2) by (simp add: k k' made_by_def)
    from sep_inject [OF this] have "res_name R = res_name R'"
      and r: "scope_name sc @ CHR '':'' # logical = scope_name sc' @ CHR '':'' # logical'"
      using no by simp_all
    with sep_inject [OF r] no show ?thesis by simp
  qed
  have refused: "foreign_key (new_lease sc) k'"
    if "(res_name R, scope_name sc, scope_capability sc) \<noteq> (res_name R', scope_name sc', scope_capability sc')"
    using that assms(1,2) by (auto simp: foreign_key_def new_lease_def k' made_by_def)
  let ?e = "unsafeKey ''does not belong to this scope capability''"
  have "errors_Is ?e (Redis_class Redis_ErrUnsafeKey)" by (simp add: unsafeKey_def)
  moreover have "lease_Get C (RCtx None) k' (Some (new_lease sc)) w = (w, Inl ?e)
      \<and> lease_Set C (RCtx None) k' v d (Some (new_lease sc)) w = (w, Some ?e)
      \<and> lease_Delete C (RCtx None) [k, k'] (Some (new_lease sc)) w = (w, 0, Some ?e)
      \<and> lease_Exists C (RCtx None) [k, k'] (Some (new_lease sc)) w = (w, 0, Some ?e)"
    if "foreign_key (new_lease sc) k'"
    using that by (simp add: lease_Get_def lease_Set_def lease_Delete_def lease_Exists_def beginCommand_def)
  ultimately show ?thesis using same refused by blast
qed

section \<open>Leases\<close>

lemma inert_lease:
  assumes "\<not> lease_active l"
  shows "(\<exists>e. QualifyKey logical (Some l) = Inl e \<and> errors_Is e (Redis_class Redis_ErrLeaseExpired))"
    and "\<exists>e. beginCommand ctx keys op (Some l) = Inl e"
    and "keys \<noteq> [] \<Longrightarrow> \<not> list_ex (foreign_key l) keys \<Longrightarrow>
       \<exists>e. beginCommand (RCtx None) keys op (Some l) = Inl e \<and> errors_Is e (Redis_class Redis_ErrLeaseExpired)"
  using assms by (auto simp: QualifyKey_def beginCommand_def errors_Is_redis_lifecycleError split: rctx.splits option.splits)

text \<open>
  A borrow always ends. Whatever the callback does - return, fail, panic, leave commands running in
  other goroutines or keep the lease - once \<open>Use\<close> is over the number of borrowers is what the other
  goroutines made it, less this one; and the lease the callback may have kept is inert: no method of it
  reaches the provider again. A callback that left commands running gets \<open>ErrDetachedCommand\<close>.
\<close>

theorem Use_always_ends_the_borrow:
  assumes "beginBorrow OperationUse s = Inr s1" and "cb (new_lease sc) w = (l, w1, r)"
    and "Scope_Use E (RCtx None) (Some sc) (Some cb) s w = (s', w', kept, res)"
  shows "w' = w1 \<and> r_active s' = r_active (during_use E s1) - 1
     \<and> (\<exists>l1. kept = Some l1 \<and> \<not> lease_active l1 \<and> lease_inFlight l1 = 0
          \<and> (\<exists>e. QualifyKey logical kept = Inl e \<and> errors_Is e (Redis_class Redis_ErrLeaseExpired))
          \<and> fst (lease_Get C ctx key kept u) = u \<and> fst (lease_Set C ctx key v d kept u) = u
          \<and> fst (lease_Delete C ctx keys kept u) = u \<and> fst (lease_Exists C ctx keys kept u) = u)
     \<and> (lease_inFlight l > 0 \<and> r \<noteq> CallbackPanicked \<longrightarrow>
          (\<exists>e. res = UseReturned (Some e) \<and> errors_Is e (Redis_class Redis_ErrDetachedCommand)))"
proof -
  let ?l1 = "l\<lparr>lease_active := False, lease_inFlight := 0\<rparr>"
  have x: "expireCancelAndWait l = (?l1, lease_inFlight l > 0)" by (simp add: expireCancelAndWait_def)
  have r: "w' = w1" "kept = Some ?l1" "s' = endBorrow (during_use E s1)"
    using assms x by (auto simp: Scope_Use_def Let_def split: callback_result.splits)
  have "r_active s' = r_active (during_use E s1) - 1" by (simp add: r endBorrow_def Let_def)
  moreover have inert: "\<exists>e. beginCommand ctx keys op (Some ?l1) = Inl e" for ctx keys op
    by (rule inert_lease(2)) simp
  have "fst (lease_Get C ctx key kept u) = u \<and> fst (lease_Set C ctx key v d kept u) = u
      \<and> fst (lease_Delete C ctx keys kept u) = u \<and> fst (lease_Exists C ctx keys kept u) = u"
    using inert [of ctx "[key]" OperationGet] inert [of ctx "[key]" OperationSet] inert [of ctx keys OperationDelete]
      inert [of ctx keys OperationExists]
    by (auto simp: r lease_Get_def lease_Set_def lease_Delete_def lease_Exists_def)
  moreover have "\<exists>e. QualifyKey logical kept = Inl e \<and> errors_Is e (Redis_class Redis_ErrLeaseExpired)"
    unfolding r by (rule inert_lease(1)) simp
  moreover have "\<exists>e. res = UseReturned (Some e) \<and> errors_Is e (Redis_class Redis_ErrDetachedCommand)"
    if d: "lease_inFlight l > 0" "r \<noteq> CallbackPanicked"
  proof -
    from d(2) obtain err where err: "r = CallbackReturned err" by (cases r) auto
    let ?j = "errors_Join [withContextError (use_cause E w1) err, Some (redis_sentinel Redis_ErrDetachedCommand)]"
    have j: "is_err ?j (Redis_class Redis_ErrDetachedCommand)" by simp
    then obtain e where e: "?j = Some e" using is_err_Some by blast
    with d err assms x have "res = UseReturned (Some (redis_error OperationUse Redis_ErrUseRejected (Some e)))"
      by (auto simp: Scope_Use_def Let_def)
    with j e show ?thesis by (simp add: errors_Is_redis_lifecycleError)
  qed
  ultimately show ?thesis using r by simp
qed

section \<open>Several keys\<close>

text \<open>The keys and counts of the commands that were executed, in order.\<close>

fun executed :: "('w \<Rightarrow> goerr option) \<Rightarrow> (string list \<Rightarrow> 'w \<Rightarrow> 'w \<times> int \<times> goerr option) \<Rightarrow> string list \<Rightarrow> 'w
    \<Rightarrow> (string \<times> int) list" where
  "executed cause command [] w = []"
| "executed cause command (key # keys) w =
     (let (w1, count, err) = command [key] w in
      (key, count) # (if withContextError (cause w1) err = None then executed cause command keys w1 else []))"

lemma multiKey_loop_executed:
  assumes "multiKey_loop cause op command keys acc w = (w', n, r)"
  shows "n = acc + sum_list (map snd (executed cause command keys w))"
    and "map fst (executed cause command keys w) = take (length (executed cause command keys w)) keys"
    and "r = None \<Longrightarrow> map fst (executed cause command keys w) = keys"
  using assms
  by (induction cause op command keys acc w rule: multiKey_loop.induct)
    (auto simp: Let_def split: prod.splits option.splits if_splits)

text \<open>
  A multi-key command on a cluster never sends a request with more than one key: it runs one
  command for each key, in order, up to the first failure. The count it returns is exactly the sum of
  the counts of the executed commands, also when it fails, and it succeeds only if every key was done.
  Outside a cluster it is the single batched command.
\<close>

theorem cluster_commands_one_key_each:
  assumes "beginCommand ctx keys OperationDelete (Some l) = Inr l1"
    and "lease_Delete C ctx keys (Some l) w = (w', n, r)"
  shows "(lease_cluster l \<longrightarrow>
            n = sum_list (map snd (executed (command_cause C) (client_Delete C) (physicalKeys keys) w))
          \<and> (\<exists>done rest. physicalKeys keys = done @ rest
               \<and> done = map fst (executed (command_cause C) (client_Delete C) (physicalKeys keys) w)
               \<and> (r = None \<longrightarrow> rest = [])))
       \<and> (\<not> lease_cluster l \<longrightarrow> (w', n) = (fst (client_Delete C (physicalKeys keys) w), fst (snd (client_Delete C (physicalKeys keys) w))))"
proof -
  have l1: "lease_cluster l1 = lease_cluster l"
    using assms(1) by (auto simp: beginCommand_def split: rctx.splits option.splits if_splits)
  have m: "multiKey (command_cause C) (lease_cluster l) keys OperationDelete (client_Delete C) w = (w', n, r)"
    using assms l1 by (simp add: lease_Delete_def)
  show ?thesis
  proof (cases "lease_cluster l")
    case True
    with m have loop: "multiKey_loop (command_cause C) OperationDelete (client_Delete C) (physicalKeys keys) 0 w = (w', n, r)"
      by (simp add: multiKey_def)
    let ?x = "executed (command_cause C) (client_Delete C) (physicalKeys keys) w"
    have "physicalKeys keys = map fst ?x @ drop (length ?x) (physicalKeys keys)"
      using multiKey_loop_executed(2) [OF loop] by (metis append_take_drop_id)
    moreover have "r = None \<longrightarrow> drop (length ?x) (physicalKeys keys) = []"
      using multiKey_loop_executed(3) [OF loop] by (metis drop_all length_map order_refl)
    ultimately have "\<exists>done rest. physicalKeys keys = done @ rest \<and> done = map fst ?x \<and> (r = None \<longrightarrow> rest = [])"
      by blast
    with True multiKey_loop_executed(1) [OF loop] show ?thesis by simp
  next
    case False
    with m show ?thesis by (auto simp: multiKey_def Let_def split: prod.splits option.splits)
  qed
qed

section \<open>Profiles\<close>

text \<open>
  A profile that \<open>Build\<close> accepts can always be started: its specification has the topology of its
  mode, so the default factory constructs a client for it (without reading past the endpoint list), a
  cluster has no database selected, and anonymous credentials stay empty.
\<close>

theorem accepted_profile_constructs_client:
  assumes "buildWithFactory True (Some p) name factory = Inr (R, spec)"
  shows "(\<exists>k. factory_New spec = Inr k) \<and> spec_endpoints spec \<noteq> []
     \<and> (spec_mode spec = RedisStandalone \<longrightarrow> length (spec_endpoints spec) = 1)
     \<and> (spec_mode spec = RedisCluster \<longrightarrow> spec_database spec = 0)
     \<and> (prof_credentials p = RedisCredentialsAnonymous \<longrightarrow> spec_username spec = [] \<and> spec_password spec = [])
     \<and> (prof_credentials p = RedisCredentialsPassword \<longrightarrow> spec_password spec \<noteq> [])
     \<and> scopes_ok R \<and> fresh (res_state R)"
proof -
  have m: "makeClientSpec p = Inr spec"
    and R: "R = \<lparr>res_name = name, res_mode = spec_mode spec, res_scopes = fmempty, res_state = newLifecycleState,
                next_capability = 0\<rparr>" and v: "validScopeName name"
    using assms by (auto simp: buildWithFactory_def split: if_splits sum.splits)
  have t: "topology_error p = None" and s: "spec_mode spec = prof_mode p" "spec_endpoints spec = prof_endpoints p"
    "spec_masterName spec = prof_masterName p" "spec_database spec = prof_database p"
    and cr: "credentials_of p = Inr (spec_username spec, spec_password spec)"
    using m by (auto simp: makeClientSpec_def split: if_splits prod.splits sum.splits option.splits)
  have "(\<exists>k. factory_New spec = Inr k) \<and> spec_endpoints spec \<noteq> []
     \<and> (spec_mode spec = RedisStandalone \<longrightarrow> length (spec_endpoints spec) = 1)
     \<and> (spec_mode spec = RedisCluster \<longrightarrow> spec_database spec = 0)"
    using t s by (auto simp: topology_error_def factory_New_def split: redisMode.splits if_splits)
  moreover have "(prof_credentials p = RedisCredentialsAnonymous \<longrightarrow> spec_username spec = [] \<and> spec_password spec = [])
     \<and> (prof_credentials p = RedisCredentialsPassword \<longrightarrow> spec_password spec \<noteq> [])"
    using cr by (auto simp: credentials_of_def split: credentials_kind.splits option.splits if_splits)
  moreover have "scopes_ok R \<and> fresh (res_state R)" using v fresh_new by (simp add: R scopes_ok_def)
  ultimately show ?thesis by blast
qed

section \<open>A resource with two scopes\<close>

definition demo_profile :: redisProfile where
  "demo_profile =
     \<lparr>prof_mode = RedisCluster, prof_endpoints = [''a:1'', ''b:1''], prof_masterName = [], prof_database = 0,
      prof_timeouts = (1, 1, 1), prof_credentials = RedisCredentialsPassword, prof_username = None,
      prof_password = Some ''secret'', prof_tls = None\<rparr>"

definition demo_scope :: "string \<Rightarrow> nat \<Rightarrow> scope" where
  "demo_scope n c = \<lparr>scope_resource = ''redis'', scope_name = n, scope_prefix = ''redis:'' @ n, scope_cluster = True,
     scope_capability = c\<rparr>"

definition demo_redis_resource :: redisResource where
  "demo_redis_resource = \<lparr>res_name = ''redis'', res_mode = RedisCluster, res_scopes = fmempty,
     res_state = newLifecycleState, next_capability = 0\<rparr>"

definition demo_client :: "int ownedClient" where
  "demo_client = \<lparr>client_Get = (\<lambda>k w. (w, [], False, None)), client_Set = (\<lambda>k v d w. (w + 1, None)),
     client_Delete = (\<lambda>ks w. (w + 1, int (length ks), None)), client_Exists = (\<lambda>ks w. (w, 0, None)),
     command_cause = (\<lambda>w. None)\<rparr>"

lemma demo_names: "validScopeName ''redis''" "validScopeName ''bus''" "validLogicalKey ''latest''"
  by code_simp+

lemma demo_redis_build: "\<exists>spec. buildWithFactory True (Some demo_profile) ''redis'' True = Inr (demo_redis_resource, spec)
    \<and> spec_password spec = ''secret''"
  by (simp add: buildWithFactory_def demo_names makeClientSpec_def demo_profile_def topology_error_def credentials_of_def
      demo_redis_resource_def)

lemma demo_scopes_ok: "scopes_ok demo_redis_resource"
  by (simp add: scopes_ok_def demo_redis_resource_def demo_names)

lemma demo_made_by: "made_by demo_redis_resource (demo_scope ''bus'' c)"
  by (simp add: made_by_def demo_redis_resource_def demo_scope_def demo_names)

lemma demo_key: "QualifyKey ''latest'' (Some (new_lease (demo_scope ''bus'' c))) =
    Inr \<lparr>key_value = ''redis:bus:latest'', key_resource = ''redis'', key_scope = ''bus'', key_owner = Some c\<rparr>"
  by (simp add: QualifyKey_def new_lease_def demo_names demo_scope_def)

lemma Resource_Scope_capabilities_witness:
  "\<exists>R'. Resource_Scope ''bus'' (Some demo_redis_resource) = (Some R', Inr (demo_scope ''bus'' 0)) \<and> scopes_ok R'"
proof -
  obtain R' where "Resource_Scope ''bus'' (Some demo_redis_resource) = (Some R', Inr (demo_scope ''bus'' 0))"
    by (simp add: Resource_Scope_def demo_redis_resource_def demo_names demo_scope_def newLifecycleState_def Let_def)
  with Resource_Scope_capabilities [OF demo_scopes_ok this] show ?thesis by blast
qed

lemma scopes_are_isolated_witness:
  "\<exists>k e. QualifyKey ''latest'' (Some (new_lease (demo_scope ''bus'' 1))) = Inr k
     \<and> lease_Get demo_client (RCtx None) k (Some (new_lease (demo_scope ''bus'' 0))) 0 = (0, Inl e)
     \<and> errors_Is e (Redis_class Redis_ErrUnsafeKey)"
proof -
  have "(res_name demo_redis_resource, scope_name (demo_scope ''bus'' 0), scope_capability (demo_scope ''bus'' 0))
      \<noteq> (res_name demo_redis_resource, scope_name (demo_scope ''bus'' 1), scope_capability (demo_scope ''bus'' 1))"
    by (simp add: demo_scope_def)
  with scopes_are_isolated [OF demo_made_by demo_made_by demo_key demo_key, of 0 1 demo_client 0 "[]" 0]
  show ?thesis using demo_key [of 1] by blast
qed

lemma Use_always_ends_the_borrow_witness:
  "\<exists>s1 e. beginBorrow OperationUse (newLifecycleState\<lparr>r_started := True, r_client := True\<rparr>) = Inr s1
     \<and> snd (snd (snd (Scope_Use \<lparr>use_cause = (\<lambda>w. None), use_ctx_err = (\<lambda>w. None), during_use = id\<rparr> (RCtx None)
         (Some (demo_scope ''bus'' 0)) (Some (\<lambda>l w. (l\<lparr>lease_inFlight := 1\<rparr>, w, CallbackReturned None)))
         (newLifecycleState\<lparr>r_started := True, r_client := True\<rparr>) (0 :: int)))) = UseReturned (Some e)
     \<and> errors_Is e (Redis_class Redis_ErrDetachedCommand)"
proof -
  let ?s = "newLifecycleState\<lparr>r_started := True, r_client := True\<rparr>"
  let ?E = "\<lparr>use_cause = (\<lambda>w. None), use_ctx_err = (\<lambda>w. None), during_use = id\<rparr>"
  let ?cb = "\<lambda>l w. (l\<lparr>lease_inFlight := 1\<rparr>, w, CallbackReturned None)"
  obtain s1 where b: "beginBorrow OperationUse ?s = Inr s1" by (simp add: beginBorrow_def newLifecycleState_def)
  obtain s' w' kept res where u: "Scope_Use ?E (RCtx None) (Some (demo_scope ''bus'' 0)) (Some ?cb) ?s (0 :: int) = (s', w', kept, res)"
    by (metis prod_cases4)
  have "(?cb (new_lease (demo_scope ''bus'' 0)) (0 :: int)) =
      ((new_lease (demo_scope ''bus'' 0))\<lparr>lease_inFlight := 1\<rparr>, 0, CallbackReturned None)" by simp
  from Use_always_ends_the_borrow [OF b this u, where C = demo_client and u = 0 and logical = "[]" and ctx = RNil
      and keys = "[]" and v = "[]" and d = 0
      and key = "\<lparr>key_value = [], key_resource = [], key_scope = [], key_owner = None\<rparr>"] obtain e where
    "res = UseReturned (Some e)" "errors_Is e (Redis_class Redis_ErrDetachedCommand)" by auto
  with b u show ?thesis by auto
qed

lemma cluster_commands_one_key_each_witness:
  "\<exists>w' r. lease_Delete demo_client (RCtx None)
     [\<lparr>key_value = ''redis:bus:a'', key_resource = ''redis'', key_scope = ''bus'', key_owner = Some 0\<rparr>,
      \<lparr>key_value = ''redis:bus:b'', key_resource = ''redis'', key_scope = ''bus'', key_owner = Some 0\<rparr>]
     (Some (new_lease (demo_scope ''bus'' 0))) 0 = (w', 2, r) \<and> w' = 2 \<and> r = None"
proof -
  let ?k = "\<lambda>n. \<lparr>key_value = n, key_resource = ''redis'', key_scope = ''bus'', key_owner = Some 0\<rparr>"
  obtain l1 where b: "beginCommand (RCtx None) [?k ''redis:bus:a'', ?k ''redis:bus:b''] OperationDelete
      (Some (new_lease (demo_scope ''bus'' 0))) = Inr l1"
    by (simp add: beginCommand_def foreign_key_def new_lease_def demo_scope_def)
  obtain w' n r where d: "lease_Delete demo_client (RCtx None) [?k ''redis:bus:a'', ?k ''redis:bus:b'']
      (Some (new_lease (demo_scope ''bus'' 0))) 0 = (w', n, r)" by (metis prod_cases3)
  have "lease_cluster (new_lease (demo_scope ''bus'' 0))" by (simp add: new_lease_def demo_scope_def)
  with cluster_commands_one_key_each [OF b d] have "n = 2"
    by (simp add: physicalKeys_def demo_client_def withContextError_def)
  moreover have "w' = 2 \<and> r = None"
    using d b by (auto simp: lease_Delete_def multiKey_def physicalKeys_def demo_client_def withContextError_def
        beginCommand_def foreign_key_def new_lease_def demo_scope_def)
  ultimately show ?thesis using d by simp
qed

lemma accepted_profile_constructs_client_witness:
  "\<exists>R spec k. buildWithFactory True (Some demo_profile) ''redis'' True = Inr (R, spec) \<and> factory_New spec = Inr k
     \<and> spec_database spec = 0"
proof -
  obtain spec where b: "buildWithFactory True (Some demo_profile) ''redis'' True = Inr (demo_redis_resource, spec)"
    using demo_redis_build by blast
  then have "spec_mode spec = RedisCluster"
    by (auto simp: buildWithFactory_def demo_redis_resource_def split: if_splits sum.splits)
  with accepted_profile_constructs_client [OF b] b show ?thesis by blast
qed

end
