(* ===== verification/Redis_Bridge.thy ===== *)
theory Redis_Bridge
  imports Redis_Scopes Challenge_Once
begin

text \<open>
  \<open>mss-boot/runtime/internal/redisbridge/bridge.go\<close> and the part of \<open>redisresource/lease.go\<close> that
  implements it: atomic groups, the keys within a group, and the path of one fixed script from the
  capability through the lease to the provider. SHA-256 and HMAC are parameters (\<open>crypto\<close>), of which
  only the length of the result is used.

  The world of a capability (\<open>cworld\<close>) is the Redis store, the fate of each coming request (\<open>link\<close>:
  executed and answered, refused before it ran, or executed with the reply lost), the entropy source, and
  the variable the callback leaves its reply in.
\<close>

section \<open>Cryptography\<close>

record crypto =
  sha256 :: "string \<Rightarrow> string"
  hmac_sha256 :: "string \<Rightarrow> string \<Rightarrow> string"

definition crypto_laws :: "crypto \<Rightarrow> bool" where
  "crypto_laws K \<longleftrightarrow> (\<forall>x. length (sha256 K x) = 32) \<and> (\<forall>k x. length (hmac_sha256 K k x) = 32)"

section \<open>Groups and keys\<close>

definition ErrInvalidGroup_bridge :: goerr where "ErrInvalidGroup_bridge = Sentinel (Foreign 101)"
definition ErrInvalidKey :: goerr where "ErrInvalidKey = Sentinel (Foreign 102)"
definition ErrCrossGroup :: goerr where "ErrCrossGroup = Sentinel (Foreign 103)"
definition ErrInvalidScript :: goerr where "ErrInvalidScript = Sentinel (Foreign 104)"
definition errUnexpectedResult :: goerr where "errUnexpectedResult = Sentinel (Foreign 105)"

record atomicGroup =
  group_tag :: string
  group_valid :: bool

record bridgeKey =
  bkey_tag :: string
  bkey_logical :: string
  bkey_valid :: bool

definition name_char :: "char \<Rightarrow> bool" where
  "name_char c \<longleftrightarrow> is_lower c \<or> is_digit c \<or> c = CHR ''-'' \<or> c = CHR ''_'' \<or> c = CHR ''.''"

definition bridge_validName :: "string \<Rightarrow> bool" where
  "bridge_validName value \<longleftrightarrow>
     \<not> (value = [] \<or> length value > 96 \<or> \<not> utf8_valid value \<or> strings_TrimSpace value \<noteq> value)
     \<and> list_all name_char value"

definition NewAtomicGroup :: "crypto \<Rightarrow> string \<Rightarrow> string \<Rightarrow> goerr + atomicGroup" where
  "NewAtomicGroup K domain ident =
     (if \<not> bridge_validName domain \<or> ident = [] \<or> length ident > 512 then Inl ErrInvalidGroup_bridge
      else Inr \<lparr>group_tag = base64_EncodeToString
                  (sha256 K (''mss/runtime/redis-atomic-group/v1'' @ [CHR 0x00] @ domain @ [CHR 0x00] @ ident)),
                group_valid = True\<rparr>)"

definition group_Key :: "atomicGroup \<Rightarrow> string \<Rightarrow> goerr + bridgeKey" where
  "group_Key g logical =
     (if \<not> group_valid g then Inl ErrInvalidGroup_bridge
      else if \<not> bridge_validName logical then Inl ErrInvalidKey
      else Inr \<lparr>bkey_tag = group_tag g, bkey_logical = logical, bkey_valid = True\<rparr>)"

section \<open>Scripts and requests\<close>

datatype scriptID =
  scriptInvalid | scriptChallengeRate | scriptChallengeBegin | scriptChallengeCommit | scriptChallengeAbort
| scriptChallengeReadVerifier | scriptChallengeCompleteVerify

definition script_valid :: "scriptID \<Rightarrow> bool" where
  "script_valid i \<longleftrightarrow> i \<noteq> scriptInvalid"

datatype arg = AStr string | AInt int

datatype reply_value = RText string | RList "reply_value option list" | RInteger int

fun Reply_Text :: "reply_value \<Rightarrow> goerr + string" where
  "Reply_Text (RText t) = Inr t"
| "Reply_Text _ = Inl errUnexpectedResult"

fun texts :: "reply_value option list \<Rightarrow> string list option" where
  "texts [] = Some []"
| "texts (None # vs) = map_option (\<lambda>ts. [] # ts) (texts vs)"
| "texts (Some (RText t) # vs) = map_option (\<lambda>ts. t # ts) (texts vs)"
| "texts (Some _ # vs) = None"

fun Reply_Strings :: "reply_value \<Rightarrow> goerr + string list" where
  "Reply_Strings (RList vs) = (case texts vs of Some ts \<Rightarrow> Inr ts | None \<Rightarrow> Inl errUnexpectedResult)"
| "Reply_Strings _ = Inl errUnexpectedResult"

record request =
  req_group :: atomicGroup
  req_keys :: "bridgeKey list"
  req_script :: scriptID
  req_args :: "arg list"

text \<open>The physical keys of a request; any key of another group refuses it.\<close>

fun materialize :: "string \<Rightarrow> string \<Rightarrow> bridgeKey list \<Rightarrow> goerr + string list" where
  "materialize prefix tag [] = Inr []"
| "materialize prefix tag (k # ks) =
     (if \<not> bkey_valid k \<or> bkey_tag k \<noteq> tag then Inl ErrCrossGroup
      else (case materialize prefix tag ks of
              Inl e \<Rightarrow> Inl e
            | Inr ps \<Rightarrow> Inr ((prefix @ '':{'' @ tag @ ''}:'' @ bkey_logical k) # ps)))"

text \<open>\<open>Execute\<close> with the executor of the resource side.\<close>

definition Execute :: "string \<Rightarrow> (scriptID \<Rightarrow> string list \<Rightarrow> arg list \<Rightarrow> 'w \<Rightarrow> 'w \<times> (goerr + reply_value)) \<Rightarrow> request
    \<Rightarrow> 'w \<Rightarrow> 'w \<times> (goerr + reply_value)" where
  "Execute prefix executor r w =
     (if prefix = [] \<or> \<not> group_valid (req_group r) \<or> \<not> script_valid (req_script r) \<or> req_keys r = [] then
        (w, Inl ErrInvalidScript)
      else
        (case materialize prefix (group_tag (req_group r)) (req_keys r) of
           Inl e \<Rightarrow> (w, Inl e)
         | Inr keys \<Rightarrow> executor (req_script r) keys (req_args r) w))"

text \<open>\<open>lease.Run\<close> of the bridge: \<open>RedisBridgeRun\<close> of the driver is called with the copied request.\<close>

definition bridge_Run :: "(request \<Rightarrow> 'w \<Rightarrow> 'w \<times> (goerr + reply_value)) \<Rightarrow> atomicGroup \<Rightarrow> rctx \<Rightarrow> scriptID
    \<Rightarrow> bridgeKey list \<Rightarrow> arg list \<Rightarrow> 'w \<Rightarrow> 'w \<times> (goerr + reply_value)" where
  "bridge_Run driver grp ctx script keys args w =
     (if \<not> group_valid grp \<or> ctx = RNil \<or> \<not> script_valid script \<or> keys = [] then (w, Inl ErrInvalidScript)
      else if list_ex (\<lambda>k. \<not> bkey_valid k \<or> bkey_tag k \<noteq> group_tag grp) keys then (w, Inl ErrCrossGroup)
      else driver \<lparr>req_group = grp, req_keys = keys, req_script = script, req_args = args\<rparr> w)"

section \<open>The resource side\<close>

text \<open>\<open>atomicDriver.RedisBridgeRun\<close>; \<open>atomic\<close> tells whether the client implements \<open>EvalFixed\<close>.\<close>

definition RedisBridgeRun :: "bool \<Rightarrow> ('w \<Rightarrow> goerr option)
    \<Rightarrow> (scriptID \<Rightarrow> string list \<Rightarrow> arg list \<Rightarrow> 'w \<Rightarrow> 'w \<times> (goerr + reply_value))
    \<Rightarrow> lease \<Rightarrow> rctx \<Rightarrow> request \<Rightarrow> 'w \<Rightarrow> 'w \<times> (goerr + reply_value)" where
  "RedisBridgeRun atomic cause executor l ctx r w =
     (let marker = \<lparr>key_value = ''redisbridge'', key_resource = lease_resource l, key_scope = lease_scope l,
                    key_owner = Some (lease_capability l)\<rparr> in
      case beginCommand ctx [marker] OperationAtomic (Some l) of
        Inl e \<Rightarrow> (w, Inl e)
      | Inr _ \<Rightarrow>
          if \<not> atomic then
            (w, Inl (redis_error OperationAtomic Redis_ErrCommandFailed (Some (redis_sentinel Redis_ErrCommandFailed))))
          else
            (let (w1, res) = Execute (lease_prefix l) executor r w in
             case withContextError (cause w1) (case res of Inl e \<Rightarrow> Some e | Inr _ \<Rightarrow> None) of
               Some e \<Rightarrow> (w1, Inl (redis_error OperationAtomic Redis_ErrCommandFailed (Some e)))
             | None \<Rightarrow> (w1, res)))"

section \<open>The provider\<close>

text \<open>The client executes a script; its arguments arrive as the script expects them.\<close>

definition eval_script :: "'s redis \<Rightarrow> scriptID \<Rightarrow> string list \<Rightarrow> arg list \<Rightarrow> 's \<Rightarrow> 's \<times> reply_value option" where
  "eval_script R i keys args s =
     (case (i, keys, args) of
        (scriptChallengeRate, [caller, global], [AStr op, AInt cw, AInt cl, AInt gw, AInt gl, AInt grace]) \<Rightarrow>
          map_prod id (map_option RText) (challengeRate R caller global op cw cl gw gl grace s)
      | (scriptChallengeBegin, [state, quota], [AStr iid, AInt n, AStr dig, AStr pep, AInt pt, AInt ct, AInt cd, AInt qw, AInt grace]) \<Rightarrow>
          map_prod id (map_option RText)
            (challengeBegin R state quota
               \<lparr>issue_id = iid, max_issues = n, issue_digest = dig, issue_pepper = pep, pending_ttl = pt,
                challenge_ttl = ct, cooldown_ttl = cd, quota_window = qw, expiry_grace = grace\<rparr> s)
      | (scriptChallengeCommit, [state, ops], [AStr iid, AInt grace]) \<Rightarrow>
          map_prod id (map_option RText) (challengeCommit R state ops iid grace s)
      | (scriptChallengeAbort, [state], [AStr iid]) \<Rightarrow>
          map_prod id (map_option RText) (challengeAbort R state iid s)
      | (scriptChallengeReadVerifier, [state], []) \<Rightarrow>
          (s, Some (RList (map (map_option RText) (challengeReadVerifier R state s))))
      | (scriptChallengeCompleteVerify, [state, ops], [AStr eid, AStr ed, AStr op, AInt n, AInt m, AInt ttl]) \<Rightarrow>
          map_prod id (map_option RText)
            (challengeCompleteVerify R state ops
               \<lparr>expected_id = eid, expected_digest = ed, operation_id = op, max_attempts = n, matched = (m = 1),
                idempotency_ttl = ttl\<rparr> s)
      | _ \<Rightarrow> (s, None))"

datatype link = Served | Refused goerr | Lost goerr

record 's cworld =
  db :: 's
  links :: "link list"
  entropy :: string
  captured :: "reply_value option"

text \<open>\<open>EvalFixed\<close>: one request over the network.\<close>

definition EvalFixed :: "'s redis \<Rightarrow> scriptID \<Rightarrow> string list \<Rightarrow> arg list \<Rightarrow> 's cworld \<Rightarrow> 's cworld \<times> (goerr + reply_value)" where
  "EvalFixed R i keys args w =
     (let l = (case links w of [] \<Rightarrow> Served | l # _ \<Rightarrow> l);
          w1 = w\<lparr>links := tl (links w)\<rparr>;
          (d, res) = eval_script R i keys args (db w) in
      case l of
        Refused e \<Rightarrow> (w1, Inl e)
      | Lost e \<Rightarrow> (w1\<lparr>db := d\<rparr>, Inl e)
      | Served \<Rightarrow> (w1\<lparr>db := d\<rparr>, case res of None \<Rightarrow> Inl (Sentinel (Foreign 106)) | Some v \<Rightarrow> Inr v))"

section \<open>Using the bridge\<close>

text \<open>
  \<open>redisbridge.Use\<close> over \<open>Scope.RedisBridgeUse\<close> with the callback all capabilities pass: run one script and
  keep its reply. \<open>now\<close> reads \<open>ctx.Err()\<close>.
\<close>

record 's bridge_env =
  be_redis :: "'s redis"
  be_atomic :: bool
  be_cause :: "'s cworld \<Rightarrow> goerr option"
  be_now :: "'s cworld \<Rightarrow> sentinel option"
  be_use :: "'s cworld use_env"

definition script_callback :: "'s bridge_env \<Rightarrow> atomicGroup \<Rightarrow> scriptID \<Rightarrow> bridgeKey list \<Rightarrow> arg list
    \<Rightarrow> lease \<Rightarrow> 's cworld \<Rightarrow> lease \<times> 's cworld \<times> callback_result" where
  "script_callback B grp script keys args l w =
     (let (w1, res) = bridge_Run (RedisBridgeRun (be_atomic B) (be_cause B) (EvalFixed (be_redis B)) l (RCtx (be_now B w)))
                        grp (RCtx (be_now B w)) script keys args w in
      case res of
        Inl e \<Rightarrow> (l, w1, CallbackReturned (Some e))
      | Inr v \<Rightarrow> (l, w1\<lparr>captured := Some v\<rparr>, CallbackReturned None))"

definition bridge_Use :: "'s bridge_env \<Rightarrow> scope \<Rightarrow> atomicGroup \<Rightarrow> scriptID \<Rightarrow> bridgeKey list \<Rightarrow> arg list
    \<Rightarrow> lifecycleState \<Rightarrow> 's cworld \<Rightarrow> lifecycleState \<times> 's cworld \<times> (goerr + reply_value)" where
  "bridge_Use B sc grp script keys args s w =
     (if \<not> group_valid grp then (s, w, Inl ErrInvalidGroup_bridge)
      else
        (case Scope_Use (be_use B) (RCtx (be_now B w)) (Some sc) (Some (script_callback B grp script keys args)) s
                (w\<lparr>captured := None\<rparr>) of
           (s1, w1, _, UsePanicked) \<Rightarrow> (s1, w1, Inl errUnexpectedResult)
         | (s1, w1, _, UseReturned (Some e)) \<Rightarrow> (s1, w1, Inl e)
         | (s1, w1, _, UseReturned None) \<Rightarrow>
             (s1, w1, case captured w1 of None \<Rightarrow> Inl errUnexpectedResult | Some v \<Rightarrow> Inr v)))"

end
