(* ===== verification/Challenge_Service.thy ===== *)
theory Challenge_Service
  imports Redis_Bridge
begin

text \<open>
  \<open>mss-boot/runtime/challenge/challenge.go\<close>: the Go side of the verification challenge, over the bridge
  and the Lua scripts. Durations are nanoseconds. \<open>crypto/rand\<close> reads from the entropy of the world;
  \<open>hmac.Equal\<close> is equality. The context of a call is observed through \<open>be_now\<close> of the bridge environment.
\<close>

section \<open>Errors and options\<close>

definition ErrUnavailable :: goerr where "ErrUnavailable = Sentinel (Foreign 201)"
definition ErrStale :: goerr where "ErrStale = Sentinel (Foreign 202)"
definition ErrInvalid :: goerr where "ErrInvalid = Sentinel (Foreign 203)"
definition errQuota :: goerr where "errQuota = Sentinel (Foreign 204)"

lemmas challenge_errors = ErrUnavailable_def ErrStale_def ErrInvalid_def errQuota_def

definition ms :: int where "ms = 1000000"
definition minute :: int where "minute = 60 * 1000 * ms"
definition stateExpiryGrace :: int where "stateExpiryGrace = minute"
definition minimumSecretBytes :: nat where "minimumSecretBytes = 32"

record pepper =
  pep_version :: string
  pep_secret :: string

record options =
  SubjectKey :: string
  Peppers :: "pepper list"
  CodeTTL :: int
  PendingTTL :: int
  Cooldown :: int
  QuotaWindow :: int
  MaxIssues :: int
  MaxAttempts :: int
  IdempotencyTTL :: int
  CallerWindow :: int
  CallerLimit :: int
  GlobalWindow :: int
  GlobalLimit :: int

definition or_default :: "int \<Rightarrow> int \<Rightarrow> int" where
  "or_default d v = (if v = 0 then d else v)"

definition defaultOptions :: "options \<Rightarrow> options" where
  "defaultOptions op =
     op\<lparr>CodeTTL := or_default (5 * minute) (CodeTTL op), PendingTTL := or_default (30 * 1000 * ms) (PendingTTL op),
       Cooldown := or_default minute (Cooldown op), QuotaWindow := or_default (60 * minute) (QuotaWindow op),
       MaxIssues := or_default 5 (MaxIssues op), MaxAttempts := or_default 5 (MaxAttempts op),
       IdempotencyTTL := or_default (2 * minute) (IdempotencyTTL op),
       CallerWindow := or_default (10 * minute) (CallerWindow op), CallerLimit := or_default 10 (CallerLimit op),
       GlobalWindow := or_default (10 * minute) (GlobalWindow op), GlobalLimit := or_default 1000 (GlobalLimit op)\<rparr>"

definition plausibleSecret :: "string \<Rightarrow> bool" where
  "plausibleSecret secret \<longleftrightarrow> \<not> length secret < minimumSecretBytes \<and> length (remdups secret) \<ge> 16"

definition purpose_char :: "char \<Rightarrow> bool" where
  "purpose_char c \<longleftrightarrow> is_lower c \<or> is_digit c \<or> c = CHR ''.'' \<or> c = CHR ''_'' \<or> c = CHR ''-''"

text \<open>\<open>^[a-z0-9][a-z0-9._-]{0,63}$\<close>\<close>

definition purposePattern :: "string \<Rightarrow> bool" where
  "purposePattern s \<longleftrightarrow>
     (case s of [] \<Rightarrow> False
      | c # cs \<Rightarrow> (is_lower c \<or> is_digit c) \<and> length cs \<le> 63 \<and> list_all purpose_char cs)"

text \<open>The loop over the peppers; \<open>versions\<close> are those seen.\<close>

fun check_peppers :: "string \<Rightarrow> string list \<Rightarrow> pepper list \<Rightarrow> goerr option" where
  "check_peppers subject_key versions [] = None"
| "check_peppers subject_key versions (p # ps) =
     (if \<not> purposePattern (pep_version p) \<or> \<not> plausibleSecret (pep_secret p) \<or> subject_key = pep_secret p then Some ErrInvalid
      else if pep_version p \<in> set versions then Some ErrInvalid
      else check_peppers subject_key (pep_version p # versions) ps)"

definition bad_duration :: "int \<Rightarrow> bool" where
  "bad_duration d \<longleftrightarrow> d < ms \<or> d mod ms \<noteq> 0"

definition validateOptions :: "options \<Rightarrow> goerr option" where
  "validateOptions op =
     (if \<not> plausibleSecret (SubjectKey op) \<or> Peppers op = [] \<or> length (Peppers op) > 2 then Some ErrInvalid
      else
        (case check_peppers (SubjectKey op) [] (Peppers op) of
           Some e \<Rightarrow> Some e
         | None \<Rightarrow>
             if length (Peppers op) = 2 \<and> pep_secret (Peppers op ! 0) = pep_secret (Peppers op ! 1) then Some ErrInvalid
             else if list_ex bad_duration
                       [CodeTTL op, PendingTTL op, Cooldown op, QuotaWindow op, IdempotencyTTL op, CallerWindow op,
                        GlobalWindow op] then Some ErrInvalid
             else if PendingTTL op \<ge> CodeTTL op \<or> MaxIssues op \<le> 0 \<or> MaxAttempts op \<le> 0 \<or> CallerLimit op \<le> 0
                     \<or> GlobalLimit op \<le> 0 then Some ErrInvalid
             else None))"

section \<open>The service\<close>

record challengeRedis =
  ch_scope :: scope
  ch_owner :: nat
  ch_peppers :: "(string, string) gomap"
  ch_currentPepper :: string
  ch_options :: options

text \<open>\<open>owner\<close> is the address of the new \<open>reservationOwner\<close>.\<close>

definition NewRedis :: "nat \<Rightarrow> scope option \<Rightarrow> options \<Rightarrow> goerr + challengeRedis" where
  "NewRedis owner sc op =
     (case sc of
        None \<Rightarrow> Inl ErrInvalid
      | Some sc \<Rightarrow>
          (let op = defaultOptions op in
           case validateOptions op of
             Some e \<Rightarrow> Inl e
           | None \<Rightarrow>
               Inr \<lparr>ch_scope = sc, ch_owner = owner,
                    ch_peppers = fold (\<lambda>p. fmupd (pep_version p) (pep_secret p)) (Peppers op) fmempty,
                    ch_currentPepper = pep_version (Peppers op ! 0), ch_options = op\<rparr>))"

text \<open>\<open>int64(d / time.Millisecond)\<close>\<close>

definition millis :: "int \<Rightarrow> int" where
  "millis d = (if d < 0 then - (- d div ms) else d div ms)"

section \<open>Codes, identifiers and fingerprints\<close>

text \<open>
  \<open>crypto/rand.Int\<close> below one million: three bytes of which the leading four bits are cleared, drawn again
  while the number is too large.
\<close>

fun rand_Int :: "string \<Rightarrow> (nat \<times> string) option" where
  "rand_Int (a # b # c # rest) =
     (let n = ((of_char a mod 16) * 256 + of_char b) * 256 + of_char c in
      if n < 1000000 then Some (n, rest) else rand_Int rest)"
| "rand_Int _ = None"

definition randomCode :: "string \<Rightarrow> (string \<times> string) option" where
  "randomCode reader = map_option (map_prod sprintf_06d id) (rand_Int reader)"

definition randomID :: "string \<Rightarrow> (string \<times> string) option" where
  "randomID reader =
     (if length reader < 24 then None else Some (base64_EncodeToString (take 24 reader), drop 24 reader))"

definition validCode :: "string \<Rightarrow> bool" where
  "validCode code \<longleftrightarrow> length code = 6 \<and> list_all is_digit code"

definition fingerprint_input :: "string \<Rightarrow> string \<Rightarrow> string \<Rightarrow> string" where
  "fingerprint_input domain first second = domain @ [CHR 0x00] @ first @ [CHR 0x00] @ second"

definition fingerprint :: "crypto \<Rightarrow> string \<Rightarrow> string \<Rightarrow> string \<Rightarrow> string \<Rightarrow> string" where
  "fingerprint K secret domain first second =
     hex_EncodeToString (hmac_sha256 K secret (fingerprint_input domain first second))"

definition digest_input :: "string \<Rightarrow> string \<Rightarrow> string \<Rightarrow> string" where
  "digest_input fp issueID code =
     ''mss/challenge-verifier/v1'' @ [CHR 0x00] @ fp @ [CHR 0x00] @ issueID @ [CHR 0x00] @ code"

definition digest :: "crypto \<Rightarrow> string \<Rightarrow> string \<Rightarrow> string \<Rightarrow> string \<Rightarrow> string" where
  "digest K pepper fp issueID code = hmac_sha256 K pepper (digest_input fp issueID code)"

definition normalizeSubject :: "string \<Rightarrow> string \<Rightarrow> goerr + string \<times> string" where
  "normalizeSubject subject purpose =
     (let subject = strings_TrimSpace subject;
          normalizedPurpose = strings_ToLower (strings_TrimSpace purpose) in
      if subject = [] \<or> length subject > 4096 \<or> \<not> purposePattern normalizedPurpose then Inl ErrInvalid
      else Inr (subject, normalizedPurpose))"

definition subjectCapabilities :: "crypto \<Rightarrow> string \<Rightarrow> goerr + atomicGroup \<times> bridgeKey \<times> bridgeKey \<times> bridgeKey" where
  "subjectCapabilities K fp =
     (case NewAtomicGroup K ''challenge-subject'' fp of
        Inl e \<Rightarrow> Inl e
      | Inr g \<Rightarrow>
          (case group_Key g ''state'' of
             Inl e \<Rightarrow> Inl e
           | Inr stateKey \<Rightarrow>
               (case group_Key g ''quota'' of
                  Inl e \<Rightarrow> Inl e
                | Inr quotaKey \<Rightarrow>
                    (case group_Key g ''ops'' of
                       Inl e \<Rightarrow> Inl e
                     | Inr opsKey \<Rightarrow> Inr (g, stateKey, quotaKey, opsKey)))))"

definition boolInt :: "bool \<Rightarrow> int" where
  "boolInt b = (if b then 1 else 0)"

section \<open>Talking to the store\<close>

definition storeError :: "'s bridge_env \<Rightarrow> 's cworld \<Rightarrow> goerr" where
  "storeError B w =
     (case be_now B w of
        Some e \<Rightarrow> Joined [ErrUnavailable, Sentinel e]
      | None \<Rightarrow> ErrUnavailable)"

definition run_text :: "'s bridge_env \<Rightarrow> scope \<Rightarrow> atomicGroup \<Rightarrow> scriptID \<Rightarrow> bridgeKey list \<Rightarrow> arg list
    \<Rightarrow> lifecycleState \<Rightarrow> 's cworld \<Rightarrow> lifecycleState \<times> 's cworld \<times> (goerr + string)" where
  "run_text B sc g script keys args s w =
     (let (s1, w1, r) = bridge_Use B sc g script keys args s w in
      case r of
        Inl e \<Rightarrow> (s1, w1, Inl (storeError B w1))
      | Inr v \<Rightarrow> (s1, w1, case Reply_Text v of Inl e \<Rightarrow> Inl (storeError B w1) | Inr t \<Rightarrow> Inr t))"

section \<open>Issuing\<close>

record reservation =
  rv_owner :: nat
  rv_code :: string
  rv_version :: string
  rv_group :: atomicGroup
  rv_state :: bridgeKey
  rv_quota :: bridgeKey
  rv_ops :: bridgeKey

datatype beginOutcome = BeginReserved reservation | BeginPending | BeginCooldown | BeginQuota

definition limitIssue :: "crypto \<Rightarrow> 's bridge_env \<Rightarrow> challengeRedis \<Rightarrow> string \<Rightarrow> lifecycleState \<Rightarrow> 's cworld
    \<Rightarrow> lifecycleState \<times> 's cworld \<times> goerr option" where
  "limitIssue K B c caller s w =
     (let op = ch_options c;
          callerFingerprint = fingerprint K (SubjectKey op) ''mss/challenge-caller/v1'' caller [] in
      case NewAtomicGroup K ''challenge-rate'' ''v1'' of
        Inl _ \<Rightarrow> (s, w, Some ErrUnavailable)
      | Inr g \<Rightarrow>
          (case (group_Key g (''caller-'' @ callerFingerprint), group_Key g ''global'') of
             (Inr callerKey, Inr globalKey) \<Rightarrow>
               (case randomID (entropy w) of
                  None \<Rightarrow> (s, w\<lparr>entropy := []\<rparr>, Some ErrUnavailable)
                | Some (operationID, rest) \<Rightarrow>
                    (let (s1, w1, r) =
                       run_text B (ch_scope c) g scriptChallengeRate [callerKey, globalKey]
                         [AStr operationID, AInt (millis (CallerWindow op)), AInt (CallerLimit op),
                          AInt (millis (GlobalWindow op)), AInt (GlobalLimit op), AInt (millis stateExpiryGrace)]
                         s (w\<lparr>entropy := rest\<rparr>) in
                     (s1, w1,
                      case r of
                        Inl e \<Rightarrow> Some e
                      | Inr result \<Rightarrow>
                          if result = ''OK'' then None
                          else if result = ''CALLER'' \<or> result = ''GLOBAL'' then Some errQuota
                          else Some ErrUnavailable)))
           | _ \<Rightarrow> (s, w, Some ErrUnavailable)))"

text \<open>The part of \<open>BeginIssue\<close> behind the rate limits.\<close>

definition reserveIssue :: "crypto \<Rightarrow> 's bridge_env \<Rightarrow> challengeRedis \<Rightarrow> string \<Rightarrow> string \<Rightarrow> lifecycleState \<Rightarrow> 's cworld
    \<Rightarrow> lifecycleState \<times> 's cworld \<times> (goerr + beginOutcome)" where
  "reserveIssue K B c subject purpose s w =
     (let op = ch_options c;
          fp = fingerprint K (SubjectKey op) ''mss/challenge-key/v1'' purpose subject in
      case subjectCapabilities K fp of
        Inl _ \<Rightarrow> (s, w, Inl ErrUnavailable)
      | Inr (g, stateKey, quotaKey, opsKey) \<Rightarrow>
          (case randomCode (entropy w) of
             None \<Rightarrow> (s, w\<lparr>entropy := []\<rparr>, Inl ErrUnavailable)
           | Some (code, rest) \<Rightarrow>
               (case randomID rest of
                  None \<Rightarrow> (s, w\<lparr>entropy := []\<rparr>, Inl ErrUnavailable)
                | Some (version, rest') \<Rightarrow>
                    (let pepper = (case fmlookup (ch_peppers c) (ch_currentPepper c) of Some p \<Rightarrow> p | None \<Rightarrow> []);
                         verifier = digest K pepper fp version code;
                         (s1, w1, r) =
                           run_text B (ch_scope c) g scriptChallengeBegin [stateKey, quotaKey]
                             [AStr version, AInt (MaxIssues op), AStr (hex_EncodeToString verifier),
                              AStr (ch_currentPepper c), AInt (millis (PendingTTL op)), AInt (millis (CodeTTL op)),
                              AInt (millis (Cooldown op)), AInt (millis (QuotaWindow op)), AInt (millis stateExpiryGrace)]
                             s (w\<lparr>entropy := rest'\<rparr>) in
                     (s1, w1,
                      case r of
                        Inl e \<Rightarrow> Inl e
                      | Inr result \<Rightarrow>
                          if result = ''OK'' then
                            Inr (BeginReserved \<lparr>rv_owner = ch_owner c, rv_code = code, rv_version = version, rv_group = g,
                                                rv_state = stateKey, rv_quota = quotaKey, rv_ops = opsKey\<rparr>)
                          else if result = ''PENDING'' then Inr BeginPending
                          else if result = ''COOLDOWN'' then Inr BeginCooldown
                          else if result = ''QUOTA'' then Inr BeginQuota
                          else Inl ErrUnavailable)))))"

definition BeginIssue :: "crypto \<Rightarrow> 's bridge_env \<Rightarrow> challengeRedis option \<Rightarrow> bool \<Rightarrow> string \<Rightarrow> string \<Rightarrow> string
    \<Rightarrow> lifecycleState \<Rightarrow> 's cworld \<Rightarrow> lifecycleState \<times> 's cworld \<times> (goerr + beginOutcome)" where
  "BeginIssue K B service ctx caller subject purpose s w =
     (case service of
        None \<Rightarrow> (s, w, Inl ErrInvalid)
      | Some c \<Rightarrow>
          if \<not> ctx then (s, w, Inl ErrInvalid)
          else
            (let caller = strings_TrimSpace caller in
             if caller = [] \<or> length caller > 512 then (s, w, Inl ErrInvalid)
             else
               (case normalizeSubject subject purpose of
                  Inl e \<Rightarrow> (s, w, Inl e)
                | Inr (subject, purpose) \<Rightarrow>
                    (case limitIssue K B c caller s w of
                       (s1, w1, Some e) \<Rightarrow>
                         (s1, w1, if e = errQuota then Inr BeginQuota else Inl e)
                     | (s1, w1, None) \<Rightarrow> reserveIssue K B c subject purpose s1 w1))))"

definition validReservation :: "challengeRedis option \<Rightarrow> reservation option \<Rightarrow> bool" where
  "validReservation service r \<longleftrightarrow>
     (case (service, r) of
        (Some c, Some rv) \<Rightarrow> rv_owner rv = ch_owner c \<and> rv_version rv \<noteq> [] \<and> rv_code rv \<noteq> []
      | _ \<Rightarrow> False)"

definition Commit :: "'s bridge_env \<Rightarrow> challengeRedis option \<Rightarrow> bool \<Rightarrow> reservation option \<Rightarrow> lifecycleState \<Rightarrow> 's cworld
    \<Rightarrow> lifecycleState \<times> 's cworld \<times> goerr option" where
  "Commit B service ctx r s w =
     (case (service, r) of
        (Some c, Some rv) \<Rightarrow>
          if \<not> validReservation service r \<or> \<not> ctx then (s, w, Some ErrInvalid)
          else
            (let (s1, w1, res) =
               run_text B (ch_scope c) (rv_group rv) scriptChallengeCommit [rv_state rv, rv_ops rv]
                 [AStr (rv_version rv), AInt (millis stateExpiryGrace)] s w in
             (s1, w1,
              case res of
                Inl e \<Rightarrow> Some e
              | Inr result \<Rightarrow>
                  if result = ''OK'' then None
                  else if result = ''EXPIRED'' \<or> result = ''STALE'' then Some ErrStale
                  else Some ErrUnavailable))
      | _ \<Rightarrow> (s, w, Some ErrInvalid))"

definition Abort :: "'s bridge_env \<Rightarrow> challengeRedis option \<Rightarrow> bool \<Rightarrow> reservation option \<Rightarrow> lifecycleState \<Rightarrow> 's cworld
    \<Rightarrow> lifecycleState \<times> 's cworld \<times> goerr option" where
  "Abort B service ctx r s w =
     (case (service, r) of
        (Some c, Some rv) \<Rightarrow>
          if \<not> validReservation service r \<or> \<not> ctx then (s, w, Some ErrInvalid)
          else
            (let (s1, w1, res) =
               run_text B (ch_scope c) (rv_group rv) scriptChallengeAbort [rv_state rv] [AStr (rv_version rv)] s w in
             (s1, w1,
              case res of
                Inl e \<Rightarrow> Some e
              | Inr result \<Rightarrow>
                  if result = ''OK'' then None
                  else if result = ''STALE'' then Some ErrStale
                  else Some ErrUnavailable))
      | _ \<Rightarrow> (s, w, Some ErrInvalid))"

section \<open>Verifying\<close>

datatype verifyOutcome = VerifyRejected | VerifyVerified

text \<open>The two methods of \<open>redisVerifyExecutor\<close>.\<close>

definition verifier_Read :: "'s bridge_env \<Rightarrow> challengeRedis \<Rightarrow> atomicGroup \<Rightarrow> bridgeKey \<Rightarrow> lifecycleState \<Rightarrow> 's cworld
    \<Rightarrow> lifecycleState \<times> 's cworld \<times> (goerr + string list)" where
  "verifier_Read B c g stateKey s w =
     (let (s1, w1, r) = bridge_Use B (ch_scope c) g scriptChallengeReadVerifier [stateKey] [] s w in
      case r of
        Inl _ \<Rightarrow> (s1, w1, Inl (storeError B w1))
      | Inr v \<Rightarrow> (s1, w1, case Reply_Strings v of Inl _ \<Rightarrow> Inl (storeError B w1) | Inr ts \<Rightarrow> Inr ts))"

definition verifier_Complete :: "'s bridge_env \<Rightarrow> challengeRedis \<Rightarrow> atomicGroup \<Rightarrow> bridgeKey \<Rightarrow> bridgeKey \<Rightarrow> string \<Rightarrow> string
    \<Rightarrow> bool \<Rightarrow> lifecycleState \<Rightarrow> 's cworld \<Rightarrow> lifecycleState \<times> 's cworld \<times> (goerr + string)" where
  "verifier_Complete B c g stateKey opsKey expectedID expectedDigest matches s w =
     (case randomID (entropy w) of
        None \<Rightarrow> (s, w\<lparr>entropy := []\<rparr>, Inl ErrUnavailable)
      | Some (operationID, rest) \<Rightarrow>
          run_text B (ch_scope c) g scriptChallengeCompleteVerify [stateKey, opsKey]
            [AStr expectedID, AStr expectedDigest, AStr operationID, AInt (MaxAttempts (ch_options c)),
             AInt (boolInt matches), AInt (millis (IdempotencyTTL (ch_options c)))]
            s (w\<lparr>entropy := rest\<rparr>))"

definition completeDummyVerify :: "'s bridge_env \<Rightarrow> challengeRedis \<Rightarrow> atomicGroup \<Rightarrow> bridgeKey \<Rightarrow> bridgeKey
    \<Rightarrow> lifecycleState \<Rightarrow> 's cworld \<Rightarrow> lifecycleState \<times> 's cworld \<times> goerr option" where
  "completeDummyVerify B c g stateKey opsKey s w =
     (let (s1, w1, r) =
        verifier_Complete B c g stateKey opsKey ''!'' (hex_EncodeToString (replicate 32 (CHR 0x00))) False s w in
      (s1, w1, case r of Inl e \<Rightarrow> Some e | Inr result \<Rightarrow> if result \<noteq> ''STALE'' then Some ErrUnavailable else None))"

definition Verify :: "crypto \<Rightarrow> 's bridge_env \<Rightarrow> challengeRedis option \<Rightarrow> bool \<Rightarrow> string \<Rightarrow> string \<Rightarrow> string
    \<Rightarrow> lifecycleState \<Rightarrow> 's cworld \<Rightarrow> lifecycleState \<times> 's cworld \<times> verifyOutcome \<times> goerr option" where
  "Verify K B service ctx subject purpose code s w =
     (case service of
        None \<Rightarrow> (s, w, VerifyRejected, Some ErrUnavailable)
      | Some c \<Rightarrow>
          if \<not> ctx then (s, w, VerifyRejected, Some ErrUnavailable)
          else
            (case normalizeSubject subject purpose of
               Inl _ \<Rightarrow> (s, w, VerifyRejected, None)
             | Inr (subject, purpose) \<Rightarrow>
                 if \<not> validCode code then (s, w, VerifyRejected, None)
                 else
                   (let fp = fingerprint K (SubjectKey (ch_options c)) ''mss/challenge-key/v1'' purpose subject in
                    case subjectCapabilities K fp of
                      Inl _ \<Rightarrow> (s, w, VerifyRejected, Some ErrUnavailable)
                    | Inr (g, stateKey, _, opsKey) \<Rightarrow>
                        (case verifier_Read B c g stateKey s w of
                           (s1, w1, Inl e) \<Rightarrow> (s1, w1, VerifyRejected, Some e)
                         | (s1, w1, Inr [activeID, digestHex, pepperVersion]) \<Rightarrow>
                             if activeID = [] then
                               (let (s2, w2, e) = completeDummyVerify B c g stateKey opsKey s1 w1
                                in (s2, w2, VerifyRejected, e))
                             else
                               (case (hex_DecodeString digestHex, fmlookup (ch_peppers c) pepperVersion) of
                                  (Some storedDigest, Some pepper) \<Rightarrow>
                                    if length storedDigest \<noteq> 32 then
                                      (let (s2, w2, e) = completeDummyVerify B c g stateKey opsKey s1 w1
                                       in (s2, w2, VerifyRejected, case e of Some x \<Rightarrow> Some x | None \<Rightarrow> Some ErrUnavailable))
                                    else
                                      (let matches = (storedDigest = digest K pepper fp activeID code);
                                           (s2, w2, r) =
                                             verifier_Complete B c g stateKey opsKey activeID digestHex matches s1 w1 in
                                       case r of
                                         Inl e \<Rightarrow> (s2, w2, VerifyRejected, Some e)
                                       | Inr result \<Rightarrow>
                                           if result = ''SUCCESS'' then (s2, w2, VerifyVerified, None)
                                           else if result \<in> {''INVALID'', ''LOCKED'', ''EXPIRED'', ''MISSING'', ''STALE''} then
                                             (s2, w2, VerifyRejected, None)
                                           else (s2, w2, VerifyRejected, Some ErrUnavailable))
                                | _ \<Rightarrow>
                                    (let (s2, w2, e) = completeDummyVerify B c g stateKey opsKey s1 w1
                                     in (s2, w2, VerifyRejected, case e of Some x \<Rightarrow> Some x | None \<Rightarrow> Some ErrUnavailable)))
                         | (s1, w1, Inr _) \<Rightarrow> (s1, w1, VerifyRejected, Some ErrUnavailable)))))"

definition Challenge_Ready :: "'s bridge_env \<Rightarrow> renv \<Rightarrow> challengeRedis option \<Rightarrow> rctx \<Rightarrow> 's cworld \<Rightarrow> lifecycleState
    \<Rightarrow> lifecycleState option \<times> goerr option" where
  "Challenge_Ready B E service ctx w s =
     (case service of
        None \<Rightarrow> (Some s, Some ErrUnavailable)
      | Some c \<Rightarrow>
          if ctx = RNil then (Some s, Some ErrUnavailable)
          else
            (case Resource_Ready E ctx (Some s) of
               (s1, Some _) \<Rightarrow> (s1, Some (storeError B w))
             | (s1, None) \<Rightarrow> (s1, None)))"

end
