(* ===== verification/Bridge_Facts.thy ===== *)
theory Bridge_Facts
  imports Challenge_Service
begin

text \<open>
  What one request over the bridge does to the world, layer by layer, and the isolation of its keys: at
  most one script runs, on keys that lie in one hash slot and never meet the keys of ordinary leases.
\<close>

section \<open>Isolation of atomic keys\<close>

lemma base64_no_brace: "CHR ''}'' \<notin> set (base64_EncodeToString s) \<and> CHR ''{'' \<notin> set (base64_EncodeToString s)"
  using set_base64 [of s] by (auto simp: base64_alphabet_def)

lemma bridge_name_no_brace: "bridge_validName s \<Longrightarrow> CHR ''{'' \<notin> set s \<and> CHR ''}'' \<notin> set s"
  by (auto simp: bridge_validName_def list_all_iff name_char_def char_in_code)

definition group_ok :: "atomicGroup \<Rightarrow> bool" where
  "group_ok g \<longleftrightarrow> group_valid g \<and> CHR ''}'' \<notin> set (group_tag g) \<and> CHR ''{'' \<notin> set (group_tag g) \<and> group_tag g \<noteq> []"

lemma NewAtomicGroup_ok:
  assumes "crypto_laws K" and "NewAtomicGroup K domain ident = Inr g"
  shows "group_ok g"
proof -
  let ?h = "sha256 K (''mss/runtime/redis-atomic-group/v1'' @ [CHR 0x00] @ domain @ [CHR 0x00] @ ident)"
  have "length ?h = 32" using assms(1) by (simp add: crypto_laws_def)
  then have "length (base64_EncodeToString ?h) = 43" by (simp add: length_base64)
  then have "base64_EncodeToString ?h \<noteq> []" by auto
  then show ?thesis using assms(2) base64_no_brace
    by (auto simp: NewAtomicGroup_def group_ok_def split: if_splits)
qed

lemma group_Key_ok: "group_Key g logical = Inr k \<Longrightarrow> k = \<lparr>bkey_tag = group_tag g, bkey_logical = logical, bkey_valid = True\<rparr>
    \<and> bridge_validName logical"
  by (auto simp: group_Key_def split: if_splits)

text \<open>The part of a key Redis Cluster hashes: between the first brace and the next closing one.\<close>

fun hash_tag :: "string \<Rightarrow> string option" where
  "hash_tag [] = None"
| "hash_tag (c # cs) = (if c = CHR ''{'' then Some (takeWhile (\<lambda>d. d \<noteq> CHR ''}'') cs) else hash_tag cs)"

lemma hash_tag_prefix: "CHR ''{'' \<notin> set p \<Longrightarrow> hash_tag (p @ CHR ''{'' # t) = Some (takeWhile (\<lambda>d. d \<noteq> CHR ''}'') t)"
  by (induction p) auto

lemma takeWhile_tag: "CHR ''}'' \<notin> set t \<Longrightarrow> takeWhile (\<lambda>d. d \<noteq> CHR ''}'') (t @ CHR ''}'' # r) = t"
  by (induction t) auto

definition atomic_key :: "string \<Rightarrow> string \<Rightarrow> string \<Rightarrow> string" where
  "atomic_key prefix tag logical = prefix @ '':{'' @ tag @ ''}:'' @ logical"

lemma materialize_map:
  "materialize prefix tag ks = Inr ps \<Longrightarrow>
   ps = map (\<lambda>k. atomic_key prefix tag (bkey_logical k)) ks \<and> (\<forall>k \<in> set ks. bkey_tag k = tag \<and> bkey_valid k)"
proof (induction ks arbitrary: ps)
  case (Cons k ks)
  then obtain qs where q: "materialize prefix tag ks = Inr qs" "bkey_valid k" "bkey_tag k = tag"
    "ps = atomic_key prefix tag (bkey_logical k) # qs"
    by (auto simp: atomic_key_def split: if_splits sum.splits)
  from Cons.IH [OF q(1)] q(2-4) show ?case by simp
qed simp

lemma atomic_key_inject:
  assumes "atomic_key p t l = atomic_key p t' l'" and "CHR ''}'' \<notin> set t" and "CHR ''}'' \<notin> set t'"
  shows "t = t' \<and> l = l'"
proof -
  from assms(1) have "t @ CHR ''}'' # (CHR '':'' # l) = t' @ CHR ''}'' # (CHR '':'' # l')" by (simp add: atomic_key_def)
  from sep_inject [OF this] assms(2,3) show ?thesis by simp
qed

text \<open>
  Atomic keys stay apart and together: the physical keys of one request all have the group's tag as
  their hash tag, so a script never crosses cluster slots; different logical names give different keys;
  and none of them is the physical value of a key an ordinary lease of any scope can qualify.
\<close>

theorem atomic_keys_one_slot_and_isolated:
  assumes "crypto_laws K" and "NewAtomicGroup K domain ident = Inr g" and "made_by R sc" and "made_by R' sc'"
    and "materialize (scope_prefix sc) (group_tag g) ks = Inr ps"
    and "QualifyKey logical (Some (new_lease sc')) = Inr q"
  shows "(\<forall>p \<in> set ps. hash_tag p = Some (group_tag g) \<and> p \<noteq> key_value q)
     \<and> (\<forall>i < length ks. \<forall>j < length ks. ps ! i = ps ! j \<longrightarrow> bkey_logical (ks ! i) = bkey_logical (ks ! j))"
proof -
  have g: "group_ok g" by (rule NewAtomicGroup_ok [OF assms(1,2)])
  have ps: "ps = map (\<lambda>k. atomic_key (scope_prefix sc) (group_tag g) (bkey_logical k)) ks"
    using materialize_map [OF assms(5)] by blast
  have pre: "CHR ''{'' \<notin> set (scope_prefix sc)" "CHR ''{'' \<notin> set (scope_prefix sc')"
    using assms(3,4) validScopeName_no_brace by (auto simp: made_by_def)
  have "hash_tag (atomic_key (scope_prefix sc) (group_tag g) l) = Some (group_tag g)" for l
    using hash_tag_prefix [of "scope_prefix sc @ '':''" "group_tag g @ CHR ''}'' # (CHR '':'' # l)"] pre(1) g
    by (simp add: atomic_key_def group_ok_def takeWhile_tag)
  moreover have "CHR ''{'' \<notin> set (key_value q)"
    using assms(6) pre(2) validLogicalKey_no_brace
    by (auto simp: QualifyKey_def new_lease_def split: if_splits)
  moreover have "CHR ''{'' \<in> set (atomic_key (scope_prefix sc) (group_tag g) l)" for l
    by (simp add: atomic_key_def)
  ultimately have "hash_tag (atomic_key (scope_prefix sc) (group_tag g) l) = Some (group_tag g)
      \<and> atomic_key (scope_prefix sc) (group_tag g) l \<noteq> key_value q" for l
    by metis
  moreover have "bkey_logical (ks ! i) = bkey_logical (ks ! j)"
    if "i < length ks" "j < length ks" "ps ! i = ps ! j" for i j
  proof -
    from that have "atomic_key (scope_prefix sc) (group_tag g) (bkey_logical (ks ! i))
        = atomic_key (scope_prefix sc) (group_tag g) (bkey_logical (ks ! j))" by (simp add: ps)
    from atomic_key_inject [OF this] g show ?thesis by (simp add: group_ok_def)
  qed
  ultimately show ?thesis unfolding ps by auto
qed

lemma atomic_keys_one_slot_and_isolated_witness:
  "\<exists>K g ps q. NewAtomicGroup K ''challenge-subject'' ''x'' = Inr g
     \<and> materialize (''redis:'' @ ''bus'') (group_tag g)
         [\<lparr>bkey_tag = group_tag g, bkey_logical = ''state'', bkey_valid = True\<rparr>,
          \<lparr>bkey_tag = group_tag g, bkey_logical = ''ops'', bkey_valid = True\<rparr>] = Inr ps
     \<and> QualifyKey ''latest'' (Some (new_lease (demo_scope ''bus'' 0))) = Inr q
     \<and> key_value q \<notin> set ps \<and> ps ! 0 \<noteq> ps ! 1"
proof -
  let ?K = "\<lparr>sha256 = (\<lambda>_. replicate 32 (CHR ''x'')), hmac_sha256 = (\<lambda>_ _. replicate 32 (CHR ''x''))\<rparr>"
  have laws: "crypto_laws ?K" by (simp add: crypto_laws_def)
  have "bridge_validName ''challenge-subject''" by code_simp
  then obtain g where g: "NewAtomicGroup ?K ''challenge-subject'' ''x'' = Inr g" by (simp add: NewAtomicGroup_def)
  let ?ks = "[\<lparr>bkey_tag = group_tag g, bkey_logical = ''state'', bkey_valid = True\<rparr>,
          \<lparr>bkey_tag = group_tag g, bkey_logical = ''ops'', bkey_valid = True\<rparr>]"
  obtain ps where ps: "materialize (scope_prefix (demo_scope ''bus'' 0)) (group_tag g) ?ks = Inr ps" by simp
  obtain q where q: "QualifyKey ''latest'' (Some (new_lease (demo_scope ''bus'' 0))) = Inr q" using demo_key by blast
  from atomic_keys_one_slot_and_isolated [OF laws g demo_made_by demo_made_by ps q]
  have v: "\<forall>p \<in> set ps. p \<noteq> key_value q"
    and d: "\<forall>i < length ?ks. \<forall>j < length ?ks. ps ! i = ps ! j \<longrightarrow> bkey_logical (?ks ! i) = bkey_logical (?ks ! j)" by blast+
  have "ps ! 0 = ps ! 1 \<longrightarrow> ''state'' = ''ops''" using spec [OF d, of 0] by (auto dest: spec [of _ 1])
  with v have "key_value q \<notin> set ps \<and> ps ! 0 \<noteq> ps ! 1" by auto
  with g q ps [unfolded demo_scope_def scope.select_convs] show ?thesis by blast
qed

section \<open>One request\<close>

text \<open>\<open>ran\<close>: the script was executed on \<open>ks\<close>, and \<open>v\<close> is its reply if one arrived.\<close>

definition touched :: "'s redis \<Rightarrow> scriptID \<Rightarrow> string list \<Rightarrow> arg list \<Rightarrow> 's cworld \<Rightarrow> 's cworld
    \<Rightarrow> reply_value option \<Rightarrow> bool" where
  "touched R i ks args w w' v \<longleftrightarrow>
     entropy w' = entropy w
   \<and> (db w' = db w \<or> db w' = fst (eval_script R i ks args (db w)))
   \<and> (v \<noteq> None \<longrightarrow> (db w', v) = eval_script R i ks args (db w))"

definition opt_reply :: "goerr + reply_value \<Rightarrow> reply_value option" where
  "opt_reply r = (case r of Inl _ \<Rightarrow> None | Inr v \<Rightarrow> Some v)"

lemma opt_reply_simps [simp]: "opt_reply (Inl e) = None" "opt_reply (Inr v) = Some v"
  by (simp_all add: opt_reply_def)

lemma touched_none: "touched R i ks args w w None"
  by (simp add: touched_def)

lemma EvalFixed_touched: "EvalFixed R i ks args w = (w', r) \<Longrightarrow> touched R i ks args w w' (opt_reply r)"
  by (cases "eval_script R i ks args (db w)")
    (auto simp: EvalFixed_def touched_def Let_def split: link.splits list.splits option.splits)

lemma Execute_touched:
  assumes "Execute prefix (EvalFixed R) r w = (w', res)"
  shows "\<exists>ks. touched R (req_script r) ks (req_args r) w w' (opt_reply res)
     \<and> (materialize prefix (group_tag (req_group r)) (req_keys r) = Inr ks \<or> w' = w \<and> opt_reply res = None)"
proof (cases "materialize prefix (group_tag (req_group r)) (req_keys r)")
  case (Inl e)
  with assms have "w' = w" "opt_reply res = None" by (auto simp: Execute_def split: if_splits)
  then show ?thesis by (simp add: touched_none)
next
  case (Inr ks)
  with assms have "w' = w \<and> opt_reply res = None \<or> EvalFixed R (req_script r) ks (req_args r) w = (w', res)"
    by (auto simp: Execute_def split: if_splits)
  then show ?thesis
  proof
    assume "w' = w \<and> opt_reply res = None"
    then show ?thesis by (simp add: touched_none)
  next
    assume "EvalFixed R (req_script r) ks (req_args r) w = (w', res)"
    from EvalFixed_touched [OF this] Inr show ?thesis by blast
  qed
qed

lemma touched_drop: "touched R i ks args w w' v \<Longrightarrow> touched R i ks args w w' None"
  by (simp add: touched_def)

lemma RedisBridgeRun_touched:
  assumes "RedisBridgeRun at cs (EvalFixed R) l ctx r w = (w', res)"
  shows "\<exists>ks. touched R (req_script r) ks (req_args r) w w' (opt_reply res)
     \<and> (materialize (lease_prefix l) (group_tag (req_group r)) (req_keys r) = Inr ks \<or> w' = w \<and> opt_reply res = None)"
proof -
  obtain w1 r1 where x: "Execute (lease_prefix l) (EvalFixed R) r w = (w1, r1)" by fastforce
  with assms have "(w' = w \<and> opt_reply res = None) \<or> (w' = w1 \<and> (res = r1 \<or> opt_reply res = None))"
    by (auto simp: RedisBridgeRun_def Let_def split: sum.splits if_splits option.splits)
  then show ?thesis
  proof
    assume "w' = w \<and> opt_reply res = None"
    then show ?thesis by (simp add: touched_none)
  next
    assume a: "w' = w1 \<and> (res = r1 \<or> opt_reply res = None)"
    from Execute_touched [OF x] obtain ks where
      ks: "touched R (req_script r) ks (req_args r) w w1 (opt_reply r1)"
      "materialize (lease_prefix l) (group_tag (req_group r)) (req_keys r) = Inr ks \<or> w1 = w \<and> opt_reply r1 = None"
      by blast
    have "touched R (req_script r) ks (req_args r) w w1 (opt_reply res)"
      using a ks(1) touched_drop [OF ks(1)] by auto
    with a ks(2) show ?thesis by auto
  qed
qed

lemma bridge_Run_touched:
  assumes "bridge_Run (RedisBridgeRun at cs (EvalFixed R) l ctx) g ctx i keys args w = (w', res)"
  shows "\<exists>ks. touched R i ks args w w' (opt_reply res)
     \<and> (materialize (lease_prefix l) (group_tag g) keys = Inr ks \<or> w' = w \<and> opt_reply res = None)"
proof -
  let ?r = "\<lparr>req_group = g, req_keys = keys, req_script = i, req_args = args\<rparr>"
  from assms have "(w' = w \<and> opt_reply res = None) \<or> RedisBridgeRun at cs (EvalFixed R) l ctx ?r w = (w', res)"
    by (auto simp: bridge_Run_def split: if_splits)
  then show ?thesis
  proof
    assume "RedisBridgeRun at cs (EvalFixed R) l ctx ?r w = (w', res)"
    from RedisBridgeRun_touched [OF this] show ?thesis by simp
  qed (simp add: touched_none)
qed

lemma touched_captured: "touched R i ks args w w' v \<Longrightarrow> touched R i ks args w (w'\<lparr>captured := c\<rparr>) v"
  by (simp add: touched_def)

lemma touched_captured_before: "touched R i ks args (w\<lparr>captured := c\<rparr>) w' v = touched R i ks args w w' v"
  by (simp add: touched_def)

lemma withContextError_Some [simp]: "withContextError c (Some e) = None \<longleftrightarrow> False"
  by (auto simp: withContextError_def split: option.splits)

lemma bridge_Use_touched:
  assumes "bridge_Use B sc g i keys args s w = (s', w', res)"
  shows "\<exists>ks. touched (be_redis B) i ks args w w' (opt_reply res)
     \<and> (materialize (scope_prefix sc) (group_tag g) keys = Inr ks
        \<or> db w' = db w \<and> entropy w' = entropy w \<and> opt_reply res = None)"
proof -
  let ?w = "w\<lparr>captured := None\<rparr>"
  let ?l = "new_lease sc"
  let ?ctx = "RCtx (be_now B w)"
  obtain l1 w1 r1 where cb: "script_callback B g i keys args ?l ?w = (l1, w1, r1)" by (metis prod_cases3)
  obtain w2 r2 where run: "bridge_Run (RedisBridgeRun (be_atomic B) (be_cause B) (EvalFixed (be_redis B)) ?l (RCtx (be_now B ?w)))
      g (RCtx (be_now B ?w)) i keys args ?w = (w2, r2)" by fastforce
  from bridge_Run_touched [OF run] obtain ks where
    t: "touched (be_redis B) i ks args w w2 (opt_reply r2)"
    and m: "materialize (scope_prefix sc) (group_tag g) keys = Inr ks \<or> w2 = ?w \<and> opt_reply r2 = None"
    by (auto simp: touched_captured_before new_lease_def)
  have w1: "w1 = (case r2 of Inl e \<Rightarrow> w2 | Inr v \<Rightarrow> w2\<lparr>captured := Some v\<rparr>)"
    "r1 = CallbackReturned (case r2 of Inl e \<Rightarrow> Some e | Inr v \<Rightarrow> None)" "l1 = ?l"
    using cb run by (auto simp: script_callback_def Let_def split: sum.splits)
  obtain s1 w3 k u where use: "Scope_Use (be_use B) ?ctx (Some sc) (Some (script_callback B g i keys args)) s ?w = (s1, w3, k, u)"
    by (metis prod_cases4)
  have "w3 = ?w \<and> (\<exists>e. u = UseReturned (Some e))
      \<or> w3 = w1 \<and> (u = UseReturned None \<longrightarrow> (\<exists>v. r2 = Inr v))"
  proof (cases "be_now B w = None \<and> (\<exists>s2. beginBorrow OperationUse s = Inr s2)")
    case False
    then have "w3 = ?w \<and> (\<exists>e. u = UseReturned (Some e))"
      using use by (cases "be_now B w"; cases "beginBorrow OperationUse s") (auto simp: Scope_Use_def)
    then show ?thesis by blast
  next
    case True
    then obtain s2 where b: "beginBorrow OperationUse s = Inr s2" "be_now B w = None" by blast
    have x: "expireCancelAndWait ?l = (?l\<lparr>lease_active := False\<rparr>, False)"
      by (simp add: expireCancelAndWait_def new_lease_def)
    from use b cb x w1 have w3: "w3 = w1" by (auto simp: Scope_Use_def Let_def)
    moreover have "\<exists>v. r2 = Inr v" if "u = UseReturned None"
    proof (rule ccontr)
      assume "\<nexists>v. r2 = Inr v"
      then obtain e where "r2 = Inl e" by (cases r2) auto
      with w1 have "r1 = CallbackReturned (Some e)" by simp
      then show False using use b cb x w1(3) that by (auto simp: Scope_Use_def Let_def split: option.splits)
    qed
    ultimately show ?thesis by blast
  qed
  then show ?thesis
  proof
    assume a: "w3 = ?w \<and> (\<exists>e. u = UseReturned (Some e))"
    have "opt_reply res = None \<and> db w' = db w \<and> entropy w' = entropy w"
      using assms use a by (auto simp: bridge_Use_def split: if_splits)
    then show ?thesis by (auto simp: touched_def)
  next
    assume a: "w3 = w1 \<and> (u = UseReturned None \<longrightarrow> (\<exists>v. r2 = Inr v))"
    show ?thesis
    proof (cases "group_valid g \<and> u = UseReturned None")
      case True
      with a obtain v where v: "r2 = Inr v" by blast
      with assms use a True w1 have "res = Inr v" "w' = w2\<lparr>captured := Some v\<rparr>"
        by (auto simp: bridge_Use_def)
      with t m v show ?thesis by (auto intro: touched_captured)
    next
      case False
      have "opt_reply res = None \<and> (w' = w \<or> w' = w1)"
        using assms use a False by (auto simp: bridge_Use_def split: if_splits use_result.splits option.splits)
      moreover have "touched (be_redis B) i ks args w w1 None"
        using touched_drop [OF t] w1(1) by (cases r2) (auto intro: touched_captured)
      moreover have "db w1 = db w \<and> entropy w1 = entropy w" if "w2 = ?w \<and> opt_reply r2 = None"
        using that w1(1) by (cases r2) auto
      ultimately show ?thesis using m touched_none by metis
    qed
  qed
qed

end
