(* ===== verification/Challenge_Flow.thy ===== *)
theory Challenge_Flow
  imports Bridge_Facts
begin

text \<open>
  The challenge service over a Redis that answers: each method runs its scripts on the keys of the subject
  and reports what the abstract challenge says. The last section composes the methods: a code that was
  issued and delivered verifies, once.
\<close>

section \<open>A bridge that answers\<close>

definition served :: "'s bridge_env \<Rightarrow> bool" where
  "served B \<longleftrightarrow> be_atomic B \<and> during_use (be_use B) = id
     \<and> (\<forall>w. be_cause B w = None \<and> be_now B w = None \<and> use_cause (be_use B) w = None \<and> use_ctx_err (be_use B) w = None)"

definition lending :: "lifecycleState \<Rightarrow> bool" where
  "lending s \<longleftrightarrow> r_started s \<and> r_client s \<and> \<not> r_closing s \<and> \<not> r_closed s"

lemma lending_borrow: "lending s \<Longrightarrow> \<exists>s1. beginBorrow op s = Inr s1 \<and> lending (endBorrow s1)"
  by (auto simp: lending_def beginBorrow_def endBorrow_def Let_def)

definition in_group :: "atomicGroup \<Rightarrow> bridgeKey list \<Rightarrow> bool" where
  "in_group g ks \<longleftrightarrow> ks \<noteq> [] \<and> list_all (\<lambda>k. bkey_valid k \<and> bkey_tag k = group_tag g) ks"

lemma materialize_in_group:
  "list_all (\<lambda>k. bkey_valid k \<and> bkey_tag k = t) ks \<Longrightarrow>
   materialize p t ks = Inr (map (\<lambda>k. atomic_key p t (bkey_logical k)) ks)"
  by (induction ks) (simp_all add: atomic_key_def)

lemma made_by_prefix: "made_by R sc \<Longrightarrow> scope_prefix sc \<noteq> [] \<and> scope_resource sc = res_name R"
  by (auto simp: made_by_def)

lemma bridge_Use_served:
  assumes "served B" and "lending s" and "links w = []" and "made_by R0 sc" and "group_valid g" and "script_valid i"
    and "in_group g keys"
    and "eval_script (be_redis B) i (map (\<lambda>k. atomic_key (scope_prefix sc) (group_tag g) (bkey_logical k)) keys) args (db w)
      = (d, Some v)"
  shows "\<exists>s' w'. bridge_Use B sc g i keys args s w = (s', w', Inr v) \<and> lending s' \<and> links w' = [] \<and> db w' = d
    \<and> entropy w' = entropy w"
proof -
  let ?w = "w\<lparr>captured := None\<rparr>"
  let ?w1 = "?w\<lparr>links := [], db := d\<rparr>"
  let ?l = "new_lease sc"
  obtain s1 where b: "beginBorrow OperationUse s = Inr s1" "lending (endBorrow s1)"
    using lending_borrow [OF assms(2)] by blast
  have sv: "be_atomic B" "be_cause B u = None" "be_now B u = None" "use_cause (be_use B) u = None"
    "use_ctx_err (be_use B) u = None" "during_use (be_use B) = id" for u
    using assms(1) by (simp_all add: served_def)
  have k: "keys \<noteq> []" "list_all (\<lambda>k. bkey_valid k \<and> bkey_tag k = group_tag g) keys"
    using assms(7) by (simp_all add: in_group_def)
  have ev: "EvalFixed (be_redis B) i (map (\<lambda>k. atomic_key (scope_prefix sc) (group_tag g) (bkey_logical k)) keys) args ?w
      = (?w1, Inr v)"
    using assms(3,8) by (simp add: EvalFixed_def)
  have ex: "Execute (lease_prefix ?l) (EvalFixed (be_redis B))
      \<lparr>req_group = g, req_keys = keys, req_script = i, req_args = args\<rparr> ?w = (?w1, Inr v)"
    using ev k made_by_prefix [OF assms(4)] assms(5,6)
    by (simp add: Execute_def new_lease_def materialize_in_group)
  have run: "RedisBridgeRun True (be_cause B) (EvalFixed (be_redis B)) ?l (RCtx None)
      \<lparr>req_group = g, req_keys = keys, req_script = i, req_args = args\<rparr> ?w = (?w1, Inr v)"
    using ex sv by (simp add: RedisBridgeRun_def beginCommand_def foreign_key_def new_lease_def withContextError_def)
  have cb: "script_callback B g i keys args ?l ?w = (?l, ?w1\<lparr>captured := Some v\<rparr>, CallbackReturned None)"
    using run sv k assms(5,6)
    by (simp add: script_callback_def bridge_Run_def list_ex_iff list_all_iff)
  show ?thesis
    using b cb sv assms(5)
    by (simp add: bridge_Use_def Scope_Use_def expireCancelAndWait_def new_lease_def withContextError_def)
qed

lemma run_text_served:
  assumes "served B" and "lending s" and "links w = []" and "made_by R0 sc" and "group_valid g" and "script_valid i"
    and "in_group g keys"
    and "eval_script (be_redis B) i (map (\<lambda>k. atomic_key (scope_prefix sc) (group_tag g) (bkey_logical k)) keys) args (db w)
      = (d, Some (RText t))"
  shows "\<exists>s' w'. run_text B sc g i keys args s w = (s', w', Inr t) \<and> lending s' \<and> links w' = [] \<and> db w' = d
    \<and> entropy w' = entropy w"
  using bridge_Use_served [OF assms] by (auto simp: run_text_def)

section \<open>The keys of a subject\<close>

lemma name_char_printable: "name_char c \<Longrightarrow> printable c"
  by (auto simp: name_char_def char_in_code byte_in_def)

lemma bridge_validName_chars:
  assumes "s \<noteq> []" "length s \<le> 96" "list_all name_char s"
  shows "bridge_validName s"
proof -
  have "\<forall>c \<in> set s. printable c" using assms(3) name_char_printable by (auto simp: list_all_iff)
  with assms show ?thesis by (simp add: bridge_validName_def TrimSpace_printable utf8_valid_printable)
qed

lemma fixed_names: "bridge_validName ''challenge-subject''" "bridge_validName ''challenge-rate''" "bridge_validName ''state''"
  "bridge_validName ''quota''" "bridge_validName ''ops''" "bridge_validName ''global''"
  by (rule bridge_validName_chars; simp add: name_char_def char_in_code)+

lemma hex_name_chars: "list_all name_char (hex_EncodeToString bs)"
  using set_hex by (fastforce simp: list_all_iff name_char_def)

lemma caller_name: "length (hex_EncodeToString bs) = 64 \<Longrightarrow> bridge_validName (''caller-'' @ hex_EncodeToString bs)"
  by (rule bridge_validName_chars) (use hex_name_chars in \<open>simp_all add: name_char_def char_in_code\<close>)

lemma fingerprint_length: "crypto_laws K \<Longrightarrow> length (fingerprint K k d a b) = 64"
  by (simp add: fingerprint_def length_hex crypto_laws_def)

definition subject_fp :: "crypto \<Rightarrow> challengeRedis \<Rightarrow> string \<Rightarrow> string \<Rightarrow> string" where
  "subject_fp K c subject purpose = fingerprint K (SubjectKey (ch_options c)) ''mss/challenge-key/v1'' purpose subject"

definition group_of :: "crypto \<Rightarrow> string \<Rightarrow> string \<Rightarrow> atomicGroup" where
  "group_of K domain ident =
     \<lparr>group_tag = base64_EncodeToString
        (sha256 K (''mss/runtime/redis-atomic-group/v1'' @ [CHR 0x00] @ domain @ [CHR 0x00] @ ident)),
      group_valid = True\<rparr>"

definition key_in :: "atomicGroup \<Rightarrow> string \<Rightarrow> bridgeKey" where
  "key_in g l = \<lparr>bkey_tag = group_tag g, bkey_logical = l, bkey_valid = True\<rparr>"

lemma group_of_valid [simp]: "group_valid (group_of K d i)"
  by (simp add: group_of_def)

lemma key_in_group [simp]: "in_group g [key_in g a]" "in_group g [key_in g a, key_in g b]" "bkey_logical (key_in g a) = a"
  by (simp_all add: in_group_def key_in_def)

lemma subjectCapabilities_total:
  assumes "crypto_laws K"
  shows "subjectCapabilities K (subject_fp K c subject purpose) =
    (let g = group_of K ''challenge-subject'' (subject_fp K c subject purpose)
     in Inr (g, key_in g ''state'', key_in g ''quota'', key_in g ''ops''))"
proof -
  have "length (subject_fp K c subject purpose) = 64" using assms by (simp add: subject_fp_def fingerprint_length)
  then have "subject_fp K c subject purpose \<noteq> []" "length (subject_fp K c subject purpose) \<le> 512" by auto
  then show ?thesis
    by (simp add: subjectCapabilities_def NewAtomicGroup_def group_Key_def fixed_names group_of_def key_in_def Let_def)
qed

text \<open>The physical keys of a subject.\<close>

definition subject_key :: "crypto \<Rightarrow> challengeRedis \<Rightarrow> string \<Rightarrow> string \<Rightarrow> string \<Rightarrow> string" where
  "subject_key K c subject purpose logical =
     atomic_key (scope_prefix (ch_scope c))
       (group_tag (group_of K ''challenge-subject'' (subject_fp K c subject purpose))) logical"

lemma subject_keys_distinct: "good_keys (subject_key K c s p ''state'') (subject_key K c s p ''quota'') (subject_key K c s p ''ops'')"
  by (simp add: good_keys_def subject_key_def atomic_key_def)

definition subject_repr :: "crypto \<Rightarrow> 's redis \<Rightarrow> challengeRedis \<Rightarrow> string \<Rightarrow> string \<Rightarrow> 's \<Rightarrow> challenge \<Rightarrow> bool" where
  "subject_repr K R c subject purpose d chal \<longleftrightarrow>
     repr R (subject_key K c subject purpose ''state'') (subject_key K c subject purpose ''quota'')
       (subject_key K c subject purpose ''ops'') d chal"

section \<open>What an accepted configuration guarantees\<close>

lemma check_peppers_ok:
  "check_peppers k vs ps = None \<Longrightarrow>
   distinct (map pep_version ps) \<and> set (map pep_version ps) \<inter> set vs = {} \<and>
   (\<forall>p \<in> set ps. purposePattern (pep_version p) \<and> plausibleSecret (pep_secret p) \<and> pep_secret p \<noteq> k)"
proof (induction ps arbitrary: vs)
  case (Cons p ps)
  from Cons.prems have p: "purposePattern (pep_version p)" "plausibleSecret (pep_secret p)" "pep_secret p \<noteq> k"
    "pep_version p \<notin> set vs" "check_peppers k (pep_version p # vs) ps = None"
    by (auto split: if_splits)
  from Cons.IH [OF p(5)] p(1-4) show ?case by simp
qed simp

lemma fold_peppers:
  "fmlookup (fold (\<lambda>p. fmupd (pep_version p) (pep_secret p)) ps m) v =
    (case map_of (rev (map (\<lambda>p. (pep_version p, pep_secret p)) ps)) v of Some x \<Rightarrow> Some x | None \<Rightarrow> fmlookup m v)"
proof (induction ps arbitrary: m)
  case (Cons p ps)
  then show ?case by (auto simp: map_add_def split: option.splits)
qed simp

lemma bad_duration_millis: "\<not> bad_duration d \<Longrightarrow> millis d > 0 \<and> d = millis d * ms"
  by (auto simp: bad_duration_def millis_def ms_def)

text \<open>
  A configuration \<open>NewRedis\<close> accepts meets every precondition of the scripts: all limits and all
  windows handed to Redis are positive whole milliseconds, a reservation expires before the code it
  reserves, the verifier secrets are plausible, pairwise different and never the subject key, and the
  current pepper is known.
\<close>

lemma NewRedis_facts:
  assumes "NewRedis owner sc op = Inr c"
  shows "MaxIssues (ch_options c) > 0 \<and> MaxAttempts (ch_options c) > 0 \<and> CallerLimit (ch_options c) > 0
     \<and> GlobalLimit (ch_options c) > 0
     \<and> (\<forall>d \<in> {CodeTTL (ch_options c), PendingTTL (ch_options c), Cooldown (ch_options c), QuotaWindow (ch_options c),
            IdempotencyTTL (ch_options c), CallerWindow (ch_options c), GlobalWindow (ch_options c)}.
          millis d > 0 \<and> d = millis d * ms)
     \<and> millis (PendingTTL (ch_options c)) < millis (CodeTTL (ch_options c))
     \<and> (\<exists>secret. fmlookup (ch_peppers c) (ch_currentPepper c) = Some secret)
     \<and> (\<forall>v secret. fmlookup (ch_peppers c) v = Some secret \<longrightarrow>
          plausibleSecret secret \<and> secret \<noteq> SubjectKey (ch_options c))
     \<and> (\<forall>v v' secret. fmlookup (ch_peppers c) v = Some secret \<and> fmlookup (ch_peppers c) v' = Some secret \<longrightarrow> v = v')"
proof -
  let ?op = "ch_options c"
  let ?assoc = "map (\<lambda>p. (pep_version p, pep_secret p)) (Peppers ?op)"
  have v: "validateOptions ?op = None"
    and c: "ch_peppers c = fold (\<lambda>p. fmupd (pep_version p) (pep_secret p)) (Peppers ?op) fmempty"
      "ch_currentPepper c = pep_version (Peppers ?op ! 0)"
    using assms by (auto simp: NewRedis_def Let_def split: option.splits)
  have p: "check_peppers (SubjectKey ?op) [] (Peppers ?op) = None" "Peppers ?op \<noteq> []" "length (Peppers ?op) \<le> 2"
    and two: "length (Peppers ?op) = 2 \<longrightarrow> pep_secret (Peppers ?op ! 0) \<noteq> pep_secret (Peppers ?op ! 1)"
    and dur: "\<forall>d \<in> {CodeTTL ?op, PendingTTL ?op, Cooldown ?op, QuotaWindow ?op, IdempotencyTTL ?op, CallerWindow ?op,
        GlobalWindow ?op}. \<not> bad_duration d"
    and lim: "PendingTTL ?op < CodeTTL ?op" "MaxIssues ?op > 0" "MaxAttempts ?op > 0" "CallerLimit ?op > 0" "GlobalLimit ?op > 0"
    using v by (auto simp: validateOptions_def split: if_splits option.splits)
  have d: "millis d > 0 \<and> d = millis d * ms"
    if "d \<in> {CodeTTL ?op, PendingTTL ?op, Cooldown ?op, QuotaWindow ?op, IdempotencyTTL ?op, CallerWindow ?op, GlobalWindow ?op}" for d
    using dur that by (intro bad_duration_millis) blast
  have "millis (PendingTTL ?op) * ms < millis (CodeTTL ?op) * ms"
    using lim(1) d [of "PendingTTL ?op"] d [of "CodeTTL ?op"] by simp
  then have less: "millis (PendingTTL ?op) < millis (CodeTTL ?op)" by (simp add: ms_def)
  have dist: "distinct (map fst ?assoc)" using check_peppers_ok [OF p(1)] by (simp add: comp_def)
  have look: "fmlookup (ch_peppers c) w = map_of ?assoc w" for w
    using map_of_inject_set [of "rev ?assoc" ?assoc] dist
    by (simp add: c fold_peppers rev_map [symmetric] split: option.splits)
  have entry: "\<exists>q \<in> set (Peppers ?op). pep_version q = w \<and> pep_secret q = x" if "fmlookup (ch_peppers c) w = Some x" for w x
    using that map_of_SomeD [of ?assoc w x] by (auto simp: look)
  have "(pep_version (Peppers ?op ! 0), pep_secret (Peppers ?op ! 0)) \<in> set ?assoc" using p(2) by (auto intro!: image_eqI)
  then have cur: "\<exists>secret. fmlookup (ch_peppers c) (ch_currentPepper c) = Some secret"
    using dist c(2) by (auto simp: look intro: map_of_is_SomeI)
  have sec: "plausibleSecret x \<and> x \<noteq> SubjectKey ?op" if "fmlookup (ch_peppers c) w = Some x" for w x
    using entry [OF that] check_peppers_ok [OF p(1)] by blast
  have uniq: "w = w'" if a: "fmlookup (ch_peppers c) w = Some x" "fmlookup (ch_peppers c) w' = Some x" for w w' x
  proof -
    obtain q q' where q: "q \<in> set (Peppers ?op)" "q' \<in> set (Peppers ?op)" "pep_version q = w" "pep_version q' = w'"
      "pep_secret q = x" "pep_secret q' = x" using entry [OF a(1)] entry [OF a(2)] by blast
    show ?thesis
    proof (cases "length (Peppers ?op) = 2")
      case True
      then obtain a b where "Peppers ?op = [a, b]" by (auto simp: length_Suc_conv numeral_2_eq_2)
      with two q show ?thesis by auto
    next
      case False
      with p(2,3) have "length (Peppers ?op) = 1" by (cases "Peppers ?op") (auto simp: le_Suc_eq)
      then obtain a where "Peppers ?op = [a]" by (auto simp: length_Suc_conv)
      with q show ?thesis by auto
    qed
  qed
  show ?thesis using lim less d cur sec uniq by blast
qed

section \<open>Each method runs its script\<close>

lemma challengeRate_repr:
  assumes "redis_laws R" and "repr R state quota ops d chal" and "state \<notin> {a, b}" "quota \<notin> {a, b}" "ops \<notin> {a, b}"
    and "cw + g > 0" and "gw + g > 0"
    and "challengeRate R a b i cw cl gw gl g d = (d', r)"
  shows "repr R state quota ops d' chal \<and> (\<exists>t. r = Some t)"
proof -
  note rules = redis_rules [OF assms(1)]
  have keep: "hget R d' k f = hget R d k f" "k \<notin> {a, b} \<Longrightarrow> zscore R d' k m = zscore R d k m" for k f m
    using assms(6-8)
    by (auto simp: challengeRate_def rules Let_def split: if_splits)
  have "\<exists>t. r = Some t" using assms(8) by (auto simp: challengeRate_def Let_def split: if_splits)
  with assms(2-5) show ?thesis by (simp add: repr_def keep)
qed

lemma challengeRate_empty:
  assumes "redis_laws R" and "\<forall>k m. zscore R d k m = None" and "cl > 0" and "gl > 0"
  shows "snd (challengeRate R a b i cw cl gw gl g d) = Some ''OK''"
proof -
  let ?now = "redis_now R d"
  let ?d = "zremrangebyscore R b (?now - gw) (zremrangebyscore R a (?now - cw) d)"
  have "zscore R ?d k m = None" for k m using assms(2) by (simp add: redis_rules [OF assms(1)] prune_def)
  moreover from this have "zcard R ?d k = 0" for k by (simp add: redis_rules(14) [OF assms(1)] members_def)
  ultimately show ?thesis using assms(3,4) by (simp add: challengeRate_def Let_def)
qed

definition online :: "crypto \<Rightarrow> 's bridge_env \<Rightarrow> redisResource \<Rightarrow> challengeRedis \<Rightarrow> bool" where
  "online K B R0 c \<longleftrightarrow> crypto_laws K \<and> redis_laws (be_redis B) \<and> served B \<and> made_by R0 (ch_scope c)
     \<and> (\<exists>owner op. NewRedis owner (Some (ch_scope c)) op = Inr c)"

lemma onlineD:
  assumes "online K B R0 c"
  shows "crypto_laws K" "redis_laws (be_redis B)" "served B" "made_by R0 (ch_scope c)"
    "\<exists>owner op. NewRedis owner (Some (ch_scope c)) op = Inr c"
  using assms by (simp_all add: online_def)

lemma millis_grace: "millis stateExpiryGrace = 60000"
  by (simp add: millis_def stateExpiryGrace_def minute_def ms_def)

lemma online_millis:
  assumes "online K B R0 c"
  shows "millis (IdempotencyTTL (ch_options c)) > 0" "millis (CallerWindow (ch_options c)) > 0"
    "millis (GlobalWindow (ch_options c)) > 0" "\<exists>secret. fmlookup (ch_peppers c) (ch_currentPepper c) = Some secret"
    "millis (PendingTTL (ch_options c)) > 0" "millis (CodeTTL (ch_options c)) > 0"
proof -
  obtain owner op where "NewRedis owner (Some (ch_scope c)) op = Inr c" using assms onlineD(5) by blast
  note n = NewRedis_facts [OF this]
  show "millis (IdempotencyTTL (ch_options c)) > 0" "millis (CallerWindow (ch_options c)) > 0"
    "millis (GlobalWindow (ch_options c)) > 0" "\<exists>secret. fmlookup (ch_peppers c) (ch_currentPepper c) = Some secret"
    "millis (PendingTTL (ch_options c)) > 0" "millis (CodeTTL (ch_options c)) > 0"
    using n by blast+
qed

lemma online_limits:
  assumes "online K B R0 c"
  shows "CallerLimit (ch_options c) > 0" "GlobalLimit (ch_options c) > 0" "MaxIssues (ch_options c) > 0"
    "MaxAttempts (ch_options c) > 0"
proof -
  obtain owner op where "NewRedis owner (Some (ch_scope c)) op = Inr c" using assms onlineD(5) by blast
  note n = NewRedis_facts [OF this]
  show "CallerLimit (ch_options c) > 0" "GlobalLimit (ch_options c) > 0" "MaxIssues (ch_options c) > 0"
    "MaxAttempts (ch_options c) > 0"
    using n by blast+
qed

lemma group_tag_no_brace: "CHR ''}'' \<notin> set (group_tag (group_of K d i))"
  using base64_no_brace by (simp add: group_of_def)

text \<open>The state a request leaves behind.\<close>

definition after :: "nat \<Rightarrow> lifecycleState \<Rightarrow> 's cworld \<Rightarrow> 's cworld \<Rightarrow> bool" where
  "after n s w w' \<longleftrightarrow> lending s \<and> links w' = [] \<and> entropy w' = drop n (entropy w)"

lemma limitIssue_served:
  assumes on: "online K B R0 c" and s: "lending s" "links w = []" and e: "length (entropy w) \<ge> 24"
    and r: "subject_repr K (be_redis B) c subject purpose (db w) chal"
  shows "\<exists>s' w' x. limitIssue K B c caller s w = (s', w', x) \<and> after 24 s' w w'
     \<and> subject_repr K (be_redis B) c subject purpose (db w') chal \<and> x \<in> {None, Some errQuota, Some ErrUnavailable}
     \<and> ((\<forall>k m. zscore (be_redis B) (db w) k m = None) \<longrightarrow> x = None)
     \<and> (\<exists>keys args. db w' = fst (eval_script (be_redis B) scriptChallengeRate keys args (db w)))"
proof -
  note o = onlineD [OF on]
  let ?g = "group_of K ''challenge-rate'' ''v1''"
  let ?fp = "fingerprint K (SubjectKey (ch_options c)) ''mss/challenge-caller/v1'' caller []"
  let ?p = "scope_prefix (ch_scope c)"
  let ?op = "ch_options c"
  let ?a = "atomic_key ?p (group_tag ?g) (''caller-'' @ ?fp)" and ?b = "atomic_key ?p (group_tag ?g) ''global''"
  let ?w = "w\<lparr>entropy := drop 24 (entropy w)\<rparr>"
  have len: "length ?fp = 64" by (rule fingerprint_length [OF o(1)])
  have gk: "NewAtomicGroup K ''challenge-rate'' ''v1'' = Inr ?g"
    "group_Key ?g (''caller-'' @ ?fp) = Inr (key_in ?g (''caller-'' @ ?fp))" "group_Key ?g ''global'' = Inr (key_in ?g ''global'')"
    using caller_name len unfolding fingerprint_def
    by (simp_all add: NewAtomicGroup_def fixed_names group_of_def group_Key_def key_in_def)
  have rid: "randomID (entropy w) = Some (base64_EncodeToString (take 24 (entropy w)), drop 24 (entropy w))"
    using e by (simp add: randomID_def)
  obtain d t0 where x: "challengeRate (be_redis B) ?a ?b (base64_EncodeToString (take 24 (entropy w)))
      (millis (CallerWindow ?op)) (CallerLimit ?op) (millis (GlobalWindow ?op)) (GlobalLimit ?op)
      (millis stateExpiryGrace) (db w) = (d, t0)" by fastforce
  have ne: "subject_key K c subject purpose l \<notin> {?a, ?b}" if "l \<in> {''state'', ''quota'', ''ops''}" for l
    using that atomic_key_inject [OF _ group_tag_no_brace group_tag_no_brace]
    by (auto simp: subject_key_def dest!: atomic_key_inject [OF _ group_tag_no_brace group_tag_no_brace])
  have "repr (be_redis B) (subject_key K c subject purpose ''state'') (subject_key K c subject purpose ''quota'')
      (subject_key K c subject purpose ''ops'') d chal \<and> (\<exists>t. t0 = Some t)"
    by (rule challengeRate_repr [OF o(2) r [unfolded subject_repr_def] ne ne ne _ _ x])
      (use online_millis [OF on] in \<open>simp_all add: millis_grace\<close>)
  then obtain t where t: "t0 = Some t" and r': "subject_repr K (be_redis B) c subject purpose d chal"
    by (auto simp: subject_repr_def)
  have ev: "eval_script (be_redis B) scriptChallengeRate
      (map (\<lambda>k. atomic_key ?p (group_tag ?g) (bkey_logical k)) [key_in ?g (''caller-'' @ ?fp), key_in ?g ''global''])
      [AStr (base64_EncodeToString (take 24 (entropy w))), AInt (millis (CallerWindow ?op)), AInt (CallerLimit ?op),
       AInt (millis (GlobalWindow ?op)), AInt (GlobalLimit ?op), AInt (millis stateExpiryGrace)] (db ?w)
      = (d, Some (RText t))"
    using x t by (simp add: eval_script_def)
  obtain s' w' where run: "run_text B (ch_scope c) ?g scriptChallengeRate [key_in ?g (''caller-'' @ ?fp), key_in ?g ''global'']
      [AStr (base64_EncodeToString (take 24 (entropy w))), AInt (millis (CallerWindow ?op)), AInt (CallerLimit ?op),
       AInt (millis (GlobalWindow ?op)), AInt (GlobalLimit ?op), AInt (millis stateExpiryGrace)] s ?w = (s', w', Inr t)"
    and w': "lending s'" "links w' = []" "db w' = d" "entropy w' = entropy ?w"
    using run_text_served [OF o(3) s(1) _ o(4) group_of_valid _ key_in_group(2) ev] s(2) by (auto simp: script_valid_def)
  have "limitIssue K B c caller s w = (s', w',
      if t = ''OK'' then None else if t = ''CALLER'' \<or> t = ''GLOBAL'' then Some errQuota else Some ErrUnavailable)"
    using gk rid run by (simp add: limitIssue_def Let_def)
  moreover have "\<exists>keys args. d = fst (eval_script (be_redis B) scriptChallengeRate keys args (db w))"
  proof -
    obtain ks as where "eval_script (be_redis B) scriptChallengeRate ks as (db ?w) = (d, Some (RText t))" using ev by blast
    then have "d = fst (eval_script (be_redis B) scriptChallengeRate ks as (db w))" by simp
    then show ?thesis by blast
  qed
  moreover have "t = ''OK''" if "\<forall>k m. zscore (be_redis B) (db w) k m = None"
    using challengeRate_empty [OF o(2) that, of "CallerLimit ?op" "GlobalLimit ?op"] online_limits [OF on] x t by (metis option.inject snd_conv)
  ultimately show ?thesis using w' r' by (auto simp: after_def)
qed

section \<open>Issuing\<close>

definition issue_args :: "crypto \<Rightarrow> challengeRedis \<Rightarrow> string \<Rightarrow> string \<Rightarrow> string \<Rightarrow> string \<Rightarrow> begin_args" where
  "issue_args K c subject purpose code version =
     \<lparr>issue_id = version, max_issues = MaxIssues (ch_options c),
      issue_digest = hex_EncodeToString
        (digest K (case fmlookup (ch_peppers c) (ch_currentPepper c) of Some p \<Rightarrow> p | None \<Rightarrow> [])
          (subject_fp K c subject purpose) version code),
      issue_pepper = ch_currentPepper c, pending_ttl = millis (PendingTTL (ch_options c)),
      challenge_ttl = millis (CodeTTL (ch_options c)), cooldown_ttl = millis (Cooldown (ch_options c)),
      quota_window = millis (QuotaWindow (ch_options c)), expiry_grace = millis stateExpiryGrace\<rparr>"

definition reservation_of :: "crypto \<Rightarrow> challengeRedis \<Rightarrow> string \<Rightarrow> string \<Rightarrow> string \<Rightarrow> string \<Rightarrow> reservation" where
  "reservation_of K c subject purpose code version =
     (let g = group_of K ''challenge-subject'' (subject_fp K c subject purpose) in
      \<lparr>rv_owner = ch_owner c, rv_code = code, rv_version = version, rv_group = g,
       rv_state = key_in g ''state'', rv_quota = key_in g ''quota'', rv_ops = key_in g ''ops''\<rparr>)"

lemma spec_begin_replies: "snd (spec_begin a now chal) \<in> {''OK'', ''PENDING'', ''COOLDOWN'', ''QUOTA''}"
  by (auto simp: spec_begin_def spec_reserve_def Let_def split: option.splits)

lemma reserveIssue_served:
  assumes on: "online K B R0 c" and s: "lending s" "links w = []"
    and code: "randomCode (entropy w) = Some (code, rest)" and vers: "randomID rest = Some (version, rest')"
    and r: "subject_repr K (be_redis B) c subject purpose (db w) chal"
  shows "\<exists>s' w'. reserveIssue K B c subject purpose s w =
       (s', w', Inr (let t = snd (spec_begin (issue_args K c subject purpose code version) (redis_now (be_redis B) (db w)) chal) in
          if t = ''OK'' then BeginReserved (reservation_of K c subject purpose code version)
          else if t = ''PENDING'' then BeginPending
          else if t = ''COOLDOWN'' then BeginCooldown else BeginQuota))
     \<and> lending s' \<and> links w' = [] \<and> entropy w' = rest'
     \<and> subject_repr K (be_redis B) c subject purpose (db w')
         (fst (spec_begin (issue_args K c subject purpose code version) (redis_now (be_redis B) (db w)) chal))"
proof -
  note o = onlineD [OF on]
  let ?R = "be_redis B"
  let ?g = "group_of K ''challenge-subject'' (subject_fp K c subject purpose)"
  let ?a = "issue_args K c subject purpose code version"
  let ?st = "subject_key K c subject purpose ''state''" and ?qu = "subject_key K c subject purpose ''quota''"
  let ?w = "w\<lparr>entropy := rest'\<rparr>"
  let ?args = "[AStr version, AInt (MaxIssues (ch_options c)), AStr (issue_digest ?a),
      AStr (ch_currentPepper c), AInt (millis (PendingTTL (ch_options c))), AInt (millis (CodeTTL (ch_options c))),
      AInt (millis (Cooldown (ch_options c))), AInt (millis (QuotaWindow (ch_options c))), AInt (millis stateExpiryGrace)]"
  obtain d t0 where x: "challengeBegin ?R ?st ?qu ?a (db w) = (d, t0)" by fastforce
  from challengeBegin_refines [OF o(2) subject_keys_distinct r [unfolded subject_repr_def] x]
  have t: "t0 = Some (snd (spec_begin ?a (redis_now ?R (db w)) chal))"
    and r': "subject_repr K ?R c subject purpose d (fst (spec_begin ?a (redis_now ?R (db w)) chal))"
    by (simp_all add: subject_repr_def)
  have ev: "eval_script ?R scriptChallengeBegin
      (map (\<lambda>k. atomic_key (scope_prefix (ch_scope c)) (group_tag ?g) (bkey_logical k)) [key_in ?g ''state'', key_in ?g ''quota''])
      ?args (db ?w) = (d, Some (RText (snd (spec_begin ?a (redis_now ?R (db w)) chal))))"
    using x t by (simp add: eval_script_def subject_key_def issue_args_def)
  obtain s' w' where run: "run_text B (ch_scope c) ?g scriptChallengeBegin [key_in ?g ''state'', key_in ?g ''quota''] ?args s ?w
      = (s', w', Inr (snd (spec_begin ?a (redis_now ?R (db w)) chal)))"
    and w': "lending s'" "links w' = []" "db w' = d" "entropy w' = entropy ?w"
    using run_text_served [OF o(3) s(1) _ o(4) group_of_valid _ key_in_group(2) ev] s(2) by (auto simp: script_valid_def)
  have caps: "subjectCapabilities K (fingerprint K (SubjectKey (ch_options c)) ''mss/challenge-key/v1'' purpose subject)
      = Inr (?g, key_in ?g ''state'', key_in ?g ''quota'', key_in ?g ''ops'')"
    using subjectCapabilities_total [OF o(1), of c subject purpose] by (simp add: subject_fp_def Let_def)
  have "reserveIssue K B c subject purpose s w =
      (s', w', Inr (let t = snd (spec_begin ?a (redis_now ?R (db w)) chal) in
          if t = ''OK'' then BeginReserved (reservation_of K c subject purpose code version)
          else if t = ''PENDING'' then BeginPending
          else if t = ''COOLDOWN'' then BeginCooldown else BeginQuota))"
    using caps code vers run spec_begin_replies [of ?a "redis_now ?R (db w)" chal]
    by (auto simp: reserveIssue_def Let_def issue_args_def subject_fp_def reservation_of_def)
  with w' r' show ?thesis by auto
qed

end
