(* ===== verification/Challenge_Verify.thy ===== *)
theory Challenge_Verify
  imports Challenge_Flow
begin

text \<open>
  \<open>Commit\<close>, \<open>Abort\<close> and \<open>Verify\<close> over a Redis that answers, the composition of a whole challenge, and what
  holds whatever the network does.
\<close>

section \<open>Commit and Abort\<close>

lemma Commit_served:
  assumes on: "online K B R0 c" and s: "lending s" "links w = []" and v: "version \<noteq> []" "code \<noteq> []"
    and r: "subject_repr K (be_redis B) c subject purpose (db w) chal"
  shows "\<exists>s' w'. Commit B (Some c) True (Some (reservation_of K c subject purpose code version)) s w =
       (s', w', if snd (spec_commit version (redis_now (be_redis B) (db w)) chal) = ''OK'' then None else Some ErrStale)
     \<and> after 0 s' w w'
     \<and> subject_repr K (be_redis B) c subject purpose (db w') (fst (spec_commit version (redis_now (be_redis B) (db w)) chal))"
proof -
  note o = onlineD [OF on]
  let ?R = "be_redis B"
  let ?g = "group_of K ''challenge-subject'' (subject_fp K c subject purpose)"
  let ?st = "subject_key K c subject purpose ''state''" and ?ops = "subject_key K c subject purpose ''ops''"
  let ?rv = "reservation_of K c subject purpose code version"
  let ?t = "snd (spec_commit version (redis_now ?R (db w)) chal)"
  obtain d t0 where x: "challengeCommit ?R ?st ?ops version (millis stateExpiryGrace) (db w) = (d, t0)" by fastforce
  from challengeCommit_refines [OF o(2) subject_keys_distinct r [unfolded subject_repr_def] x]
  have t: "t0 = Some ?t" and r': "subject_repr K ?R c subject purpose d (fst (spec_commit version (redis_now ?R (db w)) chal))"
    by (simp_all add: subject_repr_def)
  have rv: "rv_group ?rv = ?g" "rv_state ?rv = key_in ?g ''state''" "rv_ops ?rv = key_in ?g ''ops''" "rv_version ?rv = version"
    "rv_code ?rv = code" "rv_owner ?rv = ch_owner c"
    by (simp_all add: reservation_of_def Let_def)
  have ev: "eval_script ?R scriptChallengeCommit
      (map (\<lambda>k. atomic_key (scope_prefix (ch_scope c)) (group_tag ?g) (bkey_logical k)) [key_in ?g ''state'', key_in ?g ''ops''])
      [AStr version, AInt (millis stateExpiryGrace)] (db w) = (d, Some (RText ?t))"
    using x t by (simp add: eval_script_def subject_key_def)
  obtain s' w' where run: "run_text B (ch_scope c) ?g scriptChallengeCommit [key_in ?g ''state'', key_in ?g ''ops'']
      [AStr version, AInt (millis stateExpiryGrace)] s w = (s', w', Inr ?t)"
    and w': "lending s'" "links w' = []" "db w' = d" "entropy w' = entropy w"
    using run_text_served [OF o(3) s o(4) group_of_valid _ key_in_group(2) ev] by (auto simp: script_valid_def)
  have "?t \<in> {''OK'', ''EXPIRED'', ''STALE''}" by (auto simp: spec_commit_def split: option.splits)
  then have "Commit B (Some c) True (Some ?rv) s w = (s', w', if ?t = ''OK'' then None else Some ErrStale)"
    using run v by (auto simp: Commit_def validReservation_def rv Let_def)
  with w' r' show ?thesis by (auto simp: after_def)
qed

lemma Abort_served:
  assumes on: "online K B R0 c" and s: "lending s" "links w = []" and v: "version \<noteq> []" "code \<noteq> []"
    and r: "subject_repr K (be_redis B) c subject purpose (db w) chal"
  shows "\<exists>s' w'. Abort B (Some c) True (Some (reservation_of K c subject purpose code version)) s w =
       (s', w', if snd (spec_abort version chal) = ''OK'' then None else Some ErrStale)
     \<and> after 0 s' w w'
     \<and> subject_repr K (be_redis B) c subject purpose (db w') (fst (spec_abort version chal))"
proof -
  note o = onlineD [OF on]
  let ?R = "be_redis B"
  let ?g = "group_of K ''challenge-subject'' (subject_fp K c subject purpose)"
  let ?st = "subject_key K c subject purpose ''state''"
  let ?rv = "reservation_of K c subject purpose code version"
  let ?t = "snd (spec_abort version chal)"
  obtain d t0 where x: "challengeAbort ?R ?st version (db w) = (d, t0)" by fastforce
  from challengeAbort_refines [OF o(2) subject_keys_distinct r [unfolded subject_repr_def] x]
  have t: "t0 = Some ?t" and r': "subject_repr K ?R c subject purpose d (fst (spec_abort version chal))"
    by (simp_all add: subject_repr_def)
  have rv: "rv_group ?rv = ?g" "rv_state ?rv = key_in ?g ''state''" "rv_version ?rv = version"
    "rv_code ?rv = code" "rv_owner ?rv = ch_owner c"
    by (simp_all add: reservation_of_def Let_def)
  have ev: "eval_script ?R scriptChallengeAbort
      (map (\<lambda>k. atomic_key (scope_prefix (ch_scope c)) (group_tag ?g) (bkey_logical k)) [key_in ?g ''state''])
      [AStr version] (db w) = (d, Some (RText ?t))"
    using x t by (simp add: eval_script_def subject_key_def)
  obtain s' w' where run: "run_text B (ch_scope c) ?g scriptChallengeAbort [key_in ?g ''state''] [AStr version] s w = (s', w', Inr ?t)"
    and w': "lending s'" "links w' = []" "db w' = d" "entropy w' = entropy w"
    using run_text_served [OF o(3) s o(4) group_of_valid _ key_in_group(1) ev] by (auto simp: script_valid_def)
  have "?t \<in> {''OK'', ''STALE''}" by (auto simp: spec_abort_def)
  then have "Abort B (Some c) True (Some ?rv) s w = (s', w', if ?t = ''OK'' then None else Some ErrStale)"
    using run v by (auto simp: Abort_def validReservation_def rv Let_def)
  with w' r' show ?thesis by (auto simp: after_def)
qed

section \<open>Verify\<close>

lemma verifier_Read_served:
  assumes on: "online K B R0 c" and s: "lending s" "links w = []"
    and r: "subject_repr K (be_redis B) c subject purpose (db w) chal"
  defines "g \<equiv> group_of K ''challenge-subject'' (subject_fp K c subject purpose)"
  shows "\<exists>s' w'. verifier_Read B c g (key_in g ''state'') s w =
       (s', w', Inr (case act chal of None \<Rightarrow> [[], [], []] | Some v \<Rightarrow> [v_id v, v_digest v, v_pepper v]))
     \<and> after 0 s' w w' \<and> db w' = db w"
proof -
  note o = onlineD [OF on]
  let ?R = "be_redis B"
  let ?st = "subject_key K c subject purpose ''state''"
  have h: "challengeReadVerifier ?R ?st (db w) =
      [map_option v_id (act chal), map_option v_digest (act chal), map_option v_pepper (act chal)]"
    using r by (simp add: challengeReadVerifier_def subject_repr_def repr_def)
  have ev: "eval_script ?R scriptChallengeReadVerifier
      (map (\<lambda>k. atomic_key (scope_prefix (ch_scope c)) (group_tag g) (bkey_logical k)) [key_in g ''state'']) [] (db w)
      = (db w, Some (RList (map (map_option RText)
          [map_option v_id (act chal), map_option v_digest (act chal), map_option v_pepper (act chal)])))"
    using h by (simp add: eval_script_def subject_key_def g_def)
  obtain s' w' where run: "bridge_Use B (ch_scope c) g scriptChallengeReadVerifier [key_in g ''state''] [] s w =
      (s', w', Inr (RList (map (map_option RText)
          [map_option v_id (act chal), map_option v_digest (act chal), map_option v_pepper (act chal)])))"
    and w': "lending s'" "links w' = []" "db w' = db w" "entropy w' = entropy w"
    using bridge_Use_served [OF o(3) s o(4) _ _ key_in_group(1) ev] by (auto simp: script_valid_def g_def)
  have "verifier_Read B c g (key_in g ''state'') s w =
      (s', w', Inr (case act chal of None \<Rightarrow> [[], [], []] | Some v \<Rightarrow> [v_id v, v_digest v, v_pepper v]))"
    using run by (auto simp: verifier_Read_def split: option.split)
  with w' show ?thesis by (auto simp: after_def)
qed

definition complete_args :: "challengeRedis \<Rightarrow> string \<Rightarrow> string \<Rightarrow> string \<Rightarrow> bool \<Rightarrow> verify_args" where
  "complete_args c eid ed opid m =
     \<lparr>expected_id = eid, expected_digest = ed, operation_id = opid, max_attempts = MaxAttempts (ch_options c), matched = m,
      idempotency_ttl = millis (IdempotencyTTL (ch_options c))\<rparr>"

definition next_operation :: "'s cworld \<Rightarrow> string" where
  "next_operation w = base64_EncodeToString (take 24 (entropy w))"

lemma verifier_Complete_served:
  fixes eid ed :: string and m :: bool
  assumes on: "online K B R0 c" and s: "lending s" "links w = []" and e: "length (entropy w) \<ge> 24"
    and r: "subject_repr K (be_redis B) c subject purpose (db w) chal"
  defines "g \<equiv> group_of K ''challenge-subject'' (subject_fp K c subject purpose)"
    and "spec \<equiv> spec_complete (complete_args c eid ed (next_operation w) m) (redis_now (be_redis B) (db w)) chal"
  shows "\<exists>s' w'. verifier_Complete B c g (key_in g ''state'') (key_in g ''ops'') eid ed m s w = (s', w', Inr (snd spec))
     \<and> after 24 s' w w' \<and> subject_repr K (be_redis B) c subject purpose (db w') (fst spec)"
proof -
  note o = onlineD [OF on]
  let ?R = "be_redis B"
  let ?st = "subject_key K c subject purpose ''state''" and ?ops = "subject_key K c subject purpose ''ops''"
  let ?a = "complete_args c eid ed (next_operation w) m"
  let ?w = "w\<lparr>entropy := drop 24 (entropy w)\<rparr>"
  let ?args = "[AStr eid, AStr ed, AStr (next_operation w), AInt (MaxAttempts (ch_options c)), AInt (boolInt m),
      AInt (millis (IdempotencyTTL (ch_options c)))]"
  obtain d t0 where x: "challengeCompleteVerify ?R ?st ?ops ?a (db w) = (d, t0)" by fastforce
  have "idempotency_ttl ?a > 0" using online_millis(1) [OF on] by (simp add: complete_args_def)
  from challengeCompleteVerify_refines [OF o(2) subject_keys_distinct r [unfolded subject_repr_def] this x]
  have t: "t0 = Some (snd spec)" and r': "subject_repr K ?R c subject purpose d (fst spec)"
    by (simp_all add: subject_repr_def spec_def)
  have ev: "eval_script ?R scriptChallengeCompleteVerify
      (map (\<lambda>k. atomic_key (scope_prefix (ch_scope c)) (group_tag g) (bkey_logical k)) [key_in g ''state'', key_in g ''ops''])
      ?args (db ?w) = (d, Some (RText (snd spec)))"
    using x t by (cases m) (simp_all add: eval_script_def subject_key_def g_def complete_args_def boolInt_def)
  obtain s' w' where run: "run_text B (ch_scope c) g scriptChallengeCompleteVerify [key_in g ''state'', key_in g ''ops''] ?args s ?w
      = (s', w', Inr (snd spec))"
    and w': "lending s'" "links w' = []" "db w' = d" "entropy w' = entropy ?w"
    using run_text_served [OF o(3) s(1) _ o(4) _ _ key_in_group(2) ev] s(2) by (auto simp: script_valid_def g_def)
  have "randomID (entropy w) = Some (next_operation w, drop 24 (entropy w))"
    using e by (simp add: randomID_def next_operation_def)
  then have "verifier_Complete B c g (key_in g ''state'') (key_in g ''ops'') eid ed m s w = (s', w', Inr (snd spec))"
    using run by (simp add: verifier_Complete_def)
  with w' r' show ?thesis by (auto simp: after_def)
qed

text \<open>A stored verifier the service can check: a known pepper and a digest of 32 bytes in hexadecimal.\<close>

definition checkable :: "challengeRedis \<Rightarrow> verifier \<Rightarrow> bool" where
  "checkable c v \<longleftrightarrow> v_id v \<noteq> [] \<and> (\<exists>p. fmlookup (ch_peppers c) (v_pepper v) = Some p)
     \<and> (\<exists>raw. hex_DecodeString (v_digest v) = Some raw \<and> length raw = 32)"

definition code_matches :: "crypto \<Rightarrow> challengeRedis \<Rightarrow> string \<Rightarrow> string \<Rightarrow> string \<Rightarrow> verifier \<Rightarrow> bool" where
  "code_matches K c subject purpose code v \<longleftrightarrow>
     (\<exists>p. fmlookup (ch_peppers c) (v_pepper v) = Some p
        \<and> hex_DecodeString (v_digest v) = Some (digest K p (subject_fp K c subject purpose) (v_id v) code))"

text \<open>What the abstract challenge does in one verification with a fresh operation identifier.\<close>

definition verify_spec :: "crypto \<Rightarrow> challengeRedis \<Rightarrow> string \<Rightarrow> string \<Rightarrow> string \<Rightarrow> string \<Rightarrow> int \<Rightarrow> challenge
    \<Rightarrow> challenge \<times> string" where
  "verify_spec K c subject purpose code opid now chal =
     (case act chal of
        None \<Rightarrow> spec_complete (complete_args c ''!'' (hex_EncodeToString (replicate 32 (CHR 0x00))) opid False) now chal
      | Some v \<Rightarrow> spec_complete (complete_args c (v_id v) (v_digest v) opid (code_matches K c subject purpose code v)) now chal)"

lemma spec_complete_replies:
  assumes "answers chal (operation_id a) = None"
  shows "snd (spec_complete a now chal) \<in> {''SUCCESS'', ''INVALID'', ''LOCKED'', ''EXPIRED'', ''STALE''}"
  using assms by (auto simp: spec_complete_def answer_def split: option.splits)

lemma Verify_served:
  assumes on: "online K B R0 c" and s: "lending s" "links w = []" and e: "length (entropy w) \<ge> 24"
    and r: "subject_repr K (be_redis B) c subject' purpose' (db w) chal"
    and n: "normalizeSubject subject purpose = Inr (subject', purpose')" and code: "validCode code"
    and fresh: "answers chal (next_operation w) = None" and ok: "\<forall>v. act chal = Some v \<longrightarrow> checkable c v"
  defines "spec \<equiv> verify_spec K c subject' purpose' code (next_operation w) (redis_now (be_redis B) (db w)) chal"
  shows "\<exists>s' w'. Verify K B (Some c) True subject purpose code s w =
       (s', w', if snd spec = ''SUCCESS'' then VerifyVerified else VerifyRejected, None)
     \<and> after 24 s' w w' \<and> subject_repr K (be_redis B) c subject' purpose' (db w') (fst spec)"
proof -
  note o = onlineD [OF on]
  let ?g = "group_of K ''challenge-subject'' (subject_fp K c subject' purpose')"
  obtain s1 w1 where rd: "verifier_Read B c ?g (key_in ?g ''state'') s w =
       (s1, w1, Inr (case act chal of None \<Rightarrow> [[], [], []] | Some v \<Rightarrow> [v_id v, v_digest v, v_pepper v]))"
    and w1: "lending s1" "links w1 = []" "entropy w1 = entropy w" "db w1 = db w"
    using verifier_Read_served [OF on s r] by (auto simp: after_def)
  have op: "next_operation w1 = next_operation w" by (simp add: next_operation_def w1)
  have r1: "subject_repr K (be_redis B) c subject' purpose' (db w1) chal" using r w1 by simp
  have e1: "length (entropy w1) \<ge> 24" using e w1 by simp
  have caps: "subjectCapabilities K (fingerprint K (SubjectKey (ch_options c)) ''mss/challenge-key/v1'' purpose' subject')
      = Inr (?g, key_in ?g ''state'', key_in ?g ''quota'', key_in ?g ''ops'')"
    using subjectCapabilities_total [OF o(1), of c subject' purpose'] by (simp add: subject_fp_def Let_def)
  show ?thesis
  proof (cases "act chal")
    case None
    let ?spec = "spec_complete (complete_args c ''!'' (hex_EncodeToString (replicate 32 (CHR 0x00))) (next_operation w) False)
        (redis_now (be_redis B) (db w)) chal"
    have sp: "spec = ?spec" by (simp add: spec_def verify_spec_def None)
    have st: "snd ?spec = ''STALE''" using fresh None by (simp add: spec_complete_def complete_args_def)
    obtain s2 w2 where cp: "verifier_Complete B c ?g (key_in ?g ''state'') (key_in ?g ''ops'') ''!''
        (hex_EncodeToString (replicate 32 (CHR 0x00))) False s1 w1 = (s2, w2, Inr (snd ?spec))"
      and w2: "lending s2" "links w2 = []" "entropy w2 = drop 24 (entropy w)"
        "subject_repr K (be_redis B) c subject' purpose' (db w2) (fst ?spec)"
      using verifier_Complete_served [OF on w1(1,2) e1 r1, of "''!''" "hex_EncodeToString (replicate 32 (CHR 0x00))" False] w1
      by (auto simp: after_def op)
    have "Verify K B (Some c) True subject purpose code s w = (s2, w2, VerifyRejected, None)"
      using n code caps rd None cp st by (simp add: Verify_def completeDummyVerify_def Let_def)
    with w2 sp st show ?thesis by (auto simp: after_def)
  next
    case (Some v)
    from ok Some obtain p raw where v: "v_id v \<noteq> []" "fmlookup (ch_peppers c) (v_pepper v) = Some p"
      "hex_DecodeString (v_digest v) = Some raw" "length raw = 32"
      by (auto simp: checkable_def)
    let ?m = "code_matches K c subject' purpose' code v"
    let ?spec = "spec_complete (complete_args c (v_id v) (v_digest v) (next_operation w) ?m)
        (redis_now (be_redis B) (db w)) chal"
    have sp: "spec = ?spec" by (simp add: spec_def verify_spec_def Some)
    have m: "(raw = digest K p (subject_fp K c subject' purpose') (v_id v) code) = ?m"
      using v by (auto simp: code_matches_def)
    obtain s2 w2 where cp: "verifier_Complete B c ?g (key_in ?g ''state'') (key_in ?g ''ops'') (v_id v) (v_digest v) ?m s1 w1
        = (s2, w2, Inr (snd ?spec))"
      and w2: "lending s2" "links w2 = []" "entropy w2 = drop 24 (entropy w)"
        "subject_repr K (be_redis B) c subject' purpose' (db w2) (fst ?spec)"
      using verifier_Complete_served [OF on w1(1,2) e1 r1, of "v_id v" "v_digest v" ?m] w1
      by (auto simp: after_def op)
    have "snd ?spec \<in> {''SUCCESS'', ''INVALID'', ''LOCKED'', ''EXPIRED'', ''STALE''}"
      by (rule spec_complete_replies) (simp add: complete_args_def fresh)
    then have "Verify K B (Some c) True subject purpose code s w =
        (s2, w2, if snd ?spec = ''SUCCESS'' then VerifyVerified else VerifyRejected, None)"
      using n code caps rd Some v cp m by (auto simp: Verify_def Let_def subject_fp_def)
    with w2 sp show ?thesis by (auto simp: after_def)
  qed
qed

end
