(* ===== verification/Challenge_Guarantees.thy ===== *)
theory Challenge_Guarantees
  imports Challenge_Verify
begin

text \<open>
  What a caller of \<open>challenge.Redis\<close> can rely on: accepted options satisfy every precondition of the
  scripts, a verification does exactly what the abstract challenge does and says no more, a delivered code
  verifies once, and no fault of the network or the entropy source lets a wrong code pass.
\<close>

section \<open>Issuing, as the caller sees it\<close>

lemma rand_Int_bound: "rand_Int r = Some (n, rest) \<Longrightarrow> n < 1000000"
  by (induction r rule: rand_Int.induct) (auto simp: Let_def split: if_splits)

lemma randomCode_valid: "randomCode r = Some (code, rest) \<Longrightarrow> validCode code"
  using rand_Int_bound sprintf_06d_digits length_sprintf_06d
  by (auto simp: randomCode_def validCode_def list_all_iff)

lemma randomID_nonempty: "randomID r = Some (i, rest) \<Longrightarrow> i \<noteq> [] \<and> length r \<ge> 24 \<and> rest = drop 24 r"
proof -
  assume a: "randomID r = Some (i, rest)"
  then have r: "length r \<ge> 24" "i = base64_EncodeToString (take 24 r)" "rest = drop 24 r"
    by (auto simp: randomID_def split: if_splits)
  then have "length i = 32" by (simp add: length_base64)
  with r show ?thesis by auto
qed

text \<open>The clock of the Redis server does not run backwards while a script executes.\<close>

definition clock_monotone :: "'s redis \<Rightarrow> bool" where
  "clock_monotone R \<longleftrightarrow> (\<forall>i keys args d. redis_now R d \<le> redis_now R (fst (eval_script R i keys args d)))"

lemma BeginIssue_served:
  assumes on: "online K B R0 c" and s: "lending s" "links w = []" and clock: "clock_monotone (be_redis B)"
    and n: "normalizeSubject subject purpose = Inr (subject', purpose')"
    and r: "subject_repr K (be_redis B) c subject' purpose' (db w) chal"
    and b: "BeginIssue K B (Some c) True caller subject purpose s w = (s1, w1, Inr (BeginReserved rv))"
  shows "\<exists>code version now.
       rv = reservation_of K c subject' purpose' code version \<and> validCode code \<and> version \<noteq> []
     \<and> redis_now (be_redis B) (db w) \<le> now
     \<and> snd (spec_begin (issue_args K c subject' purpose' code version) now chal) = ''OK''
     \<and> subject_repr K (be_redis B) c subject' purpose' (db w1) (fst (spec_begin (issue_args K c subject' purpose' code version) now chal))
     \<and> lending s1 \<and> links w1 = []"
proof -
  let ?caller = "strings_TrimSpace caller"
  from b n obtain s2 w2 where lim: "limitIssue K B c ?caller s w = (s2, w2, None)"
    and res: "reserveIssue K B c subject' purpose' s2 w2 = (s1, w1, Inr (BeginReserved rv))"
    by (auto simp: BeginIssue_def Let_def split: if_splits prod.splits option.splits)
  have e: "length (entropy w) \<ge> 24"
  proof (rule ccontr)
    assume "\<not> length (entropy w) \<ge> 24"
    then have "randomID (entropy w) = None" by (simp add: randomID_def)
    with lim show False by (auto simp: limitIssue_def Let_def split: sum.splits)
  qed
  from limitIssue_served [OF on s e r, of ?caller] lim obtain keys args
    where w2: "lending s2" "links w2 = []" "subject_repr K (be_redis B) c subject' purpose' (db w2) chal"
      "db w2 = fst (eval_script (be_redis B) scriptChallengeRate keys args (db w))"
    by (auto simp: after_def)
  have now: "redis_now (be_redis B) (db w) \<le> redis_now (be_redis B) (db w2)"
    using clock w2(4) by (simp add: clock_monotone_def)
  obtain code rest version rest' where cv: "randomCode (entropy w2) = Some (code, rest)" "randomID rest = Some (version, rest')"
  proof (cases "randomCode (entropy w2)")
    case None
    with res subjectCapabilities_total [OF onlineD(1) [OF on], of c subject' purpose'] show ?thesis
      by (auto simp: reserveIssue_def Let_def subject_fp_def)
  next
    case (Some x)
    then obtain code rest where x: "randomCode (entropy w2) = Some (code, rest)" by (cases x) auto
    show ?thesis
    proof (cases "randomID rest")
      case None
      with res x subjectCapabilities_total [OF onlineD(1) [OF on], of c subject' purpose'] show ?thesis
        by (auto simp: reserveIssue_def Let_def subject_fp_def)
    next
      case (Some y)
      with x that show ?thesis by (cases y) auto
    qed
  qed
  let ?spec = "spec_begin (issue_args K c subject' purpose' code version) (redis_now (be_redis B) (db w2)) chal"
  from reserveIssue_served [OF on w2(1,2) cv w2(3)] res
  have "snd ?spec = ''OK'' \<and> rv = reservation_of K c subject' purpose' code version
      \<and> lending s1 \<and> links w1 = [] \<and> subject_repr K (be_redis B) c subject' purpose' (db w1) (fst ?spec)"
    by (auto simp: Let_def split: if_splits)
  with now randomCode_valid [OF cv(1)] randomID_nonempty [OF cv(2)] show ?thesis by blast
qed

lemma BeginIssue_first:
  assumes on: "online K B R0 c" and s: "lending s" "links w = []"
    and n: "normalizeSubject subject purpose = Inr (subject', purpose')"
    and caller: "strings_TrimSpace caller \<noteq> []" "length (strings_TrimSpace caller) \<le> 512"
    and r: "subject_repr K (be_redis B) c subject' purpose' (db w) no_challenge"
    and empty: "\<forall>k m. zscore (be_redis B) (db w) k m = None" and clock: "\<forall>d. redis_now (be_redis B) d \<ge> 0"
    and e: "length (entropy w) \<ge> 24"
    and cv: "randomCode (drop 24 (entropy w)) = Some (code, rest)" "randomID rest = Some (version, rest')"
  shows "\<exists>s' w'. BeginIssue K B (Some c) True caller subject purpose s w =
       (s', w', Inr (BeginReserved (reservation_of K c subject' purpose' code version)))
     \<and> lending s' \<and> links w' = [] \<and> entropy w' = rest'"
proof -
  from limitIssue_served [OF on s e r, of "strings_TrimSpace caller"] empty obtain s2 w2
    where lim: "limitIssue K B c (strings_TrimSpace caller) s w = (s2, w2, None)"
      and w2: "lending s2" "links w2 = []" "subject_repr K (be_redis B) c subject' purpose' (db w2) no_challenge"
      "entropy w2 = drop 24 (entropy w)"
    by (auto simp: after_def)
  have "snd (spec_begin (issue_args K c subject' purpose' code version) (redis_now (be_redis B) (db w2)) no_challenge) = ''OK''"
    using clock online_limits(3) [OF on]
    by (simp add: spec_begin_def spec_reserve_def no_challenge_def cooldown_until_def prune_def members_def issue_args_def
        linorder_not_less)
  with reserveIssue_served [OF on w2(1,2) cv [folded w2(4)] w2(3)] lim n caller show ?thesis
    by (auto simp: BeginIssue_def Let_def)
qed

lemma spec_begin_stored:
  assumes "snd (spec_begin a now chal) = ''OK''" and "\<forall>p. pend chal = Some p \<longrightarrow> p_id p \<noteq> issue_id a"
  shows "pend (fst (spec_begin a now chal)) =
      Some \<lparr>p_id = issue_id a, p_digest = issue_digest a, p_pepper = issue_pepper a,
            p_lease = now + pending_ttl a, p_ttl = challenge_ttl a, p_cooldown = cooldown_ttl a\<rparr>
    \<and> act (fst (spec_begin a now chal)) = act chal"
  using assms by (auto simp: spec_begin_def spec_reserve_def Let_def split: option.splits if_splits)

section \<open>A verification without an active code\<close>

lemma Verify_no_active:
  assumes on: "online K B R0 c" and s: "lending s" "links w = []"
    and r: "subject_repr K (be_redis B) c subject' purpose' (db w) chal" and a: "act chal = None"
    and n: "normalizeSubject subject purpose = Inr (subject', purpose')"
    and v: "Verify K B (Some c) True subject purpose code s w = (s', w', res, e)"
  shows "res = VerifyRejected"
proof -
  let ?g = "group_of K ''challenge-subject'' (subject_fp K c subject' purpose')"
  obtain s1 w1 where rd: "verifier_Read B c ?g (key_in ?g ''state'') s w = (s1, w1, Inr [[], [], []])"
    using verifier_Read_served [OF on s r] a by auto
  have caps: "subjectCapabilities K (fingerprint K (SubjectKey (ch_options c)) ''mss/challenge-key/v1'' purpose' subject')
      = Inr (?g, key_in ?g ''state'', key_in ?g ''quota'', key_in ?g ''ops'')"
    using subjectCapabilities_total [OF onlineD(1) [OF on], of c subject' purpose'] by (simp add: subject_fp_def Let_def)
  obtain s2 w2 e2 where "completeDummyVerify B c ?g (key_in ?g ''state'') (key_in ?g ''ops'') s1 w1 = (s2, w2, e2)"
    by (metis prod_cases3)
  with v n caps rd show ?thesis by (auto simp: Verify_def Let_def split: if_splits)
qed


section \<open>A whole challenge\<close>

text \<open>
  Between two calls other subjects are served and time passes, but nobody touches the keys of this subject.
\<close>

definition undisturbed :: "crypto \<Rightarrow> 's redis \<Rightarrow> challengeRedis \<Rightarrow> string \<Rightarrow> string \<Rightarrow> 's cworld \<Rightarrow> 's cworld \<Rightarrow> bool" where
  "undisturbed K R c subject purpose w w' \<longleftrightarrow>
     links w' = [] \<and> 24 \<le> length (entropy w')
   \<and> (\<forall>l \<in> {''state'', ''quota'', ''ops''}. \<forall>x.
        hget R (db w') (subject_key K c subject purpose l) x = hget R (db w) (subject_key K c subject purpose l) x
      \<and> zscore R (db w') (subject_key K c subject purpose l) x = zscore R (db w) (subject_key K c subject purpose l) x)"

lemma undisturbed_repr:
  "undisturbed K R c s p w w' \<Longrightarrow> subject_repr K R c s p (db w) chal \<Longrightarrow> subject_repr K R c s p (db w') chal"
  by (simp add: undisturbed_def subject_repr_def repr_def)

text \<open>The verifier a commit at \<open>t\<close> activates for a reservation of \<open>code\<close>.\<close>

definition committed :: "crypto \<Rightarrow> challengeRedis \<Rightarrow> string \<Rightarrow> string \<Rightarrow> string \<Rightarrow> string \<Rightarrow> int \<Rightarrow> verifier" where
  "committed K c subject purpose code version t =
     \<lparr>v_id = version, v_digest = issue_digest (issue_args K c subject purpose code version), v_pepper = ch_currentPepper c,
      v_expires = t + millis (CodeTTL (ch_options c)), v_attempts = 0\<rparr>"

lemma committed_checks:
  assumes on: "online K B R0 c" and "version \<noteq> []"
  shows "checkable c (committed K c s p code version t)" "code_matches K c s p code (committed K c s p code version t)"
proof -
  obtain secret where "fmlookup (ch_peppers c) (ch_currentPepper c) = Some secret" using online_millis(4) [OF on] by blast
  moreover have "length (digest K pep fp v code) = 32" for pep fp v
    using onlineD(1) [OF on] by (simp add: digest_def crypto_laws_def)
  ultimately show "checkable c (committed K c s p code version t)" "code_matches K c s p code (committed K c s p code version t)"
    using assms(2) by (simp_all add: checkable_def code_matches_def committed_def issue_args_def hex_round_trip)
qed

lemma commit_activates:
  assumes on: "online K B R0 c" and s: "lending s" "links w = []" and v: "version \<noteq> []" "validCode code"
    and r: "subject_repr K (be_redis B) c subject purpose (db w) chal"
    and p: "pend chal = Some \<lparr>p_id = version, p_digest = issue_digest (issue_args K c subject purpose code version),
        p_pepper = ch_currentPepper c, p_lease = now + millis (PendingTTL (ch_options c)),
        p_ttl = millis (CodeTTL (ch_options c)), p_cooldown = cd\<rparr>"
    and live: "redis_now (be_redis B) (db w) < now + millis (PendingTTL (ch_options c))"
    and fresh: "map_option v_id (act chal) \<noteq> Some version"
    and c: "Commit B (Some c) True (Some (reservation_of K c subject purpose code version)) s w = (s', w', e)"
  shows "e = None \<and> (\<exists>chal'. subject_repr K (be_redis B) c subject purpose (db w') chal'
     \<and> act chal' = Some (committed K c subject purpose code version (redis_now (be_redis B) (db w)))
     \<and> answers chal' = (\<lambda>_. None))"
proof -
  let ?sp = "spec_commit version (redis_now (be_redis B) (db w)) chal"
  have code: "code \<noteq> []" using v(2) by (auto simp: validCode_def)
  have sp: "snd ?sp = ''OK''"
    "act (fst ?sp) = Some (committed K c subject purpose code version (redis_now (be_redis B) (db w)))"
    "answers (fst ?sp) = (\<lambda>_. None)"
    using fresh p live by (auto simp add: spec_commit_def committed_def)
  from Commit_served [OF on s v(1) code r] c sp(1)
  have "e = None \<and> subject_repr K (be_redis B) c subject purpose (db w') (fst ?sp)" by auto
  with sp show ?thesis by blast
qed

lemma verify_active:
  assumes on: "online K B R0 c" and s: "lending s" "links w = []" and e: "length (entropy w) \<ge> 24"
    and r: "subject_repr K (be_redis B) c subject' purpose' (db w) chal"
    and n: "normalizeSubject subject purpose = Inr (subject', purpose')" and code: "validCode code" and v: "version \<noteq> []"
    and a: "act chal = Some (committed K c subject' purpose' code version t)" "answers chal = (\<lambda>_. None)"
    and live: "redis_now (be_redis B) (db w) < t + millis (CodeTTL (ch_options c))"
    and x: "Verify K B (Some c) True subject purpose code s w = (s', w', res, err)"
  shows "res = VerifyVerified \<and> err = None
    \<and> (\<exists>chal'. subject_repr K (be_redis B) c subject' purpose' (db w') chal' \<and> act chal' = None)"
proof -
  let ?v = "committed K c subject' purpose' code version t"
  let ?sp = "verify_spec K c subject' purpose' code (next_operation w) (redis_now (be_redis B) (db w)) chal"
  note m = committed_checks [OF on v, of subject' purpose' code t]
  have sp: "snd ?sp = ''SUCCESS'' \<and> act (fst ?sp) = None"
    using a live m(2) by (simp add: verify_spec_def spec_complete_def complete_args_def answer_def)
      (simp add: committed_def)
  have ok: "\<forall>v. act chal = Some v \<longrightarrow> checkable c v" and fresh: "answers chal (next_operation w) = None"
    using a m(1) by simp_all
  from Verify_served [OF on s e r n code fresh ok] x sp show ?thesis by auto
qed

lemma whole_challenge:
  assumes on: "online K B R0 c" and clock: "clock_monotone (be_redis B)"
    and n: "normalizeSubject subject purpose = Inr (subject', purpose')"
    and r: "subject_repr K (be_redis B) c subject' purpose' (db w) chal"
    and s: "lending s" "links w = []" "lending sa" "lending sb" "lending sc"
    and b: "BeginIssue K B (Some c) True caller subject purpose s w = (s1, w1, Inr (BeginReserved rv))"
    and fresh: "map_option v_id (act chal) \<noteq> Some (rv_version rv)" "map_option p_id (pend chal) \<noteq> Some (rv_version rv)"
    and qa: "undisturbed K (be_redis B) c subject' purpose' w1 wa"
      "redis_now (be_redis B) (db wa) < redis_now (be_redis B) (db w) + millis (PendingTTL (ch_options c))"
    and cm: "Commit B (Some c) True (Some rv) sa wa = (s2, w2, e2)"
    and qb: "undisturbed K (be_redis B) c subject' purpose' w2 wb"
      "redis_now (be_redis B) (db wb) < redis_now (be_redis B) (db wa) + millis (CodeTTL (ch_options c))"
    and vf: "Verify K B (Some c) True subject purpose (rv_code rv) sb wb = (s3, w3, o3, e3)"
    and qc: "undisturbed K (be_redis B) c subject' purpose' w3 wc"
    and vf2: "Verify K B (Some c) True subject purpose code' sc wc = (s4, w4, o4, e4)"
  shows "e2 = None \<and> o3 = VerifyVerified \<and> e3 = None \<and> o4 = VerifyRejected"
proof -
  from BeginIssue_served [OF on s(1,2) clock n r b] obtain code version now where
    rv: "rv = reservation_of K c subject' purpose' code version" "validCode code" "version \<noteq> []"
    and now: "redis_now (be_redis B) (db w) \<le> now"
    and ok: "snd (spec_begin (issue_args K c subject' purpose' code version) now chal) = ''OK''"
    and r1: "subject_repr K (be_redis B) c subject' purpose' (db w1)
        (fst (spec_begin (issue_args K c subject' purpose' code version) now chal))"
    by blast
  let ?chal1 = "fst (spec_begin (issue_args K c subject' purpose' code version) now chal)"
  have vers: "rv_version rv = version" "rv_code rv = code" by (simp_all add: rv(1) reservation_of_def Let_def)
  have p1: "pend ?chal1 = Some \<lparr>p_id = version, p_digest = issue_digest (issue_args K c subject' purpose' code version),
        p_pepper = ch_currentPepper c, p_lease = now + millis (PendingTTL (ch_options c)),
        p_ttl = millis (CodeTTL (ch_options c)), p_cooldown = millis (Cooldown (ch_options c))\<rparr> \<and> act ?chal1 = act chal"
    using spec_begin_stored [OF ok] fresh(2) by (simp add: vers issue_args_def)
  have ra: "subject_repr K (be_redis B) c subject' purpose' (db wa) ?chal1" by (rule undisturbed_repr [OF qa(1) r1])
  have la: "links wa = []" "links wb = []" "links wc = []" "length (entropy wb) \<ge> 24"
    using qa(1) qb(1) qc by (simp_all add: undisturbed_def)
  have "redis_now (be_redis B) (db wa) < now + millis (PendingTTL (ch_options c))" using qa(2) now by simp
  from commit_activates [OF on s(3) la(1) rv(3,2) ra conjunct1 [OF p1] this] fresh(1) p1 cm
  obtain chal2 where e2: "e2 = None" and r2: "subject_repr K (be_redis B) c subject' purpose' (db w2) chal2"
    and a2: "act chal2 = Some (committed K c subject' purpose' code version (redis_now (be_redis B) (db wa)))"
      "answers chal2 = (\<lambda>_. None)"
    by (auto simp: vers rv(1) [symmetric])
  from verify_active [OF on s(4) la(2,4) undisturbed_repr [OF qb(1) r2] n rv(2,3) a2 qb(2)] vf
  obtain chal3 where v3: "o3 = VerifyVerified" "e3 = None"
    "subject_repr K (be_redis B) c subject' purpose' (db w3) chal3" "act chal3 = None"
    by (auto simp: vers)
  from Verify_no_active [OF on s(5) la(3) undisturbed_repr [OF qc v3(3)] v3(4) n vf2] e2 v3(1,2)
  show ?thesis by simp
qed

text \<open>
  C12. A delivered code verifies, exactly once: if \<open>BeginIssue\<close> hands out a reservation, the caller commits it
  before the pending lease runs out and the subject's code is entered before it expires, then \<open>Commit\<close> and
  \<open>Verify\<close> succeed, and every later \<open>Verify\<close> of the subject, with the same or another code, is rejected.
  Between the calls other subjects may be served; the version drawn must not repeat the one in the store.
\<close>

theorem issued_code_verifies_once:
  assumes "online K B R0 c" and "clock_monotone (be_redis B)"
    and "normalizeSubject subject purpose = Inr (subject', purpose')"
    and "subject_repr K (be_redis B) c subject' purpose' (db w) chal"
    and "lending s" "links w = []" "lending sa" "lending sb" "lending sc"
    and "BeginIssue K B (Some c) True caller subject purpose s w = (s1, w1, Inr (BeginReserved rv))"
    and "map_option v_id (act chal) \<noteq> Some (rv_version rv)" "map_option p_id (pend chal) \<noteq> Some (rv_version rv)"
    and "undisturbed K (be_redis B) c subject' purpose' w1 wa"
      "redis_now (be_redis B) (db wa) < redis_now (be_redis B) (db w) + millis (PendingTTL (ch_options c))"
    and "Commit B (Some c) True (Some rv) sa wa = (s2, w2, e2)"
    and "undisturbed K (be_redis B) c subject' purpose' w2 wb"
      "redis_now (be_redis B) (db wb) < redis_now (be_redis B) (db wa) + millis (CodeTTL (ch_options c))"
    and "Verify K B (Some c) True subject purpose (rv_code rv) sb wb = (s3, w3, o3, e3)"
    and "undisturbed K (be_redis B) c subject' purpose' w3 wc"
    and "Verify K B (Some c) True subject purpose code' sc wc = (s4, w4, o4, e4)"
  shows "e2 = None \<and> o3 = VerifyVerified \<and> e3 = None \<and> o4 = VerifyRejected"
  using assms by (rule whole_challenge)


section \<open>Verify against the abstract challenge\<close>

text \<open>
  C13. \<open>Verify\<close> refines the abstract challenge and reveals nothing else: over a Redis that answers, with a stored
  verifier that is absent or checkable, every verification of a well-formed code consumes one operation
  identifier, takes the subject's challenge to what \<open>verify_spec\<close> says, and returns \<open>VerifyVerified\<close> without error on
  SUCCESS; on a wrong, locked, expired, replaced or missing code alike it returns \<open>VerifyRejected\<close> without error.
\<close>

theorem Verify_refines:
  assumes "online K B R0 c" and "lending s" "links w = []" and "length (entropy w) \<ge> 24"
    and "subject_repr K (be_redis B) c subject' purpose' (db w) chal"
    and "normalizeSubject subject purpose = Inr (subject', purpose')" and "validCode code"
    and "answers chal (next_operation w) = None" and "\<forall>v. act chal = Some v \<longrightarrow> checkable c v"
  shows "\<exists>s' w'. Verify K B (Some c) True subject purpose code s w =
       (s', w', if snd (verify_spec K c subject' purpose' code (next_operation w) (redis_now (be_redis B) (db w)) chal) = ''SUCCESS''
                then VerifyVerified else VerifyRejected, None)
     \<and> lending s' \<and> links w' = [] \<and> entropy w' = drop 24 (entropy w)
     \<and> subject_repr K (be_redis B) c subject' purpose' (db w')
         (fst (verify_spec K c subject' purpose' code (next_operation w) (redis_now (be_redis B) (db w)) chal))"
  using Verify_served [OF assms] by (simp add: after_def)

section \<open>Faults\<close>

lemma run_text_touched:
  assumes "run_text B sc g i keys args s w = (s', w', Inr t)"
  shows "\<exists>ks. eval_script (be_redis B) i ks args (db w) = (db w', Some (RText t))"
proof -
  obtain s1 w1 r where u: "bridge_Use B sc g i keys args s w = (s1, w1, r)" by (metis prod_cases3)
  with assms obtain v where "r = Inr v" "Reply_Text v = Inr t" "w' = w1" by (auto simp: run_text_def split: sum.splits)
  then have v: "r = Inr (RText t)" "w' = w1" by (cases v; simp)+
  from bridge_Use_touched [OF u] v show ?thesis by (auto simp: touched_def)
qed

lemma storeError_Is: "errors_Is (storeError B w) (Foreign 201)"
  by (simp add: storeError_def ErrUnavailable_def split: option.split)

lemma run_text_error: "run_text B sc g i keys args s w = (s', w', Inl e) \<Longrightarrow> errors_Is e (Foreign 201)"
  by (auto simp: run_text_def storeError_Is Let_def split: sum.splits prod.splits)

lemma verifier_Read_error: "verifier_Read B c g k s w = (s', w', Inl e) \<Longrightarrow> errors_Is e (Foreign 201)"
  by (auto simp: verifier_Read_def storeError_Is Let_def split: sum.splits prod.splits)

lemma verifier_Complete_error:
  "verifier_Complete B c g k1 k2 eid ed m s w = (s', w', Inl e) \<Longrightarrow> errors_Is e (Foreign 201)"
  using run_text_error by (auto simp: verifier_Complete_def ErrUnavailable_def split: option.splits prod.splits)

lemma completeDummyVerify_error:
  "completeDummyVerify B c g k1 k2 s w = (s', w', Some e) \<Longrightarrow> errors_Is e (Foreign 201)"
  using verifier_Complete_error [of B c g k1 k2 "''!''" "hex_EncodeToString (replicate 32 (CHR 0x00))" False s w]
  by (auto simp: completeDummyVerify_def ErrUnavailable_def Let_def split: sum.splits prod.splits if_splits)

text \<open>
  What a success rests on: the script answered SUCCESS for the stored verifier, and the code matches it, unless
  the operation identifier just drawn had been answered before.
\<close>

definition proved_by_script :: "crypto \<Rightarrow> 's bridge_env \<Rightarrow> challengeRedis \<Rightarrow> string \<Rightarrow> string \<Rightarrow> string \<Rightarrow> 's \<Rightarrow> bool" where
  "proved_by_script K B c subject purpose code d' \<longleftrightarrow>
     (\<exists>state ops activeID digestHex opid d m version secret.
        eval_script (be_redis B) scriptChallengeCompleteVerify [state, ops]
          [AStr activeID, AStr digestHex, AStr opid, AInt (MaxAttempts (ch_options c)), AInt (boolInt m),
           AInt (millis (IdempotencyTTL (ch_options c)))] d = (d', Some (RText ''SUCCESS''))
      \<and> fmlookup (ch_peppers c) version = Some secret \<and> activeID \<noteq> []
      \<and> (hget (be_redis B) d ops opid = None \<longrightarrow>
           hex_DecodeString digestHex = Some (digest K secret (subject_fp K c subject purpose) activeID code)))"

lemma eval_complete_success:
  assumes "eval_script R scriptChallengeCompleteVerify ks
      [AStr aid, AStr dg, AStr opid, AInt n, AInt (boolInt m), AInt ttl] d = (d', Some (RText ''SUCCESS''))"
  shows "\<exists>state ops. ks = [state, ops] \<and> (hget R d ops opid = None \<longrightarrow> m)"
proof -
  obtain state ops where ks: "ks = [state, ops]"
    using assms by (auto simp: eval_script_def split: list.splits)
  obtain s r where x: "challengeCompleteVerify R state ops
      \<lparr>expected_id = aid, expected_digest = dg, operation_id = opid, max_attempts = n, matched = m,
       idempotency_ttl = ttl\<rparr> d = (s, r)" by fastforce
  then have "r = Some ''SUCCESS''" using assms ks by (cases m) (auto simp: eval_script_def boolInt_def)
  have "hget R d ops opid = None \<longrightarrow> m"
  proof (rule ccontr)
    assume "\<not> (hget R d ops opid = None \<longrightarrow> m)"
    then have "r \<noteq> Some ''SUCCESS''"
      using x by (simp add: challengeCompleteVerify_def remember_def Let_def split: if_split_asm option.split_asm) auto
    with \<open>r = Some ''SUCCESS''\<close> show False by simp
  qed
  with ks show ?thesis by simp
qed

lemma verifier_Complete_success:
  assumes "verifier_Complete B c g k1 k2 aid dg m s w = (s2, w2, Inr ''SUCCESS'')"
    and "hex_DecodeString dg = Some raw" and "fmlookup (ch_peppers c) version = Some secret" and "aid \<noteq> []"
    and "m = (raw = digest K secret (subject_fp K c subject purpose) aid code)"
  shows "proved_by_script K B c subject purpose code (db w2)"
proof -
  from assms(1) obtain opid rest where run: "run_text B (ch_scope c) g scriptChallengeCompleteVerify [k1, k2]
      [AStr aid, AStr dg, AStr opid, AInt (MaxAttempts (ch_options c)), AInt (boolInt m),
       AInt (millis (IdempotencyTTL (ch_options c)))] s (w\<lparr>entropy := rest\<rparr>) = (s2, w2, Inr ''SUCCESS'')"
    by (auto simp: verifier_Complete_def split: option.splits)
  have "db (w\<lparr>entropy := rest\<rparr>) = db w" by simp
  with run_text_touched [OF run] obtain ks where ev: "eval_script (be_redis B) scriptChallengeCompleteVerify ks
      [AStr aid, AStr dg, AStr opid, AInt (MaxAttempts (ch_options c)), AInt (boolInt m),
       AInt (millis (IdempotencyTTL (ch_options c)))] (db w) = (db w2, Some (RText ''SUCCESS''))" by metis
  from eval_complete_success [OF ev] obtain state ops where ks: "ks = [state, ops]"
    "hget (be_redis B) (db w) ops opid = None \<longrightarrow> m"
    by (elim exE conjE)
  have "hget (be_redis B) (db w) ops opid = None \<longrightarrow>
      hex_DecodeString dg = Some (digest K secret (subject_fp K c subject purpose) aid code)"
    using ks(2) assms(2,5) by auto
  with ev [unfolded ks(1)] assms(3,4) show ?thesis unfolding proved_by_script_def by (intro exI conjI)
qed

text \<open>One pass through the body of \<open>Verify\<close>: what each branch returns.\<close>

lemma Verify_branches:
  assumes v: "Verify K B (Some c) ctx subject purpose code s w = (s', w', res, e)" and ctx: "ctx" "validCode code"
    and n: "normalizeSubject subject purpose = Inr (subject', purpose')"
    and caps: "subjectCapabilities K (subject_fp K c subject' purpose') = Inr (g, st, qu, ops)"
  shows "(res = VerifyRejected \<and> (\<forall>x. e = Some x \<longrightarrow> errors_Is x (Foreign 201)))
     \<or> (res = VerifyVerified \<and> e = None \<and> proved_by_script K B c subject' purpose' code (db w'))"
proof -
  note unf = Verify_def Let_def subject_fp_def [symmetric]
  obtain s1 w1 rd where rd: "verifier_Read B c g st s w = (s1, w1, rd)" by (metis prod_cases3)
  obtain sd wd ed where dummy: "completeDummyVerify B c g st ops s1 w1 = (sd, wd, ed)" by (metis prod_cases3)
  have dummy_error: "errors_Is x (Foreign 201)" if "ed = Some x" for x
    using completeDummyVerify_error dummy that by blast
  show ?thesis
  proof (cases "\<exists>aid dg pv raw secret. rd = Inr [aid, dg, pv] \<and> aid \<noteq> [] \<and> hex_DecodeString dg = Some raw
      \<and> fmlookup (ch_peppers c) pv = Some secret \<and> length raw = 32")
    case False
    have "res = VerifyRejected \<and> (\<forall>x. e = Some x \<longrightarrow> x = ErrUnavailable \<or> rd = Inl x \<or> ed = Some x)"
      using v ctx n caps rd dummy False
      by (auto simp: unf split: sum.splits list.splits if_splits option.splits)
    then show ?thesis using verifier_Read_error rd dummy_error by (auto simp: ErrUnavailable_def)
  next
    case True
    then obtain aid dg pv raw secret where t: "rd = Inr [aid, dg, pv]" "aid \<noteq> []" "hex_DecodeString dg = Some raw"
      "fmlookup (ch_peppers c) pv = Some secret" "length raw = 32" by blast
    let ?m = "raw = digest K secret (subject_fp K c subject' purpose') aid code"
    obtain s2 w2 r where cp: "verifier_Complete B c g st ops aid dg ?m s1 w1 = (s2, w2, r)" by (metis prod_cases3)
    have res: "(s', w') = (s2, w2) \<and> (case r of Inl x \<Rightarrow> res = VerifyRejected \<and> e = Some x
        | Inr t \<Rightarrow> if t = ''SUCCESS'' then res = VerifyVerified \<and> e = None
                   else res = VerifyRejected \<and> (e = None \<or> e = Some ErrUnavailable))"
      using v ctx n caps rd t cp by (auto simp: unf split: sum.splits if_splits)
    show ?thesis
    proof (cases r)
      case (Inl x)
      with res verifier_Complete_error [OF cp [unfolded Inl]] show ?thesis by auto
    next
      case (Inr t')
      show ?thesis
      proof (cases "t' = ''SUCCESS''")
        case True
        have "proved_by_script K B c subject' purpose' code (db w2)"
          by (rule verifier_Complete_success [OF cp [unfolded Inr True] t(3,4,2) refl])
        with res Inr True show ?thesis by auto
      next
        case False
        with res Inr show ?thesis by (auto simp: ErrUnavailable_def)
      qed
    qed
  qed
qed



section \<open>Accepted options\<close>

text \<open>
  A configuration \<open>NewRedis\<close> accepts meets every precondition of the scripts: all limits are positive, every
  duration is a positive whole number of milliseconds, a reservation expires before the code it reserves, the
  current pepper is known, and the verifier secrets are plausible, pairwise different and never the subject key.
\<close>

theorem NewRedis_configuration:
  assumes "NewRedis owner sc op = Inr c"
  shows "MaxIssues (ch_options c) > 0 \<and> MaxAttempts (ch_options c) > 0 \<and> CallerLimit (ch_options c) > 0
     \<and> GlobalLimit (ch_options c) > 0
     \<and> (\<forall>d \<in> {CodeTTL (ch_options c), PendingTTL (ch_options c), Cooldown (ch_options c), QuotaWindow (ch_options c),
            IdempotencyTTL (ch_options c), CallerWindow (ch_options c), GlobalWindow (ch_options c)}.
          millis d > 0 \<and> d = millis d * ms)
     \<and> millis (PendingTTL (ch_options c)) < millis (CodeTTL (ch_options c))
     \<and> (\<exists>secret. fmlookup (ch_peppers c) (ch_currentPepper c) = Some secret)
     \<and> (\<forall>v secret. fmlookup (ch_peppers c) v = Some secret \<longrightarrow>
          plausibleSecret secret \<and> secret \<noteq> SubjectKey (ch_options c))
     \<and> (\<forall>v v' secret. fmlookup (ch_peppers c) v = Some secret \<and> fmlookup (ch_peppers c) v' = Some secret \<longrightarrow> v = v')"
  by (rule NewRedis_facts [OF assms])

section \<open>A concrete run\<close>

text \<open>Hash functions that keep the last 32 bytes of their input, a store in memory and an entropy source of zeros.\<close>

definition tail_hash :: "string \<Rightarrow> string" where
  "tail_hash x = take 32 (rev x @ replicate 32 (CHR 0x00))"

definition demo_crypto :: crypto where
  "demo_crypto = \<lparr>sha256 = tail_hash, hmac_sha256 = (\<lambda>k. tail_hash)\<rparr>"

lemma demo_crypto_laws: "crypto_laws demo_crypto"
  by (simp add: crypto_laws_def demo_crypto_def tail_hash_def min_def)

definition demo_options :: options where
  "demo_options =
     \<lparr>SubjectKey = ''abcdefghijklmnopqrstuvwxyz012345'',
      Peppers = [\<lparr>pep_version = ''v1'', pep_secret = ''ABCDEFGHIJKLMNOPQRSTUVWXYZ012345''\<rparr>],
      CodeTTL = 0, PendingTTL = 0, Cooldown = 0, QuotaWindow = 0, MaxIssues = 0, MaxAttempts = 0, IdempotencyTTL = 0,
      CallerWindow = 0, CallerLimit = 0, GlobalWindow = 0, GlobalLimit = 0\<rparr>"

definition demo_challenge :: challengeRedis where
  "demo_challenge =
     \<lparr>ch_scope = demo_scope ''bus'' 0, ch_owner = 7,
      ch_peppers = fmupd ''v1'' ''ABCDEFGHIJKLMNOPQRSTUVWXYZ012345'' fmempty,
      ch_currentPepper = ''v1'', ch_options = defaultOptions demo_options\<rparr>"

lemma demo_options_valid: "validateOptions (defaultOptions demo_options) = None"
  by code_simp

lemma demo_NewRedis: "NewRedis 7 (Some (demo_scope ''bus'' 0)) demo_options = Inr demo_challenge"
proof -
  have "Peppers (defaultOptions demo_options) = [\<lparr>pep_version = ''v1'', pep_secret = ''ABCDEFGHIJKLMNOPQRSTUVWXYZ012345''\<rparr>]"
    by (simp add: defaultOptions_def demo_options_def)
  then show ?thesis using demo_options_valid by (simp add: NewRedis_def Let_def demo_challenge_def)
qed

definition demo_bridge :: "mem bridge_env" where
  "demo_bridge =
     \<lparr>be_redis = mem_redis, be_atomic = True, be_cause = (\<lambda>w. None), be_now = (\<lambda>w. None),
      be_use = \<lparr>use_cause = (\<lambda>w. None), use_ctx_err = (\<lambda>w. None), during_use = id\<rparr>\<rparr>"

lemma demo_online: "online demo_crypto demo_bridge demo_redis_resource demo_challenge"
proof -
  have "made_by demo_redis_resource (ch_scope demo_challenge)" using demo_made_by by (simp add: demo_challenge_def)
  moreover have "ch_scope demo_challenge = demo_scope ''bus'' 0" by (simp add: demo_challenge_def)
  ultimately show ?thesis
    using demo_crypto_laws mem_redis_laws demo_NewRedis unfolding online_def
    by (auto simp: demo_bridge_def served_def)
qed

lemma demo_redis [simp]: "be_redis demo_bridge = mem_redis"
  by (simp add: demo_bridge_def)

lemma demo_clock: "clock_monotone (be_redis demo_bridge)"
  by (simp add: clock_monotone_def)

definition demo_lent :: lifecycleState where
  "demo_lent = newLifecycleState\<lparr>r_started := True, r_client := True\<rparr>"

lemma demo_lending: "lending demo_lent"
  by (simp add: demo_lent_def lending_def newLifecycleState_def)

definition demo_world :: "mem cworld" where
  "demo_world = \<lparr>db = mem_empty, links = [], entropy = replicate 123 (CHR 0x00), captured = None\<rparr>"

lemma demo_world_simps [simp]: "links demo_world = []" "db demo_world = mem_empty"
  by (simp_all add: demo_world_def)

lemma demo_subject: "normalizeSubject '' a@b.c '' ''Login'' = Inr (''a@b.c'', ''login'')"
  by code_simp

lemma demo_world_repr:
  "subject_repr demo_crypto (be_redis demo_bridge) demo_challenge ''a@b.c'' ''login'' (db demo_world) no_challenge"
  by (simp add: subject_repr_def repr_def mem_redis_def mem_empty_def no_challenge_def)


lemma replicate_3_4: "replicate (3 + n) x = x # x # x # replicate n x" "replicate (4 + n) x = x # x # x # x # replicate n x"
  by (simp_all add: numeral_eq_Suc)

lemma base64_zeros: "base64_EncodeToString (replicate (3 * n) (CHR 0x00)) = replicate (4 * n) (CHR ''A'')"
proof (induction n)
  case (Suc n)
  have "base64_EncodeToString (CHR 0x00 # CHR 0x00 # CHR 0x00 # s) = ''AAAA'' @ base64_EncodeToString s" for s
    by (simp add: base64_char_def base64_alphabet_def)
  with Suc show ?case by (simp add: replicate_3_4)
qed simp

lemma demo_zeros: "base64_EncodeToString (replicate 24 (CHR 0x00)) = replicate 32 (CHR ''A'')" "sprintf_06d 0 = ''000000''"
proof -
  show "base64_EncodeToString (replicate 24 (CHR 0x00)) = replicate 32 (CHR ''A'')" using base64_zeros [of 8] by simp
  have "digit_char 0 = CHR ''0''" by code_simp
  then have "nat_dec 0 = ''0''" by (simp add: nat_dec.simps)
  then show "sprintf_06d 0 = ''000000''" by (simp add: sprintf_06d_def numeral_eq_Suc)
qed

lemma demo_draws:
  "randomCode (drop 24 (entropy demo_world)) = Some (''000000'', replicate 96 (CHR 0x00))"
  "randomID (replicate 96 (CHR 0x00)) = Some (replicate 32 (CHR ''A''), replicate 72 (CHR 0x00))"
proof -
  have "drop 24 (entropy demo_world) = CHR 0x00 # CHR 0x00 # CHR 0x00 # replicate 96 (CHR 0x00)"
    using replicate_add [of 3 96 "CHR 0x00"] by (simp add: demo_world_def numeral_3_eq_3)
  moreover have "of_char (CHR 0x00) = (0 :: nat)" by simp
  ultimately show "randomCode (drop 24 (entropy demo_world)) = Some (''000000'', replicate 96 (CHR 0x00))"
    by (simp add: randomCode_def demo_zeros)
  show "randomID (replicate 96 (CHR 0x00)) = Some (replicate 32 (CHR ''A''), replicate 72 (CHR 0x00))"
    by (simp add: randomID_def demo_zeros)
qed

lemma demo_run_challenge:
  "\<exists>s1 w1 s2 w2 e2.
     BeginIssue demo_crypto demo_bridge (Some demo_challenge) True ''ip'' '' a@b.c '' ''Login'' demo_lent demo_world =
       (s1, w1, Inr (BeginReserved (reservation_of demo_crypto demo_challenge ''a@b.c'' ''login'' ''000000'' (replicate 32 (CHR ''A'')))))
   \<and> lending s1 \<and> undisturbed demo_crypto (be_redis demo_bridge) demo_challenge ''a@b.c'' ''login'' w1 w1
   \<and> Commit demo_bridge (Some demo_challenge) True
       (Some (reservation_of demo_crypto demo_challenge ''a@b.c'' ''login'' ''000000'' (replicate 32 (CHR ''A'')))) s1 w1 = (s2, w2, e2)
   \<and> undisturbed demo_crypto (be_redis demo_bridge) demo_challenge ''a@b.c'' ''login'' w2 w2"
proof -
  let ?v = "replicate 32 (CHR ''A'')"
  let ?rv = "reservation_of demo_crypto demo_challenge ''a@b.c'' ''login'' ''000000'' ?v"
  have empty: "\<forall>k m. zscore (be_redis demo_bridge) (db demo_world) k m = None" by (simp add: mem_redis_def mem_empty_def)
  have caller: "strings_TrimSpace ''ip'' \<noteq> []" "length (strings_TrimSpace ''ip'') \<le> 512" by (code_simp)+
  from BeginIssue_first [OF demo_online demo_lending _ demo_subject caller demo_world_repr empty _ _ demo_draws] obtain s1 w1
    where b: "BeginIssue demo_crypto demo_bridge (Some demo_challenge) True ''ip'' '' a@b.c '' ''Login'' demo_lent demo_world =
        (s1, w1, Inr (BeginReserved ?rv))" and w1: "lending s1" "links w1 = []" "entropy w1 = replicate 72 (CHR 0x00)"
    by (auto simp: demo_world_def)
  from BeginIssue_served [OF demo_online demo_lending _ demo_clock demo_subject demo_world_repr b] obtain chal
    where r1: "subject_repr demo_crypto (be_redis demo_bridge) demo_challenge ''a@b.c'' ''login'' (db w1) chal" by auto
  have "?v \<noteq> []" "''000000'' \<noteq> []" by simp_all
  from Commit_served [OF demo_online w1(1,2) this r1] obtain s2 w2 e2
    where c: "Commit demo_bridge (Some demo_challenge) True (Some ?rv) s1 w1 = (s2, w2, e2)"
      and w2: "links w2 = []" "entropy w2 = replicate 72 (CHR 0x00)"
    using w1(3) by (auto simp: after_def)
  have q: "undisturbed demo_crypto (be_redis demo_bridge) demo_challenge ''a@b.c'' ''login'' w1 w1"
    "undisturbed demo_crypto (be_redis demo_bridge) demo_challenge ''a@b.c'' ''login'' w2 w2"
    using w1(2,3) w2 by (simp_all add: undisturbed_def)
  from b w1(1) c q show ?thesis by blast
qed


lemma issued_code_verifies_once_witness:
  "\<exists>s1 w1 s2 w2 s3 w3 s4 w4 e4.
     BeginIssue demo_crypto demo_bridge (Some demo_challenge) True ''ip'' '' a@b.c '' ''Login'' demo_lent demo_world =
       (s1, w1, Inr (BeginReserved (reservation_of demo_crypto demo_challenge ''a@b.c'' ''login'' ''000000'' (replicate 32 (CHR ''A'')))))
   \<and> Commit demo_bridge (Some demo_challenge) True
       (Some (reservation_of demo_crypto demo_challenge ''a@b.c'' ''login'' ''000000'' (replicate 32 (CHR ''A'')))) s1 w1 = (s2, w2, None)
   \<and> Verify demo_crypto demo_bridge (Some demo_challenge) True '' a@b.c '' ''Login'' ''000000'' demo_lent w2 = (s3, w3, VerifyVerified, None)
   \<and> Verify demo_crypto demo_bridge (Some demo_challenge) True '' a@b.c '' ''Login'' ''000000'' demo_lent
       (w3\<lparr>links := [], entropy := replicate 24 (CHR 0x00)\<rparr>) = (s4, w4, VerifyRejected, e4)"
proof -
  let ?rv = "reservation_of demo_crypto demo_challenge ''a@b.c'' ''login'' ''000000'' (replicate 32 (CHR ''A''))"
  obtain s1 w1 s2 w2 e2 where b: "BeginIssue demo_crypto demo_bridge (Some demo_challenge) True ''ip'' '' a@b.c '' ''Login''
      demo_lent demo_world = (s1, w1, Inr (BeginReserved ?rv))"
    and l: "lending s1" and qa: "undisturbed demo_crypto (be_redis demo_bridge) demo_challenge ''a@b.c'' ''login'' w1 w1"
    and c: "Commit demo_bridge (Some demo_challenge) True (Some ?rv) s1 w1 = (s2, w2, e2)"
    and qb: "undisturbed demo_crypto (be_redis demo_bridge) demo_challenge ''a@b.c'' ''login'' w2 w2"
    using demo_run_challenge by blast
  obtain s3 w3 o3 e3 where v: "Verify demo_crypto demo_bridge (Some demo_challenge) True '' a@b.c '' ''Login'' (rv_code ?rv)
      demo_lent w2 = (s3, w3, o3, e3)" by (metis prod_cases4)
  let ?wc = "w3\<lparr>links := [], entropy := replicate 24 (CHR 0x00)\<rparr>"
  have qc: "undisturbed demo_crypto (be_redis demo_bridge) demo_challenge ''a@b.c'' ''login'' w3 ?wc" by (simp add: undisturbed_def)
  obtain s4 w4 o4 e4 where v2: "Verify demo_crypto demo_bridge (Some demo_challenge) True '' a@b.c '' ''Login'' ''000000''
      demo_lent ?wc = (s4, w4, o4, e4)" by (metis prod_cases4)
  have code: "rv_code ?rv = ''000000''" by (simp add: reservation_of_def Let_def)
  have none: "map_option v_id (act no_challenge) \<noteq> Some (rv_version ?rv)" "map_option p_id (pend no_challenge) \<noteq> Some (rv_version ?rv)"
    by (simp_all add: no_challenge_def)
  have t: "redis_now (be_redis demo_bridge) (db u) < redis_now (be_redis demo_bridge) (db u') + millis (PendingTTL (ch_options demo_challenge))"
    "redis_now (be_redis demo_bridge) (db u) < redis_now (be_redis demo_bridge) (db u') + millis (CodeTTL (ch_options demo_challenge))"
    for u u' :: "mem cworld"
    using online_millis(5,6) [OF demo_online] by simp_all
  have "e2 = None \<and> o3 = VerifyVerified \<and> e3 = None \<and> o4 = VerifyRejected"
    by (rule issued_code_verifies_once [OF demo_online demo_clock demo_subject demo_world_repr demo_lending _ l demo_lending
        demo_lending b none qa t(1) c qb t(2) v qc v2]) simp
  with b c v v2 code show ?thesis by auto
qed

lemma demo_active_world:
  "\<exists>(w :: mem cworld) chal. links w = [] \<and> 24 \<le> length (entropy w)
     \<and> subject_repr demo_crypto (be_redis demo_bridge) demo_challenge ''a@b.c'' ''login'' (db w) chal
     \<and> act chal = Some (committed demo_crypto demo_challenge ''a@b.c'' ''login'' ''000000'' (replicate 32 (CHR ''A'')) 1000000)
     \<and> answers chal = (\<lambda>_. None)"
proof -
  let ?v = "replicate 32 (CHR ''A'')"
  let ?rv = "reservation_of demo_crypto demo_challenge ''a@b.c'' ''login'' ''000000'' ?v"
  obtain s1 w1 s2 w2 e2 where b: "BeginIssue demo_crypto demo_bridge (Some demo_challenge) True ''ip'' '' a@b.c '' ''Login''
      demo_lent demo_world = (s1, w1, Inr (BeginReserved ?rv))"
    and l: "lending s1" and qa: "undisturbed demo_crypto (be_redis demo_bridge) demo_challenge ''a@b.c'' ''login'' w1 w1"
    and c: "Commit demo_bridge (Some demo_challenge) True (Some ?rv) s1 w1 = (s2, w2, e2)"
    and qb: "undisturbed demo_crypto (be_redis demo_bridge) demo_challenge ''a@b.c'' ''login'' w2 w2"
    using demo_run_challenge by blast
  from BeginIssue_served [OF demo_online demo_lending _ demo_clock demo_subject demo_world_repr b] obtain code version now where
    rv: "?rv = reservation_of demo_crypto demo_challenge ''a@b.c'' ''login'' code version" "validCode code"
    and now: "1000000 \<le> now"
    and ok: "snd (spec_begin (issue_args demo_crypto demo_challenge ''a@b.c'' ''login'' code version) now no_challenge) = ''OK''"
    and r1: "subject_repr demo_crypto (be_redis demo_bridge) demo_challenge ''a@b.c'' ''login'' (db w1)
        (fst (spec_begin (issue_args demo_crypto demo_challenge ''a@b.c'' ''login'' code version) now no_challenge))"
    by auto
  have cv: "code = ''000000''" "version = ?v" using rv(1) by (simp_all add: reservation_of_def Let_def)
  let ?a = "issue_args demo_crypto demo_challenge ''a@b.c'' ''login'' ''000000'' ?v"
  have p: "pend (fst (spec_begin ?a now no_challenge)) = Some \<lparr>p_id = ?v, p_digest = issue_digest ?a, p_pepper = ch_currentPepper demo_challenge,
      p_lease = now + millis (PendingTTL (ch_options demo_challenge)), p_ttl = millis (CodeTTL (ch_options demo_challenge)),
      p_cooldown = millis (Cooldown (ch_options demo_challenge))\<rparr> \<and> act (fst (spec_begin ?a now no_challenge)) = None"
    using spec_begin_stored [OF ok [unfolded cv]] by (simp add: no_challenge_def issue_args_def)
  have live: "redis_now (be_redis demo_bridge) (db w1) < now + millis (PendingTTL (ch_options demo_challenge))"
    using now online_millis(5) [OF demo_online] by simp
  have "links w1 = []" using qa by (simp add: undisturbed_def)
  from commit_activates [OF demo_online l this _ _ r1 [unfolded cv] conjunct1 [OF p] live _ c] rv(2) p
  obtain chal where chal: "subject_repr demo_crypto (be_redis demo_bridge) demo_challenge ''a@b.c'' ''login'' (db w2) chal"
    "act chal = Some (committed demo_crypto demo_challenge ''a@b.c'' ''login'' ''000000'' ?v 1000000)" "answers chal = (\<lambda>_. None)"
    by (auto simp: cv)
  have "links w2 = []" "24 \<le> length (entropy w2)" using qb by (simp_all add: undisturbed_def)
  with chal show ?thesis by blast
qed

lemma Verify_refines_witness:
  "\<exists>w s' w'. Verify demo_crypto demo_bridge (Some demo_challenge) True '' a@b.c '' ''Login'' ''123456'' demo_lent w =
     (s', w', VerifyRejected, None) \<and> lending s'"
proof -
  obtain w :: "mem cworld" and chal where w: "links w = []" "24 \<le> length (entropy w)"
    and r: "subject_repr demo_crypto (be_redis demo_bridge) demo_challenge ''a@b.c'' ''login'' (db w) chal"
    and a: "act chal = Some (committed demo_crypto demo_challenge ''a@b.c'' ''login'' ''000000'' (replicate 32 (CHR ''A'')) 1000000)"
      "answers chal = (\<lambda>_. None)"
    using demo_active_world by blast
  have code: "validCode ''123456''" by code_simp
  have fresh: "answers chal (next_operation w) = None" and ok: "\<forall>v. act chal = Some v \<longrightarrow> checkable demo_challenge v"
    using a committed_checks(1) [OF demo_online, of "replicate 32 (CHR ''A'')"] by simp_all
  have "\<not> code_matches demo_crypto demo_challenge ''a@b.c'' ''login'' ''123456''
      (committed demo_crypto demo_challenge ''a@b.c'' ''login'' ''000000'' (replicate 32 (CHR ''A'')) 1000000)"
    by (simp add: code_matches_def committed_def issue_args_def hex_round_trip digest_def digest_input_def demo_crypto_def
        tail_hash_def demo_challenge_def)
  then have "snd (verify_spec demo_crypto demo_challenge ''a@b.c'' ''login'' ''123456'' (next_operation w)
      (redis_now (be_redis demo_bridge) (db w)) chal) \<noteq> ''SUCCESS''"
    using a by (simp add: verify_spec_def spec_complete_def complete_args_def answer_def)
  with Verify_refines [OF demo_online demo_lending w r demo_subject code fresh ok] show ?thesis by auto
qed


lemma NewRedis_configuration_witness:
  "millis (PendingTTL (ch_options demo_challenge)) < millis (CodeTTL (ch_options demo_challenge))"
  using NewRedis_configuration [OF demo_NewRedis] by blast

end
