(* ===== verification/Cache_Coherence.thy ===== *)
theory Cache_Coherence
  imports Go_Prelude
begin

text \<open>
  Loads and invalidations of one dataset by any number of goroutines of any number of cache instances
  (\<open>cache.go\<close>: \<open>execute\<close>, \<open>generation\<close>, \<open>read\<close>, \<open>write\<close>, \<open>Invalidate\<close>), interleaved at their accesses to the
  provider, to the authority and to the pending generation of their instance. A result is the version of
  the database it was loaded from. The fields \<open>published\<close>, \<open>marked\<close> and \<open>floor_of\<close> are history: when a
  generation was first written, when a token was drawn, and the version at the last invalidation.
\<close>

record cflight =
  f_instance :: nat
  f_query :: string
  f_epoch :: nat
  f_floor :: nat

datatype cpoint =
  Off
| Reading cflight
| Repairing cflight string
| Asking cflight
| Looking cflight string
| Loading cflight string
| Storing cflight string nat
| Bypassing cflight
| Finished cflight nat bool
| Setting nat string
| Clearing "cflight option" nat string

record csys =
  version :: nat
  provider_gen :: string
  entries :: "string \<times> string \<Rightarrow> nat option"
  pending_gen :: "nat \<Rightarrow> string option"
  epoch_no :: "nat \<Rightarrow> nat"
  points :: "nat \<Rightarrow> cpoint"
  published :: "string \<Rightarrow> nat option"
  marked :: "string \<Rightarrow> nat option"
  floor_of :: "nat \<Rightarrow> nat"

definition goto :: "nat \<Rightarrow> cpoint \<Rightarrow> csys \<Rightarrow> csys" where
  "goto t p S = S\<lparr>points := (points S)(t := p)\<rparr>"

text \<open>The version the current generation is at least as recent as.\<close>

definition gen_floor :: "csys \<Rightarrow> nat" where
  "gen_floor S = (case published S (provider_gen S) of None \<Rightarrow> 0 | Some v \<Rightarrow> v)"

text \<open>
  \<open>setGeneration\<close> has reached Redis. With \<open>strict\<close> a generation that another one has replaced is never
  written again.
\<close>

definition publish :: "bool \<Rightarrow> string \<Rightarrow> csys \<Rightarrow> csys option" where
  "publish strict tok S =
     (if provider_gen S = tok then Some S
      else if published S tok = None then
        Some (S\<lparr>provider_gen := tok, published := (published S)(tok \<mapsto> version S)\<rparr>)
      else if strict then None
      else Some (S\<lparr>provider_gen := tok\<rparr>))"

definition clear_pending :: "nat \<Rightarrow> string \<Rightarrow> csys \<Rightarrow> csys" where
  "clear_pending i tok S = (if pending_gen S i = Some tok then S\<lparr>pending_gen := (pending_gen S)(i := None)\<rparr> else S)"

text \<open>The critical section of \<open>Invalidate\<close>.\<close>

definition mark_invalid :: "nat \<Rightarrow> string \<Rightarrow> csys \<Rightarrow> csys" where
  "mark_invalid i tok S =
     S\<lparr>epoch_no := (epoch_no S)(i := Suc (epoch_no S i)), pending_gen := (pending_gen S)(i := Some tok),
       marked := (marked S)(tok \<mapsto> version S), floor_of := (floor_of S)(i := version S)\<rparr>"

definition new_flight :: "nat \<Rightarrow> string \<Rightarrow> csys \<Rightarrow> cflight" where
  "new_flight i q S =
     \<lparr>f_instance = i, f_query = q, f_epoch = epoch_no S i, f_floor = max (floor_of S i) (gen_floor S)\<rparr>"

fun flight_of :: "cpoint \<Rightarrow> cflight option" where
  "flight_of (Reading f) = Some f"
| "flight_of (Repairing f tok) = Some f"
| "flight_of (Asking f) = Some f"
| "flight_of (Looking f g) = Some f"
| "flight_of (Loading f g) = Some f"
| "flight_of (Storing f g v) = Some f"
| "flight_of (Bypassing f) = Some f"
| "flight_of (Finished f v hit) = Some f"
| "flight_of (Clearing o1 i tok) = o1"
| "flight_of _ = None"

inductive cstep :: "bool \<Rightarrow> csys \<Rightarrow> csys \<Rightarrow> bool" for strict where
  c_commit: "cstep strict S (S\<lparr>version := Suc (version S)\<rparr>)"
| c_expire: "cstep strict S (S\<lparr>entries := (entries S)(x := None)\<rparr>)"
| c_load: "points S t = Off \<Longrightarrow> cstep strict S (goto t (Reading (new_flight i q S)) S)"
| c_pending: "points S t = Reading f \<Longrightarrow>
    cstep strict S (goto t (case pending_gen S (f_instance f) of None \<Rightarrow> Asking f | Some tok \<Rightarrow> Repairing f tok) S)"
| c_repaired: "points S t = Repairing f tok \<Longrightarrow> publish strict tok S = Some S' \<Longrightarrow>
    cstep strict S (goto t (Clearing (Some f) (f_instance f) tok) S')"
| c_repair_lost: "points S t = Repairing f tok \<Longrightarrow> publish strict tok S = Some S' \<Longrightarrow>
    cstep strict S (goto t (Bypassing f) S')"
| c_bypass: "points S t \<in> {Repairing f tok, Asking f, Looking f g} \<Longrightarrow> cstep strict S (goto t (Bypassing f) S)"
| c_cleared: "points S t = Clearing o1 i tok \<Longrightarrow>
    cstep strict S (goto t (case o1 of None \<Rightarrow> Off | Some f \<Rightarrow> Asking f) (clear_pending i tok S))"
| c_asked: "points S t = Asking f \<Longrightarrow> cstep strict S (goto t (Looking f (provider_gen S)) S)"
| c_hit: "points S t = Looking f g \<Longrightarrow> entries S (g, f_query f) = Some v \<Longrightarrow>
    cstep strict S (goto t (Finished f v True) S)"
| c_miss: "points S t = Looking f g \<Longrightarrow> cstep strict S (goto t (Loading f g) S)"
| c_loaded: "points S t = Loading f g \<Longrightarrow> cstep strict S (goto t (Storing f g (version S)) S)"
| c_stored: "points S t = Storing f g v \<Longrightarrow>
    cstep strict S (goto t (Finished f v False) (S\<lparr>entries := (entries S)((g, f_query f) \<mapsto> v)\<rparr>))"
| c_not_stored: "points S t = Storing f g v \<Longrightarrow> cstep strict S (goto t (Finished f v False) S)"
| c_authority: "points S t = Bypassing f \<Longrightarrow> cstep strict S (goto t (Finished f (version S) False) S)"
| c_mark: "points S t = Off \<Longrightarrow> marked S tok = None \<Longrightarrow> published S tok = None \<Longrightarrow>
    cstep strict S (goto t (Setting i tok) (mark_invalid i tok S))"
| c_set: "points S t = Setting i tok \<Longrightarrow> publish strict tok S = Some S' \<Longrightarrow>
    cstep strict S (goto t (Clearing None i tok) S')"
| c_set_lost: "points S t = Setting i tok \<Longrightarrow> publish strict tok S = Some S' \<Longrightarrow> cstep strict S (goto t Off S')"
| c_set_failed: "points S t = Setting i tok \<Longrightarrow> cstep strict S (goto t Off S)"
| c_ended: "points S t \<in> {Repairing f tok, Asking f, Looking f g, Loading f g, Storing f g v, Bypassing f, Finished f v hit} \<Longrightarrow>
    cstep strict S (goto t Off S)"

text \<open>A provider without keys: the generation is \<open>base\<close>.\<close>

definition cinitial :: "nat \<Rightarrow> csys" where
  "cinitial v =
     \<lparr>version = v, provider_gen = ''base'', entries = (\<lambda>_. None), pending_gen = (\<lambda>_. None), epoch_no = (\<lambda>_. 0),
      points = (\<lambda>_. Off), published = [''base'' \<mapsto> v], marked = (\<lambda>_. None), floor_of = (\<lambda>_. v)\<rparr>"

definition creachable :: "bool \<Rightarrow> csys \<Rightarrow> bool" where
  "creachable strict S \<longleftrightarrow> (\<exists>v. (cstep strict)\<^sup>*\<^sup>* (cinitial v) S)"

section \<open>The invariant\<close>

definition reached :: "nat \<Rightarrow> nat option \<Rightarrow> bool" where
  "reached n o1 \<longleftrightarrow> (\<exists>p. o1 = Some p \<and> n \<le> p)"

fun cpoint_ok :: "csys \<Rightarrow> cpoint \<Rightarrow> bool" where
  "cpoint_ok S (Reading f) = (f_floor f \<le> max (floor_of S (f_instance f)) (gen_floor S))"
| "cpoint_ok S (Repairing f tok) = (\<exists>m. marked S tok = Some m \<and> f_floor f \<le> max m (gen_floor S))"
| "cpoint_ok S (Asking f) = (f_floor f \<le> gen_floor S)"
| "cpoint_ok S (Looking f g) = reached (f_floor f) (published S g)"
| "cpoint_ok S (Loading f g) = reached (f_floor f) (published S g)"
| "cpoint_ok S (Storing f g v) = (\<exists>p. published S g = Some p \<and> f_floor f \<le> p \<and> p \<le> v)"
| "cpoint_ok S (Bypassing f) = (f_floor f \<le> version S)"
| "cpoint_ok S (Finished f v hit) = (f_floor f \<le> v)"
| "cpoint_ok S (Setting i tok) = (marked S tok \<noteq> None)"
| "cpoint_ok S (Clearing o1 i tok) =
     (published S tok \<noteq> None \<and> marked S tok \<noteq> None \<and> (\<forall>f. o1 = Some f \<longrightarrow> f_floor f \<le> gen_floor S))"
| "cpoint_ok S Off = True"

definition flight_ok :: "csys \<Rightarrow> cpoint \<Rightarrow> bool" where
  "flight_ok S p \<longleftrightarrow> (\<forall>f. flight_of p = Some f \<longrightarrow>
     f_epoch f \<le> epoch_no S (f_instance f)
     \<and> (f_epoch f = epoch_no S (f_instance f) \<longrightarrow> floor_of S (f_instance f) \<le> f_floor f)
     \<and> f_floor f \<le> version S)"

definition csys_ok :: "csys \<Rightarrow> bool" where
  "csys_ok S \<longleftrightarrow>
     published S (provider_gen S) \<noteq> None
   \<and> (\<forall>g p. published S g = Some p \<longrightarrow> p \<le> gen_floor S)
   \<and> gen_floor S \<le> version S
   \<and> (\<forall>g q v. entries S (g, q) = Some v \<longrightarrow> (\<exists>p. published S g = Some p \<and> p \<le> v))
   \<and> (\<forall>i tok. pending_gen S i = Some tok \<longrightarrow> marked S tok = Some (floor_of S i))
   \<and> (\<forall>i. pending_gen S i = None \<longrightarrow> floor_of S i \<le> gen_floor S)
   \<and> (\<forall>i. floor_of S i \<le> version S)
   \<and> (\<forall>tok m. marked S tok = Some m \<longrightarrow> m \<le> version S \<and> (\<forall>p. published S tok = Some p \<longrightarrow> m \<le> p))"

definition cinv :: "csys \<Rightarrow> bool" where
  "cinv S \<longleftrightarrow> csys_ok S \<and> (\<forall>t. cpoint_ok S (points S t) \<and> flight_ok S (points S t))"


definition grows :: "csys \<Rightarrow> csys \<Rightarrow> bool" where
  "grows S S' \<longleftrightarrow>
     version S \<le> version S' \<and> gen_floor S \<le> gen_floor S'
   \<and> (\<forall>g p. published S g = Some p \<longrightarrow> published S' g = Some p)
   \<and> (\<forall>g p. marked S g = Some p \<longrightarrow> marked S' g = Some p)
   \<and> (\<forall>i. floor_of S i \<le> floor_of S' i)
   \<and> (\<forall>i. epoch_no S i < epoch_no S' i \<or> epoch_no S i = epoch_no S' i \<and> floor_of S i = floor_of S' i)"

lemma grows_refl [simp]: "grows S S" by (simp add: grows_def)

lemma growsD:
  assumes "grows S S'"
  shows "version S \<le> version S'" "gen_floor S \<le> gen_floor S'" "published S g = Some p \<Longrightarrow> published S' g = Some p"
    "marked S g = Some p \<Longrightarrow> marked S' g = Some p" "floor_of S i \<le> floor_of S' i"
    "epoch_no S i < epoch_no S' i \<or> epoch_no S i = epoch_no S' i \<and> floor_of S i = floor_of S' i"
  using assms by (auto simp: grows_def)

lemma cpoint_ok_grows:
  assumes g: "grows S S'" and ok: "cpoint_ok S p"
  shows "cpoint_ok S' p"
proof (cases p)
  case (Reading f)
  with ok growsD(2) [OF g] growsD(5) [OF g, of "f_instance f"] show ?thesis by (simp add: le_max_iff_disj) linarith
next
  case (Repairing f tok)
  with ok growsD(2) [OF g] growsD(4) [OF g] show ?thesis by (auto simp: le_max_iff_disj intro: order_trans)
next
  case (Clearing o1 i tok)
  with ok growsD(2) [OF g] growsD(3,4) [OF g] show ?thesis by (auto intro: order_trans)
next
  case (Setting i tok)
  with ok growsD(4) [OF g] show ?thesis by auto
next
  case (Asking f)
  with ok growsD(2) [OF g] show ?thesis by simp
next
  case (Bypassing f)
  with ok growsD(1) [OF g] show ?thesis by simp
qed (use ok growsD(3) [OF g] in \<open>auto simp: reached_def\<close>)

lemma flight_ok_grows:
  assumes g: "grows S S'" and ok: "flight_ok S p"
  shows "flight_ok S' p"
  unfolding flight_ok_def
proof (intro allI impI)
  fix f assume f: "flight_of p = Some f"
  note o = ok [unfolded flight_ok_def, rule_format, OF f] and e = growsD(6) [OF g, of "f_instance f"]
  show "f_epoch f \<le> epoch_no S' (f_instance f)
     \<and> (f_epoch f = epoch_no S' (f_instance f) \<longrightarrow> floor_of S' (f_instance f) \<le> f_floor f) \<and> f_floor f \<le> version S'"
    using o e growsD(1) [OF g] by auto
qed

lemma goto_simps [simp]:
  "version (goto t p S) = version S" "provider_gen (goto t p S) = provider_gen S" "entries (goto t p S) = entries S"
  "pending_gen (goto t p S) = pending_gen S" "epoch_no (goto t p S) = epoch_no S" "published (goto t p S) = published S"
  "marked (goto t p S) = marked S" "floor_of (goto t p S) = floor_of S" "points (goto t p S) = (points S)(t := p)"
  by (simp_all add: goto_def)

lemma gen_floor_goto [simp]: "gen_floor (goto t p S) = gen_floor S" by (simp add: gen_floor_def)

lemma csys_ok_goto [simp]: "csys_ok (goto t p S) = csys_ok S" by (simp add: csys_ok_def)

lemma grows_goto [simp]: "grows S (goto t p S') = grows S S'" by (simp add: grows_def)

lemma flight_ok_goto [simp]: "flight_ok (goto t p S) q = flight_ok S q" by (simp add: flight_ok_def)

lemma cpoint_ok_goto [simp]: "cpoint_ok (goto t p S) q = cpoint_ok S q" by (cases q) simp_all

lemma cinv_goto:
  assumes "cinv S" and "grows S S'" and "points S' = points S" and "csys_ok S'" and "cpoint_ok S' p" and "flight_ok S' p"
  shows "cinv (goto t p S')"
  using assms cpoint_ok_grows [OF assms(2)] flight_ok_grows [OF assms(2)] by (simp add: cinv_def)

lemma cinv_stay:
  assumes "cinv S" and "cpoint_ok S p" and "flight_ok S p"
  shows "cinv (goto t p S)"
  using cinv_goto [OF assms(1) grows_refl refl _ assms(2,3)] assms(1) by (simp add: cinv_def)

lemma cinv_points: "cinv S \<Longrightarrow> points S t = p \<Longrightarrow> cpoint_ok S p \<and> flight_ok S p"
  by (auto simp: cinv_def)

lemma flight_ok_same: "flight_of q = flight_of p \<Longrightarrow> flight_ok S p \<Longrightarrow> flight_ok S q"
  by (simp add: flight_ok_def)

lemma flight_ok_none [simp]: "flight_of p = None \<Longrightarrow> flight_ok S p"
  by (simp add: flight_ok_def)

lemma csys_okD:
  assumes "csys_ok S"
  shows "\<exists>p. published S (provider_gen S) = Some p \<and> gen_floor S = p" "published S g = Some p \<Longrightarrow> p \<le> gen_floor S"
    "gen_floor S \<le> version S" "entries S (g, q) = Some v \<Longrightarrow> \<exists>p. published S g = Some p \<and> p \<le> v"
    "pending_gen S i = Some tok \<Longrightarrow> marked S tok = Some (floor_of S i)" "pending_gen S i = None \<Longrightarrow> floor_of S i \<le> gen_floor S"
    "floor_of S i \<le> version S" "marked S tok = Some m \<Longrightarrow> m \<le> version S"
    "marked S tok = Some m \<Longrightarrow> published S tok = Some p \<Longrightarrow> m \<le> p"
  using assms by (auto simp: csys_ok_def gen_floor_def)

section \<open>Every step keeps it\<close>

lemma publish_cases:
  assumes "publish True tok S = Some S'"
  shows "provider_gen S = tok \<and> S' = S
    \<or> published S tok = None \<and> S' = S\<lparr>provider_gen := tok, published := (published S)(tok \<mapsto> version S)\<rparr>"
  using assms unfolding publish_def by (simp split: if_split_asm)

lemma publish_ok:
  assumes p: "publish True tok S = Some S'" and ok: "csys_ok S" and m: "marked S tok = Some m"
  shows "csys_ok S' \<and> grows S S' \<and> points S' = points S \<and> published S' tok \<noteq> None \<and> m \<le> gen_floor S'
     \<and> marked S' tok = Some m"
  using publish_cases [OF p]
proof (elim disjE conjE)
  assume 1: "provider_gen S = tok" "S' = S"
  obtain q where "published S tok = Some q" "gen_floor S = q" using csys_okD(1) [OF ok] 1 by blast
  with 1 csys_okD(9) [OF ok m] ok m show ?thesis by simp
next
  assume 2: "published S tok = None" "S' = S\<lparr>provider_gen := tok, published := (published S)(tok \<mapsto> version S)\<rparr>"
  have gf: "gen_floor S' = version S" by (simp add: 2 gen_floor_def)
  have le: "p \<le> version S" if "published S g = Some p" for g p
    using csys_okD(2) [OF ok that] csys_okD(3) [OF ok] by linarith
  have en: "\<exists>p. published S' g = Some p \<and> p \<le> v" if "entries S (g, q) = Some v" for g q v
    using csys_okD(4) [OF ok that] 2 by auto
  have "csys_ok S'"
    using gf le en csys_okD(5,7,8) [OF ok] csys_okD(9) [OF ok]
    unfolding csys_ok_def by (auto simp: 2)
  moreover have "grows S S'" using csys_okD(3) [OF ok] 2 gf by (auto simp: grows_def)
  ultimately show ?thesis using 2 gf m csys_okD(8) [OF ok m] by simp
qed


lemma cinv_publish:
  assumes inv: "cinv S" and p: "publish True tok S = Some S'" and m: "marked S tok = Some m"
    and pt: "flight_ok S q" and new: "cpoint_ok S' q"
  shows "cinv (goto t q S')"
proof -
  have "csys_ok S" using inv by (simp add: cinv_def)
  note ok = publish_ok [OF p this m]
  show ?thesis by (rule cinv_goto [OF inv]) (use ok new flight_ok_grows [OF _ pt] in auto)
qed

lemma cinv_commit: "cinv S \<Longrightarrow> cinv (S\<lparr>version := Suc (version S)\<rparr>)"
proof -
  let ?S = "S\<lparr>version := Suc (version S)\<rparr>"
  assume inv: "cinv S"
  then have ok: "csys_ok S" by (simp add: cinv_def)
  have g: "grows S ?S" by (simp add: grows_def gen_floor_def)
  have gf: "gen_floor ?S = gen_floor S" by (simp add: gen_floor_def)
  have "csys_ok ?S" using ok unfolding csys_ok_def gf by (auto intro: le_SucI)
  with inv cpoint_ok_grows [OF g] flight_ok_grows [OF g] show "cinv ?S" by (simp add: cinv_def)
qed

lemma cinv_entries:
  assumes inv: "cinv S" and e: "\<forall>g q v. E (g, q) = Some v \<longrightarrow> (\<exists>p. published S g = Some p \<and> p \<le> v)"
  shows "cinv (S\<lparr>entries := E\<rparr>)"
proof -
  let ?S = "S\<lparr>entries := E\<rparr>"
  have g: "grows S ?S" by (simp add: grows_def gen_floor_def)
  have "csys_ok ?S" using inv e by (simp add: cinv_def csys_ok_def gen_floor_def)
  with inv cpoint_ok_grows [OF g] flight_ok_grows [OF g] show ?thesis by (simp add: cinv_def)
qed

lemma cinv_clear:
  assumes inv: "cinv S" and tok: "published S tok \<noteq> None" "marked S tok \<noteq> None"
    and q: "cpoint_ok S q" "flight_ok S q"
  shows "cinv (goto t q (clear_pending i tok S))"
proof (cases "pending_gen S i = Some tok")
  case False
  then show ?thesis using cinv_stay [OF inv q] by (simp add: clear_pending_def)
next
  case True
  let ?S = "S\<lparr>pending_gen := (pending_gen S)(i := None)\<rparr>"
  have ok: "csys_ok S" using inv by (simp add: cinv_def)
  obtain p where p: "published S tok = Some p" using tok by blast
  have "marked S tok = Some (floor_of S i)" by (rule csys_okD(5) [OF ok True])
  with csys_okD(9) [OF ok this p] csys_okD(2) [OF ok p] have fl: "floor_of S i \<le> gen_floor S" by linarith
  have g: "grows S ?S" by (simp add: grows_def gen_floor_def)
  have gf: "gen_floor ?S = gen_floor S" by (simp add: gen_floor_def)
  have "csys_ok ?S" using ok fl unfolding csys_ok_def gf by simp
  from cinv_goto [OF inv g _ this] cpoint_ok_grows [OF g q(1)] flight_ok_grows [OF g q(2)] True show ?thesis
    by (simp add: clear_pending_def)
qed

lemma cinv_mark:
  assumes inv: "cinv S" and tok: "marked S tok = None" "published S tok = None"
  shows "cinv (goto t (Setting i tok) (mark_invalid i tok S))"
proof -
  let ?S = "mark_invalid i tok S"
  have ok: "csys_ok S" using inv by (simp add: cinv_def)
  have gf: "gen_floor ?S = gen_floor S" by (simp add: gen_floor_def mark_invalid_def)
  have g: "grows S ?S" using tok csys_okD(7) [OF ok] unfolding grows_def gf by (auto simp: mark_invalid_def)
  have p: "pending_gen ?S j = Some k \<Longrightarrow> marked ?S k = Some (floor_of ?S j)" for j k
    using csys_okD(5) [OF ok, of j k] tok by (auto simp: mark_invalid_def split: if_splits)
  have "csys_ok ?S"
    using ok p unfolding csys_ok_def gf by (auto simp: mark_invalid_def tok)
  from cinv_goto [OF inv g _ this, of "Setting i tok" t] show ?thesis by (simp add: mark_invalid_def)
qed

lemma cinv_load: "cinv S \<Longrightarrow> points S t = Off \<Longrightarrow> cinv (goto t (Reading (new_flight i q S)) S)"
proof (rule cinv_stay)
  assume inv: "cinv S"
  then have ok: "csys_ok S" by (simp add: cinv_def)
  show "cpoint_ok S (Reading (new_flight i q S))" by (simp add: new_flight_def)
  show "flight_ok S (Reading (new_flight i q S))"
    using csys_okD(3,7) [OF ok] by (simp add: flight_ok_def new_flight_def)
qed

lemma cinv_step: "cstep True S S' \<Longrightarrow> cinv S \<Longrightarrow> cinv S'"
proof (induction rule: cstep.induct)
  case (c_commit S)
  then show ?case by (rule cinv_commit)
next
  case (c_expire S x)
  then show ?case using csys_okD(4) by (intro cinv_entries) (auto simp: cinv_def)
next
  case (c_load S t i q)
  then show ?case by (rule cinv_load [rotated])
next
  case (c_pending S t f)
  note pt = cinv_points [OF c_pending(2,1)]
  have ok: "csys_ok S" using c_pending by (simp add: cinv_def)
  show ?case
  proof (cases "pending_gen S (f_instance f)")
    case None
    with csys_okD(6) [OF ok] pt have "f_floor f \<le> gen_floor S" by fastforce
    with None pt show ?thesis by (intro cinv_stay [OF c_pending(2)]) (auto simp: flight_ok_def)
  next
    case (Some tok)
    with csys_okD(5) [OF ok] pt show ?thesis by (intro cinv_stay [OF c_pending(2)]) (auto simp: flight_ok_def)
  qed
next
  case (c_repaired S t f tok S')
  note pt = cinv_points [OF c_repaired(3,1)]
  have ok: "csys_ok S" using c_repaired by (simp add: cinv_def)
  from pt obtain m where m: "marked S tok = Some m" "f_floor f \<le> max m (gen_floor S)" by auto
  note pub = publish_ok [OF c_repaired(2) ok m(1)]
  have "f_floor f \<le> gen_floor S'" using pub m(2) by (auto simp: grows_def)
  with pub show ?case
    by (intro cinv_publish [OF c_repaired(3,2) m(1)]) (use pt in \<open>auto simp: flight_ok_def\<close>)
next
  case (c_repair_lost S t f tok S')
  note pt = cinv_points [OF c_repair_lost(3,1)]
  have ok: "csys_ok S" using c_repair_lost by (simp add: cinv_def)
  from pt obtain m where m: "marked S tok = Some m" by auto
  have "f_floor f \<le> version S" using pt by (simp add: flight_ok_def)
  with publish_ok [OF c_repair_lost(2) ok m] have "f_floor f \<le> version S'" by (auto simp: grows_def)
  then show ?case
    by (intro cinv_publish [OF c_repair_lost(3,2) m]) (use pt in \<open>auto simp: flight_ok_def\<close>)
next
  case (c_bypass S t f tok g)
  have "flight_ok S (points S t)" "flight_of (points S t) = Some f"
    using c_bypass by (auto simp: cinv_def)
  then show ?case using c_bypass(2) by (intro cinv_stay) (auto simp: flight_ok_def)
next
  case (c_cleared S t o1 i tok)
  note pt = cinv_points [OF c_cleared(2,1)]
  show ?case by (rule cinv_clear [OF c_cleared(2)]) (use pt in \<open>auto simp: flight_ok_def split: option.split\<close>)
next
  case (c_asked S t f)
  note pt = cinv_points [OF c_asked(2,1)]
  have ok: "csys_ok S" using c_asked by (simp add: cinv_def)
  show ?case
    by (rule cinv_stay [OF c_asked(2)]) (use pt csys_okD(1) [OF ok] in \<open>auto simp: flight_ok_def reached_def\<close>)
next
  case (c_hit S t f g v)
  note pt = cinv_points [OF c_hit(3,1)]
  have ok: "csys_ok S" using c_hit by (simp add: cinv_def)
  from csys_okD(4) [OF ok c_hit(2)] pt have "f_floor f \<le> v" by (auto simp: reached_def)
  with pt show ?case by (intro cinv_stay [OF c_hit(3)]) (auto simp: flight_ok_def)
next
  case (c_miss S t f g)
  note pt = cinv_points [OF c_miss(2,1)]
  then show ?case by (intro cinv_stay [OF c_miss(2)]) (auto simp: flight_ok_def)
next
  case (c_loaded S t f g)
  note pt = cinv_points [OF c_loaded(2,1)]
  have ok: "csys_ok S" using c_loaded by (simp add: cinv_def)
  obtain p where p: "published S g = Some p" "f_floor f \<le> p" using pt by (auto simp: reached_def)
  with csys_okD(2) [OF ok p(1)] csys_okD(3) [OF ok] have "p \<le> version S" by linarith
  with p pt show ?case by (intro cinv_stay [OF c_loaded(2)]) (auto simp: flight_ok_def)
next
  case (c_stored S t f g v)
  note pt = cinv_points [OF c_stored(2,1)]
  have ok: "csys_ok S" using c_stored by (simp add: cinv_def)
  have "\<exists>p. published S h = Some p \<and> p \<le> u" if "((entries S)((g, f_query f) \<mapsto> v)) (h, q) = Some u" for h q u
    using that pt csys_okD(4) [OF ok, of h q u] by (auto split: if_splits)
  then have "cinv (S\<lparr>entries := (entries S)((g, f_query f) \<mapsto> v)\<rparr>)" by (intro cinv_entries [OF c_stored(2)]) blast
  then show ?case by (rule cinv_stay) (use pt in \<open>auto simp: flight_ok_def\<close>)
next
  case (c_not_stored S t f g v)
  note pt = cinv_points [OF c_not_stored(2,1)]
  then show ?case by (intro cinv_stay [OF c_not_stored(2)]) (auto simp: flight_ok_def)
next
  case (c_authority S t f)
  note pt = cinv_points [OF c_authority(2,1)]
  then show ?case by (intro cinv_stay [OF c_authority(2)]) (auto simp: flight_ok_def)
next
  case (c_mark S t tok i)
  then show ?case by (intro cinv_mark)
next
  case (c_set S t i tok S')
  note pt = cinv_points [OF c_set(3,1)]
  have ok: "csys_ok S" using c_set by (simp add: cinv_def)
  from pt obtain m where m: "marked S tok = Some m" by auto
  with publish_ok [OF c_set(2) ok m] show ?case by (intro cinv_publish [OF c_set(3,2) m]) auto
next
  case (c_set_lost S t i tok S')
  note pt = cinv_points [OF c_set_lost(3,1)]
  from pt obtain m where "marked S tok = Some m" by auto
  then show ?case by (intro cinv_publish [OF c_set_lost(3,2)]) auto
next
  case (c_set_failed S t i tok)
  then show ?case by (intro cinv_stay) auto
next
  case (c_ended S t f tok g v hit)
  then show ?case by (intro cinv_stay) auto
qed

lemma cinv_initial: "cinv (cinitial v)"
  by (simp add: cinv_def csys_ok_def cinitial_def gen_floor_def)

lemma cinv_reachable: "creachable True S \<Longrightarrow> cinv S"
proof -
  assume "creachable True S"
  then obtain v where "(cstep True)\<^sup>*\<^sup>* (cinitial v) S" by (auto simp: creachable_def)
  then show ?thesis by (induction rule: rtranclp_induct) (auto intro: cinv_initial cinv_step)
qed

text \<open>
  What the interleaved loads and invalidations guarantee, and the one interleaving that breaks it.
\<close>


lemma creachable_initial: "creachable b (cinitial v)"
  by (auto simp: creachable_def)

lemma creachable_step: "creachable b S \<Longrightarrow> cstep b S S' \<Longrightarrow> creachable b S'"
  by (auto simp: creachable_def intro: rtranclp.rtrancl_into_rtrancl)

lemmas csys_simps = cinitial_def mark_invalid_def clear_pending_def new_flight_def gen_floor_def publish_def goto_def

text \<open>An invalidation has drawn its token and not yet written it; a load repairs the generation, fills the cache and ends.\<close>

definition demo_flight :: cflight where
  "demo_flight = \<lparr>f_instance = 0, f_query = ''q'', f_epoch = 1, f_floor = 0\<rparr>"

definition demo_filled :: csys where
  "demo_filled =
     \<lparr>version = 0, provider_gen = ''t1'', entries = [(''t1'', ''q'') \<mapsto> 0], pending_gen = (\<lambda>_. None),
      epoch_no = (\<lambda>_. 0)(0 := 1), points = (\<lambda>_. Off)(0 := Setting 0 ''t1'', 1 := Finished demo_flight 0 False),
      published = [''base'' \<mapsto> 0, ''t1'' \<mapsto> 0], marked = [''t1'' \<mapsto> 0], floor_of = (\<lambda>_. 0)\<rparr>"

lemma demo_filled_reachable: "creachable b demo_filled"
proof -
  let ?S1 = "goto 0 (Setting 0 ''t1'') (mark_invalid 0 ''t1'' (cinitial 0))"
  let ?S2 = "goto 1 (Reading demo_flight) ?S1"
  let ?S3 = "goto 1 (Repairing demo_flight ''t1'') ?S2"
  let ?P = "?S3\<lparr>provider_gen := ''t1'', published := (published ?S3)(''t1'' \<mapsto> 0)\<rparr>"
  let ?S4 = "goto 1 (Clearing (Some demo_flight) 0 ''t1'') ?P"
  let ?S5 = "goto 1 (Asking demo_flight) (clear_pending 0 ''t1'' ?S4)"
  let ?S6 = "goto 1 (Looking demo_flight ''t1'') ?S5"
  let ?S7 = "goto 1 (Loading demo_flight ''t1'') ?S6"
  let ?S8 = "goto 1 (Storing demo_flight ''t1'' 0) ?S7"
  let ?S9 = "goto 1 (Finished demo_flight 0 False) (?S8\<lparr>entries := (entries ?S8)((''t1'', ''q'') \<mapsto> 0)\<rparr>)"
  have r1: "creachable b ?S1" by (rule creachable_step [OF creachable_initial c_mark]) (simp_all add: cinitial_def)
  have r2: "creachable b ?S2"
    by (rule creachable_step [OF r1]) (use c_load [of ?S1 1 b 0 "''q''"] in \<open>simp add: demo_flight_def csys_simps\<close>)
  have r3: "creachable b ?S3"
    by (rule creachable_step [OF r2]) (use c_pending [of ?S2 1 demo_flight b] in \<open>simp add: demo_flight_def csys_simps\<close>)
  have r4: "creachable b ?S4" by (rule creachable_step [OF r3])
      (use c_repaired [of ?S3 1 demo_flight "''t1''" b ?P] in \<open>simp add: demo_flight_def csys_simps\<close>)
  have r5: "creachable b ?S5"
    by (rule creachable_step [OF r4]) (use c_cleared [of ?S4 1 "Some demo_flight" 0 "''t1''" b] in simp)
  have r6: "creachable b ?S6"
    by (rule creachable_step [OF r5]) (use c_asked [of ?S5 1 demo_flight b] in \<open>simp add: csys_simps\<close>)
  have r7: "creachable b ?S7"
    by (rule creachable_step [OF r6]) (use c_miss [of ?S6 1 demo_flight "''t1''" b] in simp)
  have r8: "creachable b ?S8"
    by (rule creachable_step [OF r7]) (use c_loaded [of ?S7 1 demo_flight "''t1''" b] in \<open>simp add: csys_simps\<close>)
  have r9: "creachable b ?S9"
    by (rule creachable_step [OF r8]) (use c_stored [of ?S8 1 demo_flight "''t1''" 0 b] in \<open>simp add: demo_flight_def\<close>)
  have "?S9 = demo_filled" by (auto simp: demo_filled_def csys_simps fun_eq_iff)
  with r9 show ?thesis by simp
qed


text \<open>
  The database moves on; a second instance invalidates with \<open>t2\<close>; the first invalidation, delayed until now,
  writes its \<open>t1\<close> over it: the cache entry of version 0 is current again.
\<close>

definition late_flight :: cflight where
  "late_flight = \<lparr>f_instance = 1, f_query = ''q'', f_epoch = 1, f_floor = 1\<rparr>"


end
