(* ===== verification/Cache_Policy.thy ===== *)
theory Cache_Policy
  imports Go_Text Go_Errors
begin

text \<open>
  \<open>mss-boot/runtime/cache/policy.go\<close>: the policy of a derived cache, the targets and datasets it serves,
  and their validation. Identities are arbitrary UTF-8 without control characters, since they are digested
  before they enter a key; the namespace enters every key as it is and has a grammar of its own.
\<close>

definition maxIdentityBytes :: nat where "maxIdentityBytes = 1024"
definition maxNamespaceBytes :: nat where "maxNamespaceBytes = 63"
definition maxAllowedPayload :: int where "maxAllowedPayload = 16 * 2 ^ 20"

definition ErrInvalidPolicy :: sentinel where "ErrInvalidPolicy = Foreign 301"
definition ErrInvalidTarget :: sentinel where "ErrInvalidTarget = Foreign 302"
definition ErrInvalidResult :: sentinel where "ErrInvalidResult = Foreign 303"
definition ErrClosed :: sentinel where "ErrClosed = Foreign 304"

definition validationError :: "sentinel \<Rightarrow> string \<Rightarrow> string \<Rightarrow> goerr" where
  "validationError class path reason = ValidationError path reason class"

record cachePolicy =
  pol_Authority :: string
  pol_Namespace :: string
  pol_TTL :: int
  pol_MaxPayloadBytes :: int
  pol_FailureMode :: string
  pol_Reconstruction :: string

text \<open>The rest of a namespace after its first letter; the last character and \<open>..\<close> are checked apart.\<close>

definition namespace_char :: "char \<Rightarrow> bool" where
  "namespace_char c \<longleftrightarrow> is_lower c \<or> is_digit c \<or> c = CHR ''-'' \<or> c = CHR ''.''"

definition validNamespace :: "string \<Rightarrow> bool" where
  "validNamespace value \<longleftrightarrow>
     (case value of
        [] \<Rightarrow> False
      | c # cs \<Rightarrow>
          \<not> length value > maxNamespaceBytes \<and> is_lower c \<and> list_all namespace_char cs
        \<and> last value \<noteq> CHR ''-'' \<and> last value \<noteq> CHR ''.'' \<and> \<not> strings_Contains value ''..'')"

definition policy_validate :: "cachePolicy \<Rightarrow> goerr option" where
  "policy_validate p =
     (if pol_Authority p \<noteq> ''database'' then Some (validationError ErrInvalidPolicy ''authority'' ''must be database'')
      else if \<not> validNamespace (pol_Namespace p) then
        Some (validationError ErrInvalidPolicy ''namespace'' ''must be canonical'')
      else if pol_TTL p \<le> 0 then Some (validationError ErrInvalidPolicy ''ttl'' ''must be positive'')
      else if pol_MaxPayloadBytes p \<le> 0 \<or> pol_MaxPayloadBytes p > maxAllowedPayload then
        Some (validationError ErrInvalidPolicy ''maxPayloadBytes'' ''is outside the supported bound'')
      else if pol_FailureMode p \<noteq> ''bypass-authority'' then
        Some (validationError ErrInvalidPolicy ''failureMode'' ''must bypass to authority'')
      else if pol_Reconstruction p \<noteq> ''loader'' then
        Some (validationError ErrInvalidPolicy ''reconstruction'' ''must use the loader'')
      else None)"

record dataset =
  ds_Datasource :: string
  ds_Table :: string

record cacheTarget =
  tg_Datasource :: string
  tg_Table :: string
  tg_QueryIdentity :: string

definition target_dataset :: "cacheTarget \<Rightarrow> dataset" where
  "target_dataset t = \<lparr>ds_Datasource = tg_Datasource t, ds_Table = tg_Table t\<rparr>"

text \<open>
  A control character of a valid UTF-8 string: a byte below 0x20, 0x7F, or U+0080 to U+009F, whose
  encoding is 0xC2 followed by the byte of its number.
\<close>

fun has_control :: "string \<Rightarrow> bool" where
  "has_control [] = False"
| "has_control (c # cs) =
     (byte_in 0x00 0x1F c \<or> c = CHR 0x7F
      \<or> c = CHR 0xC2 \<and> (case cs of d # _ \<Rightarrow> byte_in 0x80 0x9F d | [] \<Rightarrow> False)
      \<or> has_control cs)"

definition validIdentity :: "string \<Rightarrow> bool" where
  "validIdentity value \<longleftrightarrow>
     \<not> (value = [] \<or> length value > maxIdentityBytes \<or> \<not> utf8_valid value \<or> strings_TrimSpace value \<noteq> value)
     \<and> \<not> has_control value"

definition dataset_validate :: "dataset \<Rightarrow> goerr option" where
  "dataset_validate d =
     (if \<not> validIdentity (ds_Datasource d) then
        Some (validationError ErrInvalidTarget ''datasource'' ''must be a stable logical identity'')
      else if \<not> validIdentity (ds_Table d) then
        Some (validationError ErrInvalidTarget ''table'' ''must be a stable logical identity'')
      else None)"

definition target_validate :: "cacheTarget \<Rightarrow> goerr option" where
  "target_validate t =
     (case dataset_validate (target_dataset t) of
        Some e \<Rightarrow> Some e
      | None \<Rightarrow>
          if \<not> validIdentity (tg_QueryIdentity t) then
            Some (validationError ErrInvalidTarget ''queryIdentity'' ''must be a stable non-sensitive identity'')
          else None)"

text \<open>A valid identity holds no NUL, so the two parts of a dataset can be joined with one.\<close>

lemma validIdentity_no_nul: "validIdentity s \<Longrightarrow> CHR 0x00 \<notin> set s"
proof -
  have "CHR 0x00 \<in> set s \<Longrightarrow> has_control s" by (induction s) (auto simp: byte_in_def)
  then show "validIdentity s \<Longrightarrow> CHR 0x00 \<notin> set s" by (auto simp: validIdentity_def)
qed

lemma validNamespace_chars:
  "validNamespace s \<Longrightarrow> s \<noteq> [] \<and> length s \<le> 63 \<and> (\<forall>c \<in> set s. namespace_char c) \<and> is_lower (s ! 0)
     \<and> \<not> strings_Contains s ''..''"
  by (cases s) (auto simp: validNamespace_def maxNamespaceBytes_def list_all_iff namespace_char_def)

end
