(* ===== verification/Cache_Core.thy ===== *)
theory Cache_Core
  imports Cache_Policy Redis_Bridge
begin

text \<open>
  \<open>mss-boot/runtime/cache/cache.go\<close>: the local state of a derived cache (flights, epochs, pending
  generations, the drain of \<open>Close\<close>) and the path of one load or invalidation through the Redis scope.

  A flight is an object on the heap of the instance (\<open>flight_heap\<close>, by address); its context, its timers
  and its goroutine show as \<open>fl_cancelled\<close> and as the calls of \<open>flight_finish\<close> and \<open>releaseWaiter\<close>.
  The operations on the provider run over the model of \<open>Scope.Use\<close>; their world is what the client sees
  together with the variable the callback assigns. SHA-256 is the parameter \<open>crypto\<close> of the bridge.
\<close>

section \<open>Results\<close>

record cacheResult =
  r_Payload :: string
  r_RowsAffected :: int
  r_NotFound :: bool

definition result_validate :: "cacheResult \<Rightarrow> goerr option" where
  "result_validate r =
     (if r_RowsAffected r < 0 then Some (validationError ErrInvalidResult ''rowsAffected'' ''must not be negative'')
      else if r_NotFound r \<and> (r_RowsAffected r \<noteq> 0 \<or> length (r_Payload r) \<noteq> 0) then
        Some (validationError ErrInvalidResult ''notFound'' ''must have zero rows and no payload'')
      else None)"

datatype cacheSource = SourceCache | SourceAuthority

datatype cacheStatus =
  StatusHit | StatusStored | StatusProviderBypass | StatusPayloadBypass | StatusTransactionBypass | StatusInvalidated

record outcome =
  out_Result :: cacheResult
  out_Source :: cacheSource
  out_Status :: cacheStatus

section \<open>The local state\<close>

record flight =
  fl_waiters :: int
  fl_completed :: bool
  fl_cancelled :: bool
  fl_outcome :: "(goerr + outcome) option"

record derived =
  dv_scope :: scope
  dv_policy :: cachePolicy
  dv_closed :: bool
  dv_drainClosed :: bool
  dv_active :: int
  dv_flights :: "(string, nat) gomap"
  flight_heap :: "flight list"
  dv_epochs :: "(string, 64 word) gomap"
  dv_pending :: "(string, string) gomap"

definition NewDerived :: "scope option \<Rightarrow> cachePolicy \<Rightarrow> goerr + derived" where
  "NewDerived sc p =
     (case sc of
        None \<Rightarrow> Inl (validationError ErrInvalidPolicy ''scope'' ''is required'')
      | Some sc \<Rightarrow>
          (case policy_validate p of
             Some e \<Rightarrow> Inl e
           | None \<Rightarrow>
               Inr \<lparr>dv_scope = sc, dv_policy = p, dv_closed = False, dv_drainClosed = False, dv_active = 0,
                    dv_flights = fmempty, flight_heap = [], dv_epochs = fmempty, dv_pending = fmempty\<rparr>))"

section \<open>Identities and keys\<close>

definition cache_digest :: "crypto \<Rightarrow> string \<Rightarrow> string" where
  "cache_digest K value = hex_EncodeToString (sha256 K value)"

definition datasetIdentity :: "crypto \<Rightarrow> dataset \<Rightarrow> string" where
  "datasetIdentity K d = cache_digest K (ds_Datasource d @ [CHR 0x00] @ ds_Table d)"

definition targetIDs :: "crypto \<Rightarrow> cacheTarget \<Rightarrow> string \<times> string" where
  "targetIDs K t = (datasetIdentity K (target_dataset t), cache_digest K (tg_QueryIdentity t))"

definition baseGeneration :: string where "baseGeneration = ''base''"

definition validGeneration :: "string \<Rightarrow> bool" where
  "validGeneration value \<longleftrightarrow>
     value = baseGeneration \<or> length value = 32 \<and> hex_DecodeString value \<noteq> None"

definition generationKey :: "cachePolicy \<Rightarrow> string \<Rightarrow> string" where
  "generationKey p datasetID = pol_Namespace p @ ''/generation/'' @ datasetID"

definition entryKey :: "cachePolicy \<Rightarrow> string \<Rightarrow> string \<Rightarrow> string \<Rightarrow> string" where
  "entryKey p datasetID queryID generation =
     pol_Namespace p @ ''/entry/'' @ datasetID @ ''/'' @ generation @ ''/'' @ queryID"

text \<open>\<open>fmt.Sprintf("%s/%s/%d", datasetID, queryID, epoch)\<close>\<close>

definition flightID :: "string \<Rightarrow> string \<Rightarrow> 64 word \<Rightarrow> string" where
  "flightID datasetID queryID epoch = datasetID @ ''/'' @ queryID @ ''/'' @ nat_dec (unat epoch)"

section \<open>Flights\<close>

definition epoch_of :: "derived \<Rightarrow> string \<Rightarrow> 64 word" where
  "epoch_of c datasetID = (case fmlookup (dv_epochs c) datasetID of None \<Rightarrow> 0 | Some e \<Rightarrow> e)"

text \<open>The result tells the address of the flight and whether it was created, that is whether \<open>runFlight\<close> was started.\<close>

definition acquireFlight :: "string \<Rightarrow> string \<Rightarrow> derived \<Rightarrow> goerr + derived \<times> nat \<times> bool" where
  "acquireFlight datasetID queryID c =
     (if dv_closed c then Inl (Sentinel ErrClosed)
      else
        (let fid = flightID datasetID queryID (epoch_of c datasetID) in
         case fmlookup (dv_flights c) fid of
           Some a \<Rightarrow>
             Inr (c\<lparr>flight_heap := (flight_heap c)[a := (flight_heap c ! a)\<lparr>fl_waiters := fl_waiters (flight_heap c ! a) + 1\<rparr>]\<rparr>,
                  a, False)
         | None \<Rightarrow>
             (let created = \<lparr>fl_waiters = 1, fl_completed = False, fl_cancelled = False, fl_outcome = None\<rparr>;
                  a = length (flight_heap c)
              in Inr (c\<lparr>flight_heap := flight_heap c @ [created], dv_flights := fmupd fid a (dv_flights c),
                        dv_active := dv_active c + 1\<rparr>, a, True))))"

text \<open>The drain closes when the last operation of a closed cache ends.\<close>

definition end_active :: "derived \<Rightarrow> derived" where
  "end_active c =
     (let c1 = c\<lparr>dv_active := dv_active c - 1\<rparr> in
      if dv_closed c1 \<and> dv_active c1 = 0 \<and> \<not> dv_drainClosed c1 then c1\<lparr>dv_drainClosed := True\<rparr> else c1)"

text \<open>The deferred part of \<open>runFlight\<close>, with the outcome of \<open>execute\<close>.\<close>

definition flight_finish :: "string \<Rightarrow> nat \<Rightarrow> goerr + outcome \<Rightarrow> derived \<Rightarrow> derived" where
  "flight_finish fid a res c =
     (let f = (flight_heap c ! a)\<lparr>fl_completed := True, fl_cancelled := True, fl_outcome := Some res\<rparr>;
          c1 = c\<lparr>flight_heap := (flight_heap c)[a := f],
                 dv_flights := (if fmlookup (dv_flights c) fid = Some a then fmdrop fid (dv_flights c) else dv_flights c)\<rparr>
      in end_active c1)"

definition releaseWaiter :: "nat \<Rightarrow> derived \<Rightarrow> derived" where
  "releaseWaiter a c =
     (let f = (flight_heap c ! a)\<lparr>fl_waiters := fl_waiters (flight_heap c ! a) - 1\<rparr>;
          f1 = (if fl_waiters f = 0 \<and> \<not> fl_completed f then f\<lparr>fl_cancelled := True\<rparr> else f)
      in c\<lparr>flight_heap := (flight_heap c)[a := f1]\<rparr>)"

definition beginDirect :: "derived \<Rightarrow> goerr + derived" where
  "beginDirect c =
     (if dv_closed c then Inl (Sentinel ErrClosed) else Inr (c\<lparr>dv_active := dv_active c + 1\<rparr>))"

text \<open>The critical section of \<open>Close\<close>; the cancellation of the life context reaches every flight.\<close>

definition close_section :: "derived \<Rightarrow> derived" where
  "close_section c =
     (if dv_closed c then c
      else
        (let c1 = c\<lparr>dv_closed := True, flight_heap := map (\<lambda>f. f\<lparr>fl_cancelled := True\<rparr>) (flight_heap c)\<rparr> in
         if dv_active c1 = 0 \<and> \<not> dv_drainClosed c1 then c1\<lparr>dv_drainClosed := True\<rparr> else c1))"

definition invalidate_section :: "string \<Rightarrow> string \<Rightarrow> derived \<Rightarrow> derived" where
  "invalidate_section datasetID token c =
     c\<lparr>dv_epochs := fmupd datasetID (epoch_of c datasetID + 1) (dv_epochs c),
       dv_pending := fmupd datasetID token (dv_pending c)\<rparr>"

definition pendingGeneration :: "string \<Rightarrow> derived \<Rightarrow> string" where
  "pendingGeneration datasetID c = (case fmlookup (dv_pending c) datasetID of None \<Rightarrow> [] | Some t \<Rightarrow> t)"

definition clearPending :: "string \<Rightarrow> string \<Rightarrow> derived \<Rightarrow> derived" where
  "clearPending datasetID generation c =
     (if pendingGeneration datasetID c = generation then c\<lparr>dv_pending := fmdrop datasetID (dv_pending c)\<rparr> else c)"

text \<open>
  The path of a load and of an invalidation of \<open>cache.go\<close> through the Redis scope, and \<open>query.go\<close> on top.
  The provider, the clock and the context of the operation are the world \<open>'p\<close>; every command goes through
  \<open>Scope_Use\<close> and the lease of \<open>redisresource\<close>. \<open>encoding/json\<close> is the concrete encoder of the one struct the
  file marshals and a decoder parameter that inverts it.
\<close>

section \<open>The wire entry\<close>

record wireEntry =
  we_Version :: int
  we_Payload :: string
  we_RowsAffected :: int
  we_NotFound :: bool

definition wireVersion :: int where "wireVersion = 1"

text \<open>\<open>encoding/base64.StdEncoding\<close>, which \<open>encoding/json\<close> uses for byte slices.\<close>

definition std_char :: "char \<Rightarrow> char" where
  "std_char c = (if c = CHR ''-'' then CHR ''+'' else if c = CHR ''_'' then CHR ''/'' else c)"

definition base64_std :: "string \<Rightarrow> string" where
  "base64_std s =
     map std_char (base64_EncodeToString s)
     @ replicate ((3 - length s mod 3) mod 3) (CHR ''='')"

definition json_bool :: "bool \<Rightarrow> string" where
  "json_bool b = (if b then ''true'' else ''false'')"

definition json_int :: "int \<Rightarrow> string" where
  "json_int i = (if i < 0 then CHR ''-'' # nat_dec (nat (- i)) else nat_dec (nat i))"

text \<open>\<open>json.Marshal\<close> on the struct with its tags: \<open>p\<close> and \<open>n\<close> are left out when empty.\<close>

definition json_Marshal :: "wireEntry \<Rightarrow> string" where
  "json_Marshal e =
     [CHR ''{'', CHR 0x22, CHR ''v'', CHR 0x22, CHR '':''] @ json_int (we_Version e)
     @ (if we_Payload e = [] then []
        else [CHR '','', CHR 0x22, CHR ''p'', CHR 0x22, CHR '':'', CHR 0x22] @ base64_std (we_Payload e) @ [CHR 0x22])
     @ [CHR '','', CHR 0x22, CHR ''r'', CHR 0x22, CHR '':''] @ json_int (we_RowsAffected e)
     @ (if we_NotFound e then [CHR '','', CHR 0x22, CHR ''n'', CHR 0x22, CHR '':''] @ json_bool True else [])
     @ [CHR ''}'']"

section \<open>One use of the scope\<close>

record 'p cache_env =
  ke_client :: "'p ownedClient"
  ke_use :: "'p use_env"
  ke_err :: "'p \<Rightarrow> sentinel option"
  ke_caller_err :: "'p \<Rightarrow> sentinel option"
  ke_closed :: "'p \<Rightarrow> bool"
  ke_unmarshal :: "string \<Rightarrow> wireEntry option"

type_synonym 'p loader = "'p \<Rightarrow> 'p \<times> (goerr + cacheResult)"

record 'p kstate =
  k_life :: lifecycleState
  k_prov :: 'p
  k_dv :: derived

text \<open>The client next to the variable the callback assigns.\<close>

definition lift_client :: "'p ownedClient \<Rightarrow> ('p \<times> string option) ownedClient" where
  "lift_client C =
     \<lparr>client_Get = (\<lambda>k (p, v). case client_Get C k p of (p', x) \<Rightarrow> ((p', v), x)),
      client_Set = (\<lambda>k b d (p, v). case client_Set C k b d p of (p', x) \<Rightarrow> ((p', v), x)),
      client_Delete = (\<lambda>ks (p, v). case client_Delete C ks p of (p', x) \<Rightarrow> ((p', v), x)),
      client_Exists = (\<lambda>ks (p, v). case client_Exists C ks p of (p', x) \<Rightarrow> ((p', v), x)),
      command_cause = (\<lambda>(p, v). command_cause C p)\<rparr>"

definition lift_use :: "'p use_env \<Rightarrow> ('p \<times> string option) use_env" where
  "lift_use U =
     \<lparr>use_cause = (\<lambda>(p, v). use_cause U p), use_ctx_err = (\<lambda>(p, v). use_ctx_err U p), during_use = during_use U\<rparr>"

definition in_scope :: "'p cache_env \<Rightarrow> string option
    \<Rightarrow> (lease \<Rightarrow> 'p \<times> string option \<Rightarrow> ('p \<times> string option) \<times> goerr option)
    \<Rightarrow> 'p kstate \<Rightarrow> 'p kstate \<times> string option \<times> goerr option" where
  "in_scope E v0 f k =
     (case Scope_Use (lift_use (ke_use E)) (RCtx (ke_err E (k_prov k))) (Some (dv_scope (k_dv k)))
             (Some (\<lambda>l w. case f l w of (w', e) \<Rightarrow> (l, w', CallbackReturned e))) (k_life k) (k_prov k, v0) of
        (s', (p', v'), _, UseReturned e) \<Rightarrow> (k\<lparr>k_life := s', k_prov := p'\<rparr>, v', e)
      | (s', (p', v'), _, UsePanicked) \<Rightarrow> (k\<lparr>k_life := s', k_prov := p'\<rparr>, v', Some errUnexpectedResult))"

definition set_callback :: "'p cache_env \<Rightarrow> string \<Rightarrow> string \<Rightarrow> int
    \<Rightarrow> lease \<Rightarrow> 'p \<times> string option \<Rightarrow> ('p \<times> string option) \<times> goerr option" where
  "set_callback E logical value ttl l w =
     (case QualifyKey logical (Some l) of
        Inl e \<Rightarrow> (w, Some e)
      | Inr key \<Rightarrow> lease_Set (lift_client (ke_client E)) (RCtx (ke_err E (fst w))) key value ttl (Some l) w)"

text \<open>\<open>accept\<close> judges a value that was found; a missing key leaves the variable alone.\<close>

definition get_callback :: "'p cache_env \<Rightarrow> string \<Rightarrow> (string \<Rightarrow> goerr option)
    \<Rightarrow> lease \<Rightarrow> 'p \<times> string option \<Rightarrow> ('p \<times> string option) \<times> goerr option" where
  "get_callback E logical accept l w =
     (case QualifyKey logical (Some l) of
        Inl e \<Rightarrow> (w, Some e)
      | Inr key \<Rightarrow>
          (case lease_Get (lift_client (ke_client E)) (RCtx (ke_err E (fst w))) key (Some l) w of
             (w1, Inl e) \<Rightarrow> if errors_Is e (Redis_class Redis_ErrNotFound) then (w1, None) else (w1, Some e)
           | (w1, Inr value) \<Rightarrow>
               (case accept value of Some e \<Rightarrow> (w1, Some e) | None \<Rightarrow> ((fst w1, Some value), None))))"

definition setGeneration :: "'p cache_env \<Rightarrow> string \<Rightarrow> string \<Rightarrow> 'p kstate \<Rightarrow> 'p kstate \<times> goerr option" where
  "setGeneration E datasetID generation k =
     (case in_scope E None (set_callback E (generationKey (dv_policy (k_dv k)) datasetID) generation 0) k of
        (k', _, e) \<Rightarrow> (k', e))"

section \<open>Loading\<close>

text \<open>\<open>Inl\<close>: the context ended; \<open>Inr None\<close>: the provider failed.\<close>

definition cache_generation :: "'p cache_env \<Rightarrow> string \<Rightarrow> 'p kstate \<Rightarrow> 'p kstate \<times> (goerr + string option)" where
  "cache_generation E datasetID k =
     (let pending = pendingGeneration datasetID (k_dv k);
          (k1, repair) = (if pending \<noteq> [] then setGeneration E datasetID pending k else (k, None)) in
      if repair \<noteq> None then
        (k1, case ke_err E (k_prov k1) of Some e \<Rightarrow> Inl (Sentinel e) | None \<Rightarrow> Inr None)
      else
        (let k2 = (if pending \<noteq> [] then k1\<lparr>k_dv := clearPending datasetID pending (k_dv k1)\<rparr> else k1);
             (k3, v, e) = in_scope E None
               (get_callback E (generationKey (dv_policy (k_dv k2)) datasetID)
                 (\<lambda>candidate. if validGeneration candidate then None else Some (redis_sentinel Redis_ErrCommandFailed))) k2 in
         if e \<noteq> None then
           (k3, case ke_err E (k_prov k3) of Some e \<Rightarrow> Inl (Sentinel e) | None \<Rightarrow> Inr None)
         else (k3, Inr (Some (case v of None \<Rightarrow> baseGeneration | Some g \<Rightarrow> g)))))"

definition usable_entry :: "'p cache_env \<Rightarrow> cachePolicy \<Rightarrow> string \<Rightarrow> cacheResult option" where
  "usable_entry E p encoded =
     (if int (length encoded) > pol_MaxPayloadBytes p * 2 + 256 then None
      else
        (case ke_unmarshal E encoded of
           None \<Rightarrow> None
         | Some entry \<Rightarrow>
             if we_Version entry \<noteq> wireVersion then None
             else
               (let result = \<lparr>r_Payload = we_Payload entry, r_RowsAffected = we_RowsAffected entry,
                              r_NotFound = we_NotFound entry\<rparr> in
                if int (length (r_Payload result)) > pol_MaxPayloadBytes p \<or> result_validate result \<noteq> None then None
                else Some result)))"

text \<open>The pair is (hit with its result, providerOK).\<close>

definition cache_read :: "'p cache_env \<Rightarrow> string \<Rightarrow> string \<Rightarrow> string \<Rightarrow> 'p kstate
    \<Rightarrow> 'p kstate \<times> (goerr + cacheResult option \<times> bool)" where
  "cache_read E datasetID queryID generation k =
     (case in_scope E None (get_callback E (entryKey (dv_policy (k_dv k)) datasetID queryID generation) (\<lambda>_. None)) k of
        (k1, v, Some _) \<Rightarrow>
          (k1, case ke_err E (k_prov k1) of Some e \<Rightarrow> Inl (Sentinel e) | None \<Rightarrow> Inr (None, False))
      | (k1, None, None) \<Rightarrow> (k1, Inr (None, True))
      | (k1, Some encoded, None) \<Rightarrow> (k1, Inr (usable_entry E (dv_policy (k_dv k)) encoded, True)))"

definition cache_write :: "'p cache_env \<Rightarrow> string \<Rightarrow> string \<Rightarrow> string \<Rightarrow> cacheResult \<Rightarrow> 'p kstate
    \<Rightarrow> 'p kstate \<times> goerr option" where
  "cache_write E datasetID queryID generation result k =
     (let encoded = json_Marshal \<lparr>we_Version = wireVersion, we_Payload = r_Payload result,
                                  we_RowsAffected = r_RowsAffected result, we_NotFound = r_NotFound result\<rparr> in
      case in_scope E None
             (set_callback E (entryKey (dv_policy (k_dv k)) datasetID queryID generation) encoded (pol_TTL (dv_policy (k_dv k)))) k of
        (k', _, e) \<Rightarrow> (k', e))"

definition load_authority :: "'p loader \<Rightarrow> 'p kstate \<Rightarrow> 'p kstate \<times> (goerr + cacheResult)" where
  "load_authority loader k =
     (case loader (k_prov k) of
        (p, Inl e) \<Rightarrow> (k\<lparr>k_prov := p\<rparr>, Inl e)
      | (p, Inr r) \<Rightarrow> (k\<lparr>k_prov := p\<rparr>, case result_validate r of Some e \<Rightarrow> Inl e | None \<Rightarrow> Inr r))"

definition fromAuthority :: "'p cache_env \<Rightarrow> 'p loader \<Rightarrow> cacheStatus \<Rightarrow> 'p kstate \<Rightarrow> 'p kstate \<times> (goerr + outcome)" where
  "fromAuthority E loader status k =
     (case load_authority loader k of
        (k1, Inl e) \<Rightarrow> (k1, Inl e)
      | (k1, Inr r) \<Rightarrow>
          (k1, case ke_err E (k_prov k1) of
                 Some e \<Rightarrow> Inl (Sentinel e)
               | None \<Rightarrow> Inr \<lparr>out_Result = r, out_Source = SourceAuthority, out_Status = status\<rparr>))"

definition execute :: "'p cache_env \<Rightarrow> string \<Rightarrow> string \<Rightarrow> 'p loader \<Rightarrow> 'p kstate \<Rightarrow> 'p kstate \<times> (goerr + outcome)" where
  "execute E datasetID queryID loader k =
     (case cache_generation E datasetID k of
        (k1, Inl e) \<Rightarrow> (k1, Inl e)
      | (k1, Inr None) \<Rightarrow> fromAuthority E loader StatusProviderBypass k1
      | (k1, Inr (Some generation)) \<Rightarrow>
          (case cache_read E datasetID queryID generation k1 of
             (k2, Inl e) \<Rightarrow> (k2, Inl e)
           | (k2, Inr (Some r, _)) \<Rightarrow>
               (k2, Inr \<lparr>out_Result = r, out_Source = SourceCache, out_Status = StatusHit\<rparr>)
           | (k2, Inr (None, False)) \<Rightarrow> fromAuthority E loader StatusProviderBypass k2
           | (k2, Inr (None, True)) \<Rightarrow>
               (case load_authority loader k2 of
                  (k3, Inl e) \<Rightarrow> (k3, Inl e)
                | (k3, Inr r) \<Rightarrow>
                    if int (length (r_Payload r)) > pol_MaxPayloadBytes (dv_policy (k_dv k3)) then
                      (k3, Inr \<lparr>out_Result = r, out_Source = SourceAuthority, out_Status = StatusPayloadBypass\<rparr>)
                    else
                      (case cache_write E datasetID queryID generation r k3 of
                         (k4, Some _) \<Rightarrow>
                           (k4, case ke_err E (k_prov k4) of
                                  Some e \<Rightarrow> Inl (Sentinel e)
                                | None \<Rightarrow> Inr \<lparr>out_Result = r, out_Source = SourceAuthority, out_Status = StatusProviderBypass\<rparr>)
                       | (k4, None) \<Rightarrow>
                           (k4, Inr \<lparr>out_Result = r, out_Source = SourceAuthority, out_Status = StatusStored\<rparr>)))))"

end
