(* ===== verification/Cache_Drain.thy ===== *)
theory Cache_Drain
  imports Cache_Core Redis_Scopes
begin

text \<open>
  The local state of a derived cache under any order of its operations: loads that start or join a flight,
  flights that finish, waiters that leave, direct operations that begin and end, invalidations and \<open>Close\<close>.
  The state pairs the cache with the number of direct operations that have begun and not ended.
\<close>

inductive dstep :: "derived \<times> nat \<Rightarrow> derived \<times> nat \<Rightarrow> bool" where
  d_acquire: "acquireFlight d q c = Inr (c', a, created) \<Longrightarrow> dstep (c, n) (c', n)"
| d_finish: "fmlookup (dv_flights c) fid = Some a \<Longrightarrow> dstep (c, n) (flight_finish fid a res c, n)"
| d_release: "a < length (flight_heap c) \<Longrightarrow> dstep (c, n) (releaseWaiter a c, n)"
| d_begin: "beginDirect c = Inr c' \<Longrightarrow> dstep (c, n) (c', Suc n)"
| d_end: "dstep (c, Suc n) (end_active c, n)"
| d_close: "dstep (c, n) (close_section c, n)"
| d_invalidate: "dstep (c, n) (invalidate_section d tok c, n)"
| d_clear: "dstep (c, n) (clearPending d tok c, n)"

definition derived_reachable :: "derived \<times> nat \<Rightarrow> bool" where
  "derived_reachable s \<longleftrightarrow> (\<exists>sc p c. NewDerived sc p = Inr c \<and> dstep\<^sup>*\<^sup>* (c, 0) s)"

text \<open>Addresses in the table are distinct and name unfinished flights; every other flight has its outcome.\<close>

definition flights_ok :: "derived \<Rightarrow> bool" where
  "flights_ok c \<longleftrightarrow>
     (\<forall>fid a. fmlookup (dv_flights c) fid = Some a \<longrightarrow> a < length (flight_heap c) \<and> \<not> fl_completed (flight_heap c ! a))
   \<and> (\<forall>fid fid' a. fmlookup (dv_flights c) fid = Some a \<longrightarrow> fmlookup (dv_flights c) fid' = Some a \<longrightarrow> fid = fid')
   \<and> (\<forall>a < length (flight_heap c). (\<exists>fid. fmlookup (dv_flights c) fid = Some a)
        \<or> fl_completed (flight_heap c ! a) \<and> fl_outcome (flight_heap c ! a) \<noteq> None)
   \<and> (dv_closed c \<longrightarrow> (\<forall>f \<in> set (flight_heap c). fl_cancelled f))"

definition drain_ok :: "derived \<times> nat \<Rightarrow> bool" where
  "drain_ok s = (case s of (c, n) \<Rightarrow>
     dv_active c = int (fcard (fmdom (dv_flights c))) + int n
   \<and> (dv_drainClosed c \<longleftrightarrow> dv_closed c \<and> fmdom (dv_flights c) = {||} \<and> n = 0))"

lemma end_active_simps [simp]:
  "dv_flights (end_active c) = dv_flights c" "flight_heap (end_active c) = flight_heap c"
  "dv_closed (end_active c) = dv_closed c" "dv_active (end_active c) = dv_active c - 1"
  "dv_drainClosed (end_active c) = (dv_drainClosed c \<or> dv_closed c \<and> dv_active c = 1)"
  by (auto simp: end_active_def Let_def)

lemma flights_ok_end [simp]: "flights_ok (end_active c) = flights_ok c"
  by (simp add: flights_ok_def)

lemma flights_okD:
  assumes "flights_ok c"
  shows "fmlookup (dv_flights c) fid = Some a \<Longrightarrow> a < length (flight_heap c) \<and> \<not> fl_completed (flight_heap c ! a)"
    "fmlookup (dv_flights c) fid = Some a \<Longrightarrow> fmlookup (dv_flights c) fid' = Some a \<Longrightarrow> fid = fid'"
    "a < length (flight_heap c) \<Longrightarrow> (\<exists>fid. fmlookup (dv_flights c) fid = Some a)
        \<or> fl_completed (flight_heap c ! a) \<and> fl_outcome (flight_heap c ! a) \<noteq> None"
    "dv_closed c \<Longrightarrow> f \<in> set (flight_heap c) \<Longrightarrow> fl_cancelled f"
  using assms by (auto simp: flights_ok_def)

lemma flights_okI:
  assumes "\<And>fid a. fmlookup (dv_flights c) fid = Some a \<Longrightarrow> a < length (flight_heap c) \<and> \<not> fl_completed (flight_heap c ! a)"
    and "\<And>fid fid' a. fmlookup (dv_flights c) fid = Some a \<Longrightarrow> fmlookup (dv_flights c) fid' = Some a \<Longrightarrow> fid = fid'"
    and "\<And>a. a < length (flight_heap c) \<Longrightarrow> (\<exists>fid. fmlookup (dv_flights c) fid = Some a)
        \<or> fl_completed (flight_heap c ! a) \<and> fl_outcome (flight_heap c ! a) \<noteq> None"
    and "dv_closed c \<Longrightarrow> \<forall>f \<in> set (flight_heap c). fl_cancelled f"
  shows "flights_ok c"
  using assms unfolding flights_ok_def by blast

text \<open>Changing one flight without touching what it has completed with.\<close>

lemma flights_ok_update:
  assumes ok: "flights_ok c" and a: "a < length (flight_heap c)"
    and f: "fl_completed f = fl_completed (flight_heap c ! a)" "fl_outcome f = fl_outcome (flight_heap c ! a)"
      "fl_cancelled (flight_heap c ! a) \<Longrightarrow> fl_cancelled f"
  shows "flights_ok (c\<lparr>flight_heap := (flight_heap c)[a := f]\<rparr>)"
proof (rule flights_okI)
  let ?c = "c\<lparr>flight_heap := (flight_heap c)[a := f]\<rparr>"
  have e: "fl_completed (flight_heap ?c ! b) = fl_completed (flight_heap c ! b)"
    "fl_outcome (flight_heap ?c ! b) = fl_outcome (flight_heap c ! b)"
    "fl_cancelled (flight_heap c ! b) \<Longrightarrow> fl_cancelled (flight_heap ?c ! b)" for b
    using a f by (cases "b = a"; simp)+
  show "b < length (flight_heap ?c) \<and> \<not> fl_completed (flight_heap ?c ! b)" if "fmlookup (dv_flights ?c) g = Some b" for g b
    using flights_okD(1) [OF ok, of g b] that unfolding e(1) by simp
  show "g = g'" if "fmlookup (dv_flights ?c) g = Some b" "fmlookup (dv_flights ?c) g' = Some b" for g g' b
    using flights_okD(2) [OF ok] that by simp
  show "(\<exists>g. fmlookup (dv_flights ?c) g = Some b) \<or> fl_completed (flight_heap ?c ! b) \<and> fl_outcome (flight_heap ?c ! b) \<noteq> None"
    if "b < length (flight_heap ?c)" for b
    using flights_okD(3) [OF ok, of b] that unfolding e(1,2) by simp
  show "\<forall>f \<in> set (flight_heap ?c). fl_cancelled f" if "dv_closed ?c"
    using flights_okD(4) [OF ok] that e(3) unfolding all_set_conv_all_nth by simp
qed

lemma flights_ok_acquire:
  assumes ok: "flights_ok c" and a: "acquireFlight d q c = Inr (c', a, created)"
  shows "flights_ok c'"
proof (cases "fmlookup (dv_flights c) (flightID d q (epoch_of c d))")
  case None
  let ?fid = "flightID d q (epoch_of c d)" and ?n = "length (flight_heap c)"
  from a None have c': "c' = c\<lparr>flight_heap := flight_heap c @ [\<lparr>fl_waiters = 1, fl_completed = False, fl_cancelled = False, fl_outcome = None\<rparr>],
      dv_flights := fmupd ?fid ?n (dv_flights c), dv_active := dv_active c + 1\<rparr>"
    and nc: "\<not> dv_closed c"
    by (auto simp: acquireFlight_def Let_def split: if_splits)
  show ?thesis
  proof (rule flights_okI)
    fix b assume "b < length (flight_heap c')"
    then consider "b = ?n" | "b < ?n" by (auto simp: c' less_Suc_eq)
    then show "(\<exists>fid. fmlookup (dv_flights c') fid = Some b)
        \<or> fl_completed (flight_heap c' ! b) \<and> fl_outcome (flight_heap c' ! b) \<noteq> None"
    proof cases
      case 1
      then show ?thesis by (auto simp: c')
    next
      case 2
      from flights_okD(3) [OF ok this] show ?thesis
      proof (elim disjE exE)
        fix g assume "fmlookup (dv_flights c) g = Some b"
        with None have "fmlookup (dv_flights c') g = Some b" by (auto simp: c')
        then show ?thesis by blast
      qed (use 2 in \<open>simp add: c' nth_append\<close>)
    qed
  next
    have old: "b < ?n \<and> b \<noteq> ?n" if "fmlookup (dv_flights c) g = Some b" for g b using flights_okD(1) [OF ok that] by simp
    show "b < length (flight_heap c') \<and> \<not> fl_completed (flight_heap c' ! b)" if "fmlookup (dv_flights c') g = Some b" for g b
      using that flights_okD(1) [OF ok, of g b] by (auto simp: c' nth_append split: if_split_asm)
    show "g = g'" if "fmlookup (dv_flights c') g = Some b" "fmlookup (dv_flights c') g' = Some b" for g g' b
      using that flights_okD(2) [OF ok, of g b g'] old [of g] old [of g'] by (auto simp: c' split: if_split_asm)
    show "\<forall>f \<in> set (flight_heap c'). fl_cancelled f" if "dv_closed c'" using that nc by (simp add: c')
  qed
next
  case (Some b)
  with a have c': "c' = c\<lparr>flight_heap := (flight_heap c)[b := (flight_heap c ! b)\<lparr>fl_waiters := fl_waiters (flight_heap c ! b) + 1\<rparr>]\<rparr>"
    and nc: "\<not> dv_closed c"
    by (auto simp: acquireFlight_def Let_def split: if_splits)
  show ?thesis unfolding c' by (rule flights_ok_update [OF ok]) (use flights_okD(1) [OF ok Some] in simp_all)
qed

lemma flights_ok_finish:
  assumes ok: "flights_ok c" and f: "fmlookup (dv_flights c) fid = Some a"
  shows "flights_ok (flight_finish fid a res c)"
proof (rule flights_okI)
  note a = flights_okD(1) [OF ok f]
  let ?c = "flight_finish fid a res c"
  have h: "flight_heap ?c = (flight_heap c)[a := (flight_heap c ! a)\<lparr>fl_completed := True, fl_cancelled := True, fl_outcome := Some res\<rparr>]"
    and m: "dv_flights ?c = fmdrop fid (dv_flights c)" and cl: "dv_closed ?c = dv_closed c"
    using f by (simp_all add: flight_finish_def Let_def)
  have ne: "b \<noteq> a" if "fmlookup (dv_flights ?c) g = Some b" for g b
    using that flights_okD(2) [OF ok f, of g] by (auto simp: m split: if_splits)
  show "b < length (flight_heap ?c) \<and> \<not> fl_completed (flight_heap ?c ! b)" if "fmlookup (dv_flights ?c) g = Some b" for g b
    using flights_okD(1) [OF ok, of g b] ne [OF that] that by (auto simp: h m split: if_splits)
  show "g = g'" if "fmlookup (dv_flights ?c) g = Some b" "fmlookup (dv_flights ?c) g' = Some b" for g g' b
    using flights_okD(2) [OF ok, of g b g'] that by (auto simp: m split: if_splits)
  show "(\<exists>g. fmlookup (dv_flights ?c) g = Some b) \<or> fl_completed (flight_heap ?c ! b) \<and> fl_outcome (flight_heap ?c ! b) \<noteq> None"
    if "b < length (flight_heap ?c)" for b
  proof (cases "b = a")
    case False
    have "b < length (flight_heap c)" using that by (simp add: h)
    from flights_okD(3) [OF ok this] show ?thesis
    proof (elim disjE exE)
      fix g assume g: "fmlookup (dv_flights c) g = Some b"
      with f False have "fmlookup (dv_flights ?c) g = Some b" by (auto simp: m)
      then show ?thesis by blast
    qed (use False in \<open>simp add: h\<close>)
  qed (use a in \<open>simp add: h\<close>)
  show "\<forall>f \<in> set (flight_heap ?c). fl_cancelled f" if "dv_closed ?c"
    using flights_okD(4) [OF ok] that cl by (auto simp: h dest!: set_update_subset_insert [THEN subsetD])
qed

lemma flights_ok_release: "flights_ok c \<Longrightarrow> a < length (flight_heap c) \<Longrightarrow> flights_ok (releaseWaiter a c)"
  unfolding releaseWaiter_def Let_def by (rule flights_ok_update) (simp_all split: if_splits)

lemma flights_ok_close: "flights_ok c \<Longrightarrow> flights_ok (close_section c)"
  by (auto simp: flights_ok_def close_section_def Let_def)

lemma dstep_flights_ok: "dstep s s' \<Longrightarrow> flights_ok (fst s) \<Longrightarrow> flights_ok (fst s')"
proof (induction rule: dstep.induct)
  case (d_acquire d q c c' a created n)
  then show ?case using flights_ok_acquire by simp
next
  case (d_finish c fid a n res)
  then show ?case using flights_ok_finish by simp
next
  case (d_release a c n)
  then show ?case using flights_ok_release by simp
next
  case (d_begin c c' n)
  then show ?case by (auto simp: beginDirect_def flights_ok_def split: if_splits)
next
  case (d_close c n)
  then show ?case using flights_ok_close by simp
qed (auto simp: flights_ok_def invalidate_section_def clearPending_def)

lemma fcard_drop: "fmlookup m k = Some v \<Longrightarrow> fcard (fmdom m) = Suc (fcard (fmdom m |-| {|k|}))"
  by (metis fcard_Suc_fminus1 fmdomI)

lemma nothing_left: "int (fcard S) + int n = 0 \<longleftrightarrow> S = {||} \<and> n = 0"
  by (simp add: add_nonneg_eq_0_iff)

lemma dstep_drain_ok: "dstep s s' \<Longrightarrow> flights_ok (fst s) \<Longrightarrow> drain_ok s \<Longrightarrow> drain_ok s'"
proof (induction rule: dstep.induct)
  case (d_acquire d q c c' a created n)
  then show ?case
    by (auto simp: acquireFlight_def drain_ok_def Let_def fcard_finsert_if fmlookup_dom_iff split: if_splits option.splits)
next
  case (d_finish c fid a n res)
  note fcard_drop [OF d_finish(1)]
  moreover have "fmdom (dv_flights c) \<noteq> {||}" using fmdomI [OF d_finish(1)] by auto
  ultimately show ?case using d_finish nothing_left [of "fmdom (dv_flights c) |-| {|fid|}" n]
    by (simp add: flight_finish_def drain_ok_def Let_def)
next
  case (d_begin c c' n)
  then show ?case by (auto simp: beginDirect_def drain_ok_def split: if_splits)
next
  case (d_end c n)
  then show ?case using nothing_left [of "fmdom (dv_flights c)" n] by (simp add: drain_ok_def)
next
  case (d_close c n)
  then show ?case using nothing_left [of "fmdom (dv_flights c)" n] by (simp add: drain_ok_def close_section_def Let_def)
qed (auto simp: drain_ok_def invalidate_section_def clearPending_def releaseWaiter_def Let_def)

lemma derived_reachable_ok: "derived_reachable s \<Longrightarrow> flights_ok (fst s) \<and> drain_ok s"
proof -
  assume "derived_reachable s"
  then obtain sc p c where new: "NewDerived sc p = Inr c" and steps: "dstep\<^sup>*\<^sup>* (c, 0) s"
    by (auto simp: derived_reachable_def)
  from new have "flights_ok c" "drain_ok (c, 0)"
    by (auto simp: NewDerived_def flights_ok_def drain_ok_def split: option.splits)
  with steps show ?thesis
    by (induction rule: rtranclp_induct) (auto intro: dstep_drain_ok dest: dstep_flights_ok)
qed

text \<open>
  C21. Close drains: under any order of loads, finished flights, departing callers, direct operations,
  invalidations and closes, the number of active operations is the number of flights in the table plus the
  direct operations under way, and the drain \<open>Close\<close> waits for is closed exactly when the cache is closed
  and no operation is left. Once the cache is closed every flight is cancelled and no load or direct operation
  begins, so what remains can only finish.
\<close>

theorem Close_drains_every_operation:
  assumes "derived_reachable (c, n)"
  shows "dv_active c = int (fcard (fmdom (dv_flights c))) + int n
     \<and> (dv_drainClosed c \<longleftrightarrow> dv_closed c \<and> fmdom (dv_flights c) = {||} \<and> n = 0)
     \<and> (dv_closed c \<longrightarrow> (\<forall>f \<in> set (flight_heap c). fl_cancelled f)
          \<and> (\<forall>d q. acquireFlight d q c = Inl (Sentinel ErrClosed)) \<and> beginDirect c = Inl (Sentinel ErrClosed))"
  using derived_reachable_ok [OF assms] flights_okD(4) [of c]
  by (simp add: drain_ok_def acquireFlight_def beginDirect_def)

text \<open>
  C22. Flights are shared and answered: in every reachable state the table maps distinct identities to distinct
  flights that have not completed, and every flight that is no longer in the table has completed with an
  outcome, so a caller that waits for it is woken and finds one.
\<close>

theorem flights_are_shared_and_answered:
  assumes "derived_reachable (c, n)"
  shows "(\<forall>fid a. fmlookup (dv_flights c) fid = Some a \<longrightarrow>
            a < length (flight_heap c) \<and> \<not> fl_completed (flight_heap c ! a)
            \<and> (\<forall>fid'. fmlookup (dv_flights c) fid' = Some a \<longrightarrow> fid' = fid))
     \<and> (\<forall>a < length (flight_heap c). a \<notin> ran (fmlookup (dv_flights c)) \<longrightarrow>
            fl_completed (flight_heap c ! a) \<and> fl_outcome (flight_heap c ! a) \<noteq> None)"
proof -
  have ok: "flights_ok c" using derived_reachable_ok [OF assms] by simp
  have "fl_completed (flight_heap c ! a) \<and> fl_outcome (flight_heap c ! a) \<noteq> None"
    if "a < length (flight_heap c)" "a \<notin> ran (fmlookup (dv_flights c))" for a
    using flights_okD(3) [OF ok that(1)] that(2) by (auto simp only: ran_def mem_Collect_eq)
  with flights_okD(1,2) [OF ok] show ?thesis by blast
qed

text \<open>One load is under way when the cache is closed; it ends, and the drain closes.\<close>

definition demo_policy :: cachePolicy where
  "demo_policy = \<lparr>pol_Authority = ''database'', pol_Namespace = ''q'', pol_TTL = 1, pol_MaxPayloadBytes = 8,
     pol_FailureMode = ''bypass-authority'', pol_Reconstruction = ''loader''\<rparr>"

definition demo_loading :: "scope \<Rightarrow> derived" where
  "demo_loading sc =
     \<lparr>dv_scope = sc, dv_policy = demo_policy, dv_closed = True, dv_drainClosed = False, dv_active = 1,
      dv_flights = fmupd (flightID ''d'' ''q'' 0) 0 fmempty,
      flight_heap = [\<lparr>fl_waiters = 1, fl_completed = False, fl_cancelled = True, fl_outcome = None\<rparr>],
      dv_epochs = fmempty, dv_pending = fmempty\<rparr>"

lemma demo_loading_reachable: "derived_reachable (demo_loading sc, 0)"
proof -
  have "policy_validate demo_policy = None" by code_simp
  then obtain c where c: "NewDerived (Some sc) demo_policy = Inr c"
    "c = \<lparr>dv_scope = sc, dv_policy = demo_policy, dv_closed = False, dv_drainClosed = False, dv_active = 0,
          dv_flights = fmempty, flight_heap = [], dv_epochs = fmempty, dv_pending = fmempty\<rparr>"
    by (simp add: NewDerived_def)
  let ?c1 = "c\<lparr>flight_heap := [\<lparr>fl_waiters = 1, fl_completed = False, fl_cancelled = False, fl_outcome = None\<rparr>],
     dv_flights := fmupd (flightID ''d'' ''q'' 0) 0 fmempty, dv_active := 1\<rparr>"
  have "dstep (c, 0) (?c1, 0)"
    by (rule d_acquire [of "''d''" "''q''" c ?c1 0 True]) (simp add: c(2) acquireFlight_def epoch_of_def Let_def)
  moreover have "close_section ?c1 = demo_loading sc" by (simp add: c(2) close_section_def Let_def demo_loading_def)
  then have "dstep (?c1, 0) (demo_loading sc, 0)" using d_close [of ?c1 0] by simp
  ultimately have "dstep\<^sup>*\<^sup>* (c, 0) (demo_loading sc, 0)"
    by (meson converse_rtranclp_into_rtranclp rtranclp.rtrancl_refl)
  with c(1) show ?thesis unfolding derived_reachable_def by blast
qed

lemma Close_drains_every_operation_witness:
  "derived_reachable (demo_loading (demo_scope ''bus'' 0), 0)
   \<and> beginDirect (demo_loading (demo_scope ''bus'' 0)) = Inl (Sentinel ErrClosed)
   \<and> \<not> dv_drainClosed (demo_loading (demo_scope ''bus'' 0))"
proof -
  let ?c = "demo_loading (demo_scope ''bus'' 0)"
  have "dv_closed ?c" "fmdom (dv_flights ?c) \<noteq> {||}" by (simp_all add: demo_loading_def)
  with Close_drains_every_operation [OF demo_loading_reachable, of "demo_scope ''bus'' 0"] demo_loading_reachable
  show ?thesis by simp
qed

lemma flights_are_shared_and_answered_witness:
  "derived_reachable (demo_loading (demo_scope ''bus'' 0), 0)
   \<and> \<not> fl_completed (flight_heap (demo_loading (demo_scope ''bus'' 0)) ! 0)"
proof -
  let ?c = "demo_loading (demo_scope ''bus'' 0)"
  have "fmlookup (dv_flights ?c) (flightID ''d'' ''q'' 0) = Some 0" by (simp add: demo_loading_def)
  with flights_are_shared_and_answered [OF demo_loading_reachable, of "demo_scope ''bus'' 0", THEN conjunct1, rule_format, of _ 0]
    demo_loading_reachable
  show ?thesis by blast
qed

text \<open>
  An abandoned flight answers the next caller: when the only caller of a flight leaves before the flight
  has completed, its context is cancelled but the flight stays in the table until its goroutine ends. A load of
  the same query that begins in between, with a context of its own that is not done, joins that cancelled
  flight instead of starting one.
\<close>

theorem abandoned_flight_is_joined:
  "\<exists>c c1 a c3. derived_reachable (c, 0) \<and> acquireFlight ''d'' ''q'' c = Inr (c1, a, True)
     \<and> acquireFlight ''d'' ''q'' (releaseWaiter a c1) = Inr (c3, a, False)
     \<and> fl_cancelled (flight_heap c3 ! a) \<and> \<not> fl_completed (flight_heap c3 ! a) \<and> \<not> dv_closed c3"
proof -
  let ?sc = "demo_scope ''bus'' 0"
  have "policy_validate demo_policy = None" by code_simp
  then obtain c where c: "NewDerived (Some ?sc) demo_policy = Inr c"
    "c = \<lparr>dv_scope = ?sc, dv_policy = demo_policy, dv_closed = False, dv_drainClosed = False, dv_active = 0,
          dv_flights = fmempty, flight_heap = [], dv_epochs = fmempty, dv_pending = fmempty\<rparr>"
    by (simp add: NewDerived_def)
  have "derived_reachable (c, 0)" using c(1) by (auto simp: derived_reachable_def)
  moreover obtain c1 where c1: "acquireFlight ''d'' ''q'' c = Inr (c1, 0, True)"
    "flight_heap c1 = [\<lparr>fl_waiters = 1, fl_completed = False, fl_cancelled = False, fl_outcome = None\<rparr>]"
    "fmlookup (dv_flights c1) (flightID ''d'' ''q'' 0) = Some 0" "\<not> dv_closed c1" "dv_epochs c1 = fmempty"
    by (simp add: c(2) acquireFlight_def epoch_of_def Let_def)
  moreover have "flight_heap (releaseWaiter 0 c1) = [\<lparr>fl_waiters = 0, fl_completed = False, fl_cancelled = True, fl_outcome = None\<rparr>]"
    "dv_flights (releaseWaiter 0 c1) = dv_flights c1" "dv_closed (releaseWaiter 0 c1) = dv_closed c1"
    "dv_epochs (releaseWaiter 0 c1) = dv_epochs c1"
    using c1(2) by (simp_all add: releaseWaiter_def Let_def)
  then obtain c3 where "acquireFlight ''d'' ''q'' (releaseWaiter 0 c1) = Inr (c3, 0, False)"
    "fl_cancelled (flight_heap c3 ! 0)" "\<not> fl_completed (flight_heap c3 ! 0)" "\<not> dv_closed c3"
    using c1 by (simp add: acquireFlight_def epoch_of_def Let_def)
  ultimately show ?thesis by blast
qed

end
