(* ===== verification/Cache_Ops.thy ===== *)
theory Cache_Ops
  imports Cache_Core
begin

text \<open>
  The methods of \<open>Derived\<close> and \<open>QueryCache\<close>. A caller waits for its flight in a \<open>select\<close>; \<open>wait\<close> is the arm
  that is taken. A flight the call created is run to its end first, a flight it joined is completed by
  the others (\<open>others\<close>).
\<close>

datatype wait = FlightDone | CallerDone sentinel | LifeDone

definition flight_result :: "wait \<Rightarrow> nat \<Rightarrow> derived \<Rightarrow> goerr + outcome" where
  "flight_result wait a c =
     (case wait of
        FlightDone \<Rightarrow> (case fl_outcome (flight_heap c ! a) of Some r \<Rightarrow> r | None \<Rightarrow> Inl (Sentinel ErrClosed))
      | CallerDone e \<Rightarrow> Inl (Sentinel e)
      | LifeDone \<Rightarrow> Inl (Sentinel ErrClosed))"

definition runFlight :: "'p cache_env \<Rightarrow> string \<Rightarrow> nat \<Rightarrow> string \<Rightarrow> string \<Rightarrow> 'p loader \<Rightarrow> 'p kstate \<Rightarrow> 'p kstate" where
  "runFlight E fid a datasetID queryID loader k =
     (case execute E datasetID queryID loader k of
        (k1, res) \<Rightarrow> k1\<lparr>k_dv := flight_finish fid a res (k_dv k1)\<rparr>)"

text \<open>\<open>present\<close> tells whether the receiver is non-nil.\<close>

definition Load :: "crypto \<Rightarrow> 'p cache_env \<Rightarrow> rctx \<Rightarrow> bool \<Rightarrow> cacheTarget \<Rightarrow> 'p loader option \<Rightarrow> wait
    \<Rightarrow> ('p kstate \<Rightarrow> 'p kstate) \<Rightarrow> 'p kstate \<Rightarrow> 'p kstate \<times> (goerr + outcome)" where
  "Load K E ctx present target loader wait others k =
     (case ctx of
        RNil \<Rightarrow> (k, Inl (validationError ErrInvalidTarget ''context'' ''is required''))
      | RCtx (Some e) \<Rightarrow> (k, Inl (Sentinel e))
      | RCtx None \<Rightarrow>
          if \<not> present then (k, Inl (Sentinel ErrClosed))
          else
            (case loader of
               None \<Rightarrow> (k, Inl (validationError ErrInvalidTarget ''loader'' ''is required''))
             | Some load \<Rightarrow>
                 (case target_validate target of
                    Some e \<Rightarrow> (k, Inl e)
                  | None \<Rightarrow>
                      (let (datasetID, queryID) = targetIDs K target in
                       case acquireFlight datasetID queryID (k_dv k) of
                         Inl e \<Rightarrow> (k, Inl e)
                       | Inr (c1, a, created) \<Rightarrow>
                           (let fid = flightID datasetID queryID (epoch_of (k_dv k) datasetID);
                                k1 = k\<lparr>k_dv := c1\<rparr>;
                                k2 = (if created then runFlight E fid a datasetID queryID load k1 else others k1)
                            in (k2\<lparr>k_dv := releaseWaiter a (k_dv k2)\<rparr>, flight_result wait a (k_dv k2)))))))"

definition directContextError :: "'p cache_env \<Rightarrow> 'p \<Rightarrow> goerr option" where
  "directContextError E p =
     (if ke_closed E p then Some (Sentinel ErrClosed)
      else (case ke_caller_err E p of Some e \<Rightarrow> Some (Sentinel e) | None \<Rightarrow> None))"

text \<open>The deferred \<open>finish\<close> of a direct operation.\<close>

definition direct :: "('p kstate \<Rightarrow> 'p kstate \<times> (goerr + 'r)) \<Rightarrow> 'p kstate \<Rightarrow> 'p kstate \<times> (goerr + 'r)" where
  "direct body k =
     (case beginDirect (k_dv k) of
        Inl e \<Rightarrow> (k, Inl e)
      | Inr c1 \<Rightarrow> (case body (k\<lparr>k_dv := c1\<rparr>) of (k1, r) \<Rightarrow> (k1\<lparr>k_dv := end_active (k_dv k1)\<rparr>, r)))"

definition authorityBypass :: "'p cache_env \<Rightarrow> 'p loader \<Rightarrow> cacheStatus \<Rightarrow> 'p kstate \<Rightarrow> 'p kstate \<times> (goerr + outcome)" where
  "authorityBypass E loader status =
     direct (\<lambda>k. case fromAuthority E loader status k of
       (k1, r) \<Rightarrow> (k1, case directContextError E (k_prov k1) of Some e \<Rightarrow> Inl e | None \<Rightarrow> r))"

definition ErrGenerationFailed :: goerr where "ErrGenerationFailed = Sentinel (Foreign 305)"

text \<open>\<open>random\<close> are the 16 bytes read from \<open>crypto/rand\<close>, \<open>None\<close> when it fails.\<close>

definition Invalidate :: "crypto \<Rightarrow> 'p cache_env \<Rightarrow> rctx \<Rightarrow> bool \<Rightarrow> dataset \<Rightarrow> string option \<Rightarrow> 'p kstate
    \<Rightarrow> 'p kstate \<times> (goerr + cacheStatus)" where
  "Invalidate K E ctx present d random k =
     (case ctx of
        RNil \<Rightarrow> (k, Inl (validationError ErrInvalidTarget ''context'' ''is required''))
      | RCtx (Some e) \<Rightarrow> (k, Inl (Sentinel e))
      | RCtx None \<Rightarrow>
          if \<not> present then (k, Inl (Sentinel ErrClosed))
          else
            (case dataset_validate d of
               Some e \<Rightarrow> (k, Inl e)
             | None \<Rightarrow>
                 direct (\<lambda>k.
                   case random of
                     None \<Rightarrow> (k, Inl ErrGenerationFailed)
                   | Some bytes \<Rightarrow>
                       (let token = hex_EncodeToString bytes; datasetID = datasetIdentity K d;
                            k1 = k\<lparr>k_dv := invalidate_section datasetID token (k_dv k)\<rparr> in
                        case setGeneration E datasetID token k1 of
                          (k2, Some _) \<Rightarrow>
                            (k2, case directContextError E (k_prov k2) of
                                   Some e \<Rightarrow> Inl e
                                 | None \<Rightarrow> Inr StatusProviderBypass)
                        | (k2, None) \<Rightarrow>
                            (k2\<lparr>k_dv := clearPending datasetID token (k_dv k2)\<rparr>, Inr StatusInvalidated))) k))"

text \<open>\<open>drained\<close>: which arm the final \<open>select\<close> takes, after the others ran (\<open>others\<close>).\<close>

definition cache_Close :: "rctx \<Rightarrow> bool \<Rightarrow> (derived \<Rightarrow> derived) \<Rightarrow> sentinel option \<Rightarrow> derived \<Rightarrow> derived \<times> goerr option" where
  "cache_Close ctx present others expired c =
     (if \<not> present then (c, None)
      else if ctx = RNil then (c, Some (validationError ErrInvalidTarget ''context'' ''is required''))
      else
        (let c1 = others (close_section c)
         in (c1, case expired of None \<Rightarrow> None | Some e \<Rightarrow> Some (Sentinel e))))"

section \<open>Queries\<close>

text \<open>A query cache is a derived cache with the GORM conventions around it.\<close>

definition NewQueryCache :: "scope option \<Rightarrow> cachePolicy \<Rightarrow> goerr + derived" where
  "NewQueryCache sc p = NewDerived sc p"

definition ErrRecordNotFound :: sentinel where "ErrRecordNotFound = Foreign 310"

definition not_found_result :: cacheResult where
  "not_found_result = \<lparr>r_Payload = [], r_RowsAffected = 0, r_NotFound = True\<rparr>"

text \<open>The loader \<open>QueryCache.Load\<close> wraps around the query.\<close>

definition query_loader :: "'p loader \<Rightarrow> 'p loader" where
  "query_loader loader p =
     (case loader p of
        (p1, Inl e) \<Rightarrow> (p1, if errors_Is e ErrRecordNotFound then Inr not_found_result else Inl e)
      | (p1, Inr r) \<Rightarrow> (p1, Inr r))"

text \<open>The result with the error that goes with it.\<close>

definition restoreNotFound :: "outcome \<Rightarrow> outcome \<times> goerr option" where
  "restoreNotFound o1 = (o1, if r_NotFound (out_Result o1) then Some (Sentinel ErrRecordNotFound) else None)"

text \<open>The pools of a handle: \<open>Some True\<close> is one that implements \<open>gorm.TxCommitter\<close>.\<close>

definition isTransactionPool :: "bool option \<Rightarrow> bool" where
  "isTransactionPool pool = (pool = Some True)"

record gormDB =
  db_Statement :: "bool option option"
  db_ConnPool :: "bool option"

definition activeGORMTransaction :: "gormDB option \<Rightarrow> bool" where
  "activeGORMTransaction handle =
     (case handle of
        None \<Rightarrow> False
      | Some d \<Rightarrow>
          (case db_Statement d of Some pool \<Rightarrow> isTransactionPool pool | None \<Rightarrow> False)
          \<or> isTransactionPool (db_ConnPool d))"

definition QueryCache_Load :: "crypto \<Rightarrow> 'p cache_env \<Rightarrow> rctx \<Rightarrow> bool \<Rightarrow> gormDB option \<Rightarrow> cacheTarget \<Rightarrow> 'p loader option
    \<Rightarrow> wait \<Rightarrow> ('p kstate \<Rightarrow> 'p kstate) \<Rightarrow> 'p kstate \<Rightarrow> 'p kstate \<times> (goerr + outcome \<times> goerr option)" where
  "QueryCache_Load K E ctx present handle target loader wait others k =
     (case ctx of
        RNil \<Rightarrow> (k, Inl (validationError ErrInvalidTarget ''context'' ''is required''))
      | RCtx (Some e) \<Rightarrow> (k, Inl (Sentinel e))
      | RCtx None \<Rightarrow>
          if \<not> present then (k, Inl (Sentinel ErrClosed))
          else if handle = None then (k, Inl (validationError ErrInvalidTarget ''database'' ''is required''))
          else
            (case loader of
               None \<Rightarrow> (k, Inl (validationError ErrInvalidTarget ''loader'' ''is required''))
             | Some load \<Rightarrow>
                 (case target_validate target of
                    Some e \<Rightarrow> (k, Inl e)
                  | None \<Rightarrow>
                      (case (if activeGORMTransaction handle then authorityBypass E (query_loader load) StatusTransactionBypass k
                             else Load K E ctx present target (Some (query_loader load)) wait others k) of
                         (k1, Inl e) \<Rightarrow> (k1, Inl e)
                       | (k1, Inr o1) \<Rightarrow> (k1, Inr (restoreNotFound o1))))))"

definition QueryCache_Invalidate :: "crypto \<Rightarrow> 'p cache_env \<Rightarrow> rctx \<Rightarrow> bool \<Rightarrow> dataset \<Rightarrow> string option \<Rightarrow> 'p kstate
    \<Rightarrow> 'p kstate \<times> (goerr + cacheStatus)" where
  "QueryCache_Invalidate K E ctx present d random k =
     (if \<not> present then (k, Inl (Sentinel ErrClosed)) else Invalidate K E ctx present d random k)"

definition QueryCache_Close :: "rctx \<Rightarrow> bool \<Rightarrow> (derived \<Rightarrow> derived) \<Rightarrow> sentinel option \<Rightarrow> derived \<Rightarrow> derived \<times> goerr option" where
  "QueryCache_Close ctx present others expired c =
     (if \<not> present then (c, None) else cache_Close ctx present others expired c)"

text \<open>
  The keys of a derived cache: every one is a logical key the lease qualifies, and the parts it is made of
  can be read back from it.
\<close>

lemma digest_hex: "crypto_laws K \<Longrightarrow> length (cache_digest K v) = 64 \<and> (\<forall>c \<in> set (cache_digest K v). is_digit c \<or> is_lower c)"
  using set_hex by (auto simp: cache_digest_def crypto_laws_def length_hex)

definition hex_id :: "string \<Rightarrow> bool" where
  "hex_id s \<longleftrightarrow> length s = 64 \<and> (\<forall>c \<in> set s. is_digit c \<or> is_lower c)"

lemma targetIDs_hex: "crypto_laws K \<Longrightarrow> targetIDs K t = (d, q) \<Longrightarrow> hex_id d \<and> hex_id q"
  using digest_hex by (auto simp: targetIDs_def datasetIdentity_def hex_id_def)

lemma validGeneration_chars:
  "validGeneration g \<Longrightarrow> g \<noteq> [] \<and> length g \<le> 32"
  by (auto simp: validGeneration_def baseGeneration_def)

lemma hex_value_char: "hex_value c \<noteq> None \<Longrightarrow> is_digit c \<or> is_lower c \<or> is_upper c"
  by (auto simp: hex_value_def char_in_code split: if_splits)

lemma hex_DecodeString_chars: "hex_DecodeString s \<noteq> None \<Longrightarrow> \<forall>c \<in> set s. is_digit c \<or> is_lower c \<or> is_upper c"
proof (induction s rule: hex_DecodeString.induct)
  case (3 a b s)
  then show ?case using hex_value_char [of a] hex_value_char [of b] by (auto split: option.splits)
qed auto

lemma generation_segment:
  assumes "validGeneration g"
  shows "\<forall>c \<in> set g. segment_char c" "g \<noteq> []" "g \<noteq> ''.''" "g \<noteq> ''..''" "length g \<le> 32"
proof -
  show "\<forall>c \<in> set g. segment_char c"
    using assms hex_DecodeString_chars [of g]
    by (auto simp: validGeneration_def baseGeneration_def segment_char_def char_in_code)
  show "g \<noteq> []" "g \<noteq> ''.''" "g \<noteq> ''..''" "length g \<le> 32"
    using assms by (auto simp: validGeneration_def baseGeneration_def)
qed

lemma hex_segment:
  assumes "hex_id s"
  shows "\<forall>c \<in> set s. segment_char c" "s \<noteq> []" "s \<noteq> ''.''" "s \<noteq> ''..''" "length s = 64"
  using assms by (auto simp: hex_id_def segment_char_def)

lemma namespace_segment:
  assumes "validNamespace n"
  shows "\<forall>c \<in> set n. segment_char c" "n \<noteq> []" "n \<noteq> ''.''" "n \<noteq> ''..''" "length n \<le> 63"
  using validNamespace_chars [OF assms] assms
  by (auto simp: namespace_char_def segment_char_def validNamespace_def)

lemma segment_printable: "segment_char c \<Longrightarrow> printable c"
  by (auto simp: segment_char_def char_in_code byte_in_def)

lemma segment_no_slash: "segment_char c \<Longrightarrow> c \<notin> set ('':{}/'' @ [CHR 0x5C])"
  by (auto simp: segment_char_def char_in_code)

definition segment_ok :: "string \<Rightarrow> bool" where
  "segment_ok s \<longleftrightarrow> s \<noteq> [] \<and> s \<noteq> ''.'' \<and> s \<noteq> ''..'' \<and> (\<forall>c \<in> set s. segment_char c)"

lemma segment_ok_slash: "segment_ok s \<Longrightarrow> CHR ''/'' \<notin> set s"
  using segment_no_slash by (auto simp: segment_ok_def)

fun path_of :: "string list \<Rightarrow> string" where
  "path_of [] = []"
| "path_of [s] = s"
| "path_of (s # t # ss) = s @ CHR ''/'' # path_of (t # ss)"

lemma path_facts:
  "ss \<noteq> [] \<Longrightarrow> list_all segment_ok ss \<Longrightarrow>
   strings_Split (CHR ''/'') (path_of ss) = ss \<and> path_of ss \<noteq> [] \<and> hd (path_of ss) \<noteq> CHR ''/''
   \<and> last (path_of ss) \<noteq> CHR ''/''
   \<and> \<not> strings_Contains (path_of ss) [CHR ''/'', CHR ''/'']
   \<and> (\<forall>c \<in> set (path_of ss). segment_char c \<or> c = CHR ''/'')"
proof (induction ss rule: path_of.induct)
  case (2 s)
  then have s: "CHR ''/'' \<notin> set s" "s \<noteq> []" "\<forall>c \<in> set s. segment_char c"
    using segment_ok_slash by (auto simp: segment_ok_def)
  then have "hd s \<noteq> CHR ''/''" "last s \<noteq> CHR ''/''" by (metis hd_in_set, metis last_in_set)
  with s Contains_needs [of s "CHR ''/''" "''/''"] Split_none [of "CHR ''/''" s] show ?case by auto
next
  case (3 s t ss)
  then have s: "CHR ''/'' \<notin> set s" "s \<noteq> []" "\<forall>c \<in> set s. segment_char c"
    using segment_ok_slash by (auto simp: segment_ok_def)
  have ih: "strings_Split (CHR ''/'') (path_of (t # ss)) = t # ss" "path_of (t # ss) \<noteq> []"
    "hd (path_of (t # ss)) \<noteq> CHR ''/''" "last (path_of (t # ss)) \<noteq> CHR ''/''"
    "\<not> strings_Contains (path_of (t # ss)) [CHR ''/'', CHR ''/'']"
    "\<forall>c \<in> set (path_of (t # ss)). segment_char c \<or> c = CHR ''/''"
    using 3 by auto
  have h: "hd s \<noteq> CHR ''/''" using s by (metis hd_in_set)
  show ?case
    using s ih h Split_join [OF s(1), of "path_of (t # ss)"]
      no_double_sep [OF s(1,2) ih(2,3,5)] by auto
qed simp

lemma path_valid:
  assumes "ss \<noteq> []" and "list_all segment_ok ss" and "length (path_of ss) \<le> 512"
  shows "validLogicalKey (path_of ss)"
proof -
  note f = path_facts [OF assms(1,2)]
  have ch: "segment_char c \<or> c = CHR ''/''" if "c \<in> set (path_of ss)" for c using f that by blast
  have slash: "printable (CHR ''/'')" "CHR ''/'' \<notin> set ('':{}'' @ [CHR 0x5C])" by (simp_all add: byte_in_def)
  have p: "\<forall>c \<in> set (path_of ss). printable c" using ch segment_printable slash(1) by blast
  have "c \<notin> set ('':{}'' @ [CHR 0x5C])" if "c \<in> set (path_of ss)" for c
    using ch [OF that] slash(2) segment_no_slash [of c] by auto
  then have no: "\<not> strings_ContainsAny (path_of ss) ('':{}'' @ [CHR 0x5C])"
    unfolding strings_ContainsAny_def list_ex_iff by blast
  have pre: "\<not> strings_HasPrefix (path_of ss) ''/''" using f by (cases "path_of ss") (auto simp: strings_HasPrefix_def)
  have suf: "\<not> strings_HasSuffix (path_of ss) ''/''"
  proof (cases "path_of ss" rule: rev_cases)
    case (snoc ys y)
    with f have "y \<noteq> CHR ''/''" by simp
    with snoc show ?thesis by (simp add: strings_HasSuffix_def)
  qed (simp add: strings_HasSuffix_def)
  have "list_all (\<lambda>segment. segment \<noteq> [] \<and> segment \<noteq> ''.'' \<and> segment \<noteq> ''..'' \<and> list_all segment_char segment) ss"
    using assms(2) by (auto simp: list_all_iff segment_ok_def)
  with f no pre suf assms(3) TrimSpace_printable [OF p] utf8_valid_printable [OF p] show ?thesis
    by (simp add: validLogicalKey_def maxLogicalKeyBytes_def)
qed

lemma path_inject:
  assumes "ss \<noteq> []" "list_all segment_ok ss" "ts \<noteq> []" "list_all segment_ok ts" and "path_of ss = path_of ts"
  shows "ss = ts"
  using path_facts [OF assms(1,2)] path_facts [OF assms(3,4)] assms(5) by metis

lemma fixed_segments: "segment_ok ''entry''" "segment_ok ''generation''"
  by (auto simp: segment_ok_def segment_char_def char_in_code)

lemma generationKey_path: "generationKey p d = path_of [pol_Namespace p, ''generation'', d]"
  by (simp add: generationKey_def)

lemma entryKey_path: "entryKey p d q g = path_of [pol_Namespace p, ''entry'', d, g, q]"
  by (simp add: entryKey_def)

lemma segments_ok:
  "validNamespace n \<Longrightarrow> segment_ok n" "hex_id d \<Longrightarrow> segment_ok d" "validGeneration g \<Longrightarrow> segment_ok g"
  using namespace_segment hex_segment generation_segment by (auto simp: segment_ok_def)

lemma cache_keys_valid:
  assumes "validNamespace (pol_Namespace p)" "hex_id d" "hex_id q" "validGeneration g"
  shows "validLogicalKey (generationKey p d)" "validLogicalKey (entryKey p d q g)"
proof -
  have l: "length (pol_Namespace p) \<le> 63" "length d = 64" "length q = 64" "length g \<le> 32"
    using namespace_segment(5) [OF assms(1)] assms(2,3) generation_segment(5) [OF assms(4)] by (simp_all add: hex_id_def)
  have ok: "list_all segment_ok [pol_Namespace p, ''generation'', d]"
    "list_all segment_ok [pol_Namespace p, ''entry'', d, g, q]"
    using segments_ok assms fixed_segments by simp_all
  show "validLogicalKey (generationKey p d)" unfolding generationKey_path by (rule path_valid [OF _ ok(1)]) (use l in simp_all)
  show "validLogicalKey (entryKey p d q g)" unfolding entryKey_path by (rule path_valid [OF _ ok(2)]) (use l in simp_all)
qed

end
