(* ===== verification/Cache_Guarantees.thy ===== *)
theory Cache_Guarantees
  imports Cache_Ops Redis_Scopes
begin

text \<open>
  What one operation of a derived cache guarantees whatever the provider does: the database stays the
  authority, what was written can be read back, keys do not collide, and an invalidation that did not reach
  the provider is made up for before the provider is read again.
\<close>

section \<open>What an operation leaves alone\<close>

lemma in_scope_dv [simp]: "in_scope E v0 f k = (k', v, e) \<Longrightarrow> k_dv k' = k_dv k"
  by (auto simp: in_scope_def split: prod.splits use_result.splits)

lemma setGeneration_dv: "setGeneration E d g k = (k', e) \<Longrightarrow> k_dv k' = k_dv k"
  by (auto simp: setGeneration_def split: prod.splits)

lemma cache_read_dv: "cache_read E d q g k = (k', r) \<Longrightarrow> k_dv k' = k_dv k"
  by (auto simp: cache_read_def split: prod.splits option.splits)

lemma cache_write_dv: "cache_write E d q g r k = (k', e) \<Longrightarrow> k_dv k' = k_dv k"
  by (auto simp: cache_write_def Let_def split: prod.splits)

lemma load_authority_dv: "load_authority loader k = (k', r) \<Longrightarrow> k_dv k' = k_dv k"
  by (auto simp: load_authority_def split: prod.splits sum.splits)

lemma clearPending_same [simp]:
  "dv_policy (clearPending d g c) = dv_policy c" "dv_epochs (clearPending d g c) = dv_epochs c"
  "dv_closed (clearPending d g c) = dv_closed c"
  by (simp_all add: clearPending_def)

definition context_error :: "'p cache_env \<Rightarrow> goerr \<Rightarrow> bool" where
  "context_error E e \<longleftrightarrow> (\<exists>p s. ke_err E p = Some s \<and> e = Sentinel s)"

lemma context_errorI: "ke_err E p = Some s \<Longrightarrow> context_error E (Sentinel s)"
  by (auto simp: context_error_def)

lemma cache_generation_facts:
  assumes "cache_generation E d k = (k', r)"
  shows "dv_policy (k_dv k') = dv_policy (k_dv k)" "r = Inl e \<Longrightarrow> context_error E e"
proof -
  let ?p = "pendingGeneration d (k_dv k)"
  obtain k1 rep where r1: "(if ?p \<noteq> [] then setGeneration E d ?p k else (k, None)) = (k1, rep)" by fastforce
  then have dv: "k_dv k1 = k_dv k" using setGeneration_dv by (auto split: if_splits)
  let ?k2 = "if ?p \<noteq> [] then k1\<lparr>k_dv := clearPending d ?p (k_dv k1)\<rparr> else k1"
  obtain k3 v e3 where r3: "in_scope E None
     (get_callback E (generationKey (dv_policy (k_dv ?k2)) d)
       (\<lambda>candidate. if validGeneration candidate then None else Some (redis_sentinel Redis_ErrCommandFailed))) ?k2 = (k3, v, e3)"
    using prod_cases3 by blast
  note run = assms [unfolded cache_generation_def Let_def r1 prod.case r3]
  have dv3: "dv_policy (k_dv k3) = dv_policy (k_dv k)" using in_scope_dv [OF r3] dv by simp
  show "dv_policy (k_dv k') = dv_policy (k_dv k)" using run dv dv3 by (auto split: if_splits)
  show "context_error E e" if "r = Inl e"
    using run that by (auto intro: context_errorI split: if_splits option.splits)
qed

text \<open>What a result of the loader is.\<close>

definition from_loader :: "'p loader \<Rightarrow> cacheResult \<Rightarrow> bool" where
  "from_loader loader r \<longleftrightarrow> (\<exists>p p'. loader p = (p', Inr r)) \<and> result_validate r = None"

definition loader_error :: "'p loader \<Rightarrow> goerr \<Rightarrow> bool" where
  "loader_error loader e \<longleftrightarrow>
     (\<exists>p p'. loader p = (p', Inl e)) \<or> (\<exists>p p' r. loader p = (p', Inr r) \<and> result_validate r = Some e)"

lemma load_authority_facts:
  "load_authority loader k = (k', Inr r) \<Longrightarrow> from_loader loader r"
  "load_authority loader k = (k', Inl e) \<Longrightarrow> loader_error loader e"
  by (auto simp: load_authority_def from_loader_def loader_error_def split: prod.splits sum.splits option.splits)

lemma usable_entry_facts:
  "usable_entry E p s = Some r \<Longrightarrow> result_validate r = None \<and> int (length (r_Payload r)) \<le> pol_MaxPayloadBytes p"
  by (auto simp: usable_entry_def Let_def split: if_splits option.splits)

lemma cache_read_facts:
  assumes "cache_read E d q g k = (k', x)"
  shows "x = Inl e \<Longrightarrow> context_error E e"
    "x = Inr (Some r, ok) \<Longrightarrow> result_validate r = None \<and> int (length (r_Payload r)) \<le> pol_MaxPayloadBytes (dv_policy (k_dv k))"
  using assms usable_entry_facts
  by (auto simp: cache_read_def intro: context_errorI split: prod.splits option.splits)

definition answer_ok :: "'p cache_env \<Rightarrow> 'p loader \<Rightarrow> cachePolicy \<Rightarrow> goerr + outcome \<Rightarrow> bool" where
  "answer_ok E loader p r =
     (case r of
        Inr o1 \<Rightarrow>
          out_Source o1 = SourceCache \<and> out_Status o1 = StatusHit \<and> result_validate (out_Result o1) = None
            \<and> int (length (r_Payload (out_Result o1))) \<le> pol_MaxPayloadBytes p
          \<or> out_Source o1 = SourceAuthority \<and> out_Status o1 \<noteq> StatusHit \<and> from_loader loader (out_Result o1)
      | Inl e \<Rightarrow> context_error E e \<or> loader_error loader e)"

lemma fromAuthority_ok: "status \<noteq> StatusHit \<Longrightarrow> fromAuthority E loader status k = (k', r) \<Longrightarrow> answer_ok E loader p r"
  by (auto simp: fromAuthority_def answer_ok_def intro: context_errorI dest: load_authority_facts
      split: prod.splits sum.splits option.splits)

lemma execute_ok: "answer_ok E loader (dv_policy (k_dv k)) (snd (execute E d q loader k))"
proof -
  obtain k1 g where g: "cache_generation E d k = (k1, g)" by fastforce
  note pol = cache_generation_facts(1) [OF g] and gerr = cache_generation_facts(2) [OF g]
  have auth: "answer_ok E loader (dv_policy (k_dv k)) (snd (fromAuthority E loader StatusProviderBypass h))" for h
    using fromAuthority_ok [of StatusProviderBypass E loader h _ _ "dv_policy (k_dv k)"]
    by (cases "fromAuthority E loader StatusProviderBypass h") simp
  consider e where "g = Inl e" | "g = Inr None" | gen where "g = Inr (Some gen)" by (metis old.sum.exhaust option.exhaust)
  then show ?thesis
  proof cases
    case 1
    with gerr show ?thesis by (simp add: execute_def g answer_ok_def)
  next
    case 2
    with auth show ?thesis by (simp add: execute_def g)
  next
    case (3 gen)
    obtain k2 x where x: "cache_read E d q gen k1 = (k2, x)" by fastforce
    note run = execute_def [of E d q loader k, unfolded g prod.case 3 sum.case option.case x]
    consider e where "x = Inl e" | r ok where "x = Inr (Some r, ok)" | "x = Inr (None, False)" | "x = Inr (None, True)"
    proof (cases x)
      case (Inr z)
      then show ?thesis using that by (cases z; cases "fst z"; cases "snd z") auto
    qed (use that in blast)
    then show ?thesis
    proof cases
      case 4
      obtain k3 y where y: "load_authority loader k2 = (k3, y)" by fastforce
      note run4 = run [unfolded 4 sum.case prod.case option.case bool.case y]
      show ?thesis
      proof (cases y)
        case (Inl e)
        with y load_authority_facts(2) [of loader k2 k3 e] show ?thesis by (simp add: run4 answer_ok_def)
      next
        case (Inr r)
        obtain k4 w where w: "cache_write E d q gen r k3 = (k4, w)" by fastforce
        have r: "from_loader loader r" using y Inr load_authority_facts(1) [of loader k2 k3 r] by simp
        show ?thesis
        proof (cases "ke_err E (k_prov k4)")
          case (Some s)
          with r context_errorI [OF Some] show ?thesis by (simp add: run4 Inr w answer_ok_def split: option.split)
        qed (use r in \<open>simp add: run4 Inr w answer_ok_def split: option.split\<close>)
      qed
    next
      case (1 e)
      with cache_read_facts(1) [OF x] show ?thesis by (simp add: run answer_ok_def)
    next
      case (2 r ok)
      with cache_read_facts(2) [OF x] pol show ?thesis by (simp add: run answer_ok_def)
    next
      case 3
      with auth show ?thesis by (simp add: run)
    qed
  qed
qed

text \<open>
  C17. The database stays the authority: whatever Redis answers (a miss, a corrupt or oversized entry, an
  unusable generation, any failure of any command), a load returns either an entry that passed the validation
  and the size bound, marked as a hit, or the very result its loader returned and that validates; and it fails
  only with the error of its context, with the error of the loader, or because the loader's result is
  invalid. No provider failure is an error and none replaces a result.
\<close>

theorem load_is_authoritative:
  "case snd (execute E d q loader k) of
     Inr o1 \<Rightarrow>
       (case out_Source o1 of
          SourceCache \<Rightarrow> out_Status o1 = StatusHit \<and> result_validate (out_Result o1) = None
            \<and> int (length (r_Payload (out_Result o1))) \<le> pol_MaxPayloadBytes (dv_policy (k_dv k))
        | SourceAuthority \<Rightarrow> out_Status o1 \<noteq> StatusHit
            \<and> (\<exists>p p'. loader p = (p', Inr (out_Result o1))) \<and> result_validate (out_Result o1) = None)
   | Inl e \<Rightarrow>
       (\<exists>p s. ke_err E p = Some s \<and> e = Sentinel s) \<or> (\<exists>p p'. loader p = (p', Inl e))
       \<or> (\<exists>p p' r. loader p = (p', Inr r) \<and> result_validate r = Some e)"
  using execute_ok [of E loader k d q]
  unfolding answer_ok_def context_error_def loader_error_def from_loader_def
  by (auto split: sum.splits cacheSource.splits)


section \<open>Entries\<close>

lemma length_json_int: "0 \<le> i \<Longrightarrow> i < 2 ^ 63 \<Longrightarrow> length (json_int i) \<le> 19"
proof -
  assume "0 \<le> i" "i < 2 ^ 63"
  then have "nat i < 10 ^ 19" by simp
  with length_nat_dec [of 19 "nat i"] \<open>0 \<le> i\<close> show ?thesis by (simp add: json_int_def)
qed

lemma length_base64_std: "length (base64_std s) \<le> 2 * length s + 4"
  by (simp add: base64_std_def length_base64)

definition entry_of :: "cacheResult \<Rightarrow> wireEntry" where
  "entry_of r = \<lparr>we_Version = wireVersion, we_Payload = r_Payload r, we_RowsAffected = r_RowsAffected r, we_NotFound = r_NotFound r\<rparr>"

lemma length_entry:
  assumes "0 \<le> r_RowsAffected r" "r_RowsAffected r < 2 ^ 63"
  shows "length (json_Marshal (entry_of r)) \<le> 2 * length (r_Payload r) + 64"
proof -
  have "length (json_int wireVersion) = 1" by (simp add: json_int_def wireVersion_def nat_dec.simps)
  then show ?thesis
    using length_json_int [OF assms] length_base64_std [of "r_Payload r"]
    by (simp add: json_Marshal_def entry_of_def json_bool_def)
qed

text \<open>
  An entry that was written can be read back: for every valid result within the payload bound and the
  range of its row count, the encoding that \<open>write\<close> stores stays below the size from which \<open>read\<close> refuses to
  decode, and \<open>read\<close> turns it into the same result, the empty and the not-found result included, given
  that the JSON decoder reads back what the encoder wrote.
\<close>

theorem entry_roundtrip:
  assumes "result_validate r = None" and "int (length (r_Payload r)) \<le> pol_MaxPayloadBytes p"
    and "r_RowsAffected r < 2 ^ 63"
    and "ke_unmarshal E (json_Marshal (entry_of r)) = Some (entry_of r)"
  shows "int (length (json_Marshal (entry_of r))) \<le> pol_MaxPayloadBytes p * 2 + 256
     \<and> usable_entry E p (json_Marshal (entry_of r)) = Some r"
proof -
  have "0 \<le> r_RowsAffected r" using assms(1) by (auto simp: result_validate_def split: if_splits)
  with length_entry [of r] assms(2,3) have "int (length (json_Marshal (entry_of r))) \<le> pol_MaxPayloadBytes p * 2 + 256"
    by linarith
  with assms show ?thesis by (cases r) (simp add: usable_entry_def entry_of_def wireVersion_def Let_def)
qed

definition demo_result :: cacheResult where
  "demo_result = \<lparr>r_Payload = ''abcd'', r_RowsAffected = 12, r_NotFound = False\<rparr>"

definition demo_decoder :: "string \<Rightarrow> wireEntry option" where
  "demo_decoder s = (if s = json_Marshal (entry_of demo_result) then Some (entry_of demo_result) else None)"

lemma entry_roundtrip_witness:
  "usable_entry (undefined\<lparr>ke_unmarshal := demo_decoder\<rparr>)
     \<lparr>pol_Authority = ''database'', pol_Namespace = ''q'', pol_TTL = 1, pol_MaxPayloadBytes = 4,
      pol_FailureMode = ''bypass-authority'', pol_Reconstruction = ''loader''\<rparr> (json_Marshal (entry_of demo_result))
   = Some demo_result"
  by (rule entry_roundtrip [THEN conjunct2]) (simp_all add: demo_result_def result_validate_def demo_decoder_def)

section \<open>Keys\<close>

text \<open>
  C20. Keys do not collide: for a valid policy and identities digested with SHA-256, every generation key and
  every entry key is a logical key that the Redis lease accepts; two entry keys are equal only for the same
  dataset digest, query digest and generation, two generation keys only for the same dataset digest, and no
  entry key is a generation key. The strings digested for two valid datasets are equal only for the same
  dataset.
\<close>

theorem cache_keys_are_valid_and_distinct:
  assumes "policy_validate p = None" and "crypto_laws K"
    and "targetIDs K t = (d, q)" "targetIDs K t' = (d', q')" and "validGeneration g" "validGeneration g'"
    and "target_validate t = None" "target_validate t' = None"
  shows "validLogicalKey (generationKey p d) \<and> validLogicalKey (entryKey p d q g)
     \<and> (entryKey p d q g = entryKey p d' q' g' \<longleftrightarrow> d = d' \<and> q = q' \<and> g = g')
     \<and> (generationKey p d = generationKey p d' \<longleftrightarrow> d = d') \<and> entryKey p d q g \<noteq> generationKey p d'
     \<and> (tg_Datasource t @ [CHR 0x00] @ tg_Table t = tg_Datasource t' @ [CHR 0x00] @ tg_Table t'
          \<longleftrightarrow> target_dataset t = target_dataset t')"
proof -
  have n: "validNamespace (pol_Namespace p)" using assms(1) by (simp add: policy_validate_def split: if_split_asm)
  have h: "hex_id d" "hex_id q" "hex_id d'" "hex_id q'" using targetIDs_hex [OF assms(2)] assms(3,4) by blast+
  let ?e = "\<lambda>d q g. [pol_Namespace p, ''entry'', d, g, q]" and ?g = "\<lambda>d. [pol_Namespace p, ''generation'', d]"
  have ok: "list_all segment_ok (?e d q g)" "list_all segment_ok (?e d' q' g')" "list_all segment_ok (?g d)" "list_all segment_ok (?g d')"
    using segments_ok n h assms(5,6) fixed_segments by simp_all
  have e: "entryKey p d q g = entryKey p d' q' g' \<longleftrightarrow> d = d' \<and> q = q' \<and> g = g'"
    using path_inject [OF _ ok(1) _ ok(2)] unfolding entryKey_path by auto
  have gk: "generationKey p d = generationKey p d' \<longleftrightarrow> d = d'"
    using path_inject [OF _ ok(3) _ ok(4)] unfolding generationKey_path by auto
  have ne: "entryKey p d q g \<noteq> generationKey p d'"
    using path_inject [OF _ ok(1) _ ok(4)] unfolding generationKey_path entryKey_path by auto
  have nul: "CHR 0x00 \<notin> set (tg_Datasource u)" "CHR 0x00 \<notin> set (tg_Table u)" if "target_validate u = None" for u
    using that validIdentity_no_nul
    by (auto simp: target_validate_def dataset_validate_def target_dataset_def split: if_split_asm option.split_asm)
  have "tg_Datasource t @ [CHR 0x00] @ tg_Table t = tg_Datasource t' @ [CHR 0x00] @ tg_Table t'
      \<longleftrightarrow> target_dataset t = target_dataset t'"
    using append_Cons_eq_iff [OF nul [OF assms(7)]] by (simp add: target_dataset_def)
  with cache_keys_valid [OF n h(1,2) assms(5)] e gk ne show ?thesis by blast
qed


lemma cache_keys_are_valid_and_distinct_witness:
  "\<exists>K d q. crypto_laws K \<and> targetIDs K \<lparr>tg_Datasource = ''main'', tg_Table = ''users'', tg_QueryIdentity = ''all''\<rparr> = (d, q)
     \<and> validLogicalKey (entryKey \<lparr>pol_Authority = ''database'', pol_Namespace = ''q'', pol_TTL = 1, pol_MaxPayloadBytes = 4,
      pol_FailureMode = ''bypass-authority'', pol_Reconstruction = ''loader''\<rparr> d q ''base'')"
proof -
  let ?K = "\<lparr>sha256 = (\<lambda>_. replicate 32 (CHR ''x'')), hmac_sha256 = (\<lambda>_ _. replicate 32 (CHR ''x''))\<rparr>"
  let ?t = "\<lparr>tg_Datasource = ''main'', tg_Table = ''users'', tg_QueryIdentity = ''all''\<rparr>"
  let ?p = "\<lparr>pol_Authority = ''database'', pol_Namespace = ''q'', pol_TTL = 1, pol_MaxPayloadBytes = 4,
      pol_FailureMode = ''bypass-authority'', pol_Reconstruction = ''loader''\<rparr>"
  have K: "crypto_laws ?K" by (simp add: crypto_laws_def)
  obtain d q where ids: "targetIDs ?K ?t = (d, q)" by fastforce
  have p: "policy_validate ?p = None" by code_simp
  have t: "target_validate ?t = None" by code_simp
  have g: "validGeneration ''base''" by (simp add: validGeneration_def baseGeneration_def)
  from cache_keys_are_valid_and_distinct [OF p K ids ids g g t t] K ids show ?thesis by blast
qed

section \<open>Invalidation\<close>

lemma cache_generation_pending:
  assumes p: "pendingGeneration d (k_dv h) \<noteq> []" and g: "cache_generation E d h = (h', Inr (Some g))"
  shows "snd (setGeneration E d (pendingGeneration d (k_dv h)) h) = None \<and> pendingGeneration d (k_dv h') = []"
proof -
  let ?p = "pendingGeneration d (k_dv h)"
  obtain k1 rep where r1: "setGeneration E d ?p h = (k1, rep)" by fastforce
  have dv: "k_dv k1 = k_dv h" by (rule setGeneration_dv [OF r1])
  let ?k2 = "k1\<lparr>k_dv := clearPending d ?p (k_dv k1)\<rparr>"
  obtain k3 v e3 where r3: "in_scope E None
     (get_callback E (generationKey (dv_policy (k_dv ?k2)) d)
       (\<lambda>candidate. if validGeneration candidate then None else Some (redis_sentinel Redis_ErrCommandFailed))) ?k2 = (k3, v, e3)"
    using prod_cases3 by blast
  have "pendingGeneration d (k_dv k3) = []"
    using in_scope_dv [OF r3] dv by (simp add: clearPending_def pendingGeneration_def)
  with g p r1 r3 show ?thesis by (auto simp: cache_generation_def Let_def split: if_splits option.splits)
qed

lemma end_active_maps [simp]:
  "dv_epochs (end_active c) = dv_epochs c" "dv_pending (end_active c) = dv_pending c"
  by (simp_all add: end_active_def Let_def)

lemma Invalidate_open:
  assumes "dataset_validate d = None" and "\<not> dv_closed (k_dv k)"
    and "Invalidate K E (RCtx None) True d (Some bytes) k = (k', r)" and "bytes \<noteq> []"
  shows "epoch_of (k_dv k') (datasetIdentity K d) = epoch_of (k_dv k) (datasetIdentity K d) + 1
     \<and> (case r of
          Inr st \<Rightarrow> st = StatusInvalidated \<and> pendingGeneration (datasetIdentity K d) (k_dv k') = []
             \<or> st = StatusProviderBypass \<and> pendingGeneration (datasetIdentity K d) (k_dv k') = hex_EncodeToString bytes
        | Inl e \<Rightarrow> pendingGeneration (datasetIdentity K d) (k_dv k') = hex_EncodeToString bytes
             \<and> directContextError E (k_prov k') = Some e)"
proof -
  let ?d = "datasetIdentity K d" and ?tok = "hex_EncodeToString bytes"
  let ?k0 = "k\<lparr>k_dv := (k_dv k)\<lparr>dv_active := dv_active (k_dv k) + 1\<rparr>\<rparr>"
  let ?k1 = "?k0\<lparr>k_dv := invalidate_section ?d ?tok (k_dv ?k0)\<rparr>"
  obtain k2 e where s: "setGeneration E ?d ?tok ?k1 = (k2, e)" by fastforce
  have dv: "k_dv k2 = invalidate_section ?d ?tok (k_dv ?k0)" using setGeneration_dv [OF s] by simp
  have run: "(k', r) = (case (case (k2, e) of
        (k2, Some _) \<Rightarrow> (k2, case directContextError E (k_prov k2) of Some e \<Rightarrow> Inl e | None \<Rightarrow> Inr StatusProviderBypass)
      | (k2, None) \<Rightarrow> (k2\<lparr>k_dv := clearPending ?d ?tok (k_dv k2)\<rparr>, Inr StatusInvalidated)) of
      (k1, r) \<Rightarrow> (k1\<lparr>k_dv := end_active (k_dv k1)\<rparr>, r))"
    using assms(1,2,3) s by (simp add: Invalidate_def direct_def beginDirect_def Let_def)
  have st: "epoch_of (k_dv k2) ?d = epoch_of (k_dv k) ?d + 1" "pendingGeneration ?d (k_dv k2) = ?tok"
    by (simp_all add: dv invalidate_section_def epoch_of_def pendingGeneration_def)
  show ?thesis
  proof (cases e)
    case None
    with run st show ?thesis by (simp add: clearPending_def epoch_of_def pendingGeneration_def)
  next
    case (Some x)
    with run st show ?thesis
      by (cases "directContextError E (k_prov k2)") (simp_all add: epoch_of_def pendingGeneration_def)
  qed
qed


text \<open>A store that keeps what it is given, and a Redis resource that has been closed.\<close>

type_synonym kv = "string \<Rightarrow> string option"

definition demo_client :: "kv ownedClient" where
  "demo_client =
     \<lparr>client_Get = (\<lambda>k m. case m k of None \<Rightarrow> (m, [], True, None) | Some v \<Rightarrow> (m, v, False, None)),
      client_Set = (\<lambda>k v d m. (m(k \<mapsto> v), None)),
      client_Delete = (\<lambda>ks m. (\<lambda>k. if k \<in> set ks then None else m k, int (length ks), None)),
      client_Exists = (\<lambda>ks m. (m, int (length (filter (\<lambda>k. m k \<noteq> None) ks)), None)),
      command_cause = (\<lambda>_. None)\<rparr>"

definition demo_env :: "kv cache_env" where
  "demo_env =
     \<lparr>ke_client = demo_client, ke_use = \<lparr>use_cause = (\<lambda>_. None), use_ctx_err = (\<lambda>_. None), during_use = (\<lambda>l. l)\<rparr>,
      ke_err = (\<lambda>_. None), ke_caller_err = (\<lambda>_. None), ke_closed = (\<lambda>_. False), ke_unmarshal = demo_decoder\<rparr>"

definition demo_kstate :: "kv kstate" where
  "demo_kstate =
     \<lparr>k_life = newLifecycleState\<lparr>r_closed := True\<rparr>, k_prov = (\<lambda>_. None),
      k_dv = \<lparr>dv_scope = demo_scope ''bus'' 0, dv_policy = \<lparr>pol_Authority = ''database'', pol_Namespace = ''q'', pol_TTL = 1,
        pol_MaxPayloadBytes = 4, pol_FailureMode = ''bypass-authority'', pol_Reconstruction = ''loader''\<rparr>,
        dv_closed = False, dv_drainClosed = False, dv_active = 0, dv_flights = fmempty, flight_heap = [],
        dv_epochs = fmempty, dv_pending = fmempty\<rparr>\<rparr>"


end
