(* ===== verification/Sql_Tx.thy ===== *)
theory Sql_Tx
  imports Go_Text
begin

text \<open>
  Database access through GORM. A handler is a sequence of statements over the tables it names (\<open>'d\<close>, a
  record of lists of live rows); every statement may fail in the driver, which the environment decides by
  the number of the statement, and leaves the tables as they were when it does. A transaction puts the
  tables back when its body fails or its commit does. String comparison in SQL is exact (a binary
  collation), rows that are soft-deleted are not in the tables, and row locks show as the atomicity of the
  transactions that take them.
\<close>

section \<open>Statements\<close>

record 'd txn =
  tx_db :: 'd
  tx_tick :: nat

record 'e sql_env =
  sql_error :: "nat \<Rightarrow> 'e option"

type_synonym ('d, 'e, 'a) sql = "'e sql_env \<Rightarrow> 'd txn \<Rightarrow> 'd txn \<times> ('e + 'a)"

definition sql_return :: "'a \<Rightarrow> ('d, 'e, 'a) sql" where
  "sql_return x E s = (s, Inr x)"

definition sql_raise :: "'e \<Rightarrow> ('d, 'e, 'a) sql" where
  "sql_raise e E s = (s, Inl e)"

definition sql_bind :: "('d, 'e, 'a) sql \<Rightarrow> ('a \<Rightarrow> ('d, 'e, 'b) sql) \<Rightarrow> ('d, 'e, 'b) sql" where
  "sql_bind m f E s = (case m E s of (s1, Inl e) \<Rightarrow> (s1, Inl e) | (s1, Inr x) \<Rightarrow> f x E s1)"

definition sql_query :: "('d \<Rightarrow> 'a) \<Rightarrow> ('d, 'e, 'a) sql" where
  "sql_query f E s =
     (let s1 = s\<lparr>tx_tick := Suc (tx_tick s)\<rparr> in
      case sql_error E (tx_tick s) of Some e \<Rightarrow> (s1, Inl e) | None \<Rightarrow> (s1, Inr (f (tx_db s))))"

definition sql_exec :: "('d \<Rightarrow> 'd) \<Rightarrow> ('d, 'e, unit) sql" where
  "sql_exec f E s =
     (let s1 = s\<lparr>tx_tick := Suc (tx_tick s)\<rparr> in
      case sql_error E (tx_tick s) of Some e \<Rightarrow> (s1, Inl e) | None \<Rightarrow> (s1\<lparr>tx_db := f (tx_db s)\<rparr>, Inr ()))"

text \<open>A statement whose \<open>RowsAffected\<close> the code looks at.\<close>

definition sql_update :: "('d \<Rightarrow> 'd \<times> 'a) \<Rightarrow> ('d, 'e, 'a) sql" where
  "sql_update f E s =
     (let s1 = s\<lparr>tx_tick := Suc (tx_tick s)\<rparr> in
      case sql_error E (tx_tick s) of
        Some e \<Rightarrow> (s1, Inl e)
      | None \<Rightarrow> (s1\<lparr>tx_db := fst (f (tx_db s))\<rparr>, Inr (snd (f (tx_db s)))))"

text \<open>\<open>if c { return e }\<close>\<close>

definition sql_refuse :: "bool \<Rightarrow> 'e \<Rightarrow> ('d, 'e, unit) sql" where
  "sql_refuse c e = (if c then sql_raise e else sql_return ())"

text \<open>A statement that is sent only for a non-empty slice.\<close>

definition sql_unless :: "bool \<Rightarrow> ('d, 'e, unit) sql \<Rightarrow> ('d, 'e, unit) sql" where
  "sql_unless c m = (if c then sql_return () else m)"

fun sql_each :: "('a \<Rightarrow> ('d, 'e, 'b) sql) \<Rightarrow> 'a list \<Rightarrow> ('d, 'e, 'b list) sql" where
  "sql_each f [] = sql_return []"
| "sql_each f (x # xs) = sql_bind (f x) (\<lambda>y. sql_bind (sql_each f xs) (\<lambda>ys. sql_return (y # ys)))"

text \<open>\<open>db.Transaction\<close>: \<open>BEGIN\<close>, the body, then \<open>COMMIT\<close> or \<open>ROLLBACK\<close>.\<close>

definition sql_transaction :: "('d, 'e, 'a) sql \<Rightarrow> ('d, 'e, 'a) sql" where
  "sql_transaction body E s =
     (case sql_bind (sql_query (\<lambda>_. ())) (\<lambda>_. sql_bind body (\<lambda>x. sql_bind (sql_query (\<lambda>_. ())) (\<lambda>_. sql_return x))) E s of
        (s1, Inl e) \<Rightarrow> (s1\<lparr>tx_db := tx_db s\<rparr>, Inl e)
      | (s1, Inr x) \<Rightarrow> (s1, Inr x))"

section \<open>What a successful run did\<close>

named_theorems sql_ok \<open>success of a statement as a condition on what it returned and the tables it left\<close>

lemma sql_return_ok [sql_ok]: "sql_return x E s = (s', Inr y) \<longleftrightarrow> s' = s \<and> y = x"
  by (auto simp: sql_return_def)

lemma sql_raise_ok [sql_ok]: "sql_raise e E s \<noteq> (s', Inr y)"
  by (simp add: sql_raise_def)

lemma sql_bind_ok [sql_ok]:
  "sql_bind m f E s = (s', Inr y) \<longleftrightarrow> (\<exists>s1 x. m E s = (s1, Inr x) \<and> f x E s1 = (s', Inr y))"
  by (auto simp: sql_bind_def split: prod.split sum.split)

lemma sql_query_ok [sql_ok]:
  "sql_query f E s = (s', Inr y) \<longleftrightarrow> sql_error E (tx_tick s) = None \<and> s' = s\<lparr>tx_tick := Suc (tx_tick s)\<rparr> \<and> y = f (tx_db s)"
  by (auto simp: sql_query_def Let_def split: option.split)

lemma sql_exec_ok [sql_ok]:
  "sql_exec f E s = (s', Inr y) \<longleftrightarrow>
     sql_error E (tx_tick s) = None \<and> s' = s\<lparr>tx_tick := Suc (tx_tick s), tx_db := f (tx_db s)\<rparr>"
  by (auto simp: sql_exec_def Let_def split: option.split)

lemma sql_update_ok [sql_ok]:
  "sql_update f E s = (s', Inr y) \<longleftrightarrow>
     sql_error E (tx_tick s) = None \<and> s' = s\<lparr>tx_tick := Suc (tx_tick s), tx_db := fst (f (tx_db s))\<rparr>
     \<and> y = snd (f (tx_db s))"
  by (auto simp: sql_update_def Let_def split: option.split)

lemma sql_refuse_ok [sql_ok]: "sql_refuse c e E s = (s', Inr y) \<longleftrightarrow> \<not> c \<and> s' = s"
  by (auto simp: sql_refuse_def sql_return_def sql_raise_def)

lemma sql_unless_ok [sql_ok]:
  "sql_unless c m E s = (s', Inr y) \<longleftrightarrow> (if c then s' = s else m E s = (s', Inr y))"
  by (auto simp: sql_unless_def sql_return_def)

text \<open>A transaction that succeeds is its body between two statements; one that fails has changed nothing.\<close>

lemma sql_transaction_ok:
  assumes "sql_transaction body E s = (s', Inr y)"
  shows "\<exists>s1. body E (s\<lparr>tx_tick := Suc (tx_tick s)\<rparr>) = (s1, Inr y) \<and> tx_db s' = tx_db s1"
  using assms by (auto simp: sql_transaction_def sql_ok split: prod.splits sum.splits)

lemma sql_transaction_failed: "sql_transaction body E s = (s', Inl e) \<Longrightarrow> tx_db s' = tx_db s"
  by (auto simp: sql_transaction_def split: prod.splits sum.splits)

text \<open>Statements that only read.\<close>

definition reads_only :: "('d, 'e, 'a) sql \<Rightarrow> bool" where
  "reads_only m \<longleftrightarrow> (\<forall>E s. tx_db (fst (m E s)) = tx_db s)"

named_theorems reads \<open>statements that leave the tables alone\<close>

lemma reads_onlyD: "reads_only m \<Longrightarrow> m E s = (s', r) \<Longrightarrow> tx_db s' = tx_db s"
  unfolding reads_only_def by (metis fst_conv)

lemma reads_return [reads]: "reads_only (sql_return x)"
  by (simp add: reads_only_def sql_return_def)

lemma reads_raise [reads]: "reads_only (sql_raise e)"
  by (simp add: reads_only_def sql_raise_def)

lemma reads_query [reads]: "reads_only (sql_query f)"
  by (simp add: reads_only_def sql_query_def Let_def split: option.split)

lemma reads_refuse [reads]: "reads_only (sql_refuse c e)"
  by (simp add: sql_refuse_def reads)

lemma reads_bind [reads]: "reads_only m \<Longrightarrow> (\<And>x. reads_only (f x)) \<Longrightarrow> reads_only (sql_bind m f)"
  unfolding reads_only_def by (auto simp: sql_bind_def split: prod.split sum.split) (metis fst_conv)+

lemma reads_each [reads]: "(\<And>x. reads_only (f x)) \<Longrightarrow> reads_only (sql_each f xs)"
  by (induction xs) (simp_all add: reads)

section \<open>Slices without duplicates\<close>

text \<open>
  The loop that keeps the first element of every key: \<open>if _, exists := seen[key]; exists { continue }\<close>.
\<close>

fun dedup_by :: "('a \<Rightarrow> 'k) \<Rightarrow> 'k list \<Rightarrow> 'a list \<Rightarrow> 'a list" where
  "dedup_by key seen [] = []"
| "dedup_by key seen (x # xs) =
     (if key x \<in> set seen then dedup_by key seen xs else x # dedup_by key (key x # seen) xs)"

lemma dedup_by_subset: "set (dedup_by key seen xs) \<subseteq> set xs"
  by (induction key seen xs rule: dedup_by.induct) auto

lemma dedup_by_keys: "key ` set (dedup_by key seen xs) = key ` set xs - set seen"
  by (induction key seen xs rule: dedup_by.induct) auto

lemma dedup_by_distinct: "distinct (map key (dedup_by key seen xs)) \<and> key ` set (dedup_by key seen xs) \<inter> set seen = {}"
proof (induction key seen xs rule: dedup_by.induct)
  case (2 key seen x xs)
  then show ?case by (cases "key x \<in> set seen") auto
qed simp

lemma dedup_set: "set (dedup_by (\<lambda>x. x) [] xs) = set xs"
  using dedup_by_keys [of "\<lambda>x. x" "[]" xs] by simp

lemma dedup_distinct: "distinct (dedup_by (\<lambda>x. x) [] xs)"
  using dedup_by_distinct [of "\<lambda>x. x" "[]" xs] by simp

section \<open>Text\<close>

lemma strip_one_prefix: "strip_one ws (p @ q) = None \<Longrightarrow> strip_one ws p = None"
proof -
  assume none: "strip_one ws (p @ q) = None"
  have "take (length w) p \<noteq> w" if "w \<in> set ws" "w \<noteq> []" for w
  proof
    assume w: "take (length w) p = w"
    then have "length w \<le> length p" by (metis length_take min.absorb_iff2 nat_le_linear take_all)
    with w have "take (length w) (p @ q) = w" by simp
    with none that show False by (auto simp: strip_one_def find_None_iff)
  qed
  then show "strip_one ws p = None" by (auto simp: strip_one_def find_None_iff)
qed

lemma trim_left_none: "strip_one ws s = None \<Longrightarrow> trim_left ws s = s"
  by (simp add: trim_left.simps [of ws s])

lemma TrimSpace_idem [simp]: "strings_TrimSpace (strings_TrimSpace s) = strings_TrimSpace s"
proof -
  let ?l = "trim_left white_space s" and ?rw = "map rev white_space"
  obtain p where p: "rev ?l = p @ trim_left ?rw (rev ?l)" using trim_left_suffix by blast
  let ?t = "rev (trim_left ?rw (rev ?l))"
  have "?l = ?t @ rev p" using p by (metis rev_append rev_rev_ident)
  then have "strip_one white_space ?t = None" using strip_one_prefix [of white_space ?t "rev p"] trim_left_fixed by metis
  moreover have "strip_one ?rw (rev ?t) = None" by (simp add: trim_left_fixed)
  ultimately show ?thesis by (simp add: strings_TrimSpace_def trim_left_none)
qed

end
