(* ===== verification/Auth_Db.thy ===== *)
theory Auth_Db
  imports Sql_Tx "HOL-Library.Product_Lexorder"
begin

text \<open>
  The tables of the authorization service of the admin module (\<open>admin/models\<close>: menus, registered APIs,
  Casbin rules, roles, users and configuration revisions) with the columns the service reads or writes,
  its errors, and the revision counters of \<open>admin/service/config_revision.go\<close>.
\<close>

section \<open>Tables\<close>

text \<open>\<open>pkg.AccessType\<close> and \<open>enum.Status\<close> are string types.\<close>

definition MenuAccessType :: string where "MenuAccessType = ''MENU''"
definition APIAccessType :: string where "APIAccessType = ''API''"
definition ComponentAccessType :: string where "ComponentAccessType = ''COMPONENT''"
definition Enabled :: string where "Enabled = ''enabled''"

lemmas access_types = MenuAccessType_def APIAccessType_def ComponentAccessType_def

record menu =
  mn_ID :: string
  mn_ParentID :: string
  mn_Name :: string
  mn_Path :: string
  mn_Method :: string
  mn_Type :: string
  mn_Status :: string
  mn_HideInMenu :: bool

record api =
  api_ID :: string
  api_Name :: string
  api_Path :: string
  api_Method :: string

record casbinRule =
  cr_PType :: string
  cr_V0 :: string
  cr_V1 :: string
  cr_V2 :: string
  cr_V3 :: string

record auth_role =
  rl_ID :: string
  rl_Status :: string
  rl_Root :: bool
  rl_Default :: bool

record configRevisionKey =
  rk_scope :: string
  rk_ownerID :: string
  rk_resource :: string

text \<open>A user is the role it is assigned to.\<close>

record auth_db =
  db_menus :: "menu list"
  db_apis :: "api list"
  db_rules :: "casbinRule list"
  db_roles :: "auth_role list"
  db_users :: "string list"
  db_revisions :: "configRevisionKey \<Rightarrow> int option"

section \<open>Errors\<close>

record authorizeResponse =
  ar_RoleID :: string
  ar_Paths :: "string list"
  ar_Revision :: string

datatype autherr =
  ErrAuthorizationMenuNotFound
| ErrAuthorizationAPIInvalid "(string \<times> string) option"
| ErrAuthorizationMetadataInUse
| ErrAuthorizationMetadataConflict
| ErrAuthorizationRoleNotFound
| ErrAuthorizationRoleInactive
| ErrAuthorizationManagedRole
| ErrAuthorizationRolePolicies
| ErrAuthorizationRoleUsers
| AuthorizationSnapshotChanged
| InvalidAuthorizationPathsError "string list"
| AuthorizationRevisionConflictError int int authorizeResponse
| AuthorizationPropagationError "authorizeResponse option" autherr
| GormRecordNotFound
| ConfigRevisionChanged
| AuthFailed string
| DriverFailed nat

type_synonym 'a auth_sql = "(auth_db, autherr, 'a) sql"

text \<open>\<open>strconv.FormatInt(i, 10)\<close>\<close>

definition strconv_FormatInt :: "int \<Rightarrow> string" where
  "strconv_FormatInt i = (if i < 0 then CHR ''-'' # nat_dec (nat (- i)) else nat_dec (nat i))"

section \<open>Configuration revisions\<close>

definition max_int64 :: int where "max_int64 = 2 ^ 63 - 1"

definition readConfigRevision :: "configRevisionKey \<Rightarrow> int auth_sql" where
  "readConfigRevision key =
     sql_bind (sql_query (\<lambda>d. db_revisions d key)) (\<lambda>row.
       case row of
         None \<Rightarrow> sql_return 0
       | Some revision \<Rightarrow>
           if revision < 0 then sql_raise (AuthFailed ''configuration revision is negative'') else sql_return revision)"

text \<open>\<open>INSERT ... ON CONFLICT DO NOTHING\<close> of a row with revision 0.\<close>

definition insert_revision :: "configRevisionKey \<Rightarrow> auth_db \<Rightarrow> auth_db" where
  "insert_revision key d =
     (if db_revisions d key = None then d\<lparr>db_revisions := (db_revisions d)(key \<mapsto> 0)\<rparr> else d)"

definition lockConfigRevision :: "configRevisionKey \<Rightarrow> int auth_sql" where
  "lockConfigRevision key =
     sql_bind (sql_exec (insert_revision key)) (\<lambda>_.
     sql_bind (sql_query (\<lambda>d. db_revisions d key)) (\<lambda>row.
       case row of
         None \<Rightarrow> sql_raise GormRecordNotFound
       | Some revision \<Rightarrow>
           if revision < 0 then sql_raise (AuthFailed ''configuration revision is negative'') else sql_return revision))"

text \<open>The update matches only the row that still holds the revision that was read.\<close>

definition advance_row :: "configRevisionKey \<Rightarrow> int \<Rightarrow> auth_db \<Rightarrow> auth_db \<times> nat" where
  "advance_row key current d =
     (if db_revisions d key = Some current then (d\<lparr>db_revisions := (db_revisions d)(key \<mapsto> current + 1)\<rparr>, 1)
      else (d, 0))"

definition advanceConfigRevision :: "configRevisionKey \<Rightarrow> int \<Rightarrow> int auth_sql" where
  "advanceConfigRevision key current =
     (if current < 0 \<or> current = max_int64 then sql_raise (AuthFailed ''configuration revision cannot advance'')
      else
        sql_bind (sql_update (advance_row key current)) (\<lambda>affected.
          if affected \<noteq> 1 then sql_raise ConfigRevisionChanged else sql_return (current + 1)))"

lemma readConfigRevision_ok:
  "readConfigRevision key E s = (s', Inr r) \<Longrightarrow>
     r = (case db_revisions (tx_db s) key of None \<Rightarrow> 0 | Some v \<Rightarrow> v) \<and> 0 \<le> r \<and> tx_db s' = tx_db s"
  by (auto simp: readConfigRevision_def sql_ok split: option.splits if_splits)

lemma lockConfigRevision_ok:
  "lockConfigRevision key E s = (s', Inr r) \<Longrightarrow>
     tx_db s' = insert_revision key (tx_db s) \<and> db_revisions (tx_db s') key = Some r \<and> 0 \<le> r
     \<and> r = (case db_revisions (tx_db s) key of None \<Rightarrow> 0 | Some v \<Rightarrow> v)"
  by (auto simp: lockConfigRevision_def insert_revision_def sql_ok split: option.splits if_splits)

lemma advanceConfigRevision_ok:
  "advanceConfigRevision key current E s = (s', Inr r) \<Longrightarrow>
     r = current + 1 \<and> db_revisions (tx_db s) key = Some current \<and> 0 \<le> current \<and> current \<noteq> max_int64
     \<and> tx_db s' = (tx_db s)\<lparr>db_revisions := (db_revisions (tx_db s))(key \<mapsto> current + 1)\<rparr>"
  by (auto simp: advanceConfigRevision_def advance_row_def sql_ok split: if_splits)

lemma insert_revision_same [simp]:
  "db_menus (insert_revision key d) = db_menus d" "db_apis (insert_revision key d) = db_apis d"
  "db_rules (insert_revision key d) = db_rules d" "db_roles (insert_revision key d) = db_roles d"
  "db_users (insert_revision key d) = db_users d"
  by (simp_all add: insert_revision_def)

lemma insert_revision_other: "k \<noteq> key \<Longrightarrow> db_revisions (insert_revision key d) k = db_revisions d k"
  by (simp add: insert_revision_def)

lemma reads_readConfigRevision [reads]: "reads_only (readConfigRevision key)"
  unfolding readConfigRevision_def by (intro reads) (auto intro: reads split: option.split)

section \<open>Keys of the authorization revisions\<close>

definition roleAuthorizationRevisionKey :: "string \<Rightarrow> configRevisionKey" where
  "roleAuthorizationRevisionKey roleID =
     \<lparr>rk_scope = ''role'', rk_ownerID = strings_TrimSpace roleID, rk_resource = ''authorization''\<rparr>"

definition globalAuthorizationRevisionKey :: configRevisionKey where
  "globalAuthorizationRevisionKey = \<lparr>rk_scope = ''global'', rk_ownerID = [], rk_resource = ''authorization''\<rparr>"

lemma role_key_not_global [simp]: "roleAuthorizationRevisionKey r \<noteq> globalAuthorizationRevisionKey"
  by (simp add: roleAuthorizationRevisionKey_def globalAuthorizationRevisionKey_def)

end
