(* ===== verification/Auth_Policy.thy ===== *)
theory Auth_Policy
  imports Auth_Db
begin

text \<open>
  The transactions of \<open>admin/service/authorization.go\<close> on roles and menus: reading a role's resource,
  replacing its policy, binding APIs to a menu, deleting a role. What surrounds them (the in-memory enforcer
  and its reconciliation) is in \<open>Auth_Service\<close>.
\<close>

section \<open>Paths and rules\<close>

definition canonicalAuthorizationPaths :: "string list \<Rightarrow> string list" where
  "canonicalAuthorizationPaths paths =
     sort (dedup_by (\<lambda>p. p) [] (filter (\<lambda>p. p \<noteq> []) (map strings_TrimSpace paths)))"

text \<open>The rules of a role that name a menu or a component.\<close>

definition role_rows :: "string \<Rightarrow> auth_db \<Rightarrow> casbinRule list" where
  "role_rows roleID d =
     sort_key cr_V2 (filter (\<lambda>r. cr_PType r = ''p'' \<and> cr_V0 r = roleID
       \<and> cr_V1 r \<in> {MenuAccessType, ComponentAccessType}) (db_rules d))"

definition loadRoleAuthorizationResource :: "string \<Rightarrow> int \<Rightarrow> authorizeResponse auth_sql" where
  "loadRoleAuthorizationResource roleID revision =
     sql_bind (sql_query (role_rows roleID)) (\<lambda>rows.
       let paths = dedup_by (\<lambda>p. p) [] (filter (\<lambda>p. p \<noteq> []) (map (\<lambda>r. strings_TrimSpace (cr_V2 r)) rows)) in
       sql_return \<lparr>ar_RoleID = roleID, ar_Paths = sort paths, ar_Revision = strconv_FormatInt revision\<rparr>)"

definition assignable_menus :: "string list \<Rightarrow> string list \<Rightarrow> auth_db \<Rightarrow> menu list" where
  "assignable_menus paths types d =
     sort_key (\<lambda>m. (mn_Path m, mn_Type m, mn_ID m))
       (filter (\<lambda>m. mn_Path m \<in> set paths \<and> mn_Type m \<in> set types \<and> mn_Status m = Enabled) (db_menus d))"

definition loadAssignableAuthorizationMenus :: "string list \<Rightarrow> string list \<Rightarrow> menu list auth_sql" where
  "loadAssignableAuthorizationMenus paths types =
     (if paths = [] then sql_return [] else sql_query (assignable_menus paths types))"

definition invalidAuthorizationPaths :: "string list \<Rightarrow> menu list \<Rightarrow> string list" where
  "invalidAuthorizationPaths paths menus =
     filter (\<lambda>path. length (filter (\<lambda>m. mn_Path m = path) menus) \<noteq> 1) paths"

definition assignable_apis :: "string list \<Rightarrow> auth_db \<Rightarrow> menu list" where
  "assignable_apis parentIDs d =
     sort_key (\<lambda>m. (mn_ParentID m, mn_Path m, mn_Method m, mn_ID m))
       (filter (\<lambda>m. mn_ParentID m \<in> set parentIDs \<and> mn_Type m = APIAccessType \<and> mn_Status m = Enabled) (db_menus d))"

text \<open>Every menu with the children found for it (\<open>menus[i].Children\<close>).\<close>

definition loadAssignableAuthorizationAPIs :: "menu list \<Rightarrow> (menu \<times> menu list) list auth_sql" where
  "loadAssignableAuthorizationAPIs menus =
     (let parentIDs = map mn_ID (filter (\<lambda>m. mn_Type m = MenuAccessType) menus) in
      if parentIDs = [] then sql_return (map (\<lambda>m. (m, [])) menus)
      else
        sql_bind (sql_query (assignable_apis parentIDs)) (\<lambda>children.
          sql_return (map (\<lambda>m. (m, filter (\<lambda>c. mn_ParentID c = mn_ID m) children)) menus)))"

definition normalizeAuthorizationMethod :: "string \<Rightarrow> string" where
  "normalizeAuthorizationMethod m = (if strings_TrimSpace m = [] then ''.*'' else strings_TrimSpace m)"

text \<open>The calls of \<open>appendRule\<close>, as triples of access type, path and method.\<close>

definition rule_triples :: "bool \<Rightarrow> (menu \<times> menu list) list \<Rightarrow> (string \<times> string \<times> string) list" where
  "rule_triples includeAPIs menus =
     concat (map (\<lambda>(m, children).
       (mn_Type m, mn_Path m, normalizeAuthorizationMethod (mn_Method m))
       # (if includeAPIs then
            map (\<lambda>c. (APIAccessType, mn_Path c, normalizeAuthorizationMethod (mn_Method c)))
              (filter (\<lambda>c. mn_Type c = APIAccessType) children)
          else [])) menus)"

definition rule_key :: "string \<times> string \<times> string \<Rightarrow> string" where
  "rule_key = (\<lambda>(accessType, path, method). accessType @ [CHR 0x00] @ path @ [CHR 0x00] @ method)"

definition policy_rule :: "string \<Rightarrow> string \<times> string \<times> string \<Rightarrow> casbinRule" where
  "policy_rule roleID = (\<lambda>(accessType, path, method).
     \<lparr>cr_PType = ''p'', cr_V0 = roleID, cr_V1 = accessType, cr_V2 = path, cr_V3 = method\<rparr>)"

definition buildAuthorizationRules :: "string \<Rightarrow> (menu \<times> menu list) list \<Rightarrow> bool \<Rightarrow> casbinRule list" where
  "buildAuthorizationRules roleID menus includeAPIs =
     map (policy_rule roleID) (dedup_by rule_key [] (rule_triples includeAPIs menus))"

section \<open>Replacing the policy of a role\<close>

definition loadAuthorizationRole :: "string \<Rightarrow> auth_role auth_sql" where
  "loadAuthorizationRole roleID =
     sql_bind (sql_query (\<lambda>d. find (\<lambda>r. rl_ID r = roleID) (db_roles d))) (\<lambda>row.
       case row of None \<Rightarrow> sql_raise ErrAuthorizationRoleNotFound | Some role \<Rightarrow> sql_return role)"

record rolePolicyReplacement =
  selectedTypes :: "string list"
  deleteScopes :: "string list"
  includeAPIs :: bool

definition delete_rules :: "string \<Rightarrow> string list \<Rightarrow> auth_db \<Rightarrow> auth_db" where
  "delete_rules roleID scopes d =
     d\<lparr>db_rules := filter (\<lambda>r. \<not> (cr_PType r = ''p'' \<and> cr_V0 r = roleID \<and> cr_V1 r \<in> set scopes)) (db_rules d)\<rparr>"

definition create_rules :: "casbinRule list \<Rightarrow> auth_db \<Rightarrow> auth_db" where
  "create_rules rules d = d\<lparr>db_rules := db_rules d @ rules\<rparr>"

definition replace_rows :: "string \<Rightarrow> string list \<Rightarrow> rolePolicyReplacement \<Rightarrow> unit auth_sql" where
  "replace_rows roleID paths R =
     sql_bind (loadAssignableAuthorizationMenus paths (selectedTypes R)) (\<lambda>menus.
     let invalid = invalidAuthorizationPaths paths menus in
     sql_bind (sql_refuse (invalid \<noteq> []) (InvalidAuthorizationPathsError invalid)) (\<lambda>_.
     sql_bind (if includeAPIs R then loadAssignableAuthorizationAPIs menus
               else sql_return (map (\<lambda>m. (m, [])) menus)) (\<lambda>loaded.
     let rules = buildAuthorizationRules roleID loaded (includeAPIs R) in
     sql_bind (sql_exec (delete_rules roleID (deleteScopes R))) (\<lambda>_.
     sql_unless (rules = []) (sql_exec (create_rules rules))))))"

text \<open>The body of the transaction; it returns the resource and the committed global revision.\<close>

definition replace_body :: "string \<Rightarrow> string list \<Rightarrow> int \<Rightarrow> rolePolicyReplacement
    \<Rightarrow> (authorizeResponse \<times> int) auth_sql" where
  "replace_body roleID paths expectedRevision R =
     sql_bind (loadAuthorizationRole roleID) (\<lambda>role.
     sql_bind (sql_refuse (rl_Status role \<noteq> Enabled) ErrAuthorizationRoleInactive) (\<lambda>_.
     sql_bind (lockConfigRevision globalAuthorizationRevisionKey) (\<lambda>globalRevision.
     sql_bind (lockConfigRevision (roleAuthorizationRevisionKey roleID)) (\<lambda>roleRevision.
     if expectedRevision \<noteq> roleRevision then
       sql_bind (loadRoleAuthorizationResource roleID roleRevision) (\<lambda>current.
         sql_raise (AuthorizationRevisionConflictError expectedRevision roleRevision current))
     else
       sql_bind (replace_rows roleID paths R) (\<lambda>_.
       sql_bind (advanceConfigRevision (roleAuthorizationRevisionKey roleID) roleRevision) (\<lambda>nextRoleRevision.
       sql_bind (advanceConfigRevision globalAuthorizationRevisionKey globalRevision) (\<lambda>committed.
       sql_bind (loadRoleAuthorizationResource roleID nextRoleRevision) (\<lambda>resource.
       sql_return (resource, committed)))))))))"

definition replace_role_kinds :: rolePolicyReplacement where
  "replace_role_kinds =
     \<lparr>selectedTypes = [MenuAccessType, ComponentAccessType],
      deleteScopes = [MenuAccessType, ComponentAccessType, APIAccessType], includeAPIs = True\<rparr>"

definition replace_menu_kinds :: rolePolicyReplacement where
  "replace_menu_kinds =
     \<lparr>selectedTypes = [MenuAccessType], deleteScopes = [MenuAccessType, APIAccessType], includeAPIs = True\<rparr>"

section \<open>Reading and deleting a role\<close>

definition read_body :: "string \<Rightarrow> authorizeResponse auth_sql" where
  "read_body roleID =
     sql_bind (loadAuthorizationRole roleID) (\<lambda>_.
     sql_bind (sql_exec (insert_revision (roleAuthorizationRevisionKey roleID))) (\<lambda>_.
     sql_bind (readConfigRevision (roleAuthorizationRevisionKey roleID)) (\<lambda>before.
     sql_bind (loadRoleAuthorizationResource roleID before) (\<lambda>resource.
     sql_bind (readConfigRevision (roleAuthorizationRevisionKey roleID)) (\<lambda>after.
     sql_bind (sql_refuse (before \<noteq> after) AuthorizationSnapshotChanged) (\<lambda>_.
     sql_return (resource\<lparr>ar_Revision := strconv_FormatInt after\<rparr>)))))))"

fun read_loop :: "nat \<Rightarrow> string \<Rightarrow> authorizeResponse auth_sql" where
  "read_loop 0 roleID E s = (s, Inl (AuthFailed ''role authorization changed during read''))"
| "read_loop (Suc n) roleID E s =
     (case sql_transaction (read_body roleID) E s of
        (s1, Inl AuthorizationSnapshotChanged) \<Rightarrow> read_loop n roleID E s1
      | (s1, r) \<Rightarrow> (s1, r))"

definition authorizationStableReadMaxAttempts :: nat where "authorizationStableReadMaxAttempts = 4"

definition ReadRole :: "bool \<Rightarrow> string \<Rightarrow> authorizeResponse auth_sql" where
  "ReadRole hasDB roleID =
     (if \<not> hasDB then sql_raise (AuthFailed ''authorization database is nil'')
      else if strings_TrimSpace roleID = [] then sql_raise (AuthFailed ''authorization role ID is required'')
      else read_loop authorizationStableReadMaxAttempts (strings_TrimSpace roleID))"

text \<open>\<open>ptype LIKE 'g%'\<close>: a grouping rule that assigns the role.\<close>

definition role_policy_count :: "string \<Rightarrow> auth_db \<Rightarrow> nat" where
  "role_policy_count roleID d =
     length (filter (\<lambda>r. cr_V0 r = roleID \<or> strings_HasPrefix (cr_PType r) ''g'' \<and> cr_V1 r = roleID) (db_rules d))"

definition DeleteRole :: "bool \<Rightarrow> bool \<Rightarrow> string \<Rightarrow> unit auth_sql" where
  "DeleteRole present hasDB rawID =
     (if \<not> present then sql_raise (AuthFailed ''authorization policy service is nil'')
      else if \<not> hasDB then sql_raise (AuthFailed ''authorization database is nil'')
      else if strings_TrimSpace rawID = [] then sql_raise ErrAuthorizationRoleNotFound
      else
        (let roleID = strings_TrimSpace rawID in
         sql_transaction
          (sql_bind (sql_query (\<lambda>d. find (\<lambda>r. rl_ID r = roleID) (db_roles d))) (\<lambda>row.
           case row of
             None \<Rightarrow> sql_raise ErrAuthorizationRoleNotFound
           | Some role \<Rightarrow>
               sql_bind (sql_refuse (rl_Root role \<or> rl_Default role) ErrAuthorizationManagedRole) (\<lambda>_.
               sql_bind (sql_query (role_policy_count roleID)) (\<lambda>policyCount.
               sql_bind (sql_refuse (policyCount > 0) ErrAuthorizationRolePolicies) (\<lambda>_.
               sql_bind (sql_query (\<lambda>d. length (filter (\<lambda>u. u = roleID) (db_users d)))) (\<lambda>userCount.
               sql_bind (sql_refuse (userCount > 0) ErrAuthorizationRoleUsers) (\<lambda>_.
               sql_exec (\<lambda>d. d\<lparr>db_roles := filter (\<lambda>r. rl_ID r \<noteq> rl_ID role) (db_roles d)\<rparr>))))))))))"

definition ValidateRoleAuthorizationMutation :: "bool \<Rightarrow> bool \<Rightarrow> string \<Rightarrow> unit auth_sql" where
  "ValidateRoleAuthorizationMutation present hasDB rawID =
     (if \<not> present then sql_raise (AuthFailed ''authorization policy service is nil'')
      else if \<not> hasDB then sql_raise (AuthFailed ''authorization database is nil'')
      else if strings_TrimSpace rawID = [] then sql_raise ErrAuthorizationRoleNotFound
      else
        sql_bind (loadAuthorizationRole (strings_TrimSpace rawID)) (\<lambda>role.
          sql_refuse (rl_Status role \<noteq> Enabled) ErrAuthorizationRoleInactive))"

section \<open>Binding APIs to a menu\<close>

record apiReference =
  ref_Method :: string
  ref_Path :: string

text \<open>\<open>strings.ToUpper\<close> on the ASCII letters; the methods of HTTP are ASCII.\<close>

definition strings_ToUpper :: "string \<Rightarrow> string" where
  "strings_ToUpper s = map (\<lambda>c. if is_lower c then char_of (of_char c - (32 :: nat)) else c) s"

definition canonicalAuthorizationAPIReferences :: "apiReference list \<Rightarrow> apiReference list" where
  "canonicalAuthorizationAPIReferences refs =
     sort_key (\<lambda>r. (ref_Path r, ref_Method r))
       (dedup_by (\<lambda>r. ref_Method r @ [CHR 0x00] @ ref_Path r) []
         (filter (\<lambda>r. ref_Method r \<noteq> [] \<and> ref_Path r \<noteq> [])
           (map (\<lambda>r. \<lparr>ref_Method = strings_ToUpper (strings_TrimSpace (ref_Method r)),
                      ref_Path = strings_TrimSpace (ref_Path r)\<rparr>) refs)))"

text \<open>The set of roles is a map; only its sorted keys are used.\<close>

definition loadAffectedAPIBindingRoles :: "menu \<Rightarrow> menu list \<Rightarrow> string list auth_sql" where
  "loadAffectedAPIBindingRoles parent oldChildren =
     sql_bind (sql_query (\<lambda>d. filter (\<lambda>r. cr_PType r = ''p'' \<and> cr_V1 r = MenuAccessType \<and> cr_V2 r = mn_Path parent) (db_rules d)))
       (\<lambda>menuPolicies.
     let byMenu = map cr_V0 (filter (\<lambda>r. strings_TrimSpace (cr_V0 r) \<noteq> []) menuPolicies);
         oldPaths = map (\<lambda>c. strings_TrimSpace (mn_Path c)) oldChildren in
     sql_bind (if oldPaths = [] then sql_return []
               else sql_query (\<lambda>d. filter (\<lambda>r. cr_PType r = ''p'' \<and> cr_V1 r = APIAccessType) (db_rules d)))
       (\<lambda>apiPolicies.
     sql_return (sort (remdups (byMenu
       @ map cr_V0 (filter (\<lambda>r. strings_TrimSpace (cr_V2 r) \<in> set oldPaths \<and> strings_TrimSpace (cr_V0 r) \<noteq> []) apiPolicies))))))"

definition authorizationAPITuple :: "string \<Rightarrow> string \<Rightarrow> string" where
  "authorizationAPITuple path method = strings_TrimSpace path @ [CHR 0x00] @ normalizeAuthorizationMethod method"

definition menus_at :: "string list \<Rightarrow> auth_db \<Rightarrow> menu list" where
  "menus_at paths d = filter (\<lambda>m. mn_Path m \<in> set paths \<and> mn_Type m = MenuAccessType \<and> mn_Status m = Enabled) (db_menus d)"

definition api_children :: "string list \<Rightarrow> auth_db \<Rightarrow> menu list" where
  "api_children parentIDs d =
     sort_key (\<lambda>m. (mn_Path m, mn_Method m, mn_ID m))
       (filter (\<lambda>m. mn_ParentID m \<in> set parentIDs \<and> mn_Type m = APIAccessType \<and> mn_Status m = Enabled) (db_menus d))"

definition loadDerivedAPIRulesForRole :: "string \<Rightarrow> casbinRule list auth_sql" where
  "loadDerivedAPIRulesForRole roleID =
     sql_bind (sql_query (\<lambda>d. filter (\<lambda>r. cr_PType r = ''p'' \<and> cr_V0 r = roleID \<and> cr_V1 r = MenuAccessType) (db_rules d)))
       (\<lambda>policies.
     let paths = dedup_by (\<lambda>p. p) [] (filter (\<lambda>p. p \<noteq> []) (map (\<lambda>r. strings_TrimSpace (cr_V2 r)) policies)) in
     if paths = [] then sql_return []
     else
       sql_bind (sql_query (menus_at paths)) (\<lambda>menus.
       let trimmed = map (\<lambda>m. strings_TrimSpace (mn_Path m)) menus in
       if \<not> distinct trimmed then sql_raise ErrAuthorizationMetadataConflict
       else if menus = [] then sql_return []
       else
         sql_bind (sql_query (api_children (map mn_ID menus))) (\<lambda>children.
         sql_return (map (\<lambda>c. policy_rule roleID (APIAccessType, mn_Path c, normalizeAuthorizationMethod (mn_Method c)))
           (dedup_by (\<lambda>c. authorizationAPITuple (mn_Path c) (normalizeAuthorizationMethod (mn_Method c))) [] children)))))"

definition find_api :: "apiReference \<Rightarrow> api auth_sql" where
  "find_api ref =
     sql_bind (sql_query (\<lambda>d. take 2 (filter (\<lambda>a. api_Method a = ref_Method ref \<and> api_Path a = ref_Path ref) (db_apis d))))
       (\<lambda>matches.
       case matches of
         [a] \<Rightarrow> sql_return a
       | _ \<Rightarrow> sql_raise (ErrAuthorizationAPIInvalid (Some (ref_Method ref, ref_Path ref))))"

text \<open>The new children, with identifiers from \<open>SimpleID\<close>.\<close>

definition api_child :: "menu \<Rightarrow> api \<Rightarrow> string \<Rightarrow> menu" where
  "api_child parent a newID =
     \<lparr>mn_ID = newID, mn_ParentID = mn_ID parent, mn_Name = api_Name a, mn_Path = api_Path a, mn_Method = api_Method a,
      mn_Type = APIAccessType, mn_Status = Enabled, mn_HideInMenu = True\<rparr>"

definition rederive_role :: "string \<Rightarrow> unit auth_sql" where
  "rederive_role roleID =
     sql_bind (lockConfigRevision (roleAuthorizationRevisionKey roleID)) (\<lambda>roleRevision.
     sql_bind (loadDerivedAPIRulesForRole roleID) (\<lambda>derived.
     sql_bind (sql_exec (delete_rules roleID [APIAccessType])) (\<lambda>_.
     sql_bind (sql_unless (derived = []) (sql_exec (create_rules derived))) (\<lambda>_.
     sql_bind (advanceConfigRevision (roleAuthorizationRevisionKey roleID) roleRevision) (\<lambda>_.
     sql_return ())))))"

text \<open>The children of the menu are replaced by one for each API.\<close>

definition replace_children :: "menu \<Rightarrow> menu list \<Rightarrow> unit auth_sql" where
  "replace_children parent children =
     sql_bind (sql_exec (\<lambda>d. d\<lparr>db_menus := filter (\<lambda>m. \<not> (mn_ParentID m = mn_ID parent \<and> mn_Type m = APIAccessType)) (db_menus d)\<rparr>))
       (\<lambda>_. sql_unless (children = []) (sql_exec (\<lambda>d. d\<lparr>db_menus := db_menus d @ children\<rparr>)))"

definition bind_menu :: "(nat \<Rightarrow> string) \<Rightarrow> menu \<Rightarrow> apiReference list \<Rightarrow> int \<Rightarrow> int auth_sql" where
  "bind_menu newIDs parent refs globalRevision =
     sql_bind (sql_each find_api refs) (\<lambda>apis.
     sql_bind (sql_query (\<lambda>d. filter (\<lambda>m. mn_ParentID m = mn_ID parent \<and> mn_Type m = APIAccessType) (db_menus d))) (\<lambda>oldChildren.
     sql_bind (loadAffectedAPIBindingRoles parent oldChildren) (\<lambda>affectedRoles.
     sql_bind (replace_children parent (map (\<lambda>(i, a). api_child parent a (newIDs i)) (enumerate 0 apis))) (\<lambda>_.
     sql_bind (sql_each rederive_role affectedRoles) (\<lambda>_.
     advanceConfigRevision globalAuthorizationRevisionKey globalRevision)))))"

definition bind_body :: "(nat \<Rightarrow> string) \<Rightarrow> string \<Rightarrow> apiReference list \<Rightarrow> int auth_sql" where
  "bind_body newIDs menuID refs =
     sql_bind (lockConfigRevision globalAuthorizationRevisionKey) (\<lambda>globalRevision.
     sql_bind (sql_query (\<lambda>d. find (\<lambda>m. mn_ID m = menuID \<and> mn_Type m = MenuAccessType \<and> mn_Status m = Enabled) (db_menus d)))
       (\<lambda>row.
     case row of
       None \<Rightarrow> sql_raise ErrAuthorizationMenuNotFound
     | Some parent \<Rightarrow> bind_menu newIDs parent refs globalRevision))"

end
