(* ===== verification/Auth_Service.thy ===== *)
theory Auth_Service
  imports Auth_Policy
begin

text \<open>
  The service around the transactions of \<open>Auth_Policy\<close>: the Casbin enforcer of the process (the rules it
  holds), the revision it was last reconciled with, and the publication of a committed change. Other
  sessions and processes may commit before each statement outside a transaction (\<open>ie_others\<close>, by the number of
  the statement). Loading the policy into the enforcer is one query of all rules.
\<close>

record auth_world =
  aw_txn :: "auth_db txn"
  aw_enforcer :: "casbinRule list"
  aw_initialized :: bool
  aw_lastDB :: nat
  aw_lastGlobal :: int

record auth_env =
  ie_sql :: "autherr sql_env"
  ie_others :: "nat \<Rightarrow> auth_db \<Rightarrow> auth_db"
  ie_identity :: "nat option"
  ie_reload :: "(nat \<Rightarrow> autherr option) option"
  ie_notify :: "autherr option option"
  ie_bus :: "(int \<Rightarrow> autherr option) option"
  ie_newID :: "nat \<Rightarrow> string"

definition between :: "auth_env \<Rightarrow> auth_world \<Rightarrow> auth_world" where
  "between A w = w\<lparr>aw_txn := (aw_txn w)\<lparr>tx_db := ie_others A (tx_tick (aw_txn w)) (tx_db (aw_txn w))\<rparr>\<rparr>"

text \<open>A statement or a transaction of this session, after what the others committed.\<close>

definition run_sql :: "auth_env \<Rightarrow> 'a auth_sql \<Rightarrow> auth_world \<Rightarrow> auth_world \<times> (autherr + 'a)" where
  "run_sql A m w = (let w1 = between A w in case m (ie_sql A) (aw_txn w1) of (t, r) \<Rightarrow> (w1\<lparr>aw_txn := t\<rparr>, r))"

section \<open>Reconciling the enforcer\<close>

definition EnsureAuthorizationGlobalRevision :: "auth_env \<Rightarrow> auth_world \<Rightarrow> auth_world \<times> (autherr + int)" where
  "EnsureAuthorizationGlobalRevision A w =
     (case run_sql A (sql_exec (insert_revision globalAuthorizationRevisionKey)) w of
        (w1, Inl e) \<Rightarrow> (w1, Inl e)
      | (w1, Inr _) \<Rightarrow> run_sql A (readConfigRevision globalAuthorizationRevisionKey) w1)"

text \<open>\<open>LoadPolicy\<close> replaces the rules of the enforcer by those of the database, or keeps them and fails.\<close>

definition reload_policy :: "auth_env \<Rightarrow> (nat \<Rightarrow> autherr option) \<Rightarrow> auth_world \<Rightarrow> auth_world \<times> autherr option" where
  "reload_policy A fails w =
     (let w1 = between A w; n = tx_tick (aw_txn w1) in
      case fails n of
        Some e \<Rightarrow> (w1\<lparr>aw_txn := (aw_txn w1)\<lparr>tx_tick := Suc n\<rparr>\<rparr>, Some e)
      | None \<Rightarrow> (w1\<lparr>aw_txn := (aw_txn w1)\<lparr>tx_tick := Suc n\<rparr>, aw_enforcer := db_rules (tx_db (aw_txn w1))\<rparr>, None))"

fun reconcile_loop :: "nat \<Rightarrow> auth_env \<Rightarrow> nat \<Rightarrow> auth_world \<Rightarrow> auth_world \<times> autherr option" where
  "reconcile_loop 0 A sqlDB w = (w, Some (AuthFailed ''authorization policy changed during reload attempts''))"
| "reconcile_loop (Suc n) A sqlDB w =
     (case run_sql A (readConfigRevision globalAuthorizationRevisionKey) w of
        (w1, Inl e) \<Rightarrow> (w1, Some e)
      | (w1, Inr before) \<Rightarrow>
          (case ie_reload A of
             None \<Rightarrow> (w1, Some (AuthFailed ''authorization policy reload is not configured''))
           | Some fails \<Rightarrow>
               (case reload_policy A fails w1 of
                  (w2, Some e) \<Rightarrow> (w2, Some e)
                | (w2, None) \<Rightarrow>
                    (case run_sql A (readConfigRevision globalAuthorizationRevisionKey) w2 of
                       (w3, Inl e) \<Rightarrow> (w3, Some e)
                     | (w3, Inr after) \<Rightarrow>
                         if before \<noteq> after then reconcile_loop n A sqlDB w3
                         else (w3\<lparr>aw_initialized := True, aw_lastDB := sqlDB, aw_lastGlobal := after\<rparr>, None)))))"

definition EnsureCurrent :: "bool \<Rightarrow> bool \<Rightarrow> auth_env \<Rightarrow> auth_world \<Rightarrow> auth_world \<times> autherr option" where
  "EnsureCurrent present hasDB A w =
     (if \<not> present then (w, Some (AuthFailed ''authorization policy service is nil''))
      else if \<not> hasDB then (w, Some (AuthFailed ''authorization database is nil''))
      else
        (case ie_identity A of
           None \<Rightarrow> (w, Some (AuthFailed ''resolve authorization database identity''))
         | Some sqlDB \<Rightarrow>
             (case EnsureAuthorizationGlobalRevision A w of
                (w1, Inl e) \<Rightarrow> (w1, Some e)
              | (w1, Inr current) \<Rightarrow>
                  if aw_initialized w1 \<and> aw_lastDB w1 = sqlDB \<and> aw_lastGlobal w1 = current then (w1, None)
                  else reconcile_loop authorizationStableReadMaxAttempts A sqlDB w1)))"

definition reconcileCommitted :: "auth_env \<Rightarrow> int \<Rightarrow> auth_world \<Rightarrow> auth_world \<times> autherr option" where
  "reconcileCommitted A revision w =
     (case ie_bus A of
        Some publish \<Rightarrow>
          (w, if revision \<le> 0 then Some (AuthFailed ''authorization committed revision is invalid'') else publish revision)
      | None \<Rightarrow>
          (case EnsureCurrent True True A w of
             (w1, Some e) \<Rightarrow> (w1, Some e)
           | (w1, None) \<Rightarrow>
               (case ie_notify A of
                  None \<Rightarrow> (w1, Some (AuthFailed ''authorization watcher notification is not configured''))
                | Some r \<Rightarrow> (w1, r))))"

section \<open>Mutations\<close>

definition replaceRolePolicy :: "bool \<Rightarrow> bool \<Rightarrow> auth_env \<Rightarrow> string \<Rightarrow> string list \<Rightarrow> int \<Rightarrow> rolePolicyReplacement
    \<Rightarrow> auth_world \<Rightarrow> auth_world \<times> authorizeResponse option \<times> autherr option" where
  "replaceRolePolicy present hasDB A rawID paths expectedRevision R w =
     (if \<not> present then (w, None, Some (AuthFailed ''authorization policy service is nil''))
      else if \<not> hasDB then (w, None, Some (AuthFailed ''authorization database is nil''))
      else if strings_TrimSpace rawID = [] then (w, None, Some (AuthFailed ''authorization role ID is required''))
      else
        (case run_sql A (sql_transaction (replace_body (strings_TrimSpace rawID) (canonicalAuthorizationPaths paths)
                expectedRevision R)) w of
           (w1, Inl e) \<Rightarrow> (w1, None, Some e)
         | (w1, Inr (resource, committed)) \<Rightarrow>
             (case reconcileCommitted A committed w1 of
                (w2, Some e) \<Rightarrow> (w2, Some resource, Some (AuthorizationPropagationError (Some resource) e))
              | (w2, None) \<Rightarrow> (w2, Some resource, None))))"

definition ReplaceRole :: "bool \<Rightarrow> bool \<Rightarrow> auth_env \<Rightarrow> string \<Rightarrow> string list \<Rightarrow> int
    \<Rightarrow> auth_world \<Rightarrow> auth_world \<times> authorizeResponse option \<times> autherr option" where
  "ReplaceRole present hasDB A roleID paths expectedRevision =
     replaceRolePolicy present hasDB A roleID paths expectedRevision replace_role_kinds"

definition ReplaceMenu :: "bool \<Rightarrow> bool \<Rightarrow> auth_env \<Rightarrow> string \<Rightarrow> string list \<Rightarrow> int
    \<Rightarrow> auth_world \<Rightarrow> auth_world \<times> authorizeResponse option \<times> autherr option" where
  "ReplaceMenu present hasDB A roleID paths expectedRevision =
     replaceRolePolicy present hasDB A roleID paths expectedRevision replace_menu_kinds"

definition BindMenuAPIs :: "bool \<Rightarrow> bool \<Rightarrow> auth_env \<Rightarrow> string \<Rightarrow> apiReference list
    \<Rightarrow> auth_world \<Rightarrow> auth_world \<times> autherr option" where
  "BindMenuAPIs present hasDB A rawID refs w =
     (if \<not> present then (w, Some (AuthFailed ''authorization policy service is nil''))
      else if \<not> hasDB then (w, Some (AuthFailed ''authorization database is nil''))
      else if strings_TrimSpace rawID = [] then (w, Some ErrAuthorizationMenuNotFound)
      else if list_ex (\<lambda>r. strings_TrimSpace (ref_Method r) = [] \<or> strings_TrimSpace (ref_Path r) = []) refs
      then (w, Some (ErrAuthorizationAPIInvalid None))
      else
        (case run_sql A (sql_transaction (bind_body (ie_newID A) (strings_TrimSpace rawID)
                (canonicalAuthorizationAPIReferences refs))) w of
           (w1, Inl e) \<Rightarrow> (w1, Some e)
         | (w1, Inr committed) \<Rightarrow>
             (case reconcileCommitted A committed w1 of
                (w2, Some e) \<Rightarrow> (w2, Some (AuthorizationPropagationError None e))
              | (w2, None) \<Rightarrow> (w2, None))))"

text \<open>
  The guards of \<open>admin/service/authorization.go\<close> on the generic editors of APIs and menus: what may not be
  changed or deleted while a policy still refers to it.
\<close>

definition rejectReferencedAPIMetadata :: "api \<Rightarrow> unit auth_sql" where
  "rejectReferencedAPIMetadata current =
     (let path = strings_TrimSpace (api_Path current); method = strings_TrimSpace (api_Method current) in
      if path = [] \<or> method = [] then sql_raise ErrAuthorizationMetadataConflict
      else
        sql_bind (sql_query (\<lambda>d. filter (\<lambda>m. mn_Type m = APIAccessType \<and> mn_Path m = path) (db_menus d))) (\<lambda>children.
        sql_bind (sql_refuse (list_ex (\<lambda>c. strings_TrimSpace (mn_Method c) = method) children) ErrAuthorizationMetadataInUse) (\<lambda>_.
        sql_bind (sql_query (\<lambda>d. filter (\<lambda>r. cr_PType r = ''p'' \<and> cr_V1 r = APIAccessType \<and> cr_V2 r = path) (db_rules d)))
          (\<lambda>policies.
        sql_refuse (list_ex (\<lambda>r. strings_TrimSpace (cr_V3 r) = method) policies) ErrAuthorizationMetadataInUse))))"

definition ValidateAPIMetadataUpdate :: "bool \<Rightarrow> api option \<Rightarrow> unit auth_sql" where
  "ValidateAPIMetadataUpdate hasDB next_api =
     (case next_api of
        None \<Rightarrow> sql_raise (AuthFailed ''authorization API metadata update is invalid'')
      | Some n \<Rightarrow>
          if \<not> hasDB \<or> strings_TrimSpace (api_ID n) = [] then
            sql_raise (AuthFailed ''authorization API metadata update is invalid'')
          else
            sql_bind (sql_query (\<lambda>d. find (\<lambda>a. api_ID a = api_ID n) (db_apis d))) (\<lambda>row.
            case row of
              None \<Rightarrow> sql_raise GormRecordNotFound
            | Some current \<Rightarrow>
                if api_Path current = api_Path n \<and> api_Method current = api_Method n then sql_return ()
                else rejectReferencedAPIMetadata current))"

definition ValidateAPIMetadataDelete :: "bool \<Rightarrow> string \<Rightarrow> unit auth_sql" where
  "ValidateAPIMetadataDelete hasDB rawID =
     (let apiID = strings_TrimSpace rawID in
      if \<not> hasDB \<or> apiID = [] \<or> apiID = ''batch'' then
        sql_raise (AuthFailed ''generic batch API metadata deletion is not supported'')
      else
        sql_bind (sql_query (\<lambda>d. find (\<lambda>a. api_ID a = apiID) (db_apis d))) (\<lambda>row.
        case row of None \<Rightarrow> sql_raise GormRecordNotFound | Some current \<Rightarrow> rejectReferencedAPIMetadata current))"

section \<open>The subtree of a menu\<close>

definition children_of :: "string list \<Rightarrow> auth_db \<Rightarrow> menu list" where
  "children_of frontier d = filter (\<lambda>m. mn_ParentID m \<in> set frontier) (db_menus d)"

text \<open>
  The rounds of the breadth-first walk. Every round that goes on adds an identifier to \<open>seen\<close>, so the number
  of identifiers of the table bounds the rounds; \<open>fuel\<close> is that bound, and the walk never uses it up
  (\<open>Auth_Subtree\<close>).
\<close>

fun subtree_loop :: "nat \<Rightarrow> menu list \<Rightarrow> string list \<Rightarrow> string list \<Rightarrow> menu list option auth_sql" where
  "subtree_loop fuel found frontier seen =
     (if frontier = [] then sql_return (Some found)
      else
        (case fuel of
           0 \<Rightarrow> sql_return None
         | Suc n \<Rightarrow>
             sql_bind (sql_query (children_of frontier)) (\<lambda>children.
             let new = dedup_by mn_ID seen children in
             subtree_loop n (found @ new) (map mn_ID new) (map mn_ID new @ seen))))"

declare subtree_loop.simps [simp del]

definition loadMenuSubtree :: "string \<Rightarrow> menu list auth_sql" where
  "loadMenuSubtree rootID =
     sql_bind (sql_query (\<lambda>d. (find (\<lambda>m. mn_ID m = rootID) (db_menus d), length (db_menus d)))) (\<lambda>(row, n).
     case row of
       None \<Rightarrow> sql_raise GormRecordNotFound
     | Some root \<Rightarrow>
         sql_bind (subtree_loop (Suc n) [root] [mn_ID root] [mn_ID root]) (\<lambda>found.
         case found of Some menus \<Rightarrow> sql_return menus | None \<Rightarrow> sql_raise GormRecordNotFound))"

definition rejectReferencedMenuSubtree :: "string \<Rightarrow> unit auth_sql" where
  "rejectReferencedMenuSubtree menuID =
     sql_bind (loadMenuSubtree menuID) (\<lambda>menus.
     let tuples = map (\<lambda>m. mn_Type m @ [CHR 0x00] @ mn_Path m) menus in
     if tuples = [] then sql_return ()
     else
       sql_bind (sql_query (\<lambda>d. filter (\<lambda>r. cr_PType r = ''p'') (db_rules d))) (\<lambda>policies.
       sql_refuse (list_ex (\<lambda>r. cr_V1 r @ [CHR 0x00] @ cr_V2 r \<in> set tuples) policies) ErrAuthorizationMetadataInUse))"

section \<open>Guards on menus\<close>

text \<open>The canonical path is written back into \<open>next\<close>, which is returned.\<close>

definition normalizeAndRejectAmbiguousAuthorizationPath :: "menu \<Rightarrow> menu auth_sql" where
  "normalizeAndRejectAmbiguousAuthorizationPath next_menu =
     (if mn_Type next_menu \<noteq> MenuAccessType \<and> mn_Type next_menu \<noteq> ComponentAccessType then sql_return next_menu
      else
        (let canonicalPath = strings_TrimSpace (mn_Path next_menu); n = next_menu\<lparr>mn_Path := canonicalPath\<rparr> in
         if canonicalPath = [] then sql_raise ErrAuthorizationMetadataConflict
         else if mn_Status n \<noteq> [] \<and> mn_Status n \<noteq> Enabled then sql_return n
         else
           sql_bind (sql_query (\<lambda>d. filter (\<lambda>m. mn_ID m \<noteq> mn_ID n \<and> mn_Status m = Enabled
               \<and> mn_Type m \<in> {MenuAccessType, ComponentAccessType}) (db_menus d))) (\<lambda>candidates.
           sql_bind (sql_refuse (list_ex (\<lambda>m. strings_TrimSpace (mn_Path m) = canonicalPath) candidates)
             ErrAuthorizationMetadataConflict) (\<lambda>_.
           sql_return n))))"

definition ValidateMenuMetadataCreate :: "bool \<Rightarrow> menu option \<Rightarrow> menu auth_sql" where
  "ValidateMenuMetadataCreate hasDB m =
     (case m of
        None \<Rightarrow> sql_raise (AuthFailed ''authorization menu create is invalid'')
      | Some m \<Rightarrow>
          if \<not> hasDB then sql_raise (AuthFailed ''authorization menu create is invalid'')
          else normalizeAndRejectAmbiguousAuthorizationPath m)"

definition ValidateMenuMetadataUpdate :: "bool \<Rightarrow> menu option \<Rightarrow> menu auth_sql" where
  "ValidateMenuMetadataUpdate hasDB m =
     (case m of
        None \<Rightarrow> sql_raise (AuthFailed ''authorization menu update is invalid'')
      | Some m \<Rightarrow>
          if \<not> hasDB \<or> strings_TrimSpace (mn_ID m) = [] then sql_raise (AuthFailed ''authorization menu update is invalid'')
          else
            sql_bind (normalizeAndRejectAmbiguousAuthorizationPath m) (\<lambda>n.
            sql_bind (sql_query (\<lambda>d. find (\<lambda>c. mn_ID c = mn_ID n) (db_menus d))) (\<lambda>row.
            case row of
              None \<Rightarrow> sql_raise GormRecordNotFound
            | Some current \<Rightarrow>
                if mn_Path current = mn_Path n \<and> mn_Method current = mn_Method n \<and> mn_Type current = mn_Type n
                  \<and> mn_Status current = mn_Status n \<and> mn_ParentID current = mn_ParentID n then sql_return n
                else sql_bind (rejectReferencedMenuSubtree (mn_ID current)) (\<lambda>_. sql_return n))))"

definition ValidateMenuMetadataDelete :: "string \<Rightarrow> unit auth_sql" where
  "ValidateMenuMetadataDelete rawID =
     (let menuID = strings_TrimSpace rawID in
      if menuID = [] \<or> menuID = ''batch'' then sql_raise (AuthFailed ''generic batch menu deletion is not supported'')
      else rejectReferencedMenuSubtree menuID)"

end
