(* ===== verification/Auth_Replace.thy ===== *)
theory Auth_Replace
  imports Auth_Service
begin

text \<open>
  What a committed replacement of a role's policy has written: exactly the menus and components asked for,
  the API rules derived from them, and the two revisions.
\<close>

definition rev_of :: "auth_db \<Rightarrow> configRevisionKey \<Rightarrow> int" where
  "rev_of d key = (case db_revisions d key of None \<Rightarrow> 0 | Some v \<Rightarrow> v)"

lemma canonical_set: "set (canonicalAuthorizationPaths paths) = strings_TrimSpace ` set paths - {[]}"
  by (auto simp: canonicalAuthorizationPaths_def dedup_set)

lemma canonical_sorted: "sorted (canonicalAuthorizationPaths paths) \<and> distinct (canonicalAuthorizationPaths paths)"
  by (simp add: canonicalAuthorizationPaths_def dedup_distinct)

lemma canonical_trimmed: "p \<in> set (canonicalAuthorizationPaths paths) \<Longrightarrow> strings_TrimSpace p = p \<and> p \<noteq> []"
  unfolding canonical_set by auto

section \<open>Reads\<close>

lemma reads_resource [reads]: "reads_only (loadRoleAuthorizationResource r v)"
  by (auto simp: loadRoleAuthorizationResource_def Let_def intro!: reads)

lemma reads_menus [reads]: "reads_only (loadAssignableAuthorizationMenus p t)"
  by (auto simp: loadAssignableAuthorizationMenus_def intro!: reads)

lemma reads_apis [reads]: "reads_only (loadAssignableAuthorizationAPIs m)"
  by (auto simp: loadAssignableAuthorizationAPIs_def Let_def intro!: reads)

lemma reads_role [reads]: "reads_only (loadAuthorizationRole r)"
  by (auto simp: loadAuthorizationRole_def intro!: reads split: option.split)

text \<open>The paths of the menu and component rules of a role.\<close>

definition role_paths :: "string \<Rightarrow> auth_db \<Rightarrow> string set" where
  "role_paths roleID d =
     {strings_TrimSpace (cr_V2 r) | r. r \<in> set (db_rules d) \<and> cr_PType r = ''p'' \<and> cr_V0 r = roleID
        \<and> cr_V1 r \<in> {MenuAccessType, ComponentAccessType}} - {[]}"

lemma resource_ok:
  assumes "loadRoleAuthorizationResource roleID v E s = (s', Inr res)"
  shows "tx_db s' = tx_db s \<and> ar_RoleID res = roleID \<and> ar_Revision res = strconv_FormatInt v
    \<and> sorted (ar_Paths res) \<and> distinct (ar_Paths res) \<and> set (ar_Paths res) = role_paths roleID (tx_db s)"
proof -
  have "res = \<lparr>ar_RoleID = roleID, ar_Paths = sort (dedup_by (\<lambda>p. p) [] (filter (\<lambda>p. p \<noteq> [])
      (map (\<lambda>r. strings_TrimSpace (cr_V2 r)) (role_rows roleID (tx_db s))))), ar_Revision = strconv_FormatInt v\<rparr>"
    and "tx_db s' = tx_db s"
    using assms by (auto simp: loadRoleAuthorizationResource_def sql_ok Let_def)
  then show ?thesis
    by (auto simp: role_paths_def role_rows_def dedup_set dedup_distinct)
qed

lemma loadRole_ok:
  assumes "loadAuthorizationRole roleID E s = (s', Inr role)"
  shows "tx_db s' = tx_db s \<and> role \<in> set (db_roles (tx_db s)) \<and> rl_ID role = roleID"
  using assms by (auto simp: loadAuthorizationRole_def sql_ok find_Some_iff split: option.splits)

section \<open>The rows of a replacement\<close>

definition selected_menus :: "string list \<Rightarrow> string list \<Rightarrow> auth_db \<Rightarrow> menu list" where
  "selected_menus paths types d = (if paths = [] then [] else assignable_menus paths types d)"

definition with_children :: "menu list \<Rightarrow> auth_db \<Rightarrow> (menu \<times> menu list) list" where
  "with_children menus d =
     (let parentIDs = map mn_ID (filter (\<lambda>m. mn_Type m = MenuAccessType) menus) in
      if parentIDs = [] then map (\<lambda>m. (m, [])) menus
      else map (\<lambda>m. (m, filter (\<lambda>c. mn_ParentID c = mn_ID m) (assignable_apis parentIDs d))) menus)"

lemma loadAPIs_ok: "loadAssignableAuthorizationAPIs menus E s = (s', Inr x) \<Longrightarrow> tx_db s' = tx_db s \<and> x = with_children menus (tx_db s)"
  by (auto simp: loadAssignableAuthorizationAPIs_def with_children_def sql_ok Let_def split: if_splits)

lemma loadMenus_ok: "loadAssignableAuthorizationMenus p t E s = (s', Inr x) \<Longrightarrow> tx_db s' = tx_db s \<and> x = selected_menus p t (tx_db s)"
  by (auto simp: loadAssignableAuthorizationMenus_def selected_menus_def sql_ok split: if_splits)

definition new_rules :: "string \<Rightarrow> string list \<Rightarrow> string list \<Rightarrow> auth_db \<Rightarrow> casbinRule list" where
  "new_rules roleID paths types d = buildAuthorizationRules roleID (with_children (selected_menus paths types d) d) True"

lemma replace_rows_ok:
  assumes "replace_rows roleID paths R E s = (s', Inr u)" and "includeAPIs R"
  shows "invalidAuthorizationPaths paths (selected_menus paths (selectedTypes R) (tx_db s)) = []
    \<and> tx_db s' = create_rules (new_rules roleID paths (selectedTypes R) (tx_db s)) (delete_rules roleID (deleteScopes R) (tx_db s))"
proof -
  from assms obtain s1 menus s2 s3 loaded s4 where
    m: "loadAssignableAuthorizationMenus paths (selectedTypes R) E s = (s1, Inr menus)"
    and inv: "invalidAuthorizationPaths paths menus = []" "s2 = s1"
    and l: "loadAssignableAuthorizationAPIs menus E s2 = (s3, Inr loaded)"
    and s4: "s4 = s3\<lparr>tx_tick := Suc (tx_tick s3), tx_db := delete_rules roleID (deleteScopes R) (tx_db s3)\<rparr>"
    and cr: "sql_unless (buildAuthorizationRules roleID loaded True = [])
        (sql_exec (create_rules (buildAuthorizationRules roleID loaded True))) E s4 = (s', Inr u)"
    unfolding replace_rows_def Let_def sql_bind_ok sql_refuse_ok sql_exec_ok by auto
  have "create_rules [] d = d" for d by (simp add: create_rules_def)
  moreover have "tx_db s' = (if buildAuthorizationRules roleID loaded True = [] then tx_db s4
      else create_rules (buildAuthorizationRules roleID loaded True) (tx_db s4))"
    using cr by (auto simp: sql_ok split: if_splits)
  ultimately have "tx_db s' = create_rules (buildAuthorizationRules roleID loaded True) (tx_db s4)" by simp
  with s4 loadMenus_ok [OF m] loadAPIs_ok [OF l] inv show ?thesis by (simp add: new_rules_def)
qed

text \<open>Exactly one enabled node of an allowed type stands behind every path.\<close>

lemma no_invalid:
  assumes "invalidAuthorizationPaths paths menus = []" and "p \<in> set paths"
  obtains m where "filter (\<lambda>m. mn_Path m = p) menus = [m]" "m \<in> set menus" "mn_Path m = p"
proof -
  have "length (filter (\<lambda>m. mn_Path m = p) menus) = 1"
    using assms by (auto simp: invalidAuthorizationPaths_def filter_empty_conv)
  then obtain m where m: "filter (\<lambda>m. mn_Path m = p) menus = [m]" by (auto simp: length_Suc_conv)
  then have "m \<in> set (filter (\<lambda>m. mn_Path m = p) menus)" by simp
  then have "m \<in> set menus" "mn_Path m = p" by auto
  with m that show ?thesis by blast
qed

section \<open>The transaction\<close>

lemma replace_body_ok:
  assumes "replace_body roleID paths exp R E s = (s', Inr (res, committed))" and "includeAPIs R"
  defines "d \<equiv> tx_db s" and "d' \<equiv> tx_db s'"
  shows "(\<exists>role \<in> set (db_roles d). rl_ID role = roleID \<and> rl_Status role = Enabled)"
    and "exp = rev_of d (roleAuthorizationRevisionKey roleID)"
    and "invalidAuthorizationPaths paths (selected_menus paths (selectedTypes R) d) = []"
    and "db_rules d' = db_rules (create_rules (new_rules roleID paths (selectedTypes R) d) (delete_rules roleID (deleteScopes R) d))"
    and "db_menus d' = db_menus d" "db_apis d' = db_apis d" "db_roles d' = db_roles d" "db_users d' = db_users d"
    and "db_revisions d' = (db_revisions d)(roleAuthorizationRevisionKey roleID \<mapsto> exp + 1,
           globalAuthorizationRevisionKey \<mapsto> rev_of d globalAuthorizationRevisionKey + 1)"
    and "committed = rev_of d globalAuthorizationRevisionKey + 1"
    and "ar_RoleID res = roleID \<and> ar_Revision res = strconv_FormatInt (exp + 1)
         \<and> sorted (ar_Paths res) \<and> distinct (ar_Paths res) \<and> set (ar_Paths res) = role_paths roleID d'"
proof -
  let ?g = globalAuthorizationRevisionKey and ?k = "roleAuthorizationRevisionKey roleID"
  from assms(1) obtain s1 role s3 g s4 v s5 s6 n s7 where
    role: "loadAuthorizationRole roleID E s = (s1, Inr role)" "rl_Status role = Enabled"
    and g: "lockConfigRevision ?g E s1 = (s3, Inr g)" and v: "lockConfigRevision ?k E s3 = (s4, Inr v)"
    and e: "exp = v" and rows: "replace_rows roleID paths R E s4 = (s5, Inr ())"
    and n: "advanceConfigRevision ?k v E s5 = (s6, Inr n)" and c: "advanceConfigRevision ?g g E s6 = (s7, Inr committed)"
    and res: "loadRoleAuthorizationResource roleID n E s7 = (s', Inr res)"
    unfolding replace_body_def by (auto simp: sql_ok split: if_splits)
  note r1 = loadRole_ok [OF role(1)] and g1 = lockConfigRevision_ok [OF g] and v1 = lockConfigRevision_ok [OF v]
    and rows1 = replace_rows_ok [OF rows assms(2)] and n1 = advanceConfigRevision_ok [OF n]
    and c1 = advanceConfigRevision_ok [OF c] and res1 = resource_ok [OF res]
  have same: "db_menus (tx_db s4) = db_menus d" "db_rules (tx_db s4) = db_rules d" "db_apis (tx_db s4) = db_apis d"
    "db_roles (tx_db s4) = db_roles d" "db_users (tx_db s4) = db_users d"
    using r1 g1 v1 by (simp_all add: d_def)
  have sel: "selected_menus p t (tx_db s4) = selected_menus p t d" "with_children m (tx_db s4) = with_children m d" for p t m
    using same by (simp_all add: selected_menus_def assignable_menus_def with_children_def assignable_apis_def)
  show "\<exists>role \<in> set (db_roles d). rl_ID role = roleID \<and> rl_Status role = Enabled" using r1 role(2) d_def by blast
  have v2: "v = rev_of d ?k"
    using v1 g1 r1 by (simp add: rev_of_def d_def insert_revision_other split: option.splits)
  then show "exp = rev_of d ?k" using e by simp
  show "invalidAuthorizationPaths paths (selected_menus paths (selectedTypes R) d) = []" using rows1 sel by simp
  show "db_rules d' = db_rules (create_rules (new_rules roleID paths (selectedTypes R) d) (delete_rules roleID (deleteScopes R) d))"
    using rows1 n1 c1 res1 sel same by (simp add: d'_def new_rules_def create_rules_def delete_rules_def)
  show "db_menus d' = db_menus d" "db_apis d' = db_apis d" "db_roles d' = db_roles d" "db_users d' = db_users d"
    using rows1 n1 c1 res1 same by (simp_all add: d'_def create_rules_def delete_rules_def)
  have g2: "g = rev_of d ?g" using g1 r1 by (simp add: rev_of_def d_def)
  have "db_revisions (tx_db s4) = (db_revisions d)(?g \<mapsto> g, ?k \<mapsto> v)"
    using g1 v1 r1 by (auto simp: d_def insert_revision_def fun_eq_iff split: if_splits option.splits)
  then have "db_revisions (tx_db s5) = (db_revisions d)(?g \<mapsto> g, ?k \<mapsto> v)"
    using rows1 by (simp add: create_rules_def delete_rules_def)
  then show "db_revisions d' = (db_revisions d)(?k \<mapsto> exp + 1, ?g \<mapsto> rev_of d ?g + 1)"
    using n1 c1 res1 e g2 by (auto simp: d'_def fun_eq_iff)
  show "committed = rev_of d ?g + 1" using c1 g2 by simp
  show "ar_RoleID res = roleID \<and> ar_Revision res = strconv_FormatInt (exp + 1)
         \<and> sorted (ar_Paths res) \<and> distinct (ar_Paths res) \<and> set (ar_Paths res) = role_paths roleID d'"
    using res1 n1 e by (simp add: d'_def)
qed

end
