(* ===== verification/Auth_Exact.thy ===== *)
theory Auth_Exact
  imports Auth_Replace
begin

text \<open>
  The rules a replacement leaves, as sets: what the role is granted and nothing else. Stored paths contain no
  NUL byte (\<open>plain_paths\<close>), which the service uses as the separator of its keys.
\<close>

definition plain_paths :: "auth_db \<Rightarrow> bool" where
  "plain_paths d \<longleftrightarrow> (\<forall>m \<in> set (db_menus d). CHR 0x00 \<notin> set (mn_Path m)) \<and> (\<forall>a \<in> set (db_apis d). CHR 0x00 \<notin> set (api_Path a))"

lemma dedup_by_inj: "inj_on key (set xs) \<Longrightarrow> set (dedup_by key [] xs) = set xs"
proof -
  assume inj: "inj_on key (set xs)"
  have "key ` set (dedup_by key [] xs) = key ` set xs" using dedup_by_keys [of key "[]" xs] by simp
  with inj dedup_by_subset [of key "[]" xs] show ?thesis by (auto simp: inj_on_image_eq_iff)
qed

lemma append_sep_inject: "c \<notin> set a \<Longrightarrow> c \<notin> set a' \<Longrightarrow> a @ c # b = a' @ c # b' \<longleftrightarrow> a = a' \<and> b = b'"
proof (induction a arbitrary: a')
  case Nil
  then show ?case by (cases a') auto
next
  case (Cons x a)
  then show ?case by (cases a') auto
qed

lemma rule_key_inj:
  assumes "\<And>t p m. (t, p, m) \<in> S \<Longrightarrow> CHR 0x00 \<notin> set t \<and> CHR 0x00 \<notin> set p"
  shows "inj_on rule_key S"
proof (rule inj_onI)
  fix x y assume x: "x \<in> S" and y: "y \<in> S" and e: "rule_key x = rule_key y"
  obtain t p m t' p' m' where [simp]: "x = (t, p, m)" "y = (t', p', m')" by (metis surj_pair)
  note c = assms [of t p m] assms [of t' p' m']
  from e have "t @ CHR 0x00 # (p @ CHR 0x00 # m) = t' @ CHR 0x00 # (p' @ CHR 0x00 # m')" by (simp add: rule_key_def)
  with c x y have "t = t'" "p @ CHR 0x00 # m = p' @ CHR 0x00 # m'" by (auto simp: append_sep_inject)
  with c x y show "x = y" by (auto simp: append_sep_inject)
qed

lemma types_plain: "CHR 0x00 \<notin> set MenuAccessType" "CHR 0x00 \<notin> set APIAccessType" "CHR 0x00 \<notin> set ComponentAccessType"
  "MenuAccessType \<noteq> APIAccessType" "ComponentAccessType \<noteq> APIAccessType" "MenuAccessType \<noteq> ComponentAccessType"
  by (simp_all add: access_types)

text \<open>The API grants that follow from a set of menu paths.\<close>

definition derived_grants :: "string set \<Rightarrow> auth_db \<Rightarrow> (string \<times> string) set" where
  "derived_grants P d =
     {(mn_Path c, normalizeAuthorizationMethod (mn_Method c)) | m c.
        m \<in> set (db_menus d) \<and> mn_Type m = MenuAccessType \<and> mn_Status m = Enabled \<and> mn_Path m \<in> P
        \<and> c \<in> set (db_menus d) \<and> mn_ParentID c = mn_ID m \<and> mn_Type c = APIAccessType \<and> mn_Status c = Enabled}"

lemma selected_set:
  "set (selected_menus paths types d)
   = {m \<in> set (db_menus d). mn_Path m \<in> set paths \<and> mn_Type m \<in> set types \<and> mn_Status m = Enabled}"
  by (auto simp: selected_menus_def assignable_menus_def)

lemma rule_triples_set:
  assumes "set types \<subseteq> {MenuAccessType, ComponentAccessType}" and "MenuAccessType \<in> set types"
    and "distinct (map mn_ID (db_menus d))"
  shows "set (rule_triples True (with_children (selected_menus paths types d) d))
    = (\<lambda>m. (mn_Type m, mn_Path m, normalizeAuthorizationMethod (mn_Method m))) ` set (selected_menus paths types d)
      \<union> (\<lambda>(p, m). (APIAccessType, p, m)) ` derived_grants (set paths) d"
proof -
  let ?M = "selected_menus paths types d" and ?ids = "map mn_ID (filter (\<lambda>m. mn_Type m = MenuAccessType) (selected_menus paths types d))"
  have api: "set (assignable_apis ids d) = {c \<in> set (db_menus d). mn_ParentID c \<in> set ids \<and> mn_Type c = APIAccessType \<and> mn_Status c = Enabled}"
    for ids by (auto simp: assignable_apis_def)
  have ids: "i \<in> set ?ids \<longleftrightarrow> (\<exists>m \<in> set ?M. mn_Type m = MenuAccessType \<and> mn_ID m = i)" for i by auto
  have w: "set (with_children ?M d) = (\<lambda>m. (m, filter (\<lambda>c. mn_ParentID c = mn_ID m) (if ?ids = [] then [] else assignable_apis ?ids d))) ` set ?M"
    by (simp add: with_children_def Let_def)
  have eq: "m = m'" if "m \<in> set (db_menus d)" "m' \<in> set (db_menus d)" "mn_ID m = mn_ID m'" for m m'
    using that assms(3) by (auto simp: distinct_map dest: inj_onD)
  have kids: "(\<exists>m \<in> set ?M. c \<in> set (filter (\<lambda>c. mn_ParentID c = mn_ID m) (if ?ids = [] then [] else assignable_apis ?ids d)))
      \<longleftrightarrow> c \<in> set (db_menus d) \<and> mn_Type c = APIAccessType \<and> mn_Status c = Enabled
        \<and> (\<exists>m \<in> set (db_menus d). mn_Type m = MenuAccessType \<and> mn_Status m = Enabled \<and> mn_Path m \<in> set paths \<and> mn_ParentID c = mn_ID m)"
    (is "?L \<longleftrightarrow> ?R") for c
  proof
    assume ?L
    then obtain m where m: "m \<in> set ?M" "mn_ParentID c = mn_ID m" "?ids \<noteq> []" "c \<in> set (assignable_apis ?ids d)"
      by (auto split: if_splits)
    then have c: "c \<in> set (db_menus d)" "mn_Type c = APIAccessType" "mn_Status c = Enabled" "mn_ParentID c \<in> set ?ids"
      by (auto simp: api)
    with ids obtain m' where "m' \<in> set ?M" "mn_Type m' = MenuAccessType" "mn_ID m' = mn_ParentID c" by metis
    with c show ?R by (auto simp: selected_set)
  next
    assume R: ?R
    then obtain m where m: "m \<in> set (db_menus d)" "mn_Type m = MenuAccessType" "mn_Status m = Enabled" "mn_Path m \<in> set paths" "mn_ParentID c = mn_ID m" by blast
    with assms(2) have "m \<in> set ?M" by (simp add: selected_set)
    moreover from this m have i: "mn_ParentID c \<in> set ?ids" by auto
    moreover from i have "?ids \<noteq> []" by (metis empty_iff empty_set)
    ultimately show ?L using R m(5) by (auto simp: api simp del: map_is_Nil_conv)
  qed
  have "set (rule_triples True (with_children ?M d))
      = (\<lambda>m. (mn_Type m, mn_Path m, normalizeAuthorizationMethod (mn_Method m))) ` set ?M
        \<union> (\<lambda>c. (APIAccessType, mn_Path c, normalizeAuthorizationMethod (mn_Method c)))
          ` {c. \<exists>m \<in> set ?M. c \<in> set (filter (\<lambda>c. mn_ParentID c = mn_ID m) (if ?ids = [] then [] else assignable_apis ?ids d))}"
    unfolding rule_triples_def set_concat set_map w by (auto simp: api split: if_splits)
  then show ?thesis unfolding kids by (auto simp: derived_grants_def image_iff)
qed


section \<open>The rules of the role afterwards\<close>

text \<open>What the two kinds of replacement touch: the selected types and the API rules.\<close>

definition kinds :: "rolePolicyReplacement set" where
  "kinds = {replace_role_kinds, replace_menu_kinds}"

lemma kinds_facts:
  assumes "R \<in> kinds"
  shows "includeAPIs R" "set (selectedTypes R) \<subseteq> {MenuAccessType, ComponentAccessType}" "MenuAccessType \<in> set (selectedTypes R)"
    "set (deleteScopes R) = insert APIAccessType (set (selectedTypes R))"
  using assms by (auto simp: kinds_def replace_role_kinds_def replace_menu_kinds_def)

definition rules_of :: "string \<Rightarrow> string set \<Rightarrow> auth_db \<Rightarrow> casbinRule set" where
  "rules_of roleID types d = {r \<in> set (db_rules d). cr_PType r = ''p'' \<and> cr_V0 r = roleID \<and> cr_V1 r \<in> types}"

lemma new_rules_set:
  assumes "R \<in> kinds" and "plain_paths d" and "distinct (map mn_ID (db_menus d))"
  shows "set (new_rules roleID paths (selectedTypes R) d)
    = policy_rule roleID ` ((\<lambda>m. (mn_Type m, mn_Path m, normalizeAuthorizationMethod (mn_Method m))) ` set (selected_menus paths (selectedTypes R) d)
      \<union> (\<lambda>(p, m). (APIAccessType, p, m)) ` derived_grants (set paths) d)"
proof -
  let ?T = "rule_triples True (with_children (selected_menus paths (selectedTypes R) d) d)"
  note T = rule_triples_set [OF kinds_facts(2,3) [OF assms(1)] assms(3)]
  have "inj_on rule_key (set ?T)"
  proof (rule rule_key_inj)
    fix t p m assume "(t, p, m) \<in> set ?T"
    then show "CHR 0x00 \<notin> set t \<and> CHR 0x00 \<notin> set p"
      using assms(2) kinds_facts(2) [OF assms(1)] types_plain unfolding T
      by (auto simp: selected_set derived_grants_def plain_paths_def)
  qed
  then show ?thesis by (simp add: new_rules_def buildAuthorizationRules_def dedup_by_inj T)
qed

lemma select_image:
  assumes "\<And>x. x \<in> S \<Longrightarrow> f (A x) \<in> T" and "\<And>y. y \<in> G \<Longrightarrow> f (B y) \<notin> T"
  shows "{r \<in> A ` S \<union> B ` G. f r \<in> T} = A ` S" and "{r \<in> B ` G \<union> A ` S. f r \<in> T} = A ` S"
  using assms by auto

lemma replaced_rules:
  assumes "R \<in> kinds" and "plain_paths d" and "distinct (map mn_ID (db_menus d))"
    and "invalidAuthorizationPaths paths (selected_menus paths (selectedTypes R) d) = []"
    and "db_rules d' = db_rules (create_rules (new_rules roleID paths (selectedTypes R) d) (delete_rules roleID (deleteScopes R) d))"
  shows "cr_V2 ` rules_of roleID (set (selectedTypes R)) d' = set paths"
    and "(\<lambda>r. (cr_V2 r, cr_V3 r)) ` rules_of roleID {APIAccessType} d' = derived_grants (set paths) d"
    and "filter (\<lambda>r. \<not> (cr_PType r = ''p'' \<and> cr_V0 r = roleID \<and> cr_V1 r \<in> set (deleteScopes R))) (db_rules d')
       = filter (\<lambda>r. \<not> (cr_PType r = ''p'' \<and> cr_V0 r = roleID \<and> cr_V1 r \<in> set (deleteScopes R))) (db_rules d)"
proof -
  let ?sel = "selected_menus paths (selectedTypes R) d"
  let ?N = "policy_rule roleID ` ((\<lambda>m. (mn_Type m, mn_Path m, normalizeAuthorizationMethod (mn_Method m))) ` set ?sel
      \<union> (\<lambda>(p, m). (APIAccessType, p, m)) ` derived_grants (set paths) d)"
  note K = kinds_facts [OF assms(1)]
  have rules: "set (db_rules d') = {r \<in> set (db_rules d). \<not> (cr_PType r = ''p'' \<and> cr_V0 r = roleID \<and> cr_V1 r \<in> set (deleteScopes R))} \<union> ?N"
    using assms(5) new_rules_set [OF assms(1-3)] by (simp add: create_rules_def delete_rules_def)
  have types: "APIAccessType \<notin> set (selectedTypes R)" using K(2) types_plain by auto
  define A where "A m = policy_rule roleID (mn_Type m, mn_Path m, normalizeAuthorizationMethod (mn_Method m))" for m :: menu
  define B where "B g = policy_rule roleID (APIAccessType, fst g, snd g)" for g
  have N: "?N = A ` set ?sel \<union> B ` derived_grants (set paths) d"
    by (simp add: image_Un image_image case_prod_unfold A_def [abs_def] B_def [abs_def])
  have v1: "cr_V1 (A m) = mn_Type m" "cr_V1 (B g) = APIAccessType" "cr_V2 (A m) = mn_Path m"
    "cr_V2 (B g) = fst g" "cr_V3 (B g) = snd g"
    "cr_PType (A m) = ''p''" "cr_PType (B g) = ''p''" "cr_V0 (A m) = roleID" "cr_V0 (B g) = roleID" for m g
    by (simp_all add: policy_rule_def A_def B_def split: prod.split)
  have sub: "cr_PType r = ''p'' \<and> cr_V0 r = roleID \<and> cr_V1 r \<in> set (deleteScopes R)" if "r \<in> ?N" for r
  proof -
    from that [unfolded N] consider m where "r = A m" "m \<in> set ?sel" | g where "r = B g" by blast
    then show ?thesis
    proof cases
      case (1 m)
      then have "mn_Type m \<in> set (selectedTypes R)" by (simp add: selected_set)
      then show ?thesis unfolding 1(1) v1 K(4) by simp
    next
      case (2 g)
      then show ?thesis unfolding 2(1) v1 K(4) by simp
    qed
  qed
  have of: "rules_of roleID T d' = {r \<in> ?N. cr_V1 r \<in> T}" if "T \<subseteq> set (deleteScopes R)" for T
  proof (rule set_eqI)
    fix r
    show "r \<in> rules_of roleID T d' \<longleftrightarrow> r \<in> {r \<in> ?N. cr_V1 r \<in> T}"
    proof (cases "r \<in> ?N")
      case True
      then show ?thesis using sub [OF True] by (simp only: rules_of_def rules mem_Collect_eq Un_iff simp_thms)
    next
      case False
      with that show ?thesis by (auto simp only: rules_of_def rules mem_Collect_eq Un_iff simp_thms)
    qed
  qed
  have split_N: "{r \<in> ?N. cr_V1 r \<in> set (selectedTypes R)} = A ` set ?sel"
    "{r \<in> ?N. cr_V1 r \<in> {APIAccessType}} = B ` derived_grants (set paths) d"
    unfolding N
    subgoal by (rule select_image(1)) (use types v1(1,2) in \<open>simp_all add: selected_set\<close>)
    subgoal using select_image(2) [of "derived_grants (set paths) d" cr_V1 B "{APIAccessType}" "set ?sel" A]
      by (simp add: types v1(1,2) selected_set Un_commute) (metis types)
    done
  have "cr_V2 ` {r \<in> ?N. cr_V1 r \<in> set (selectedTypes R)} = mn_Path ` set ?sel"
    unfolding split_N image_image v1 ..
  moreover have "mn_Path ` set ?sel = set paths"
  proof
    show "mn_Path ` set ?sel \<subseteq> set paths" by (auto simp: selected_set)
    show "set paths \<subseteq> mn_Path ` set ?sel"
    proof
      fix p assume "p \<in> set paths"
      from no_invalid [OF assms(4) this] obtain m where "m \<in> set ?sel" "mn_Path m = p" .
      then show "p \<in> mn_Path ` set ?sel" by (rule image_eqI [OF sym, rotated])
    qed
  qed
  moreover have "set (selectedTypes R) \<subseteq> set (deleteScopes R)" "{APIAccessType} \<subseteq> set (deleteScopes R)" using K(4) by auto
  note of = of [OF this(1)] of [OF this(2)]
  ultimately show "cr_V2 ` rules_of roleID (set (selectedTypes R)) d' = set paths" by (simp only: of)
  have "(\<lambda>r. (cr_V2 r, cr_V3 r)) ` {r \<in> ?N. cr_V1 r \<in> {APIAccessType}} = derived_grants (set paths) d"
    unfolding split_N image_image v1 by simp
  then show "(\<lambda>r. (cr_V2 r, cr_V3 r)) ` rules_of roleID {APIAccessType} d' = derived_grants (set paths) d"
    by (simp only: of)
  have "filter (\<lambda>r. \<not> (cr_PType r = ''p'' \<and> cr_V0 r = roleID \<and> cr_V1 r \<in> set (deleteScopes R))) (new_rules roleID paths (selectedTypes R) d) = []"
  proof (unfold filter_empty_conv, intro ballI)
    fix r assume "r \<in> set (new_rules roleID paths (selectedTypes R) d)"
    then have "r \<in> ?N" by (simp only: new_rules_set [OF assms(1-3)])
    from sub [OF this] show "\<not> \<not> (cr_PType r = ''p'' \<and> cr_V0 r = roleID \<and> cr_V1 r \<in> set (deleteScopes R))"
      by (simp only: simp_thms)
  qed
  then show "filter (\<lambda>r. \<not> (cr_PType r = ''p'' \<and> cr_V0 r = roleID \<and> cr_V1 r \<in> set (deleteScopes R))) (db_rules d')
       = filter (\<lambda>r. \<not> (cr_PType r = ''p'' \<and> cr_V0 r = roleID \<and> cr_V1 r \<in> set (deleteScopes R))) (db_rules d)"
    using assms(5) by (simp add: create_rules_def delete_rules_def)
qed

end
