(* ===== verification/Auth_Changes.thy ===== *)
theory Auth_Changes
  imports Auth_Exact
begin

text \<open>
  Every way the modelled code changes the authorization tables, as one relation, and what all of them keep:
  an API grant never outlives the menu binding it was derived from, and the policy never changes without the
  global revision.
\<close>

section \<open>The changes\<close>

text \<open>
  The guarded editors of menus and APIs run the validation and then write one row; the row keeps its
  identifier, and an update that the validation lets through because nothing relevant changed writes the five
  relevant columns as they were.
\<close>

definition same_authority :: "menu \<Rightarrow> menu \<Rightarrow> bool" where
  "same_authority m n \<longleftrightarrow> mn_ID m = mn_ID n \<and> mn_Path m = mn_Path n \<and> mn_Method m = mn_Method n \<and> mn_Type m = mn_Type n
     \<and> mn_Status m = mn_Status n \<and> mn_ParentID m = mn_ParentID n"

definition save_menu :: "menu \<Rightarrow> auth_db \<Rightarrow> auth_db" where
  "save_menu n d = d\<lparr>db_menus := map (\<lambda>m. if mn_ID m = mn_ID n then n else m) (db_menus d)\<rparr>"

inductive auth_change :: "auth_db \<Rightarrow> auth_db \<Rightarrow> bool" where
  ch_replace: "R \<in> kinds \<Longrightarrow> strings_TrimSpace raw \<noteq> [] \<Longrightarrow>
    sql_transaction (replace_body (strings_TrimSpace raw) (canonicalAuthorizationPaths paths) exp R) E s = (s', Inr x) \<Longrightarrow>
    auth_change (tx_db s) (tx_db s')"
| ch_bind: "sql_transaction (bind_body ids menuID (canonicalAuthorizationAPIReferences refs)) E s = (s', Inr g) \<Longrightarrow>
    inj ids \<Longrightarrow> range ids \<inter> mn_ID ` set (db_menus (tx_db s)) = {} \<Longrightarrow> auth_change (tx_db s) (tx_db s')"
| ch_read: "sql_transaction (read_body roleID) E s = (s', Inr res) \<Longrightarrow> auth_change (tx_db s) (tx_db s')"
| ch_ensure: "auth_change d (insert_revision globalAuthorizationRevisionKey d)"
| ch_role_delete: "DeleteRole True True raw E s = (s', Inr u) \<Longrightarrow> auth_change (tx_db s) (tx_db s')"
| ch_roles: "auth_change d (d\<lparr>db_roles := rs, db_users := us\<rparr>)"
| ch_menu_create: "ValidateMenuMetadataCreate True (Some m) E s = (s', Inr n) \<Longrightarrow>
    mn_ID n \<notin> mn_ID ` set (db_menus (tx_db s)) \<Longrightarrow> CHR 0x00 \<notin> set (mn_Path n) \<Longrightarrow>
    auth_change (tx_db s) ((tx_db s)\<lparr>db_menus := db_menus (tx_db s) @ [n]\<rparr>)"
| ch_menu_update: "ValidateMenuMetadataUpdate True (Some m) E s = (s', Inr n) \<Longrightarrow> CHR 0x00 \<notin> set (mn_Path n) \<Longrightarrow>
    auth_change (tx_db s) (save_menu n (tx_db s))"
| ch_menu_delete: "ValidateMenuMetadataDelete raw E s = (s', Inr u) \<Longrightarrow>
    auth_change (tx_db s) ((tx_db s)\<lparr>db_menus := filter (\<lambda>m. mn_ID m \<noteq> strings_TrimSpace raw) (db_menus (tx_db s))\<rparr>)"
| ch_apis: "\<forall>a \<in> set apis. CHR 0x00 \<notin> set (api_Path a) \<Longrightarrow> auth_change d (d\<lparr>db_apis := apis\<rparr>)"

section \<open>The invariant\<close>

definition tables_ok :: "auth_db \<Rightarrow> bool" where
  "tables_ok d \<longleftrightarrow> distinct (map mn_ID (db_menus d)) \<and> plain_paths d"

text \<open>The binding an API rule was derived from: an enabled menu of the role and an enabled API child of it.\<close>

definition supported :: "auth_db \<Rightarrow> casbinRule \<Rightarrow> bool" where
  "supported d r \<longleftrightarrow>
     (\<exists>m c q. m \<in> set (db_menus d) \<and> c \<in> set (db_menus d) \<and> q \<in> set (db_rules d)
        \<and> mn_Type m = MenuAccessType \<and> mn_Status m = Enabled
        \<and> mn_Type c = APIAccessType \<and> mn_Status c = Enabled \<and> mn_ParentID c = mn_ID m
        \<and> cr_PType q = ''p'' \<and> cr_V0 q = cr_V0 r \<and> cr_V1 q = MenuAccessType \<and> strings_TrimSpace (cr_V2 q) = mn_Path m
        \<and> cr_V2 r = mn_Path c \<and> cr_V3 r = normalizeAuthorizationMethod (mn_Method c))"

definition api_rule :: "casbinRule \<Rightarrow> bool" where
  "api_rule r \<longleftrightarrow> cr_PType r = ''p'' \<and> cr_V1 r = APIAccessType"

definition grants_derived :: "auth_db \<Rightarrow> bool" where
  "grants_derived d \<longleftrightarrow> (\<forall>r \<in> set (db_rules d). api_rule r \<longrightarrow> supported d r \<and> strings_TrimSpace (cr_V0 r) \<noteq> [])"

lemma supportedI:
  assumes "m \<in> set (db_menus d)" "c \<in> set (db_menus d)" "q \<in> set (db_rules d)"
    "mn_Type m = MenuAccessType" "mn_Status m = Enabled" "mn_Type c = APIAccessType" "mn_Status c = Enabled"
    "mn_ParentID c = mn_ID m" "cr_PType q = ''p''" "cr_V0 q = cr_V0 r" "cr_V1 q = MenuAccessType"
    "strings_TrimSpace (cr_V2 q) = mn_Path m" "cr_V2 r = mn_Path c" "cr_V3 r = normalizeAuthorizationMethod (mn_Method c)"
  shows "supported d r"
  unfolding supported_def using assms by (intro exI conjI)

lemma policy_rule_simps [simp]:
  "cr_PType (policy_rule r (t, p, m)) = ''p''" "cr_V0 (policy_rule r (t, p, m)) = r" "cr_V1 (policy_rule r (t, p, m)) = t"
  "cr_V2 (policy_rule r (t, p, m)) = p" "cr_V3 (policy_rule r (t, p, m)) = m"
  by (simp_all add: policy_rule_def)

text \<open>What a support needs of the tables: the two nodes as they are, and the menu rules of the role.\<close>

lemma supported_mono:
  assumes "supported d r"
    and "\<And>m c. m \<in> set (db_menus d) \<Longrightarrow> c \<in> set (db_menus d) \<Longrightarrow> mn_ParentID c = mn_ID m \<Longrightarrow> cr_V2 r = mn_Path c \<Longrightarrow>
           mn_Type c = APIAccessType \<Longrightarrow> mn_Type m = MenuAccessType \<Longrightarrow>
           (\<exists>m' \<in> set (db_menus d'). same_authority m m') \<and> (\<exists>c' \<in> set (db_menus d'). same_authority c c')"
    and "\<And>q. q \<in> set (db_rules d) \<Longrightarrow> cr_PType q = ''p'' \<Longrightarrow> cr_V1 q = MenuAccessType \<Longrightarrow> cr_V0 q = cr_V0 r \<Longrightarrow> q \<in> set (db_rules d')"
  shows "supported d' r"
proof -
  from assms(1) obtain m c q where s: "m \<in> set (db_menus d)" "c \<in> set (db_menus d)" "q \<in> set (db_rules d)"
    "mn_Type m = MenuAccessType" "mn_Status m = Enabled" "mn_Type c = APIAccessType" "mn_Status c = Enabled"
    "mn_ParentID c = mn_ID m" "cr_PType q = ''p''" "cr_V0 q = cr_V0 r" "cr_V1 q = MenuAccessType"
    "strings_TrimSpace (cr_V2 q) = mn_Path m" "cr_V2 r = mn_Path c" "cr_V3 r = normalizeAuthorizationMethod (mn_Method c)"
    unfolding supported_def by (elim exE conjE)
  obtain m' c' where "m' \<in> set (db_menus d')" "c' \<in> set (db_menus d')" "same_authority m m'" "same_authority c c'"
    using assms(2) [OF s(1,2,8,13,6,4)] by blast
  moreover have "q \<in> set (db_rules d')" by (rule assms(3) [OF s(3,9,11,10)])
  ultimately show ?thesis using s by (intro supportedI [of m' d' c' q]) (simp_all add: same_authority_def)
qed

lemma same_authority_refl [simp]: "same_authority m m" by (simp add: same_authority_def)

lemma same_authority_in [intro]: "m \<in> S \<Longrightarrow> \<exists>m' \<in> S. same_authority m m'" by (rule bexI [of _ m]) simp_all

text \<open>Tables whose rules and menus are the same, or have only grown by menus, keep the invariant.\<close>

lemma grants_derived_menus:
  assumes "grants_derived d" and "db_rules d' = db_rules d"
    and "\<And>r m c. r \<in> set (db_rules d) \<Longrightarrow> api_rule r \<Longrightarrow> m \<in> set (db_menus d) \<Longrightarrow> c \<in> set (db_menus d) \<Longrightarrow> mn_ParentID c = mn_ID m
           \<Longrightarrow> cr_V2 r = mn_Path c \<Longrightarrow> mn_Type c = APIAccessType \<Longrightarrow> mn_Type m = MenuAccessType \<Longrightarrow>
           (\<exists>m' \<in> set (db_menus d'). same_authority m m') \<and> (\<exists>c' \<in> set (db_menus d'). same_authority c c')"
  shows "grants_derived d'"
  unfolding grants_derived_def
proof (intro ballI impI)
  fix r assume r: "r \<in> set (db_rules d')" "api_rule r"
  then have r1: "r \<in> set (db_rules d)" using assms(2) by simp
  with assms(1) r(2) have "supported d r" "strings_TrimSpace (cr_V0 r) \<noteq> []" by (simp_all add: grants_derived_def)
  moreover have "supported d' r"
    by (rule supported_mono [OF \<open>supported d r\<close>]) (use assms(3) [OF r1 r(2)] assms(2) in simp_all)
  ultimately show "supported d' r \<and> strings_TrimSpace (cr_V0 r) \<noteq> []" by blast
qed

section \<open>Replacement\<close>

lemma replace_grants:
  assumes "R \<in> kinds" and "tables_ok d" and "grants_derived d"
    and "invalidAuthorizationPaths paths (selected_menus paths (selectedTypes R) d) = []"
    and rules: "db_rules d' = db_rules (create_rules (new_rules roleID paths (selectedTypes R) d) (delete_rules roleID (deleteScopes R) d))"
    and menus: "db_menus d' = db_menus d" and name: "strings_TrimSpace roleID \<noteq> []" and canon: "\<And>p. p \<in> set paths \<Longrightarrow> strings_TrimSpace p = p"
  shows "grants_derived d'"
  unfolding grants_derived_def
proof (intro ballI impI)
  fix r assume r: "r \<in> set (db_rules d')" "api_rule r"
  have ok: "plain_paths d" "distinct (map mn_ID (db_menus d))" using assms(2) by (simp_all add: tables_ok_def)
  note ex = replaced_rules [OF assms(1) ok assms(4) rules]
  show "supported d' r \<and> strings_TrimSpace (cr_V0 r) \<noteq> []"
  proof (cases "cr_V0 r = roleID")
    case True
    with r have "r \<in> rules_of roleID {APIAccessType} d'" by (simp add: rules_of_def api_rule_def)
    then have "(cr_V2 r, cr_V3 r) \<in> derived_grants (set paths) d" using ex(2) by force
    then obtain m c where mc: "m \<in> set (db_menus d)" "mn_Type m = MenuAccessType" "mn_Status m = Enabled" "mn_Path m \<in> set paths"
      "c \<in> set (db_menus d)" "mn_ParentID c = mn_ID m" "mn_Type c = APIAccessType" "mn_Status c = Enabled"
      "cr_V2 r = mn_Path c" "cr_V3 r = normalizeAuthorizationMethod (mn_Method c)"
      unfolding derived_grants_def by blast
    have "policy_rule roleID (MenuAccessType, mn_Path m, normalizeAuthorizationMethod (mn_Method m)) \<in> set (new_rules roleID paths (selectedTypes R) d)"
      unfolding new_rules_set [OF assms(1) ok]
      by (intro imageI UnI1 image_eqI [of _ _ m]) (use mc kinds_facts(3) [OF assms(1)] in \<open>simp_all add: selected_set\<close>)
    then have q: "policy_rule roleID (MenuAccessType, mn_Path m, normalizeAuthorizationMethod (mn_Method m)) \<in> set (db_rules d')"
      unfolding rules create_rules_def by simp
    have "supported d' r"
      by (rule supportedI [OF _ _ q]) (use mc menus canon True in simp_all)
    with True name show ?thesis by simp
  next
    case False
    have sub: "q \<in> set (new_rules roleID paths (selectedTypes R) d) \<Longrightarrow> cr_V0 q = roleID" for q
      by (auto simp: new_rules_def buildAuthorizationRules_def policy_rule_def)
    have r1: "r \<in> set (db_rules d)" using r False sub by (auto simp: rules create_rules_def delete_rules_def)
    with assms(3) r(2) have s: "supported d r" "strings_TrimSpace (cr_V0 r) \<noteq> []" by (auto simp: grants_derived_def)
    have "supported d' r"
      by (rule supported_mono [OF s(1)]) (use menus False in \<open>auto simp: rules create_rules_def delete_rules_def\<close>)
    with s show ?thesis by simp
  qed
qed


section \<open>Binding\<close>

text \<open>A support depends on the menus and on the rules that are not API rules only.\<close>

lemma supported_cong:
  assumes "db_menus d' = db_menus d" and "{q \<in> set (db_rules d'). \<not> api_rule q} = {q \<in> set (db_rules d). \<not> api_rule q}"
  shows "supported d' r = supported d r"
proof -
  have "supported d' r" if e: "db_menus d' = db_menus d"
      "{q \<in> set (db_rules d'). \<not> api_rule q} = {q \<in> set (db_rules d). \<not> api_rule q}" "supported d r" for d d'
  proof (rule supported_mono [OF e(3)])
    fix q assume q: "q \<in> set (db_rules d)" "cr_V1 q = MenuAccessType"
    then have "q \<in> {q \<in> set (db_rules d). \<not> api_rule q}" by (simp add: api_rule_def types_plain)
    then show "q \<in> set (db_rules d')" unfolding e(2) [symmetric] by simp
  qed (use e(1) in auto)
  with assms show ?thesis by metis
qed

lemma derived_supported:
  assumes "loadDerivedAPIRulesForRole role E s = (s', Inr rs)" and "r \<in> set rs"
  shows "api_rule r \<and> cr_V0 r = role \<and> supported (tx_db s) r"
proof -
  let ?paths = "dedup_by (\<lambda>p. p) [] (filter (\<lambda>p. p \<noteq> []) (map (\<lambda>r. strings_TrimSpace (cr_V2 r))
      (filter (\<lambda>r. cr_PType r = ''p'' \<and> cr_V0 r = role \<and> cr_V1 r = MenuAccessType) (db_rules (tx_db s)))))"
  let ?menus = "menus_at ?paths (tx_db s)"
  have "rs = [] \<or> rs = map (\<lambda>c. policy_rule role (APIAccessType, mn_Path c, normalizeAuthorizationMethod (mn_Method c)))
      (dedup_by (\<lambda>c. authorizationAPITuple (mn_Path c) (normalizeAuthorizationMethod (mn_Method c))) []
        (api_children (map mn_ID ?menus) (tx_db s)))"
    using assms(1) by (auto simp: loadDerivedAPIRulesForRole_def Let_def sql_ok split: if_splits)
  with assms(2) obtain c where c: "c \<in> set (api_children (map mn_ID ?menus) (tx_db s))"
    and r: "r = policy_rule role (APIAccessType, mn_Path c, normalizeAuthorizationMethod (mn_Method c))"
    using dedup_by_subset by fastforce
  from c have c1: "c \<in> set (db_menus (tx_db s))" "mn_Type c = APIAccessType" "mn_Status c = Enabled" "mn_ParentID c \<in> mn_ID ` set ?menus"
    by (auto simp: api_children_def)
  then obtain m where m: "m \<in> set ?menus" "mn_ParentID c = mn_ID m" by auto
  then have m1: "m \<in> set (db_menus (tx_db s))" "mn_Type m = MenuAccessType" "mn_Status m = Enabled" "mn_Path m \<in> set ?paths"
    by (auto simp: menus_at_def)
  from m1(4) obtain q where q: "q \<in> set (db_rules (tx_db s))" "cr_PType q = ''p''" "cr_V0 q = role" "cr_V1 q = MenuAccessType"
    "strings_TrimSpace (cr_V2 q) = mn_Path m"
    unfolding dedup_set by auto
  have "supported (tx_db s) r" by (rule supportedI [OF m1(1) c1(1) q(1)]) (use m1 c1 q m r in simp_all)
  with r show ?thesis by (simp add: api_rule_def)
qed

lemma reads_derived [reads]: "reads_only (loadDerivedAPIRulesForRole role)"
  by (auto simp: loadDerivedAPIRulesForRole_def Let_def intro!: reads)

lemma rederive_ok:
  assumes "rederive_role role E s = (s', Inr u)"
  shows "db_menus (tx_db s') = db_menus (tx_db s)"
    and "{q \<in> set (db_rules (tx_db s')). \<not> api_rule q} = {q \<in> set (db_rules (tx_db s)). \<not> api_rule q}"
    and "\<And>r. r \<in> set (db_rules (tx_db s')) \<Longrightarrow> api_rule r \<Longrightarrow>
           cr_V0 r = role \<and> supported (tx_db s') r \<or> cr_V0 r \<noteq> role \<and> r \<in> set (db_rules (tx_db s))"
    and "\<And>r. r \<in> set (db_rules (tx_db s)) \<Longrightarrow> api_rule r \<Longrightarrow> cr_V0 r \<noteq> role \<Longrightarrow> r \<in> set (db_rules (tx_db s'))"
    and "db_revisions (tx_db s') globalAuthorizationRevisionKey = db_revisions (tx_db s) globalAuthorizationRevisionKey"
    and "db_apis (tx_db s') = db_apis (tx_db s)"
proof -
  from assms obtain s1 v s2 derived s3 s4 s5 n where
    l: "lockConfigRevision (roleAuthorizationRevisionKey role) E s = (s1, Inr v)"
    and d: "loadDerivedAPIRulesForRole role E s1 = (s2, Inr derived)"
    and s3: "s3 = s2\<lparr>tx_tick := Suc (tx_tick s2), tx_db := delete_rules role [APIAccessType] (tx_db s2)\<rparr>"
    and c: "sql_unless (derived = []) (sql_exec (create_rules derived)) E s3 = (s4, Inr ())"
    and a: "advanceConfigRevision (roleAuthorizationRevisionKey role) v E s4 = (s5, Inr n)" and s': "s' = s5"
    unfolding rederive_role_def sql_bind_ok sql_exec_ok sql_return_ok by auto
  note l1 = lockConfigRevision_ok [OF l] and a1 = advanceConfigRevision_ok [OF a]
  have d1: "tx_db s2 = tx_db s1" using reads_onlyD [OF reads_derived d] .
  have "create_rules [] x = x" for x by (simp add: create_rules_def)
  with c have c1: "tx_db s4 = create_rules derived (tx_db s3)" by (auto simp: sql_ok split: if_splits)
  have rules: "db_rules (tx_db s') = filter (\<lambda>r. \<not> (cr_PType r = ''p'' \<and> cr_V0 r = role \<and> cr_V1 r = APIAccessType)) (db_rules (tx_db s)) @ derived"
    using a1 c1 s3 d1 l1 by (simp add: s' create_rules_def delete_rules_def)
  show menus: "db_menus (tx_db s') = db_menus (tx_db s)" using a1 c1 s3 d1 l1 by (simp add: s' create_rules_def delete_rules_def)
  show "db_apis (tx_db s') = db_apis (tx_db s)" using a1 c1 s3 d1 l1 by (simp add: s' create_rules_def delete_rules_def)
  show "db_revisions (tx_db s') globalAuthorizationRevisionKey = db_revisions (tx_db s) globalAuthorizationRevisionKey"
    using a1 c1 s3 d1 l1 by (simp add: s' create_rules_def delete_rules_def insert_revision_other fun_upd_def role_key_not_global [symmetric])
  note ds = derived_supported [OF d]
  show q: "{q \<in> set (db_rules (tx_db s')). \<not> api_rule q} = {q \<in> set (db_rules (tx_db s)). \<not> api_rule q}"
    unfolding rules using ds by (auto simp: api_rule_def)
  have sup: "supported (tx_db s') r = supported (tx_db s1) r" for r
    by (rule supported_cong) (use menus q l1 in simp_all)
  show "cr_V0 r = role \<and> supported (tx_db s') r \<or> cr_V0 r \<noteq> role \<and> r \<in> set (db_rules (tx_db s))"
    if r: "r \<in> set (db_rules (tx_db s'))" "api_rule r" for r
  proof (cases "r \<in> set derived")
    case True
    with ds sup show ?thesis by blast
  next
    case False
    with r show ?thesis unfolding rules by (auto simp: api_rule_def)
  qed
  show "r \<in> set (db_rules (tx_db s'))" if "r \<in> set (db_rules (tx_db s))" "api_rule r" "cr_V0 r \<noteq> role" for r
    using that unfolding rules by auto
qed

end
