(* ===== verification/Auth_Subtree.thy ===== *)
theory Auth_Subtree
  imports Auth_Exact
begin

text \<open>
  The breadth-first walk of \<open>loadMenuSubtree\<close>: it ends on every table, cycles of parents included, and returns
  the menu and all its descendants.
\<close>

definition child_row :: "auth_db \<Rightarrow> menu \<Rightarrow> menu \<Rightarrow> bool" where
  "child_row d m c \<longleftrightarrow> m \<in> set (db_menus d) \<and> c \<in> set (db_menus d) \<and> mn_ParentID c = mn_ID m"

text \<open>The state of the walk between two rounds.\<close>

definition walk_ok :: "auth_db \<Rightarrow> menu list \<Rightarrow> string list \<Rightarrow> string list \<Rightarrow> bool" where
  "walk_ok d found frontier seen \<longleftrightarrow>
     set seen = mn_ID ` set found \<and> set found \<subseteq> set (db_menus d) \<and> distinct (map mn_ID found)
   \<and> (\<forall>m \<in> set found. mn_ID m \<notin> set frontier \<longrightarrow> (\<forall>c. child_row d m c \<longrightarrow> c \<in> set found))
   \<and> set frontier \<subseteq> set seen"

definition next_rows :: "auth_db \<Rightarrow> string list \<Rightarrow> string list \<Rightarrow> menu list" where
  "next_rows d frontier seen = dedup_by mn_ID seen (children_of frontier d)"

lemma unique_row: "distinct (map mn_ID (db_menus d)) \<Longrightarrow> m \<in> set (db_menus d) \<Longrightarrow> m' \<in> set (db_menus d) \<Longrightarrow> mn_ID m = mn_ID m' \<Longrightarrow> m = m'"
  by (auto simp: distinct_map dest: inj_onD)

lemma next_rows_set:
  assumes ids: "distinct (map mn_ID (db_menus d))" and ok: "walk_ok d found frontier seen"
  shows "set (next_rows d frontier seen) = {c \<in> set (db_menus d). mn_ParentID c \<in> set frontier} - set found"
proof -
  have kids: "set (children_of frontier d) = {c \<in> set (db_menus d). mn_ParentID c \<in> set frontier}" by (auto simp: children_of_def)
  have seen: "mn_ID c \<in> set seen \<longleftrightarrow> c \<in> set found" if "c \<in> set (db_menus d)" for c
  proof
    assume "mn_ID c \<in> set seen"
    then have "mn_ID c \<in> mn_ID ` set found" using ok by (simp add: walk_ok_def)
    then obtain m where m: "m \<in> set found" "mn_ID c = mn_ID m" by (rule imageE) simp
    then have "m \<in> set (db_menus d)" using ok by (auto simp: walk_ok_def)
    from unique_row [OF ids that this m(2)] m(1) show "c \<in> set found" by simp
  qed (use ok in \<open>simp add: walk_ok_def\<close>)
  have sub: "set (next_rows d frontier seen) \<subseteq> set (children_of frontier d)" by (simp add: next_rows_def dedup_by_subset)
  have keys: "mn_ID ` set (next_rows d frontier seen) = mn_ID ` set (children_of frontier d) - set seen"
    by (simp add: next_rows_def dedup_by_keys)
  show ?thesis
  proof (rule set_eqI, rule iffI)
    fix c assume c: "c \<in> set (next_rows d frontier seen)"
    then have "mn_ID c \<notin> set seen" using keys by blast
    with c sub seen kids show "c \<in> {c \<in> set (db_menus d). mn_ParentID c \<in> set frontier} - set found" by auto
  next
    fix c assume c: "c \<in> {c \<in> set (db_menus d). mn_ParentID c \<in> set frontier} - set found"
    with seen kids have "mn_ID c \<in> mn_ID ` set (next_rows d frontier seen)" unfolding keys by auto
    then obtain c' where "c' \<in> set (next_rows d frontier seen)" "mn_ID c' = mn_ID c" by auto
    with c sub kids unique_row [OF ids, of c' c] show "c \<in> set (next_rows d frontier seen)" by auto
  qed
qed

lemma walk_step:
  assumes ids: "distinct (map mn_ID (db_menus d))" and ok: "walk_ok d found frontier seen"
  defines "new \<equiv> next_rows d frontier seen"
  shows "walk_ok d (found @ new) (map mn_ID new) (map mn_ID new @ seen)"
proof -
  have new: "set new = {c \<in> set (db_menus d). mn_ParentID c \<in> set frontier} - set found"
    unfolding new_def by (rule next_rows_set [OF ids ok])
  have d: "distinct (map mn_ID new)" "mn_ID ` set new \<inter> set seen = {}"
    using dedup_by_distinct [of mn_ID seen "children_of frontier d"] by (simp_all add: new_def next_rows_def)
  have "c \<in> set (found @ new)" if m: "m \<in> set (found @ new)" "mn_ID m \<notin> set (map mn_ID new)" "child_row d m c" for m c
  proof -
    have "m \<in> set found" using m by auto
    with ok m(3) show ?thesis
      using new by (cases "mn_ID m \<in> set frontier") (auto simp: walk_ok_def child_row_def)
  qed
  then show ?thesis using ok d new by (auto simp: walk_ok_def)
qed

lemma walk_reach:
  assumes "c \<in> set (next_rows d frontier seen)" and ok: "walk_ok d found frontier seen" and ids: "distinct (map mn_ID (db_menus d))"
  shows "\<exists>m \<in> set found. child_row d m c"
proof -
  from assms(1) have c: "c \<in> set (db_menus d)" "mn_ParentID c \<in> set frontier" unfolding next_rows_set [OF ids ok] by auto
  then have "mn_ParentID c \<in> mn_ID ` set found" using ok by (auto simp: walk_ok_def)
  then obtain m where "m \<in> set found" "mn_ID m = mn_ParentID c" by (rule imageE) simp
  with c ok show ?thesis by (auto simp: child_row_def walk_ok_def)
qed

lemma subtree_loop_ok:
  assumes "distinct (map mn_ID (db_menus (tx_db s)))" and "walk_ok (tx_db s) found frontier seen"
    and "subtree_loop fuel found frontier seen E s = (s', Inr (Some res))"
  shows "set found \<subseteq> set res \<and> set res \<subseteq> set (db_menus (tx_db s)) \<and> distinct (map mn_ID res)
    \<and> (\<forall>m \<in> set res. \<forall>c. child_row (tx_db s) m c \<longrightarrow> c \<in> set res)
    \<and> (\<forall>c \<in> set res. \<exists>m \<in> set found. (child_row (tx_db s))\<^sup>*\<^sup>* m c) \<and> tx_db s' = tx_db s"
  using assms
proof (induction fuel arbitrary: found frontier seen s)
  case 0
  then show ?case by (auto simp: subtree_loop.simps [of 0] sql_ok walk_ok_def split: if_splits)
next
  case (Suc n)
  show ?case
  proof (cases "frontier = []")
    case True
    with Suc.prems show ?thesis by (auto simp: subtree_loop.simps [of "Suc n"] sql_ok walk_ok_def)
  next
    case False
    let ?d = "tx_db s" and ?s1 = "s\<lparr>tx_tick := Suc (tx_tick s)\<rparr>"
    let ?new = "next_rows ?d frontier seen"
    have run: "subtree_loop n (found @ ?new) (map mn_ID ?new) (map mn_ID ?new @ seen) E ?s1 = (s', Inr (Some res))"
      using Suc.prems(3) False by (auto simp: subtree_loop.simps [of "Suc n"] sql_ok Let_def next_rows_def)
    have ok: "walk_ok (tx_db ?s1) (found @ ?new) (map mn_ID ?new) (map mn_ID ?new @ seen)"
      using walk_step [OF Suc.prems(1,2)] by simp
    have ih: "set (found @ ?new) \<subseteq> set res \<and> set res \<subseteq> set (db_menus ?d) \<and> distinct (map mn_ID res)
      \<and> (\<forall>m \<in> set res. \<forall>c. child_row ?d m c \<longrightarrow> c \<in> set res)
      \<and> (\<forall>c \<in> set res. \<exists>m \<in> set (found @ ?new). (child_row ?d)\<^sup>*\<^sup>* m c) \<and> tx_db s' = ?d"
      using Suc.IH [OF _ ok run] Suc.prems(1) by simp
    have "\<exists>m \<in> set found. (child_row ?d)\<^sup>*\<^sup>* m c" if "c \<in> set res" for c
    proof -
      from ih that obtain m where m: "m \<in> set (found @ ?new)" "(child_row ?d)\<^sup>*\<^sup>* m c" by blast
      show ?thesis
      proof (cases "m \<in> set found")
        case True
        with m show ?thesis by blast
      next
        case False
        with m(1) obtain m0 where "m0 \<in> set found" "child_row ?d m0 m" using walk_reach [OF _ Suc.prems(2,1)] by auto
        with m(2) show ?thesis by (meson converse_rtranclp_into_rtranclp)
      qed
    qed
    with ih show ?thesis by auto
  qed
qed

text \<open>The number of rows not found yet bounds the rounds that are left.\<close>

lemma subtree_loop_returns:
  assumes "distinct (map mn_ID (db_menus (tx_db s)))" and "walk_ok (tx_db s) found frontier seen"
    and "card (set (db_menus (tx_db s)) - set found) < fuel" and "\<forall>n. sql_error E n = None"
  shows "\<exists>s' res. subtree_loop fuel found frontier seen E s = (s', Inr (Some res))"
  using assms
proof (induction fuel arbitrary: found frontier seen s)
  case (Suc n)
  show ?case
  proof (cases "frontier = []")
    case True
    then show ?thesis by (simp add: subtree_loop.simps [of "Suc n"] sql_return_def)
  next
    case False
    let ?s1 = "s\<lparr>tx_tick := Suc (tx_tick s)\<rparr>"
    let ?new = "next_rows (tx_db s) frontier seen"
    have run: "subtree_loop (Suc n) found frontier seen E s
        = subtree_loop n (found @ ?new) (map mn_ID ?new) (map mn_ID ?new @ seen) E ?s1"
      using False Suc.prems(4) by (simp add: subtree_loop.simps [of "Suc n"] sql_bind_def sql_query_def Let_def next_rows_def)
    show ?thesis
    proof (cases "?new = []")
      case True
      then show ?thesis unfolding run by (simp add: subtree_loop.simps [of n] sql_return_def)
    next
      case False
      then obtain c where "c \<in> set ?new" by (cases ?new) auto
      then have "set (db_menus (tx_db s)) - set (found @ ?new) \<subset> set (db_menus (tx_db s)) - set found"
        unfolding set_append next_rows_set [OF Suc.prems(1,2)] by auto
      then have "card (set (db_menus (tx_db s)) - set (found @ ?new)) < card (set (db_menus (tx_db s)) - set found)"
        by (intro psubset_card_mono) auto
      then have "\<exists>s' res. subtree_loop n (found @ ?new) (map mn_ID ?new) (map mn_ID ?new @ seen) E ?s1 = (s', Inr (Some res))"
        by (intro Suc.IH) (use Suc.prems walk_step [OF Suc.prems(1,2)] in simp_all)
      then show ?thesis unfolding run .
    qed
  qed
qed simp

lemma loadMenuSubtree_ok:
  assumes "loadMenuSubtree rootID E s = (s', Inr menus)" and "distinct (map mn_ID (db_menus (tx_db s)))"
  obtains root where "root \<in> set (db_menus (tx_db s))" "mn_ID root = rootID" "distinct menus"
    "set menus = {m. (child_row (tx_db s))\<^sup>*\<^sup>* root m}" "tx_db s' = tx_db s"
proof -
  from assms(1) obtain root s1 where root: "find (\<lambda>m. mn_ID m = rootID) (db_menus (tx_db s)) = Some root"
    and s1: "s1 = s\<lparr>tx_tick := Suc (tx_tick s)\<rparr>"
    and run: "subtree_loop (Suc (length (db_menus (tx_db s)))) [root] [mn_ID root] [mn_ID root] E s1 = (s', Inr (Some menus))"
    by (auto simp: loadMenuSubtree_def sql_ok split: option.splits)
  have r: "root \<in> set (db_menus (tx_db s))" "mn_ID root = rootID" using root by (auto simp: find_Some_iff)
  have ok: "walk_ok (tx_db s1) [root] [mn_ID root] [mn_ID root]" using r by (simp add: walk_ok_def s1)
  have d: "distinct (map mn_ID (db_menus (tx_db s1)))" using assms(2) by (simp add: s1)
  have *: "root \<in> set menus" "set menus \<subseteq> set (db_menus (tx_db s))" "distinct (map mn_ID menus)"
    "\<And>m c. m \<in> set menus \<Longrightarrow> child_row (tx_db s) m c \<Longrightarrow> c \<in> set menus"
    "\<And>c. c \<in> set menus \<Longrightarrow> (child_row (tx_db s))\<^sup>*\<^sup>* root c" "tx_db s' = tx_db s"
    using subtree_loop_ok [OF d ok run] by (simp_all add: s1)
  have "m \<in> set menus" if "(child_row (tx_db s))\<^sup>*\<^sup>* root m" for m
    using that by (induction rule: rtranclp_induct) (use * in auto)
  with *(5) have "set menus = {m. (child_row (tx_db s))\<^sup>*\<^sup>* root m}" by blast
  moreover have "distinct menus" using *(3) by (simp add: distinct_map)
  ultimately show thesis using that r *(6) by blast
qed

text \<open>
  C27. The subtree walk is exact and always ends: on any table with unique identifiers, chains of parents that
  form a cycle included, and without driver errors, loading the subtree of a menu returns that menu and all its
  direct and indirect children, each exactly once, and reports a missing menu as such.
\<close>

theorem subtree_is_exactly_the_descendants:
  assumes "distinct (map mn_ID (db_menus (tx_db s)))" and "\<forall>n. sql_error E n = None"
  shows "case snd (loadMenuSubtree rootID E s) of
      Inl e \<Rightarrow> e = GormRecordNotFound \<and> rootID \<notin> mn_ID ` set (db_menus (tx_db s))
    | Inr menus \<Rightarrow> distinct menus \<and> (\<exists>root \<in> set (db_menus (tx_db s)). mn_ID root = rootID
        \<and> set menus = {m. (child_row (tx_db s))\<^sup>*\<^sup>* root m})"
proof (cases "find (\<lambda>m. mn_ID m = rootID) (db_menus (tx_db s))")
  case None
  then have "rootID \<notin> mn_ID ` set (db_menus (tx_db s))" by (auto simp: find_None_iff)
  with None show ?thesis using assms(2) by (simp add: loadMenuSubtree_def sql_bind_def sql_query_def sql_raise_def)
next
  case (Some root)
  let ?s1 = "s\<lparr>tx_tick := Suc (tx_tick s)\<rparr>"
  have r: "root \<in> set (db_menus (tx_db s))" using Some by (auto simp: find_Some_iff)
  have "card (set (db_menus (tx_db s)) - set [root]) < Suc (length (db_menus (tx_db s)))"
    by (metis card_Diff_subset_Int card_length diff_le_self finite_set le_imp_less_Suc le_trans finite_Int)
  then have "\<exists>s' menus. subtree_loop (Suc (length (db_menus (tx_db s)))) [root] [mn_ID root] [mn_ID root] E ?s1 = (s', Inr (Some menus))"
    by (intro subtree_loop_returns) (use assms r in \<open>simp_all add: walk_ok_def\<close>)
  then obtain s' menus where "subtree_loop (Suc (length (db_menus (tx_db s)))) [root] [mn_ID root] [mn_ID root] E ?s1 = (s', Inr (Some menus))"
    by blast
  then have run: "loadMenuSubtree rootID E s = (s', Inr menus)"
    using Some assms(2) by (simp add: loadMenuSubtree_def sql_bind_def sql_query_def sql_return_def Let_def)
  from loadMenuSubtree_ok [OF run assms(1)] show ?thesis unfolding run by auto
qed


text \<open>A menu whose child is its own parent.\<close>

definition demo_menu :: "string \<Rightarrow> string \<Rightarrow> string \<Rightarrow> string \<Rightarrow> menu" where
  "demo_menu i parent t p =
     \<lparr>mn_ID = i, mn_ParentID = parent, mn_Name = p, mn_Path = p, mn_Method = ''GET'', mn_Type = t, mn_Status = Enabled,
      mn_HideInMenu = False\<rparr>"

definition demo_cycle :: "auth_db txn" where
  "demo_cycle = \<lparr>tx_db = \<lparr>db_menus = [demo_menu ''1'' ''2'' ''MENU'' ''/a'', demo_menu ''2'' ''1'' ''API'' ''/b''], db_apis = [], db_rules = [],
     db_roles = [], db_users = [], db_revisions = (\<lambda>_. None)\<rparr>, tx_tick = 0\<rparr>"

lemma subtree_is_exactly_the_descendants_witness:
  "case snd (loadMenuSubtree ''1'' \<lparr>sql_error = (\<lambda>_. None)\<rparr> demo_cycle) of
     Inl e \<Rightarrow> False
   | Inr menus \<Rightarrow> distinct menus \<and> set menus = {m. (child_row (tx_db demo_cycle))\<^sup>*\<^sup>* (demo_menu ''1'' ''2'' ''MENU'' ''/a'') m}"
proof -
  have d: "distinct (map mn_ID (db_menus (tx_db demo_cycle)))" by (simp add: demo_cycle_def demo_menu_def)
  have one: "mn_ID root = ''1'' \<Longrightarrow> root \<in> set (db_menus (tx_db demo_cycle)) \<Longrightarrow> root = demo_menu ''1'' ''2'' ''MENU'' ''/a''" for root
    by (auto simp: demo_cycle_def demo_menu_def)
  have "''1'' \<in> mn_ID ` set (db_menus (tx_db demo_cycle))" by (simp add: demo_cycle_def demo_menu_def)
  with subtree_is_exactly_the_descendants [OF d, of "\<lparr>sql_error = (\<lambda>_. None)\<rparr>" "''1''"] one
  show ?thesis by (auto split: sum.splits)
qed

end
