(* ===== verification/Auth_Guards.thy ===== *)
theory Auth_Guards
  imports Auth_Changes Auth_Subtree
begin

text \<open>
  The operations of \<open>Auth_Changes\<close> one by one: each keeps the tables well formed and every API grant derived,
  and each that touches the policy advances the global revision.
\<close>

section \<open>Rederiving the affected roles\<close>

lemma rederive_all:
  assumes "sql_each rederive_role roles E s = (s', Inr us)"
  shows "db_menus (tx_db s') = db_menus (tx_db s) \<and> db_apis (tx_db s') = db_apis (tx_db s)
    \<and> {q \<in> set (db_rules (tx_db s')). \<not> api_rule q} = {q \<in> set (db_rules (tx_db s)). \<not> api_rule q}
    \<and> (\<forall>r \<in> set (db_rules (tx_db s')). api_rule r \<longrightarrow>
         cr_V0 r \<in> set roles \<and> supported (tx_db s') r \<or> cr_V0 r \<notin> set roles \<and> r \<in> set (db_rules (tx_db s)))
    \<and> db_revisions (tx_db s') globalAuthorizationRevisionKey = db_revisions (tx_db s) globalAuthorizationRevisionKey"
  using assms
proof (induction roles arbitrary: s us)
  case Nil
  then show ?case by (simp add: sql_ok)
next
  case (Cons role roles)
  from Cons.prems obtain s1 u us1 where 1: "rederive_role role E s = (s1, Inr u)"
    and 2: "sql_each rederive_role roles E s1 = (s', Inr us1)" by (auto simp: sql_ok)
  note r = rederive_ok [OF 1] and ih = Cons.IH [OF 2]
  have sup: "supported (tx_db s') q = supported (tx_db s1) q" for q
    by (rule supported_cong) (use ih in simp_all)
  have "cr_V0 q \<in> set (role # roles) \<and> supported (tx_db s') q \<or> cr_V0 q \<notin> set (role # roles) \<and> q \<in> set (db_rules (tx_db s))"
    if q: "q \<in> set (db_rules (tx_db s'))" "api_rule q" for q
  proof -
    from ih q consider "cr_V0 q \<in> set roles" "supported (tx_db s') q" | "cr_V0 q \<notin> set roles" "q \<in> set (db_rules (tx_db s1))" by blast
    then show ?thesis using r(3) [of q] q sup by cases auto
  qed
  with r(1,2,5,6) ih show ?case by simp
qed

section \<open>Binding APIs to a menu\<close>

lemma reads_find_api [reads]: "reads_only (find_api ref)"
  by (auto simp: find_api_def intro!: reads split: list.split)

lemma reads_affected [reads]: "reads_only (loadAffectedAPIBindingRoles p o1)"
  by (auto simp: loadAffectedAPIBindingRoles_def Let_def intro!: reads)

lemma find_api_ok: "find_api ref E s = (s', Inr a) \<Longrightarrow> a \<in> set (db_apis (tx_db s)) \<and> tx_db s' = tx_db s"
proof -
  assume "find_api ref E s = (s', Inr a)"
  then have "take 2 (filter (\<lambda>a. api_Method a = ref_Method ref \<and> api_Path a = ref_Path ref) (db_apis (tx_db s))) = [a]"
    and s': "tx_db s' = tx_db s" by (auto simp: find_api_def sql_ok split: list.splits)
  then have "a \<in> set (take 2 (filter (\<lambda>a. api_Method a = ref_Method ref \<and> api_Path a = ref_Path ref) (db_apis (tx_db s))))" by simp
  with s' show ?thesis by (auto dest: in_set_takeD)
qed

lemma find_apis_ok: "sql_each find_api refs E s = (s', Inr apis) \<Longrightarrow> set apis \<subseteq> set (db_apis (tx_db s)) \<and> tx_db s' = tx_db s"
proof (induction refs arbitrary: s apis)
  case (Cons ref refs)
  then obtain s1 a as where "find_api ref E s = (s1, Inr a)" "sql_each find_api refs E s1 = (s', Inr as)" "apis = a # as"
    by (auto simp: sql_ok)
  with find_api_ok [of ref E s s1 a] Cons.IH [of s1 as] show ?case by auto
qed (simp add: sql_ok)

lemma affected_ok:
  assumes "loadAffectedAPIBindingRoles parent olds E s = (s', Inr roles)"
    and "r \<in> set (db_rules (tx_db s))" "api_rule r" "c \<in> set olds" "strings_TrimSpace (cr_V2 r) = strings_TrimSpace (mn_Path c)"
    and "strings_TrimSpace (cr_V0 r) \<noteq> []"
  shows "cr_V0 r \<in> set roles"
proof -
  obtain byMenu where "roles = sort (remdups (byMenu @ map cr_V0 (filter (\<lambda>r. strings_TrimSpace (cr_V2 r) \<in> set (map (\<lambda>c. strings_TrimSpace (mn_Path c)) olds)
      \<and> strings_TrimSpace (cr_V0 r) \<noteq> []) (filter (\<lambda>r. cr_PType r = ''p'' \<and> cr_V1 r = APIAccessType) (db_rules (tx_db s))))))"
    using assms(1,4) by (auto simp: loadAffectedAPIBindingRoles_def Let_def sql_ok split: if_splits)
  with assms(2-6) show ?thesis by (auto simp: api_rule_def)
qed

lemma affected_named:
  assumes "loadAffectedAPIBindingRoles parent olds E s = (s', Inr roles)" and "r \<in> set roles"
  shows "strings_TrimSpace r \<noteq> []"
  using assms by (auto simp: loadAffectedAPIBindingRoles_def Let_def sql_ok split: if_splits)

lemma replace_children_ok:
  assumes "replace_children parent children E s = (s', Inr u)"
  shows "tx_db s' = (tx_db s)\<lparr>db_menus := filter (\<lambda>m. \<not> (mn_ParentID m = mn_ID parent \<and> mn_Type m = APIAccessType)) (db_menus (tx_db s)) @ children\<rparr>"
  using assms unfolding replace_children_def sql_bind_ok sql_exec_ok sql_unless_ok by (auto split: if_splits)

lemma bind_menu_ok:
  assumes "bind_menu ids parent refs v E s = (s', Inr g)"
  obtains apis olds roles s1 s2 s3 us where "set apis \<subseteq> set (db_apis (tx_db s))"
    "olds = filter (\<lambda>m. mn_ParentID m = mn_ID parent \<and> mn_Type m = APIAccessType) (db_menus (tx_db s))"
    "loadAffectedAPIBindingRoles parent olds E s1 = (s2, Inr roles)" "tx_db s1 = tx_db s"
    "tx_db s3 = (tx_db s)\<lparr>db_menus := filter (\<lambda>m. m \<notin> set olds) (db_menus (tx_db s))
        @ map (\<lambda>(i, a). api_child parent a (ids i)) (enumerate 0 apis)\<rparr>"
    "sql_each rederive_role roles E s3 = (us, Inr (replicate (length roles) ()))"
    "advanceConfigRevision globalAuthorizationRevisionKey v E us = (s', Inr g)"
proof -
  from assms obtain s1 apis olds where a: "sql_each find_api refs E s = (s1, Inr apis)"
    and o: "olds = filter (\<lambda>m. mn_ParentID m = mn_ID parent \<and> mn_Type m = APIAccessType) (db_menus (tx_db s1))"
    and rest: "sql_bind (loadAffectedAPIBindingRoles parent olds) (\<lambda>affectedRoles.
       sql_bind (replace_children parent (map (\<lambda>(i, a). api_child parent a (ids i)) (enumerate 0 apis))) (\<lambda>_.
       sql_bind (sql_each rederive_role affectedRoles) (\<lambda>_.
       advanceConfigRevision globalAuthorizationRevisionKey v))) E (s1\<lparr>tx_tick := Suc (tx_tick s1)\<rparr>) = (s', Inr g)"
    unfolding bind_menu_def by (subst (asm) sql_bind_ok, elim exE conjE, subst (asm) sql_bind_ok, elim exE conjE)
      (auto simp: sql_query_ok)
  let ?s2 = "s1\<lparr>tx_tick := Suc (tx_tick s1)\<rparr>"
  from rest obtain s3 roles s4 u s5 us where r: "loadAffectedAPIBindingRoles parent olds E ?s2 = (s3, Inr roles)"
    and c: "replace_children parent (map (\<lambda>(i, a). api_child parent a (ids i)) (enumerate 0 apis)) E s3 = (s4, Inr u)"
    and e: "sql_each rederive_role roles E s4 = (s5, Inr us)" and v: "advanceConfigRevision globalAuthorizationRevisionKey v E s5 = (s', Inr g)"
    unfolding sql_bind_ok by blast
  note a1 = find_apis_ok [OF a] and r1 = reads_onlyD [OF reads_affected r] and c1 = replace_children_ok [OF c]
  have us: "us = replicate (length roles) ()"
  proof -
    have "length ys = length xs" if "sql_each f xs E t = (t', Inr ys)" for f :: "'a \<Rightarrow> ('b, 'c, unit) sql" and xs t t' ys E
      using that by (induction xs arbitrary: t ys) (auto simp: sql_ok)
    from this [OF e] show ?thesis by (intro replicate_eqI [symmetric, THEN sym]) auto
  qed
  have f: "filter (\<lambda>m. \<not> (mn_ParentID m = mn_ID parent \<and> mn_Type m = APIAccessType)) (db_menus (tx_db s)) = filter (\<lambda>m. m \<notin> set olds) (db_menus (tx_db s))"
    using a1 by (intro filter_cong) (auto simp: o)
  show thesis
    by (rule that [of apis olds ?s2 s3 roles s4 s5]) (use a1 o r r1 c1 e v us f in simp_all)
qed

lemma bind_body_run:
  assumes "bind_body ids menuID refs E s = (s', Inr g)"
  obtains s1 v parent apis olds roles t1 t2 t3 us where
    "lockConfigRevision globalAuthorizationRevisionKey E s = (s1, Inr v)" "set apis \<subseteq> set (db_apis (tx_db s1))"
    "olds = filter (\<lambda>m. mn_ParentID m = mn_ID parent \<and> mn_Type m = APIAccessType) (db_menus (tx_db s1))"
    "loadAffectedAPIBindingRoles parent olds E t1 = (t2, Inr roles)" "tx_db t1 = tx_db s1"
    "tx_db t3 = (tx_db s1)\<lparr>db_menus := filter (\<lambda>m. m \<notin> set olds) (db_menus (tx_db s1))
        @ map (\<lambda>(i, a). api_child parent a (ids i)) (enumerate 0 apis)\<rparr>"
    "sql_each rederive_role roles E t3 = (us, Inr (replicate (length roles) ()))"
    "advanceConfigRevision globalAuthorizationRevisionKey v E us = (s', Inr g)"
proof -
  let ?g = globalAuthorizationRevisionKey
  from assms obtain s1 v s2 parent where l: "lockConfigRevision ?g E s = (s1, Inr v)" and s2: "s2 = s1\<lparr>tx_tick := Suc (tx_tick s1)\<rparr>"
    and parent: "find (\<lambda>m. mn_ID m = menuID \<and> mn_Type m = MenuAccessType \<and> mn_Status m = Enabled) (db_menus (tx_db s1)) = Some parent"
    and bind: "bind_menu ids parent refs v E s2 = (s', Inr g)"
    unfolding bind_body_def sql_bind_ok sql_query_ok by (auto simp: sql_raise_ok split: option.splits)
  have db2: "tx_db s2 = tx_db s1" by (simp add: s2)
  show thesis by (rule bind_menu_ok [OF bind, unfolded db2], rule that, rule l, assumption+)
qed

lemma bind_body_rev:
  assumes "bind_body ids menuID refs E s = (s', Inr g)"
  shows "g = rev_of (tx_db s) globalAuthorizationRevisionKey + 1 \<and> rev_of (tx_db s') globalAuthorizationRevisionKey = g"
  by (rule bind_body_run [OF assms]) (auto simp: rev_of_def dest!: lockConfigRevision_ok advanceConfigRevision_ok)

lemma bind_body_ok:
  assumes "bind_body ids menuID refs E s = (s', Inr g)" and inj: "inj ids" and fresh: "range ids \<inter> mn_ID ` set (db_menus (tx_db s)) = {}"
    and ok: "tables_ok (tx_db s)"
  shows "tables_ok (tx_db s')" and "grants_derived (tx_db s) \<Longrightarrow> grants_derived (tx_db s')"
proof -
  let ?g = globalAuthorizationRevisionKey
  from assms(1) obtain s1 v parent apis olds roles t1 t2 t3 us where
    l: "lockConfigRevision ?g E s = (s1, Inr v)" and apis: "set apis \<subseteq> set (db_apis (tx_db s1))"
    and olds: "olds = filter (\<lambda>m. mn_ParentID m = mn_ID parent \<and> mn_Type m = APIAccessType) (db_menus (tx_db s1))"
    and roles: "loadAffectedAPIBindingRoles parent olds E t1 = (t2, Inr roles)" "tx_db t1 = tx_db s1"
    and t3: "tx_db t3 = (tx_db s1)\<lparr>db_menus := filter (\<lambda>m. m \<notin> set olds) (db_menus (tx_db s1))
        @ map (\<lambda>(i, a). api_child parent a (ids i)) (enumerate 0 apis)\<rparr>"
    and each: "sql_each rederive_role roles E t3 = (us, Inr (replicate (length roles) ()))"
    and adv: "advanceConfigRevision ?g v E us = (s', Inr g)" by (rule bind_body_run)
  note l1 = lockConfigRevision_ok [OF l] and e1 = rederive_all [OF each] and a1 = advanceConfigRevision_ok [OF adv]
  have old: "db_menus (tx_db s1) = db_menus (tx_db s)" "db_rules (tx_db s1) = db_rules (tx_db s)" "db_apis (tx_db s1) = db_apis (tx_db s)"
    using l1 by simp_all
  have new: "db_menus (tx_db s') = filter (\<lambda>m. m \<notin> set olds) (db_menus (tx_db s)) @ map (\<lambda>(i, a). api_child parent a (ids i)) (enumerate 0 apis)"
    "db_rules (tx_db s') = db_rules (tx_db us)" "db_apis (tx_db s') = db_apis (tx_db s)"
    using e1 a1 t3 old by simp_all
  let ?new = "map (\<lambda>(i, a). api_child parent a (ids i)) (enumerate 0 apis)"
  have "mn_ID (case p of (i, a) \<Rightarrow> api_child parent a (ids i)) = ids (fst p)" for p
    by (simp add: api_child_def case_prod_unfold)
  then have "map mn_ID ?new = map ids (map fst (enumerate 0 apis))" unfolding map_map comp_def by simp
  then have ids: "map mn_ID ?new = map ids [0..<length apis]" by (simp only: map_fst_enumerate) simp
  then have "distinct (map mn_ID ?new)" using inj by (simp add: distinct_map inj_on_def)
  moreover have "mn_ID ` set (filter (\<lambda>m. m \<notin> set olds) (db_menus (tx_db s))) \<inter> set (map mn_ID ?new) = {}"
    unfolding ids using fresh by auto
  moreover have "distinct (map mn_ID (filter (\<lambda>m. m \<notin> set olds) (db_menus (tx_db s))))"
    using ok by (simp add: tables_ok_def distinct_map_filter)
  ultimately have "distinct (map mn_ID (db_menus (tx_db s')))" unfolding new(1) map_append distinct_append by simp
  moreover have "CHR 0x00 \<notin> set (mn_Path m)" if "m \<in> set (db_menus (tx_db s'))" for m
  proof -
    from that consider "m \<in> set (db_menus (tx_db s))" | i a where "m = api_child parent a (ids i)" "(i, a) \<in> set (enumerate 0 apis)"
      unfolding new(1) by auto
    then show ?thesis
    proof cases
      case (2 i a)
      then have "a \<in> set apis" by (metis enumerate_eq_zip set_zip_rightD)
      with apis old(3) ok 2(1) show ?thesis by (auto simp: tables_ok_def plain_paths_def api_child_def)
    qed (use ok in \<open>simp add: tables_ok_def plain_paths_def\<close>)
  qed
  ultimately show "tables_ok (tx_db s')" using ok new(3) by (simp add: tables_ok_def plain_paths_def)
  show "grants_derived (tx_db s')" if g: "grants_derived (tx_db s)"
    unfolding grants_derived_def
  proof (intro ballI impI)
    fix r assume r: "r \<in> set (db_rules (tx_db s'))" "api_rule r"
    have sup: "supported (tx_db s') r = supported (tx_db us) r" by (rule supported_cong) (use new(2) a1 in simp_all)
    from e1 r new(2) consider "cr_V0 r \<in> set roles" "supported (tx_db us) r" | "cr_V0 r \<notin> set roles" "r \<in> set (db_rules (tx_db s1))"
      using t3 by auto
    then show "supported (tx_db s') r \<and> strings_TrimSpace (cr_V0 r) \<noteq> []"
    proof cases
      case 1
      then show ?thesis using sup affected_named [OF roles(1)] by simp
    next
      case 2
      have s: "supported (tx_db s1) r" "strings_TrimSpace (cr_V0 r) \<noteq> []"
        using g 2(2) r(2) old supported_cong [of "tx_db s1" "tx_db s" r] by (simp_all add: grants_derived_def)
      have keep: "c \<notin> set olds" if "cr_V2 r = mn_Path c" for c
        using affected_ok [OF roles(1), of r c] 2 s(2) r(2) roles(2) that by auto
      have menu: "m \<notin> set olds" if "mn_Type m = MenuAccessType" for m using that by (simp add: olds types_plain)
      have "supported (tx_db s') r"
      proof (rule supported_mono [OF s(1)])
        fix m c assume a: "m \<in> set (db_menus (tx_db s1))" "c \<in> set (db_menus (tx_db s1))" "cr_V2 r = mn_Path c" "mn_Type m = MenuAccessType"
        from keep [OF a(3)] menu [OF a(4)] a(1,2)
        have "m \<in> set (db_menus (tx_db s'))" "c \<in> set (db_menus (tx_db s'))" by (simp_all add: new(1) old(1))
        then show "(\<exists>m' \<in> set (db_menus (tx_db s')). same_authority m m') \<and> (\<exists>c' \<in> set (db_menus (tx_db s')). same_authority c c')" by auto
      next
        fix q assume q: "q \<in> set (db_rules (tx_db s1))" "cr_V1 q = MenuAccessType"
        then have "q \<in> {q \<in> set (db_rules (tx_db t3)). \<not> api_rule q}" using t3 by (simp add: api_rule_def types_plain)
        then show "q \<in> set (db_rules (tx_db s'))" using e1 new(2) by auto
      qed
      with s(2) show ?thesis by simp
    qed
  qed
qed

text \<open>
  The guards on menus, the invariant over every change of the tables, and the advance of the global revision
  with every change of the policy.
\<close>

section \<open>Guarded menus\<close>

lemma reject_ok:
  assumes "rejectReferencedMenuSubtree menuID E s = (s', Inr u)" and "distinct (map mn_ID (db_menus (tx_db s)))"
    and "root \<in> set (db_menus (tx_db s))" "mn_ID root = menuID" and "(child_row (tx_db s))\<^sup>*\<^sup>* root c"
    and "r \<in> set (db_rules (tx_db s))" "api_rule r" "mn_Type c = APIAccessType"
  shows "cr_V2 r \<noteq> mn_Path c"
proof -
  from assms(1) obtain s1 menus where l: "loadMenuSubtree menuID E s = (s1, Inr menus)"
    and ref: "menus \<noteq> [] \<Longrightarrow> \<not> list_ex (\<lambda>r. cr_V1 r @ [CHR 0x00] @ cr_V2 r \<in> set (map (\<lambda>m. mn_Type m @ [CHR 0x00] @ mn_Path m) menus))
      (filter (\<lambda>r. cr_PType r = ''p'') (db_rules (tx_db s1)))"
    by (auto simp: rejectReferencedMenuSubtree_def Let_def sql_ok split: if_splits)
  obtain root' where r': "root' \<in> set (db_menus (tx_db s))" "mn_ID root' = menuID"
    "set menus = {m. (child_row (tx_db s))\<^sup>*\<^sup>* root' m}" "tx_db s1 = tx_db s"
    by (rule loadMenuSubtree_ok [OF l assms(2)])
  have "root' = root" using unique_row [OF assms(2)] r' assms(3,4) by simp
  with r'(3) assms(5) have c: "c \<in> set menus" by simp
  then have "menus \<noteq> []" by auto
  note free = ref [OF this, unfolded list_ex_iff, simplified r'(4)]
  show ?thesis
  proof
    assume "cr_V2 r = mn_Path c"
    then have "cr_V1 r @ [CHR 0x00] @ cr_V2 r = mn_Type c @ [CHR 0x00] @ mn_Path c" using assms(7,8) by (simp add: api_rule_def)
    then have "cr_V1 r @ [CHR 0x00] @ cr_V2 r \<in> (\<lambda>m. mn_Type m @ [CHR 0x00] @ mn_Path m) ` set menus"
      by (rule image_eqI [OF _ c])
    with free assms(6,7) show False by (auto simp: api_rule_def)
  qed
qed

text \<open>Rewriting or removing the row \<open>i\<close> after the guard let it pass.\<close>

lemma guarded_row:
  assumes g: "grants_derived d" and ids: "distinct (map mn_ID (db_menus d))" and cur: "cur \<in> set (db_menus d)" "mn_ID cur = i"
    and free: "\<And>c r. (child_row d)\<^sup>*\<^sup>* cur c \<Longrightarrow> r \<in> set (db_rules d) \<Longrightarrow> api_rule r \<Longrightarrow> mn_Type c = APIAccessType \<Longrightarrow> cr_V2 r \<noteq> mn_Path c"
    and rules: "db_rules d' = db_rules d" and others: "\<And>m. m \<in> set (db_menus d) \<Longrightarrow> mn_ID m \<noteq> i \<Longrightarrow> m \<in> set (db_menus d')"
  shows "grants_derived d'"
proof (rule grants_derived_menus [OF g rules])
  fix r m c assume a: "r \<in> set (db_rules d)" "api_rule r" "m \<in> set (db_menus d)" "c \<in> set (db_menus d)" "mn_ParentID c = mn_ID m"
    "cr_V2 r = mn_Path c" "mn_Type c = APIAccessType"
  have "c \<noteq> cur" using free [OF rtranclp.rtrancl_refl a(1,2)] a by auto
  moreover have "m \<noteq> cur" using free [OF r_into_rtranclp a(1,2), of c] a by (auto simp: child_row_def)
  ultimately have "mn_ID c \<noteq> i" "mn_ID m \<noteq> i" using unique_row [OF ids] a cur by auto
  with others a show "(\<exists>m' \<in> set (db_menus d'). same_authority m m') \<and> (\<exists>c' \<in> set (db_menus d'). same_authority c c')" by blast
qed

lemma reads_subtree_loop [reads]: "reads_only (subtree_loop n found frontier seen)"
proof (induction n arbitrary: found frontier seen)
  case (Suc n)
  then show ?case by (subst subtree_loop.simps) (auto simp: Let_def intro!: reads)
qed (auto simp: subtree_loop.simps [of 0] intro!: reads)

lemma normalize_ok:
  assumes "normalizeAndRejectAmbiguousAuthorizationPath m E s = (s', Inr n)"
  shows "tx_db s' = tx_db s \<and> mn_ID n = mn_ID m"
  using assms by (auto simp: normalizeAndRejectAmbiguousAuthorizationPath_def Let_def sql_ok split: if_splits)

lemma update_cases:
  assumes "ValidateMenuMetadataUpdate True (Some m) E s = (s', Inr n)"
  obtains cur where "cur \<in> set (db_menus (tx_db s))" "mn_ID cur = mn_ID n" "same_authority cur n"
  | cur t t' u where "cur \<in> set (db_menus (tx_db s))" "mn_ID cur = mn_ID n" "tx_db t = tx_db s"
      "rejectReferencedMenuSubtree (mn_ID n) E t = (t', Inr u)"
proof -
  let ?same = "\<lambda>cur n. mn_Path cur = mn_Path n \<and> mn_Method cur = mn_Method n \<and> mn_Type cur = mn_Type n
                  \<and> mn_Status cur = mn_Status n \<and> mn_ParentID cur = mn_ParentID n"
  let ?rest = "\<lambda>n. sql_bind (sql_query (\<lambda>d. find (\<lambda>c. mn_ID c = mn_ID n) (db_menus d))) (\<lambda>row.
       case row of None \<Rightarrow> sql_raise GormRecordNotFound
       | Some current \<Rightarrow> if ?same current n then sql_return n
           else sql_bind (rejectReferencedMenuSubtree (mn_ID current)) (\<lambda>_. sql_return n))"
  have "sql_bind (normalizeAndRejectAmbiguousAuthorizationPath m) ?rest E s = (s', Inr n)"
    using assms unfolding ValidateMenuMetadataUpdate_def by (simp split: if_split_asm add: sql_raise_ok)
  then obtain s1 n1 where n1: "normalizeAndRejectAmbiguousAuthorizationPath m E s = (s1, Inr n1)" "?rest n1 E s1 = (s', Inr n)"
    unfolding sql_bind_ok [of "normalizeAndRejectAmbiguousAuthorizationPath m"] by blast
  have db1: "tx_db s1 = tx_db s" using normalize_ok [OF n1(1)] by simp
  let ?s2 = "s1\<lparr>tx_tick := Suc (tx_tick s1)\<rparr>"
  from n1(2) obtain cur where cur: "find (\<lambda>c. mn_ID c = mn_ID n1) (db_menus (tx_db s1)) = Some cur"
    and r: "(if ?same cur n1 then sql_return n1 else sql_bind (rejectReferencedMenuSubtree (mn_ID cur)) (\<lambda>_. sql_return n1)) E ?s2 = (s', Inr n)"
    by (auto simp: sql_bind_ok [of "sql_query _"] sql_query_ok sql_raise_ok split: option.splits)
  have c: "cur \<in> set (db_menus (tx_db s))" "mn_ID cur = mn_ID n1" using cur db1 by (auto simp: find_Some_iff)
  show thesis
  proof (cases "?same cur n1")
    case True
    with r have "n = n1" by (simp add: sql_ok)
    with c True that(1) [of cur] show thesis by (simp add: same_authority_def)
  next
    case False
    then have "sql_bind (rejectReferencedMenuSubtree (mn_ID cur)) (\<lambda>_. sql_return n1) E ?s2 = (s', Inr n)" using r by (simp only: if_False)
    then obtain t' u where "rejectReferencedMenuSubtree (mn_ID cur) E ?s2 = (t', Inr u)" "n = n1" unfolding sql_ok by blast
    with c db1 that(2) [of cur ?s2 t' u] show thesis by simp
  qed
qed

lemma update_guard:
  assumes "ValidateMenuMetadataUpdate True (Some m) E s = (s', Inr n)" and ids: "distinct (map mn_ID (db_menus (tx_db s)))"
    and g: "grants_derived (tx_db s)"
  shows "grants_derived (save_menu n (tx_db s))"
  using assms(1)
proof (cases rule: update_cases)
  case (1 cur)
  have row: "x \<in> set (db_menus (tx_db s)) \<Longrightarrow> \<exists>y \<in> set (db_menus (save_menu n (tx_db s))). same_authority x y" for x
    using unique_row [OF ids, of x cur] 1 by (cases "mn_ID x = mn_ID n") (auto simp: save_menu_def)
  show ?thesis by (rule grants_derived_menus [OF g]) (use row in \<open>simp_all add: save_menu_def\<close>)
next
  case (2 cur t t' u)
  show ?thesis
  proof (rule guarded_row [OF g ids 2(1,2)])
    fix c r assume a: "(child_row (tx_db s))\<^sup>*\<^sup>* cur c" "r \<in> set (db_rules (tx_db s))" "api_rule r" "mn_Type c = APIAccessType"
    show "cr_V2 r \<noteq> mn_Path c"
      using reject_ok [OF 2(4), of cur c r] a ids 2(1,2,3) by simp
  qed (auto simp: save_menu_def)
qed

lemma delete_guard:
  assumes "ValidateMenuMetadataDelete raw E s = (s', Inr u)" and ids: "distinct (map mn_ID (db_menus (tx_db s)))"
    and g: "grants_derived (tx_db s)"
  shows "grants_derived ((tx_db s)\<lparr>db_menus := filter (\<lambda>m. mn_ID m \<noteq> strings_TrimSpace raw) (db_menus (tx_db s))\<rparr>)"
proof -
  have rej: "rejectReferencedMenuSubtree (strings_TrimSpace raw) E s = (s', Inr u)"
    using assms(1) by (auto simp: ValidateMenuMetadataDelete_def Let_def sql_raise_ok split: if_splits)
  then obtain s1 menus where l: "loadMenuSubtree (strings_TrimSpace raw) E s = (s1, Inr menus)"
    unfolding rejectReferencedMenuSubtree_def sql_bind_ok by blast
  then obtain root where r: "root \<in> set (db_menus (tx_db s))" "mn_ID root = strings_TrimSpace raw"
    using loadMenuSubtree_ok [OF l ids] by blast
  show ?thesis by (rule guarded_row [OF g ids r]) (use reject_ok [OF rej ids r] in auto)
qed

end
