(* ===== verification/Auth_Guarantees.thy ===== *)
theory Auth_Guarantees
  imports Auth_Guards
begin

text \<open>
  What the authorization service guarantees: grants that follow from bindings, policies written exactly and
  completely or not at all, and an enforcer that is current whenever a request is let through.
\<close>

section \<open>Every change\<close>

lemma replace_transaction:
  assumes "sql_transaction (replace_body roleID paths exp R) E s = (s', Inr x)"
  obtains s1 where "replace_body roleID paths exp R E (s\<lparr>tx_tick := Suc (tx_tick s)\<rparr>) = (s1, Inr (fst x, snd x))" "tx_db s' = tx_db s1"
  using sql_transaction_ok [OF assms] by auto

lemma read_body_run:
  assumes "read_body roleID E s = (s', Inr res)"
  shows "tx_db s' = insert_revision (roleAuthorizationRevisionKey roleID) (tx_db s)
    \<and> ar_RoleID res = roleID \<and> ar_Revision res = strconv_FormatInt (rev_of (tx_db s) (roleAuthorizationRevisionKey roleID))
    \<and> sorted (ar_Paths res) \<and> distinct (ar_Paths res) \<and> set (ar_Paths res) = role_paths roleID (tx_db s)"
proof -
  let ?k = "roleAuthorizationRevisionKey roleID"
  from assms obtain s1 role s2 before s3 r1 s4 after where
    a: "loadAuthorizationRole roleID E s = (s1, Inr role)"
    and b: "readConfigRevision ?k E (s1\<lparr>tx_tick := Suc (tx_tick s1), tx_db := insert_revision ?k (tx_db s1)\<rparr>) = (s2, Inr before)"
    and c: "loadRoleAuthorizationResource roleID before E s2 = (s3, Inr r1)"
    and d: "readConfigRevision ?k E s3 = (s4, Inr after)" and e: "before = after" "s' = s4" "res = r1\<lparr>ar_Revision := strconv_FormatInt after\<rparr>"
    unfolding read_body_def sql_bind_ok sql_exec_ok sql_return_ok sql_refuse_ok by auto
  note a1 = loadRole_ok [OF a] and b1 = readConfigRevision_ok [OF b] and c1 = resource_ok [OF c] and d1 = readConfigRevision_ok [OF d]
  have "rev_of (insert_revision ?k (tx_db s)) ?k = rev_of (tx_db s) ?k" by (simp add: rev_of_def insert_revision_def split: option.split)
  then have "before = rev_of (tx_db s) ?k" using a1 b1 by (simp add: rev_of_def)
  moreover have "role_paths roleID (insert_revision ?k (tx_db s)) = role_paths roleID (tx_db s)" by (simp add: role_paths_def)
  ultimately show ?thesis using a1 b1 c1 d1 e by simp
qed

text \<open>The attempts of \<open>ReadRole\<close> that are given up have changed nothing.\<close>

lemma read_loop_ok:
  assumes "read_loop n roleID E s = (s', Inr res)"
  shows "ar_RoleID res = roleID \<and> ar_Revision res = strconv_FormatInt (rev_of (tx_db s) (roleAuthorizationRevisionKey roleID))
    \<and> sorted (ar_Paths res) \<and> distinct (ar_Paths res) \<and> set (ar_Paths res) = role_paths roleID (tx_db s)"
  using assms
proof (induction n arbitrary: s)
  case (Suc n)
  obtain t1 y where y: "sql_transaction (read_body roleID) E s = (t1, y)" by fastforce
  show ?case
  proof (cases y)
    case (Inl e)
    show ?thesis
    proof (cases "e = AuthorizationSnapshotChanged")
      case True
      then have "tx_db t1 = tx_db s" "read_loop n roleID E t1 = (s', Inr res)"
        using sql_transaction_failed [OF y [unfolded Inl]] Suc.prems y Inl by simp_all
      with Suc.IH [of t1] show ?thesis by simp
    next
      case False
      with Suc.prems y Inl show ?thesis by (cases e) auto
    qed
  next
    case (Inr z)
    with Suc.prems y have z: "z = res" by simp
    from sql_transaction_ok [OF y [unfolded Inr]] obtain t2 where
      "read_body roleID E (s\<lparr>tx_tick := Suc (tx_tick s)\<rparr>) = (t2, Inr z)" by blast
    from read_body_run [OF this] show ?thesis by (simp add: z)
  qed
qed simp

lemma DeleteRole_rows:
  assumes "DeleteRole True True raw E s = (s', Inr u)"
  shows "\<exists>f. tx_db s' = (tx_db s)\<lparr>db_roles := f (db_roles (tx_db s))\<rparr>"
proof -
  let ?body = "sql_bind (sql_query (\<lambda>d. find (\<lambda>r. rl_ID r = strings_TrimSpace raw) (db_roles d))) (\<lambda>row.
           case row of
             None \<Rightarrow> sql_raise ErrAuthorizationRoleNotFound
           | Some role \<Rightarrow>
               sql_bind (sql_refuse (rl_Root role \<or> rl_Default role) ErrAuthorizationManagedRole) (\<lambda>_.
               sql_bind (sql_query (role_policy_count (strings_TrimSpace raw))) (\<lambda>policyCount.
               sql_bind (sql_refuse (policyCount > 0) ErrAuthorizationRolePolicies) (\<lambda>_.
               sql_bind (sql_query (\<lambda>d. length (filter (\<lambda>u. u = strings_TrimSpace raw) (db_users d)))) (\<lambda>userCount.
               sql_bind (sql_refuse (userCount > 0) ErrAuthorizationRoleUsers) (\<lambda>_.
               sql_exec (\<lambda>d. d\<lparr>db_roles := filter (\<lambda>r. rl_ID r \<noteq> rl_ID role) (db_roles d)\<rparr>)))))))"
  have "sql_transaction ?body E s = (s', Inr u)"
    using assms by (simp add: DeleteRole_def Let_def sql_raise_ok split: if_splits)
  from sql_transaction_ok [OF this] obtain s1 where "?body E (s\<lparr>tx_tick := Suc (tx_tick s)\<rparr>) = (s1, Inr u)" "tx_db s' = tx_db s1"
    by blast
  then show ?thesis by (auto simp: sql_ok split: option.splits)
qed

lemma change_rev:
  assumes "auth_change d d'"
  shows "rev_of d globalAuthorizationRevisionKey \<le> rev_of d' globalAuthorizationRevisionKey
    \<and> (rev_of d' globalAuthorizationRevisionKey = rev_of d globalAuthorizationRevisionKey \<longrightarrow> db_rules d' = db_rules d)"
  using assms
proof (induction rule: auth_change.induct)
  case (ch_replace R raw paths exp E s s' x)
  from replace_transaction [OF ch_replace(3)] obtain s1 where
    b: "replace_body (strings_TrimSpace raw) (canonicalAuthorizationPaths paths) exp R E (s\<lparr>tx_tick := Suc (tx_tick s)\<rparr>) = (s1, Inr (fst x, snd x))"
    and "tx_db s' = tx_db s1" by blast
  then show ?case using replace_body_ok(9) [OF b kinds_facts(1) [OF ch_replace(1)]] by (simp add: rev_of_def)
next
  case (ch_bind ids menuID refs E s s' g)
  from sql_transaction_ok [OF ch_bind(1)] show ?case by (auto dest!: bind_body_rev)
next
  case (ch_read roleID E s s' res)
  from sql_transaction_ok [OF ch_read] obtain s1 where "read_body roleID E (s\<lparr>tx_tick := Suc (tx_tick s)\<rparr>) = (s1, Inr res)" "tx_db s' = tx_db s1"
    by blast
  then show ?case
    by (auto simp: rev_of_def insert_revision_other role_key_not_global [THEN not_sym] dest!: read_body_run)
next
  case (ch_ensure d)
  then show ?case by (auto simp: rev_of_def insert_revision_def)
next
  case (ch_role_delete raw E s s' u)
  from DeleteRole_rows [OF this] show ?case by (auto simp: rev_of_def)
qed (simp_all add: rev_of_def save_menu_def)

lemma changes_rev:
  assumes "auth_change\<^sup>*\<^sup>* d d'"
  shows "rev_of d globalAuthorizationRevisionKey \<le> rev_of d' globalAuthorizationRevisionKey
    \<and> (rev_of d' globalAuthorizationRevisionKey = rev_of d globalAuthorizationRevisionKey \<longrightarrow> db_rules d' = db_rules d)"
  using assms
proof (induction rule: rtranclp_induct)
  case (step d1 d2)
  note a = change_rev [OF step(2)] and b = step(3)
  show ?case
  proof (intro conjI impI)
    show "rev_of d globalAuthorizationRevisionKey \<le> rev_of d2 globalAuthorizationRevisionKey" using a b by linarith
    assume "rev_of d2 globalAuthorizationRevisionKey = rev_of d globalAuthorizationRevisionKey"
    with a b have "rev_of d2 globalAuthorizationRevisionKey = rev_of d1 globalAuthorizationRevisionKey"
      "rev_of d1 globalAuthorizationRevisionKey = rev_of d globalAuthorizationRevisionKey" by linarith+
    with a b show "db_rules d2 = db_rules d" by simp
  qed
qed simp

lemma grants_same: "grants_derived d \<Longrightarrow> db_rules d' = db_rules d \<Longrightarrow> db_menus d' = db_menus d \<Longrightarrow> grants_derived d'"
  by (rule grants_derived_menus) auto

lemma tables_same: "tables_ok d \<Longrightarrow> db_menus d' = db_menus d \<Longrightarrow> db_apis d' = db_apis d \<Longrightarrow> tables_ok d'"
  by (simp add: tables_ok_def plain_paths_def)

lemma change_inv:
  assumes "auth_change d d'" and "tables_ok d" and "grants_derived d"
  shows "tables_ok d' \<and> grants_derived d'"
  using assms
proof (induction rule: auth_change.induct)
  case (ch_replace R raw paths exp E s s' x)
  from replace_transaction [OF ch_replace(3)] obtain s1 where
    b: "replace_body (strings_TrimSpace raw) (canonicalAuthorizationPaths paths) exp R E (s\<lparr>tx_tick := Suc (tx_tick s)\<rparr>) = (s1, Inr (fst x, snd x))"
    and s1: "tx_db s' = tx_db s1" by blast
  note ok = replace_body_ok [OF b kinds_facts(1) [OF ch_replace(1)], simplified]
  have "grants_derived (tx_db s1)"
    by (rule replace_grants [OF ch_replace(1,4,5) ok(3,4)]) (use ok ch_replace(2) canonical_trimmed in auto)
  moreover have "tables_ok (tx_db s1)" using tables_same [OF ch_replace(4)] ok by simp
  ultimately show ?case using s1 by simp
next
  case (ch_bind ids menuID refs E s s' g)
  from sql_transaction_ok [OF ch_bind(1)] obtain s1 where
    b: "bind_body ids menuID (canonicalAuthorizationAPIReferences refs) E (s\<lparr>tx_tick := Suc (tx_tick s)\<rparr>) = (s1, Inr g)" "tx_db s' = tx_db s1"
    by blast
  with bind_body_ok [OF b(1) ch_bind(2)] ch_bind(3-5) show ?case by simp
next
  case (ch_read roleID E s s' res)
  from sql_transaction_ok [OF ch_read(1)] obtain s1 where "read_body roleID E (s\<lparr>tx_tick := Suc (tx_tick s)\<rparr>) = (s1, Inr res)" "tx_db s' = tx_db s1"
    by blast
  then have "tx_db s' = insert_revision (roleAuthorizationRevisionKey roleID) (tx_db s)" by (auto dest!: read_body_run)
  with grants_same [OF ch_read(3)] tables_same [OF ch_read(2)] show ?case by simp
next
  case (ch_role_delete raw E s s' u)
  from DeleteRole_rows [OF ch_role_delete(1)] grants_same [OF ch_role_delete(3)] tables_same [OF ch_role_delete(2)] show ?case by auto
next
  case (ch_menu_create m E s s' n)
  let ?d' = "(tx_db s)\<lparr>db_menus := db_menus (tx_db s) @ [n]\<rparr>"
  have "grants_derived ?d'" by (rule grants_derived_menus [OF ch_menu_create(5)]) auto
  moreover have "tables_ok ?d'" using ch_menu_create by (auto simp: tables_ok_def plain_paths_def)
  ultimately show ?case by blast
next
  case (ch_menu_update m E s s' n)
  have ids: "distinct (map mn_ID (db_menus (tx_db s)))" using ch_menu_update by (simp add: tables_ok_def)
  have "map mn_ID (db_menus (save_menu n (tx_db s))) = map mn_ID (db_menus (tx_db s))" by (simp add: save_menu_def)
  then have "distinct (map mn_ID (db_menus (save_menu n (tx_db s))))" by (simp only: ids)
  moreover have "plain_paths (save_menu n (tx_db s))"
    using ch_menu_update(2,3) by (auto simp: tables_ok_def plain_paths_def save_menu_def)
  ultimately have "tables_ok (save_menu n (tx_db s))" by (simp add: tables_ok_def)
  with update_guard [OF ch_menu_update(1) ids ch_menu_update(4)] show ?case by blast
next
  case (ch_menu_delete raw E s s' u)
  have ids: "distinct (map mn_ID (db_menus (tx_db s)))" using ch_menu_delete by (simp add: tables_ok_def)
  from delete_guard [OF ch_menu_delete(1) ids ch_menu_delete(3)] ch_menu_delete(2) show ?case
    by (auto simp: tables_ok_def plain_paths_def distinct_map_filter)
next
  case (ch_ensure d)
  with grants_same [of d] tables_same [of d] show ?case by simp
next
  case (ch_roles d rs us)
  with grants_same [of d] tables_same [of d] show ?case by simp
next
  case (ch_apis apis d)
  with grants_same [of d "d\<lparr>db_apis := apis\<rparr>"] show ?case by (simp add: tables_ok_def plain_paths_def)
qed


section \<open>Grants\<close>


text \<open>
  C25. A replacement writes exactly what it was asked to: after \<open>ReplaceRole\<close> or \<open>ReplaceMenu\<close> the rules of the
  selected types name exactly the trimmed non-empty paths of the request, the API rules of the role are exactly the
  pairs of path and method of the enabled APIs bound to the selected enabled menus, every other rule is
  what and where it was, the role and the global revision have advanced by one, the request named the current
  revision, and the returned resource describes the new state.
\<close>

theorem replacement_is_exact:
  assumes "sql_transaction (replace_body roleID (canonicalAuthorizationPaths paths) exp R) E s = (s', Inr (res, committed))"
    and "R \<in> {replace_role_kinds, replace_menu_kinds}" and "tables_ok (tx_db s)"
  shows "cr_V2 ` rules_of roleID (set (selectedTypes R)) (tx_db s') = strings_TrimSpace ` set paths - {[]}
     \<and> (\<lambda>r. (cr_V2 r, cr_V3 r)) ` rules_of roleID {APIAccessType} (tx_db s')
         = derived_grants (strings_TrimSpace ` set paths - {[]}) (tx_db s)
     \<and> filter (\<lambda>r. \<not> (cr_PType r = ''p'' \<and> cr_V0 r = roleID \<and> cr_V1 r \<in> set (deleteScopes R))) (db_rules (tx_db s'))
         = filter (\<lambda>r. \<not> (cr_PType r = ''p'' \<and> cr_V0 r = roleID \<and> cr_V1 r \<in> set (deleteScopes R))) (db_rules (tx_db s))
     \<and> exp = rev_of (tx_db s) (roleAuthorizationRevisionKey roleID)
     \<and> rev_of (tx_db s') (roleAuthorizationRevisionKey roleID) = exp + 1
     \<and> rev_of (tx_db s') globalAuthorizationRevisionKey = rev_of (tx_db s) globalAuthorizationRevisionKey + 1
     \<and> committed = rev_of (tx_db s') globalAuthorizationRevisionKey
     \<and> ar_Revision res = strconv_FormatInt (exp + 1) \<and> set (ar_Paths res) = role_paths roleID (tx_db s')"
proof -
  have R: "R \<in> kinds" using assms(2) by (simp add: kinds_def)
  from replace_transaction [OF assms(1)] obtain s1 where
    b: "replace_body roleID (canonicalAuthorizationPaths paths) exp R E (s\<lparr>tx_tick := Suc (tx_tick s)\<rparr>) = (s1, Inr (res, committed))"
    and s1: "tx_db s' = tx_db s1" by auto
  note ok = replace_body_ok [OF b kinds_facts(1) [OF R], simplified]
  have t: "plain_paths (tx_db s)" "distinct (map mn_ID (db_menus (tx_db s)))" using assms(3) by (simp_all add: tables_ok_def)
  note rules = replaced_rules [OF R t ok(3,4), unfolded canonical_set]
  have rev: "rev_of (tx_db s1) (roleAuthorizationRevisionKey roleID) = exp + 1"
    "rev_of (tx_db s1) globalAuthorizationRevisionKey = rev_of (tx_db s) globalAuthorizationRevisionKey + 1"
    using ok(9) by (simp_all add: rev_of_def)
  from rules rev ok(2,10,11) show ?thesis unfolding s1 by (intro conjI) simp_all
qed

text \<open>
  What was written is what is read: reading the role after a committed replacement, with nothing committed in
  between, returns the very resource the replacement returned, revision included.
\<close>

theorem read_after_replace:
  assumes "sql_transaction (replace_body (strings_TrimSpace raw) paths exp R) E s = (s', Inr (res, committed))"
    and "includeAPIs R" and "tx_db t = tx_db s'" and "ReadRole True raw E' t = (t', Inr res')"
  shows "res' = res"
proof -
  let ?r = "strings_TrimSpace raw"
  from replace_transaction [OF assms(1)] obtain s1 where
    b: "replace_body ?r paths exp R E (s\<lparr>tx_tick := Suc (tx_tick s)\<rparr>) = (s1, Inr (res, committed))"
    and s1: "tx_db s' = tx_db s1" by auto
  note ok = replace_body_ok [OF b assms(2), simplified]
  have key: "rev_of (tx_db s1) (roleAuthorizationRevisionKey ?r) = exp + 1" using ok(9) by (simp add: rev_of_def)
  have "read_loop authorizationStableReadMaxAttempts ?r E' t = (t', Inr res')"
    using assms(4) by (simp add: ReadRole_def sql_raise_ok split: if_splits)
  from read_loop_ok [OF this] key assms(3) s1 ok(11) have "ar_RoleID res' = ar_RoleID res" "ar_Revision res' = ar_Revision res"
    "ar_Paths res' = ar_Paths res" by (auto intro: sorted_distinct_set_unique)
  then show ?thesis by simp
qed

end
