(* ===== verification/Auth_Enforcer.thy ===== *)
theory Auth_Enforcer
  imports Auth_Guarantees
begin

text \<open>
  The enforcer of the process and the tables, with other sessions committing changes in between; and concrete
  tables on which the properties of the service apply.
\<close>

definition global_rev :: "auth_world \<Rightarrow> int" where
  "global_rev w = rev_of (tx_db (aw_txn w)) globalAuthorizationRevisionKey"

text \<open>
  The claim the service makes for itself: it never records a later revision than the tables hold, and while the
  recorded revision of this database is the current one, the enforcer holds the stored rules.
\<close>

definition service_ok :: "auth_env \<Rightarrow> auth_world \<Rightarrow> bool" where
  "service_ok A w \<longleftrightarrow>
     (aw_initialized w \<and> ie_identity A = Some (aw_lastDB w) \<longrightarrow>
        aw_lastGlobal w \<le> global_rev w
        \<and> (aw_lastGlobal w = global_rev w \<longrightarrow> aw_enforcer w = db_rules (tx_db (aw_txn w))))"

definition others_change :: "auth_env \<Rightarrow> bool" where
  "others_change A \<longleftrightarrow> (\<forall>n d. auth_change\<^sup>*\<^sup>* d (ie_others A n d))"

text \<open>Tables that have moved on by changes keep the claim, as long as the service's own fields are the same.\<close>

definition later :: "auth_world \<Rightarrow> auth_world \<Rightarrow> bool" where
  "later w w' \<longleftrightarrow> auth_change\<^sup>*\<^sup>* (tx_db (aw_txn w)) (tx_db (aw_txn w')) \<and> aw_enforcer w' = aw_enforcer w
     \<and> aw_initialized w' = aw_initialized w \<and> aw_lastDB w' = aw_lastDB w \<and> aw_lastGlobal w' = aw_lastGlobal w"

lemma later_trans: "later a b \<Longrightarrow> later b c \<Longrightarrow> later a c"
  by (auto simp: later_def)

lemma later_rev:
  assumes "later w w'"
  shows "global_rev w \<le> global_rev w'" "global_rev w' = global_rev w \<Longrightarrow> db_rules (tx_db (aw_txn w')) = db_rules (tx_db (aw_txn w))"
  using assms changes_rev [of "tx_db (aw_txn w)" "tx_db (aw_txn w')"] by (auto simp: later_def global_rev_def)

lemma service_ok_later:
  assumes "service_ok A w" and "later w w'"
  shows "service_ok A w'"
proof -
  note r = later_rev [OF assms(2)]
  have f: "aw_enforcer w' = aw_enforcer w" "aw_initialized w' = aw_initialized w" "aw_lastDB w' = aw_lastDB w" "aw_lastGlobal w' = aw_lastGlobal w"
    using assms(2) by (simp_all add: later_def)
  show ?thesis unfolding service_ok_def f
  proof (intro impI conjI)
    assume i: "aw_initialized w \<and> ie_identity A = Some (aw_lastDB w)"
    with assms(1) have a: "aw_lastGlobal w \<le> global_rev w" "aw_lastGlobal w = global_rev w \<Longrightarrow> aw_enforcer w = db_rules (tx_db (aw_txn w))"
      by (simp_all add: service_ok_def)
    show "aw_lastGlobal w \<le> global_rev w'" using a(1) r(1) by linarith
    assume e: "aw_lastGlobal w = global_rev w'"
    with a(1) r(1) have "aw_lastGlobal w = global_rev w" "global_rev w' = global_rev w" by linarith+
    with a(2) r(2) show "aw_enforcer w = db_rules (tx_db (aw_txn w'))" by simp
  qed
qed

lemma between_later: "others_change A \<Longrightarrow> later w (between A w)"
  by (simp add: later_def between_def others_change_def)

lemma run_read_later:
  assumes "others_change A" and "reads_only m" and "run_sql A m w = (w', r)"
  shows "later w w'"
proof -
  obtain t where t: "m (ie_sql A) (aw_txn (between A w)) = (t, r)" "w' = (between A w)\<lparr>aw_txn := t\<rparr>"
    using assms(3) by (auto simp: run_sql_def Let_def split: prod.splits)
  have "tx_db t = tx_db (aw_txn (between A w))" by (rule reads_onlyD [OF assms(2) t(1)])
  with between_later [OF assms(1), of w] t(2) show ?thesis by (simp add: later_def)
qed

lemma read_revision:
  assumes "others_change A" and "run_sql A (readConfigRevision globalAuthorizationRevisionKey) w = (w', r)"
  shows "later w w'" "r = Inr v \<Longrightarrow> v = global_rev w'"
proof -
  show "later w w'" by (rule run_read_later [OF assms(1) reads_readConfigRevision assms(2)])
  show "v = global_rev w'" if "r = Inr v"
    using assms(2) that by (auto simp: run_sql_def Let_def global_rev_def rev_of_def dest!: readConfigRevision_ok split: prod.splits)
qed

lemma ensure_revision:
  assumes "others_change A" and "EnsureAuthorizationGlobalRevision A w = (w', r)"
  shows "later w w'" "r = Inr v \<Longrightarrow> v = global_rev w'"
proof -
  obtain w1 x where x: "run_sql A (sql_exec (insert_revision globalAuthorizationRevisionKey)) w = (w1, x)" by fastforce
  have "tx_db (aw_txn w1) = tx_db (aw_txn (between A w)) \<or> tx_db (aw_txn w1) = insert_revision globalAuthorizationRevisionKey (tx_db (aw_txn (between A w)))"
    "later (between A w) (w1\<lparr>aw_txn := aw_txn (between A w)\<rparr>)"
    using x by (auto simp: run_sql_def Let_def sql_exec_def later_def split: prod.splits option.splits)
  then have "later (between A w) w1"
    using ch_ensure [of "tx_db (aw_txn (between A w))"] by (auto simp: later_def)
  then have l1: "later w w1" using between_later [OF assms(1), of w] later_trans by blast
  show "later w w'"
  proof (cases x)
    case (Inl e)
    with assms(2) x l1 show ?thesis by (simp add: EnsureAuthorizationGlobalRevision_def)
  next
    case (Inr u)
    with assms(2) x have "run_sql A (readConfigRevision globalAuthorizationRevisionKey) w1 = (w', r)"
      by (simp add: EnsureAuthorizationGlobalRevision_def)
    from read_revision(1) [OF assms(1) this] l1 later_trans show ?thesis by blast
  qed
  show "v = global_rev w'" if "r = Inr v"
    using assms(2) x that read_revision(2) [OF assms(1)]
    by (auto simp: EnsureAuthorizationGlobalRevision_def split: sum.splits)
qed

text \<open>The state once the loop has ended: current when it returns nil, and the claim kept in any case.\<close>

definition current :: "auth_env \<Rightarrow> auth_world \<Rightarrow> bool" where
  "current A w \<longleftrightarrow> aw_initialized w \<and> ie_identity A = Some (aw_lastDB w) \<and> aw_lastGlobal w = global_rev w
     \<and> aw_enforcer w = db_rules (tx_db (aw_txn w))"

lemma reload_later:
  assumes "others_change A" and "reload_policy A fails w = (w', e)"
  shows "later w (w'\<lparr>aw_enforcer := aw_enforcer w\<rparr>)"
    "e = None \<Longrightarrow> aw_enforcer w' = db_rules (tx_db (aw_txn w'))" "e \<noteq> None \<Longrightarrow> aw_enforcer w' = aw_enforcer w"
  using assms(2) between_later [OF assms(1), of w]
  by (auto simp: reload_policy_def Let_def later_def between_def split: option.splits)

lemma reload_ok:
  assumes "others_change A" and "service_ok A w" and "reload_policy A fails w = (w', e)"
  shows "service_ok A w'"
proof (cases e)
  case None
  have l: "later w (w'\<lparr>aw_enforcer := aw_enforcer w\<rparr>)" and enf: "aw_enforcer w' = db_rules (tx_db (aw_txn w'))"
    using reload_later [OF assms(1,3)] None by simp_all
  from service_ok_later [OF assms(2) l] enf show ?thesis by (simp add: service_ok_def global_rev_def)
next
  case (Some x)
  have "w'\<lparr>aw_enforcer := aw_enforcer w\<rparr> = w'" using reload_later(3) [OF assms(1,3)] Some by simp
  with service_ok_later [OF assms(2) reload_later(1) [OF assms(1,3)]] show ?thesis by simp
qed

lemma reconcile_loop_ok:
  assumes "others_change A" and "ie_identity A = Some sqlDB" and "service_ok A w" and "reconcile_loop n A sqlDB w = (w', e)"
  shows "service_ok A w' \<and> (e = None \<longrightarrow> current A w')"
  using assms(3,4)
proof (induction n arbitrary: w)
  case (Suc n)
  obtain w1 b where b: "run_sql A (readConfigRevision globalAuthorizationRevisionKey) w = (w1, b)" by fastforce
  note l1 = read_revision [OF assms(1) b]
  have ok1: "service_ok A w1" by (rule service_ok_later [OF Suc.prems(1) l1(1)])
  show ?case
  proof (cases "\<exists>before fails. b = Inr before \<and> ie_reload A = Some fails")
    case False
    with Suc.prems(2) b ok1 show ?thesis by (auto split: sum.splits option.splits)
  next
    case True
    then obtain before fails where bf: "b = Inr before" "ie_reload A = Some fails" by blast
    obtain w2 e2 where r: "reload_policy A fails w1 = (w2, e2)" by fastforce
    have ok2: "service_ok A w2" by (rule reload_ok [OF assms(1) ok1 r])
    show ?thesis
    proof (cases e2)
      case (Some x)
      with Suc.prems(2) b bf r ok2 show ?thesis by auto
    next
      case None
      obtain w3 a where a: "run_sql A (readConfigRevision globalAuthorizationRevisionKey) w2 = (w3, a)" by fastforce
      note l3 = read_revision [OF assms(1) a]
      have ok3: "service_ok A w3" by (rule service_ok_later [OF ok2 l3(1)])
      show ?thesis
      proof (cases a)
        case (Inl x)
        with Suc.prems(2) b bf r None a ok3 show ?thesis by auto
      next
        case (Inr after)
        show ?thesis
        proof (cases "before = after")
          case False
          with Suc.prems(2) b bf r None a Inr have "reconcile_loop n A sqlDB w3 = (w', e)" by simp
          from Suc.IH [OF ok3 this] show ?thesis .
        next
          case True
          with Suc.prems(2) b bf r None a Inr have w': "w' = w3\<lparr>aw_initialized := True, aw_lastDB := sqlDB, aw_lastGlobal := after\<rparr>" "e = None"
            by simp_all
          have "global_rev w1 = global_rev w3" using l1(2) l3(2) bf Inr True by simp
          moreover have "global_rev w1 \<le> global_rev w2"
            using later_rev(1) [OF reload_later(1) [OF assms(1) r]] by (simp add: global_rev_def)
          ultimately have "global_rev w3 = global_rev w2" using later_rev(1) [OF l3(1)] by linarith
          then have rules: "db_rules (tx_db (aw_txn w3)) = db_rules (tx_db (aw_txn w2))" by (rule later_rev(2) [OF l3(1)])
          have "aw_enforcer w3 = db_rules (tx_db (aw_txn w3))"
            using rules reload_later(2) [OF assms(1) r None] l3(1) by (simp add: later_def)
          then have "current A w'" using w' assms(2) l3(2) [OF Inr] by (simp add: current_def global_rev_def)
          then show ?thesis by (simp add: service_ok_def current_def)
        qed
      qed
    qed
  qed
qed auto

text \<open>
  C26. A request is let through on current policy only: whatever the other sessions commit between any two
  statements, and whatever fails, when \<open>EnsureCurrent\<close> returns nil the enforcer holds exactly the rules the
  database held at the last read, the recorded revision is the current one, and in every case the service keeps
  its claim that an enforcer recorded as current is current, so the next request can rely on it.
\<close>

theorem enforcer_is_current:
  assumes "others_change A" and "service_ok A w" and "EnsureCurrent present hasDB A w = (w', e)"
  shows "service_ok A w' \<and> (e = None \<longrightarrow> aw_enforcer w' = db_rules (tx_db (aw_txn w'))
     \<and> aw_initialized w' \<and> aw_lastGlobal w' = rev_of (tx_db (aw_txn w')) globalAuthorizationRevisionKey)"
proof (cases "present \<and> hasDB \<and> (\<exists>i. ie_identity A = Some i)")
  case False
  with assms(2,3) show ?thesis by (auto simp: EnsureCurrent_def split: if_splits option.splits)
next
  case True
  then obtain i where i: "ie_identity A = Some i" by blast
  obtain w1 r where r: "EnsureAuthorizationGlobalRevision A w = (w1, r)" by fastforce
  note l = ensure_revision [OF assms(1) r]
  have ok1: "service_ok A w1" by (rule service_ok_later [OF assms(2) l(1)])
  show ?thesis
  proof (cases r)
    case (Inl x)
    with assms(3) True i r ok1 show ?thesis by (auto simp: EnsureCurrent_def)
  next
    case (Inr v)
    show ?thesis
    proof (cases "aw_initialized w1 \<and> aw_lastDB w1 = i \<and> aw_lastGlobal w1 = v")
      case True
      with \<open>present \<and> hasDB \<and> _\<close> assms(3) i r Inr have "w' = w1" "e = None" by (simp_all add: EnsureCurrent_def)
      with ok1 True l(2) [OF Inr] i show ?thesis by (simp add: service_ok_def global_rev_def)
    next
      case False
      with True assms(3) i r Inr have "reconcile_loop authorizationStableReadMaxAttempts A i w1 = (w', e)"
        by (simp add: EnsureCurrent_def split: if_splits)
      from reconcile_loop_ok [OF assms(1) i ok1 this] show ?thesis by (simp add: current_def global_rev_def)
    qed
  qed
qed

text \<open>
  A replacement that reports no resource has written nothing: for every failure, a stale revision among
  them, the tables are as the other sessions left them; a revision other than the stored one never writes; and a
  resource next to an error means that the replacement is committed and only its propagation failed.
\<close>

theorem replacement_is_all_or_nothing:
  assumes "replaceRolePolicy present hasDB A raw paths exp R w = (w', resource, e)" and "includeAPIs R"
  shows "(resource = None \<longrightarrow> e \<noteq> None \<and> tx_db (aw_txn w') \<in> {tx_db (aw_txn w), tx_db (aw_txn (between A w))})
     \<and> (exp \<noteq> rev_of (tx_db (aw_txn (between A w))) (roleAuthorizationRevisionKey (strings_TrimSpace raw)) \<longrightarrow> resource = None)
     \<and> (\<forall>res. resource = Some res \<longrightarrow> (e = None \<or> (\<exists>e'. e = Some (AuthorizationPropagationError (Some res) e')))
          \<and> ar_Revision res = strconv_FormatInt (exp + 1))"
proof -
  let ?body = "replace_body (strings_TrimSpace raw) (canonicalAuthorizationPaths paths) exp R"
  show ?thesis
  proof (cases "present \<and> hasDB \<and> strings_TrimSpace raw \<noteq> []")
    case False
    with assms(1) show ?thesis by (auto simp: replaceRolePolicy_def split: if_splits)
  next
    case True
    obtain t r where t: "sql_transaction ?body (ie_sql A) (aw_txn (between A w)) = (t, r)" by fastforce
    show ?thesis
    proof (cases r)
      case (Inl x)
      with True assms(1) t have "w' = (between A w)\<lparr>aw_txn := t\<rparr>" "resource = None" "e = Some x"
        by (simp_all add: replaceRolePolicy_def run_sql_def Let_def)
      with sql_transaction_failed [OF t [unfolded Inl]] show ?thesis by simp
    next
      case (Inr y)
      obtain res c where y: "y = (res, c)" by fastforce
      from replace_transaction [OF t [unfolded Inr]] obtain s1 where
        b: "replace_body (strings_TrimSpace raw) (canonicalAuthorizationPaths paths) exp R (ie_sql A)
            ((aw_txn (between A w))\<lparr>tx_tick := Suc (tx_tick (aw_txn (between A w)))\<rparr>) = (s1, Inr (res, c))" using y by auto
      from replace_body_ok(2,11) [OF b assms(2)] have "exp = rev_of (tx_db (aw_txn (between A w))) (roleAuthorizationRevisionKey (strings_TrimSpace raw))"
        "ar_Revision res = strconv_FormatInt (exp + 1)" by simp_all
      with True assms(1) t Inr y show ?thesis
        by (auto simp: replaceRolePolicy_def run_sql_def Let_def split: prod.splits option.splits)
    qed
  qed
qed


section \<open>Concrete tables\<close>

text \<open>A menu with one API, and a role that holds nothing yet.\<close>

definition demo_tables :: auth_db where
  "demo_tables =
     \<lparr>db_menus = [demo_menu ''1'' [] ''MENU'' ''/a'', demo_menu ''2'' ''1'' ''API'' ''/api/a''],
      db_apis = [\<lparr>api_ID = ''7'', api_Name = ''b'', api_Path = ''/api/b'', api_Method = ''GET''\<rparr>],
      db_rules = [], db_roles = [\<lparr>rl_ID = ''r'', rl_Status = Enabled, rl_Root = False, rl_Default = False\<rparr>],
      db_users = [], db_revisions = (\<lambda>_. None)\<rparr>"

definition no_faults :: "autherr sql_env" where
  "no_faults = \<lparr>sql_error = (\<lambda>_. None)\<rparr>"

definition demo_start :: "auth_db txn" where
  "demo_start = \<lparr>tx_db = demo_tables, tx_tick = 0\<rparr>"

lemma demo_replace_runs:
  "case sql_transaction (replace_body ''r'' (canonicalAuthorizationPaths ['' /a '', [], ''/a'']) 0 replace_role_kinds) no_faults demo_start of
     (s', Inr (res, c)) \<Rightarrow> c = 1 \<and> ar_Paths res = [''/a''] \<and> length (db_rules (tx_db s')) = 2 | _ \<Rightarrow> False"
  by code_simp


lemma demo_replaced:
  obtains s' res where
    "sql_transaction (replace_body ''r'' (canonicalAuthorizationPaths ['' /a '', [], ''/a'']) 0 replace_role_kinds) no_faults demo_start
       = (s', Inr (res, 1))" "ar_Paths res = [''/a'']"
proof -
  obtain s' x where e: "sql_transaction (replace_body ''r'' (canonicalAuthorizationPaths ['' /a '', [], ''/a'']) 0 replace_role_kinds) no_faults demo_start
       = (s', x)" by (metis prod.collapse)
  show thesis
  proof (cases x)
    case (Inl y)
    with demo_replace_runs [unfolded e] show ?thesis by simp
  next
    case (Inr y)
    obtain res c where "y = (res, c)" by (metis prod.collapse)
    with demo_replace_runs [unfolded e] Inr have "c = 1" "ar_Paths res = [''/a'']" by simp_all
    with that e Inr \<open>y = _\<close> show ?thesis by blast
  qed
qed

lemma demo_tables_ok: "tables_ok demo_tables" "grants_derived demo_tables"
  by (simp_all add: tables_ok_def plain_paths_def grants_derived_def demo_tables_def demo_menu_def)

lemma replacement_is_exact_witness:
  "\<exists>s' res. sql_transaction (replace_body ''r'' (canonicalAuthorizationPaths ['' /a '', [], ''/a'']) 0 replace_role_kinds) no_faults demo_start
       = (s', Inr (res, 1))
     \<and> cr_V2 ` rules_of ''r'' (set (selectedTypes replace_role_kinds)) (tx_db s') = strings_TrimSpace ` set ['' /a '', [], ''/a''] - {[]}"
proof -
  obtain s' res where r: "sql_transaction (replace_body ''r'' (canonicalAuthorizationPaths ['' /a '', [], ''/a'']) 0 replace_role_kinds) no_faults demo_start
       = (s', Inr (res, 1))" by (rule demo_replaced)
  have "tables_ok (tx_db demo_start)" using demo_tables_ok by (simp add: demo_start_def)
  from replacement_is_exact [OF r insertI1 this] r show ?thesis by blast
qed


lemma demo_read_runs:
  "case sql_transaction (replace_body (strings_TrimSpace ''r'') (canonicalAuthorizationPaths ['' /a '', [], ''/a'']) 0 replace_role_kinds)
       no_faults demo_start of
     (s', Inr (res, c)) \<Rightarrow> c = 1 \<and> \<not> isl (snd (ReadRole True ''r'' no_faults s')) | _ \<Rightarrow> False"
  by code_simp

lemma read_after_replace_witness:
  "\<exists>s' res t' res'. sql_transaction (replace_body (strings_TrimSpace ''r'') (canonicalAuthorizationPaths ['' /a '', [], ''/a'']) 0 replace_role_kinds)
       no_faults demo_start = (s', Inr (res, 1)) \<and> ReadRole True ''r'' no_faults s' = (t', Inr res') \<and> res' = res"
proof -
  obtain s' x where e: "sql_transaction (replace_body (strings_TrimSpace ''r'') (canonicalAuthorizationPaths ['' /a '', [], ''/a'']) 0 replace_role_kinds)
       no_faults demo_start = (s', x)" by (metis prod.collapse)
  obtain t' y where q: "ReadRole True ''r'' no_faults s' = (t', y)" by (metis prod.collapse)
  have x: "case x of Inr (res, c) \<Rightarrow> c = 1 \<and> \<not> isl y | _ \<Rightarrow> False"
    using demo_read_runs [unfolded e prod.case q snd_conv] .
  obtain z where z: "x = Inr z" using x by (cases x) simp_all
  obtain res c where zc: "z = (res, c)" by (metis prod.collapse)
  obtain res' where y: "y = Inr res'" and c: "c = 1" using x z zc by (cases y) simp_all
  have i: "includeAPIs replace_role_kinds" by (simp add: replace_role_kinds_def)
  have r: "sql_transaction (replace_body (strings_TrimSpace ''r'') (canonicalAuthorizationPaths ['' /a '', [], ''/a'']) 0 replace_role_kinds)
       no_faults demo_start = (s', Inr (res, 1))" using e z zc c by simp
  from q y have q': "ReadRole True ''r'' no_faults s' = (t', Inr res')" by simp
  from read_after_replace [OF r i refl q'] r q' show ?thesis by blast
qed

text \<open>A service that has never loaded a policy, alone with the tables.\<close>

definition demo_auth_env :: auth_env where
  "demo_auth_env = \<lparr>ie_sql = no_faults, ie_others = (\<lambda>_ d. d), ie_identity = Some 1, ie_reload = Some (\<lambda>_. None),
     ie_notify = Some None, ie_bus = None, ie_newID = (\<lambda>n. nat_dec n)\<rparr>"

definition demo_service :: auth_world where
  "demo_service = \<lparr>aw_txn = demo_start, aw_enforcer = [], aw_initialized = False, aw_lastDB = 0, aw_lastGlobal = 0\<rparr>"

lemma enforcer_is_current_witness:
  "\<exists>w'. EnsureCurrent True True demo_auth_env demo_service = (w', None) \<and> aw_enforcer w' = db_rules (tx_db (aw_txn w'))"
proof -
  have "snd (EnsureCurrent True True demo_auth_env demo_service) = None" by code_simp
  then obtain w' where e: "EnsureCurrent True True demo_auth_env demo_service = (w', None)" by (metis prod.collapse)
  have o: "others_change demo_auth_env" by (simp add: others_change_def demo_auth_env_def)
  have s: "service_ok demo_auth_env demo_service" by (simp add: service_ok_def demo_service_def)
  from enforcer_is_current [OF o s e] e show ?thesis by blast
qed

lemma replacement_is_all_or_nothing_witness:
  "\<exists>w' e. replaceRolePolicy True True demo_auth_env ''r'' [''/a''] 5 replace_role_kinds demo_service = (w', None, e) \<and> e \<noteq> None"
proof -
  obtain w' res e where r: "replaceRolePolicy True True demo_auth_env ''r'' [''/a''] 5 replace_role_kinds demo_service = (w', res, e)"
    by (metis prod.collapse)
  have i: "includeAPIs replace_role_kinds" by (simp add: replace_role_kinds_def)
  have "rev_of (tx_db (aw_txn (between demo_auth_env demo_service))) k = 0" for k
    by (simp add: between_def demo_auth_env_def demo_service_def demo_start_def demo_tables_def rev_of_def)
  with replacement_is_all_or_nothing [OF r i] have "res = None" "e \<noteq> None" by auto
  with r show ?thesis by blast
qed

end
