(* ===== verification/Org_Db.thy ===== *)
theory Org_Db
  imports Auth_Db
begin

text \<open>
  Departments, posts and users of the admin module with the columns that the hierarchy guards
  (\<open>admin/service/authority_hierarchy.go\<close>) and the data scopes (\<open>admin/models/user.go\<close>) read or write, and the
  normalisation of texts and identifiers. A deleted row is a row that is gone: every query of GORM leaves out
  soft-deleted rows. \<open>Children\<close> of a department or a post is not stored and is a list of nodes where it is used.
\<close>

section \<open>Tables\<close>

record department =
  dp_ID :: string
  dp_ParentID :: string
  dp_Name :: string
  dp_LeaderID :: string
  dp_Phone :: string
  dp_Email :: string
  dp_Code :: string
  dp_Status :: string
  dp_Sort :: int

record post =
  ps_ID :: string
  ps_ParentID :: string
  ps_Name :: string
  ps_Code :: string
  ps_Status :: string
  ps_Sort :: int
  ps_DataScope :: string
  ps_DeptIDS :: string
  ps_DeptIDSArr :: "string list"

text \<open>\<open>GetUserID\<close> of a \<open>User\<close> is its identifier, of the embedded \<open>UserLogin\<close> its user name.\<close>

record org_user =
  us_ID :: string
  us_Username :: string
  us_DepartmentID :: string
  us_PostID :: string
  us_Status :: string

record org_db =
  od_departments :: "department list"
  od_posts :: "post list"
  od_users :: "org_user list"

definition Disabled :: string where "Disabled = ''disabled''"

definition DataScopeAll :: string where "DataScopeAll = ''all''"
definition DataScopeCurrentDept :: string where "DataScopeCurrentDept = ''currentDept''"
definition DataScopeCurrentAndChildrenDept :: string where "DataScopeCurrentAndChildrenDept = ''currentAndChildrenDept''"
definition DataScopeCustomDept :: string where "DataScopeCustomDept = ''customDept''"
definition DataScopeSelf :: string where "DataScopeSelf = ''self''"
definition DataScopeSelfAndChildren :: string where "DataScopeSelfAndChildren = ''selfAndChildren''"
definition DataScopeSelfAndAllChildren :: string where "DataScopeSelfAndAllChildren = ''selfAndAllChildren''"

lemmas data_scopes = DataScopeAll_def DataScopeCurrentDept_def DataScopeCurrentAndChildrenDept_def DataScopeCustomDept_def
  DataScopeSelf_def DataScopeSelfAndChildren_def DataScopeSelfAndAllChildren_def

section \<open>Errors\<close>

datatype orgerr =
  ErrAuthorityPayloadInvalid
| ErrAuthorityReferenceInvalid
| ErrAuthorityHierarchyCycle
| ErrAuthorityHierarchyCorrupt
| ErrAuthorityRecordInUse
| OrgInvalidDB
| OrgRecordNotFound
| OrgDriver nat

type_synonym 'a org_sql = "(org_db, orgerr, 'a) sql"

text \<open>A function of the code that returns a value or an error and runs no statement.\<close>

definition sql_lift :: "'e + 'a \<Rightarrow> ('d, 'e, 'a) sql" where
  "sql_lift r = (case r of Inl e \<Rightarrow> sql_raise e | Inr x \<Rightarrow> sql_return x)"

lemma sql_lift_ok [sql_ok]: "sql_lift r E s = (s', Inr y) \<longleftrightarrow> r = Inr y \<and> s' = s"
  by (cases r) (auto simp: sql_lift_def sql_return_def sql_raise_def)

lemma reads_lift [reads]: "reads_only (sql_lift r)"
  by (cases r) (simp_all add: sql_lift_def reads)

section \<open>Texts and identifiers\<close>

definition maxAuthorityIdentifierLength :: nat where "maxAuthorityIdentifierLength = 64"
definition maxAuthorityHierarchyWalk :: nat where "maxAuthorityHierarchyWalk = 2000"
definition maxAuthorityDeleteBatch :: nat where "maxAuthorityDeleteBatch = 100"
definition maxPostDepartmentEncoding :: nat where "maxPostDepartmentEncoding = 255"

definition authorityIdentifier :: "string \<Rightarrow> bool \<Rightarrow> orgerr + string" where
  "authorityIdentifier raw optional =
     (let v = strings_TrimSpace raw in
      if v = [] \<and> optional then Inr []
      else if v = [] \<or> length v > maxAuthorityIdentifierLength \<or> strings_ContainsAny v [CHR '','', CHR 0x00]
      then Inl ErrAuthorityPayloadInvalid else Inr v)"

definition boundedAuthorityText :: "string \<Rightarrow> nat \<Rightarrow> bool \<Rightarrow> orgerr + string" where
  "boundedAuthorityText raw max_runes optional =
     (let v = strings_TrimSpace raw in
      if v = [] \<and> \<not> optional then Inl ErrAuthorityPayloadInvalid
      else if utf8_RuneCountInString v > max_runes then Inl ErrAuthorityPayloadInvalid else Inr v)"

fun normalize_references :: "string list \<Rightarrow> string list \<Rightarrow> orgerr + string list" where
  "normalize_references seen [] = Inr []"
| "normalize_references seen (v # vs) =
     (case authorityIdentifier v False of
        Inl e \<Rightarrow> Inl e
      | Inr i \<Rightarrow>
          if i \<in> set seen then Inl ErrAuthorityPayloadInvalid
          else (case normalize_references (i # seen) vs of Inl e \<Rightarrow> Inl e | Inr is \<Rightarrow> Inr (i # is)))"

definition normalizedAuthorityReferences :: "string list \<Rightarrow> orgerr + string list" where
  "normalizedAuthorityReferences raw =
     (if length raw > maxAuthorityDeleteBatch then Inl ErrAuthorityPayloadInvalid
      else (case normalize_references [] raw of Inl e \<Rightarrow> Inl e | Inr is \<Rightarrow> Inr (sort is)))"

definition authorityDeleteIDs :: "string list \<Rightarrow> orgerr + string list" where
  "authorityDeleteIDs raw =
     (if raw = [] \<or> length raw > maxAuthorityDeleteBatch then Inl ErrAuthorityPayloadInvalid
      else normalizedAuthorityReferences raw)"

lemma authorityIdentifier_ok:
  "authorityIdentifier raw optional = Inr v \<Longrightarrow>
     v = strings_TrimSpace raw \<and> (v = [] \<longrightarrow> optional) \<and> length v \<le> 64 \<and> CHR '','' \<notin> set v \<and> CHR 0x00 \<notin> set v"
  by (auto simp: authorityIdentifier_def maxAuthorityIdentifierLength_def strings_ContainsAny_def Let_def list_ex_iff split: if_splits)

lemma normalize_references_ok:
  "normalize_references seen raw = Inr is \<Longrightarrow>
     is = map strings_TrimSpace raw \<and> distinct is \<and> set is \<inter> set seen = {} \<and> [] \<notin> set is \<and> (\<forall>i \<in> set is. CHR '','' \<notin> set i)"
proof (induction seen raw arbitrary: "is" rule: normalize_references.induct)
  case (2 seen v vs)
  from 2(2) obtain i js where i: "authorityIdentifier v False = Inr i" and n: "i \<notin> set seen"
    and js: "normalize_references (i # seen) vs = Inr js" and is_eq: "is = i # js"
    by (auto split: sum.splits if_splits)
  have js': "js = map strings_TrimSpace vs" "distinct js" "[] \<notin> set js" "\<forall>i \<in> set js. CHR '','' \<notin> set i"
    and off: "set js \<inter> set (i # seen) = {}" using 2(1) [OF i n js] by blast+
  have "is = map strings_TrimSpace (v # vs)" using js'(1) authorityIdentifier_ok [OF i] is_eq by simp
  moreover have "set is \<inter> set seen = {}" "i \<notin> set js" using off n is_eq by auto
  ultimately show ?case using js'(2-) authorityIdentifier_ok [OF i] is_eq by auto
qed simp

lemma authorityDeleteIDs_ok:
  assumes "authorityDeleteIDs raw = Inr is"
  shows "set is = strings_TrimSpace ` set raw" "distinct is" "[] \<notin> set is" "length raw \<le> 100"
  using assms normalize_references_ok [of "[]" raw]
  by (auto simp: authorityDeleteIDs_def normalizedAuthorityReferences_def maxAuthorityDeleteBatch_def
      split: if_splits sum.splits)

end
