(* ===== verification/Org_Guards.thy ===== *)
theory Org_Guards
  imports Org_Db
begin

text \<open>
  The guards of \<open>admin/service/authority_hierarchy.go\<close>: what is checked and normalised before a department or a
  post is created, updated or deleted. \<open>hasDB\<close> says whether the handle is non-nil; \<open>parse\<close> stands for
  \<open>mail.ParseAddress\<close>.
\<close>

section \<open>The chain of parents\<close>

record authorityHierarchyRow =
  hr_ID :: string
  hr_ParentID :: string
  hr_Status :: string

definition department_rows :: "org_db \<Rightarrow> authorityHierarchyRow list" where
  "department_rows d = map (\<lambda>r. \<lparr>hr_ID = dp_ID r, hr_ParentID = dp_ParentID r, hr_Status = dp_Status r\<rparr>) (od_departments d)"

definition post_rows :: "org_db \<Rightarrow> authorityHierarchyRow list" where
  "post_rows d = map (\<lambda>r. \<lparr>hr_ID = ps_ID r, hr_ParentID = ps_ParentID r, hr_Status = ps_Status r\<rparr>) (od_posts d)"

definition row_of :: "authorityHierarchyRow list \<Rightarrow> string \<Rightarrow> authorityHierarchyRow option" where
  "row_of rows x = find (\<lambda>r. hr_ID r = x) rows"

text \<open>The loop over \<open>current\<close>; \<open>n\<close> is the number of steps left.\<close>

fun parent_walk :: "nat \<Rightarrow> (org_db \<Rightarrow> authorityHierarchyRow list) \<Rightarrow> string \<Rightarrow> string list \<Rightarrow> string \<Rightarrow> unit org_sql" where
  "parent_walk n rows targetID visited current =
     (if current = [] then sql_return ()
      else
        (case n of
           0 \<Rightarrow> sql_raise ErrAuthorityHierarchyCorrupt
         | Suc k \<Rightarrow>
             if targetID \<noteq> [] \<and> current = targetID then sql_raise ErrAuthorityHierarchyCycle
             else if current \<in> set visited then sql_raise ErrAuthorityHierarchyCorrupt
             else
               sql_bind (sql_query (\<lambda>d. row_of (rows d) current)) (\<lambda>found.
               case found of
                 None \<Rightarrow> sql_raise ErrAuthorityReferenceInvalid
               | Some row \<Rightarrow>
                   if hr_Status row \<noteq> Enabled then sql_raise ErrAuthorityReferenceInvalid
                   else parent_walk k rows targetID (current # visited) (strings_TrimSpace (hr_ParentID row)))))"

declare parent_walk.simps [simp del]

definition validateAuthorityParent :: "(org_db \<Rightarrow> authorityHierarchyRow list) \<Rightarrow> string \<Rightarrow> string \<Rightarrow> unit org_sql" where
  "validateAuthorityParent rows targetID parentID =
     (if parentID = [] then sql_return ()
      else if targetID \<noteq> [] \<and> parentID = targetID then sql_raise ErrAuthorityHierarchyCycle
      else parent_walk maxAuthorityHierarchyWalk rows targetID [] parentID)"

section \<open>Writing a department\<close>

text \<open>\<open>bad_email\<close>: the address does not parse or is not the text itself.\<close>

definition bad_email :: "(string \<Rightarrow> string option) \<Rightarrow> string \<Rightarrow> bool" where
  "bad_email parse email \<longleftrightarrow> email \<noteq> [] \<and> parse email \<noteq> Some email"

definition or_enabled :: "string \<Rightarrow> string" where
  "or_enabled status = (if status = [] then Enabled else status)"

definition check_leader :: "string \<Rightarrow> unit org_sql" where
  "check_leader leaderID =
     (if leaderID = [] then sql_return ()
      else
        sql_bind (sql_query (\<lambda>d. length (filter (\<lambda>u. us_ID u = leaderID \<and> us_Status u = Enabled) (od_users d)))) (\<lambda>count.
        sql_refuse (count \<noteq> 1) ErrAuthorityReferenceInvalid))"

definition validateDepartmentWrite :: "bool \<Rightarrow> (string \<Rightarrow> string option) \<Rightarrow> department \<Rightarrow> department org_sql" where
  "validateDepartmentWrite hasDB parse dep =
     sql_bind (sql_refuse (\<not> hasDB) OrgInvalidDB) (\<lambda>_.
     sql_bind (sql_lift (boundedAuthorityText (dp_Name dep) 255 False)) (\<lambda>name.
     sql_bind (sql_lift (boundedAuthorityText (dp_Code dep) 255 False)) (\<lambda>code.
     sql_bind (sql_lift (authorityIdentifier (dp_ParentID dep) True)) (\<lambda>parentID.
     sql_bind (sql_lift (authorityIdentifier (dp_LeaderID dep) True)) (\<lambda>leaderID.
     sql_bind (sql_lift (boundedAuthorityText (dp_Phone dep) 50 True)) (\<lambda>phone.
     sql_bind (sql_lift (boundedAuthorityText (dp_Email dep) 255 True)) (\<lambda>email.
     sql_bind (sql_refuse (bad_email parse email) ErrAuthorityPayloadInvalid) (\<lambda>_.
     sql_bind (sql_refuse (or_enabled (dp_Status dep) \<notin> {Enabled, Disabled}) ErrAuthorityPayloadInvalid) (\<lambda>_.
     sql_bind (sql_refuse (dp_Sort dep < -1000000 \<or> dp_Sort dep > 1000000) ErrAuthorityPayloadInvalid) (\<lambda>_.
     let next = dep\<lparr>dp_Name := name, dp_Code := code, dp_ParentID := parentID, dp_LeaderID := leaderID, dp_Phone := phone,
                    dp_Email := email, dp_Status := or_enabled (dp_Status dep)\<rparr> in
     sql_bind (validateAuthorityParent department_rows (dp_ID dep) parentID) (\<lambda>_.
     sql_bind (check_leader leaderID) (\<lambda>_.
     sql_return next))))))))))))"

definition PrepareDepartmentCreate :: "bool \<Rightarrow> (string \<Rightarrow> string option) \<Rightarrow> department option \<Rightarrow> department org_sql" where
  "PrepareDepartmentCreate hasDB parse dep =
     (case dep of
        None \<Rightarrow> sql_raise ErrAuthorityPayloadInvalid
      | Some x \<Rightarrow> validateDepartmentWrite hasDB parse (x\<lparr>dp_ID := []\<rparr>))"

definition PrepareDepartmentUpdate :: "bool \<Rightarrow> (string \<Rightarrow> string option) \<Rightarrow> string \<Rightarrow> department option \<Rightarrow> department org_sql" where
  "PrepareDepartmentUpdate hasDB parse rawID dep =
     (if \<not> hasDB then sql_raise OrgInvalidDB
      else
        (case dep of
           None \<Rightarrow> sql_raise ErrAuthorityPayloadInvalid
         | Some x \<Rightarrow>
             sql_bind (sql_lift (authorityIdentifier rawID False)) (\<lambda>i.
             sql_bind (sql_query (\<lambda>d. find (\<lambda>r. dp_ID r = i) (od_departments d))) (\<lambda>row.
             case row of
               None \<Rightarrow> sql_raise OrgRecordNotFound
             | Some current \<Rightarrow> validateDepartmentWrite hasDB parse (x\<lparr>dp_ID := dp_ID current\<rparr>)))))"

section \<open>Writing a post\<close>

definition or_self :: "string \<Rightarrow> string" where
  "or_self scope = (if scope = [] then DataScopeSelf else scope)"

definition known_scopes :: "string list" where
  "known_scopes = [DataScopeAll, DataScopeCurrentDept, DataScopeCurrentAndChildrenDept, DataScopeCustomDept, DataScopeSelf,
     DataScopeSelfAndChildren, DataScopeSelfAndAllChildren]"

definition strings_Join :: "string list \<Rightarrow> string \<Rightarrow> string" where
  "strings_Join parts sep = (case parts of [] \<Rightarrow> [] | p # ps \<Rightarrow> p @ concat (map (\<lambda>q. sep @ q) ps))"

text \<open>The departments of a custom scope, or none for every other scope.\<close>

definition custom_departments :: "post \<Rightarrow> post org_sql" where
  "custom_departments p =
     (if ps_DataScope p \<noteq> DataScopeCustomDept then sql_return (p\<lparr>ps_DeptIDS := [], ps_DeptIDSArr := []\<rparr>)
      else
        sql_bind (sql_lift (normalizedAuthorityReferences (ps_DeptIDSArr p))) (\<lambda>departmentIDs.
        sql_bind (sql_refuse (departmentIDs = []) ErrAuthorityReferenceInvalid) (\<lambda>_.
        sql_bind (sql_refuse (length (strings_Join departmentIDs '','') > maxPostDepartmentEncoding) ErrAuthorityPayloadInvalid) (\<lambda>_.
        sql_bind (sql_query (\<lambda>d. length (filter (\<lambda>r. dp_ID r \<in> set departmentIDs \<and> dp_Status r = Enabled) (od_departments d))))
          (\<lambda>count.
        sql_bind (sql_refuse (count \<noteq> length departmentIDs) ErrAuthorityReferenceInvalid) (\<lambda>_.
        sql_return (p\<lparr>ps_DeptIDSArr := departmentIDs, ps_DeptIDS := strings_Join departmentIDs '',''\<rparr>)))))))"

definition validatePostWrite :: "bool \<Rightarrow> post \<Rightarrow> post org_sql" where
  "validatePostWrite hasDB p =
     sql_bind (sql_refuse (\<not> hasDB) OrgInvalidDB) (\<lambda>_.
     sql_bind (sql_lift (boundedAuthorityText (ps_Name p) 255 False)) (\<lambda>name.
     sql_bind (sql_lift (boundedAuthorityText (ps_Code p) 255 False)) (\<lambda>code.
     sql_bind (sql_lift (authorityIdentifier (ps_ParentID p) True)) (\<lambda>parentID.
     sql_bind (sql_refuse (or_enabled (ps_Status p) \<notin> {Enabled, Disabled}) ErrAuthorityPayloadInvalid) (\<lambda>_.
     sql_bind (sql_refuse (ps_Sort p < -1000000 \<or> ps_Sort p > 1000000) ErrAuthorityPayloadInvalid) (\<lambda>_.
     sql_bind (sql_refuse (or_self (ps_DataScope p) \<notin> set known_scopes) ErrAuthorityPayloadInvalid) (\<lambda>_.
     let next = p\<lparr>ps_Name := name, ps_Code := code, ps_ParentID := parentID, ps_Status := or_enabled (ps_Status p),
                  ps_DataScope := or_self (ps_DataScope p)\<rparr> in
     sql_bind (validateAuthorityParent post_rows (ps_ID p) parentID) (\<lambda>_.
     custom_departments next))))))))"

definition PreparePostCreate :: "bool \<Rightarrow> post option \<Rightarrow> post org_sql" where
  "PreparePostCreate hasDB p =
     (case p of
        None \<Rightarrow> sql_raise ErrAuthorityPayloadInvalid
      | Some x \<Rightarrow> validatePostWrite hasDB (x\<lparr>ps_ID := []\<rparr>))"

definition PreparePostUpdate :: "bool \<Rightarrow> string \<Rightarrow> post option \<Rightarrow> post org_sql" where
  "PreparePostUpdate hasDB rawID p =
     (if \<not> hasDB then sql_raise OrgInvalidDB
      else
        (case p of
           None \<Rightarrow> sql_raise ErrAuthorityPayloadInvalid
         | Some x \<Rightarrow>
             sql_bind (sql_lift (authorityIdentifier rawID False)) (\<lambda>i.
             sql_bind (sql_query (\<lambda>d. find (\<lambda>r. ps_ID r = i) (od_posts d))) (\<lambda>row.
             case row of
               None \<Rightarrow> sql_raise OrgRecordNotFound
             | Some current \<Rightarrow> validatePostWrite hasDB (x\<lparr>ps_ID := ps_ID current\<rparr>)))))"

section \<open>Deleting\<close>

definition ensureAuthorityRows :: "(org_db \<Rightarrow> authorityHierarchyRow list) \<Rightarrow> string list \<Rightarrow> unit org_sql" where
  "ensureAuthorityRows rows is =
     sql_bind (sql_query (\<lambda>d. length (filter (\<lambda>r. hr_ID r \<in> set is) (rows d)))) (\<lambda>count.
     sql_refuse (count \<noteq> length is) OrgRecordNotFound)"

definition hasExternalChildren :: "(org_db \<Rightarrow> authorityHierarchyRow list) \<Rightarrow> string list \<Rightarrow> bool org_sql" where
  "hasExternalChildren rows is =
     sql_query (\<lambda>d. length (filter (\<lambda>r. hr_ParentID r \<in> set is \<and> hr_ID r \<notin> set is) (rows d)) > 0)"

definition hasAuthorityReference :: "(org_user \<Rightarrow> string) \<Rightarrow> string list \<Rightarrow> bool org_sql" where
  "hasAuthorityReference col is = sql_query (\<lambda>d. length (filter (\<lambda>u. col u \<in> set is) (od_users d)) > 0)"

definition custom_encodings :: "org_db \<Rightarrow> string list" where
  "custom_encodings d = map ps_DeptIDS (filter (\<lambda>p. ps_DataScope p = DataScopeCustomDept \<and> ps_DeptIDS p \<noteq> []) (od_posts d))"

definition hasPostDepartmentScopeReference :: "string list \<Rightarrow> bool org_sql" where
  "hasPostDepartmentScopeReference is =
     sql_bind (sql_query custom_encodings) (\<lambda>encoded.
     sql_return (list_ex (\<lambda>e. list_ex (\<lambda>i. strings_TrimSpace i \<in> set is) (strings_Split CHR '','' e)) encoded))"

definition refuse_if :: "bool org_sql \<Rightarrow> unit org_sql" where
  "refuse_if q = sql_bind q (\<lambda>used. sql_refuse used ErrAuthorityRecordInUse)"

definition ValidateDepartmentDelete :: "bool \<Rightarrow> string list \<Rightarrow> unit org_sql" where
  "ValidateDepartmentDelete hasDB rawIDs =
     (if \<not> hasDB then sql_raise OrgInvalidDB
      else
        sql_bind (sql_lift (authorityDeleteIDs rawIDs)) (\<lambda>is.
        sql_bind (ensureAuthorityRows department_rows is) (\<lambda>_.
        sql_bind (refuse_if (hasExternalChildren department_rows is)) (\<lambda>_.
        sql_bind (refuse_if (hasAuthorityReference us_DepartmentID is)) (\<lambda>_.
        refuse_if (hasPostDepartmentScopeReference is))))))"

definition ValidatePostDelete :: "bool \<Rightarrow> string list \<Rightarrow> unit org_sql" where
  "ValidatePostDelete hasDB rawIDs =
     (if \<not> hasDB then sql_raise OrgInvalidDB
      else
        sql_bind (sql_lift (authorityDeleteIDs rawIDs)) (\<lambda>is.
        sql_bind (ensureAuthorityRows post_rows is) (\<lambda>_.
        sql_bind (refuse_if (hasExternalChildren post_rows is)) (\<lambda>_.
        refuse_if (hasAuthorityReference us_PostID is)))))"

end
