(* ===== verification/Rest_Control.thy ===== *)
theory Rest_Control
  imports Sql_Tx
begin

text \<open>
  The generic write actions of \<open>mss-boot/pkg/response/actions/gorm\<close> (\<open>control.go\<close>, \<open>delete.go\<close>): creating,
  updating and deleting a model through the hooks of its controller, and the HTTP status of every outcome.
  Binding a request, the statements on the table of the model and the hooks are arguments; \<open>Scope\<close> is a
  condition of those statements; cleaning the cache of the table has no result.
\<close>

section \<open>Options\<close>

datatype writeOperation =
  WriteOperationLoad | WriteOperationBeforeCreate | WriteOperationCreate | WriteOperationCreator
| WriteOperationAfterCreate | WriteOperationAfterCommit | WriteOperationBeforeUpdate | WriteOperationUpdate
| WriteOperationAfterUpdate | WriteOperationBeforeDelete | WriteOperationDelete | WriteOperationAfterDelete

record publicWriteError =
  pub_Status :: nat
  pub_Error :: "string option"

text \<open>\<open>errVerifyHandlerMissing\<close> or an error of the model.\<close>

datatype 'e writeCause = VerifyHandlerMissing | Cause 'e

text \<open>A mapper returns a public error and whether it matched.\<close>

record ('d, 'e, 'm) restOptions =
  WriteErrorMapper :: "(writeOperation \<Rightarrow> 'e writeCause \<Rightarrow> publicWriteError \<times> bool) option"
  BeforeCreate :: "('m \<Rightarrow> ('d, 'e, 'm) sql) option"
  AfterCreate :: "('m \<Rightarrow> ('d, 'e, 'm) sql) option"
  AfterCommitCreate :: "('m \<Rightarrow> ('d, 'e, 'm) sql) option"
  BeforeUpdate :: "('m \<Rightarrow> ('d, 'e, 'm) sql) option"
  AfterUpdate :: "('m \<Rightarrow> ('d, 'e, 'm) sql) option"
  BeforeDelete :: "(string list \<Rightarrow> ('d, 'e, unit) sql) option"
  AfterDelete :: "(string list \<Rightarrow> ('d, 'e, unit) sql) option"

text \<open>
  The statements on the table of the model. \<open>tb_creator\<close> is \<open>None\<close> for a model without a creator column; it
  takes the identity of the request.
\<close>

record ('d, 'e, 'm) restTable =
  tb_create :: "'m \<Rightarrow> ('d, 'e, 'm) sql"
  tb_creator :: "(string \<Rightarrow> 'm \<Rightarrow> ('d, 'e, unit) sql) option"
  tb_first :: "string \<Rightarrow> ('d, 'e, 'm option) sql"
  tb_save :: "'m \<Rightarrow> ('d, 'e, unit) sql"
  tb_delete :: "string list \<Rightarrow> ('d, 'e, unit) sql"

text \<open>A status, the code of a public error and the model of a success.\<close>

datatype 'm response = Answer (answer_status: nat) (answer_code: "string option") (answer_model: "'m option")

text \<open>\<open>response.OK\<close> answers 200, to \<open>POST\<close> 201 and to \<open>DELETE\<close> 204.\<close>

definition response_OK :: "string \<Rightarrow> 'm option \<Rightarrow> 'm response" where
  "response_OK meth data = Answer (if meth = ''DELETE'' then 204 else if meth = ''POST'' then 201 else 200) None data"

section \<open>Errors\<close>

definition public_answer :: "publicWriteError \<times> bool \<Rightarrow> 'm response" where
  "public_answer = (\<lambda>(public, matched).
     if \<not> matched \<or> pub_Status public < 400 \<or> pub_Status public > 599 \<or> pub_Error public = None
     then Answer 500 (Some ''WRITE_FAILED'') None
     else Answer (pub_Status public) (pub_Error public) None)"

definition control_writeError :: "('d, 'e, 'm) restOptions \<Rightarrow> writeOperation \<Rightarrow> 'e writeCause \<Rightarrow> 'm response" where
  "control_writeError opts op e =
     (case WriteErrorMapper opts of
        None \<Rightarrow> Answer (if op = WriteOperationCreator \<and> e = VerifyHandlerMissing then 401 else 500) None None
      | Some mapper \<Rightarrow> public_answer (mapper op e))"

definition delete_writeError :: "('d, 'e, 'm) restOptions \<Rightarrow> writeOperation \<Rightarrow> 'e writeCause \<Rightarrow> 'm response" where
  "delete_writeError opts op e =
     (case WriteErrorMapper opts of None \<Rightarrow> Answer 500 None None | Some mapper \<Rightarrow> public_answer (mapper op e))"

text \<open>
  \<open>controlOperationError\<close>: an error with the operation it comes from. The statements \<open>BEGIN\<close> and \<open>COMMIT\<close> of a
  transaction belong to the operation the handler assumes when an error carries none.
\<close>

definition tag_env :: "writeOperation \<Rightarrow> 'e sql_env \<Rightarrow> (writeOperation \<times> 'e writeCause) sql_env" where
  "tag_env op E = \<lparr>sql_error = (\<lambda>n. map_option (\<lambda>e. (op, Cause e)) (sql_error E n))\<rparr>"

definition tagging :: "'e sql_env \<Rightarrow> writeOperation \<Rightarrow> ('d, 'e, 'a) sql \<Rightarrow> ('d, writeOperation \<times> 'e writeCause, 'a) sql" where
  "tagging E op m = (\<lambda>_ s. case m E s of (s1, Inl e) \<Rightarrow> (s1, Inl (op, Cause e)) | (s1, Inr x) \<Rightarrow> (s1, Inr x))"

definition run_hook :: "('m \<Rightarrow> ('d, 'e, 'm) sql) option \<Rightarrow> 'm \<Rightarrow> ('d, 'e, 'm) sql" where
  "run_hook h m = (case h of None \<Rightarrow> sql_return m | Some f \<Rightarrow> f m)"

lemma tagging_ok [sql_ok]: "tagging E op m E' s = (s', Inr x) \<longleftrightarrow> m E s = (s', Inr x)"
  by (auto simp: tagging_def split: prod.split sum.split)

lemma run_hook_None [simp]: "run_hook None m = sql_return m"
  by (simp add: run_hook_def)

lemma run_hook_Some [simp]: "run_hook (Some f) m = f m"
  by (simp add: run_hook_def)

section \<open>Create, update, delete\<close>

definition create_body :: "('d, 'e, 'm) restOptions \<Rightarrow> ('d, 'e, 'm) restTable \<Rightarrow> string option \<Rightarrow> 'e sql_env \<Rightarrow> 'm
    \<Rightarrow> ('d, writeOperation \<times> 'e writeCause, 'm) sql" where
  "create_body opts T who E m =
     sql_bind (tagging E WriteOperationCreate (tb_create T m)) (\<lambda>m1.
     sql_bind (case tb_creator T of
                 None \<Rightarrow> sql_return ()
               | Some set_creator \<Rightarrow>
                   (case who of
                      None \<Rightarrow> sql_raise (WriteOperationCreator, VerifyHandlerMissing)
                    | Some userID \<Rightarrow> tagging E WriteOperationCreator (set_creator userID m1))) (\<lambda>_.
     tagging E WriteOperationAfterCreate (run_hook (AfterCreate opts) m1)))"

text \<open>\<open>bound\<close> is the model bound from the request, or \<open>None\<close> when binding failed.\<close>

definition rest_create :: "('d, 'e, 'm) restOptions \<Rightarrow> ('d, 'e, 'm) restTable \<Rightarrow> string option \<Rightarrow> 'm option
    \<Rightarrow> 'e sql_env \<Rightarrow> 'd txn \<Rightarrow> 'd txn \<times> 'm response" where
  "rest_create opts T who bound E s =
     (case bound of
        None \<Rightarrow> (s, Answer 422 None None)
      | Some m \<Rightarrow>
          (case run_hook (BeforeCreate opts) m E s of
             (s1, Inl e) \<Rightarrow> (s1, control_writeError opts WriteOperationBeforeCreate (Cause e))
           | (s1, Inr m1) \<Rightarrow>
               (case sql_transaction (create_body opts T who E m1) (tag_env WriteOperationCreate E) s1 of
                  (s2, Inl (op, e)) \<Rightarrow> (s2, control_writeError opts op e)
                | (s2, Inr m2) \<Rightarrow>
                    (case run_hook (AfterCommitCreate opts) m2 E s2 of
                       (s3, Inl e) \<Rightarrow> (s3, control_writeError opts WriteOperationAfterCommit (Cause e))
                     | (s3, Inr m3) \<Rightarrow> (s3, response_OK ''POST'' (Some m3))))))"

text \<open>\<open>bind\<close> writes the fields of the request over the row that was found.\<close>

definition rest_update :: "('d, 'e, 'm) restOptions \<Rightarrow> ('d, 'e, 'm) restTable \<Rightarrow> string \<Rightarrow> ('m \<Rightarrow> 'm option)
    \<Rightarrow> 'e sql_env \<Rightarrow> 'd txn \<Rightarrow> 'd txn \<times> 'm response" where
  "rest_update opts T key bind E s =
     (if key = [] then (s, Answer 422 None None)
      else
        (case tb_first T key E s of
           (s1, Inl e) \<Rightarrow> (s1, control_writeError opts WriteOperationLoad (Cause e))
         | (s1, Inr None) \<Rightarrow> (s1, Answer 404 None None)
         | (s1, Inr (Some row)) \<Rightarrow>
             (case bind row of
                None \<Rightarrow> (s1, Answer 422 None None)
              | Some m \<Rightarrow>
                  (case run_hook (BeforeUpdate opts) m E s1 of
                     (s2, Inl e) \<Rightarrow> (s2, control_writeError opts WriteOperationBeforeUpdate (Cause e))
                   | (s2, Inr m1) \<Rightarrow>
                       (case tb_save T m1 E s2 of
                          (s3, Inl e) \<Rightarrow> (s3, control_writeError opts WriteOperationUpdate (Cause e))
                        | (s3, Inr _) \<Rightarrow>
                            (case run_hook (AfterUpdate opts) m1 E s3 of
                               (s4, Inl e) \<Rightarrow> (s4, control_writeError opts WriteOperationAfterUpdate (Cause e))
                             | (s4, Inr m2) \<Rightarrow> (s4, response_OK ''PUT'' (Some m2))))))))"

definition rest_delete :: "('d, 'e, 'm) restOptions \<Rightarrow> ('d, 'e, 'm) restTable \<Rightarrow> string list
    \<Rightarrow> 'e sql_env \<Rightarrow> 'd txn \<Rightarrow> 'd txn \<times> 'm response" where
  "rest_delete opts T ids E s =
     (if ids = [] then (s, Answer 422 None None)
      else
        (case sql_transaction
                (sql_bind (case BeforeDelete opts of None \<Rightarrow> sql_return () | Some f \<Rightarrow> tagging E WriteOperationBeforeDelete (f ids)) (\<lambda>_.
                 tagging E WriteOperationDelete (tb_delete T ids)))
                (tag_env WriteOperationDelete E) s of
           (s1, Inl (op, e)) \<Rightarrow> (s1, delete_writeError opts op e)
         | (s1, Inr _) \<Rightarrow>
             (case (case AfterDelete opts of None \<Rightarrow> sql_return () | Some f \<Rightarrow> f ids) E s1 of
                (s2, Inl e) \<Rightarrow> (s2, delete_writeError opts WriteOperationAfterDelete (Cause e))
              | (s2, Inr _) \<Rightarrow> (s2, response_OK ''DELETE'' None))))"

text \<open>The identifiers of a request: \<open>batch\<close> takes them from the body.\<close>

definition rest_delete_request :: "('d, 'e, 'm) restOptions \<Rightarrow> ('d, 'e, 'm) restTable \<Rightarrow> string \<Rightarrow> string list option
    \<Rightarrow> 'e sql_env \<Rightarrow> 'd txn \<Rightarrow> 'd txn \<times> 'm response" where
  "rest_delete_request opts T key body E s =
     (if key = ''batch'' then
        (case body of
           None \<Rightarrow> (s, Answer 422 None None)
         | Some ids \<Rightarrow> if ids = [] then (s, Answer 422 None None) else rest_delete opts T ids E s)
      else rest_delete opts T [key] E s)"

section \<open>What an answer says\<close>

text \<open>A public error is a client or server error, whatever a mapper says.\<close>

lemma control_writeError_status: "answer_status (control_writeError opts op e) \<in> {400..599}"
  by (auto simp: control_writeError_def public_answer_def split: option.split prod.split)

lemma delete_writeError_status: "answer_status (delete_writeError opts op e) \<in> {400..599}"
  by (auto simp: delete_writeError_def public_answer_def split: option.split prod.split)

lemma error_answers [simp]:
  "n < 400 \<Longrightarrow> control_writeError opts op e \<noteq> Answer n c m" "n < 400 \<Longrightarrow> delete_writeError opts op e \<noteq> Answer n c m"
  using control_writeError_status [of opts op e] delete_writeError_status [of opts op e] by auto

text \<open>What a success ran, in this order.\<close>

lemma rest_create_answered:
  assumes "rest_create opts T who bound E s = (s', response_OK ''POST'' r)"
  obtains m s1 m1 s2 m2 m3 where "bound = Some m" "run_hook (BeforeCreate opts) m E s = (s1, Inr m1)"
    "sql_transaction (create_body opts T who E m1) (tag_env WriteOperationCreate E) s1 = (s2, Inr m2)"
    "run_hook (AfterCommitCreate opts) m2 E s2 = (s', Inr m3)"
  using assms by (auto simp: rest_create_def response_OK_def split: prod.splits sum.splits option.splits)

lemma rest_update_answered:
  assumes "rest_update opts T key bind E s = (s', response_OK ''PUT'' r)"
  obtains s1 s2 s3 row m m1 m2 where "key \<noteq> []" "tb_first T key E s = (s1, Inr (Some row))" "bind row = Some m"
    "run_hook (BeforeUpdate opts) m E s1 = (s2, Inr m1)" "tb_save T m1 E s2 = (s3, Inr ())"
    "run_hook (AfterUpdate opts) m1 E s3 = (s', Inr m2)"
  using assms by (auto simp: rest_update_def response_OK_def split: if_splits prod.splits sum.splits option.splits)

lemma rest_delete_answered:
  assumes "rest_delete opts T ids E s = (s', response_OK ''DELETE'' r)"
  obtains s1 where "sql_transaction
      (sql_bind (case BeforeDelete opts of None \<Rightarrow> sql_return () | Some f \<Rightarrow> tagging E WriteOperationBeforeDelete (f ids)) (\<lambda>_.
       tagging E WriteOperationDelete (tb_delete T ids))) (tag_env WriteOperationDelete E) s = (s1, Inr ())"
    "(case AfterDelete opts of None \<Rightarrow> sql_return () | Some f \<Rightarrow> f ids) E s1 = (s', Inr ())"
  using assms by (auto simp: rest_delete_def response_OK_def split: if_splits prod.splits sum.splits option.splits)

end
