(* ===== verification/Org_Hierarchy.thy ===== *)
theory Org_Hierarchy
  imports Org_Guards Rest_Control
begin

text \<open>
  Hierarchies as the guards leave them: from every row the chain of parents ends at a row without a parent. An
  accepted parent keeps them so, and so does a deletion without external children.
\<close>

section \<open>Chains that end\<close>

text \<open>The chain from \<open>x\<close> reaches a row without a parent within \<open>n\<close> rows and avoids \<open>T\<close>.\<close>

inductive rooted :: "string set \<Rightarrow> authorityHierarchyRow list \<Rightarrow> nat \<Rightarrow> string \<Rightarrow> bool" for T rows where
  rooted_top: "x \<notin> T \<Longrightarrow> row_of rows x = Some r \<Longrightarrow> strings_TrimSpace (hr_ParentID r) = [] \<Longrightarrow> rooted T rows (Suc 0) x"
| rooted_up: "x \<notin> T \<Longrightarrow> row_of rows x = Some r \<Longrightarrow> strings_TrimSpace (hr_ParentID r) \<noteq> [] \<Longrightarrow>
    rooted T rows n (strings_TrimSpace (hr_ParentID r)) \<Longrightarrow> rooted T rows (Suc n) x"

definition forest :: "authorityHierarchyRow list \<Rightarrow> bool" where
  "forest rows \<longleftrightarrow> distinct (map hr_ID rows)
     \<and> (\<forall>r \<in> set rows. hr_ID r \<noteq> [] \<and> strings_TrimSpace (hr_ID r) = hr_ID r \<and> strings_TrimSpace (hr_ParentID r) = hr_ParentID r
          \<and> (\<exists>n. rooted {} rows n (hr_ID r)))"

lemma row_of_Some: "row_of rows x = Some r \<Longrightarrow> r \<in> set rows \<and> hr_ID r = x"
  by (auto simp: row_of_def find_Some_iff)

lemma row_of_append: "row_of (rows @ qs) x = (case row_of rows x of None \<Rightarrow> row_of qs x | Some r \<Rightarrow> Some r)"
  by (induction rows) (auto simp: row_of_def)

lemma row_of_in: "distinct (map hr_ID rows) \<Longrightarrow> r \<in> set rows \<Longrightarrow> row_of rows (hr_ID r) = Some r"
proof (induction rows)
  case (Cons a rows)
  then show ?case by (cases "hr_ID a = hr_ID r") (auto simp: row_of_def)
qed simp

lemma rooted_mono: "rooted T rows n x \<Longrightarrow> T' \<subseteq> T \<Longrightarrow> rooted T' rows n x"
  by (induction rule: rooted.induct) (auto intro: rooted.intros)

text \<open>Rows outside \<open>T\<close> may be looked up in any other table that agrees there.\<close>

lemma rooted_agree:
  "rooted T rows n x \<Longrightarrow> (\<And>y. y \<notin> T \<Longrightarrow> row_of rows' y = row_of rows y) \<Longrightarrow> rooted T rows' n x"
  by (induction rule: rooted.induct) (auto intro: rooted.intros)

section \<open>The walk\<close>

lemma parent_walk_ok:
  assumes "parent_walk n rows t visited x E s = (s', Inr u)" and "x \<noteq> []"
  shows "(\<exists>m \<le> n. rooted {y. t \<noteq> [] \<and> y = t} (rows (tx_db s)) m x) \<and> tx_db s' = tx_db s"
  using assms
proof (induction n arbitrary: visited x s)
  case 0
  then show ?case by (simp add: parent_walk.simps [of 0] sql_ok)
next
  case (Suc k)
  let ?T = "{y. t \<noteq> [] \<and> y = t}" and ?s1 = "s\<lparr>tx_tick := Suc (tx_tick s)\<rparr>"
  from Suc.prems obtain r where r: "row_of (rows (tx_db s)) x = Some r" and x: "x \<notin> ?T"
    and w: "parent_walk k rows t (x # visited) (strings_TrimSpace (hr_ParentID r)) E ?s1 = (s', Inr u)"
    by (auto simp: parent_walk.simps [of "Suc k"] sql_ok split: if_splits option.splits)
  show ?case
  proof (cases "strings_TrimSpace (hr_ParentID r) = []")
    case True
    with w have "tx_db s' = tx_db s" by (simp add: parent_walk.simps sql_ok)
    moreover have "rooted ?T (rows (tx_db s)) (Suc 0) x" by (rule rooted_top [OF x r True])
    ultimately show ?thesis by (metis Suc_le_mono le0)
  next
    case False
    from Suc.IH [OF w False] obtain m where "m \<le> k" "rooted ?T (rows (tx_db s)) m (strings_TrimSpace (hr_ParentID r))"
      "tx_db s' = tx_db s" by auto
    with rooted_up [OF x r False] show ?thesis by (metis Suc_le_mono)
  qed
qed

lemma reads_parent_walk [reads]: "reads_only (parent_walk n rows t visited x)"
  by (induction n arbitrary: visited x) (auto simp: parent_walk.simps intro!: reads split: option.split)

lemma reads_validateAuthorityParent [reads]: "reads_only (validateAuthorityParent rows t p)"
  by (auto simp: validateAuthorityParent_def intro: reads)

lemma validateAuthorityParent_ok:
  assumes "validateAuthorityParent rows t p E s = (s', Inr u)"
  shows "p = [] \<or> (\<exists>m \<le> maxAuthorityHierarchyWalk. rooted {y. t \<noteq> [] \<and> y = t} (rows (tx_db s)) m p)"
proof (cases "p = []")
  case False
  with assms have "parent_walk maxAuthorityHierarchyWalk rows t [] p E s = (s', Inr u)"
    by (simp add: validateAuthorityParent_def sql_ok split: if_splits)
  from parent_walk_ok [OF this False] show ?thesis by blast
qed simp

section \<open>Accepted changes keep a forest\<close>

text \<open>A new row below an accepted parent.\<close>

lemma forest_insert:
  assumes f: "forest rows" and new: "hr_ID r \<notin> hr_ID ` set rows" "hr_ID r \<noteq> []" "strings_TrimSpace (hr_ID r) = hr_ID r"
    and p: "strings_TrimSpace (hr_ParentID r) = hr_ParentID r" "hr_ParentID r = [] \<or> (\<exists>m. rooted {} rows m (hr_ParentID r))"
  shows "forest (rows @ [r])"
proof -
  have none: "row_of rows (hr_ID r) = None" using new(1) by (metis image_eqI row_of_Some option.exhaust)
  have look: "row_of (rows @ [r]) y = row_of rows y" if "y \<noteq> hr_ID r" for y
    using that by (simp add: row_of_append split: option.split) (simp add: row_of_def)
  have off: "rooted {hr_ID r} rows n x" if "rooted {} rows n x" for n x
    using that
  proof (induction rule: rooted.induct)
    case (rooted_top x q)
    with none show ?case by (auto intro: rooted.rooted_top)
  next
    case (rooted_up x q n)
    with none show ?case by (auto intro: rooted.rooted_up)
  qed
  have keep: "rooted {} (rows @ [r]) n x" if "rooted {} rows n x" for n x
    using rooted_mono [OF rooted_agree [OF off [OF that]], of "rows @ [r]" "{}"] look by simp
  have here: "row_of (rows @ [r]) (hr_ID r) = Some r" using none by (simp add: row_of_append) (simp add: row_of_def)
  have "\<exists>n. rooted {} (rows @ [r]) n (hr_ID r)"
  proof (cases "hr_ParentID r = []")
    case True
    with here p(1) show ?thesis by (metis rooted_top empty_iff)
  next
    case False
    with p(2) keep obtain m where "rooted {} (rows @ [r]) m (hr_ParentID r)" by blast
    with False here p(1) have "rooted {} (rows @ [r]) (Suc m) (hr_ID r)" by (intro rooted_up [of _ _ _ r]) simp_all
    then show ?thesis by blast
  qed
  moreover have "\<exists>n. rooted {} (rows @ [r]) n (hr_ID q)" if "q \<in> set rows" for q
    using f keep that unfolding forest_def by blast
  ultimately show ?thesis using f new p(1) unfolding forest_def by auto
qed

text \<open>A row that moves below an accepted parent.\<close>

definition save_row :: "authorityHierarchyRow \<Rightarrow> authorityHierarchyRow list \<Rightarrow> authorityHierarchyRow list" where
  "save_row r rows = map (\<lambda>q. if hr_ID q = hr_ID r then r else q) rows"

lemma row_of_save: "row_of (save_row r rows) y = (case row_of rows y of None \<Rightarrow> None | Some q \<Rightarrow> Some (if y = hr_ID r then r else q))"
  by (induction rows) (auto simp: save_row_def row_of_def)

lemma forest_update:
  assumes f: "forest rows" and known: "hr_ID r \<in> hr_ID ` set rows"
    and p: "strings_TrimSpace (hr_ParentID r) = hr_ParentID r" "hr_ParentID r = [] \<or> (\<exists>m. rooted {hr_ID r} rows m (hr_ParentID r))"
  shows "forest (save_row r rows)"
proof -
  let ?new = "save_row r rows"
  have ids: "map hr_ID ?new = map hr_ID rows" by (auto simp: save_row_def)
  have look: "row_of ?new y = row_of rows y" if "y \<notin> {hr_ID r}" for y using that by (simp add: row_of_save split: option.split)
  from known obtain q where q: "q \<in> set rows" "hr_ID q = hr_ID r" by (metis imageE)
  with f have here: "row_of ?new (hr_ID r) = Some r" using row_of_in [of rows q] by (simp add: forest_def row_of_save)
  have up: "\<exists>n. rooted {} ?new n (hr_ID r)"
  proof (cases "hr_ParentID r = []")
    case True
    with here p(1) show ?thesis by (metis rooted_top empty_iff)
  next
    case False
    with p(2) obtain m where "rooted {hr_ID r} rows m (hr_ParentID r)" by blast
    from rooted_mono [OF rooted_agree [OF this look], of "{}"] have "rooted {} ?new m (hr_ParentID r)" by simp
    with False here p(1) have "rooted {} ?new (Suc m) (hr_ID r)" by (intro rooted_up [of _ _ _ r]) simp_all
    then show ?thesis by blast
  qed
  have keep: "\<exists>m. rooted {} ?new m x" if "rooted {} rows n x" for n x
    using that
  proof (induction rule: rooted.induct)
    case (rooted_top x q)
    then show ?case
    proof (cases "x = hr_ID r")
      case False
      with rooted_top look have "rooted {} ?new (Suc 0) x" by (intro rooted.rooted_top [of _ _ _ q]) simp_all
      then show ?thesis by blast
    qed (use up in simp)
  next
    case (rooted_up x q n)
    show ?case
    proof (cases "x = hr_ID r")
      case False
      from rooted_up obtain m where "rooted {} ?new m (strings_TrimSpace (hr_ParentID q))" by blast
      with False rooted_up look have "rooted {} ?new (Suc m) x" by (intro rooted.rooted_up [of _ _ _ q]) simp_all
      then show ?thesis by blast
    qed (use up in simp)
  qed
  have old: "q \<in> set ?new \<Longrightarrow> q = r \<or> q \<in> set rows" for q by (auto simp: save_row_def)
  have "hr_ID q' \<noteq> [] \<and> strings_TrimSpace (hr_ID q') = hr_ID q' \<and> strings_TrimSpace (hr_ParentID q') = hr_ParentID q'
      \<and> (\<exists>n. rooted {} ?new n (hr_ID q'))" if "q' \<in> set ?new" for q'
    using old [OF that] f q p(1) up keep unfolding forest_def by metis
  with ids f show ?thesis unfolding forest_def by metis
qed

text \<open>Rows that go, with no child left behind.\<close>

lemma forest_delete:
  assumes f: "forest rows" and D: "\<forall>r \<in> set rows. hr_ParentID r \<in> D \<longrightarrow> hr_ID r \<in> D"
  shows "forest (filter (\<lambda>r. hr_ID r \<notin> D) rows)"
proof -
  let ?new = "filter (\<lambda>r. hr_ID r \<notin> D) rows"
  have look: "row_of ?new y = row_of rows y" if "y \<notin> D" for y
    using that by (induction rows) (auto simp: row_of_def)
  have keep: "x \<notin> D \<Longrightarrow> rooted {} ?new n x" if "rooted {} rows n x" for n x
    using that
  proof (induction rule: rooted.induct)
    case (rooted_top x q)
    with look show ?case by (intro rooted.rooted_top [of _ _ _ q]) simp_all
  next
    case (rooted_up x q n)
    have q: "q \<in> set rows" "hr_ID q = x" using row_of_Some [OF rooted_up(2)] by simp_all
    with f have "strings_TrimSpace (hr_ParentID q) = hr_ParentID q" by (simp add: forest_def)
    with D q rooted_up(6) have "strings_TrimSpace (hr_ParentID q) \<notin> D" by metis
    with rooted_up look show ?case by (intro rooted.rooted_up [of _ _ _ q]) simp_all
  qed
  have "distinct (map hr_ID ?new)" using f by (simp add: forest_def distinct_map_filter)
  moreover have "\<exists>n. rooted {} ?new n (hr_ID r)" if "r \<in> set rows" "hr_ID r \<notin> D" for r
    using f keep that unfolding forest_def by blast
  ultimately show ?thesis using f unfolding forest_def by auto
qed

text \<open>
  The controllers of departments and posts (\<open>admin/apis/authority_hierarchy.go\<close>): the generic write actions of
  \<open>Rest_Control\<close> with the guards of \<open>Org_Guards\<close> as their hooks. All of them run behind \<open>requireRootManagement\<close>.
\<close>

section \<open>Public errors\<close>

definition public_error :: "nat \<Rightarrow> string \<Rightarrow> publicWriteError \<times> bool" where
  "public_error status code = (\<lparr>pub_Status = status, pub_Error = Some code\<rparr>, True)"

definition authorityHierarchyWriteErrorMapper :: "string \<Rightarrow> writeOperation \<Rightarrow> orgerr writeCause \<Rightarrow> publicWriteError \<times> bool" where
  "authorityHierarchyWriteErrorMapper codePrefix op cause =
     (case cause of
        Cause ErrAuthorityPayloadInvalid \<Rightarrow> public_error 422 (codePrefix @ ''_INVALID'')
      | Cause ErrAuthorityReferenceInvalid \<Rightarrow> public_error 422 (codePrefix @ ''_REFERENCE_INVALID'')
      | Cause ErrAuthorityHierarchyCycle \<Rightarrow> public_error 409 (codePrefix @ ''_HIERARCHY_CYCLE'')
      | Cause ErrAuthorityHierarchyCorrupt \<Rightarrow> public_error 409 (codePrefix @ ''_HIERARCHY_INVALID'')
      | Cause ErrAuthorityRecordInUse \<Rightarrow> public_error 409 (codePrefix @ ''_IN_USE'')
      | Cause OrgRecordNotFound \<Rightarrow> public_error 404 (codePrefix @ ''_NOT_FOUND'')
      | _ \<Rightarrow> (\<lparr>pub_Status = 0, pub_Error = None\<rparr>, False))"

section \<open>Departments\<close>

text \<open>\<open>PrepareID\<close> gives a new row its identifier; \<open>Save\<close> inserts a row that is no longer there.\<close>

definition prepareID :: "string \<Rightarrow> string \<Rightarrow> string" where
  "prepareID newID i = (if i = [] then newID else i)"

definition insert_department :: "department \<Rightarrow> org_db \<Rightarrow> org_db" where
  "insert_department r d = d\<lparr>od_departments := od_departments d @ [r]\<rparr>"

definition save_department :: "department \<Rightarrow> org_db \<Rightarrow> org_db" where
  "save_department r d =
     (if dp_ID r \<in> dp_ID ` set (od_departments d)
      then d\<lparr>od_departments := map (\<lambda>q. if dp_ID q = dp_ID r then r else q) (od_departments d)\<rparr>
      else insert_department r d)"

definition delete_departments :: "string list \<Rightarrow> org_db \<Rightarrow> org_db" where
  "delete_departments ids d = d\<lparr>od_departments := filter (\<lambda>r. dp_ID r \<notin> set ids) (od_departments d)\<rparr>"

definition department_table :: "string \<Rightarrow> (org_db, orgerr, department) restTable" where
  "department_table newID =
     \<lparr>tb_create = (\<lambda>m. let r = m\<lparr>dp_ID := prepareID newID (dp_ID m)\<rparr> in
        sql_bind (sql_exec (insert_department r)) (\<lambda>_. sql_return r)),
      tb_creator = None,
      tb_first = (\<lambda>key. sql_query (\<lambda>d. find (\<lambda>r. dp_ID r = key) (od_departments d))),
      tb_save = (\<lambda>m. sql_exec (save_department m)),
      tb_delete = (\<lambda>ids. sql_exec (delete_departments ids))\<rparr>"

definition department_options :: "(string \<Rightarrow> string option) \<Rightarrow> string \<Rightarrow> (org_db, orgerr, department) restOptions" where
  "department_options parse key =
     \<lparr>WriteErrorMapper = Some (authorityHierarchyWriteErrorMapper ''DEPARTMENT''),
      BeforeCreate = Some (\<lambda>m. PrepareDepartmentCreate True parse (Some m)), AfterCreate = None, AfterCommitCreate = None,
      BeforeUpdate = Some (\<lambda>m. PrepareDepartmentUpdate True parse key (Some m)), AfterUpdate = None,
      BeforeDelete = Some (ValidateDepartmentDelete True), AfterDelete = None\<rparr>"

section \<open>Posts\<close>

text \<open>\<open>BeforeSave\<close> encodes the departments, \<open>AfterFind\<close> decodes them; the array is not stored.\<close>

definition post_BeforeSave :: "post \<Rightarrow> post" where
  "post_BeforeSave p = (if ps_DeptIDSArr p \<noteq> [] then p\<lparr>ps_DeptIDS := strings_Join (ps_DeptIDSArr p) '',''\<rparr> else p)"

definition post_AfterFind :: "post \<Rightarrow> post" where
  "post_AfterFind p = (if ps_DeptIDS p \<noteq> [] then p\<lparr>ps_DeptIDSArr := strings_Split CHR '','' (ps_DeptIDS p)\<rparr> else p)"

definition post_columns :: "post \<Rightarrow> post" where
  "post_columns p = (post_BeforeSave p)\<lparr>ps_DeptIDSArr := []\<rparr>"

definition insert_post :: "post \<Rightarrow> org_db \<Rightarrow> org_db" where
  "insert_post r d = d\<lparr>od_posts := od_posts d @ [post_columns r]\<rparr>"

definition save_post :: "post \<Rightarrow> org_db \<Rightarrow> org_db" where
  "save_post r d =
     (if ps_ID r \<in> ps_ID ` set (od_posts d)
      then d\<lparr>od_posts := map (\<lambda>q. if ps_ID q = ps_ID r then post_columns r else q) (od_posts d)\<rparr>
      else insert_post r d)"

definition delete_posts :: "string list \<Rightarrow> org_db \<Rightarrow> org_db" where
  "delete_posts ids d = d\<lparr>od_posts := filter (\<lambda>r. ps_ID r \<notin> set ids) (od_posts d)\<rparr>"

definition post_table :: "string \<Rightarrow> (org_db, orgerr, post) restTable" where
  "post_table newID =
     \<lparr>tb_create = (\<lambda>m. let r = m\<lparr>ps_ID := prepareID newID (ps_ID m)\<rparr> in
        sql_bind (sql_exec (insert_post r)) (\<lambda>_. sql_return r)),
      tb_creator = None,
      tb_first = (\<lambda>key. sql_query (\<lambda>d. map_option post_AfterFind (find (\<lambda>r. ps_ID r = key) (od_posts d)))),
      tb_save = (\<lambda>m. sql_exec (save_post m)),
      tb_delete = (\<lambda>ids. sql_exec (delete_posts ids))\<rparr>"

definition post_options :: "string \<Rightarrow> (org_db, orgerr, post) restOptions" where
  "post_options key =
     \<lparr>WriteErrorMapper = Some (authorityHierarchyWriteErrorMapper ''POST''),
      BeforeCreate = Some (\<lambda>m. PreparePostCreate True (Some m)), AfterCreate = None, AfterCommitCreate = None,
      BeforeUpdate = Some (\<lambda>m. PreparePostUpdate True key (Some m)), AfterUpdate = None,
      BeforeDelete = Some (ValidatePostDelete True), AfterDelete = None\<rparr>"

end
