(* ===== verification/Org_Changes.thy ===== *)
theory Org_Changes
  imports Org_Hierarchy
begin

text \<open>
  What one request does to the tables, for every answer, and the requests as a relation: served one at a time,
  they keep both hierarchies forests.
\<close>

section \<open>Guards only read\<close>

lemma reads_custom_departments [reads]: "reads_only (custom_departments p)"
  by (auto simp: custom_departments_def intro!: reads)

lemma reads_department_write [reads]: "reads_only (validateDepartmentWrite hasDB parse m)"
  by (auto simp: validateDepartmentWrite_def check_leader_def Let_def intro!: reads)

lemma reads_post_write [reads]: "reads_only (validatePostWrite hasDB m)"
  by (auto simp: validatePostWrite_def Let_def intro!: reads)

lemma reads_prepares [reads]:
  "reads_only (PrepareDepartmentCreate hasDB parse md)" "reads_only (PreparePostCreate hasDB mp)"
  "reads_only (PrepareDepartmentUpdate hasDB parse key md)" "reads_only (PreparePostUpdate hasDB key mp)"
  by (auto simp: PrepareDepartmentCreate_def PreparePostCreate_def PrepareDepartmentUpdate_def PreparePostUpdate_def
      intro!: reads split: option.split)

lemma reads_delete_guards [reads]:
  "reads_only (ValidateDepartmentDelete hasDB raw)" "reads_only (ValidatePostDelete hasDB raw)"
  by (auto simp: ValidateDepartmentDelete_def ValidatePostDelete_def refuse_if_def ensureAuthorityRows_def
      hasExternalChildren_def hasAuthorityReference_def hasPostDepartmentScopeReference_def intro!: reads)

section \<open>What the guards let through\<close>

text \<open>The rows of the parents of \<open>x\<close> do not pass through \<open>t\<close>.\<close>

definition accepted_parent :: "authorityHierarchyRow list \<Rightarrow> string \<Rightarrow> string \<Rightarrow> bool" where
  "accepted_parent rows t p \<longleftrightarrow>
     strings_TrimSpace p = p \<and> (p = [] \<or> (\<exists>m \<le> maxAuthorityHierarchyWalk. rooted {y. t \<noteq> [] \<and> y = t} rows m p))"

lemma accepted_from:
  assumes "authorityIdentifier raw True = Inr p" and "validateAuthorityParent rows t p E s = (s', Inr u)"
  shows "accepted_parent (rows (tx_db s)) t p"
  using authorityIdentifier_ok [OF assms(1)] validateAuthorityParent_ok [OF assms(2)] by (auto simp: accepted_parent_def)

lemma validateDepartmentWrite_ok:
  assumes "validateDepartmentWrite True parse m E s = (s', Inr y)"
  shows "dp_ID y = dp_ID m \<and> accepted_parent (department_rows (tx_db s)) (dp_ID m) (dp_ParentID y) \<and> dp_Status y \<in> {Enabled, Disabled}"
proof -
  from assms obtain p s1 s2 u where p: "authorityIdentifier (dp_ParentID m) True = Inr p" "dp_ParentID y = p" "dp_ID y = dp_ID m"
    "dp_Status y = or_enabled (dp_Status m)" "or_enabled (dp_Status m) \<in> {Enabled, Disabled}"
    "validateAuthorityParent department_rows (dp_ID m) p E s = (s2, Inr u)"
    unfolding validateDepartmentWrite_def Let_def by (auto simp: sql_ok)
  with accepted_from [OF p(1,6)] show ?thesis by simp
qed

lemma custom_departments_ok:
  "custom_departments p E s = (s', Inr y) \<Longrightarrow> ps_ID y = ps_ID p \<and> ps_ParentID y = ps_ParentID p"
  by (auto simp: custom_departments_def sql_ok split: if_splits)

lemma validatePostWrite_ok:
  assumes "validatePostWrite True m E s = (s', Inr y)"
  shows "ps_ID y = ps_ID m \<and> accepted_parent (post_rows (tx_db s)) (ps_ID m) (ps_ParentID y)"
proof -
  from assms obtain p s2 nm cd st sc where p: "authorityIdentifier (ps_ParentID m) True = Inr p"
    "validateAuthorityParent post_rows (ps_ID m) p E s = (s2, Inr ())"
    "custom_departments (m\<lparr>ps_Name := nm, ps_Code := cd, ps_ParentID := p, ps_Status := st, ps_DataScope := sc\<rparr>) E s2 = (s', Inr y)"
    unfolding validatePostWrite_def Let_def by (auto simp: sql_ok)
  with accepted_from [OF p(1,2)] custom_departments_ok [OF p(3)] show ?thesis by simp
qed

lemma PrepareDepartmentUpdate_ok:
  assumes "PrepareDepartmentUpdate True parse key (Some m) E s = (s', Inr y)"
  shows "dp_ID y \<in> dp_ID ` set (od_departments (tx_db s)) \<and> dp_ID y = strings_TrimSpace key
    \<and> accepted_parent (department_rows (tx_db s)) (dp_ID y) (dp_ParentID y)"
proof -
  from assms obtain i c where c: "authorityIdentifier key False = Inr i" "find (\<lambda>r. dp_ID r = i) (od_departments (tx_db s)) = Some c"
    "validateDepartmentWrite True parse (m\<lparr>dp_ID := dp_ID c\<rparr>) E (s\<lparr>tx_tick := Suc (tx_tick s)\<rparr>) = (s', Inr y)"
    by (auto simp: PrepareDepartmentUpdate_def sql_ok split: option.splits)
  then have k: "c \<in> set (od_departments (tx_db s))" "dp_ID c = i" by (auto simp: find_Some_iff)
  then have "i \<in> dp_ID ` set (od_departments (tx_db s))" by (metis imageI)
  with k(2) have "dp_ID c = i" "i \<in> dp_ID ` set (od_departments (tx_db s))" by simp_all
  with authorityIdentifier_ok [OF c(1)] validateDepartmentWrite_ok [OF c(3)] show ?thesis by auto
qed

lemma PreparePostUpdate_ok:
  assumes "PreparePostUpdate True key (Some m) E s = (s', Inr y)"
  shows "ps_ID y \<in> ps_ID ` set (od_posts (tx_db s)) \<and> ps_ID y = strings_TrimSpace key
    \<and> accepted_parent (post_rows (tx_db s)) (ps_ID y) (ps_ParentID y)"
proof -
  from assms obtain i c where c: "authorityIdentifier key False = Inr i" "find (\<lambda>r. ps_ID r = i) (od_posts (tx_db s)) = Some c"
    "validatePostWrite True (m\<lparr>ps_ID := ps_ID c\<rparr>) E (s\<lparr>tx_tick := Suc (tx_tick s)\<rparr>) = (s', Inr y)"
    by (auto simp: PreparePostUpdate_def sql_ok split: option.splits)
  then have k: "c \<in> set (od_posts (tx_db s))" "ps_ID c = i" by (auto simp: find_Some_iff)
  then have "i \<in> ps_ID ` set (od_posts (tx_db s))" by (metis imageI)
  with k(2) have "ps_ID c = i" "i \<in> ps_ID ` set (od_posts (tx_db s))" by simp_all
  with authorityIdentifier_ok [OF c(1)] validatePostWrite_ok [OF c(3)] show ?thesis by auto
qed

text \<open>What a successful check of a deletion has seen.\<close>

definition unused :: "(org_db \<Rightarrow> authorityHierarchyRow list) \<Rightarrow> (org_user \<Rightarrow> string) \<Rightarrow> string list \<Rightarrow> org_db \<Rightarrow> bool" where
  "unused rows col raw d \<longleftrightarrow>
     (let D = strings_TrimSpace ` set raw in
      (\<forall>r \<in> set (rows d). hr_ParentID r \<in> D \<longrightarrow> hr_ID r \<in> D) \<and> (\<forall>u \<in> set (od_users d). col u \<notin> D))"

lemma refuse_if_ok: "refuse_if (sql_query q) E s = (s', Inr u) \<Longrightarrow> \<not> q (tx_db s) \<and> tx_db s' = tx_db s"
  by (auto simp: refuse_if_def sql_ok)

lemma delete_guard_ok:
  assumes a: "authorityDeleteIDs raw = Inr is"
    and c: "refuse_if (hasExternalChildren rows is) E s1 = (s2, Inr u1)" "refuse_if (hasAuthorityReference col is) E s2 = (s3, Inr u2)"
  shows "unused rows col raw (tx_db s1)"
  using refuse_if_ok [OF c(1) [unfolded hasExternalChildren_def]] refuse_if_ok [OF c(2) [unfolded hasAuthorityReference_def]]
    authorityDeleteIDs_ok(1) [OF a]
  by (auto simp: unused_def Let_def filter_empty_conv)

lemma ensureAuthorityRows_ok: "ensureAuthorityRows rows is E s = (s', Inr u) \<Longrightarrow> tx_db s' = tx_db s"
  by (auto simp: ensureAuthorityRows_def sql_ok)

lemma ValidateDepartmentDelete_ok:
  assumes "ValidateDepartmentDelete True raw E s = (s', Inr u)"
  shows "unused department_rows us_DepartmentID raw (tx_db s)"
proof -
  from assms obtain "is" s1 s2 s3 u1 u2 where "authorityDeleteIDs raw = Inr is" "ensureAuthorityRows department_rows is E s = (s1, Inr u1)"
    "refuse_if (hasExternalChildren department_rows is) E s1 = (s2, Inr u2)" "refuse_if (hasAuthorityReference us_DepartmentID is) E s2 = (s3, Inr ())"
    by (auto simp: ValidateDepartmentDelete_def sql_ok)
  with delete_guard_ok ensureAuthorityRows_ok show ?thesis by metis
qed

lemma ValidatePostDelete_ok:
  assumes "ValidatePostDelete True raw E s = (s', Inr u)"
  shows "unused post_rows us_PostID raw (tx_db s)"
proof -
  from assms obtain "is" s1 s2 s3 u1 u2 where "authorityDeleteIDs raw = Inr is" "ensureAuthorityRows post_rows is E s = (s1, Inr u1)"
    "refuse_if (hasExternalChildren post_rows is) E s1 = (s2, Inr u2)" "refuse_if (hasAuthorityReference us_PostID is) E s2 = (s3, Inr ())"
    by (auto simp: ValidatePostDelete_def sql_ok)
  with delete_guard_ok ensureAuthorityRows_ok show ?thesis by metis
qed

section \<open>What a request does\<close>

text \<open>A write action whose hooks only read: the tables stay, or the guard accepted the model that is written.\<close>

lemma rest_create_effect:
  assumes hook: "BeforeCreate opts = Some f" "\<And>m. reads_only (f m)" and none: "AfterCreate opts = None" "AfterCommitCreate opts = None"
    and table: "\<And>m. tb_create T m = (let r = g m in sql_bind (sql_exec (ins r)) (\<lambda>_. sql_return r))" "tb_creator T = None"
    and run: "rest_create opts T who bound E s = (s', a)"
  shows "tx_db s' = tx_db s \<or> (\<exists>m s1 m1. bound = Some m \<and> f m E s = (s1, Inr m1) \<and> tx_db s' = ins (g m1) (tx_db s))"
proof (cases bound)
  case None
  with run show ?thesis by (simp add: rest_create_def)
next
  case (Some m)
  obtain s1 r where r: "f m E s = (s1, r)" by fastforce
  note same = reads_onlyD [OF hook(2) r]
  show ?thesis
  proof (cases r)
    case (Inl e)
    with run Some r same show ?thesis by (simp add: rest_create_def hook(1))
  next
    case (Inr m1)
    obtain s2 r2 where r2: "sql_transaction (create_body opts T who E m1) (tag_env WriteOperationCreate E) s1 = (s2, r2)" by fastforce
    show ?thesis
    proof (cases r2)
      case (Inl oe)
      obtain op e where "oe = (op, e)" by fastforce
      with Inl r2 sql_transaction_failed [OF r2 [unfolded Inl]] run Some r \<open>r = Inr m1\<close> same show ?thesis
        by (simp add: rest_create_def hook(1))
    next
      case (Inr m2)
      from sql_transaction_ok [OF r2 [unfolded Inr]] obtain s3 where
        b: "create_body opts T who E m1 (tag_env WriteOperationCreate E) (s1\<lparr>tx_tick := Suc (tx_tick s1)\<rparr>) = (s3, Inr m2)"
        and s3: "tx_db s2 = tx_db s3" by blast
      from b have "tx_db s3 = ins (g m1) (tx_db s1)" by (auto simp: create_body_def table none sql_ok Let_def)
      with s3 same have "tx_db s2 = ins (g m1) (tx_db s)" by simp
      with run Some r \<open>r = Inr m1\<close> r2 Inr none show ?thesis by (simp add: rest_create_def hook(1) sql_return_def)
    qed
  qed
qed

lemma sql_query_any: "sql_query f E s = (s', r) \<Longrightarrow> tx_db s' = tx_db s"
  by (rule reads_onlyD [OF reads_query])

lemma sql_exec_failed: "sql_exec f E s = (s', Inl e) \<Longrightarrow> tx_db s' = tx_db s"
  by (auto simp: sql_exec_def Let_def split: option.splits)

lemma rest_update_effect:
  assumes hook: "BeforeUpdate opts = Some f" "\<And>m. reads_only (f m)" and none: "AfterUpdate opts = None"
    and table: "tb_first T key = sql_query q" "\<And>m. tb_save T m = sql_exec (sv m)"
    and run: "rest_update opts T key bnd E s = (s', a)"
  shows "tx_db s' = tx_db s \<or> (\<exists>m s1 s2 m1. tx_db s1 = tx_db s \<and> f m E s1 = (s2, Inr m1) \<and> tx_db s' = sv m1 (tx_db s))"
proof -
  consider "tx_db s' = tx_db s"
    | s1 row m where "key \<noteq> []" "sql_query q E s = (s1, Inr (Some row))" "bnd row = Some m"
    using run by (auto simp: rest_update_def table split: if_splits prod.splits sum.splits option.splits dest: sql_query_any)
  then show ?thesis
  proof cases
    case 2
    note s1 = sql_query_any [OF 2(2)]
    obtain s2 r where r: "f m E s1 = (s2, r)" by fastforce
    note same = reads_onlyD [OF hook(2) r]
    show ?thesis
    proof (cases r)
      case (Inl e)
      with run 2 r same s1 show ?thesis by (simp add: rest_update_def table hook(1))
    next
      case (Inr m1)
      obtain s3 r3 where r3: "sql_exec (sv m1) E s2 = (s3, r3)" by fastforce
      show ?thesis
      proof (cases r3)
        case (Inl e)
        with run 2 r same s1 r3 sql_exec_failed [OF r3 [unfolded Inl]] \<open>r = Inr m1\<close> show ?thesis
          by (simp add: rest_update_def table hook(1))
      next
        case (Inr u)
        from r3 Inr have "tx_db s3 = sv m1 (tx_db s2)" by (auto simp: sql_ok)
        with run 2 r r3 Inr \<open>r = Inr m1\<close> none have "tx_db s' = sv m1 (tx_db s2)"
          by (simp add: rest_update_def table hook(1) sql_return_def)
        with same s1 r \<open>r = Inr m1\<close> show ?thesis by auto
      qed
    qed
  qed simp
qed

lemma rest_delete_effect:
  assumes hook: "BeforeDelete opts = Some f" "\<And>x. reads_only (f x)" and none: "AfterDelete opts = None"
    and table: "\<And>x. tb_delete T x = sql_exec (dl x)"
    and run: "rest_delete opts T ids E s = (s', a)"
  shows "tx_db s' = tx_db s \<or> (\<exists>s1 s2 u. tx_db s1 = tx_db s \<and> f ids E s1 = (s2, Inr u) \<and> tx_db s' = dl ids (tx_db s))"
proof (cases "ids = []")
  case True
  with run show ?thesis by (simp add: rest_delete_def)
next
  case False
  let ?body = "sql_bind (tagging E WriteOperationBeforeDelete (f ids)) (\<lambda>_. tagging E WriteOperationDelete (sql_exec (dl ids)))"
  obtain s1 r where r: "sql_transaction ?body (tag_env WriteOperationDelete E) s = (s1, r)" by fastforce
  show ?thesis
  proof (cases r)
    case (Inl oe)
    obtain op e where "oe = (op, e)" by fastforce
    with Inl r sql_transaction_failed [OF r [unfolded Inl]] run False show ?thesis by (simp add: rest_delete_def hook(1) table)
  next
    case (Inr u)
    from sql_transaction_ok [OF r [unfolded Inr]] obtain s2 where
      b: "?body (tag_env WriteOperationDelete E) (s\<lparr>tx_tick := Suc (tx_tick s)\<rparr>) = (s2, Inr u)" and s2: "tx_db s1 = tx_db s2" by blast
    from b obtain s3 v where v: "f ids E (s\<lparr>tx_tick := Suc (tx_tick s)\<rparr>) = (s3, Inr v)" "tx_db s2 = dl ids (tx_db s3)"
      by (auto simp: sql_ok)
    have "tx_db s3 = tx_db s" using reads_onlyD [OF hook(2) v(1)] by simp
    moreover have "s' = s1" using run False r Inr none by (simp add: rest_delete_def hook(1) table sql_return_def)
    ultimately have "f ids E (s\<lparr>tx_tick := Suc (tx_tick s)\<rparr>) = (s3, Inr v) \<and> tx_db s' = dl ids (tx_db s)
        \<and> tx_db (s\<lparr>tx_tick := Suc (tx_tick s)\<rparr>) = tx_db s" using v s2 by simp
    then show ?thesis by blast
  qed
qed

end
