(* ===== verification/Org_Scope.thy ===== *)
theory Org_Scope
  imports Org_Hierarchy
begin

text \<open>
  Data scopes (\<open>admin/models/user.go\<close>, \<open>department.go\<close>, \<open>post.go\<close>): the users whose rows a user may see. Errors of
  the queries are dropped by the code and leave an empty list. \<open>GetAllChildrenID\<close> recurses without a bound; the
  model takes fuel and returns no list when it runs out.
\<close>

section \<open>Descendants\<close>

text \<open>A row with the children that are loaded; rows found by a query have none.\<close>

datatype org_node = OrgNode (node_ID: string) (node_Children: "org_node list")

definition sql_try :: "'a \<Rightarrow> ('d, 'e, 'a) sql \<Rightarrow> ('d, 'e, 'a) sql" where
  "sql_try dflt m E s = (case m E s of (s1, Inl _) \<Rightarrow> (s1, Inr dflt) | (s1, Inr x) \<Rightarrow> (s1, Inr x))"

definition child_IDs :: "(org_db \<Rightarrow> authorityHierarchyRow list) \<Rightarrow> string \<Rightarrow> org_db \<Rightarrow> string list" where
  "child_IDs rows i d = map hr_ID (filter (\<lambda>r. hr_ParentID r = i) (rows d))"

definition loaded_children :: "(org_db \<Rightarrow> authorityHierarchyRow list) \<Rightarrow> org_node \<Rightarrow> org_node list org_sql" where
  "loaded_children rows e =
     (if node_Children e = [] then
        sql_bind (sql_try [] (sql_query (child_IDs rows (node_ID e)))) (\<lambda>ids. sql_return (map (\<lambda>i. OrgNode i []) ids))
      else sql_return (node_Children e))"

fun Department_GetAllChildrenID :: "nat \<Rightarrow> org_node \<Rightarrow> string list option org_sql" where
  "Department_GetAllChildrenID 0 e = sql_return None"
| "Department_GetAllChildrenID (Suc n) e =
     sql_bind (loaded_children department_rows e) (\<lambda>children.
     sql_bind (sql_each (Department_GetAllChildrenID n) children) (\<lambda>lists.
     sql_return (map_option (\<lambda>ls. node_ID e # concat ls) (those lists))))"

text \<open>\<open>hasTx\<close>: the handle is non-nil.\<close>

definition Post_children :: "bool \<Rightarrow> org_node \<Rightarrow> org_node list org_sql" where
  "Post_children hasTx e = (if node_Children e \<noteq> [] \<or> \<not> hasTx then sql_return (node_Children e) else loaded_children post_rows e)"

definition Post_GetChildrenID :: "bool \<Rightarrow> org_node \<Rightarrow> string list org_sql" where
  "Post_GetChildrenID hasTx e = sql_bind (Post_children hasTx e) (\<lambda>children. sql_return (map node_ID children))"

fun Post_GetAllChildrenID :: "nat \<Rightarrow> bool \<Rightarrow> org_node \<Rightarrow> string list option org_sql" where
  "Post_GetAllChildrenID 0 hasTx e = sql_return None"
| "Post_GetAllChildrenID (Suc n) hasTx e =
     sql_bind (Post_children hasTx e) (\<lambda>children.
     sql_bind (sql_each (Post_GetAllChildrenID n hasTx) children) (\<lambda>lists.
     sql_return (map_option (\<lambda>ls. concat (map (\<lambda>(c, l). node_ID c # l) (zip children ls))) (those lists))))"

section \<open>The creators a user may see\<close>

record userLogin =
  ul_Username :: string
  ul_PostID :: string
  ul_Post :: "(post \<times> org_node) option"
  ul_DepartmentID :: string
  ul_Department :: "org_node option"

text \<open>The list of a data scope; a nil department is dereferenced; a recursion may not end.\<close>

datatype creators = Creators (creator_list: "string list") | NilDepartment | NoEnd

definition pluck_users :: "(org_user \<Rightarrow> bool) \<Rightarrow> creators org_sql" where
  "pluck_users P = sql_bind (sql_try [] (sql_query (\<lambda>d. map us_ID (filter P (od_users d))))) (\<lambda>ids. sql_return (Creators ids))"

definition GetDepartmentUserID :: "userLogin \<Rightarrow> creators org_sql" where
  "GetDepartmentUserID e = pluck_users (\<lambda>u. us_DepartmentID u = ul_DepartmentID e)"

definition GetDepartmentAndChildrenUserID :: "nat \<Rightarrow> userLogin \<Rightarrow> creators org_sql" where
  "GetDepartmentAndChildrenUserID fuel e =
     (case ul_Department e of
        None \<Rightarrow> sql_return NilDepartment
      | Some dep \<Rightarrow>
          sql_bind (Department_GetAllChildrenID fuel dep) (\<lambda>deptIDS.
          case deptIDS of None \<Rightarrow> sql_return NoEnd | Some ids \<Rightarrow> pluck_users (\<lambda>u. us_DepartmentID u \<in> set ids)))"

definition GetCustomDepartmentUserID :: "post \<Rightarrow> creators org_sql" where
  "GetCustomDepartmentUserID p = pluck_users (\<lambda>u. us_DepartmentID u \<in> set (ps_DeptIDSArr p))"

definition GetPostAndChildrenUserID :: "org_node \<Rightarrow> creators org_sql" where
  "GetPostAndChildrenUserID n = sql_bind (Post_GetChildrenID True n) (\<lambda>postIDS. pluck_users (\<lambda>u. us_PostID u \<in> set postIDS))"

definition GetPostAndAllChildrenUserID :: "nat \<Rightarrow> userLogin \<Rightarrow> org_node \<Rightarrow> creators org_sql" where
  "GetPostAndAllChildrenUserID fuel e n =
     sql_bind (Post_GetAllChildrenID fuel True n) (\<lambda>postIDS.
     case postIDS of
       None \<Rightarrow> sql_return NoEnd
     | Some ids \<Rightarrow> pluck_users (\<lambda>u. us_PostID u \<in> set (ids @ [ul_PostID e])))"

text \<open>\<open>e.GetUserID()\<close> is here the method of \<open>UserLogin\<close>: the user name.\<close>

definition getDataScopeCreator :: "nat \<Rightarrow> userLogin \<Rightarrow> creators org_sql" where
  "getDataScopeCreator fuel e =
     (case ul_Post e of
        None \<Rightarrow> sql_return (Creators [])
      | Some (p, n) \<Rightarrow>
          if ps_DataScope p = DataScopeAll then sql_return (Creators [])
          else if ps_DataScope p = DataScopeCurrentDept then GetDepartmentUserID e
          else if ps_DataScope p = DataScopeCurrentAndChildrenDept then GetDepartmentAndChildrenUserID fuel e
          else if ps_DataScope p = DataScopeCustomDept then GetCustomDepartmentUserID p
          else if ps_DataScope p = DataScopeSelf then sql_return (Creators [ul_Username e])
          else if ps_DataScope p = DataScopeSelfAndChildren then GetPostAndChildrenUserID n
          else if ps_DataScope p = DataScopeSelfAndAllChildren then GetPostAndAllChildrenUserID fuel e n
          else sql_return (Creators []))"

text \<open>The rows of a query, by their creator, under the scope of the user; \<open>None\<close> when the code does not return.\<close>

definition data_scope :: "nat \<Rightarrow> bool \<Rightarrow> userLogin \<Rightarrow> ('r \<Rightarrow> string) \<Rightarrow> 'r list \<Rightarrow> 'r list option org_sql" where
  "data_scope fuel supportsCreator e creator rows =
     (if \<not> supportsCreator then sql_return (Some rows)
      else
        sql_bind (getDataScopeCreator fuel e) (\<lambda>c.
        case c of
          Creators ids \<Rightarrow> sql_return (Some (if ids = [] then rows else filter (\<lambda>r. creator r \<in> set ids) rows))
        | _ \<Rightarrow> sql_return None))"

section \<open>Runs without faults\<close>

text \<open>A run that cannot fail returns a function of the tables and leaves them alone.\<close>

definition no_errors :: "'e sql_env \<Rightarrow> bool" where
  "no_errors E \<longleftrightarrow> (\<forall>n. sql_error E n = None)"

definition runs_to :: "'e sql_env \<Rightarrow> ('d, 'e, 'a) sql \<Rightarrow> ('d \<Rightarrow> 'a) \<Rightarrow> bool" where
  "runs_to E m g \<longleftrightarrow> (\<forall>s. \<exists>s'. m E s = (s', Inr (g (tx_db s))) \<and> tx_db s' = tx_db s)"

named_theorems runs \<open>what a run without faults returns\<close>

lemma runs_return [runs]: "runs_to E (sql_return x) (\<lambda>_. x)"
  by (simp add: runs_to_def sql_return_def)

lemma runs_query [runs]: "no_errors E \<Longrightarrow> runs_to E (sql_query f) f"
  by (simp add: runs_to_def sql_query_def no_errors_def Let_def)

lemma runs_try [runs]: "runs_to E m g \<Longrightarrow> runs_to E (sql_try x m) g"
  unfolding runs_to_def sql_try_def by (metis (no_types, lifting) old.prod.case sum.simps(6))

lemma runs_bind: "runs_to E m g \<Longrightarrow> (\<And>d. runs_to E (f (g d)) (h d)) \<Longrightarrow> runs_to E (sql_bind m f) (\<lambda>d. h d d)"
  unfolding runs_to_def sql_bind_def by (metis (no_types, lifting) old.prod.case sum.simps(6))

lemma runs_map: "runs_to E m g \<Longrightarrow> runs_to E (sql_bind m (\<lambda>x. sql_return (k x))) (\<lambda>d. k (g d))"
  using runs_bind [of E m g "\<lambda>x. sql_return (k x)" "\<lambda>d _. k (g d)"] by (simp add: runs_return)

lemma runs_each: "(\<And>x. x \<in> set xs \<Longrightarrow> runs_to E (f x) (h x)) \<Longrightarrow> runs_to E (sql_each f xs) (\<lambda>d. map (\<lambda>x. h x d) xs)"
proof (induction xs)
  case (Cons x xs)
  have "runs_to E (sql_bind (sql_each f xs) (\<lambda>ys. sql_return (y # ys))) (\<lambda>d. y # map (\<lambda>x. h x d) xs)" for y
    by (rule runs_map) (rule Cons, simp add: Cons.prems)
  then show ?case
    using runs_bind [OF Cons.prems [of x], of "\<lambda>y. sql_bind (sql_each f xs) (\<lambda>ys. sql_return (y # ys))" "\<lambda>d d'. h x d # map (\<lambda>x. h x d') xs"]
    by simp
qed (simp add: runs_return)

lemma runs_toD: "runs_to E m g \<Longrightarrow> \<exists>s'. m E s = (s', Inr (g (tx_db s))) \<and> tx_db s' = tx_db s"
  by (simp add: runs_to_def)

end
