(* ===== verification/Org_Forest.thy ===== *)
theory Org_Forest
  imports Org_Changes Org_Scope
begin

text \<open>
  Forests: the depth of a row, acyclicity, and the recursion over children, which ends on every forest and lists
  exactly the descendants.
\<close>

section \<open>Depth\<close>

lemma rooted_unique: "rooted T rows n x \<Longrightarrow> rooted T rows m x \<Longrightarrow> n = m"
proof (induction arbitrary: m rule: rooted.induct)
  case (rooted_top x r)
  from rooted_top(4) show ?case by (cases rule: rooted.cases) (metis option.inject rooted_top(2,3))+
next
  case (rooted_up x r n)
  from rooted_up(6) show ?case by (cases rule: rooted.cases) (metis option.inject rooted_up(2,3,5))+
qed

text \<open>On the chain above a row of depth \<open>n\<close> there is a row of every smaller depth.\<close>

lemma rooted_below: "rooted T rows n x \<Longrightarrow> 0 < k \<Longrightarrow> k \<le> n \<Longrightarrow> \<exists>y \<in> hr_ID ` set rows. rooted T rows k y"
proof (induction rule: rooted.induct)
  case (rooted_top x r)
  then have "x \<in> hr_ID ` set rows" using row_of_Some by force
  moreover have "k = Suc 0" using rooted_top by simp
  ultimately show ?case using rooted.rooted_top [OF rooted_top(1-3)] by blast
next
  case (rooted_up x r n)
  show ?case
  proof (cases "k = Suc n")
    case True
    have "x \<in> hr_ID ` set rows" using row_of_Some [OF rooted_up(2)] by force
    with True rooted.rooted_up [OF rooted_up(1-4)] show ?thesis by blast
  qed (use rooted_up in simp)
qed

lemma rooted_bound: "rooted T rows n x \<Longrightarrow> n \<le> length rows"
proof -
  assume r: "rooted T rows n x"
  define pick where "pick k = (SOME y. y \<in> hr_ID ` set rows \<and> rooted T rows k y)" for k
  have p: "pick k \<in> hr_ID ` set rows \<and> rooted T rows k (pick k)" if "k \<in> {1..n}" for k
  proof -
    from that have "0 < k" "k \<le> n" by simp_all
    from rooted_below [OF r this] have "\<exists>y. y \<in> hr_ID ` set rows \<and> rooted T rows k y" by blast
    then show ?thesis unfolding pick_def by (rule someI_ex)
  qed
  then have "inj_on pick {1..n}" by (intro inj_onI) (metis rooted_unique)
  moreover have "pick ` {1..n} \<subseteq> hr_ID ` set rows" using p by blast
  ultimately have "card {1..n} \<le> card (hr_ID ` set rows)" by (metis card_image card_mono finite_imageI finite_set)
  also have "\<dots> \<le> length rows" by (metis card_image_le card_length finite_set le_trans)
  finally show ?thesis by simp
qed

lemma rooted_pos: "rooted T rows n x \<Longrightarrow> 0 < n \<and> x \<in> hr_ID ` set rows"
  by (induction rule: rooted.induct) (auto dest!: row_of_Some intro: image_eqI)

text \<open>A row of a forest is one deeper than its parent, which is a row too.\<close>

lemma forest_parent:
  assumes f: "forest rows" and r: "r \<in> set rows" "hr_ParentID r \<noteq> []"
  shows "\<exists>n. rooted {} rows n (hr_ParentID r) \<and> rooted {} rows (Suc n) (hr_ID r)"
proof -
  from f r(1) obtain n where n: "rooted {} rows n (hr_ID r)" and t: "strings_TrimSpace (hr_ParentID r) = hr_ParentID r"
    by (auto simp: forest_def)
  have row: "row_of rows (hr_ID r) = Some r" using f r(1) row_of_in by (auto simp: forest_def)
  from n show ?thesis
  proof (cases rule: rooted.cases)
    case (rooted_top q)
    with row t r(2) show ?thesis by simp
  next
    case (rooted_up q m)
    with row t n show ?thesis by auto
  qed
qed

section \<open>Acyclicity\<close>

definition parent_edges :: "authorityHierarchyRow list \<Rightarrow> (string \<times> string) set" where
  "parent_edges rows = (\<lambda>r. (hr_ID r, hr_ParentID r)) ` set rows"

definition depth :: "authorityHierarchyRow list \<Rightarrow> string \<Rightarrow> nat" where
  "depth rows x = (if \<exists>n. rooted {} rows n x then (THE n. rooted {} rows n x) else 0)"

lemma depth_rooted: "rooted {} rows n x \<Longrightarrow> depth rows x = n"
  unfolding depth_def by (metis rooted_unique the_equality)

lemma forest_acyclic:
  assumes "forest rows"
  shows "acyclic (parent_edges rows)"
proof -
  have "(y, x) \<in> measure (depth rows)" if "(x, y) \<in> parent_edges rows" for x y
  proof -
    from that obtain r where r: "r \<in> set rows" "x = hr_ID r" "y = hr_ParentID r" by (auto simp: parent_edges_def)
    show ?thesis
    proof (cases "y = []")
      case True
      have "\<not> rooted {} rows n []" for n
      proof
        assume "rooted {} rows n []"
        then have "[] \<in> hr_ID ` set rows" using rooted_pos by blast
        then show False using assms by (auto simp: forest_def)
      qed
      moreover obtain n where "rooted {} rows n x" using assms r by (auto simp: forest_def)
      ultimately show ?thesis using rooted_pos depth_rooted True by (fastforce simp: depth_def)
    next
      case False
      with forest_parent [OF assms r(1)] r obtain n where "rooted {} rows n y" "rooted {} rows (Suc n) x" by auto
      then show ?thesis by (simp add: depth_rooted)
    qed
  qed
  then have "(parent_edges rows)\<inverse> \<subseteq> measure (depth rows)" by blast
  then have "acyclic ((parent_edges rows)\<inverse>)" by (metis acyclic_subset wf_acyclic wf_measure)
  then show ?thesis by simp
qed

text \<open>Every parent is a row of the table.\<close>

lemma forest_parents: "forest rows \<Longrightarrow> r \<in> set rows \<Longrightarrow> hr_ParentID r \<noteq> [] \<Longrightarrow> hr_ParentID r \<in> hr_ID ` set rows"
  using forest_parent rooted_pos by blast

text \<open>
  The recursion over children without the database: the lists of \<open>GetAllChildrenID\<close> are those of \<open>descend\<close>, which
  has a value on every forest and lists exactly the descendants.
\<close>

section \<open>The recursion\<close>

definition kids :: "authorityHierarchyRow list \<Rightarrow> string \<Rightarrow> string list" where
  "kids rows i = map hr_ID (filter (\<lambda>r. hr_ParentID r = i) rows)"

lemma child_IDs_kids [simp]: "child_IDs rows i d = kids (rows d) i"
  by (simp add: child_IDs_def kids_def)

fun descend :: "authorityHierarchyRow list \<Rightarrow> nat \<Rightarrow> string \<Rightarrow> string list option" where
  "descend rows 0 i = None"
| "descend rows (Suc n) i =
     (let cs = kids rows i in
      map_option (\<lambda>ls. concat (map (\<lambda>(c, l). c # l) (zip cs ls))) (those (map (descend rows n) cs)))"

declare descend.simps(2) [simp del]

lemma runs_children: "no_errors E \<Longrightarrow> runs_to E (loaded_children rows (OrgNode i [])) (\<lambda>d. map (\<lambda>c. OrgNode c []) (child_IDs rows i d))"
  unfolding child_IDs_kids [symmetric] by (simp add: loaded_children_def runs_map [OF runs_try [OF runs_query]] del: child_IDs_kids)

text \<open>The recursion over the leaves that a query found.\<close>

lemma runs_leaves:
  assumes "no_errors E" and f: "\<And>c. runs_to E (f (OrgNode c [])) (h c)"
  shows "runs_to E (sql_bind (loaded_children rows (OrgNode i [])) (\<lambda>cs. sql_bind (sql_each f cs) (\<lambda>ls. sql_return (k cs ls))))
    (\<lambda>d. k (map (\<lambda>c. OrgNode c []) (child_IDs rows i d)) (map (\<lambda>c. h c d) (child_IDs rows i d)))"
proof -
  have each: "runs_to E (sql_each f (map (\<lambda>c. OrgNode c []) cs)) (\<lambda>d. map (\<lambda>c. h c d) cs)" for cs
  proof -
    have "runs_to E (f x) (h (node_ID x))" if "x \<in> set (map (\<lambda>c. OrgNode c []) cs)" for x using that f by auto
    from runs_each [where f = f and h = "\<lambda>x. h (node_ID x)", of "map (\<lambda>c. OrgNode c []) cs", OF this] show ?thesis by (simp add: comp_def)
  qed
  show ?thesis
    by (rule runs_bind [OF runs_children [OF assms(1)], where h = "\<lambda>d d'. k (map (\<lambda>c. OrgNode c []) (child_IDs rows i d)) (map (\<lambda>c. h c d') (child_IDs rows i d))"])
      (rule runs_map [OF each])
qed

lemma those_Cons: "those (map (\<lambda>c. map_option (Cons c) (f c)) cs) = map_option (\<lambda>ls. map (\<lambda>(c, l). c # l) (zip cs ls)) (those (map f cs))"
  by (induction cs) (auto simp: option.map_comp comp_def split: option.split)

lemma zip_nodes: "map (\<lambda>(c, l). node_ID c # l) (zip (map (\<lambda>c. OrgNode c []) cs) ls) = map (\<lambda>(c, l). c # l) (zip cs ls)"
  by (induction cs ls rule: list_induct2') simp_all

lemma Department_lists:
  assumes "no_errors E"
  shows "runs_to E (Department_GetAllChildrenID n (OrgNode i [])) (\<lambda>d. map_option (Cons i) (descend (department_rows d) n i))"
proof (induction n arbitrary: i)
  case (Suc n)
  from runs_leaves [where f = "Department_GetAllChildrenID n" and h = "\<lambda>c d. map_option (Cons c) (descend (department_rows d) n c)"
      and i = i, OF assms Suc.IH, where rows = department_rows and k = "\<lambda>_ ls. map_option (\<lambda>l. i # concat l) (those ls)"]
  show ?case by (simp add: descend.simps(2) Let_def those_Cons option.map_comp comp_def)
qed (simp add: runs_return)

lemma Post_lists:
  assumes "no_errors E"
  shows "runs_to E (Post_GetAllChildrenID n True (OrgNode i [])) (\<lambda>d. descend (post_rows d) n i)"
proof (induction n arbitrary: i)
  case (Suc n)
  from runs_leaves [where f = "Post_GetAllChildrenID n True" and h = "\<lambda>c d. descend (post_rows d) n c" and i = i,
      OF assms Suc.IH, where rows = post_rows and k = "\<lambda>cs ls. map_option (\<lambda>l. concat (map (\<lambda>(c, l). node_ID c # l) (zip cs l))) (those ls)"]
  show ?case by (simp add: descend.simps(2) Let_def zip_nodes Post_children_def)
qed (simp add: runs_return)

section \<open>Its value on a forest\<close>

definition child_edges :: "authorityHierarchyRow list \<Rightarrow> (string \<times> string) set" where
  "child_edges rows = (\<lambda>r. (hr_ParentID r, hr_ID r)) ` set rows"

lemma those_Some: "(\<And>c. c \<in> set cs \<Longrightarrow> f c = Some (g c)) \<Longrightarrow> those (map f cs) = Some (map g cs)"
  by (induction cs) auto

lemma concat_zip: "set (concat (map (\<lambda>(c, l). c # l) (zip cs (map g cs)))) = set cs \<union> (\<Union>c \<in> set cs. set (g c))"
  by (induction cs) auto

lemma descend_rooted:
  assumes f: "forest rows"
  shows "rooted {} rows n x \<Longrightarrow> length rows < n + fuel \<Longrightarrow>
    \<exists>ls. descend rows fuel x = Some ls \<and> set ls = {y. (x, y) \<in> (child_edges rows)\<^sup>+}"
proof (induction fuel arbitrary: n x)
  case 0
  with rooted_bound [OF 0(1)] show ?case by simp
next
  case (Suc fuel)
  let ?cs = "kids rows x"
  have kids: "c \<in> set ?cs \<longleftrightarrow> (x, c) \<in> child_edges rows" for c by (auto simp: child_edges_def kids_def)
  have "x \<noteq> []" using rooted_pos [OF Suc.prems(1)] f by (auto simp: forest_def)
  have "\<exists>ls. descend rows fuel c = Some ls \<and> set ls = {y. (c, y) \<in> (child_edges rows)\<^sup>+}" if "c \<in> set ?cs" for c
  proof -
    from that obtain r where r: "r \<in> set rows" "hr_ParentID r = x" "c = hr_ID r" by (auto simp: kids_def)
    with forest_parent [OF f r(1)] \<open>x \<noteq> []\<close> obtain m where "rooted {} rows m x" "rooted {} rows (Suc m) c" by auto
    with rooted_unique [OF Suc.prems(1)] Suc.prems(2) show ?thesis by (intro Suc.IH [of "Suc n"]) auto
  qed
  then obtain g where g: "\<And>c. c \<in> set ?cs \<Longrightarrow> descend rows fuel c = Some (g c) \<and> set (g c) = {y. (c, y) \<in> (child_edges rows)\<^sup>+}"
    by metis
  have "those (map (descend rows fuel) ?cs) = Some (map g ?cs)" by (rule those_Some) (use g in blast)
  then have d: "descend rows (Suc fuel) x = Some (concat (map (\<lambda>(c, l). c # l) (zip ?cs (map g ?cs))))"
    by (simp add: descend.simps(2) Let_def del: map_map)
  have "set ?cs = {c. (x, c) \<in> child_edges rows}" using kids by blast
  then have "set ?cs \<union> (\<Union>c \<in> set ?cs. set (g c))
      = {c. (x, c) \<in> child_edges rows} \<union> (\<Union>c \<in> {c. (x, c) \<in> child_edges rows}. {y. (c, y) \<in> (child_edges rows)\<^sup>+})"
    using g by (metis (no_types, lifting) SUP_cong)
  also have "\<dots> = {y. (x, y) \<in> (child_edges rows)\<^sup>+}" by (auto intro: trancl_into_trancl2 elim: converse_tranclE)
  finally have "set ?cs \<union> (\<Union>c \<in> set ?cs. set (g c)) = {y. (x, y) \<in> (child_edges rows)\<^sup>+}" .
  with d show ?case by (metis concat_zip)
qed

lemma descend_forest:
  assumes f: "forest rows" and "x \<noteq> []" and "length rows < fuel"
  shows "\<exists>ls. descend rows fuel x = Some ls \<and> set ls = {y. (x, y) \<in> (child_edges rows)\<^sup>+}"
proof (cases "x \<in> hr_ID ` set rows")
  case True
  then obtain n where "rooted {} rows n x" using f by (auto simp: forest_def)
  with assms(3) show ?thesis by (intro descend_rooted [OF f]) simp_all
next
  case False
  then have no: "kids rows x = []" using forest_parents [OF f] assms(2) by (auto simp: filter_empty_conv kids_def)
  then have "(x, y) \<notin> (child_edges rows)\<^sup>+" for y by (auto simp: child_edges_def filter_empty_conv kids_def elim: converse_tranclE)
  with no assms(3) show ?thesis by (cases fuel) (simp_all add: descend.simps(2))
qed

end
