(* ===== verification/Org_Guarantees.thy ===== *)
theory Org_Guarantees
  imports Org_Forest
begin

text \<open>
  The guarantees of the hierarchies and of the data scopes, and where they end: requests that interleave, batch
  deletions with padded identifiers, and scopes without any user.
\<close>

section \<open>Requests one at a time\<close>

lemma department_rows_insert:
  "department_rows (insert_department r d) = department_rows d @ [\<lparr>hr_ID = dp_ID r, hr_ParentID = dp_ParentID r, hr_Status = dp_Status r\<rparr>]"
  by (simp add: department_rows_def insert_department_def)

lemma department_rows_save:
  "dp_ID r \<in> dp_ID ` set (od_departments d) \<Longrightarrow>
     department_rows (save_department r d) = save_row \<lparr>hr_ID = dp_ID r, hr_ParentID = dp_ParentID r, hr_Status = dp_Status r\<rparr> (department_rows d)"
  by (simp add: department_rows_def save_department_def save_row_def)

lemma department_rows_delete: "department_rows (delete_departments ids d) = filter (\<lambda>r. hr_ID r \<notin> set ids) (department_rows d)"
  by (simp add: department_rows_def delete_departments_def filter_map comp_def)

lemma post_columns_key [simp]: "ps_ID (post_columns p) = ps_ID p" "ps_ParentID (post_columns p) = ps_ParentID p" "ps_Status (post_columns p) = ps_Status p"
  by (simp_all add: post_columns_def post_BeforeSave_def)

lemma post_rows_insert:
  "post_rows (insert_post r d) = post_rows d @ [\<lparr>hr_ID = ps_ID r, hr_ParentID = ps_ParentID r, hr_Status = ps_Status r\<rparr>]"
  by (simp add: post_rows_def insert_post_def)

lemma post_rows_save:
  "ps_ID r \<in> ps_ID ` set (od_posts d) \<Longrightarrow>
     post_rows (save_post r d) = save_row \<lparr>hr_ID = ps_ID r, hr_ParentID = ps_ParentID r, hr_Status = ps_Status r\<rparr> (post_rows d)"
  by (auto simp: post_rows_def save_post_def save_row_def)

lemma post_rows_delete: "post_rows (delete_posts ids d) = filter (\<lambda>r. hr_ID r \<notin> set ids) (post_rows d)"
  by (simp add: post_rows_def delete_posts_def filter_map comp_def)

lemma other_rows [simp]:
  "post_rows (insert_department r d) = post_rows d" "post_rows (save_department r d) = post_rows d"
  "post_rows (delete_departments ids d) = post_rows d" "department_rows (insert_post p d) = department_rows d"
  "department_rows (save_post p d) = department_rows d" "department_rows (delete_posts ids d) = department_rows d"
  by (simp_all add: post_rows_def department_rows_def insert_department_def save_department_def delete_departments_def
      insert_post_def save_post_def delete_posts_def)

lemmas table_rows = department_rows_insert department_rows_save department_rows_delete post_rows_insert post_rows_save post_rows_delete

text \<open>The identifier that \<open>PrepareID\<close> generates is new.\<close>

definition fresh_ID :: "string \<Rightarrow> authorityHierarchyRow list \<Rightarrow> bool" where
  "fresh_ID i rows \<longleftrightarrow> i \<noteq> [] \<and> strings_TrimSpace i = i \<and> i \<notin> hr_ID ` set rows"

text \<open>
  A request for any model and any answer. Between its check and its write no other request writes; a deletion names
  its rows without padding. Users come and go as they like.
\<close>

inductive org_change :: "org_db \<Rightarrow> org_db \<Rightarrow> bool" where
  oc_department_create: "fresh_ID newID (department_rows (tx_db s)) \<Longrightarrow>
    rest_create (department_options parse key) (department_table newID) who bnd E s = (s', a) \<Longrightarrow> org_change (tx_db s) (tx_db s')"
| oc_department_update:
    "rest_update (department_options parse key) (department_table newID) key bind E s = (s', a) \<Longrightarrow> org_change (tx_db s) (tx_db s')"
| oc_department_delete: "\<forall>i \<in> set ids. strings_TrimSpace i = i \<Longrightarrow>
    rest_delete (department_options parse key) (department_table newID) ids E s = (s', a) \<Longrightarrow> org_change (tx_db s) (tx_db s')"
| oc_post_create: "fresh_ID newID (post_rows (tx_db s)) \<Longrightarrow>
    rest_create (post_options key) (post_table newID) who bndp E s = (s', ap) \<Longrightarrow> org_change (tx_db s) (tx_db s')"
| oc_post_update:
    "rest_update (post_options key) (post_table newID) key bindp E s = (s', ap) \<Longrightarrow> org_change (tx_db s) (tx_db s')"
| oc_post_delete: "\<forall>i \<in> set ids. strings_TrimSpace i = i \<Longrightarrow>
    rest_delete (post_options key) (post_table newID) ids E s = (s', ap) \<Longrightarrow> org_change (tx_db s) (tx_db s')"
| oc_users: "org_change d (d\<lparr>od_users := us\<rparr>)"

definition forests :: "org_db \<Rightarrow> bool" where
  "forests d \<longleftrightarrow> forest (department_rows d) \<and> forest (post_rows d)"

text \<open>An accepted new row, an accepted move, and a deletion without external children, over either table.\<close>

lemma forest_accepted_insert:
  assumes "forest rows" and "fresh_ID (hr_ID r) rows" and "accepted_parent rows [] (hr_ParentID r)"
  shows "forest (rows @ [r])"
  using assms forest_insert [of rows r] by (auto simp: fresh_ID_def accepted_parent_def)

lemma forest_accepted_update:
  assumes "forest rows" and "hr_ID r \<in> hr_ID ` set rows" and "accepted_parent rows (hr_ID r) (hr_ParentID r)"
  shows "forest (save_row r rows)"
proof -
  have "{y. hr_ID r \<noteq> [] \<and> y = hr_ID r} = {hr_ID r}" using assms(1,2) by (auto simp: forest_def)
  with assms show ?thesis by (intro forest_update) (auto simp: accepted_parent_def)
qed

lemma forest_accepted_delete:
  assumes "forest (rows d)" and "unused rows col ids d" and "\<forall>i \<in> set ids. strings_TrimSpace i = i"
  shows "forest (filter (\<lambda>r. hr_ID r \<notin> set ids) (rows d))"
proof -
  have "strings_TrimSpace ` set ids = set ids" using assms(3) by (metis (no_types, lifting) image_cong image_ident)
  with assms(2) have "\<forall>r \<in> set (rows d). hr_ParentID r \<in> set ids \<longrightarrow> hr_ID r \<in> set ids" by (simp add: unused_def Let_def)
  from forest_delete [OF assms(1) this] show ?thesis .
qed

lemma PrepareDepartmentCreate_ok:
  assumes "PrepareDepartmentCreate True parse (Some m) E s = (s', Inr y)"
  shows "dp_ID y = [] \<and> accepted_parent (department_rows (tx_db s)) [] (dp_ParentID y)"
  using validateDepartmentWrite_ok [of parse "m\<lparr>dp_ID := []\<rparr>" E s s' y] assms by (simp add: PrepareDepartmentCreate_def)

lemma PreparePostCreate_ok:
  assumes "PreparePostCreate True (Some m) E s = (s', Inr y)"
  shows "ps_ID y = [] \<and> accepted_parent (post_rows (tx_db s)) [] (ps_ParentID y)"
  using validatePostWrite_ok [of "m\<lparr>ps_ID := []\<rparr>" E s s' y] assms by (simp add: PreparePostCreate_def)

text \<open>The effect of every request, from the generic actions.\<close>

lemma department_create_effect:
  assumes "rest_create (department_options parse key) (department_table newID) who bnd E s = (s', a)"
  shows "tx_db s' = tx_db s \<or> (\<exists>m s1 y. PrepareDepartmentCreate True parse (Some m) E s = (s1, Inr y)
    \<and> tx_db s' = insert_department (y\<lparr>dp_ID := prepareID newID (dp_ID y)\<rparr>) (tx_db s))"
  using rest_create_effect [where f = "\<lambda>m. PrepareDepartmentCreate True parse (Some m)", OF _ reads_prepares(1) _ _ _ _ assms, where g = "\<lambda>m. m\<lparr>dp_ID := prepareID newID (dp_ID m)\<rparr>" and ins = insert_department]
  by (simp add: department_options_def department_table_def) blast

lemma post_create_effect:
  assumes "rest_create (post_options key) (post_table newID) who bnd E s = (s', a)"
  shows "tx_db s' = tx_db s \<or> (\<exists>m s1 y. PreparePostCreate True (Some m) E s = (s1, Inr y)
    \<and> tx_db s' = insert_post (y\<lparr>ps_ID := prepareID newID (ps_ID y)\<rparr>) (tx_db s))"
  using rest_create_effect [where f = "\<lambda>m. PreparePostCreate True (Some m)", OF _ reads_prepares(2) _ _ _ _ assms, where g = "\<lambda>m. m\<lparr>ps_ID := prepareID newID (ps_ID m)\<rparr>" and ins = insert_post]
  by (simp add: post_options_def post_table_def) blast

lemma department_update_effect:
  assumes "rest_update (department_options parse key) (department_table newID) key bnd E s = (s', a)"
  shows "tx_db s' = tx_db s \<or> (\<exists>m s1 s2 y. tx_db s1 = tx_db s \<and> PrepareDepartmentUpdate True parse key (Some m) E s1 = (s2, Inr y)
    \<and> tx_db s' = save_department y (tx_db s))"
  using rest_update_effect [where f = "\<lambda>m. PrepareDepartmentUpdate True parse key (Some m)", OF _ reads_prepares(3) _ _ _ assms, where sv = save_department and q = "\<lambda>d. find (\<lambda>r. dp_ID r = key) (od_departments d)"]
  by (simp add: department_options_def department_table_def)

lemma post_update_effect:
  assumes "rest_update (post_options key) (post_table newID) key bnd E s = (s', a)"
  shows "tx_db s' = tx_db s \<or> (\<exists>m s1 s2 y. tx_db s1 = tx_db s \<and> PreparePostUpdate True key (Some m) E s1 = (s2, Inr y)
    \<and> tx_db s' = save_post y (tx_db s))"
  using rest_update_effect [where f = "\<lambda>m. PreparePostUpdate True key (Some m)", OF _ reads_prepares(4) _ _ _ assms, where sv = save_post
      and q = "\<lambda>d. map_option post_AfterFind (find (\<lambda>r. ps_ID r = key) (od_posts d))"]
  by (simp add: post_options_def post_table_def)

lemma department_delete_effect:
  assumes "rest_delete (department_options parse key) (department_table newID) ids E s = (s', a)"
  shows "tx_db s' = tx_db s \<or> (unused department_rows us_DepartmentID ids (tx_db s) \<and> tx_db s' = delete_departments ids (tx_db s))"
proof -
  have "tx_db s' = tx_db s \<or> (\<exists>s1 s2 u. tx_db s1 = tx_db s \<and> ValidateDepartmentDelete True ids E s1 = (s2, Inr u) \<and> tx_db s' = delete_departments ids (tx_db s))"
    by (rule rest_delete_effect [OF _ reads_delete_guards(1) _ _ assms]) (simp_all add: department_options_def department_table_def)
  then show ?thesis using ValidateDepartmentDelete_ok by fastforce
qed

lemma post_delete_effect:
  assumes "rest_delete (post_options key) (post_table newID) ids E s = (s', a)"
  shows "tx_db s' = tx_db s \<or> (unused post_rows us_PostID ids (tx_db s) \<and> tx_db s' = delete_posts ids (tx_db s))"
proof -
  have "tx_db s' = tx_db s \<or> (\<exists>s1 s2 u. tx_db s1 = tx_db s \<and> ValidatePostDelete True ids E s1 = (s2, Inr u) \<and> tx_db s' = delete_posts ids (tx_db s))"
    by (rule rest_delete_effect [OF _ reads_delete_guards(2) _ _ assms]) (simp_all add: post_options_def post_table_def)
  then show ?thesis using ValidatePostDelete_ok by fastforce
qed

lemma change_forests: "org_change d d' \<Longrightarrow> forests d \<Longrightarrow> forests d'"
proof (induction rule: org_change.induct)
  case (oc_department_create newID s parse key who bnd E s' a)
  from department_create_effect [OF oc_department_create(2)] show ?case
  proof
    assume "\<exists>m s1 y. PrepareDepartmentCreate True parse (Some m) E s = (s1, Inr y)
      \<and> tx_db s' = insert_department (y\<lparr>dp_ID := prepareID newID (dp_ID y)\<rparr>) (tx_db s)"
    then obtain m s1 y where y: "PrepareDepartmentCreate True parse (Some m) E s = (s1, Inr y)"
      "tx_db s' = insert_department (y\<lparr>dp_ID := prepareID newID (dp_ID y)\<rparr>) (tx_db s)" by blast
    with PrepareDepartmentCreate_ok [OF y(1)] oc_department_create(1,3) show ?thesis
      by (auto simp: forests_def table_rows prepareID_def intro!: forest_accepted_insert)
  qed (use oc_department_create in simp)
next
  case (oc_post_create newID s key who bndp E s' ap)
  from post_create_effect [OF oc_post_create(2)] show ?case
  proof
    assume "\<exists>m s1 y. PreparePostCreate True (Some m) E s = (s1, Inr y) \<and> tx_db s' = insert_post (y\<lparr>ps_ID := prepareID newID (ps_ID y)\<rparr>) (tx_db s)"
    then obtain m s1 y where y: "PreparePostCreate True (Some m) E s = (s1, Inr y)"
      "tx_db s' = insert_post (y\<lparr>ps_ID := prepareID newID (ps_ID y)\<rparr>) (tx_db s)" by blast
    with PreparePostCreate_ok [OF y(1)] oc_post_create(1,3) show ?thesis
      by (auto simp: forests_def table_rows prepareID_def intro!: forest_accepted_insert)
  qed (use oc_post_create in simp)
next
  case (oc_department_update parse key newID bind E s s' a)
  from department_update_effect [OF oc_department_update(1)] show ?case
  proof
    assume "\<exists>m s1 s2 y. tx_db s1 = tx_db s \<and> PrepareDepartmentUpdate True parse key (Some m) E s1 = (s2, Inr y) \<and> tx_db s' = save_department y (tx_db s)"
    then obtain m s1 s2 y where y: "tx_db s1 = tx_db s" "PrepareDepartmentUpdate True parse key (Some m) E s1 = (s2, Inr y)"
      "tx_db s' = save_department y (tx_db s)" by blast
    from PrepareDepartmentUpdate_ok [OF y(2), unfolded y(1)] have k: "dp_ID y \<in> dp_ID ` set (od_departments (tx_db s))"
      "accepted_parent (department_rows (tx_db s)) (dp_ID y) (dp_ParentID y)" by blast+
    then have "dp_ID y \<in> hr_ID ` set (department_rows (tx_db s))" by (simp add: department_rows_def image_image)
    with k(2) oc_department_update(2) have "forest (save_row \<lparr>hr_ID = dp_ID y, hr_ParentID = dp_ParentID y, hr_Status = dp_Status y\<rparr> (department_rows (tx_db s)))"
      by (intro forest_accepted_update) (simp_all add: forests_def)
    with oc_department_update(2) k(1) y(3) show ?thesis by (simp add: forests_def department_rows_save)
  qed (use oc_department_update in simp)
next
  case (oc_post_update key newID bindp E s s' ap)
  from post_update_effect [OF oc_post_update(1)] show ?case
  proof
    assume "\<exists>m s1 s2 y. tx_db s1 = tx_db s \<and> PreparePostUpdate True key (Some m) E s1 = (s2, Inr y) \<and> tx_db s' = save_post y (tx_db s)"
    then obtain m s1 s2 y where y: "tx_db s1 = tx_db s" "PreparePostUpdate True key (Some m) E s1 = (s2, Inr y)"
      "tx_db s' = save_post y (tx_db s)" by blast
    from PreparePostUpdate_ok [OF y(2), unfolded y(1)] have k: "ps_ID y \<in> ps_ID ` set (od_posts (tx_db s))"
      "accepted_parent (post_rows (tx_db s)) (ps_ID y) (ps_ParentID y)" by blast+
    then have "ps_ID y \<in> hr_ID ` set (post_rows (tx_db s))" by (simp add: post_rows_def image_image)
    with k(2) oc_post_update(2) have "forest (save_row \<lparr>hr_ID = ps_ID y, hr_ParentID = ps_ParentID y, hr_Status = ps_Status y\<rparr> (post_rows (tx_db s)))"
      by (intro forest_accepted_update) (simp_all add: forests_def)
    with oc_post_update(2) k(1) y(3) show ?thesis by (simp add: forests_def post_rows_save)
  qed (use oc_post_update in simp)
next
  case (oc_department_delete ids parse key newID E s s' a)
  with department_delete_effect [OF oc_department_delete(2)] forest_accepted_delete [of department_rows "tx_db s"] show ?case
    by (auto simp: forests_def table_rows)
next
  case (oc_post_delete ids key newID E s s' ap)
  with post_delete_effect [OF oc_post_delete(2)] forest_accepted_delete [of post_rows "tx_db s"] show ?case
    by (auto simp: forests_def table_rows)
qed (simp add: forests_def department_rows_def post_rows_def)

end
