(* ===== verification/Org_Properties.thy ===== *)
theory Org_Properties
  imports Org_Guarantees
begin

text \<open>The properties of departments, posts and data scopes, with concrete tables.\<close>

section \<open>Hierarchies\<close>

lemma forests_department: "forests d \<Longrightarrow> acyclic ((\<lambda>r. (dp_ID r, dp_ParentID r)) ` set (od_departments d))
    \<and> (\<forall>r \<in> set (od_departments d). dp_ParentID r = [] \<or> dp_ParentID r \<in> dp_ID ` set (od_departments d))"
proof -
  assume f: "forests d"
  have "parent_edges (department_rows d) = ((\<lambda>r. (dp_ID r, dp_ParentID r)) ` set (od_departments d))"
    by (simp add: parent_edges_def department_rows_def image_image)
  moreover have "acyclic (parent_edges (department_rows d))" using f forest_acyclic by (auto simp: forests_def)
  moreover have "\<forall>r \<in> set (department_rows d). hr_ParentID r = [] \<or> hr_ParentID r \<in> hr_ID ` set (department_rows d)"
    using f forest_parents by (auto simp: forests_def)
  ultimately show ?thesis by (simp add: department_rows_def image_image)
qed

lemma forests_post: "forests d \<Longrightarrow> acyclic ((\<lambda>r. (ps_ID r, ps_ParentID r)) ` set (od_posts d))
    \<and> (\<forall>r \<in> set (od_posts d). ps_ParentID r = [] \<or> ps_ParentID r \<in> ps_ID ` set (od_posts d))"
proof -
  assume f: "forests d"
  have "parent_edges (post_rows d) = ((\<lambda>r. (ps_ID r, ps_ParentID r)) ` set (od_posts d))"
    by (simp add: parent_edges_def post_rows_def image_image)
  moreover have "acyclic (parent_edges (post_rows d))" using f forest_acyclic by (auto simp: forests_def)
  moreover have "\<forall>r \<in> set (post_rows d). hr_ParentID r = [] \<or> hr_ParentID r \<in> hr_ID ` set (post_rows d)"
    using f forest_parents by (auto simp: forests_def)
  ultimately show ?thesis by (simp add: post_rows_def image_image)
qed


text \<open>
  C29. On sound hierarchies the recursion over children ends, within as many levels as there are rows, and returns
  the department with exactly its direct and indirect children; for a post exactly those children.
\<close>

theorem all_children_are_the_descendants:
  assumes "forests (tx_db s)" and "no_errors E" and "i \<noteq> []"
    and "length (od_departments (tx_db s)) < fuel" and "length (od_posts (tx_db s)) < fuel"
  shows "(\<exists>s' ids. Department_GetAllChildrenID fuel (OrgNode i []) E s = (s', Inr (Some ids))
        \<and> set ids = {x. (i, x) \<in> ((\<lambda>r. (dp_ParentID r, dp_ID r)) ` set (od_departments (tx_db s)))\<^sup>*})
     \<and> (\<exists>s' ids. Post_GetAllChildrenID fuel True (OrgNode i []) E s = (s', Inr (Some ids))
        \<and> set ids = {x. (i, x) \<in> ((\<lambda>r. (ps_ParentID r, ps_ID r)) ` set (od_posts (tx_db s)))\<^sup>+})"
proof -
  have e: "child_edges (department_rows (tx_db s)) = ((\<lambda>r. (dp_ParentID r, dp_ID r)) ` set (od_departments (tx_db s)))"
    "child_edges (post_rows (tx_db s)) = ((\<lambda>r. (ps_ParentID r, ps_ID r)) ` set (od_posts (tx_db s)))"
    by (simp_all add: child_edges_def department_rows_def post_rows_def image_image)
  have f: "forest (department_rows (tx_db s))" "forest (post_rows (tx_db s))" using assms(1) by (simp_all add: forests_def)
  have l: "length (department_rows (tx_db s)) < fuel" "length (post_rows (tx_db s)) < fuel"
    using assms(4,5) by (simp_all add: department_rows_def post_rows_def)
  obtain ds where ds: "descend (department_rows (tx_db s)) fuel i = Some ds" "set ds = {y. (i, y) \<in> (child_edges (department_rows (tx_db s)))\<^sup>+}"
    using descend_forest [OF f(1) assms(3) l(1)] by blast
  obtain ps where ps: "descend (post_rows (tx_db s)) fuel i = Some ps" "set ps = {y. (i, y) \<in> (child_edges (post_rows (tx_db s)))\<^sup>+}"
    using descend_forest [OF f(2) assms(3) l(2)] by blast
  have "set (i # ds) = {x. (i, x) \<in> (child_edges (department_rows (tx_db s)))\<^sup>*}" using ds(2) by (auto simp: rtrancl_eq_or_trancl)
  with runs_toD [OF Department_lists [OF assms(2), of fuel i], of s] runs_toD [OF Post_lists [OF assms(2), of fuel i], of s]
  show ?thesis using ds(1) ps e by auto
qed

section \<open>Concrete tables\<close>

definition demo_department :: "string \<Rightarrow> string \<Rightarrow> department" where
  "demo_department i p = \<lparr>dp_ID = i, dp_ParentID = p, dp_Name = ''n'', dp_LeaderID = [], dp_Phone = [], dp_Email = [], dp_Code = ''c'',
     dp_Status = Enabled, dp_Sort = 0\<rparr>"

definition demo_post :: "string \<Rightarrow> string \<Rightarrow> string \<Rightarrow> post" where
  "demo_post i p scope = \<lparr>ps_ID = i, ps_ParentID = p, ps_Name = ''n'', ps_Code = ''c'', ps_Status = Enabled, ps_Sort = 0,
     ps_DataScope = scope, ps_DeptIDS = [], ps_DeptIDSArr = []\<rparr>"

definition demo_org :: org_db where
  "demo_org = \<lparr>od_departments = [demo_department ''a'' [], demo_department ''b'' []],
     od_posts = [demo_post ''p'' [] DataScopeSelfAndAllChildren, demo_post ''q'' ''p'' DataScopeSelf],
     od_users = [\<lparr>us_ID = ''u'', us_Username = ''name'', us_DepartmentID = ''a'', us_PostID = ''p'', us_Status = Enabled\<rparr>]\<rparr>"

definition no_org_faults :: "orgerr sql_env" where
  "no_org_faults = \<lparr>sql_error = (\<lambda>_. None)\<rparr>"

definition org_start :: "org_db \<Rightarrow> org_db txn" where
  "org_start d = \<lparr>tx_db = d, tx_tick = 0\<rparr>"

lemma no_org_errors [simp]: "no_errors no_org_faults"
  by (simp add: no_errors_def no_org_faults_def)

lemma demo_trim [simp]: "strings_TrimSpace ''a'' = ''a''" "strings_TrimSpace ''b'' = ''b''" "strings_TrimSpace ''p'' = ''p''"
  "strings_TrimSpace ''q'' = ''q''" "strings_TrimSpace [] = []"
  by code_simp+

lemma demo_org_forests: "forests demo_org"
proof -
  have a: "rooted {} (department_rows demo_org) (Suc 0) ''a''"
    by (rule rooted_top [of _ _ _ "\<lparr>hr_ID = ''a'', hr_ParentID = [], hr_Status = Enabled\<rparr>"])
      (simp_all add: row_of_def department_rows_def demo_org_def demo_department_def)
  have b: "rooted {} (department_rows demo_org) (Suc 0) ''b''"
    by (rule rooted_top [of _ _ _ "\<lparr>hr_ID = ''b'', hr_ParentID = [], hr_Status = Enabled\<rparr>"])
      (simp_all add: row_of_def department_rows_def demo_org_def demo_department_def)
  have p: "rooted {} (post_rows demo_org) (Suc 0) ''p''"
    by (rule rooted_top [of _ _ _ "\<lparr>hr_ID = ''p'', hr_ParentID = [], hr_Status = Enabled\<rparr>"])
      (simp_all add: row_of_def post_rows_def demo_org_def demo_post_def)
  have q: "rooted {} (post_rows demo_org) (Suc (Suc 0)) ''q''"
    by (rule rooted_up [of _ _ _ "\<lparr>hr_ID = ''q'', hr_ParentID = ''p'', hr_Status = Enabled\<rparr>"])
      (use p in \<open>simp_all add: row_of_def post_rows_def demo_org_def demo_post_def\<close>)
  have "set (department_rows demo_org) = {\<lparr>hr_ID = ''a'', hr_ParentID = [], hr_Status = Enabled\<rparr>, \<lparr>hr_ID = ''b'', hr_ParentID = [], hr_Status = Enabled\<rparr>}"
    "set (post_rows demo_org) = {\<lparr>hr_ID = ''p'', hr_ParentID = [], hr_Status = Enabled\<rparr>, \<lparr>hr_ID = ''q'', hr_ParentID = ''p'', hr_Status = Enabled\<rparr>}"
    "distinct (map hr_ID (department_rows demo_org))" "distinct (map hr_ID (post_rows demo_org))"
    by (simp_all add: department_rows_def post_rows_def demo_org_def demo_department_def demo_post_def)
  with a b p q show ?thesis unfolding forests_def forest_def by auto
qed

text \<open>A department that moves below another.\<close>

definition accept_any :: "string \<Rightarrow> string option" where
  "accept_any s = Some s"

definition move_below :: "string \<Rightarrow> department \<Rightarrow> department option" where
  "move_below p r = Some (r\<lparr>dp_ParentID := p\<rparr>)"

lemma demo_move_runs:
  "answer_status (snd (rest_update (department_options accept_any ''a'') (department_table ''x'') ''a'' (move_below ''b'') no_org_faults (org_start demo_org))) = 200
   \<and> map dp_ParentID (od_departments (tx_db (fst (rest_update (department_options accept_any ''a'') (department_table ''x'') ''a'' (move_below ''b'')
        no_org_faults (org_start demo_org))))) = [''b'', []]"
  by code_simp


lemma all_children_are_the_descendants_witness:
  "\<exists>s' ids. Post_GetAllChildrenID 3 True (OrgNode ''p'' []) no_org_faults (org_start demo_org) = (s', Inr (Some ids))
     \<and> set ids = {x. (''p'', x) \<in> ((\<lambda>r. (ps_ParentID r, ps_ID r)) ` set (od_posts (tx_db (org_start demo_org))))\<^sup>+}"
proof -
  have "forests (tx_db (org_start demo_org))" "length (od_departments (tx_db (org_start demo_org))) < 3" "length (od_posts (tx_db (org_start demo_org))) < 3"
    using demo_org_forests by (simp_all add: org_start_def demo_org_def)
  from all_children_are_the_descendants [OF this(1) no_org_errors _ this(2,3), of "''p''"] show ?thesis by blast
qed

section \<open>Deletions\<close>

lemma custom_scope_free:
  assumes "hasPostDepartmentScopeReference ids E s = (s', Inr False)" and "p \<in> set (od_posts (tx_db s))"
    and "ps_DataScope p = DataScopeCustomDept" and "ps_DeptIDS p \<noteq> []" and "i \<in> set (strings_Split CHR '','' (ps_DeptIDS p))"
  shows "strings_TrimSpace i \<notin> set ids"
proof -
  have "ps_DeptIDS p \<in> set (custom_encodings (tx_db s))" using assms(2-4) by (auto simp: custom_encodings_def)
  with assms(1,5) show ?thesis by (auto simp: hasPostDepartmentScopeReference_def sql_ok list_ex_iff)
qed

lemma ValidateDepartmentDelete_free:
  assumes "ValidateDepartmentDelete True raw E s = (s', Inr u)" and "p \<in> set (od_posts (tx_db s))"
    and "ps_DataScope p = DataScopeCustomDept" and "ps_DeptIDS p \<noteq> []" and "i \<in> set (strings_Split CHR '','' (ps_DeptIDS p))"
  shows "strings_TrimSpace i \<notin> strings_TrimSpace ` set raw"
proof -
  from assms(1) obtain "is" s1 s2 s3 where a: "authorityDeleteIDs raw = Inr is" "ensureAuthorityRows department_rows is E s = (s1, Inr ())"
    "refuse_if (hasExternalChildren department_rows is) E s1 = (s2, Inr ())" "refuse_if (hasAuthorityReference us_DepartmentID is) E s2 = (s3, Inr ())"
    and last: "refuse_if (hasPostDepartmentScopeReference is) E s3 = (s', Inr ())"
    by (auto simp: ValidateDepartmentDelete_def sql_ok)
  have "tx_db s3 = tx_db s"
    using ensureAuthorityRows_ok [OF a(2)] refuse_if_ok [OF a(3) [unfolded hasExternalChildren_def]]
      refuse_if_ok [OF a(4) [unfolded hasAuthorityReference_def]] by simp
  moreover from last obtain s4 where "hasPostDepartmentScopeReference is E s3 = (s4, Inr False)" by (auto simp: refuse_if_def sql_ok)
  ultimately show ?thesis using custom_scope_free [of "is" E s3 s4 p i] assms(2-5) authorityDeleteIDs_ok(1) [OF a(1)] by simp
qed


lemma demo_delete_runs:
  "snd (rest_delete (department_options accept_any []) (department_table ''x'') [''b''] no_org_faults (org_start demo_org)) = response_OK ''DELETE'' None"
  by code_simp


end
