(* ===== verification/Org_Limits.thy ===== *)
theory Org_Limits
  imports Org_Properties
begin

text \<open>What a data scope selects, and the requests and scopes for which the guarantees do not hold.\<close>

section \<open>Data scopes\<close>

text \<open>The users whose rows the scope of a post selects, read off the tables.\<close>

definition selects :: "org_db \<Rightarrow> userLogin \<Rightarrow> post \<Rightarrow> string \<Rightarrow> org_user \<Rightarrow> bool" where
  "selects d e p dept u =
     (if ps_DataScope p = DataScopeCurrentDept then us_DepartmentID u = ul_DepartmentID e
      else if ps_DataScope p = DataScopeCurrentAndChildrenDept then
        (dept, us_DepartmentID u) \<in> ((\<lambda>r. (dp_ParentID r, dp_ID r)) ` set (od_departments d))\<^sup>*
      else if ps_DataScope p = DataScopeCustomDept then us_DepartmentID u \<in> set (ps_DeptIDSArr p)
      else if ps_DataScope p = DataScopeSelfAndChildren then
        (ps_ID p, us_PostID u) \<in> (\<lambda>r. (ps_ParentID r, ps_ID r)) ` set (od_posts d)
      else us_PostID u = ul_PostID e \<or> (ps_ID p, us_PostID u) \<in> ((\<lambda>r. (ps_ParentID r, ps_ID r)) ` set (od_posts d))\<^sup>+)"

lemma runs_pluck: "no_errors E \<Longrightarrow> runs_to E (pluck_users P) (\<lambda>d. Creators (map us_ID (filter P (od_users d))))"
  unfolding pluck_users_def by (rule runs_map [OF runs_try [OF runs_query]])

lemma scopes_differ:
  "DataScopeCurrentDept \<noteq> DataScopeAll" "DataScopeCurrentAndChildrenDept \<noteq> DataScopeAll" "DataScopeCustomDept \<noteq> DataScopeAll"
  "DataScopeSelfAndChildren \<noteq> DataScopeAll" "DataScopeSelfAndAllChildren \<noteq> DataScopeAll"
  "DataScopeCurrentAndChildrenDept \<noteq> DataScopeCurrentDept" "DataScopeCustomDept \<noteq> DataScopeCurrentDept"
  "DataScopeSelfAndChildren \<noteq> DataScopeCurrentDept" "DataScopeSelfAndAllChildren \<noteq> DataScopeCurrentDept"
  "DataScopeCustomDept \<noteq> DataScopeCurrentAndChildrenDept" "DataScopeSelfAndChildren \<noteq> DataScopeCurrentAndChildrenDept"
  "DataScopeSelfAndAllChildren \<noteq> DataScopeCurrentAndChildrenDept" "DataScopeSelfAndChildren \<noteq> DataScopeCustomDept"
  "DataScopeSelfAndAllChildren \<noteq> DataScopeCustomDept" "DataScopeSelfAndChildren \<noteq> DataScopeSelf"
  "DataScopeSelfAndAllChildren \<noteq> DataScopeSelf" "DataScopeSelfAndAllChildren \<noteq> DataScopeSelfAndChildren"
  by (simp_all add: data_scopes)

definition hierarchical_scopes :: "string set" where
  "hierarchical_scopes = {DataScopeCurrentDept, DataScopeCurrentAndChildrenDept, DataScopeCustomDept, DataScopeSelfAndChildren, DataScopeSelfAndAllChildren}"

lemma after_list:
  assumes "m E s = (s1, Inr ids)" and "tx_db s1 = tx_db s" and "no_errors E"
  shows "\<exists>s'. sql_bind m (\<lambda>ids. pluck_users (P ids)) E s = (s', Inr (Creators (map us_ID (filter (P ids) (od_users (tx_db s))))))"
  using runs_toD [OF runs_pluck [OF assms(3), of "P ids"], of s1] assms(1,2) by (auto simp: sql_bind_def)

lemma after_option:
  assumes "m E s = (s1, Inr (Some ids))" and "tx_db s1 = tx_db s" and "no_errors E"
  shows "\<exists>s'. sql_bind m (\<lambda>r. case r of None \<Rightarrow> sql_return NoEnd | Some ids \<Rightarrow> pluck_users (P ids)) E s
    = (s', Inr (Creators (map us_ID (filter (P ids) (od_users (tx_db s))))))"
  using runs_toD [OF runs_pluck [OF assms(3), of "P ids"], of s1] assms(1,2) by (auto simp: sql_bind_def)

lemma edges_of_rows:
  "child_edges (department_rows d) = (\<lambda>r. (dp_ParentID r, dp_ID r)) ` set (od_departments d)"
  "child_edges (post_rows d) = (\<lambda>r. (ps_ParentID r, ps_ID r)) ` set (od_posts d)"
  by (simp_all add: child_edges_def department_rows_def post_rows_def image_image)

lemma kids_edges: "i \<in> set (kids rows x) \<longleftrightarrow> (x, i) \<in> child_edges rows"
  by (auto simp: kids_def child_edges_def)

text \<open>The three hierarchical lists, as runs with a predicate on users.\<close>

lemma departments_below:
  assumes "forests (tx_db s)" and "no_errors E" and "k \<noteq> []" and "length (od_departments (tx_db s)) < fuel"
  shows "\<exists>s' ids. Department_GetAllChildrenID fuel (OrgNode k []) E s = (s', Inr (Some ids)) \<and> tx_db s' = tx_db s
    \<and> (\<forall>i. i \<in> set ids \<longleftrightarrow> (k, i) \<in> ((\<lambda>r. (dp_ParentID r, dp_ID r)) ` set (od_departments (tx_db s)))\<^sup>*)"
proof -
  have "length (department_rows (tx_db s)) < fuel" using assms(4) by (simp add: department_rows_def)
  with descend_forest [of "department_rows (tx_db s)" k fuel] assms(1,3) obtain dl where
    dl: "descend (department_rows (tx_db s)) fuel k = Some dl" "set dl = {y. (k, y) \<in> (child_edges (department_rows (tx_db s)))\<^sup>+}"
    by (auto simp: forests_def)
  then have "i \<in> set (k # dl) \<longleftrightarrow> (k, i) \<in> ((\<lambda>r. (dp_ParentID r, dp_ID r)) ` set (od_departments (tx_db s)))\<^sup>*" for i
    unfolding edges_of_rows by (auto simp: rtrancl_eq_or_trancl)
  with runs_toD [OF Department_lists [OF assms(2), of fuel k], of s] dl(1) show ?thesis by fastforce
qed

lemma posts_below:
  assumes "forests (tx_db s)" and "no_errors E" and "k \<noteq> []" and "length (od_posts (tx_db s)) < fuel"
  shows "\<exists>s' ids. Post_GetAllChildrenID fuel True (OrgNode k []) E s = (s', Inr (Some ids)) \<and> tx_db s' = tx_db s
    \<and> (\<forall>i. i \<in> set ids \<longleftrightarrow> (k, i) \<in> ((\<lambda>r. (ps_ParentID r, ps_ID r)) ` set (od_posts (tx_db s)))\<^sup>+)"
proof -
  have "length (post_rows (tx_db s)) < fuel" using assms(4) by (simp add: post_rows_def)
  with descend_forest [of "post_rows (tx_db s)" k fuel] assms(1,3) obtain pl where
    pl: "descend (post_rows (tx_db s)) fuel k = Some pl" "set pl = {y. (k, y) \<in> (child_edges (post_rows (tx_db s)))\<^sup>+}"
    by (auto simp: forests_def)
  then have "i \<in> set pl \<longleftrightarrow> (k, i) \<in> ((\<lambda>r. (ps_ParentID r, ps_ID r)) ` set (od_posts (tx_db s)))\<^sup>+" for i
    unfolding edges_of_rows by simp
  with runs_toD [OF Post_lists [OF assms(2), of fuel k], of s] pl(1) show ?thesis by fastforce
qed

lemma posts_next:
  assumes "no_errors E"
  shows "\<exists>s' ids. Post_GetChildrenID True (OrgNode k []) E s = (s', Inr ids) \<and> tx_db s' = tx_db s
    \<and> (\<forall>i. i \<in> set ids \<longleftrightarrow> (k, i) \<in> (\<lambda>r. (ps_ParentID r, ps_ID r)) ` set (od_posts (tx_db s)))"
proof -
  have "runs_to E (Post_GetChildrenID True (OrgNode k [])) (\<lambda>d. kids (post_rows d) k)"
    using runs_map [OF runs_children [OF assms], where k = "map node_ID"]
    by (simp add: Post_GetChildrenID_def Post_children_def comp_def)
  from runs_toD [OF this, of s] show ?thesis using kids_edges unfolding edges_of_rows [symmetric] by blast
qed


definition demo_login :: userLogin where
  "demo_login = \<lparr>ul_Username = ''name'', ul_PostID = ''p'', ul_Post = Some (demo_post ''p'' [] DataScopeSelfAndAllChildren, OrgNode ''p'' []),
     ul_DepartmentID = ''a'', ul_Department = Some (OrgNode ''a'' [])\<rparr>"


section \<open>Scopes without a user\<close>

lemma find_no_children:
  "\<forall>r \<in> set (od_posts (tx_db s)). ps_ParentID r \<noteq> i \<Longrightarrow>
     \<exists>s'. Post_GetChildrenID True (OrgNode i []) E s = (s', Inr [])"
  by (auto simp: Post_GetChildrenID_def Post_children_def loaded_children_def sql_bind_def sql_try_def sql_query_def Let_def
      sql_return_def child_IDs_def kids_def post_rows_def filter_map comp_def filter_empty_conv split: option.split)



section \<open>Requests that interleave\<close>

text \<open>The two departments of \<open>demo_org\<close>, each moved below the other by a request of its own.\<close>

definition moved :: "string \<Rightarrow> string \<Rightarrow> department" where
  "moved i p = (demo_department i [])\<lparr>dp_ParentID := p\<rparr>"

definition circle :: org_db where
  "circle = save_department (moved ''b'' ''a'') (save_department (moved ''a'' ''b'') demo_org)"

lemma circle_kids: "kids (department_rows circle) ''a'' = [''b'']" "kids (department_rows circle) ''b'' = [''a'']"
  by code_simp+

lemma circle_descend: "descend (department_rows circle) n ''a'' = None \<and> descend (department_rows circle) n ''b'' = None"
  by (induction n) (simp_all add: descend.simps(2) circle_kids Let_def)

lemma both_accepted:
  "snd (PrepareDepartmentUpdate True accept_any ''a'' (Some (moved ''a'' ''b'')) no_org_faults (org_start demo_org)) = Inr (moved ''a'' ''b'')"
  "snd (PrepareDepartmentUpdate True accept_any ''b'' (Some (moved ''b'' ''a'')) no_org_faults
     (fst (PrepareDepartmentUpdate True accept_any ''a'' (Some (moved ''a'' ''b'')) no_org_faults (org_start demo_org)))) = Inr (moved ''b'' ''a'')"
  by code_simp+

text \<open>
  C33. Two requests that are both checked before either is saved make a circle: the update of a department checks
  its parent outside any transaction, so of two departments each can be accepted below the other; when both are
  saved the hierarchy is cyclic, and the recursion over the children of such a department has no result, however
  long it runs.
\<close>

theorem interleaved_moves_make_a_circle:
  "\<exists>d s1 s2 x y. forests d
     \<and> PrepareDepartmentUpdate True accept_any ''a'' (Some x) no_org_faults (org_start d) = (s1, Inr x)
     \<and> PrepareDepartmentUpdate True accept_any ''b'' (Some y) no_org_faults s1 = (s2, Inr y)
     \<and> (\<forall>fuel. snd (Department_GetAllChildrenID fuel (OrgNode ''a'' []) no_org_faults
           (org_start (save_department y (save_department x (tx_db s2))))) = Inr None)"
proof -
  obtain s1 r1 where r1: "PrepareDepartmentUpdate True accept_any ''a'' (Some (moved ''a'' ''b'')) no_org_faults (org_start demo_org) = (s1, r1)"
    by (metis prod.collapse)
  obtain s2 r2 where r2: "PrepareDepartmentUpdate True accept_any ''b'' (Some (moved ''b'' ''a'')) no_org_faults s1 = (s2, r2)"
    by (metis prod.collapse)
  have ok: "r1 = Inr (moved ''a'' ''b'')" "r2 = Inr (moved ''b'' ''a'')" using both_accepted unfolding r1 fst_conv r2 snd_conv .
  have "tx_db s2 = demo_org" using reads_onlyD [OF reads_prepares(3) r1] reads_onlyD [OF reads_prepares(3) r2] by (simp add: org_start_def)
  then have c: "save_department (moved ''b'' ''a'') (save_department (moved ''a'' ''b'') (tx_db s2)) = circle" by (simp add: circle_def)
  have "snd (Department_GetAllChildrenID fuel (OrgNode ''a'' []) no_org_faults (org_start circle)) = Inr None" for fuel
    using runs_toD [OF Department_lists [OF no_org_errors, of fuel "''a''"], of "org_start circle"] circle_descend [of fuel]
    by (auto simp: org_start_def)
  with r1 r2 ok c demo_org_forests show ?thesis by metis
qed

section \<open>Padded identifiers\<close>

definition chain_org :: org_db where
  "chain_org = demo_org\<lparr>od_departments := [demo_department ''a'' [], demo_department ''b'' ''a''], od_users := []\<rparr>"

lemma padded_delete_runs:
  "case rest_delete (department_options accept_any []) (department_table ''x'') [''a'', '' b''] no_org_faults (org_start chain_org) of
     (s', answer) \<Rightarrow> answer = response_OK ''DELETE'' None \<and> od_departments (tx_db s') = [demo_department ''b'' ''a'']"
  by code_simp

text \<open>
  A batch with a padded identifier leaves an orphan: the guard trims the identifiers it is given, the delete
  statement does not, so a batch that names a department and, with a leading blank, its only child passes the check
  for children and deletes the parent alone, although the request is answered with success.
\<close>

theorem padded_batch_leaves_an_orphan:
  "\<exists>s'. rest_delete (department_options accept_any []) (department_table ''x'') [''a'', '' b''] no_org_faults (org_start chain_org)
      = (s', response_OK ''DELETE'' None)
     \<and> (\<exists>r \<in> set (od_departments (tx_db s')). dp_ParentID r = ''a'' \<and> ''a'' \<notin> dp_ID ` set (od_departments (tx_db s')))"
proof -
  obtain s' answer where e: "rest_delete (department_options accept_any []) (department_table ''x'') [''a'', '' b''] no_org_faults (org_start chain_org)
      = (s', answer)" by (metis prod.collapse)
  from padded_delete_runs [unfolded e] have "answer = response_OK ''DELETE'' None" "od_departments (tx_db s') = [demo_department ''b'' ''a'']" by simp_all
  with e show ?thesis by (simp add: demo_department_def)
qed

end
