(* ===== verification/Token_Text.thy ===== *)
theory Token_Text
  imports Go_Text
begin

text \<open>
  Decoding of the unpadded URL-safe base64 of \<open>Go_Text\<close> (\<open>encoding/base64\<close>, not strict about trailing bits), and
  the origins of \<open>admin/pkg/browsersecurity/origin.go\<close>.
\<close>

section \<open>Decoding base64\<close>

definition base64_value :: "char \<Rightarrow> nat option" where
  "base64_value c =
     (if c \<in> set base64_alphabet then Some (length (takeWhile (\<lambda>x. x \<noteq> c) base64_alphabet)) else None)"

fun base64_quanta :: "nat list \<Rightarrow> string option" where
  "base64_quanta [] = Some []"
| "base64_quanta [x] = None"
| "base64_quanta [x, y] = Some [char_of ((x * 64 + y) div 16)]"
| "base64_quanta [x, y, z] =
     (let n = (x * 64 + y) * 64 + z in Some [char_of (n div 1024), char_of (n div 4 mod 256)])"
| "base64_quanta (w # x # y # z # rest) =
     (let n = ((w * 64 + x) * 64 + y) * 64 + z
      in map_option (\<lambda>s. char_of (n div 65536) # char_of (n div 256 mod 256) # char_of (n mod 256) # s) (base64_quanta rest))"

text \<open>Line breaks are skipped; any other character outside the alphabet is an error.\<close>

definition base64_DecodeString :: "string \<Rightarrow> string option" where
  "base64_DecodeString s =
     Option.bind (those (map base64_value (filter (\<lambda>c. c \<noteq> CHR 0x0D \<and> c \<noteq> CHR 0x0A) s))) base64_quanta"

lemma base64_value_table: "list_all (\<lambda>n. base64_value (base64_alphabet ! n) = Some n) [0..<64]"
  by code_simp

lemma base64_value_char [simp]: "base64_value (base64_char n) = Some (n mod 64)"
  using base64_value_table by (simp add: base64_char_def list_all_iff)

lemma base64_char_no_break [simp]: "base64_char n \<noteq> CHR 0x0D" "base64_char n \<noteq> CHR 0x0A"
  using base64_alphabet_chars [of n] by (auto simp: base64_alphabet_def)

text \<open>The values of the characters of an encoding.\<close>

fun base64_digits :: "string \<Rightarrow> nat list" where
  "base64_digits [] = []"
| "base64_digits [a] = (let n = of_char a * 16 in [n div 64, n mod 64])"
| "base64_digits [a, b] = (let n = (of_char a * 256 + of_char b) * 4 in [n div 4096, n div 64 mod 64, n mod 64])"
| "base64_digits (a # b # c # s) =
     (let n = (of_char a * 256 + of_char b) * 256 + of_char c
      in [n div 262144, n div 4096 mod 64, n div 64 mod 64, n mod 64] @ base64_digits s)"

lemma small_two: "(a :: nat) < 256 \<Longrightarrow> a * 16 div 64 < 64"
  by simp

lemma small_three: "(a :: nat) < 256 \<Longrightarrow> b < 256 \<Longrightarrow> (a * 256 + b) * 4 div 4096 < 64"
  by simp

lemma small_four: "(a :: nat) < 256 \<Longrightarrow> b < 256 \<Longrightarrow> c < 256 \<Longrightarrow> ((a * 256 + b) * 256 + c) div 262144 < 64"
  by simp

lemma base64_values: "those (map base64_value (base64_EncodeToString s)) = Some (base64_digits s)"
proof (induction s rule: base64_EncodeToString.induct)
  case (2 a)
  have "(of_char a :: nat) * 16 div 64 mod 64 = of_char a * 16 div 64" using small_two [OF of_char_256] by (rule mod_less)
  then show ?case by (simp add: Let_def)
next
  case (3 a b)
  have "((of_char a :: nat) * 256 + of_char b) * 4 div 4096 mod 64 = (of_char a * 256 + of_char b) * 4 div 4096"
    using small_three [OF of_char_256 of_char_256] by (rule mod_less)
  then show ?case by (simp add: Let_def)
next
  case (4 a b c s)
  have "(((of_char a :: nat) * 256 + of_char b) * 256 + of_char c) div 262144 mod 64 = ((of_char a * 256 + of_char b) * 256 + of_char c) div 262144"
    using small_four [OF of_char_256 of_char_256 of_char_256] by (rule mod_less)
  with 4 show ?case by (simp add: Let_def)
qed simp

lemma join_digits:
  "(n :: nat) div 64 * 64 + n mod 64 = n"
  "(n div 4096 * 64 + n div 64 mod 64) * 64 + n mod 64 = n"
  "((n div 262144 * 64 + n div 4096 mod 64) * 64 + n div 64 mod 64) * 64 + n mod 64 = n"
proof -
  have a: "n div 4096 = n div 64 div 64" "n div 262144 = n div 64 div 64 div 64" by (simp_all add: div_mult2_eq [symmetric])
  show "n div 64 * 64 + n mod 64 = n" by simp
  show "(n div 4096 * 64 + n div 64 mod 64) * 64 + n mod 64 = n" unfolding a by simp
  show "((n div 262144 * 64 + n div 4096 mod 64) * 64 + n div 64 mod 64) * 64 + n mod 64 = n" unfolding a by simp
qed

lemma bytes_of:
  assumes "(a :: nat) < 256" "b < 256" "c < 256"
  shows "a * 16 div 16 = a" "(a * 256 + b) * 4 div 1024 = a" "(a * 256 + b) * 4 div 4 mod 256 = b"
    "((a * 256 + b) * 256 + c) div 65536 = a" "((a * 256 + b) * 256 + c) div 256 mod 256 = b" "((a * 256 + b) * 256 + c) mod 256 = c"
proof -
  have "((a * 256 + b) * 256 + c) div 256 = a * 256 + b" using assms(3) by (simp only: div_mult_self3 div_less add_0_right)
  then show "((a * 256 + b) * 256 + c) div 256 mod 256 = b" using assms(2) by (simp only: mod_mult_self3 mod_less)
  show "((a * 256 + b) * 256 + c) mod 256 = c" using assms(3) by (simp only: mod_mult_self3 mod_less)
qed (use assms in simp_all)

lemma base64_quanta_digits: "base64_quanta (base64_digits s) = Some s"
proof (induction s rule: base64_EncodeToString.induct)
  case (2 a)
  show ?case by (simp only: base64_digits.simps base64_quanta.simps Let_def join_digits bytes_of [OF of_char_256 of_char_256 of_char_256] char_of_char)
next
  case (3 a b)
  show ?case by (simp only: base64_digits.simps base64_quanta.simps Let_def join_digits bytes_of [OF of_char_256 of_char_256 of_char_256] char_of_char)
next
  case (4 a b c s)
  then show ?case
    by (simp only: base64_digits.simps base64_quanta.simps append.simps Let_def join_digits bytes_of [OF of_char_256 of_char_256 of_char_256]
        char_of_char option.map)
qed simp

lemma base64_round_trip: "base64_DecodeString (base64_EncodeToString s) = Some s"
proof -
  have "c \<noteq> CHR 0x0D \<and> c \<noteq> CHR 0x0A" if "c \<in> set (base64_EncodeToString s)" for c
    using that set_base64 [of s] by (auto simp: base64_alphabet_def)
  then have "filter (\<lambda>c. c \<noteq> CHR 0x0D \<and> c \<noteq> CHR 0x0A) (base64_EncodeToString s) = base64_EncodeToString s" by (simp add: filter_id_conv)
  then show ?thesis by (simp add: base64_DecodeString_def base64_values base64_quanta_digits)
qed

lemma base64_inj: "base64_EncodeToString s = base64_EncodeToString t \<longleftrightarrow> s = t"
  using base64_round_trip by (metis option.inject)

section \<open>Origins\<close>

text \<open>\<open>url.Parse\<close> is a parameter; this is what the code reads of its result.\<close>

record parsedURL =
  url_Scheme :: string
  url_Opaque :: string
  url_HasUser :: bool
  url_Host :: string
  url_Path :: string
  url_RawPath :: string
  url_RawQuery :: string
  url_Fragment :: string
  url_Hostname :: string
  url_Port :: string

definition net_JoinHostPort :: "string \<Rightarrow> string \<Rightarrow> string" where
  "net_JoinHostPort host port = (if CHR '':'' \<in> set host then ''['' @ host @ '']:'' @ port else host @ '':'' @ port)"

definition origin_URL :: "parsedURL \<Rightarrow> bool" where
  "origin_URL u \<longleftrightarrow> url_Opaque u = [] \<and> \<not> url_HasUser u \<and> url_Host u \<noteq> [] \<and> url_Scheme u \<in> {''http'', ''https''}
     \<and> url_Path u \<in> {[], ''/''} \<and> url_RawPath u = [] \<and> url_RawQuery u = [] \<and> url_Fragment u = []"

definition origin_host :: "string \<Rightarrow> string \<Rightarrow> string" where
  "origin_host hostname port =
     (if port \<noteq> [] then net_JoinHostPort hostname port
      else if CHR '':'' \<in> set hostname then ''['' @ hostname @ '']'' else hostname)"

definition NormalizeOrigin :: "(string \<Rightarrow> parsedURL option) \<Rightarrow> string \<Rightarrow> string option" where
  "NormalizeOrigin parse raw =
     (let v = strings_TrimSpace raw in
      if v = [] \<or> v = ''*'' \<or> strings_ContainsAny v [CHR 0x0D, CHR 0x0A, CHR 0x00] then None
      else
        (case parse v of
           None \<Rightarrow> None
         | Some u \<Rightarrow>
             if \<not> origin_URL u then None
             else
               (let hostname = strings_ToLower (url_Hostname u);
                    port = (if url_Scheme u = ''http'' \<and> url_Port u = ''80'' \<or> url_Scheme u = ''https'' \<and> url_Port u = ''443'' then [] else url_Port u) in
                if hostname = [] then None
                else Some (strings_ToLower (url_Scheme u) @ ''://'' @ origin_host hostname port))))"

definition IsTrustedOrigin :: "(string \<Rightarrow> parsedURL option) \<Rightarrow> string \<Rightarrow> string \<Rightarrow> string list \<Rightarrow> bool" where
  "IsTrustedOrigin parse origin applicationOrigin corsOrigins =
     (case NormalizeOrigin parse origin of
        None \<Rightarrow> False
      | Some normalized \<Rightarrow> list_ex (\<lambda>candidate. NormalizeOrigin parse candidate = Some normalized) (applicationOrigin # corsOrigins))"

fun trusted_loop :: "(string \<Rightarrow> parsedURL option) \<Rightarrow> string list \<Rightarrow> string list \<Rightarrow> string list" where
  "trusted_loop parse seen [] = []"
| "trusted_loop parse seen (candidate # rest) =
     (case NormalizeOrigin parse candidate of
        None \<Rightarrow> trusted_loop parse seen rest
      | Some n \<Rightarrow> if n \<in> set seen then trusted_loop parse seen rest else n # trusted_loop parse (n # seen) rest)"

definition TrustedOrigins :: "(string \<Rightarrow> parsedURL option) \<Rightarrow> string list \<Rightarrow> string list" where
  "TrustedOrigins parse configured = trusted_loop parse [] configured"

lemma trusted_loop_set: "set (trusted_loop parse seen cs) = {n. \<exists>c \<in> set cs. NormalizeOrigin parse c = Some n} - set seen"
proof (induction parse seen cs rule: trusted_loop.induct)
  case (2 parse seen c rest)
  then show ?case by (cases "NormalizeOrigin parse c") auto
qed simp

lemma trusted_loop_distinct: "distinct (trusted_loop parse seen cs)"
proof (induction parse seen cs rule: trusted_loop.induct)
  case (2 parse seen c rest)
  then show ?case by (cases "NormalizeOrigin parse c") (auto simp: trusted_loop_set)
qed simp

text \<open>The credentialed CORS list and the check agree.\<close>

lemma IsTrustedOrigin_iff:
  "IsTrustedOrigin parse origin app cors \<longleftrightarrow>
     (\<exists>n. NormalizeOrigin parse origin = Some n \<and> n \<in> set (TrustedOrigins parse (app # cors)))"
  by (auto simp: IsTrustedOrigin_def TrustedOrigins_def trusted_loop_set list_ex_iff split: option.split)

end
