(* ===== verification/Token_Store.thy ===== *)
theory Token_Store
  imports Token_Text
begin

text \<open>
  The stores behind one-time tokens (\<open>admin/pkg/wsticket/store.go\<close>, \<open>admin/pkg/oauthstate/store.go\<close>): a Redis that
  all replicas share when a client is configured, and a map of the process otherwise. The locale
  \<open>one_time_store\<close> states what \<open>Issue\<close> and \<open>Consume\<close> rely on: an entry that is taken is gone, and an entry that is
  not taken stays until it expires. Clocks do not go back; the results of the Redis calls, the random source,
  SHA-256 and JSON are given by the environment.
\<close>

section \<open>State and environment\<close>

datatype token_error =
  ErrTokenNotFound | ErrTokenExpired | TtlNotPositive | TokenStoreNil | IdentityRequired | OriginInvalid | ProviderRequired
| EncodeFailed | DecodeFailed | RandomFailed | StoreFailed nat | KeyMissing | NotUnique | Unvalidated token_error

text \<open>The bytes of an entry: the encoding of a record, none at all, or something that does not decode.\<close>

datatype 'r payload = Encoded 'r | Blank | Garbage

text \<open>A Redis call is answered, fails before it is applied, or is applied and its answer is lost.\<close>

datatype redis_reply = Answered | NotApplied nat | AnswerLost nat

text \<open>
  \<open>te_random\<close> gives the bytes of a draw, or none when the read fails; \<open>te_json\<close> what a record is after it was encoded
  and decoded, or none when it cannot be encoded. Everything is indexed by the step at which it is read.
\<close>

record 'r token_env =
  te_start :: int
  te_elapsed :: "nat \<Rightarrow> nat"
  te_server_start :: int
  te_server_elapsed :: "nat \<Rightarrow> nat"
  te_random :: "nat \<Rightarrow> (nat \<Rightarrow> char) option"
  te_reply :: "nat \<Rightarrow> redis_reply"
  te_json :: "'r \<Rightarrow> 'r option"
  te_digest :: "string \<Rightarrow> string"

record 'r token_store =
  ts_local :: "string \<Rightarrow> ('r payload \<times> int) option"
  ts_redis :: "string \<Rightarrow> ('r payload \<times> int) option"
  ts_tick :: nat

definition local_clock :: "'r token_env \<Rightarrow> nat \<Rightarrow> int" where
  "local_clock E n = te_start E + int (sum_list (map (te_elapsed E) [0..<n]))"

definition server_clock :: "'r token_env \<Rightarrow> nat \<Rightarrow> int" where
  "server_clock E n = te_server_start E + int (sum_list (map (te_server_elapsed E) [0..<n]))"

lemma clock_Suc: "sum_list (map f [0..<n]) \<le> sum_list (map f [0..<Suc n])" for f :: "nat \<Rightarrow> nat"
  by simp

lemma clocks_mono: "m \<le> n \<Longrightarrow> local_clock E m \<le> local_clock E n" "m \<le> n \<Longrightarrow> server_clock E m \<le> server_clock E n"
  unfolding local_clock_def server_clock_def by (induction n rule: dec_induct) auto

section \<open>The two stores\<close>

definition sweepExpiredLocked :: "int \<Rightarrow> (string \<Rightarrow> ('r payload \<times> int) option) \<Rightarrow> string \<Rightarrow> ('r payload \<times> int) option" where
  "sweepExpiredLocked now m k = (case m k of None \<Rightarrow> None | Some (p, e) \<Rightarrow> if now < e then Some (p, e) else None)"

text \<open>\<open>SET NX PX\<close> on the shared Redis, whose keys expire by its own clock.\<close>

definition redis_set_nx :: "'r token_env \<Rightarrow> string \<Rightarrow> 'r payload \<Rightarrow> int \<Rightarrow> 'r token_store \<Rightarrow> 'r token_store \<times> bool" where
  "redis_set_nx E key p ttl s =
     (let now = server_clock E (ts_tick s) in
      if sweepExpiredLocked now (ts_redis s) key = None then (s\<lparr>ts_redis := (ts_redis s)(key \<mapsto> (p, now + ttl))\<rparr>, True) else (s, False))"

text \<open>The script: \<open>GET\<close>, then \<open>DEL\<close> of what was found.\<close>

definition redis_get_del :: "'r token_env \<Rightarrow> string \<Rightarrow> 'r token_store \<Rightarrow> 'r token_store \<times> 'r payload option" where
  "redis_get_del E key s =
     (s\<lparr>ts_redis := (ts_redis s)(key := None)\<rparr>, map_option fst (sweepExpiredLocked (server_clock E (ts_tick s)) (ts_redis s) key))"

definition redis_call :: "'r token_env \<Rightarrow> ('r token_store \<Rightarrow> 'r token_store \<times> 'a) \<Rightarrow> 'r token_store \<Rightarrow> 'r token_store \<times> (token_error + 'a)" where
  "redis_call E f s =
     (let next = (\<lambda>s'. s'\<lparr>ts_tick := Suc (ts_tick s)\<rparr>) in
      case te_reply E (ts_tick s) of
        Answered \<Rightarrow> (next (fst (f s)), Inr (snd (f s)))
      | NotApplied e \<Rightarrow> (next s, Inl (StoreFailed e))
      | AnswerLost e \<Rightarrow> (next (fst (f s)), Inl (StoreFailed e)))"

text \<open>
  \<open>Result()\<close> of the script has the value and the error: no value with any error, and the error \<open>redis.Nil\<close>
  (\<open>KeyMissing\<close>) when the key was not there. \<open>getAndDelete\<close> looks at the value first.
\<close>

definition eval_Result :: "token_error + 'p option \<Rightarrow> 'p option \<times> token_error option" where
  "eval_Result r = (case r of Inl e \<Rightarrow> (None, Some e) | Inr None \<Rightarrow> (None, Some KeyMissing) | Inr (Some p) \<Rightarrow> (Some p, None))"

definition taken_value :: "'p option \<times> token_error option \<Rightarrow> token_error + 'p option" where
  "taken_value r =
     (case r of (v, err) \<Rightarrow>
        if err = Some KeyMissing \<or> v = None then Inr None
        else (case err of Some e \<Rightarrow> Inl e | None \<Rightarrow> Inr v))"

definition redis_take :: "'r token_env \<Rightarrow> string \<Rightarrow> 'r token_store \<Rightarrow> 'r token_store \<times> (token_error + 'r payload option)" where
  "redis_take E key s = (case redis_call E (redis_get_del E key) s of (s1, r) \<Rightarrow> (s1, taken_value (eval_Result r)))"

text \<open>\<open>setNX\<close> of a ticket; the clock is read for the sweep and for the expiry.\<close>

definition ticket_setNX :: "'r token_env \<Rightarrow> bool \<Rightarrow> string \<Rightarrow> 'r payload \<Rightarrow> int \<Rightarrow> 'r token_store \<Rightarrow> 'r token_store \<times> (token_error + bool)" where
  "ticket_setNX E client key p ttl s =
     (if client then redis_call E (redis_set_nx E key p ttl) s
      else
        (let swept = sweepExpiredLocked (local_clock E (ts_tick s)) (ts_local s);
             s1 = s\<lparr>ts_local := swept, ts_tick := ts_tick s + 2\<rparr> in
         if swept key \<noteq> None then (s1, Inr False)
         else (s1\<lparr>ts_local := swept(key \<mapsto> (p, local_clock E (ts_tick s + 1) + ttl))\<rparr>, Inr True)))"

definition ticket_getAndDelete :: "'r token_env \<Rightarrow> bool \<Rightarrow> string \<Rightarrow> 'r token_store \<Rightarrow> 'r token_store \<times> (token_error + 'r payload option)" where
  "ticket_getAndDelete E client key s =
     (if client then redis_take E key s
      else
        (case ts_local s key of
           None \<Rightarrow> (s, Inr None)
         | Some (p, e) \<Rightarrow> (s\<lparr>ts_local := (ts_local s)(key := None)\<rparr>, Inr (Some p))))"

text \<open>The store of OAuth states reads the clock once more, and returns an expired entry all the same.\<close>

definition state_setNX :: "'r token_env \<Rightarrow> bool \<Rightarrow> string \<Rightarrow> 'r payload \<Rightarrow> int \<Rightarrow> 'r token_store \<Rightarrow> 'r token_store \<times> (token_error + bool)" where
  "state_setNX E client key p ttl s =
     (if client then redis_call E (redis_set_nx E key p ttl) s
      else
        (let swept = sweepExpiredLocked (local_clock E (ts_tick s)) (ts_local s) in
         if swept key \<noteq> None then (s\<lparr>ts_local := swept, ts_tick := ts_tick s + 1\<rparr>, Inr False)
         else (s\<lparr>ts_local := swept(key \<mapsto> (p, local_clock E (ts_tick s + 1) + ttl)), ts_tick := ts_tick s + 2\<rparr>, Inr True)))"

definition state_getAndDelete :: "'r token_env \<Rightarrow> bool \<Rightarrow> string \<Rightarrow> 'r token_store \<Rightarrow> 'r token_store \<times> (token_error + 'r payload option)" where
  "state_getAndDelete E client key s =
     (if client then redis_take E key s
      else
        (case ts_local s key of
           None \<Rightarrow> (s, Inr None)
         | Some (p, e) \<Rightarrow>
             (let s1 = s\<lparr>ts_local := (ts_local s)(key := None), ts_tick := Suc (ts_tick s)\<rparr> in
              if \<not> local_clock E (ts_tick s) < e then (s1, Inr (Some p)) else (s1, Inr (Some p)))))"

definition pass_time :: "nat \<Rightarrow> 'r token_store \<Rightarrow> 'r token_store" where
  "pass_time n s = s\<lparr>ts_tick := ts_tick s + n\<rparr>"

section \<open>The contract\<close>

datatype 'p store_call = PutCall string 'p int | TakeCall string | PassCall nat

fun run_call :: "(string \<Rightarrow> 'p \<Rightarrow> int \<Rightarrow> 's \<Rightarrow> 's \<times> 'a) \<Rightarrow> (string \<Rightarrow> 's \<Rightarrow> 's \<times> 'b) \<Rightarrow> (nat \<Rightarrow> 's \<Rightarrow> 's) \<Rightarrow> 'p store_call \<Rightarrow> 's \<Rightarrow> 's" where
  "run_call put get pass (PutCall k p t) s = fst (put k p t s)"
| "run_call put get pass (TakeCall k) s = fst (get k s)"
| "run_call put get pass (PassCall n) s = pass n s"

definition run_calls :: "(string \<Rightarrow> 'p \<Rightarrow> int \<Rightarrow> 's \<Rightarrow> 's \<times> 'a) \<Rightarrow> (string \<Rightarrow> 's \<Rightarrow> 's \<times> 'b) \<Rightarrow> (nat \<Rightarrow> 's \<Rightarrow> 's) \<Rightarrow> 'p store_call list \<Rightarrow> 's \<Rightarrow> 's" where
  "run_calls put get pass calls s = fold (run_call put get pass) calls s"

locale one_time_store =
  fixes put :: "string \<Rightarrow> 'p \<Rightarrow> int \<Rightarrow> 's \<Rightarrow> 's \<times> (token_error + bool)"
    and get :: "string \<Rightarrow> 's \<Rightarrow> 's \<times> (token_error + 'p option)"
    and pass :: "nat \<Rightarrow> 's \<Rightarrow> 's"
    and entry :: "'s \<Rightarrow> string \<Rightarrow> ('p \<times> int) option"
    and clock :: "'s \<Rightarrow> int"
    and reachable :: "'s \<Rightarrow> bool"
  assumes put_other: "put k p t s = (s', r) \<Longrightarrow> j \<noteq> k \<Longrightarrow> entry s' j = entry s j \<or> entry s' j = None"
    and put_live: "put k p t s = (s', r) \<Longrightarrow> j \<noteq> k \<Longrightarrow> entry s j = Some (q, e) \<Longrightarrow> clock s' < e \<Longrightarrow> entry s' j = Some (q, e)"
    and put_created: "put k p t s = (s', Inr True) \<Longrightarrow> \<exists>e. entry s' k = Some (p, e) \<and> clock s + t \<le> e"
    and get_found: "get k s = (s', Inr (Some p)) \<Longrightarrow> \<exists>e. entry s k = Some (p, e)"
    and get_gone: "get k s = (s', Inr (Some p)) \<Longrightarrow> entry s' k = None"
    and get_other: "get k s = (s', g) \<Longrightarrow> j \<noteq> k \<Longrightarrow> entry s' j = entry s j"
    and get_keeps_none: "get k s = (s', g) \<Longrightarrow> entry s k = None \<Longrightarrow> entry s' k = None"
    and get_live: "get k s = (s', g) \<Longrightarrow> entry s k = Some (p, e) \<Longrightarrow> clock s < e \<Longrightarrow> reachable s \<Longrightarrow> g = Inr (Some p)"
    and get_answers: "get k s = (s', g) \<Longrightarrow> \<exists>v. g = Inr v"
    and pass_entry: "entry (pass n s) = entry s"
    and clock_put: "put k p t s = (s', r) \<Longrightarrow> clock s \<le> clock s'"
    and clock_get: "get k s = (s', g) \<Longrightarrow> clock s \<le> clock s'"
    and clock_pass: "clock s \<le> clock (pass n s)"
begin

text \<open>Nothing brings an entry back but a put of its key.\<close>

lemma gone_stays_gone:
  assumes "entry s k = None" and "\<And>p t. PutCall k p t \<notin> set calls"
  shows "entry (run_calls put get pass calls s) k = None"
  using assms
proof (induction calls arbitrary: s)
  case (Cons c calls)
  have "entry (run_call put get pass c s) k = None"
  proof (cases c)
    case (PutCall j p t)
    obtain s' r where "put j p t s = (s', r)" by fastforce
    with PutCall Cons.prems put_other [of j p t s s' r k] show ?thesis by auto
  next
    case (TakeCall j)
    obtain s' r where g: "get j s = (s', r)" by fastforce
    show ?thesis
      using TakeCall Cons.prems g get_other [OF g, of k] get_keeps_none [of k s s' r] by (cases "j = k") auto
  qed (use Cons.prems in \<open>simp add: pass_entry\<close>)
  with Cons.IH Cons.prems(2) show ?case by (auto simp: run_calls_def)
qed (simp add: run_calls_def)

lemma run_clock: "clock s \<le> clock (run_calls put get pass calls s)"
proof (induction calls arbitrary: s)
  case (Cons c calls)
  have "clock s \<le> clock (run_call put get pass c s)"
  proof (cases c)
    case (PutCall j p t)
    obtain s' r where "put j p t s = (s', r)" by fastforce
    with PutCall clock_put [of j p t s s' r] show ?thesis by simp
  next
    case (TakeCall j)
    obtain s' r where "get j s = (s', r)" by fastforce
    with TakeCall clock_get [of j s s' r] show ?thesis by simp
  qed (simp add: clock_pass)
  with Cons.IH [of "run_call put get pass c s"] show ?case by (simp add: run_calls_def)
qed (simp add: run_calls_def)

text \<open>An entry that nobody names stays until it expires.\<close>

lemma unnamed_stays:
  assumes "entry s k = Some (p, e)" and "\<And>q t. PutCall k q t \<notin> set calls" and "TakeCall k \<notin> set calls"
    and "clock (run_calls put get pass calls s) < e"
  shows "entry (run_calls put get pass calls s) k = Some (p, e)"
  using assms
proof (induction calls arbitrary: s)
  case (Cons c calls)
  let ?s1 = "run_call put get pass c s"
  have "clock ?s1 < e" using run_clock [of ?s1 calls] Cons.prems(4) by (simp add: run_calls_def)
  then have "entry ?s1 k = Some (p, e)"
  proof (cases c)
    case (PutCall j q t)
    obtain s' r where "put j q t s = (s', r)" by fastforce
    with PutCall Cons.prems \<open>clock ?s1 < e\<close> put_live [of j q t s s' r k p e] show ?thesis by auto
  next
    case (TakeCall j)
    obtain s' r where "get j s = (s', r)" by fastforce
    with TakeCall Cons.prems get_other [of j s s' r k] show ?thesis by auto
  qed (use Cons.prems in \<open>simp add: pass_entry\<close>)
  with Cons.IH [of ?s1] Cons.prems(2-4) show ?case by (auto simp: run_calls_def)
qed (simp add: run_calls_def)

text \<open>What was taken once is not taken again, and what was put is what is taken.\<close>

lemma taken_once:
  assumes "get k s = (s1, Inr (Some p))" and "\<And>q t. PutCall k q t \<notin> set calls" and "get k (run_calls put get pass calls s1) = (s2, r)"
  shows "r = Inr None"
proof -
  have "entry (run_calls put get pass calls s1) k = None" by (rule gone_stays_gone [OF get_gone [OF assms(1)] assms(2)])
  moreover obtain v where "r = Inr v" using get_answers [OF assms(3)] by blast
  ultimately show ?thesis using assms(3) get_found by (cases v) fastforce+
qed

lemma put_then_get:
  assumes "put k p t s = (s1, Inr True)" and "\<And>q u. PutCall k q u \<notin> set calls" and "TakeCall k \<notin> set calls"
    and "clock (run_calls put get pass calls s1) < clock s + t" and "reachable (run_calls put get pass calls s1)"
    and "get k (run_calls put get pass calls s1) = (s2, r)"
  shows "r = Inr (Some p)"
proof -
  from put_created [OF assms(1)] obtain e where e: "entry s1 k = Some (p, e)" "clock s + t \<le> e" by blast
  with assms(4) have "clock (run_calls put get pass calls s1) < e" by simp
  from get_live [OF assms(6) unnamed_stays [OF e(1) assms(2,3) this] this assms(5)] show ?thesis .
qed

end

section \<open>Both stores keep the contract\<close>

definition store_entry :: "bool \<Rightarrow> 'r token_store \<Rightarrow> string \<Rightarrow> ('r payload \<times> int) option" where
  "store_entry client s = (if client then ts_redis s else ts_local s)"

definition store_clock :: "'r token_env \<Rightarrow> bool \<Rightarrow> 'r token_store \<Rightarrow> int" where
  "store_clock E client s = (if client then server_clock E (ts_tick s) else local_clock E (ts_tick s))"

definition store_reachable :: "'r token_env \<Rightarrow> bool \<Rightarrow> 'r token_store \<Rightarrow> bool" where
  "store_reachable E client s \<longleftrightarrow> (client \<longrightarrow> te_reply E (ts_tick s) = Answered)"

lemmas store_defs = store_entry_def store_clock_def store_reachable_def redis_call_def redis_set_nx_def redis_get_del_def
  redis_take_def eval_Result_def taken_value_def pass_time_def Let_def

lemma swept_None: "m k = None \<Longrightarrow> sweepExpiredLocked now m k = None"
  by (simp add: sweepExpiredLocked_def)

lemma swept_cases: "sweepExpiredLocked now m k = m k \<or> sweepExpiredLocked now m k = None"
  by (auto simp: sweepExpiredLocked_def split: option.split)

lemma swept_live: "m k = Some (p, e) \<Longrightarrow> now < e \<Longrightarrow> sweepExpiredLocked now m k = Some (p, e)"
  by (simp add: sweepExpiredLocked_def)

lemma swept_Some: "sweepExpiredLocked now m k = Some x \<Longrightarrow> m k = Some x"
  by (auto simp: sweepExpiredLocked_def split: option.splits if_splits)

text \<open>
  The two stores are interpretations of \<open>one_time_store\<close>, with a client and without one. The last law of each group
  is that no call fails in \<open>getAndDelete\<close>: a failed script has no value, and no value is an absent entry.
\<close>

lemma clock_step: "store_clock E client s \<le> store_clock E client s'" if "ts_tick s \<le> ts_tick s'"
  using clocks_mono that by (auto simp: store_clock_def)

lemma redis_put_tick: "redis_call E f s = (s', r) \<Longrightarrow> ts_tick s' = Suc (ts_tick s)"
  by (auto simp: redis_call_def Let_def split: redis_reply.splits)

lemma ticket_tick:
  "ts_tick s \<le> ts_tick (fst (ticket_setNX E client k p t s))" "ts_tick s \<le> ts_tick (fst (ticket_getAndDelete E client k s))"
  by (auto simp: ticket_setNX_def ticket_getAndDelete_def redis_take_def redis_call_def Let_def split: redis_reply.split option.split prod.split)

lemma state_tick:
  "ts_tick s \<le> ts_tick (fst (state_setNX E client k p t s))" "ts_tick s \<le> ts_tick (fst (state_getAndDelete E client k s))"
  by (auto simp: state_setNX_def state_getAndDelete_def redis_take_def redis_call_def Let_def split: redis_reply.split option.split prod.split)

lemma redis_put_entry:
  assumes "redis_call E (redis_set_nx E k p t) s = (s', r)"
  shows "j \<noteq> k \<Longrightarrow> ts_redis s' j = ts_redis s j"
    and "r = Inr True \<Longrightarrow> ts_redis s' k = Some (p, server_clock E (ts_tick s) + t)"
  using assms by (auto simp: redis_call_def redis_set_nx_def Let_def split: redis_reply.splits if_splits)

lemma redis_take_entry:
  assumes "redis_take E k s = (s', g)"
  shows "j \<noteq> k \<Longrightarrow> ts_redis s' j = ts_redis s j"
    and "ts_redis s k = None \<Longrightarrow> ts_redis s' k = None"
    and "g = Inr (Some q) \<Longrightarrow> (\<exists>e. ts_redis s k = Some (q, e)) \<and> ts_redis s' k = None"
    and "ts_redis s k = Some (p, e) \<Longrightarrow> server_clock E (ts_tick s) < e \<Longrightarrow> te_reply E (ts_tick s) = Answered \<Longrightarrow> g = Inr (Some p)"
    and "\<exists>v. g = Inr v"
  using assms
  by (auto simp: redis_take_def redis_call_def redis_get_del_def eval_Result_def taken_value_def Let_def swept_live dest!: swept_Some
      split: redis_reply.splits option.splits if_splits)

interpretation tickets: one_time_store "ticket_setNX E client" "ticket_getAndDelete E client" pass_time "store_entry client"
  "store_clock E client" "store_reachable E client" for E client
proof (unfold_locales, goal_cases)
  case (1 k p t s s' r j)
  show ?case
  proof (cases client)
    case True
    with 1 redis_put_entry(1) [of E k p t s s' r j] show ?thesis by (simp add: ticket_setNX_def store_entry_def)
  next
    case False
    with 1 show ?thesis by (auto simp: ticket_setNX_def store_entry_def Let_def dest!: swept_Some split: if_splits)
  qed
next
  case (2 k p t s s' r j q e)
  show ?case
  proof (cases client)
    case True
    with 2 redis_put_entry(1) show ?thesis by (fastforce simp: ticket_setNX_def store_entry_def)
  next
    case False
    then have "local_clock E (ts_tick s) < e" using 2 ticket_tick(1) [of s E client k p t] clocks_mono(1) [of "ts_tick s" "ts_tick s'" E]
      by (simp add: store_clock_def)
    with False 2 show ?thesis by (auto simp: ticket_setNX_def store_entry_def Let_def swept_live split: if_splits)
  qed
next
  case (3 k p t s s')
  then show ?case using redis_put_entry(2) clocks_mono(1) [of "ts_tick s" "Suc (ts_tick s)" E]
    by (fastforce simp: ticket_setNX_def store_entry_def store_clock_def Let_def split: if_splits)
next
  case (4 k s s' p)
  then show ?case using redis_take_entry(3)
    by (fastforce simp: ticket_getAndDelete_def store_entry_def split: if_splits option.splits)
next
  case (5 k s s' p)
  then show ?case using redis_take_entry(3)
    by (fastforce simp: ticket_getAndDelete_def store_entry_def split: if_splits option.splits)
next
  case (6 k s s' g j)
  then show ?case using redis_take_entry(1)
    by (fastforce simp: ticket_getAndDelete_def store_entry_def split: if_splits option.splits)
next
  case (7 k s s' g)
  then show ?case using redis_take_entry(2)
    by (fastforce simp: ticket_getAndDelete_def store_entry_def split: if_splits option.splits)
next
  case (8 k s s' g p e)
  then show ?case using redis_take_entry(4)
    by (fastforce simp: ticket_getAndDelete_def store_entry_def store_clock_def store_reachable_def split: if_splits option.splits)
next
  case (9 k s s' g)
  then show ?case using redis_take_entry(5)
    by (fastforce simp: ticket_getAndDelete_def split: if_splits option.splits)
next
  case (11 k p t s s' r)
  then show ?case using clock_step [OF ticket_tick(1)] by (metis fst_conv)
next
  case (12 k s s' g)
  then show ?case using clock_step [OF ticket_tick(2)] by (metis fst_conv)
qed (auto simp: store_entry_def pass_time_def intro: clock_step)

interpretation states: one_time_store "state_setNX E client" "state_getAndDelete E client" pass_time "store_entry client"
  "store_clock E client" "store_reachable E client" for E client
proof (unfold_locales, goal_cases)
  case (1 k p t s s' r j)
  show ?case
  proof (cases client)
    case True
    with 1 redis_put_entry(1) [of E k p t s s' r j] show ?thesis by (simp add: state_setNX_def store_entry_def)
  next
    case False
    with 1 show ?thesis by (auto simp: state_setNX_def store_entry_def Let_def dest!: swept_Some split: if_splits)
  qed
next
  case (2 k p t s s' r j q e)
  show ?case
  proof (cases client)
    case True
    with 2 redis_put_entry(1) show ?thesis by (fastforce simp: state_setNX_def store_entry_def)
  next
    case False
    then have "local_clock E (ts_tick s) < e" using 2 state_tick(1) [of s E client k p t] clocks_mono(1) [of "ts_tick s" "ts_tick s'" E]
      by (simp add: store_clock_def)
    with False 2 show ?thesis by (auto simp: state_setNX_def store_entry_def Let_def swept_live split: if_splits)
  qed
next
  case (3 k p t s s')
  then show ?case using redis_put_entry(2) clocks_mono(1) [of "ts_tick s" "Suc (ts_tick s)" E]
    by (fastforce simp: state_setNX_def store_entry_def store_clock_def Let_def split: if_splits)
next
  case (4 k s s' p)
  then show ?case using redis_take_entry(3)
    by (fastforce simp: state_getAndDelete_def store_entry_def Let_def split: if_splits option.splits)
next
  case (5 k s s' p)
  then show ?case using redis_take_entry(3)
    by (fastforce simp: state_getAndDelete_def store_entry_def Let_def split: if_splits option.splits)
next
  case (6 k s s' g j)
  then show ?case using redis_take_entry(1)
    by (fastforce simp: state_getAndDelete_def store_entry_def Let_def split: if_splits option.splits)
next
  case (7 k s s' g)
  then show ?case using redis_take_entry(2)
    by (fastforce simp: state_getAndDelete_def store_entry_def Let_def split: if_splits option.splits)
next
  case (8 k s s' g p e)
  then show ?case using redis_take_entry(4)
    by (fastforce simp: state_getAndDelete_def store_entry_def store_clock_def store_reachable_def Let_def split: if_splits option.splits)
next
  case (9 k s s' g)
  then show ?case using redis_take_entry(5)
    by (fastforce simp: state_getAndDelete_def Let_def split: if_splits option.splits)
next
  case (11 k p t s s' r)
  then show ?case using clock_step [OF state_tick(1)] by (metis fst_conv)
next
  case (12 k s s' g)
  then show ?case using clock_step [OF state_tick(2)] by (metis fst_conv)
qed (auto simp: store_entry_def pass_time_def intro: clock_step)

end
