(* ===== verification/Token_Ticket.thy ===== *)
theory Token_Ticket
  imports Token_Store Sql_Tx
begin

text \<open>
  \<open>Issue\<close> and \<open>Consume\<close> of WebSocket tickets (\<open>admin/pkg/wsticket/store.go\<close>). A draw of the random source, a reading of
  the clock and a Redis call each take a step; \<open>present\<close> says that the store is not nil, \<open>client\<close> that a Redis client
  is given.
\<close>

section \<open>The code\<close>

record ticket_record =
  tr_UserID :: string
  tr_RoleID :: string
  tr_SessionID :: string
  tr_Origin :: string
  tr_IssuedAt :: int
  tr_ExpiresAt :: int

type_synonym ticket_env = "ticket_record token_env"
type_synonym ticket_store = "ticket_record token_store"

definition ticketBytes :: nat where
  "ticketBytes = 32"

definition EncodedTicketLength :: nat where
  "EncodedTicketLength = 43"

definition ticketPrefix :: string where
  "ticketPrefix = ''mss:websocket:ticket:''"

definition randomToken :: "'r token_env \<Rightarrow> 'r token_store \<Rightarrow> 'r token_store \<times> (token_error + string)" where
  "randomToken E s =
     (pass_time 1 s,
      case te_random E (ts_tick s) of
        None \<Rightarrow> Inl RandomFailed
      | Some bytes \<Rightarrow> Inr (base64_EncodeToString (map bytes [0..<ticketBytes])))"

definition ticketKey :: "'r token_env \<Rightarrow> string \<Rightarrow> string" where
  "ticketKey E ticket = ticketPrefix @ te_digest E ticket"

definition normalizeRecord :: "(string \<Rightarrow> parsedURL option) \<Rightarrow> ticket_record \<Rightarrow> token_error + ticket_record" where
  "normalizeRecord parse r =
     (let user = strings_TrimSpace (tr_UserID r);
          role = strings_TrimSpace (tr_RoleID r);
          session = strings_TrimSpace (tr_SessionID r) in
      if user = [] \<or> role = [] \<or> session = [] then Inl IdentityRequired
      else
        (case NormalizeOrigin parse (tr_Origin r) of
           None \<Rightarrow> Inl OriginInvalid
         | Some origin \<Rightarrow> Inr (r\<lparr>tr_UserID := user, tr_RoleID := role, tr_SessionID := session, tr_Origin := origin\<rparr>)))"

definition ticket_Valid :: "string \<Rightarrow> bool" where
  "ticket_Valid ticket \<longleftrightarrow>
     length ticket = EncodedTicketLength \<and>
     (case base64_DecodeString ticket of
        None \<Rightarrow> False
      | Some decoded \<Rightarrow> length decoded = ticketBytes \<and> base64_EncodeToString decoded = ticket)"

fun ticket_attempts :: "nat \<Rightarrow> ticket_env \<Rightarrow> bool \<Rightarrow> ticket_record payload \<Rightarrow> int \<Rightarrow> ticket_store \<Rightarrow> ticket_store \<times> (token_error + string)" where
  "ticket_attempts 0 E client payload ttl s = (s, Inl NotUnique)"
| "ticket_attempts (Suc n) E client payload ttl s =
     (case randomToken E s of
        (s1, Inl err) \<Rightarrow> (s1, Inl err)
      | (s1, Inr ticket) \<Rightarrow>
          (case ticket_setNX E client (ticketKey E ticket) payload ttl s1 of
             (s2, Inl err) \<Rightarrow> (s2, Inl err)
           | (s2, Inr created) \<Rightarrow> if created then (s2, Inr ticket) else ticket_attempts n E client payload ttl s2))"

definition ticket_Issue ::
  "ticket_env \<Rightarrow> (string \<Rightarrow> parsedURL option) \<Rightarrow> bool \<Rightarrow> bool \<Rightarrow> ticket_record \<Rightarrow> int \<Rightarrow> ticket_store
   \<Rightarrow> ticket_store \<times> (token_error + string \<times> ticket_record)" where
  "ticket_Issue E parse present client r ttl s =
     (if \<not> present then (s, Inl TokenStoreNil)
      else if ttl \<le> 0 then (s, Inl TtlNotPositive)
      else
        (case normalizeRecord parse r of
           Inl err \<Rightarrow> (s, Inl err)
         | Inr normal \<Rightarrow>
             (let now = local_clock E (ts_tick s);
                  issued = normal\<lparr>tr_IssuedAt := now, tr_ExpiresAt := now + ttl\<rparr>;
                  s1 = pass_time 1 s in
              case te_json E issued of
                None \<Rightarrow> (s1, Inl EncodeFailed)
              | Some stored \<Rightarrow>
                  (case ticket_attempts 3 E client (Encoded stored) ttl s1 of
                     (s2, Inl err) \<Rightarrow> (s2, Inl err)
                   | (s2, Inr ticket) \<Rightarrow> (s2, Inr (ticket, issued))))))"

definition ticket_Consume ::
  "ticket_env \<Rightarrow> (string \<Rightarrow> parsedURL option) \<Rightarrow> bool \<Rightarrow> bool \<Rightarrow> string \<Rightarrow> ticket_store \<Rightarrow> ticket_store \<times> (token_error + ticket_record)" where
  "ticket_Consume E parse present client ticket s =
     (if \<not> present \<or> \<not> ticket_Valid ticket then (s, Inl ErrTokenNotFound)
      else
        (case ticket_getAndDelete E client (ticketKey E ticket) s of
           (s1, Inl err) \<Rightarrow> (s1, Inl err)
         | (s1, Inr None) \<Rightarrow> (s1, Inl ErrTokenNotFound)
         | (s1, Inr (Some Blank)) \<Rightarrow> (s1, Inl ErrTokenNotFound)
         | (s1, Inr (Some Garbage)) \<Rightarrow> (s1, Inl DecodeFailed)
         | (s1, Inr (Some (Encoded r))) \<Rightarrow>
             (case normalizeRecord parse r of
                Inl err \<Rightarrow> (s1, Inl (Unvalidated err))
              | Inr normal \<Rightarrow>
                  if \<not> local_clock E (ts_tick s1) < tr_ExpiresAt normal then (pass_time 1 s1, Inl ErrTokenExpired)
                  else (pass_time 1 s1, Inr normal))))"

text \<open>Callers use one store in any order and with any time between.\<close>

datatype ticket_call = IssueTicket ticket_record int | ConsumeTicket string | WaitTicket nat

fun ticket_step :: "ticket_env \<Rightarrow> (string \<Rightarrow> parsedURL option) \<Rightarrow> bool \<Rightarrow> ticket_call \<Rightarrow> ticket_store \<Rightarrow> ticket_store" where
  "ticket_step E parse client (IssueTicket r ttl) s = fst (ticket_Issue E parse True client r ttl s)"
| "ticket_step E parse client (ConsumeTicket t) s = fst (ticket_Consume E parse True client t s)"
| "ticket_step E parse client (WaitTicket n) s = pass_time n s"

definition ticket_calls :: "ticket_env \<Rightarrow> (string \<Rightarrow> parsedURL option) \<Rightarrow> bool \<Rightarrow> ticket_call list \<Rightarrow> ticket_store \<Rightarrow> ticket_store" where
  "ticket_calls E parse client cs s = fold (ticket_step E parse client) cs s"

text \<open>No draw from step \<open>n\<close> on gives a token with the digest of \<open>t\<close>.\<close>

definition never_drawn :: "'r token_env \<Rightarrow> nat \<Rightarrow> string \<Rightarrow> bool" where
  "never_drawn E n t \<longleftrightarrow>
     (\<forall>m bytes. n \<le> m \<longrightarrow> te_random E m = Some bytes \<longrightarrow> te_digest E (base64_EncodeToString (map bytes [0..<ticketBytes])) \<noteq> te_digest E t)"

section \<open>What the code asks of its store\<close>

lemma run_calls_append: "run_calls put get pass (cs @ ds) s = run_calls put get pass ds (run_calls put get pass cs s)"
  by (simp add: run_calls_def)

lemma run_calls_Nil [simp]: "run_calls put get pass [] s = s"
  by (simp add: run_calls_def)

lemma run_calls_Cons: "run_calls put get pass (c # cs) s = run_calls put get pass cs (run_call put get pass c s)"
  by (simp add: run_calls_def)

abbreviation ticket_run :: "ticket_env \<Rightarrow> bool \<Rightarrow> ticket_record payload store_call list \<Rightarrow> ticket_store \<Rightarrow> ticket_store" where
  "ticket_run E client \<equiv> run_calls (ticket_setNX E client) (ticket_getAndDelete E client) pass_time"

text \<open>The calls of the store avoid a key when they neither put nor take it.\<close>

definition no_put :: "string \<Rightarrow> 'p store_call list \<Rightarrow> bool" where
  "no_put k cs \<longleftrightarrow> (\<forall>p t. PutCall k p t \<notin> set cs)"

lemma no_put_simps [simp]:
  "no_put k []" "no_put k (PutCall j p t # cs) \<longleftrightarrow> j \<noteq> k \<and> no_put k cs" "no_put k (TakeCall j # cs) \<longleftrightarrow> no_put k cs"
  "no_put k (PassCall n # cs) \<longleftrightarrow> no_put k cs" "no_put k (cs @ ds) \<longleftrightarrow> no_put k cs \<and> no_put k ds"
  by (auto simp: no_put_def)

lemma tick_pass [simp]: "ts_tick (pass_time n s) = ts_tick s + n"
  by (simp add: pass_time_def)

lemma randomToken_result:
  assumes "randomToken E s = (s1, Inr t)"
  shows "s1 = pass_time 1 s" and "ticket_Valid t" and "never_drawn E (ts_tick s) u \<Longrightarrow> te_digest E t \<noteq> te_digest E u"
proof -
  from assms obtain bytes where b: "te_random E (ts_tick s) = Some bytes" "t = base64_EncodeToString (map bytes [0..<ticketBytes])" "s1 = pass_time 1 s"
    by (auto simp: randomToken_def split: option.splits)
  show "s1 = pass_time 1 s" by (rule b(3))
  show "ticket_Valid t" unfolding b(2) by (simp add: ticket_Valid_def base64_round_trip length_base64 EncodedTicketLength_def ticketBytes_def)
  show "te_digest E t \<noteq> te_digest E u" if "never_drawn E (ts_tick s) u" using that b by (auto simp: never_drawn_def)
qed

lemma randomToken_state: "randomToken E s = (s1, x) \<Longrightarrow> s1 = pass_time 1 s"
  by (simp add: randomToken_def)

lemma never_drawn_later: "never_drawn E n t \<Longrightarrow> n \<le> m \<Longrightarrow> never_drawn E m t"
  unfolding never_drawn_def using order_trans by blast

lemma ticketKey_eq [simp]: "ticketKey E t = ticketKey E u \<longleftrightarrow> te_digest E t = te_digest E u"
  by (simp add: ticketKey_def)

text \<open>\<open>Issue\<close> waits and puts under keys of fresh draws; \<open>Consume\<close> takes at most the key of its ticket.\<close>

lemma ticket_attempts_calls:
  assumes "ticket_attempts n E client p ttl s = (s', x)"
  shows "\<exists>cs. s' = ticket_run E client cs s \<and> (\<forall>j. TakeCall j \<notin> set cs)
    \<and> (\<forall>u. never_drawn E (ts_tick s) u \<longrightarrow> no_put (ticketKey E u) cs)"
  using assms
proof (induction n arbitrary: s)
  case 0
  then show ?case by (intro exI [of _ "[]"]) simp
next
  case (Suc n)
  obtain s1 y where r: "randomToken E s = (s1, y)" by fastforce
  have s1: "s1 = pass_time 1 s" by (rule randomToken_state [OF r])
  show ?case
  proof (cases y)
    case (Inl err)
    with Suc.prems r have "s' = s1" by simp
    with s1 show ?thesis by (intro exI [of _ "[PassCall 1]"]) (simp add: run_calls_Cons)
  next
    case (Inr t)
    obtain s2 z where put: "ticket_setNX E client (ticketKey E t) p ttl s1 = (s2, z)" by fastforce
    let ?cs = "[PassCall 1, PutCall (ticketKey E t) p ttl]"
    have run: "s2 = ticket_run E client ?cs s" using put s1 by (simp add: run_calls_Cons)
    have le: "ts_tick s \<le> ts_tick s2" using ticket_tick(1) [of s1 E client "ticketKey E t" p ttl] put s1 by simp
    have fresh: "no_put (ticketKey E u) ?cs" if "never_drawn E (ts_tick s) u" for u
      using randomToken_result(3) [OF r [unfolded Inr] that] by simp
    show ?thesis
    proof (cases "z = Inr False")
      case True
      with Suc.prems r Inr put have "ticket_attempts n E client p ttl s2 = (s', x)" by simp
      from Suc.IH [OF this] obtain cs where cs: "s' = ticket_run E client cs s2" "\<forall>j. TakeCall j \<notin> set cs"
          "\<forall>u. never_drawn E (ts_tick s2) u \<longrightarrow> no_put (ticketKey E u) cs" by blast
      have "s' = ticket_run E client (?cs @ cs) s" unfolding run_calls_append cs(1) run ..
      moreover have "\<forall>u. never_drawn E (ts_tick s) u \<longrightarrow> no_put (ticketKey E u) (?cs @ cs)"
        using cs(3) fresh never_drawn_later le by (simp only: no_put_simps(5)) blast
      ultimately show ?thesis using cs(2) by (intro exI [of _ "?cs @ cs"]) auto
    next
      case False
      with Suc.prems r Inr put have "s' = s2" by (auto split: sum.splits bool.splits)
      with run fresh show ?thesis by (intro exI [of _ ?cs]) simp
    qed
  qed
qed

lemma ticket_Issue_calls:
  assumes "ticket_Issue E parse present client r ttl s = (s', x)"
  shows "\<exists>cs. s' = ticket_run E client cs s \<and> (\<forall>j. TakeCall j \<notin> set cs)
    \<and> (\<forall>u. never_drawn E (ts_tick s) u \<longrightarrow> no_put (ticketKey E u) cs)"
proof (cases "s' = s \<or> s' = pass_time 1 s")
  case True
  then show ?thesis
  proof
    assume "s' = s"
    then show ?thesis by (intro exI [of _ "[]"]) simp
  next
    assume "s' = pass_time 1 s"
    then show ?thesis by (intro exI [of _ "[PassCall 1]"]) (simp add: run_calls_Cons)
  qed
next
  case False
  with assms obtain p y where a: "ticket_attempts 3 E client p ttl (pass_time 1 s) = (s', y)"
    unfolding ticket_Issue_def Let_def by (auto split: if_splits sum.splits option.splits prod.splits)
  from ticket_attempts_calls [OF this] obtain cs where cs: "s' = ticket_run E client cs (pass_time 1 s)" "\<forall>j. TakeCall j \<notin> set cs"
      "\<forall>u. never_drawn E (ts_tick s + 1) u \<longrightarrow> no_put (ticketKey E u) cs" by auto
  have "\<forall>u. never_drawn E (ts_tick s) u \<longrightarrow> no_put (ticketKey E u) cs"
    using cs(3) never_drawn_later [of E "ts_tick s" _ "ts_tick s + 1"] by simp
  with cs(1,2) show ?thesis by (intro exI [of _ "PassCall 1 # cs"]) (simp add: run_calls_Cons)
qed

lemma ticket_Consume_calls:
  assumes "ticket_Consume E parse present client t s = (s', x)"
  shows "\<exists>cs. s' = ticket_run E client cs s \<and> (\<forall>k. no_put k cs) \<and> (\<forall>j. TakeCall j \<in> set cs \<longrightarrow> j = ticketKey E t)"
proof (cases "s' = s")
  case True
  then show ?thesis by (intro exI [of _ "[]"]) simp
next
  case False
  with assms obtain s1 g where g: "ticket_getAndDelete E client (ticketKey E t) s = (s1, g)" and s': "s' = s1 \<or> s' = pass_time 1 s1"
    unfolding ticket_Consume_def Let_def by (auto split: if_splits sum.splits option.splits prod.splits payload.splits)
  from s' show ?thesis
  proof
    assume "s' = s1"
    with g show ?thesis by (intro exI [of _ "[TakeCall (ticketKey E t)]"]) (simp add: run_calls_Cons)
  next
    assume "s' = pass_time 1 s1"
    with g show ?thesis by (intro exI [of _ "[TakeCall (ticketKey E t), PassCall 1]"]) (simp add: run_calls_Cons)
  qed
qed

lemma ticket_run_tick: "ts_tick s \<le> ts_tick (ticket_run E client cs s)"
proof (induction cs arbitrary: s)
  case (Cons c cs)
  have "ts_tick s \<le> ts_tick (run_call (ticket_setNX E client) (ticket_getAndDelete E client) pass_time c s)"
    by (cases c) (simp_all add: ticket_tick)
  then show ?case using Cons.IH unfolding run_calls_Cons by (rule order_trans)
qed simp

text \<open>So does any sequence of calls.\<close>

lemma ticket_calls_calls:
  assumes "never_drawn E (ts_tick s) u"
  shows "\<exists>cs. ticket_calls E parse client ops s = ticket_run E client cs s \<and> no_put (ticketKey E u) cs
    \<and> (\<forall>t. TakeCall t \<in> set cs \<longrightarrow> (\<exists>v. ConsumeTicket v \<in> set ops \<and> t = ticketKey E v))"
  using assms
proof (induction ops arbitrary: s)
  case Nil
  then show ?case by (intro exI [of _ "[]"]) (simp add: ticket_calls_def)
next
  case (Cons c ops)
  let ?s1 = "ticket_step E parse client c s"
  have "\<exists>cs. ?s1 = ticket_run E client cs s \<and> no_put (ticketKey E u) cs \<and> (\<forall>t. TakeCall t \<in> set cs \<longrightarrow> (\<exists>v. c = ConsumeTicket v \<and> t = ticketKey E v))"
  proof (cases c)
    case (IssueTicket r ttl)
    obtain s' x where "ticket_Issue E parse True client r ttl s = (s', x)" by fastforce
    with ticket_Issue_calls [OF this] IssueTicket Cons.prems show ?thesis by auto
  next
    case (ConsumeTicket t)
    obtain s' x where "ticket_Consume E parse True client t s = (s', x)" by fastforce
    with ticket_Consume_calls [OF this] ConsumeTicket show ?thesis by auto
  next
    case (WaitTicket n)
    then show ?thesis by (intro exI [of _ "[PassCall n]"]) (simp add: run_calls_Cons)
  qed
  then obtain cs where cs: "?s1 = ticket_run E client cs s" "no_put (ticketKey E u) cs"
      "\<forall>t. TakeCall t \<in> set cs \<longrightarrow> (\<exists>v. c = ConsumeTicket v \<and> t = ticketKey E v)" by blast
  have "never_drawn E (ts_tick ?s1) u" unfolding cs(1) using Cons.prems ticket_run_tick by (rule never_drawn_later)
  from Cons.IH [OF this] obtain ds where ds: "ticket_calls E parse client ops ?s1 = ticket_run E client ds ?s1" "no_put (ticketKey E u) ds"
      "\<forall>t. TakeCall t \<in> set ds \<longrightarrow> (\<exists>v. ConsumeTicket v \<in> set ops \<and> t = ticketKey E v)" by blast
  have "ticket_calls E parse client (c # ops) s = ticket_run E client (cs @ ds) s"
    using ds(1) unfolding run_calls_append cs(1) [symmetric] by (simp add: ticket_calls_def)
  with cs ds show ?case by (intro exI [of _ "cs @ ds"]) auto
qed

end
