(* ===== verification/Token_State.thy ===== *)
theory Token_State
  imports Token_Ticket
begin

text \<open>
  \<open>Issue\<close> and \<open>Consume\<close> of OAuth states (\<open>admin/pkg/oauthstate/store.go\<close>): an attempt draws the state and the nonce of
  the browser, and only the digest of the nonce is stored.
\<close>

section \<open>The code\<close>

record state_record =
  st_Provider :: string
  st_Intent :: string
  st_UserID :: string
  st_SessionID :: string
  st_BrowserHash :: string
  st_IssuedAt :: int
  st_ExpiresAt :: int

type_synonym state_env = "state_record token_env"
type_synonym state_store = "state_record token_store"

definition stateBytes :: nat where
  "stateBytes = 32"

definition statePrefix :: string where
  "statePrefix = ''mss:oauth:state:''"

definition Intent_Valid :: "string \<Rightarrow> bool" where
  "Intent_Valid i \<longleftrightarrow> i = ''login'' \<or> i = ''binding'' \<or> i = ''reauthentication''"

definition state_randomToken :: "'r token_env \<Rightarrow> 'r token_store \<Rightarrow> 'r token_store \<times> (token_error + string)" where
  "state_randomToken E s =
     (pass_time 1 s,
      case te_random E (ts_tick s) of
        None \<Rightarrow> Inl RandomFailed
      | Some bytes \<Rightarrow> Inr (base64_EncodeToString (map bytes [0..<stateBytes])))"

definition stateKey :: "'r token_env \<Rightarrow> string \<Rightarrow> string" where
  "stateKey E state = statePrefix @ te_digest E state"

fun state_attempts :: "nat \<Rightarrow> state_env \<Rightarrow> bool \<Rightarrow> state_record \<Rightarrow> int \<Rightarrow> state_store
    \<Rightarrow> state_store \<times> (token_error + string \<times> string \<times> state_record)" where
  "state_attempts 0 E client r ttl s = (s, Inl NotUnique)"
| "state_attempts (Suc n) E client r ttl s =
     (case state_randomToken E s of
        (s1, Inl err) \<Rightarrow> (s1, Inl err)
      | (s1, Inr state) \<Rightarrow>
          (case state_randomToken E s1 of
             (s2, Inl err) \<Rightarrow> (s2, Inl err)
           | (s2, Inr nonce) \<Rightarrow>
               (let r1 = r\<lparr>st_BrowserHash := te_digest E nonce\<rparr> in
                case te_json E r1 of
                  None \<Rightarrow> (s2, Inl EncodeFailed)
                | Some stored \<Rightarrow>
                    (case state_setNX E client (stateKey E state) (Encoded stored) ttl s2 of
                       (s3, Inl err) \<Rightarrow> (s3, Inl err)
                     | (s3, Inr created) \<Rightarrow>
                         if created then (s3, Inr (state, nonce, r1)) else state_attempts n E client r1 ttl s3))))"

definition state_Issue ::
  "state_env \<Rightarrow> bool \<Rightarrow> bool \<Rightarrow> state_record \<Rightarrow> int \<Rightarrow> state_store \<Rightarrow> state_store \<times> (token_error + string \<times> string \<times> state_record)" where
  "state_Issue E present client r ttl s =
     (if ttl \<le> 0 then (s, Inl TtlNotPositive)
      else if \<not> Intent_Valid (st_Intent r) \<or> st_Provider r = [] then (s, Inl ProviderRequired)
      else if \<not> present then (s, Inl TokenStoreNil)
      else
        (let now = local_clock E (ts_tick s) in
         state_attempts 3 E client (r\<lparr>st_IssuedAt := now, st_ExpiresAt := now + ttl\<rparr>) ttl (pass_time 1 s)))"

definition state_Consume :: "state_env \<Rightarrow> bool \<Rightarrow> bool \<Rightarrow> string \<Rightarrow> state_store \<Rightarrow> state_store \<times> (token_error + state_record)" where
  "state_Consume E present client state s =
     (if \<not> present \<or> state = [] then (s, Inl ErrTokenNotFound)
      else
        (case state_getAndDelete E client (stateKey E state) s of
           (s1, Inl err) \<Rightarrow> (s1, Inl err)
         | (s1, Inr None) \<Rightarrow> (s1, Inl ErrTokenNotFound)
         | (s1, Inr (Some Blank)) \<Rightarrow> (s1, Inl ErrTokenNotFound)
         | (s1, Inr (Some Garbage)) \<Rightarrow> (s1, Inl DecodeFailed)
         | (s1, Inr (Some (Encoded r))) \<Rightarrow>
             if \<not> local_clock E (ts_tick s1) < st_ExpiresAt r then (pass_time 1 s1, Inl ErrTokenExpired)
             else (pass_time 1 s1, Inr r)))"

datatype state_call = IssueState state_record int | ConsumeState string | WaitState nat

fun state_step :: "state_env \<Rightarrow> bool \<Rightarrow> state_call \<Rightarrow> state_store \<Rightarrow> state_store" where
  "state_step E client (IssueState r ttl) s = fst (state_Issue E True client r ttl s)"
| "state_step E client (ConsumeState t) s = fst (state_Consume E True client t s)"
| "state_step E client (WaitState n) s = pass_time n s"

definition state_calls :: "state_env \<Rightarrow> bool \<Rightarrow> state_call list \<Rightarrow> state_store \<Rightarrow> state_store" where
  "state_calls E client cs s = fold (state_step E client) cs s"

section \<open>What the code asks of its store\<close>

abbreviation state_run :: "state_env \<Rightarrow> bool \<Rightarrow> state_record payload store_call list \<Rightarrow> state_store \<Rightarrow> state_store" where
  "state_run E client \<equiv> run_calls (state_setNX E client) (state_getAndDelete E client) pass_time"

lemma state_randomToken_eq: "state_randomToken E s = randomToken E s"
  by (cases "te_random E (ts_tick s)") (simp_all add: state_randomToken_def randomToken_def stateBytes_def ticketBytes_def)

lemma stateKey_eq [simp]: "stateKey E t = stateKey E u \<longleftrightarrow> te_digest E t = te_digest E u"
  by (simp add: stateKey_def)

lemma state_attempts_calls:
  assumes "state_attempts n E client r ttl s = (s', x)"
  shows "\<exists>cs. s' = state_run E client cs s \<and> (\<forall>j. TakeCall j \<notin> set cs)
    \<and> (\<forall>u. never_drawn E (ts_tick s) u \<longrightarrow> no_put (stateKey E u) cs)"
  using assms
proof (induction n arbitrary: r s)
  case 0
  then show ?case by (intro exI [of _ "[]"]) simp
next
  case (Suc n)
  show ?case
  proof (cases "s' = pass_time 1 s \<or> s' = pass_time 2 s")
    case True
    then show ?thesis
    proof
      assume "s' = pass_time 1 s"
      then show ?thesis by (intro exI [of _ "[PassCall 1]"]) (simp add: run_calls_Cons)
    next
      assume "s' = pass_time 2 s"
      then show ?thesis by (intro exI [of _ "[PassCall 2]"]) (simp add: run_calls_Cons)
    qed
  next
    case False
    from Suc.prems False obtain t nonce p s3 z where r: "randomToken E s = (pass_time 1 s, Inr t)"
      and n: "randomToken E (pass_time 1 s) = (pass_time 2 s, Inr nonce)"
      and put: "state_setNX E client (stateKey E t) p ttl (pass_time 2 s) = (s3, z)"
      and rest: "z \<noteq> Inr False \<and> s' = s3 \<or> state_attempts n E client (r\<lparr>st_BrowserHash := te_digest E nonce\<rparr>) ttl s3 = (s', x)"
      by (auto simp: state_randomToken_eq randomToken_def pass_time_def Let_def split: sum.splits option.splits prod.splits if_splits)
    let ?cs = "[PassCall 2, PutCall (stateKey E t) p ttl]"
    have run: "s3 = state_run E client ?cs s" using put by (simp add: run_calls_Cons)
    have le: "ts_tick s \<le> ts_tick s3" using state_tick(1) [of "pass_time 2 s" E client "stateKey E t" p ttl] put by simp
    have fresh: "no_put (stateKey E u) ?cs" if "never_drawn E (ts_tick s) u" for u
      using randomToken_result(3) [OF r that] by simp
    from rest show ?thesis
    proof
      assume "z \<noteq> Inr False \<and> s' = s3"
      with run fresh show ?thesis by (intro exI [of _ ?cs]) simp
    next
      assume "state_attempts n E client (r\<lparr>st_BrowserHash := te_digest E nonce\<rparr>) ttl s3 = (s', x)"
      from Suc.IH [OF this] obtain cs where cs: "s' = state_run E client cs s3" "\<forall>j. TakeCall j \<notin> set cs"
          "\<forall>u. never_drawn E (ts_tick s3) u \<longrightarrow> no_put (stateKey E u) cs" by blast
      have "s' = state_run E client (?cs @ cs) s" unfolding run_calls_append cs(1) run ..
      moreover have "\<forall>u. never_drawn E (ts_tick s) u \<longrightarrow> no_put (stateKey E u) (?cs @ cs)"
        using cs(3) fresh never_drawn_later le by (simp only: no_put_simps(5)) blast
      ultimately show ?thesis using cs(2) by (intro exI [of _ "?cs @ cs"]) auto
    qed
  qed
qed

lemma state_Issue_calls:
  assumes "state_Issue E present client r ttl s = (s', x)"
  shows "\<exists>cs. s' = state_run E client cs s \<and> (\<forall>j. TakeCall j \<notin> set cs)
    \<and> (\<forall>u. never_drawn E (ts_tick s) u \<longrightarrow> no_put (stateKey E u) cs)"
proof (cases "s' = s")
  case True
  then show ?thesis by (intro exI [of _ "[]"]) simp
next
  case False
  with assms obtain r1 where a: "state_attempts 3 E client r1 ttl (pass_time 1 s) = (s', x)"
    unfolding state_Issue_def Let_def by (auto split: if_splits)
  from state_attempts_calls [OF this] obtain cs where cs: "s' = state_run E client cs (pass_time 1 s)" "\<forall>j. TakeCall j \<notin> set cs"
      "\<forall>u. never_drawn E (ts_tick s + 1) u \<longrightarrow> no_put (stateKey E u) cs" by auto
  have "\<forall>u. never_drawn E (ts_tick s) u \<longrightarrow> no_put (stateKey E u) cs"
    using cs(3) never_drawn_later [of E "ts_tick s" _ "ts_tick s + 1"] by simp
  with cs(1,2) show ?thesis by (intro exI [of _ "PassCall 1 # cs"]) (simp add: run_calls_Cons)
qed

lemma state_Consume_calls:
  assumes "state_Consume E present client t s = (s', x)"
  shows "\<exists>cs. s' = state_run E client cs s \<and> (\<forall>k. no_put k cs) \<and> (\<forall>j. TakeCall j \<in> set cs \<longrightarrow> j = stateKey E t)"
proof (cases "s' = s")
  case True
  then show ?thesis by (intro exI [of _ "[]"]) simp
next
  case False
  with assms obtain s1 g where g: "state_getAndDelete E client (stateKey E t) s = (s1, g)" and s': "s' = s1 \<or> s' = pass_time 1 s1"
    unfolding state_Consume_def Let_def by (auto split: if_splits sum.splits option.splits prod.splits payload.splits)
  from s' show ?thesis
  proof
    assume "s' = s1"
    with g show ?thesis by (intro exI [of _ "[TakeCall (stateKey E t)]"]) (simp add: run_calls_Cons)
  next
    assume "s' = pass_time 1 s1"
    with g show ?thesis by (intro exI [of _ "[TakeCall (stateKey E t), PassCall 1]"]) (simp add: run_calls_Cons)
  qed
qed

lemma state_run_tick: "ts_tick s \<le> ts_tick (state_run E client cs s)"
proof (induction cs arbitrary: s)
  case (Cons c cs)
  have "ts_tick s \<le> ts_tick (run_call (state_setNX E client) (state_getAndDelete E client) pass_time c s)"
    by (cases c) (simp_all add: state_tick)
  then show ?case using Cons.IH unfolding run_calls_Cons by (rule order_trans)
qed simp

text \<open>So does any sequence of calls.\<close>

lemma state_calls_calls:
  assumes "never_drawn E (ts_tick s) u"
  shows "\<exists>cs. state_calls E client ops s = state_run E client cs s \<and> no_put (stateKey E u) cs
    \<and> (\<forall>t. TakeCall t \<in> set cs \<longrightarrow> (\<exists>v. ConsumeState v \<in> set ops \<and> t = stateKey E v))"
  using assms
proof (induction ops arbitrary: s)
  case Nil
  then show ?case by (intro exI [of _ "[]"]) (simp add: state_calls_def)
next
  case (Cons c ops)
  let ?s1 = "state_step E client c s"
  have "\<exists>cs. ?s1 = state_run E client cs s \<and> no_put (stateKey E u) cs \<and> (\<forall>t. TakeCall t \<in> set cs \<longrightarrow> (\<exists>v. c = ConsumeState v \<and> t = stateKey E v))"
  proof (cases c)
    case (IssueState r ttl)
    obtain s' x where "state_Issue E True client r ttl s = (s', x)" by fastforce
    with state_Issue_calls [OF this] IssueState Cons.prems show ?thesis by auto
  next
    case (ConsumeState t)
    obtain s' x where "state_Consume E True client t s = (s', x)" by fastforce
    with state_Consume_calls [OF this] ConsumeState show ?thesis by auto
  next
    case (WaitState n)
    then show ?thesis by (intro exI [of _ "[PassCall n]"]) (simp add: run_calls_Cons)
  qed
  then obtain cs where cs: "?s1 = state_run E client cs s" "no_put (stateKey E u) cs"
      "\<forall>t. TakeCall t \<in> set cs \<longrightarrow> (\<exists>v. c = ConsumeState v \<and> t = stateKey E v)" by blast
  have "never_drawn E (ts_tick ?s1) u" unfolding cs(1) using Cons.prems state_run_tick by (rule never_drawn_later)
  from Cons.IH [OF this] obtain ds where ds: "state_calls E client ops ?s1 = state_run E client ds ?s1" "no_put (stateKey E u) ds"
      "\<forall>t. TakeCall t \<in> set ds \<longrightarrow> (\<exists>v. ConsumeState v \<in> set ops \<and> t = stateKey E v)" by blast
  have "state_calls E client (c # ops) s = state_run E client (cs @ ds) s"
    using ds(1) unfolding run_calls_append cs(1) [symmetric] by (simp add: state_calls_def)
  with cs ds show ?case by (intro exI [of _ "cs @ ds"]) auto
qed

end
