(* ===== verification/Token_Guarantees.thy ===== *)
theory Token_Guarantees
  imports Token_State
begin

text \<open>
  What one-time tokens promise, from the contract of their stores: an issued ticket or OAuth state is accepted once,
  with the record it was issued for, until it expires; and a failed call of Redis looks like an unknown token.
\<close>

section \<open>What Issue leaves behind\<close>

lemma ticket_attempts_put:
  assumes "ticket_attempts n E client p ttl s = (s', Inr t)"
  shows "\<exists>s0. ts_tick s \<le> ts_tick s0 \<and> ticket_setNX E client (ticketKey E t) p ttl s0 = (s', Inr True) \<and> ticket_Valid t"
  using assms
proof (induction n arbitrary: s)
  case (Suc n)
  then obtain s1 u where r: "randomToken E s = (s1, Inr u)" by (auto split: prod.splits sum.splits)
  obtain s2 z where put: "ticket_setNX E client (ticketKey E u) p ttl s1 = (s2, z)" by fastforce
  have le: "ts_tick s \<le> ts_tick s1" "ts_tick s1 \<le> ts_tick s2"
    using ticket_tick(1) [of s1 E client "ticketKey E u" p ttl] put randomToken_result(1) [OF r] by simp_all
  show ?case
  proof (cases "z = Inr True")
    case True
    with Suc.prems r put le(1) randomToken_result(2) [OF r] show ?thesis by auto
  next
    case False
    with Suc.prems r put have "ticket_attempts n E client p ttl s2 = (s', Inr t)" by (auto split: sum.splits if_splits)
    from Suc.IH [OF this] le show ?thesis by (meson order_trans)
  qed
qed simp

lemma ticket_Issue_put:
  assumes "ticket_Issue E parse present client r ttl s = (s', Inr (t, issued))"
  obtains s0 stored normal where "ts_tick s \<le> ts_tick s0" "ticket_setNX E client (ticketKey E t) (Encoded stored) ttl s0 = (s', Inr True)"
    "ticket_Valid t" "te_json E issued = Some stored" "normalizeRecord parse r = Inr normal"
    "issued = normal\<lparr>tr_IssuedAt := local_clock E (ts_tick s), tr_ExpiresAt := local_clock E (ts_tick s) + ttl\<rparr>"
proof -
  from assms obtain stored normal where a: "ticket_attempts 3 E client (Encoded stored) ttl (pass_time 1 s) = (s', Inr t)"
    and i: "te_json E issued = Some stored" "normalizeRecord parse r = Inr normal"
      "issued = normal\<lparr>tr_IssuedAt := local_clock E (ts_tick s), tr_ExpiresAt := local_clock E (ts_tick s) + ttl\<rparr>"
    unfolding ticket_Issue_def Let_def by (auto split: if_splits sum.splits option.splits prod.splits)
  from ticket_attempts_put [OF a] obtain s0 where "ts_tick (pass_time 1 s) \<le> ts_tick s0"
      "ticket_setNX E client (ticketKey E t) (Encoded stored) ttl s0 = (s', Inr True)" "ticket_Valid t" by blast
  moreover from this(1) have "ts_tick s \<le> ts_tick s0" by simp
  ultimately show thesis using i that by blast
qed

lemma state_attempts_put:
  assumes "state_attempts n E client r ttl s = (s', Inr (t, nonce, issued))"
  shows "\<exists>s0 stored. ts_tick s \<le> ts_tick s0 \<and> state_setNX E client (stateKey E t) (Encoded stored) ttl s0 = (s', Inr True)
    \<and> ticket_Valid t \<and> te_json E issued = Some stored \<and> issued = r\<lparr>st_BrowserHash := te_digest E nonce\<rparr>"
  using assms
proof (induction n arbitrary: r s)
  case (Suc n)
  from Suc.prems obtain u v stored s3 z where r: "randomToken E s = (pass_time 1 s, Inr u)"
    and json: "te_json E (r\<lparr>st_BrowserHash := te_digest E v\<rparr>) = Some stored"
    and put: "state_setNX E client (stateKey E u) (Encoded stored) ttl (pass_time 2 s) = (s3, z)"
    and rest: "z = Inr True \<and> s' = s3 \<and> t = u \<and> nonce = v \<and> issued = r\<lparr>st_BrowserHash := te_digest E v\<rparr>
      \<or> state_attempts n E client (r\<lparr>st_BrowserHash := te_digest E v\<rparr>) ttl s3 = (s', Inr (t, nonce, issued))"
    by (auto simp: state_randomToken_eq randomToken_def pass_time_def Let_def split: sum.splits option.splits prod.splits if_splits)
  from rest show ?case
  proof
    assume "z = Inr True \<and> s' = s3 \<and> t = u \<and> nonce = v \<and> issued = r\<lparr>st_BrowserHash := te_digest E v\<rparr>"
    with put json randomToken_result(2) [OF r] show ?thesis by (intro exI [of _ "pass_time 2 s"] exI [of _ stored]) simp
  next
    assume "state_attempts n E client (r\<lparr>st_BrowserHash := te_digest E v\<rparr>) ttl s3 = (s', Inr (t, nonce, issued))"
    from Suc.IH [OF this] obtain s0 stored where *: "ts_tick s3 \<le> ts_tick s0" "state_setNX E client (stateKey E t) (Encoded stored) ttl s0 = (s', Inr True)"
        "ticket_Valid t" "te_json E issued = Some stored" "issued = r\<lparr>st_BrowserHash := te_digest E nonce\<rparr>" by auto
    moreover have "ts_tick s \<le> ts_tick s0"
      using state_tick(1) [of "pass_time 2 s" E client "stateKey E u" "Encoded stored" ttl] state_tick(1) [of "pass_time 2 s"] put *(1)
      by (metis (no_types, lifting) add_leD1 fst_conv order_trans tick_pass)
    ultimately show ?thesis by blast
  qed
qed simp

lemma state_Issue_put:
  assumes "state_Issue E present client r ttl s = (s', Inr (t, nonce, issued))"
  obtains s0 stored where "ts_tick s \<le> ts_tick s0" "state_setNX E client (stateKey E t) (Encoded stored) ttl s0 = (s', Inr True)"
    "ticket_Valid t" "te_json E issued = Some stored"
    "issued = r\<lparr>st_IssuedAt := local_clock E (ts_tick s), st_ExpiresAt := local_clock E (ts_tick s) + ttl, st_BrowserHash := te_digest E nonce\<rparr>"
proof -
  from assms have "state_attempts 3 E client (r\<lparr>st_IssuedAt := local_clock E (ts_tick s), st_ExpiresAt := local_clock E (ts_tick s) + ttl\<rparr>) ttl (pass_time 1 s)
      = (s', Inr (t, nonce, issued))"
    unfolding state_Issue_def Let_def by (simp split: if_splits)
  from state_attempts_put [OF this] obtain s0 stored where *: "ts_tick (pass_time 1 s) \<le> ts_tick s0"
      "state_setNX E client (stateKey E t) (Encoded stored) ttl s0 = (s', Inr True)" "ticket_Valid t" "te_json E issued = Some stored"
      "issued = r\<lparr>st_IssuedAt := local_clock E (ts_tick s), st_ExpiresAt := local_clock E (ts_tick s) + ttl, st_BrowserHash := te_digest E nonce\<rparr>"
    by blast
  then have "ts_tick s \<le> ts_tick s0" by simp
  with * that show thesis by blast
qed

section \<open>What Consume takes\<close>

lemma ticket_take_tick: "ticket_getAndDelete E client k s = (s', g) \<Longrightarrow> ts_tick s' \<le> ts_tick s + 1"
  by (auto simp: ticket_getAndDelete_def redis_take_def redis_call_def redis_get_del_def Let_def
      split: if_splits redis_reply.splits option.splits prod.splits)

lemma state_take_tick: "state_getAndDelete E client k s = (s', g) \<Longrightarrow> ts_tick s' \<le> ts_tick s + 1"
  by (auto simp: state_getAndDelete_def redis_take_def redis_call_def redis_get_del_def Let_def
      split: if_splits redis_reply.splits option.splits prod.splits)

lemma get_none:
  "store_entry client s (ticketKey E t) = None \<Longrightarrow> \<exists>s0. ticket_getAndDelete E client (ticketKey E t) s = (s0, Inr None)"
  using tickets.get_found tickets.get_answers by (metis not_Some_eq option.exhaust surj_pair)

lemma ticket_Consume_absent:
  assumes "store_entry client s (ticketKey E t) = None"
  shows "snd (ticket_Consume E parse present client t s) = Inl ErrTokenNotFound"
  using get_none [OF assms] by (auto simp: ticket_Consume_def)

lemma ticket_Consume_found:
  assumes "ticket_getAndDelete E client (ticketKey E t) s = (s0, Inr (Some (Encoded r)))" and "ticket_Valid t"
    and "normalizeRecord parse r = Inr r" and "local_clock E (ts_tick s0) < tr_ExpiresAt r"
  shows "ticket_Consume E parse True client t s = (pass_time 1 s0, Inr r)"
  using assms by (simp add: ticket_Consume_def)

lemma ticket_Consume_taken:
  assumes "ticket_Consume E parse present client t s = (s1, x)" and "x \<noteq> Inl ErrTokenNotFound"
  shows "store_entry client s1 (ticketKey E t) = None"
proof -
  obtain s0 v where g: "ticket_getAndDelete E client (ticketKey E t) s = (s0, Inr v)"
    using tickets.get_answers by (metis surj_pair)
  have "present" "ticket_Valid t" using assms by (auto simp: ticket_Consume_def split: if_splits)
  with assms g obtain p where p: "v = Some p" by (cases v) (auto simp: ticket_Consume_def)
  have "s1 = s0 \<or> s1 = pass_time 1 s0"
    using assms(1) g p \<open>present\<close> \<open>ticket_Valid t\<close> by (cases p) (auto simp: ticket_Consume_def split: sum.splits if_splits)
  then show ?thesis using tickets.get_gone [OF g [unfolded p]] tickets.pass_entry by metis
qed

lemma ticket_stays_absent:
  assumes "store_entry client s (ticketKey E t) = None" and "never_drawn E (ts_tick s) t"
  shows "store_entry client (ticket_calls E parse client ops s) (ticketKey E t) = None"
proof -
  obtain cs where "ticket_calls E parse client ops s = ticket_run E client cs s" "no_put (ticketKey E t) cs"
    using ticket_calls_calls [OF assms(2)] by blast
  then show ?thesis using tickets.gone_stays_gone [OF assms(1)] by (simp add: no_put_def)
qed

lemma normalizeRecord_idem:
  assumes "normalizeRecord parse r = Inr n" and "NormalizeOrigin parse (tr_Origin n) = Some (tr_Origin n)"
  shows "normalizeRecord parse (n\<lparr>tr_IssuedAt := i, tr_ExpiresAt := e\<rparr>) = Inr (n\<lparr>tr_IssuedAt := i, tr_ExpiresAt := e\<rparr>)"
  using assms by (auto simp: normalizeRecord_def Let_def split: if_splits option.splits)

section \<open>Properties\<close>


text \<open>
  C35. Once \<open>Consume\<close> has answered anything but ``not found'' for a ticket, whatever is then issued, consumed or waited,
  from any replica, the ticket is not found again: replay fails, also after a rejected origin.
\<close>

theorem ticket_is_used_once:
  assumes "ticket_Consume E parse present client t s = (s1, x)" and "x \<noteq> Inl ErrTokenNotFound" and "never_drawn E (ts_tick s1) t"
  shows "snd (ticket_Consume E parse' present' client t (ticket_calls E parse client ops s1)) = Inl ErrTokenNotFound"
  by (rule ticket_Consume_absent [OF ticket_stays_absent [OF ticket_Consume_taken [OF assms(1,2)] assms(3)]])

section \<open>OAuth states\<close>

lemma state_get_none:
  "store_entry client s (stateKey E t) = None \<Longrightarrow> \<exists>s0. state_getAndDelete E client (stateKey E t) s = (s0, Inr None)"
  using states.get_found states.get_answers by (metis not_Some_eq option.exhaust surj_pair)

lemma state_Consume_absent:
  assumes "store_entry client s (stateKey E t) = None"
  shows "snd (state_Consume E present client t s) = Inl ErrTokenNotFound"
  using state_get_none [OF assms] by (auto simp: state_Consume_def)

lemma state_Consume_taken:
  assumes "state_Consume E present client t s = (s1, x)" and "x \<noteq> Inl ErrTokenNotFound"
  shows "store_entry client s1 (stateKey E t) = None"
proof -
  obtain s0 v where g: "state_getAndDelete E client (stateKey E t) s = (s0, Inr v)"
    using states.get_answers by (metis surj_pair)
  have "present" "t \<noteq> []" using assms by (auto simp: state_Consume_def split: if_splits)
  with assms g obtain p where p: "v = Some p" by (cases v) (auto simp: state_Consume_def)
  have "s1 = s0 \<or> s1 = pass_time 1 s0"
    using assms(1) g p \<open>present\<close> \<open>t \<noteq> []\<close> by (cases p) (auto simp: state_Consume_def split: if_splits)
  then show ?thesis using states.get_gone [OF g [unfolded p]] states.pass_entry by metis
qed

lemma state_stays_absent:
  assumes "store_entry client s (stateKey E t) = None" and "never_drawn E (ts_tick s) t"
  shows "store_entry client (state_calls E client ops s) (stateKey E t) = None"
proof -
  obtain cs where "state_calls E client ops s = state_run E client cs s" "no_put (stateKey E t) cs"
    using state_calls_calls [OF assms(2)] by blast
  then show ?thesis using states.gone_stays_gone [OF assms(1)] by (simp add: no_put_def)
qed

text \<open>
  C36. A state that \<open>Issue\<close> returned is accepted by \<open>Consume\<close> after any calls that do not consume it, as long as the
  store can be reached and neither clock has passed its expiry. The record it yields binds the provider and intent
  it was issued for and the digest of the browser's nonce; and from then on the state is not found.
\<close>

theorem oauth_state_is_accepted_exactly_once:
  assumes "state_Issue E True client r ttl s = (s1, Inr (t, nonce, issued))" and "te_json E issued = Some issued"
    and "never_drawn E (ts_tick s1) t" and "\<And>u. ConsumeState u \<in> set ops \<Longrightarrow> te_digest E u \<noteq> te_digest E t"
    and "s2 = state_calls E client ops s1"
    and "store_reachable E client s2" and "store_clock E client s2 < store_clock E client s + ttl"
    and "local_clock E (ts_tick s2 + 1) < st_ExpiresAt issued"
  shows "\<exists>s3. state_Consume E True client t s2 = (s3, Inr issued)
    \<and> st_Provider issued = st_Provider r \<and> st_Intent issued = st_Intent r \<and> st_BrowserHash issued = te_digest E nonce
    \<and> snd (state_Consume E present client t (state_calls E client ops' s3)) = Inl ErrTokenNotFound"
proof -
  from assms(1,2) obtain s0 where put: "state_setNX E client (stateKey E t) (Encoded issued) ttl s0 = (s1, Inr True)"
    and le: "ts_tick s \<le> ts_tick s0" and t: "ticket_Valid t"
    and i: "issued = r\<lparr>st_IssuedAt := local_clock E (ts_tick s), st_ExpiresAt := local_clock E (ts_tick s) + ttl, st_BrowserHash := te_digest E nonce\<rparr>"
    by (metis option.inject state_Issue_put)
  obtain cs where cs: "s2 = state_run E client cs s1" "no_put (stateKey E t) cs" "TakeCall (stateKey E t) \<notin> set cs"
    using state_calls_calls [OF assms(3)] assms(4,5) by (metis stateKey_eq)
  obtain s4 g where g: "state_getAndDelete E client (stateKey E t) s2 = (s4, g)" by fastforce
  have "store_clock E client s2 < store_clock E client s0 + ttl" using assms(7) clock_step [OF le, of E client] by simp
  then have g': "g = Inr (Some (Encoded issued))"
    using states.put_then_get [OF put, of cs] cs assms(6) g by (auto simp: no_put_def)
  have "local_clock E (ts_tick s4) < st_ExpiresAt issued"
    using assms(8) clocks_mono(1) [of "ts_tick s4" "ts_tick s2 + 1" E] state_take_tick [OF g] by simp
  moreover have "t \<noteq> []" using t by (auto simp: ticket_Valid_def EncodedTicketLength_def)
  ultimately have c: "state_Consume E True client t s2 = (pass_time 1 s4, Inr issued)" using g g' by (simp add: state_Consume_def)
  have "ts_tick s1 \<le> ts_tick s2" unfolding cs(1) by (rule state_run_tick)
  moreover have "ts_tick s2 \<le> ts_tick s4" using state_tick(2) [of s2 E client "stateKey E t"] g by simp
  ultimately have "never_drawn E (ts_tick (pass_time 1 s4)) t" using never_drawn_later [OF assms(3)] by simp
  then have "snd (state_Consume E present client t (state_calls E client ops' (pass_time 1 s4))) = Inl ErrTokenNotFound"
    using state_Consume_absent state_stays_absent state_Consume_taken [OF c] by blast
  with c i show ?thesis by (intro exI [of _ "pass_time 1 s4"]) simp
qed

section \<open>Failures of Redis\<close>

text \<open>
  C37. When the consuming call of Redis fails, the caller learns only that the token is not found, whether the token was
  removed (the answer was lost) or is still there (the call was not applied): the branch that reports the failure is
  never taken.
\<close>

theorem failed_consume_is_reported_as_unknown:
  assumes "te_reply E (ts_tick s) = NotApplied e \<or> te_reply E (ts_tick s) = AnswerLost e" and "ticket_Valid t"
  shows "\<exists>s'. ticket_Consume E parse present True t s = (s', Inl ErrTokenNotFound)
    \<and> (te_reply E (ts_tick s) = NotApplied e \<longrightarrow> ts_redis s' = ts_redis s)
    \<and> (present \<and> te_reply E (ts_tick s) = AnswerLost e \<longrightarrow> ts_redis s' (ticketKey E t) = None)"
  using assms
  by (auto simp: ticket_Consume_def ticket_getAndDelete_def redis_take_def redis_call_def redis_get_del_def eval_Result_def taken_value_def Let_def)

section \<open>Witnesses\<close>

definition sample_url :: "string \<Rightarrow> parsedURL option" where
  "sample_url s = Some \<lparr>url_Scheme = ''https'', url_Opaque = [], url_HasUser = False, url_Host = ''a.io'', url_Path = [], url_RawPath = [],
     url_RawQuery = [], url_Fragment = [], url_Hostname = ''a.io'', url_Port = []\<rparr>"

definition sample_tokens :: "redis_reply \<Rightarrow> 'r token_env" where
  "sample_tokens reply = \<lparr>te_start = 100, te_elapsed = (\<lambda>_. 1), te_server_start = 7, te_server_elapsed = (\<lambda>_. 1),
     te_random = (\<lambda>n. if n = 1 then Some (\<lambda>i. CHR ''x'') else if n = 2 then Some (\<lambda>i. CHR ''y'') else None),
     te_reply = (\<lambda>_. reply), te_json = Some, te_digest = (\<lambda>x. x)\<rparr>"

definition empty_tokens :: "'r token_store" where
  "empty_tokens = \<lparr>ts_local = Map.empty, ts_redis = Map.empty, ts_tick = 0\<rparr>"

definition sample_holder :: ticket_record where
  "sample_holder = \<lparr>tr_UserID = '' u '', tr_RoleID = ''r'', tr_SessionID = ''s'', tr_Origin = ''https://A.io/'', tr_IssuedAt = 0, tr_ExpiresAt = 0\<rparr>"

definition sample_ticket :: string where
  "sample_ticket = base64_EncodeToString (map (\<lambda>i. CHR ''x'') [0..<ticketBytes])"

definition sample_issued :: ticket_record where
  "sample_issued = \<lparr>tr_UserID = ''u'', tr_RoleID = ''r'', tr_SessionID = ''s'', tr_Origin = ''https://a.io'', tr_IssuedAt = 100, tr_ExpiresAt = 160\<rparr>"

lemma sample_never_drawn: "3 \<le> n \<Longrightarrow> never_drawn (sample_tokens reply) n t"
  by (simp add: never_drawn_def sample_tokens_def)

abbreviation sample_issue :: "ticket_store \<times> (token_error + string \<times> ticket_record)" where
  "sample_issue \<equiv> ticket_Issue (sample_tokens Answered) sample_url True True sample_holder 60 empty_tokens"

lemma sample_clocks [simp]:
  "local_clock (sample_tokens reply) n = 100 + int n" "server_clock (sample_tokens reply) n = 7 + int n"
  by (simp_all add: local_clock_def server_clock_def sample_tokens_def sum_list_triv)

lemma sample_fields [simp]:
  "te_random (sample_tokens reply) n = (if n = 1 then Some (\<lambda>i. CHR ''x'') else if n = 2 then Some (\<lambda>i. CHR ''y'') else None)"
  "te_reply (sample_tokens reply) n = reply" "te_json (sample_tokens reply) = Some" "te_digest (sample_tokens reply) t = t"
  "ts_local empty_tokens = Map.empty" "ts_redis empty_tokens = Map.empty" "ts_tick empty_tokens = 0"
  by (simp_all add: sample_tokens_def empty_tokens_def)

lemma sample_origin: "NormalizeOrigin sample_url (tr_Origin sample_issued) = Some (tr_Origin sample_issued)"
  by code_simp

lemma sample_normal:
  "normalizeRecord sample_url sample_holder = Inr (sample_issued\<lparr>tr_IssuedAt := 0, tr_ExpiresAt := 0\<rparr>)"
  "normalizeRecord sample_url sample_issued = Inr sample_issued"
  by code_simp+

lemma sample_valid: "ticket_Valid sample_ticket" "\<not> ticket_Valid ''zz''" "sample_ticket \<noteq> ''zz''"
proof -
  have "length sample_ticket \<noteq> length ''zz''" by (simp add: sample_ticket_def length_base64 ticketBytes_def)
  then show "sample_ticket \<noteq> ''zz''" by (rule contrapos_nn) (rule arg_cong [where f = length])
  show "ticket_Valid sample_ticket"
    by (simp add: sample_ticket_def ticket_Valid_def base64_round_trip length_base64 EncodedTicketLength_def ticketBytes_def)
qed (simp add: ticket_Valid_def EncodedTicketLength_def)

lemma sample_issue_eval:
  "sample_issue = (empty_tokens\<lparr>ts_redis := [ticketKey (sample_tokens Answered :: ticket_env) sample_ticket \<mapsto> (Encoded sample_issued, 69)], ts_tick := 3\<rparr>,
     Inr (sample_ticket, sample_issued))"
  by (simp add: ticket_Issue_def sample_normal numeral_3_eq_3 randomToken_def ticket_setNX_def redis_call_def redis_set_nx_def
      sweepExpiredLocked_def Let_def pass_time_def sample_ticket_def sample_issued_def)

lemma sample_wait_eval:
  "ts_tick (ticket_calls (sample_tokens Answered) sample_url True [WaitTicket 5, ConsumeTicket ''zz''] s) = ts_tick s + 5"
  by (simp add: ticket_calls_def ticket_Consume_def sample_valid)

lemma sample_consume_eval:
  "\<exists>s1. ticket_Consume (sample_tokens Answered) sample_url True True sample_ticket (fst sample_issue) = (s1, Inr sample_issued) \<and> ts_tick s1 = 5"
  unfolding sample_issue_eval
  by (simp add: ticket_Consume_def sample_valid ticket_getAndDelete_def redis_take_def redis_call_def redis_get_del_def eval_Result_def
      taken_value_def sweepExpiredLocked_def Let_def sample_normal) (simp add: sample_issued_def)


theorem ticket_is_used_once_witness:
  "\<exists>s1. ticket_Consume (sample_tokens Answered) sample_url True True sample_ticket (fst sample_issue) = (s1, Inr sample_issued)
     \<and> snd (ticket_Consume (sample_tokens Answered) sample_url True True sample_ticket
         (ticket_calls (sample_tokens Answered) sample_url True [WaitTicket 1, IssueTicket sample_holder 60] s1)) = Inl ErrTokenNotFound"
proof -
  let ?E = "sample_tokens Answered :: ticket_env"
  obtain s1 where c: "ticket_Consume ?E sample_url True True sample_ticket (fst sample_issue) = (s1, Inr sample_issued)" and t1: "ts_tick s1 = 5"
    using sample_consume_eval by blast
  have "never_drawn ?E (ts_tick s1) sample_ticket" by (rule sample_never_drawn) (simp add: t1)
  from ticket_is_used_once [OF c _ this] c show ?thesis by blast
qed

definition sample_attempt :: state_record where
  "sample_attempt = \<lparr>st_Provider = ''github'', st_Intent = ''binding'', st_UserID = ''u'', st_SessionID = ''s'', st_BrowserHash = [],
     st_IssuedAt = 0, st_ExpiresAt = 0\<rparr>"

definition sample_nonce :: string where
  "sample_nonce = base64_EncodeToString (map (\<lambda>i. CHR ''y'') [0..<ticketBytes])"

definition sample_bound :: state_record where
  "sample_bound = \<lparr>st_Provider = ''github'', st_Intent = ''binding'', st_UserID = ''u'', st_SessionID = ''s'', st_BrowserHash = sample_nonce,
     st_IssuedAt = 100, st_ExpiresAt = 160\<rparr>"

abbreviation sample_state_issue :: "state_store \<times> (token_error + string \<times> string \<times> state_record)" where
  "sample_state_issue \<equiv> state_Issue (sample_tokens Answered) True False sample_attempt 60 empty_tokens"

lemma sample_state_eval:
  "\<exists>s1. sample_state_issue = (s1, Inr (sample_ticket, sample_nonce, sample_bound)) \<and> ts_tick s1 = 5"
  by (simp add: state_Issue_def Intent_Valid_def numeral_3_eq_3 state_randomToken_eq randomToken_def state_setNX_def sweepExpiredLocked_def
      Let_def pass_time_def sample_attempt_def sample_ticket_def sample_nonce_def sample_bound_def)

lemma sample_state_wait: "ts_tick (state_calls (sample_tokens Answered) False [WaitState 5] s) = ts_tick s + 5"
  by (simp add: state_calls_def)

theorem oauth_state_is_accepted_exactly_once_witness:
  "\<exists>s1 s3. sample_state_issue = (s1, Inr (sample_ticket, sample_nonce, sample_bound))
     \<and> state_Consume (sample_tokens Answered) True False sample_ticket
         (state_calls (sample_tokens Answered) False [WaitState 5] s1) = (s3, Inr sample_bound)
     \<and> snd (state_Consume (sample_tokens Answered) True False sample_ticket
         (state_calls (sample_tokens Answered) False [IssueState sample_attempt 9] s3)) = Inl ErrTokenNotFound"
proof -
  let ?E = "sample_tokens Answered :: state_env"
  let ?ops = "[WaitState 5]"
  obtain s1 where i: "sample_state_issue = (s1, Inr (sample_ticket, sample_nonce, sample_bound))" and t1: "ts_tick s1 = 5"
    using sample_state_eval by blast
  let ?s2 = "state_calls ?E False ?ops s1"
  have t2: "ts_tick ?s2 = 10" by (simp add: sample_state_wait t1)
  have "te_digest ?E u \<noteq> te_digest ?E sample_ticket" if "ConsumeState u \<in> set ?ops" for u
    using that by simp
  moreover have "never_drawn ?E (ts_tick s1) sample_ticket" by (rule sample_never_drawn) (simp add: t1)
  moreover have "te_json ?E sample_bound = Some sample_bound" by simp
  moreover have "store_reachable ?E False ?s2" by (simp add: store_reachable_def)
  moreover have "store_clock ?E False ?s2 < store_clock ?E False empty_tokens + 60"
    by (simp add: store_clock_def t2)
  moreover have "local_clock ?E (ts_tick ?s2 + 1) < st_ExpiresAt sample_bound" by (simp add: t2 sample_bound_def)
  ultimately show ?thesis
    using oauth_state_is_accepted_exactly_once [OF i, of ?ops ?s2 True "[IssueState sample_attempt 9]"] i by blast
qed

theorem failed_consume_is_reported_as_unknown_witness:
  "snd (ticket_Consume (sample_tokens (AnswerLost 3)) sample_url True True sample_ticket empty_tokens) = Inl ErrTokenNotFound"
proof -
  have "te_reply (sample_tokens (AnswerLost 3) :: ticket_env) (ts_tick (empty_tokens :: ticket_store)) = AnswerLost 3" by simp
  from failed_consume_is_reported_as_unknown [OF disjI2 [OF this] sample_valid(1), of sample_url True] show ?thesis by fastforce
qed

end
