(* ===== verification/Blue_Identity.thy ===== *)
theory Blue_Identity
  imports Go_Text
begin

text \<open>
  Paths and identities of a blueprint snapshot (\<open>internal/mss/blueprint/config.go\<close>, \<open>identity.go\<close>,
  \<open>internal/mss/project/context.go\<close>). The regular expressions of the code are predicates on their pieces; the parser of
  RFC 3339 times, SHA-256 and the JSON of the digest input are given by the environment. Checks are Booleans: the
  texts of the problems are not kept.
\<close>

section \<open>Paths\<close>

text \<open>\<open>path.Clean\<close>.\<close>

fun clean_loop :: "bool \<Rightarrow> string list \<Rightarrow> string list \<Rightarrow> string list" where
  "clean_loop rooted out [] = rev out"
| "clean_loop rooted out (c # cs) =
     (if c = [] \<or> c = ''.'' then clean_loop rooted out cs
      else if c = ''..'' then
        (case out of
           [] \<Rightarrow> clean_loop rooted (if rooted then [] else [c]) cs
         | d # rest \<Rightarrow> clean_loop rooted (if d = ''..'' then c # out else rest) cs)
      else clean_loop rooted (c # out) cs)"

fun path_join :: "string list \<Rightarrow> string" where
  "path_join [] = []"
| "path_join [c] = c"
| "path_join (c # cs) = c @ ''/'' @ path_join cs"

definition path_Clean :: "string \<Rightarrow> string" where
  "path_Clean p =
     (let rooted = strings_HasPrefix p ''/'';
          body = path_join (clean_loop rooted [] (strings_Split CHR ''/'' p)) in
      if rooted then ''/'' @ body else if body = [] then ''.'' else body)"

definition normalizedPath :: "string \<Rightarrow> string" where
  "normalizedPath value = (let v = strings_TrimSpace value in if v = [] then [] else path_Clean v)"

definition safeRelativePath :: "string \<Rightarrow> bool" where
  "safeRelativePath value =
     (let v = strings_TrimSpace value in
      if v = [] \<or> strings_HasPrefix v ''/'' \<or> strings_ContainsAny v [CHR 0x5C, CHR '':'', CHR 0x00] then False
      else path_Clean v \<noteq> ''.'' \<and> path_Clean v \<noteq> ''..'' \<and> \<not> strings_HasPrefix (path_Clean v) ''../'')"

definition confinedManagedPath :: "string \<Rightarrow> string option" where
  "confinedManagedPath relative =
     (let normalized = normalizedPath relative in
      if \<not> safeRelativePath normalized \<or> normalized \<noteq> strings_TrimSpace relative then None else Some normalized)"

section \<open>Patterns\<close>

definition lower_digit :: "char \<Rightarrow> bool" where
  "lower_digit c \<longleftrightarrow> char_in (CHR ''a'') (CHR ''z'') c \<or> is_digit c"

definition alnum :: "char \<Rightarrow> bool" where
  "alnum c \<longleftrightarrow> lower_digit c \<or> is_upper c"

definition lower_hex :: "nat \<Rightarrow> string \<Rightarrow> bool" where
  "lower_hex n s \<longleftrightarrow> length s = n \<and> list_all (\<lambda>c. is_digit c \<or> char_in (CHR ''a'') (CHR ''f'') c) s"

definition fullCommitPattern :: "string \<Rightarrow> bool" where
  "fullCommitPattern s = lower_hex 40 s"

definition sha256Pattern :: "string \<Rightarrow> bool" where
  "sha256Pattern s = lower_hex 64 s"

definition blueprintNamePattern :: "string \<Rightarrow> bool" where
  "blueprintNamePattern s \<longleftrightarrow>
     (case s of [] \<Rightarrow> False | c # _ \<Rightarrow> char_in (CHR ''a'') (CHR ''z'') c)
     \<and> list_all (\<lambda>w. w \<noteq> [] \<and> list_all lower_digit w) (strings_Split CHR ''-'' s)"

definition goModulePattern :: "string \<Rightarrow> bool" where
  "goModulePattern s \<longleftrightarrow> s \<noteq> [] \<and> list_all (\<lambda>c. alnum c \<or> c \<in> set ''._~/-'') s"

definition repositoryPattern :: "string \<Rightarrow> bool" where
  "repositoryPattern s \<longleftrightarrow>
     (case strings_Split CHR ''/'' s of
        [owner, name] \<Rightarrow> list_all (\<lambda>w. w \<noteq> [] \<and> list_all (\<lambda>c. alnum c \<or> c \<in> set ''_.-'') w) [owner, name]
      | _ \<Rightarrow> False)"

definition version_number :: "string \<Rightarrow> bool" where
  "version_number s \<longleftrightarrow> s = ''0'' \<or> (case s of [] \<Rightarrow> False | c # cs \<Rightarrow> char_in (CHR ''1'') (CHR ''9'') c \<and> list_all is_digit cs)"

definition version_label :: "string \<Rightarrow> bool" where
  "version_label s \<longleftrightarrow> version_number s
     \<or> list_all (\<lambda>c. alnum c \<or> c = CHR ''-'') s \<and> list_ex (\<lambda>c. alnum c \<and> \<not> is_digit c \<or> c = CHR ''-'') s"

definition semanticVersionPattern :: "string \<Rightarrow> bool" where
  "semanticVersionPattern s =
     (let core = takeWhile (\<lambda>c. c \<noteq> CHR ''-'') s;
          rest = dropWhile (\<lambda>c. c \<noteq> CHR ''-'') s;
          numbers = strings_Split CHR ''.'' core in
      length numbers = 3 \<and> list_all version_number numbers
      \<and> (rest = [] \<or> list_all version_label (strings_Split CHR ''.'' (tl rest))))"

definition validSemanticVersion :: "string \<Rightarrow> bool" where
  "validSemanticVersion value = semanticVersionPattern (strings_TrimSpace value)"

section \<open>Applications and distributions\<close>

record application =
  app_Name :: string
  app_DisplayName :: string
  app_Module :: string
  app_Repository :: string

definition validModule :: "string \<Rightarrow> bool" where
  "validModule value =
     (let v = strings_TrimSpace value in
      v \<noteq> [] \<and> \<not> strings_ContainsAny v [CHR '' '', CHR 0x5C, CHR '':''] \<and> goModulePattern v \<and> CHR ''/'' \<in> set v)"

definition ValidateApplication :: "application \<Rightarrow> bool" where
  "ValidateApplication a \<longleftrightarrow> blueprintNamePattern (app_Name a) \<and> strings_TrimSpace (app_DisplayName a) \<noteq> []
     \<and> validModule (app_Module a) \<and> (app_Repository a = [] \<or> repositoryPattern (app_Repository a))"

record distributionSpec =
  ds_Name :: string
  ds_Version :: string
  ds_BackendModule :: string
  ds_BackendVersion :: string
  ds_FrontendPackage :: string
  ds_FrontendVersion :: string

definition distribution_Empty :: "distributionSpec \<Rightarrow> bool" where
  "distribution_Empty d \<longleftrightarrow> list_all (\<lambda>f. strings_TrimSpace (f d) = [])
     [ds_Name, ds_Version, ds_BackendModule, ds_BackendVersion, ds_FrontendPackage, ds_FrontendVersion]"

text \<open>\<open>semanticVersionCore\<close>, and \<open>Validate\<close> of a distribution, which ties the three versions together.\<close>

definition prerelease_part :: "string \<Rightarrow> bool" where
  "prerelease_part s \<longleftrightarrow> s \<noteq> [] \<and> list_all (\<lambda>c. alnum c \<or> c = CHR ''-'') s
     \<and> \<not> (length s > 1 \<and> hd s = CHR ''0'' \<and> list_all is_digit s)"

definition core_number :: "string \<Rightarrow> bool" where
  "core_number s \<longleftrightarrow> s \<noteq> [] \<and> \<not> (length s > 1 \<and> hd s = CHR ''0'') \<and> list_all is_digit s"

definition semanticVersionCore :: "string \<Rightarrow> bool \<Rightarrow> string option" where
  "semanticVersionCore value prefixed =
     (let v = strings_TrimSpace value in
      if prefixed \<noteq> strings_HasPrefix v ''v'' then None
      else
        (let version = (if prefixed then drop 1 v else v);
             core = takeWhile (\<lambda>c. c \<noteq> CHR ''-'') version;
             rest = dropWhile (\<lambda>c. c \<noteq> CHR ''-'') version;
             parts = strings_Split CHR ''.'' core in
         if CHR ''+'' \<in> set version \<or> rest = ''-'' \<or> length parts \<noteq> 3 \<or> \<not> list_all core_number parts then None
         else if rest \<noteq> [] \<and> \<not> list_all prerelease_part (strings_Split CHR ''.'' (tl rest)) then None
         else Some version))"

definition distribution_Validate :: "distributionSpec \<Rightarrow> bool" where
  "distribution_Validate d =
     (let product = semanticVersionCore (ds_Version d) True;
          backend = semanticVersionCore (ds_BackendVersion d) True;
          frontend = semanticVersionCore (ds_FrontendVersion d) False in
      strings_TrimSpace (ds_Name d) \<noteq> [] \<and> product \<noteq> None
      \<and> strings_TrimSpace (ds_BackendModule d) \<noteq> [] \<and> \<not> strings_ContainsAny (ds_BackendModule d) [CHR '' '', CHR 0x5C, CHR '':'']
      \<and> backend \<noteq> None \<and> strings_TrimSpace (ds_FrontendPackage d) \<noteq> [] \<and> frontend \<noteq> None
      \<and> backend = product \<and> frontend = product)"

section \<open>Identities\<close>

record foundationIdentity =
  fi_Repository :: string
  fi_Version :: string
  fi_Commit :: string
  fi_Timestamp :: string
  fi_Channel :: string
  fi_Source :: string

record blueprintIdentity =
  bi_Name :: string
  bi_Version :: string
  bi_SHA256 :: string

record generatorIdentity =
  gi_Tool :: string
  gi_Version :: string
  gi_Commit :: string

record snapshotIdentity =
  si_Project :: string
  si_Module :: string
  si_Repository :: string
  si_SHA256 :: string

record identitySet =
  ids_Foundation :: foundationIdentity
  ids_Blueprint :: blueprintIdentity
  ids_Generator :: generatorIdentity
  ids_Snapshot :: snapshotIdentity

record manifestFile =
  mf_SHA256 :: string
  mf_Mode :: nat
  mf_Size :: int

text \<open>The input of the snapshot digest; modes hold the permission bits.\<close>

record snapshotDigestInput =
  sdi_Application :: "string \<times> string \<times> string"
  sdi_Foundation :: foundationIdentity
  sdi_Blueprint :: blueprintIdentity
  sdi_Generator :: generatorIdentity
  sdi_Files :: "(string \<times> string \<times> nat \<times> int) list"

record identity_env =
  ie_RFC3339 :: "string \<Rightarrow> bool"
  ie_digest :: "string \<Rightarrow> string"
  ie_json :: "snapshotDigestInput \<Rightarrow> string option"

definition computeSnapshotDigest :: "identity_env \<Rightarrow> identitySet \<Rightarrow> (string, manifestFile) gomap \<Rightarrow> string option" where
  "computeSnapshotDigest E ids files =
     map_option (ie_digest E) (ie_json E
       \<lparr>sdi_Application = (si_Project (ids_Snapshot ids), si_Module (ids_Snapshot ids), si_Repository (ids_Snapshot ids)),
        sdi_Foundation = ids_Foundation ids, sdi_Blueprint = ids_Blueprint ids, sdi_Generator = ids_Generator ids,
        sdi_Files = map (\<lambda>(p, f). (p, mf_SHA256 f, mf_Mode f mod 512, mf_Size f)) (sorted_list_of_fmap files)\<rparr>)"

definition valid_foundation :: "identity_env \<Rightarrow> foundationIdentity \<Rightarrow> bool" where
  "valid_foundation E f \<longleftrightarrow> repositoryPattern (fi_Repository f) \<and> validSemanticVersion (fi_Version f) \<and> fullCommitPattern (fi_Commit f)
     \<and> ie_RFC3339 E (fi_Timestamp f) \<and> (fi_Channel f = ''candidate'' \<or> fi_Channel f = ''stable'')
     \<and> fi_Source f = ''.mss/release-policy.yaml''"

definition valid_blueprint :: "blueprintIdentity \<Rightarrow> bool" where
  "valid_blueprint b \<longleftrightarrow> blueprintNamePattern (bi_Name b) \<and> validSemanticVersion (bi_Version b) \<and> sha256Pattern (bi_SHA256 b)"

definition valid_generator :: "generatorIdentity \<Rightarrow> bool" where
  "valid_generator g \<longleftrightarrow> gi_Tool g = ''mss'' \<and> strings_TrimSpace (gi_Version g) \<noteq> [] \<and> (gi_Commit g = [] \<or> fullCommitPattern (gi_Commit g))"

definition valid_snapshot :: "snapshotIdentity \<Rightarrow> bool" where
  "valid_snapshot i \<longleftrightarrow>
     ValidateApplication \<lparr>app_Name = si_Project i, app_DisplayName = si_Project i, app_Module = si_Module i, app_Repository = si_Repository i\<rparr>
     \<and> sha256Pattern (si_SHA256 i)"

definition valid_records :: "string \<Rightarrow> string \<Rightarrow> bool" where
  "valid_records lockPath manifestPath \<longleftrightarrow> safeRelativePath lockPath \<and> safeRelativePath manifestPath
     \<and> normalizedPath lockPath \<noteq> normalizedPath manifestPath
     \<and> lockPath = normalizedPath lockPath \<and> manifestPath = normalizedPath manifestPath"

definition valid_baseline_file :: "string \<Rightarrow> string \<Rightarrow> string \<times> manifestFile \<Rightarrow> bool" where
  "valid_baseline_file lockPath manifestPath pf \<longleftrightarrow>
     (case pf of (p, f) \<Rightarrow> safeRelativePath p \<and> p = normalizedPath p
        \<and> normalizedPath p \<noteq> normalizedPath lockPath \<and> normalizedPath p \<noteq> normalizedPath manifestPath
        \<and> sha256Pattern (mf_SHA256 f) \<and> 0 \<le> mf_Size f \<and> mf_Mode f mod 512 \<noteq> 0 \<and> mf_Mode f < 512)"

definition validateIdentitySet :: "identity_env \<Rightarrow> identitySet \<Rightarrow> (string, manifestFile) gomap \<Rightarrow> string \<Rightarrow> string \<Rightarrow> bool \<Rightarrow> bool" where
  "validateIdentitySet E ids files lockPath manifestPath requireBaseline \<longleftrightarrow>
     valid_foundation E (ids_Foundation ids) \<and> valid_blueprint (ids_Blueprint ids) \<and> valid_generator (ids_Generator ids)
     \<and> valid_snapshot (ids_Snapshot ids) \<and> valid_records lockPath manifestPath
     \<and> (requireBaseline \<longrightarrow> files \<noteq> fmempty)
     \<and> list_all (valid_baseline_file lockPath manifestPath) (sorted_list_of_fmap files)
     \<and> (requireBaseline \<longrightarrow> computeSnapshotDigest E ids files = Some (si_SHA256 (ids_Snapshot ids)))"

section \<open>Facts\<close>

lemma confined_canonical: "confinedManagedPath p = Some k \<Longrightarrow> k = normalizedPath p \<and> k = strings_TrimSpace p \<and> safeRelativePath k"
  by (auto simp: confinedManagedPath_def Let_def split: if_splits)

lemma baseline_paths:
  assumes "validateIdentitySet E ids files lockPath manifestPath b" and "fmlookup files p = Some f"
  shows "safeRelativePath p" "normalizedPath p = p" "p \<noteq> lockPath" "p \<noteq> manifestPath"
proof -
  have "(p, f) \<in> set (sorted_list_of_fmap files)" using assms(2) by (force simp: sorted_list_of_fmap_def fmdomI)
  with assms(1) have "valid_baseline_file lockPath manifestPath (p, f)" "valid_records lockPath manifestPath"
    by (auto simp: validateIdentitySet_def list_all_iff)
  then show "safeRelativePath p" "normalizedPath p = p" "p \<noteq> lockPath" "p \<noteq> manifestPath"
    by (auto simp: valid_baseline_file_def valid_records_def)
qed

lemma path_Clean_examples:
  "path_Clean ''a//b/./c/../d'' = ''a/b/d''" "path_Clean ''../x'' = ''../x''" "path_Clean ''/../x/'' = ''/x''" "path_Clean ''a/..'' = ''.''"
  by code_simp+

lemma validSemanticVersion_examples:
  "validSemanticVersion ''1.20.0-rc.1''" "\<not> validSemanticVersion ''1.02.0''" "\<not> validSemanticVersion ''1.0.0-01''"
  by code_simp+

end
