(* ===== verification/Blue_Disk.thy ===== *)
theory Blue_Disk
  imports Blue_Identity
begin

text \<open>
  The repository a snapshot is written to (\<open>internal/mss/blueprint/managed_root.go\<close>). A path holds a regular file with
  its permission bits, a symbolic link or a directory; the journal of a transaction is a flag of its own. Every call
  of the code takes a step: it may fail before or after its effect, and other programs, which the advisory lock does not
  stop, may change paths just before it. \<open>dk_seen\<close> keeps every state a reader or a crash could find. Parents are created
  and empty ones removed without an effect on paths, and temporary files are no paths of the model.
\<close>

section \<open>State\<close>

datatype disk_node = Regular string nat | Symlink | Directory

datatype fault = Fine | FailsBefore nat | FailsAfter nat

datatype bperr =
  NotExist | UnsafePath | NotRegular | DiskError nat | NeedsRecovery | ChangedAfterPlanning string | MissingDesired string
| HasConflicts | ChangedDuringApply string | MissingRecord string | InvalidManifest | LegacyManifest | InvalidLock | Contradiction
| HookFailed nat | RestoreFailed "bperr list" | WithRollback bperr "bperr list" | UnexpectedAction string

type_synonym files = "string \<Rightarrow> disk_node option"

record disk =
  dk_files :: files
  dk_journal :: bool
  dk_tick :: nat
  dk_seen :: "(files \<times> bool) list"

record disk_env =
  de_fault :: "nat \<Rightarrow> fault"
  de_edits :: "nat \<Rightarrow> (string \<times> disk_node option) list"

type_synonym 'a disk_call = "disk_env \<Rightarrow> disk \<Rightarrow> disk \<times> (bperr + 'a)"

definition apply_edits :: "(string \<times> disk_node option) list \<Rightarrow> files \<Rightarrow> files" where
  "apply_edits es f = fold (\<lambda>(p, n) g. g(p := n)) es f"

definition disk_enter :: "disk_env \<Rightarrow> disk \<Rightarrow> disk" where
  "disk_enter E s =
     (let f = apply_edits (de_edits E (dk_tick s)) (dk_files s) in
      s\<lparr>dk_files := f, dk_tick := Suc (dk_tick s), dk_seen := (f, dk_journal s) # dk_seen s\<rparr>)"

definition disk_note :: "disk \<Rightarrow> disk" where
  "disk_note s = s\<lparr>dk_seen := (dk_files s, dk_journal s) # dk_seen s\<rparr>"

section \<open>Sequencing\<close>

definition disk_return :: "'a \<Rightarrow> 'a disk_call" where
  "disk_return x E s = (s, Inr x)"

definition disk_raise :: "bperr \<Rightarrow> 'a disk_call" where
  "disk_raise e E s = (s, Inl e)"

definition disk_bind :: "'a disk_call \<Rightarrow> ('a \<Rightarrow> 'b disk_call) \<Rightarrow> 'b disk_call" where
  "disk_bind m f E s = (case m E s of (s1, Inl e) \<Rightarrow> (s1, Inl e) | (s1, Inr x) \<Rightarrow> f x E s1)"

definition disk_refuse :: "bool \<Rightarrow> bperr \<Rightarrow> unit disk_call" where
  "disk_refuse c e = (if c then disk_raise e else disk_return ())"

fun disk_each :: "('a \<Rightarrow> unit disk_call) \<Rightarrow> 'a list \<Rightarrow> unit disk_call" where
  "disk_each f [] = disk_return ()"
| "disk_each f (x # xs) = disk_bind (f x) (\<lambda>_. disk_each f xs)"

text \<open>A call without an effect on paths, and one whose effect is \<open>f\<close>.\<close>

definition disk_probe :: "unit disk_call" where
  "disk_probe E s =
     (disk_enter E s, case de_fault E (dk_tick s) of Fine \<Rightarrow> Inr () | FailsBefore n \<Rightarrow> Inl (DiskError n) | FailsAfter n \<Rightarrow> Inl (DiskError n))"

definition disk_effect :: "(disk \<Rightarrow> bperr + disk) \<Rightarrow> unit disk_call" where
  "disk_effect f E s =
     (let s1 = disk_enter E s in
      case de_fault E (dk_tick s) of
        FailsBefore n \<Rightarrow> (s1, Inl (DiskError n))
      | fault \<Rightarrow>
          (case f s1 of
             Inl e \<Rightarrow> (s1, Inl e)
           | Inr s2 \<Rightarrow> (disk_note s2, case fault of FailsAfter n \<Rightarrow> Inl (DiskError n) | _ \<Rightarrow> Inr ())))"

section \<open>The managed root\<close>

definition confined :: "string \<Rightarrow> (string \<Rightarrow> 'a disk_call) \<Rightarrow> 'a disk_call" where
  "confined relative f = (case confinedManagedPath relative of None \<Rightarrow> disk_raise UnsafePath | Some key \<Rightarrow> f key)"

definition disk_look :: "string \<Rightarrow> (string \<times> nat) option disk_call" where
  "disk_look key E s =
     (case disk_probe E s of
        (s1, Inl e) \<Rightarrow> (s1, Inl e)
      | (s1, Inr _) \<Rightarrow>
          (s1, case dk_files s1 key of None \<Rightarrow> Inr None | Some (Regular d m) \<Rightarrow> Inr (Some (d, m)) | Some _ \<Rightarrow> Inl NotRegular))"

definition readFile :: "string \<Rightarrow> (string \<times> nat) option disk_call" where
  "readFile relative = confined relative disk_look"

definition writeAtomic :: "string \<Rightarrow> string \<Rightarrow> nat \<Rightarrow> unit disk_call" where
  "writeAtomic relative data mode =
     confined relative (\<lambda>key. disk_effect (\<lambda>s.
       if dk_files s key \<in> {Some Symlink, Some Directory} then Inl NotRegular
       else Inr (s\<lparr>dk_files := (dk_files s)(key \<mapsto> Regular data (mode mod 512))\<rparr>)))"

definition removeFile :: "string \<Rightarrow> unit disk_call" where
  "removeFile relative =
     confined relative (\<lambda>key. disk_effect (\<lambda>s.
       case dk_files s key of
         None \<Rightarrow> Inl NotExist
       | Some (Regular d m) \<Rightarrow> Inr (s\<lparr>dk_files := (dk_files s)(key := None)\<rparr>)
       | Some _ \<Rightarrow> Inl NotRegular))"

text \<open>The rename of a staged record, over whatever but a directory is there.\<close>

definition commit_staged :: "string \<Rightarrow> string \<Rightarrow> nat \<Rightarrow> unit disk_call" where
  "commit_staged relative data mode =
     confined relative (\<lambda>key. disk_effect (\<lambda>s.
       if dk_files s key = Some Directory then Inl NotRegular
       else Inr (s\<lparr>dk_files := (dk_files s)(key \<mapsto> Regular data (mode mod 512))\<rparr>)))"

definition stageRecord :: "string \<Rightarrow> unit disk_call" where
  "stageRecord relative = confined relative (\<lambda>key. disk_probe)"

definition acquireSnapshotWriter :: "unit disk_call" where
  "acquireSnapshotWriter = disk_probe"

definition acquireSnapshotReader :: "unit disk_call" where
  "acquireSnapshotReader = disk_probe"

definition openManagedRoot :: "unit disk_call" where
  "openManagedRoot = disk_probe"

section \<open>The journal\<close>

definition journal_remove :: "disk \<Rightarrow> bperr + disk" where
  "journal_remove s = Inr (s\<lparr>dk_journal := False\<rparr>)"

text \<open>
  When a step after the exclusive creation fails, the file is removed again and the outcome of that removal is not looked
  at.
\<close>

definition beginSnapshotTransaction :: "unit disk_call" where
  "beginSnapshotTransaction E s =
     (case disk_effect (\<lambda>s1. if dk_journal s1 then Inl NeedsRecovery else Inr (s1\<lparr>dk_journal := True\<rparr>)) E s of
        (s1, Inr _) \<Rightarrow> (s1, Inr ())
      | (s1, Inl e) \<Rightarrow> (if dk_journal s1 \<and> \<not> dk_journal s then fst (disk_effect journal_remove E s1) else s1, Inl e))"

definition finishTransaction :: "unit disk_call" where
  "finishTransaction = disk_effect journal_remove"

definition checkSnapshotTransaction :: "unit disk_call" where
  "checkSnapshotTransaction E s =
     (case disk_probe E s of (s1, Inl e) \<Rightarrow> (s1, Inl e) | (s1, Inr _) \<Rightarrow> (s1, if dk_journal s1 then Inl NeedsRecovery else Inr ()))"

section \<open>Successful calls\<close>

named_theorems disk_ok \<open>success of a call as a condition on what it returned and the disk it left\<close>

lemma disk_return_ok [disk_ok]: "disk_return x E s = (s', Inr y) \<longleftrightarrow> s' = s \<and> y = x"
  by (auto simp: disk_return_def)

lemma disk_raise_ok [disk_ok]: "disk_raise e E s \<noteq> (s', Inr y)"
  by (simp add: disk_raise_def)

lemma disk_bind_ok [disk_ok]: "disk_bind m f E s = (s', Inr y) \<longleftrightarrow> (\<exists>s1 x. m E s = (s1, Inr x) \<and> f x E s1 = (s', Inr y))"
  by (auto simp: disk_bind_def split: prod.split sum.split)

lemma disk_refuse_ok [disk_ok]: "disk_refuse c e E s = (s', Inr y) \<longleftrightarrow> \<not> c \<and> s' = s"
  by (auto simp: disk_refuse_def disk_return_def disk_raise_def)

lemma disk_bind_cases:
  assumes "disk_bind m f E s = (s', r)"
  obtains (failed) e where "m E s = (s', Inl e)" "r = Inl e" | (passed) s1 x where "m E s = (s1, Inr x)" "f x E s1 = (s', r)"
  using assms by (auto simp: disk_bind_def split: prod.splits sum.splits)

section \<open>Disks without edits\<close>

text \<open>
  \<open>disk_quiet\<close>: no other program changes a path. Then a call that only looks leaves the files alone, and \<open>disk_runs\<close> says what a
  call may do: it keeps the journal as it is, and all it passes through carries that journal.
\<close>

definition disk_quiet :: "disk_env \<Rightarrow> bool" where
  "disk_quiet E \<longleftrightarrow> (\<forall>n. de_edits E n = [])"

definition disk_runs :: "disk \<Rightarrow> disk \<Rightarrow> bool" where
  "disk_runs s s' \<longleftrightarrow> dk_journal s' = dk_journal s \<and> (\<exists>vs. dk_seen s' = vs @ dk_seen s \<and> (\<forall>v \<in> set vs. snd v = dk_journal s))"

definition disk_reads :: "disk \<Rightarrow> disk \<Rightarrow> bool" where
  "disk_reads s s' \<longleftrightarrow> dk_files s' = dk_files s \<and> dk_journal s' = dk_journal s
     \<and> (\<exists>vs. dk_seen s' = vs @ dk_seen s \<and> (\<forall>v \<in> set vs. v = (dk_files s, dk_journal s)))"

lemma disk_reads_refl [simp]: "disk_reads s s"
  by (simp add: disk_reads_def)

lemma disk_reads_trans: "disk_reads s s1 \<Longrightarrow> disk_reads s1 s2 \<Longrightarrow> disk_reads s s2"
  unfolding disk_reads_def by auto

lemma disk_runs_refl [simp]: "disk_runs s s"
  by (simp add: disk_runs_def)

lemma disk_runs_trans: "disk_runs s s1 \<Longrightarrow> disk_runs s1 s2 \<Longrightarrow> disk_runs s s2"
  unfolding disk_runs_def by auto

lemma disk_reads_runs: "disk_reads s s' \<Longrightarrow> disk_runs s s'"
  unfolding disk_reads_def disk_runs_def by (metis snd_conv)

lemma enter_reads: "disk_quiet E \<Longrightarrow> disk_reads s (disk_enter E s)"
  by (auto simp: disk_enter_def disk_quiet_def disk_reads_def apply_edits_def Let_def)

lemma enter_runs: "disk_runs s (disk_enter E s)"
  by (auto simp: disk_enter_def disk_runs_def Let_def)

lemma enter_simps [simp]:
  "disk_quiet E \<Longrightarrow> dk_files (disk_enter E s) = dk_files s" "dk_journal (disk_enter E s) = dk_journal s"
  by (simp_all add: disk_enter_def disk_quiet_def apply_edits_def Let_def)

lemma note_simps [simp]: "dk_files (disk_note s) = dk_files s" "dk_journal (disk_note s) = dk_journal s"
  by (simp_all add: disk_note_def)

lemma probe_reads: "disk_quiet E \<Longrightarrow> disk_probe E s = (s', r) \<Longrightarrow> disk_reads s s'"
  using enter_reads by (auto simp: disk_probe_def)

lemma look_reads: "disk_quiet E \<Longrightarrow> disk_look key E s = (s', r) \<Longrightarrow> disk_reads s s'"
  by (auto simp: disk_look_def probe_reads split: prod.splits sum.splits)

lemma readFile_reads: "disk_quiet E \<Longrightarrow> readFile p E s = (s', r) \<Longrightarrow> disk_reads s s'"
  by (auto simp: readFile_def confined_def look_reads disk_raise_def split: option.splits)

lemma readFile_ok:
  assumes "disk_quiet E" and "readFile p E s = (s', Inr v)" and "confinedManagedPath p = Some k"
  shows "(case v of None \<Rightarrow> dk_files s k = None | Some (d, m) \<Rightarrow> dk_files s k = Some (Regular d m))"
  using assms by (auto simp: readFile_def confined_def disk_look_def disk_probe_def split: prod.splits sum.splits option.splits disk_node.splits fault.splits)

lemma readFile_confined: "readFile p E s = (s', Inr v) \<Longrightarrow> \<exists>k. confinedManagedPath p = Some k"
  by (auto simp: readFile_def confined_def disk_raise_def split: option.splits)

text \<open>A call with an effect leaves the files as they were or as the effect makes them.\<close>

lemma effect_runs:
  assumes "disk_effect f E s = (s', r)" and "\<And>s1 s2. f s1 = Inr s2 \<Longrightarrow> dk_journal s2 = dk_journal s1 \<and> dk_seen s2 = dk_seen s1"
  shows "disk_runs s s'"
proof -
  have e: "disk_runs s (disk_enter E s)" by (rule enter_runs)
  have "disk_runs (disk_enter E s) (disk_note s2)" if "f (disk_enter E s) = Inr s2" for s2
    using assms(2) [OF that] by (auto simp: disk_runs_def disk_note_def)
  with e assms(1) show ?thesis
    by (auto simp: disk_effect_def Let_def split: fault.splits sum.splits intro: disk_runs_trans)
qed

lemma writeAtomic_runs: "writeAtomic p d m E s = (s', r) \<Longrightarrow> disk_runs s s'"
  by (auto simp: writeAtomic_def confined_def disk_raise_def split: option.splits if_splits elim!: effect_runs)

lemma removeFile_runs: "removeFile p E s = (s', r) \<Longrightarrow> disk_runs s s'"
  by (auto simp: removeFile_def confined_def disk_raise_def split: option.splits if_splits disk_node.splits elim!: effect_runs)

lemma commit_runs: "commit_staged p d m E s = (s', r) \<Longrightarrow> disk_runs s s'"
  by (auto simp: commit_staged_def confined_def disk_raise_def split: option.splits if_splits elim!: effect_runs)

lemma stage_reads: "disk_quiet E \<Longrightarrow> stageRecord p E s = (s', r) \<Longrightarrow> disk_reads s s'"
  by (auto simp: stageRecord_def confined_def disk_raise_def probe_reads split: option.splits)

text \<open>What the three writing calls leave at their path and elsewhere.\<close>

lemma effect_files:
  assumes "disk_quiet E" and "disk_effect (\<lambda>s. if P s then Inl e else Inr (s\<lparr>dk_files := (dk_files s)(k := v)\<rparr>)) E s = (s', r)"
  shows "dk_files s' = dk_files s \<or> dk_files s' = (dk_files s)(k := v)" and "r = Inr x \<Longrightarrow> dk_files s' = (dk_files s)(k := v)"
  using assms by (auto simp: disk_effect_def Let_def split: fault.splits sum.splits if_splits)

lemma writeAtomic_files:
  assumes "disk_quiet E" and "writeAtomic p d m E s = (s', r)" and "confinedManagedPath p = Some k"
  shows "dk_files s' = dk_files s \<or> dk_files s' = (dk_files s)(k \<mapsto> Regular d (m mod 512))"
    and "r = Inr x \<Longrightarrow> dk_files s' = (dk_files s)(k \<mapsto> Regular d (m mod 512))"
  using effect_files [OF assms(1)] assms(2,3) by (auto simp: writeAtomic_def confined_def)

lemma commit_files:
  assumes "disk_quiet E" and "commit_staged p d m E s = (s', r)" and "confinedManagedPath p = Some k"
  shows "dk_files s' = dk_files s \<or> dk_files s' = (dk_files s)(k \<mapsto> Regular d (m mod 512))"
    and "r = Inr x \<Longrightarrow> dk_files s' = (dk_files s)(k \<mapsto> Regular d (m mod 512))"
  using effect_files [OF assms(1)] assms(2,3) by (auto simp: commit_staged_def confined_def)

lemma removeFile_files:
  assumes "disk_quiet E" and "removeFile p E s = (s', r)" and "confinedManagedPath p = Some k"
  shows "dk_files s' = dk_files s \<or> dk_files s' = (dk_files s)(k := None)"
    and "r = Inr x \<Longrightarrow> dk_files s' = (dk_files s)(k := None)"
    and "r = Inl NotExist \<Longrightarrow> dk_files s' = (dk_files s)(k := None)"
  using assms
  by (auto simp: removeFile_def confined_def disk_effect_def Let_def fun_upd_idem split: fault.splits sum.splits option.splits disk_node.splits)

end
