(* ===== verification/Blue_Snapshot.thy ===== *)
theory Blue_Snapshot
  imports Blue_Disk
begin

text \<open>
  The snapshot: a YAML lock and a JSON manifest that describe each other (\<open>internal/mss/blueprint/snapshot.go\<close>), and the
  commit of the pair (\<open>transaction.go\<close>). The strict decoders of the two formats are given by the environment; every
  check on what they decode is modelled. The manifest is written last.
\<close>

section \<open>Records\<close>

record manifestMetadata =
  md_Project :: string
  md_Module :: string
  md_Repository :: string
  md_Blueprint :: string
  md_BlueprintVersion :: string
  md_FoundationRepository :: string
  md_FoundationCommit :: string
  md_FoundationTimestamp :: string
  md_GeneratorVersion :: string
  md_GeneratorCommit :: string

record snapshotRecordPaths =
  rp_LockPath :: string
  rp_ManifestPath :: string

record manifest =
  m_APIVersion :: string
  m_Kind :: string
  m_Metadata :: manifestMetadata
  m_Distribution :: distributionSpec
  m_Identities :: identitySet
  m_Records :: snapshotRecordPaths
  m_LockSHA256 :: string
  m_Files :: "(string, manifestFile) gomap"

record foundationLock =
  l_APIVersion :: string
  l_Kind :: string
  l_Project :: string
  l_Distribution :: distributionSpec
  l_Identities :: identitySet
  l_Records :: snapshotRecordPaths

record snapshot_env = identity_env +
  se_manifest :: "string \<Rightarrow> manifest option"
  se_lock :: "string \<Rightarrow> foundationLock option"

definition snapshotAPIVersion :: string where
  "snapshotAPIVersion = ''mss.io/v1alpha2''"

definition legacyAPIVersion :: string where
  "legacyAPIVersion = ''mss.io/v1alpha1''"

definition manifestKind :: string where
  "manifestKind = ''BlueprintManifest''"

definition lockKind :: string where
  "lockKind = ''FoundationLock''"

definition manifest_metadata :: "identitySet \<Rightarrow> manifestMetadata" where
  "manifest_metadata ids =
     \<lparr>md_Project = si_Project (ids_Snapshot ids), md_Module = si_Module (ids_Snapshot ids), md_Repository = si_Repository (ids_Snapshot ids),
      md_Blueprint = bi_Name (ids_Blueprint ids), md_BlueprintVersion = bi_Version (ids_Blueprint ids),
      md_FoundationRepository = fi_Repository (ids_Foundation ids), md_FoundationCommit = fi_Commit (ids_Foundation ids),
      md_FoundationTimestamp = fi_Timestamp (ids_Foundation ids),
      md_GeneratorVersion = gi_Version (ids_Generator ids), md_GeneratorCommit = gi_Commit (ids_Generator ids)\<rparr>"

definition validateCurrentManifest :: "snapshot_env \<Rightarrow> manifest \<Rightarrow> bool" where
  "validateCurrentManifest S m \<longleftrightarrow>
     validateIdentitySet (identity_env.truncate S) (m_Identities m) (m_Files m) (rp_LockPath (m_Records m)) (rp_ManifestPath (m_Records m)) True
     \<and> sha256Pattern (m_LockSHA256 m) \<and> m_Metadata m = manifest_metadata (m_Identities m)"

definition decodeManifest :: "snapshot_env \<Rightarrow> string \<Rightarrow> bool \<Rightarrow> bperr + manifest \<times> bool" where
  "decodeManifest S data allowLegacy =
     (case se_manifest S data of
        None \<Rightarrow> Inl InvalidManifest
      | Some m \<Rightarrow>
          if m_Kind m \<noteq> manifestKind then Inl InvalidManifest
          else if m_APIVersion m = snapshotAPIVersion then
            (if validateCurrentManifest S m then Inr (m, False) else Inl InvalidManifest)
          else if m_APIVersion m = legacyAPIVersion then (if allowLegacy then Inr (m, True) else Inl LegacyManifest)
          else Inl InvalidManifest)"

definition decodeFoundationLock :: "snapshot_env \<Rightarrow> string \<Rightarrow> bperr + foundationLock" where
  "decodeFoundationLock S data =
     (case se_lock S data of
        None \<Rightarrow> Inl InvalidLock
      | Some l \<Rightarrow>
          if l_APIVersion l \<noteq> snapshotAPIVersion \<or> l_Kind l \<noteq> lockKind \<or> l_Project l = [] then Inl InvalidLock
          else if \<not> validateIdentitySet (identity_env.truncate S) (l_Identities l) fmempty (rp_LockPath (l_Records l)) (rp_ManifestPath (l_Records l)) False
          then Inl InvalidLock
          else if \<not> distribution_Empty (l_Distribution l) \<and> \<not> distribution_Validate (l_Distribution l) then Inl InvalidLock
          else Inr l)"

definition validateSnapshotPair :: "snapshot_env \<Rightarrow> manifest \<Rightarrow> foundationLock \<Rightarrow> string \<Rightarrow> bool" where
  "validateSnapshotPair S m l lockData \<longleftrightarrow>
     m_LockSHA256 m = ie_digest S lockData \<and> m_Identities m = l_Identities l \<and> m_Distribution m = l_Distribution l
     \<and> l_Project l = si_Project (ids_Snapshot (m_Identities m))
     \<and> normalizedPath (rp_LockPath (l_Records l)) = normalizedPath (rp_LockPath (m_Records m))
     \<and> normalizedPath (rp_ManifestPath (l_Records l)) = normalizedPath (rp_ManifestPath (m_Records m))
     \<and> validateIdentitySet (identity_env.truncate S) (l_Identities l) (m_Files m) (rp_LockPath (l_Records l)) (rp_ManifestPath (l_Records l)) True"

section \<open>Reading\<close>

definition disk_lift :: "bperr + 'a \<Rightarrow> 'a disk_call" where
  "disk_lift r E s = (s, r)"

definition readRegularRecord :: "string \<Rightarrow> string disk_call" where
  "readRegularRecord relative =
     (if \<not> safeRelativePath relative then disk_raise UnsafePath
      else disk_bind (readFile relative) (\<lambda>v. case v of None \<Rightarrow> disk_raise NotExist | Some (d, _) \<Rightarrow> disk_return d))"

definition default_manifest_path :: "string \<Rightarrow> string" where
  "default_manifest_path p = normalizedPath (if p = [] then ''.mss/blueprint-manifest.json'' else p)"

definition readSnapshotUnlocked :: "snapshot_env \<Rightarrow> string \<Rightarrow> (manifest \<times> foundationLock) disk_call" where
  "readSnapshotUnlocked S manifestRelative =
     (let path = default_manifest_path manifestRelative in
      disk_bind (disk_refuse (\<not> safeRelativePath path) UnsafePath) (\<lambda>_.
      disk_bind (readRegularRecord path) (\<lambda>manifestData.
      disk_bind (disk_lift (decodeManifest S manifestData False)) (\<lambda>(m, legacy).
      disk_bind (disk_refuse legacy LegacyManifest) (\<lambda>_.
      disk_bind (disk_refuse (normalizedPath (rp_ManifestPath (m_Records m)) \<noteq> path) Contradiction) (\<lambda>_.
      disk_bind (readRegularRecord (rp_LockPath (m_Records m))) (\<lambda>lockData.
      disk_bind (disk_lift (decodeFoundationLock S lockData)) (\<lambda>l.
      disk_bind (disk_refuse (\<not> validateSnapshotPair S m l lockData) Contradiction) (\<lambda>_.
      disk_return (m, l))))))))))"

definition ReadSnapshot :: "snapshot_env \<Rightarrow> string \<Rightarrow> (manifest \<times> foundationLock) disk_call" where
  "ReadSnapshot S manifestRelative =
     disk_bind openManagedRoot (\<lambda>_.
     disk_bind acquireSnapshotReader (\<lambda>_.
     disk_bind checkSnapshotTransaction (\<lambda>_.
     readSnapshotUnlocked S manifestRelative)))"

section \<open>Committing the pair\<close>

record desiredFile =
  df_Data :: string
  df_Mode :: nat

record recordExpectation =
  re_Exists :: bool
  re_SHA256 :: string

text \<open>The error of each hook; production has none.\<close>

record snapshotCommitHooks =
  BeforeLockCommit :: "nat option"
  BeforeManifestCommit :: "nat option"
  AfterManifestCommit :: "nat option"

definition run_commit_hook :: "nat option \<Rightarrow> unit disk_call" where
  "run_commit_hook h = (case h of None \<Rightarrow> disk_return () | Some n \<Rightarrow> disk_raise (HookFailed n))"

definition verifyRecordExpectation :: "snapshot_env \<Rightarrow> string \<Rightarrow> recordExpectation \<Rightarrow> unit disk_call" where
  "verifyRecordExpectation S relative x =
     disk_bind (readFile relative) (\<lambda>v.
     disk_refuse ((v \<noteq> None) \<noteq> re_Exists x \<or> (case v of None \<Rightarrow> False | Some (d, _) \<Rightarrow> ie_digest S d \<noteq> re_SHA256 x)) (ChangedAfterPlanning relative))"

definition backupRecord :: "string \<Rightarrow> (string \<times> nat) option disk_call" where
  "backupRecord relative = readFile relative"

definition restoreRecord :: "string \<Rightarrow> (string \<times> nat) option \<Rightarrow> unit disk_call" where
  "restoreRecord relative backup E s =
     (case backup of
        None \<Rightarrow> (case removeFile relative E s of
                    (s1, Inl e) \<Rightarrow> (s1, if e = NotExist then Inr () else Inl e)
                  | (s1, Inr _) \<Rightarrow> (s1, Inr ()))
      | Some (d, m) \<Rightarrow> writeAtomic relative d m E s)"

definition restore_if :: "bool \<Rightarrow> string \<Rightarrow> (string \<times> nat) option \<Rightarrow> disk_env \<Rightarrow> disk \<Rightarrow> disk \<times> bperr list" where
  "restore_if committed relative backup E s =
     (if \<not> committed then (s, [])
      else (case restoreRecord relative backup E s of (s1, Inl e) \<Rightarrow> (s1, [e]) | (s1, Inr _) \<Rightarrow> (s1, [])))"

definition restoreSnapshotPair ::
  "snapshotRecordPaths \<Rightarrow> (string \<times> nat) option \<Rightarrow> (string \<times> nat) option \<Rightarrow> bool \<Rightarrow> bool \<Rightarrow> disk_env \<Rightarrow> disk \<Rightarrow> disk \<times> bperr list" where
  "restoreSnapshotPair records lock manifest lockCommitted manifestCommitted E s =
     (case restore_if lockCommitted (rp_LockPath records) lock E s of
        (s1, es) \<Rightarrow> (case restore_if manifestCommitted (rp_ManifestPath records) manifest E s1 of (s2, fs) \<Rightarrow> (s2, es @ fs)))"

definition rollback_pair ::
  "snapshotRecordPaths \<Rightarrow> (string \<times> nat) option \<Rightarrow> (string \<times> nat) option \<Rightarrow> bool \<Rightarrow> bool \<Rightarrow> bperr \<Rightarrow> unit disk_call" where
  "rollback_pair records lock manifest lockCommitted manifestCommitted cause E s =
     (if \<not> lockCommitted \<and> \<not> manifestCommitted then (s, Inl cause)
      else (case restoreSnapshotPair records lock manifest lockCommitted manifestCommitted E s of
              (s1, []) \<Rightarrow> (s1, Inl cause)
            | (s1, es) \<Rightarrow> (s1, Inl (WithRollback cause [RestoreFailed es]))))"

definition disk_handle :: "unit disk_call \<Rightarrow> (bperr \<Rightarrow> unit disk_call) \<Rightarrow> unit disk_call" where
  "disk_handle m h E s = (case m E s of (s1, Inl e) \<Rightarrow> h e E s1 | (s1, Inr x) \<Rightarrow> (s1, Inr x))"

definition commit_pair ::
  "snapshot_env \<Rightarrow> snapshotRecordPaths \<Rightarrow> desiredFile \<Rightarrow> desiredFile \<Rightarrow> snapshotCommitHooks
   \<Rightarrow> (string \<times> nat) option \<Rightarrow> (string \<times> nat) option \<Rightarrow> unit disk_call" where
  "commit_pair S records lockFile manifestFile hooks lockBackup manifestBackup =
     (let rollback = rollback_pair records lockBackup manifestBackup in
      disk_bind (disk_handle (run_commit_hook (BeforeLockCommit hooks)) (rollback False False)) (\<lambda>_.
      disk_bind (disk_handle (commit_staged (rp_LockPath records) (df_Data lockFile) (df_Mode lockFile)) (rollback True False)) (\<lambda>_.
      disk_bind (disk_handle (run_commit_hook (BeforeManifestCommit hooks)) (rollback True False)) (\<lambda>_.
      disk_bind (disk_handle (commit_staged (rp_ManifestPath records) (df_Data manifestFile) (df_Mode manifestFile)) (rollback True True)) (\<lambda>_.
      disk_bind (disk_handle (run_commit_hook (AfterManifestCommit hooks)) (rollback True True)) (\<lambda>_.
      disk_handle (disk_bind (readSnapshotUnlocked S (rp_ManifestPath records)) (\<lambda>_. disk_return ())) (rollback True True)))))))"

text \<open>The checks on the desired pair.\<close>

definition check_desired_pair :: "snapshot_env \<Rightarrow> desiredFile \<Rightarrow> desiredFile \<Rightarrow> unit disk_call" where
  "check_desired_pair S lockFile manifestFile =
     disk_bind (disk_lift (decodeManifest S (df_Data manifestFile) False)) (\<lambda>(m, legacy).
     disk_bind (disk_refuse legacy LegacyManifest) (\<lambda>_.
     disk_bind (disk_lift (decodeFoundationLock S (df_Data lockFile))) (\<lambda>l.
     disk_refuse (\<not> validateSnapshotPair S m l (df_Data lockFile)) Contradiction)))"

definition planned_state :: "snapshot_env \<Rightarrow> (string \<Rightarrow> recordExpectation option) \<Rightarrow> string \<Rightarrow> recordExpectation disk_call" where
  "planned_state S expected relative =
     (case expected relative of
        None \<Rightarrow> disk_raise (MissingRecord relative)
      | Some x \<Rightarrow> disk_bind (verifyRecordExpectation S relative x) (\<lambda>_. disk_return x))"

definition replace_pair :: "snapshot_env \<Rightarrow> snapshotRecordPaths \<Rightarrow> desiredFile \<Rightarrow> desiredFile \<Rightarrow> snapshotCommitHooks \<Rightarrow> unit disk_call" where
  "replace_pair S records lockFile manifestFile hooks =
     disk_bind (backupRecord (rp_LockPath records)) (\<lambda>lockBackup.
     disk_bind (backupRecord (rp_ManifestPath records)) (\<lambda>manifestBackup.
     disk_bind (stageRecord (rp_LockPath records)) (\<lambda>_.
     disk_bind (stageRecord (rp_ManifestPath records)) (\<lambda>_.
     commit_pair S records lockFile manifestFile hooks lockBackup manifestBackup))))"

definition commitSnapshotPair ::
  "snapshot_env \<Rightarrow> snapshotRecordPaths \<Rightarrow> (string, desiredFile) gomap \<Rightarrow> (string \<Rightarrow> recordExpectation option) \<Rightarrow> snapshotCommitHooks \<Rightarrow> unit disk_call" where
  "commitSnapshotPair S records desired expected hooks =
     (case fmlookup desired (rp_LockPath records) of
        None \<Rightarrow> disk_raise (MissingRecord (rp_LockPath records))
      | Some lockFile \<Rightarrow>
          (case fmlookup desired (rp_ManifestPath records) of
             None \<Rightarrow> disk_raise (MissingRecord (rp_ManifestPath records))
           | Some manifestFile \<Rightarrow>
               disk_bind (check_desired_pair S lockFile manifestFile) (\<lambda>_.
               disk_bind (planned_state S expected (rp_LockPath records)) (\<lambda>lx.
               disk_bind (planned_state S expected (rp_ManifestPath records)) (\<lambda>mx.
               if re_Exists lx \<and> re_Exists mx \<and> re_SHA256 lx = ie_digest S (df_Data lockFile)
                  \<and> re_SHA256 mx = ie_digest S (df_Data manifestFile) then disk_return ()
               else replace_pair S records lockFile manifestFile hooks)))))"

text \<open>\<open>errors.As\<close> with a \<open>snapshotRestoreError\<close>.\<close>

fun is_restore_failure :: "bperr \<Rightarrow> bool" where
  "is_restore_failure (RestoreFailed es) = True"
| "is_restore_failure (WithRollback cause es) = (is_restore_failure cause \<or> (\<exists>e \<in> set es. is_restore_failure e))"
| "is_restore_failure _ = False"

end
