(* ===== verification/Blue_Upgrade.thy ===== *)
theory Blue_Upgrade
  imports Blue_Snapshot
begin

text \<open>
  The three-way upgrade of a downstream repository (\<open>internal/mss/blueprint/upgrade.go\<close>): the plan compares the recorded
  base, the current file and the desired file of every managed path; applying it is one transaction over the files and
  the pair of records. The details of a change and the descriptive fields of the plan are not kept; the impact of the
  presentation snapshot is given.
\<close>

section \<open>The plan\<close>

datatype action = ActionNone | ActionCreate | ActionUnchanged | ActionConflict | ActionUpdate | ActionDelete | ActionPreserve

record upgradeChange =
  uc_Path :: string
  uc_Action :: action
  uc_Mode :: nat
  uc_Base :: string
  uc_Current :: string
  uc_Desired :: string

record upgradePlan =
  up_Changes :: "upgradeChange list"
  up_Success :: bool

definition presentationSnapshotPath :: string where
  "presentationSnapshotPath = ''.mss/admin-presentation-snapshot.json''"

definition file_hash :: "snapshot_env \<Rightarrow> (string \<times> nat) option \<Rightarrow> string" where
  "file_hash S v = (case v of None \<Rightarrow> [] | Some (d, _) \<Rightarrow> ie_digest S d)"

text \<open>\<open>base\<close> is the recorded digest, \<open>cur\<close> and \<open>des\<close> are empty when there is no file.\<close>

definition plan_action :: "bool \<Rightarrow> string option \<Rightarrow> bool \<Rightarrow> string \<Rightarrow> bool \<Rightarrow> string \<Rightarrow> action" where
  "plan_action isRecord base currentExists cur hasDesired des =
     (if isRecord then (if currentExists \<and> cur = des then ActionUnchanged else ActionUpdate)
      else
        (case base of
           Some b \<Rightarrow>
             if hasDesired then
               (if \<not> currentExists then ActionConflict
                else if cur = b \<and> des = b then ActionUnchanged
                else if cur = b then ActionUpdate
                else if cur = des then ActionUnchanged
                else if des = b then ActionPreserve
                else ActionConflict)
             else
               (if \<not> currentExists then ActionUnchanged
                else if cur = b then ActionDelete
                else ActionConflict)
         | None \<Rightarrow>
             if hasDesired then
               (if \<not> currentExists then ActionCreate
                else if cur = des then ActionUnchanged
                else ActionConflict)
             else ActionNone))"

definition readManagedFile :: "string \<Rightarrow> (string \<times> nat) option disk_call" where
  "readManagedFile relative = (if \<not> safeRelativePath relative then disk_raise UnsafePath else disk_look (path_Clean relative))"

definition plan_change ::
  "snapshot_env \<Rightarrow> string \<Rightarrow> string \<Rightarrow> (string, manifestFile) gomap \<Rightarrow> (string, desiredFile) gomap \<Rightarrow> string \<Rightarrow> (string \<times> nat) option \<Rightarrow> upgradeChange" where
  "plan_change S manifestPath lockPath oldFiles desired relative current =
     (let base = map_option mf_SHA256 (fmlookup oldFiles relative);
          wanted = fmlookup desired relative;
          cur = file_hash S current;
          des = (case wanted of None \<Rightarrow> [] | Some w \<Rightarrow> ie_digest S (df_Data w));
          act = plan_action (relative = manifestPath \<or> relative = lockPath) base (current \<noteq> None) cur (wanted \<noteq> None) des in
      \<lparr>uc_Path = relative,
       uc_Action = (if relative = presentationSnapshotPath \<and> act = ActionPreserve then ActionConflict else act),
       uc_Mode = (case wanted of None \<Rightarrow> 0 | Some w \<Rightarrow> df_Mode w),
       uc_Base = (case base of None \<Rightarrow> [] | Some b \<Rightarrow> b), uc_Current = cur, uc_Desired = des\<rparr>)"

fun plan_changes :: "(string \<Rightarrow> (string \<times> nat) option \<Rightarrow> upgradeChange) \<Rightarrow> string list \<Rightarrow> upgradeChange list disk_call" where
  "plan_changes change [] = disk_return []"
| "plan_changes change (p # ps) =
     disk_bind (readManagedFile p) (\<lambda>current. disk_bind (plan_changes change ps) (\<lambda>cs. disk_return (change p current # cs)))"

definition managed_paths :: "string \<Rightarrow> string \<Rightarrow> (string, manifestFile) gomap \<Rightarrow> (string, desiredFile) gomap \<Rightarrow> string list" where
  "managed_paths manifestPath lockPath oldFiles desired =
     sorted_list_of_fset (fmdom oldFiles |\<union>| fmdom desired |\<union>| {|manifestPath, lockPath|})"

definition buildUpgradePlan ::
  "snapshot_env \<Rightarrow> string \<Rightarrow> string \<Rightarrow> (string, manifestFile) gomap \<Rightarrow> (string, desiredFile) gomap \<Rightarrow> (bperr + bool) \<Rightarrow> upgradePlan disk_call" where
  "buildUpgradePlan S manifestPath lockPath oldFiles desired impact =
     (let paths = managed_paths manifestPath lockPath oldFiles desired in
      disk_bind (disk_refuse (\<not> list_all safeRelativePath paths) UnsafePath) (\<lambda>_.
      disk_bind (plan_changes (plan_change S manifestPath lockPath oldFiles desired) paths) (\<lambda>changes.
      disk_bind (disk_lift impact) (\<lambda>matches.
      disk_return \<lparr>up_Changes = changes, up_Success = matches \<and> list_all (\<lambda>c. uc_Action c \<noteq> ActionConflict) changes\<rparr>))))"

section \<open>Applying the plan\<close>

definition writes_file :: "upgradeChange \<Rightarrow> bool" where
  "writes_file c \<longleftrightarrow> uc_Action c \<in> {ActionCreate, ActionUpdate, ActionDelete}"

definition record_change :: "snapshotRecordPaths \<Rightarrow> upgradeChange \<Rightarrow> bool" where
  "record_change records c \<longleftrightarrow> uc_Path c = rp_LockPath records \<or> uc_Path c = rp_ManifestPath records"

definition check_current :: "snapshot_env \<Rightarrow> upgradeChange \<Rightarrow> unit disk_call" where
  "check_current S c =
     disk_bind (readFile (uc_Path c)) (\<lambda>v. disk_refuse (file_hash S v \<noteq> uc_Current c) (ChangedAfterPlanning (uc_Path c)))"

definition verifyUpgradePlanCAS :: "snapshot_env \<Rightarrow> upgradeChange list \<Rightarrow> unit disk_call" where
  "verifyUpgradePlanCAS S changes = disk_each (check_current S) changes"

fun take_backups :: "upgradeChange list \<Rightarrow> (string \<times> (string \<times> nat) option) list disk_call" where
  "take_backups [] = disk_return []"
| "take_backups (c # cs) =
     disk_bind (backupRecord (uc_Path c)) (\<lambda>b. disk_bind (take_backups cs) (\<lambda>bs. disk_return ((uc_Path c, b) # bs)))"

definition applyUpgradeChange :: "snapshot_env \<Rightarrow> (string, desiredFile) gomap \<Rightarrow> upgradeChange \<Rightarrow> unit disk_call" where
  "applyUpgradeChange S desired c =
     disk_bind (check_current S c) (\<lambda>_.
     (case uc_Action c of
        ActionDelete \<Rightarrow> (\<lambda>E s. case removeFile (uc_Path c) E s of
            (s1, Inl e) \<Rightarrow> (s1, if e = NotExist then Inr () else Inl e)
          | (s1, Inr _) \<Rightarrow> (s1, Inr ()))
      | ActionUnchanged \<Rightarrow> disk_return ()
      | ActionPreserve \<Rightarrow> disk_return ()
      | ActionConflict \<Rightarrow> disk_raise HasConflicts
      | ActionNone \<Rightarrow> disk_raise (UnexpectedAction (uc_Path c))
      | _ \<Rightarrow> (case fmlookup desired (uc_Path c) of
                None \<Rightarrow> disk_raise (MissingDesired (uc_Path c))
              | Some file \<Rightarrow> writeAtomic (uc_Path c) (df_Data file) (df_Mode file))))"

text \<open>The loop; the third result is what has to be undone.\<close>

fun apply_loop ::
  "snapshot_env \<Rightarrow> (string, desiredFile) gomap \<Rightarrow> upgradeChange list \<Rightarrow> upgradeChange list \<Rightarrow> disk_env \<Rightarrow> disk
   \<Rightarrow> disk \<times> (bperr + unit) \<times> upgradeChange list" where
  "apply_loop S desired applied [] E s = (s, Inr (), applied)"
| "apply_loop S desired applied (c # cs) E s =
     (let applied = (if writes_file c then applied @ [c] else applied) in
      case applyUpgradeChange S desired c E s of
        (s1, Inl e) \<Rightarrow> (s1, Inl e, applied)
      | (s1, Inr _) \<Rightarrow> apply_loop S desired applied cs E s1)"

definition expected_hash :: "snapshot_env \<Rightarrow> (string, desiredFile) gomap \<Rightarrow> upgradeChange \<Rightarrow> bperr + string" where
  "expected_hash S desired c =
     (if uc_Action c = ActionCreate \<or> uc_Action c = ActionUpdate then
        (case fmlookup desired (uc_Path c) of None \<Rightarrow> Inl (MissingDesired (uc_Path c)) | Some f \<Rightarrow> Inr (ie_digest S (df_Data f)))
      else if uc_Action c = ActionDelete then Inr []
      else Inr (uc_Current c))"

definition verifyAppliedUpgradeState :: "snapshot_env \<Rightarrow> (string, desiredFile) gomap \<Rightarrow> upgradeChange list \<Rightarrow> unit disk_call" where
  "verifyAppliedUpgradeState S desired changes =
     disk_each (\<lambda>c. disk_bind (readFile (uc_Path c)) (\<lambda>v. disk_bind (disk_lift (expected_hash S desired c)) (\<lambda>h.
       disk_refuse (file_hash S v \<noteq> h) (ChangedDuringApply (uc_Path c))))) changes"

definition upgradeRecordExpectations :: "upgradeChange list \<Rightarrow> snapshotRecordPaths \<Rightarrow> string \<Rightarrow> recordExpectation option" where
  "upgradeRecordExpectations changes records path =
     map_option (\<lambda>c. \<lparr>re_Exists = uc_Current c \<noteq> [], re_SHA256 = uc_Current c\<rparr>)
       (find (\<lambda>c. record_change records c \<and> uc_Path c = path) (rev changes))"

text \<open>The deferred function undoes what was applied, last first, and removes the journal when nothing is left half done.\<close>

fun roll_back :: "(string \<Rightarrow> (string \<times> nat) option) \<Rightarrow> upgradeChange list \<Rightarrow> disk_env \<Rightarrow> disk \<Rightarrow> disk \<times> bperr list" where
  "roll_back backups [] E s = (s, [])"
| "roll_back backups (c # cs) E s =
     (case restoreRecord (uc_Path c) (backups (uc_Path c)) E s of
        (s1, Inl e) \<Rightarrow> (case roll_back backups cs E s1 of (s2, es) \<Rightarrow> (s2, e # es))
      | (s1, Inr _) \<Rightarrow> roll_back backups cs E s1)"

definition with_rollback :: "bperr \<Rightarrow> bperr list \<Rightarrow> bperr" where
  "with_rollback e es = (if es = [] then e else WithRollback e es)"

definition finish_upgrade :: "(string \<Rightarrow> (string \<times> nat) option) \<Rightarrow> upgradeChange list \<Rightarrow> bperr + unit \<Rightarrow> disk_env \<Rightarrow> disk \<Rightarrow> disk \<times> (bperr + unit)" where
  "finish_upgrade backups applied result E s =
     (case result of
        Inr _ \<Rightarrow> finishTransaction E s
      | Inl e \<Rightarrow>
          (case roll_back backups (rev applied) E s of
             (s1, es) \<Rightarrow>
               if is_restore_failure e \<or> es \<noteq> [] then (s1, Inl (with_rollback e es))
               else (case finishTransaction E s1 of
                       (s2, Inl f) \<Rightarrow> (s2, Inl (WithRollback e [f]))
                     | (s2, Inr _) \<Rightarrow> (s2, Inl e))))"

record upgradeApplyHooks =
  BeforeSnapshotCommit :: "nat option"
  SnapshotHooks :: snapshotCommitHooks

definition upgrade_transaction ::
  "snapshot_env \<Rightarrow> upgradeChange list \<Rightarrow> (string, desiredFile) gomap \<Rightarrow> snapshotRecordPaths \<Rightarrow> upgradeApplyHooks
   \<Rightarrow> (string \<Rightarrow> (string \<times> nat) option) \<Rightarrow> unit disk_call" where
  "upgrade_transaction S changes desired records hooks backups E s =
     (let managed = filter (\<lambda>c. \<not> record_change records c) changes in
      case apply_loop S desired [] managed E s of
        (s1, Inl e, applied) \<Rightarrow> finish_upgrade backups applied (Inl e) E s1
      | (s1, Inr _, applied) \<Rightarrow>
          (case disk_bind (verifyAppliedUpgradeState S desired managed) (\<lambda>_.
                disk_bind (run_commit_hook (BeforeSnapshotCommit hooks)) (\<lambda>_.
                commitSnapshotPair S records desired (upgradeRecordExpectations changes records) (SnapshotHooks hooks))) E s1 of
             (s2, result) \<Rightarrow> finish_upgrade backups applied result E s2))"

definition applyUpgradeWithHooks ::
  "snapshot_env \<Rightarrow> upgradeChange list \<Rightarrow> (string, desiredFile) gomap \<Rightarrow> snapshotRecordPaths \<Rightarrow> upgradeApplyHooks \<Rightarrow> unit disk_call" where
  "applyUpgradeWithHooks S changes desired records hooks =
     disk_bind openManagedRoot (\<lambda>_.
     disk_bind acquireSnapshotWriter (\<lambda>_.
     disk_bind (verifyUpgradePlanCAS S changes) (\<lambda>_.
     disk_bind (take_backups (filter (\<lambda>c. \<not> record_change records c \<and> writes_file c) changes)) (\<lambda>backups.
     if \<not> list_ex writes_file changes then disk_return ()
     else
       disk_bind beginSnapshotTransaction (\<lambda>_.
       upgrade_transaction S changes desired records hooks (\<lambda>p. Option.bind (map_of backups p) id))))))"

definition applyUpgrade :: "snapshot_env \<Rightarrow> upgradeChange list \<Rightarrow> (string, desiredFile) gomap \<Rightarrow> snapshotRecordPaths \<Rightarrow> unit disk_call" where
  "applyUpgrade S changes desired records =
     applyUpgradeWithHooks S changes desired records
       \<lparr>BeforeSnapshotCommit = None, SnapshotHooks = \<lparr>BeforeLockCommit = None, BeforeManifestCommit = None, AfterManifestCommit = None\<rparr>\<rparr>"

text \<open>The end of \<open>finishUpgrade\<close>: nothing is applied without \<open>Write\<close> or with a conflict.\<close>

definition upgrade_run ::
  "snapshot_env \<Rightarrow> string \<Rightarrow> string \<Rightarrow> (string, manifestFile) gomap \<Rightarrow> (string, desiredFile) gomap \<Rightarrow> bperr + bool \<Rightarrow> bool \<Rightarrow> upgradePlan disk_call" where
  "upgrade_run S manifestPath lockPath oldFiles desired impact write =
     disk_bind (buildUpgradePlan S manifestPath lockPath oldFiles desired impact) (\<lambda>plan.
     if \<not> write then disk_return plan
     else if \<not> up_Success plan then disk_raise HasConflicts
     else disk_bind (applyUpgrade S (up_Changes plan) desired
            \<lparr>rp_LockPath = normalizedPath lockPath, rp_ManifestPath = normalizedPath manifestPath\<rparr>) (\<lambda>_. disk_return plan))"

end
