(* ===== verification/Blue_Commit.thy ===== *)
theory Blue_Commit
  imports Blue_Upgrade
begin

text \<open>
  What the calls of an upgrade leave on a disk that no other program changes: a restored path holds what was backed up,
  and the pair of records is replaced as a whole or, when the restoration succeeds, not at all.
\<close>

section \<open>Backups and restoration\<close>

definition canonical :: "string \<Rightarrow> bool" where
  "canonical p \<longleftrightarrow> confinedManagedPath p = Some p"

definition sound_modes :: "files \<Rightarrow> bool" where
  "sound_modes f \<longleftrightarrow> (\<forall>p d m. f p = Some (Regular d m) \<longrightarrow> m < 512)"

fun backup_node :: "(string \<times> nat) option \<Rightarrow> disk_node option" where
  "backup_node None = None"
| "backup_node (Some (d, m)) = Some (Regular d (m mod 512))"

lemma readFile_backup:
  assumes "disk_quiet E" and "readFile p E s = (s', Inr v)" and "canonical p" and "sound_modes (dk_files s)"
  shows "backup_node v = dk_files s p"
  using readFile_ok [OF assms(1,2)] assms(3,4) by (cases v) (auto simp: canonical_def sound_modes_def)

lemma restoreRecord_restores:
  assumes "disk_quiet E" and "restoreRecord p b E s = (s', r)" and "canonical p"
  shows "disk_runs s s'" and "q \<noteq> p \<Longrightarrow> dk_files s' q = dk_files s q" and "r = Inr x \<Longrightarrow> dk_files s' = (dk_files s)(p := backup_node b)"
proof -
  have "disk_runs s s' \<and> (q \<noteq> p \<longrightarrow> dk_files s' q = dk_files s q) \<and> (\<forall>x. r = Inr x \<longrightarrow> dk_files s' = (dk_files s)(p := backup_node b))" for q
  proof (cases b)
    case None
    obtain s1 z where c: "removeFile p E s = (s1, z)" by fastforce
    note f = removeFile_files [OF assms(1) c assms(3) [unfolded canonical_def]] removeFile_runs [OF c]
    from assms(2) None c have s1: "s1 = s'" and "\<forall>x. r = Inr x \<longrightarrow> z = Inr () \<or> z = Inl NotExist"
      by (auto simp: restoreRecord_def split: sum.splits if_splits)
    with f None show ?thesis by (cases z) auto
  next
    case (Some dm)
    obtain d m where dm: "dm = (d, m)" by fastforce
    with assms(2) Some have c: "writeAtomic p d m E s = (s', r)" by (simp add: restoreRecord_def)
    show ?thesis using writeAtomic_files [OF assms(1) c assms(3) [unfolded canonical_def]] writeAtomic_runs [OF c] Some dm by auto
  qed
  then show "disk_runs s s'" "q \<noteq> p \<Longrightarrow> dk_files s' q = dk_files s q" "r = Inr x \<Longrightarrow> dk_files s' = (dk_files s)(p := backup_node b)" by blast+
qed

lemma roll_back_restores:
  assumes "disk_quiet E" and "roll_back backups cs E s = (s', es)" and "\<forall>c \<in> set cs. canonical (uc_Path c)"
  shows "disk_runs s s' \<and> (\<forall>q. q \<notin> uc_Path ` set cs \<longrightarrow> dk_files s' q = dk_files s q)
    \<and> (es = [] \<longrightarrow> (\<forall>p \<in> uc_Path ` set cs. dk_files s' p = backup_node (backups p)))"
  using assms(2,3)
proof (induction cs arbitrary: s s' es)
  case (Cons c cs)
  obtain s1 r where c: "restoreRecord (uc_Path c) (backups (uc_Path c)) E s = (s1, r)" by fastforce
  obtain s2 fs where rest: "roll_back backups cs E s1 = (s2, fs)" by fastforce
  have can: "canonical (uc_Path c)" "\<forall>c \<in> set cs. canonical (uc_Path c)" using Cons.prems(2) by simp_all
  note step = restoreRecord_restores [OF assms(1) c can(1)]
  note IH = Cons.IH [OF rest can(2)]
  have out: "s' = s2" "es = [] \<Longrightarrow> fs = [] \<and> (\<exists>x. r = Inr x)" using Cons.prems(1) c rest by (auto split: sum.splits)
  have "disk_runs s s'" using disk_runs_trans [OF step(1)] IH out(1) by blast
  moreover have "dk_files s' q = dk_files s q" if "q \<notin> uc_Path ` set (c # cs)" for q
    using that IH step(2) [of q] out(1) by auto
  moreover have "dk_files s' p = backup_node (backups p)" if e: "es = []" and p: "p \<in> uc_Path ` set (c # cs)" for p
  proof (cases "p \<in> uc_Path ` set cs")
    case True
    with IH out e show ?thesis by blast
  next
    case False
    with p have "p = uc_Path c" by auto
    moreover have "dk_files s' p = dk_files s1 p" using IH out(1) False by blast
    ultimately show ?thesis using step(3) out(2) [OF e] by auto
  qed
  ultimately show ?case by blast
qed simp

lemma take_backups_files:
  assumes "disk_quiet E" and "take_backups cs E s = (s', Inr bs)" and "\<forall>c \<in> set cs. canonical (uc_Path c)" and "sound_modes (dk_files s)"
  shows "disk_reads s s' \<and> map fst bs = map uc_Path cs \<and> (\<forall>(p, b) \<in> set bs. backup_node b = dk_files s p)"
  using assms(2,3,4)
proof (induction cs arbitrary: s bs)
  case Nil
  then show ?case by (auto simp: disk_ok)
next
  case (Cons c cs)
  then obtain s1 b bs' where c: "readFile (uc_Path c) E s = (s1, Inr b)" and rest: "take_backups cs E s1 = (s', Inr bs')"
    and bs: "bs = (uc_Path c, b) # bs'"
    by (auto simp: disk_ok backupRecord_def)
  have r: "disk_reads s s1" by (rule readFile_reads [OF assms(1) c])
  then have f: "dk_files s1 = dk_files s" by (simp add: disk_reads_def)
  have "backup_node b = dk_files s (uc_Path c)" using readFile_backup [OF assms(1) c] Cons.prems by simp
  moreover have "disk_reads s1 s' \<and> map fst bs' = map uc_Path cs \<and> (\<forall>(p, b) \<in> set bs'. backup_node b = dk_files s1 p)"
    using Cons.IH [OF rest] Cons.prems f by simp
  ultimately show ?case using bs f disk_reads_trans [OF r] by auto
qed

section \<open>Calls that only read\<close>

named_theorems only_reads \<open>calls that leave a quiet disk as it is\<close>

definition reads_only_call :: "'a disk_call \<Rightarrow> bool" where
  "reads_only_call m \<longleftrightarrow> (\<forall>E s s' r. disk_quiet E \<longrightarrow> m E s = (s', r) \<longrightarrow> disk_reads s s')"

lemma disk_readsD: "reads_only_call m \<Longrightarrow> disk_quiet E \<Longrightarrow> m E s = (s', r) \<Longrightarrow> disk_reads s s'"
  by (simp add: reads_only_call_def)

lemma reads_only_basic [only_reads]:
  "reads_only_call (disk_return x)" "reads_only_call (disk_raise e)" "reads_only_call (disk_refuse b e)" "reads_only_call (disk_lift v)"
  "reads_only_call disk_probe" "reads_only_call (disk_look k)" "reads_only_call (readFile p)" "reads_only_call (stageRecord p)"
proof -
  show "reads_only_call (disk_return x)" "reads_only_call (disk_raise e)" "reads_only_call (disk_lift v)" "reads_only_call (disk_refuse b e)"
    by (simp_all add: reads_only_call_def disk_return_def disk_raise_def disk_lift_def disk_refuse_def)
  show "reads_only_call disk_probe" "reads_only_call (disk_look k)" "reads_only_call (readFile p)" "reads_only_call (stageRecord p)"
    unfolding reads_only_call_def by (blast intro: probe_reads look_reads readFile_reads stage_reads)+
qed

lemma reads_only_bind [only_reads]: "reads_only_call m \<Longrightarrow> (\<And>x. reads_only_call (f x)) \<Longrightarrow> reads_only_call (disk_bind m f)"
  unfolding reads_only_call_def
proof (intro allI impI)
  fix E s s' r
  assume m: "\<forall>E s s' r. disk_quiet E \<longrightarrow> m E s = (s', r) \<longrightarrow> disk_reads s s'"
    and f: "\<And>x. \<forall>E s s' r. disk_quiet E \<longrightarrow> f x E s = (s', r) \<longrightarrow> disk_reads s s'"
    and q: "disk_quiet E" and run: "disk_bind m f E s = (s', r)"
  from run show "disk_reads s s'"
  proof (cases rule: disk_bind_cases)
    case (failed e)
    with m q show ?thesis by blast
  next
    case (passed s1 x)
    with m f q show ?thesis using disk_reads_trans by blast
  qed
qed

lemma reads_only_each [only_reads]: "(\<And>x. reads_only_call (f x)) \<Longrightarrow> reads_only_call (disk_each f xs)"
  by (induction xs) (simp_all add: only_reads)

lemma reads_only_if [only_reads]: "reads_only_call m \<Longrightarrow> reads_only_call n \<Longrightarrow> reads_only_call (if b then m else n)"
  by simp

lemma reads_only_option [only_reads]:
  "reads_only_call m \<Longrightarrow> (\<And>x. reads_only_call (f x)) \<Longrightarrow> reads_only_call (case v of None \<Rightarrow> m | Some x \<Rightarrow> f x)"
  by (cases v) simp_all

lemma reads_only_prod [only_reads]: "(\<And>x y. reads_only_call (f x y)) \<Longrightarrow> reads_only_call (case v of (x, y) \<Rightarrow> f x y)"
  by (cases v) simp

lemma take_backups_reads [only_reads]: "reads_only_call (take_backups cs)"
  by (induction cs) (auto simp: backupRecord_def intro!: only_reads)

lemma reads_only_records [only_reads]:
  "reads_only_call (readRegularRecord p)" "reads_only_call (readSnapshotUnlocked S p)" "reads_only_call (verifyRecordExpectation S p x)"
  "reads_only_call (check_desired_pair S l m)" "reads_only_call (run_commit_hook h)" "reads_only_call (planned_state S expected p)"
  "reads_only_call (check_current S c)" "reads_only_call (verifyUpgradePlanCAS S cs)" "reads_only_call (verifyAppliedUpgradeState S desired cs)"
  unfolding readRegularRecord_def readSnapshotUnlocked_def verifyRecordExpectation_def check_desired_pair_def run_commit_hook_def planned_state_def
    check_current_def verifyUpgradePlanCAS_def verifyAppliedUpgradeState_def Let_def
  by (intro only_reads)+

section \<open>The pair\<close>

definition pair_files :: "snapshotRecordPaths \<Rightarrow> desiredFile \<Rightarrow> desiredFile \<Rightarrow> files \<Rightarrow> files" where
  "pair_files records lockFile manifestFile f =
     f(rp_LockPath records \<mapsto> Regular (df_Data lockFile) (df_Mode lockFile mod 512),
       rp_ManifestPath records \<mapsto> Regular (df_Data manifestFile) (df_Mode manifestFile mod 512))"

text \<open>The state between the first commit and the last check: the files \<open>f\<close>, but for the records that were committed.\<close>

definition pair_partly :: "snapshotRecordPaths \<Rightarrow> files \<Rightarrow> bool \<Rightarrow> bool \<Rightarrow> files \<Rightarrow> bool" where
  "pair_partly records f lc mc g \<longleftrightarrow>
     (\<forall>q. g q = f q \<or> lc \<and> q = rp_LockPath records \<or> mc \<and> q = rp_ManifestPath records)"

definition pair_undone :: "snapshotRecordPaths \<Rightarrow> files \<Rightarrow> disk \<Rightarrow> bperr + unit \<Rightarrow> bool" where
  "pair_undone records f s' r \<longleftrightarrow> pair_partly records f True True (dk_files s')
     \<and> (\<exists>e. r = Inl e \<and> (\<not> is_restore_failure e \<longrightarrow> dk_files s' = f))"

lemma restore_if_restores:
  assumes "disk_quiet E" and "restore_if b p v E s = (s', es)" and "canonical p"
  shows "disk_runs s s'" and "q \<noteq> p \<or> \<not> b \<Longrightarrow> dk_files s' q = dk_files s q"
    and "es = [] \<Longrightarrow> b \<Longrightarrow> dk_files s' p = backup_node v"
  using assms(2) restoreRecord_restores [OF assms(1) _ assms(3)]
  by (auto simp: restore_if_def split: if_splits prod.splits sum.splits)

lemma rollback_pair_undoes:
  assumes "disk_quiet E" and "canonical (rp_LockPath records)" and "canonical (rp_ManifestPath records)" and "rp_LockPath records \<noteq> rp_ManifestPath records"
    and "backup_node lb = f (rp_LockPath records)" and "backup_node mb = f (rp_ManifestPath records)"
    and "pair_partly records f lc mc (dk_files s)" and "\<not> is_restore_failure cause"
    and "rollback_pair records lb mb lc mc cause E s = (s', r)"
  shows "disk_runs s s'" and "pair_undone records f s' r"
proof -
  let ?l = "rp_LockPath records" and ?m = "rp_ManifestPath records"
  have "disk_runs s s' \<and> pair_undone records f s' r"
  proof (cases "\<not> lc \<and> \<not> mc")
    case True
    then have "dk_files s = f" using assms(7) by (auto simp: pair_partly_def)
    with True assms(9) show ?thesis by (auto simp: rollback_pair_def pair_undone_def pair_partly_def)
  next
    case False
    obtain s1 es where l: "restore_if lc ?l lb E s = (s1, es)" by fastforce
    obtain s2 fs where m: "restore_if mc ?m mb E s1 = (s2, fs)" by fastforce
    note L = restore_if_restores [OF assms(1) l assms(2)] and M = restore_if_restores [OF assms(1) m assms(3)]
    from False assms(9) l m have out: "s' = s2" "\<exists>e. r = Inl e \<and> (es @ fs = [] \<and> e = cause \<or> e = WithRollback cause [RestoreFailed (es @ fs)])"
      by (auto simp: rollback_pair_def restoreSnapshotPair_def split: list.splits)
    have part: "pair_partly records f True True (dk_files s2)"
      using assms(7) L(2) M(2) unfolding pair_partly_def by metis
    have "dk_files s2 = f" if "es @ fs = []"
    proof
      fix q
      show "dk_files s2 q = f q"
        using that assms(4,5,6,7) L(2) [of q] L(3) M(2) [of q] M(3) unfolding pair_partly_def by (cases "q = ?l"; cases "q = ?m"; cases lc; cases mc) auto
    qed
    with out part disk_runs_trans [OF L(1) M(1)] show ?thesis by (auto simp: pair_undone_def)
  qed
  then show "disk_runs s s'" "pair_undone records f s' r" by blast+
qed

lemma rollback_pair_fails: "rollback_pair records lb mb lc mc e E s1 \<noteq> (s2, Inr x)"
  by (auto simp: rollback_pair_def split: prod.splits list.splits)

lemma handled_cases:
  assumes "disk_bind (disk_handle m (rollback_pair records lb mb lc mc)) k E s = (s', r)"
  obtains (failed) e s1 where "m E s = (s1, Inl e)" "rollback_pair records lb mb lc mc e E s1 = (s', r)"
    | (passed) s1 where "m E s = (s1, Inr ())" "k () E s1 = (s', r)"
  using assms rollback_pair_fails [of records lb mb lc mc]
  by (auto simp: disk_bind_def disk_handle_def split: prod.splits sum.splits)

text \<open>The causes a rollback is started with are never failed restorations.\<close>

definition plain_errors :: "'a disk_call \<Rightarrow> bool" where
  "plain_errors m \<longleftrightarrow> (\<forall>E s s' e. m E s = (s', Inl e) \<longrightarrow> \<not> is_restore_failure e)"

lemma plain_errorsD: "plain_errors m \<Longrightarrow> m E s = (s', Inl e) \<Longrightarrow> \<not> is_restore_failure e"
  by (auto simp: plain_errors_def)

named_theorems plain \<open>calls whose errors are no failed restoration\<close>

lemma plain_bind [plain]: "plain_errors m \<Longrightarrow> (\<And>x. plain_errors (f x)) \<Longrightarrow> plain_errors (disk_bind m f)"
  unfolding plain_errors_def by (auto simp: disk_bind_def split: prod.splits sum.splits)

lemma plain_basic [plain]:
  "plain_errors (disk_return x)" "\<not> is_restore_failure e \<Longrightarrow> plain_errors (disk_raise e)"
  "\<not> is_restore_failure e \<Longrightarrow> plain_errors (disk_refuse b e)" "(\<And>e. v = Inl e \<Longrightarrow> \<not> is_restore_failure e) \<Longrightarrow> plain_errors (disk_lift v)"
  "plain_errors disk_probe"
  by (auto simp: plain_errors_def disk_return_def disk_raise_def disk_refuse_def disk_lift_def disk_probe_def split: fault.splits)

lemma plain_effect [plain]: "(\<And>s e. f s = Inl e \<Longrightarrow> \<not> is_restore_failure e) \<Longrightarrow> plain_errors (disk_effect f)"
  unfolding plain_errors_def disk_effect_def Let_def by (auto split: fault.splits sum.splits)

lemma plain_confined [plain]: "(\<And>k. plain_errors (f k)) \<Longrightarrow> plain_errors (confined p f)"
  by (auto simp: confined_def plain split: option.split)

lemma plain_look [plain]: "plain_errors (disk_look k)"
  using plain_basic(5) by (auto simp: plain_errors_def disk_look_def split: prod.splits sum.splits option.splits disk_node.splits)

lemma plain_prod [plain]: "(\<And>x y. plain_errors (f x y)) \<Longrightarrow> plain_errors (case v of (x, y) \<Rightarrow> f x y)"
  by (cases v) simp

lemma plain_option [plain]: "plain_errors m \<Longrightarrow> (\<And>x. plain_errors (f x)) \<Longrightarrow> plain_errors (case v of None \<Rightarrow> m | Some x \<Rightarrow> f x)"
  by (cases v) simp_all

lemma plain_if [plain]: "plain_errors m \<Longrightarrow> plain_errors n \<Longrightarrow> plain_errors (if b then m else n)"
  by simp

lemma plain_each [plain]: "(\<And>x. plain_errors (f x)) \<Longrightarrow> plain_errors (disk_each f xs)"
  by (induction xs) (simp_all add: plain)

lemma plain_decoders:
  "decodeManifest S d b = Inl e \<Longrightarrow> \<not> is_restore_failure e" "decodeFoundationLock S d = Inl e \<Longrightarrow> \<not> is_restore_failure e"
  by (auto simp: decodeManifest_def decodeFoundationLock_def split: option.splits if_splits)

lemma plain_readFile [plain]: "plain_errors (readFile p)"
  unfolding readFile_def by (intro plain)

lemma plain_commit [plain]: "plain_errors (commit_staged p d m)" "plain_errors (stageRecord p)"
  unfolding commit_staged_def stageRecord_def by (intro plain; auto split: if_splits)+

lemma plain_hook [plain]: "plain_errors (run_commit_hook h)"
  unfolding run_commit_hook_def by (intro plain) simp

lemma plain_record [plain]: "plain_errors (readRegularRecord p)"
  unfolding readRegularRecord_def by (intro plain) simp_all

lemma plain_snapshot [plain]: "plain_errors (readSnapshotUnlocked S p)"
  unfolding readSnapshotUnlocked_def Let_def by (intro plain) (simp_all add: plain_decoders)

lemma plain_checks [plain]: "plain_errors (check_desired_pair S l m)" "plain_errors (verifyRecordExpectation S p x)"
  unfolding check_desired_pair_def verifyRecordExpectation_def by (intro plain; simp add: plain_decoders)+

section \<open>The commit\<close>

text \<open>
  The outcome of a commit from the files \<open>f\<close>: both records replaced, or an error with the old files, or an error that
  says that the restoration failed; other paths are never touched.
\<close>

definition pair_outcome :: "snapshotRecordPaths \<Rightarrow> files \<Rightarrow> files \<Rightarrow> disk \<Rightarrow> bperr + unit \<Rightarrow> bool" where
  "pair_outcome records f g s' r \<longleftrightarrow> pair_partly records f True True (dk_files s')
     \<and> (case r of Inr _ \<Rightarrow> dk_files s' = g | Inl e \<Rightarrow> \<not> is_restore_failure e \<longrightarrow> dk_files s' = f)"

lemma undone_outcome: "pair_undone records f s' r \<Longrightarrow> pair_outcome records f g s' r"
  by (auto simp: pair_undone_def pair_outcome_def)

lemma pair_partly_refl: "pair_partly records f lc mc f"
  by (simp add: pair_partly_def)

lemma commit_pair_outcome:
  assumes q: "disk_quiet E" and l: "canonical (rp_LockPath records)" and m: "canonical (rp_ManifestPath records)"
    and d: "rp_LockPath records \<noteq> rp_ManifestPath records"
    and b: "backup_node lb = dk_files s (rp_LockPath records)" "backup_node mb = dk_files s (rp_ManifestPath records)"
    and run: "commit_pair S records L M hooks lb mb E s = (s', r)"
  shows "disk_runs s s' \<and> pair_outcome records (dk_files s) (pair_files records L M (dk_files s)) s' r"
proof -
  let ?f = "dk_files s"
  let ?g = "pair_files records L M ?f"
  note undo = rollback_pair_undoes [OF q l m d b]
  have hook: "s1 = s0" if "run_commit_hook h E s0 = (s1, x)" for h s0 s1 x
    using that by (auto simp: run_commit_hook_def disk_return_def disk_raise_def split: option.splits)
  have undone: "disk_runs s s' \<and> pair_outcome records ?f ?g s' r"
    if "disk_runs s s1" "pair_partly records ?f lc mc (dk_files s1)" "\<not> is_restore_failure e"
      "rollback_pair records lb mb lc mc e E s1 = (s', r)" for lc mc e s1
    using undo [OF that(2-4)] disk_runs_trans [OF that(1)] undone_outcome by blast
  from run show ?thesis unfolding commit_pair_def Let_def
  proof (cases rule: handled_cases)
    case (failed e s1)
    then show ?thesis using undone [of s1 False False e] hook plain_errorsD [OF plain_hook] pair_partly_refl by fastforce
  next
    case (passed s1)
    then have s1: "s1 = s" using hook by blast
    from passed(2) show ?thesis
    proof (cases rule: handled_cases)
      case (failed e s2)
      note w = commit_files(1) [OF q failed(1) l [unfolded canonical_def]]
      have "pair_partly records ?f True False (dk_files s2)" using w s1 by (auto simp: pair_partly_def)
      then show ?thesis using undone [OF _ _ plain_errorsD [OF plain_commit(1) failed(1)] failed(2)] commit_runs [OF failed(1)] s1 by blast
    next
      case (passed s2)
      note w = commit_files(2) [OF q passed(1) l [unfolded canonical_def] refl]
      have p2: "pair_partly records ?f True False (dk_files s2)" using w s1 by (auto simp: pair_partly_def)
      have r2: "disk_runs s s2" using commit_runs [OF passed(1)] s1 by simp
      from passed(2) show ?thesis
      proof (cases rule: handled_cases)
        case (failed e s3)
        then show ?thesis using undone [OF r2 p2 plain_errorsD [OF plain_hook failed(1)]] hook [OF failed(1)] by simp
      next
        case (passed s3)
        then have s3: "s3 = s2" using hook by blast
        from passed(2) show ?thesis
        proof (cases rule: handled_cases)
          case (failed e s4)
          note w4 = commit_files(1) [OF q failed(1) m [unfolded canonical_def]]
          have "pair_partly records ?f True True (dk_files s4)" using w4 s3 p2 by (auto simp: pair_partly_def)
          then show ?thesis
            using undone [OF _ _ plain_errorsD [OF plain_commit(1) failed(1)] failed(2)] disk_runs_trans [OF r2] commit_runs [OF failed(1)] s3 by blast
        next
          case (passed s4)
          note w4 = commit_files(2) [OF q passed(1) m [unfolded canonical_def] refl]
          have g: "dk_files s4 = ?g" using w w4 s1 s3 by (simp add: pair_files_def)
          have p4: "pair_partly records ?f True True (dk_files s4)" unfolding g by (auto simp: pair_partly_def pair_files_def)
          have r4: "disk_runs s s4" using disk_runs_trans [OF r2] commit_runs [OF passed(1)] s3 by blast
          from passed(2) show ?thesis
          proof (cases rule: handled_cases)
            case (failed e s5)
            then show ?thesis using undone [OF r4 p4 plain_errorsD [OF plain_hook failed(1)]] hook [OF failed(1)] by simp
          next
            case (passed s5)
            then have s5: "s5 = s4" using hook by blast
            let ?check = "disk_bind (readSnapshotUnlocked S (rp_ManifestPath records)) (\<lambda>_. disk_return ())"
            obtain s6 x where c: "?check E s4 = (s6, x)" by fastforce
            have ro: "reads_only_call ?check" by (intro only_reads)
            have rd: "disk_reads s4 s6" by (rule disk_readsD [OF ro q c])
            then have r6: "disk_runs s s6" "dk_files s6 = ?g" using disk_runs_trans [OF r4 disk_reads_runs [OF rd]] g by (simp_all add: disk_reads_def)
            show ?thesis
            proof (cases x)
              case (Inl e)
              have pl: "plain_errors ?check" by (intro plain)
              from passed(2) s5 c Inl have "rollback_pair records lb mb True True e E s6 = (s', r)" by (simp add: disk_handle_def)
              moreover have "pair_partly records ?f True True (dk_files s6)" using p4 unfolding g r6(2) .
              ultimately show ?thesis using undone [OF r6(1) _ plain_errorsD [OF pl c [unfolded Inl]]] by blast
            next
              case (Inr u)
              with passed(2) s5 c have "s' = s6" "r = Inr u" by (simp_all add: disk_handle_def)
              then show ?thesis using r6 p4 g by (simp add: pair_outcome_def)
            qed
          qed
        qed
      qed
    qed
  qed
qed

text \<open>Nothing is written when both records already hold what is wanted.\<close>

definition records_current :: "snapshot_env \<Rightarrow> (string \<Rightarrow> recordExpectation option) \<Rightarrow> snapshotRecordPaths \<Rightarrow> desiredFile \<Rightarrow> desiredFile \<Rightarrow> bool" where
  "records_current S expected records L M \<longleftrightarrow>
     (case (expected (rp_LockPath records), expected (rp_ManifestPath records)) of
        (Some lx, Some mx) \<Rightarrow> re_Exists lx \<and> re_Exists mx \<and> re_SHA256 lx = ie_digest S (df_Data L) \<and> re_SHA256 mx = ie_digest S (df_Data M)
      | _ \<Rightarrow> False)"

definition records_after ::
  "snapshot_env \<Rightarrow> snapshotRecordPaths \<Rightarrow> (string, desiredFile) gomap \<Rightarrow> (string \<Rightarrow> recordExpectation option) \<Rightarrow> files \<Rightarrow> files" where
  "records_after S records desired expected f =
     (case (fmlookup desired (rp_LockPath records), fmlookup desired (rp_ManifestPath records)) of
        (Some L, Some M) \<Rightarrow> if records_current S expected records L M then f else pair_files records L M f
      | _ \<Rightarrow> f)"

end
