(* ===== verification/Blue_Atomic.thy ===== *)
theory Blue_Atomic
  imports Blue_Commit
begin

text \<open>
  An upgrade is one transaction: the loop over the files and the commit of the records leave either the old files, the
  new ones, or the journal.
\<close>

section \<open>The commit of the records as a whole\<close>

lemma outcome_bind:
  assumes "disk_bind m k E s = (s', r)" and "reads_only_call m" and "disk_quiet E"
    and "\<And>s1 x. m E s = (s1, Inr x) \<Longrightarrow> dk_files s1 = dk_files s \<Longrightarrow> k x E s1 = (s', r)
      \<Longrightarrow> disk_runs s1 s' \<and> pair_outcome records (dk_files s1) (G (dk_files s1)) s' r"
  shows "disk_runs s s' \<and> pair_outcome records (dk_files s) (G (dk_files s)) s' r"
  using assms(1)
proof (cases rule: disk_bind_cases)
  case (failed e)
  have "disk_reads s s'" by (rule disk_readsD [OF assms(2,3) failed(1)])
  with failed(2) show ?thesis by (simp add: disk_reads_runs pair_outcome_def disk_reads_def pair_partly_refl)
next
  case (passed s1 x)
  have rd: "disk_reads s s1" by (rule disk_readsD [OF assms(2,3) passed(1)])
  then have f: "dk_files s1 = dk_files s" by (simp add: disk_reads_def)
  from assms(4) [OF passed(1) f passed(2)] disk_runs_trans [OF disk_reads_runs [OF rd]] f show ?thesis by simp
qed

lemma outcome_raise: "disk_raise e E s = (s', r) \<Longrightarrow> disk_runs s s' \<and> pair_outcome records (dk_files s) g s' r"
  by (auto simp: disk_raise_def pair_outcome_def pair_partly_refl)

lemma replace_pair_outcome:
  assumes q: "disk_quiet E" and l: "canonical (rp_LockPath records)" and m: "canonical (rp_ManifestPath records)"
    and d: "rp_LockPath records \<noteq> rp_ManifestPath records" and modes: "sound_modes (dk_files s)"
    and run: "replace_pair S records L M hooks E s = (s', r)"
  shows "disk_runs s s' \<and> pair_outcome records (dk_files s) (pair_files records L M (dk_files s)) s' r"
  using run unfolding replace_pair_def
proof (rule outcome_bind [where G = "pair_files records L M", OF _ _ q])
  show "reads_only_call (backupRecord (rp_LockPath records))" unfolding backupRecord_def by (intro only_reads)
  fix s1 lb
  assume lb: "backupRecord (rp_LockPath records) E s = (s1, Inr lb)" "dk_files s1 = dk_files s"
    and r1: "disk_bind (backupRecord (rp_ManifestPath records)) (\<lambda>mb. disk_bind (stageRecord (rp_LockPath records)) (\<lambda>_.
      disk_bind (stageRecord (rp_ManifestPath records)) (\<lambda>_. commit_pair S records L M hooks lb mb))) E s1 = (s', r)"
  have b1: "backup_node lb = dk_files s (rp_LockPath records)" using readFile_backup [OF q lb(1) [unfolded backupRecord_def] l modes] .
  show "disk_runs s1 s' \<and> pair_outcome records (dk_files s1) (pair_files records L M (dk_files s1)) s' r"
    using r1
  proof (rule outcome_bind [where G = "pair_files records L M", OF _ _ q])
    show "reads_only_call (backupRecord (rp_ManifestPath records))" unfolding backupRecord_def by (intro only_reads)
    fix s2 mb
    assume mb: "backupRecord (rp_ManifestPath records) E s1 = (s2, Inr mb)" "dk_files s2 = dk_files s1"
      and r2: "disk_bind (stageRecord (rp_LockPath records)) (\<lambda>_.
        disk_bind (stageRecord (rp_ManifestPath records)) (\<lambda>_. commit_pair S records L M hooks lb mb)) E s2 = (s', r)"
    have b2: "backup_node mb = dk_files s (rp_ManifestPath records)"
      using readFile_backup [OF q mb(1) [unfolded backupRecord_def] m] modes lb(2) by simp
    show "disk_runs s2 s' \<and> pair_outcome records (dk_files s2) (pair_files records L M (dk_files s2)) s' r"
      using r2
    proof (rule outcome_bind [where G = "pair_files records L M", OF _ _ q])
      fix s3 and x :: unit
      assume s3: "dk_files s3 = dk_files s2" and r3: "disk_bind (stageRecord (rp_ManifestPath records)) (\<lambda>_. commit_pair S records L M hooks lb mb) E s3 = (s', r)"
      show "disk_runs s3 s' \<and> pair_outcome records (dk_files s3) (pair_files records L M (dk_files s3)) s' r"
        using r3
      proof (rule outcome_bind [where G = "pair_files records L M", OF _ _ q])
        fix s4 and x :: unit
        assume s4: "dk_files s4 = dk_files s3" and r4: "commit_pair S records L M hooks lb mb E s4 = (s', r)"
        show "disk_runs s4 s' \<and> pair_outcome records (dk_files s4) (pair_files records L M (dk_files s4)) s' r"
          by (rule commit_pair_outcome [OF q l m d _ _ r4]) (simp_all add: b1 b2 s4 s3 mb(2) lb(2))
      qed (intro only_reads)
    qed (intro only_reads)
  qed
qed

lemma planned_state_expected: "planned_state S expected p E s = (s', Inr x) \<Longrightarrow> expected p = Some x"
  by (auto simp: planned_state_def disk_ok split: option.splits)

lemma commitSnapshotPair_outcome:
  assumes q: "disk_quiet E" and l: "canonical (rp_LockPath records)" and m: "canonical (rp_ManifestPath records)"
    and d: "rp_LockPath records \<noteq> rp_ManifestPath records" and modes: "sound_modes (dk_files s)"
    and run: "commitSnapshotPair S records desired expected hooks E s = (s', r)"
  shows "disk_runs s s' \<and> pair_outcome records (dk_files s) (records_after S records desired expected (dk_files s)) s' r"
proof (cases "fmlookup desired (rp_LockPath records) = None \<or> fmlookup desired (rp_ManifestPath records) = None")
  case True
  then obtain e where "disk_raise e E s = (s', r)" using run by (auto simp: commitSnapshotPair_def split: option.splits)
  then show ?thesis by (rule outcome_raise)
next
  case False
  then obtain L M where LM: "fmlookup desired (rp_LockPath records) = Some L" "fmlookup desired (rp_ManifestPath records) = Some M" by auto
  let ?G = "records_after S records desired expected"
  from run LM have "disk_bind (check_desired_pair S L M) (\<lambda>_.
      disk_bind (planned_state S expected (rp_LockPath records)) (\<lambda>lx.
      disk_bind (planned_state S expected (rp_ManifestPath records)) (\<lambda>mx.
      if re_Exists lx \<and> re_Exists mx \<and> re_SHA256 lx = ie_digest S (df_Data L) \<and> re_SHA256 mx = ie_digest S (df_Data M) then disk_return ()
      else replace_pair S records L M hooks))) E s = (s', r)"
    by (simp add: commitSnapshotPair_def)
  then show ?thesis
  proof (rule outcome_bind [where G = ?G, OF _ _ q])
    fix s1 and x :: unit
    assume s1: "dk_files s1 = dk_files s" and r1: "disk_bind (planned_state S expected (rp_LockPath records)) (\<lambda>lx.
      disk_bind (planned_state S expected (rp_ManifestPath records)) (\<lambda>mx.
      if re_Exists lx \<and> re_Exists mx \<and> re_SHA256 lx = ie_digest S (df_Data L) \<and> re_SHA256 mx = ie_digest S (df_Data M) then disk_return ()
      else replace_pair S records L M hooks)) E s1 = (s', r)"
    show "disk_runs s1 s' \<and> pair_outcome records (dk_files s1) (?G (dk_files s1)) s' r"
      using r1
    proof (rule outcome_bind [where G = ?G, OF _ _ q])
      fix s2 lx
      assume lx: "planned_state S expected (rp_LockPath records) E s1 = (s2, Inr lx)" and s2: "dk_files s2 = dk_files s1"
        and r2: "disk_bind (planned_state S expected (rp_ManifestPath records)) (\<lambda>mx.
          if re_Exists lx \<and> re_Exists mx \<and> re_SHA256 lx = ie_digest S (df_Data L) \<and> re_SHA256 mx = ie_digest S (df_Data M) then disk_return ()
          else replace_pair S records L M hooks) E s2 = (s', r)"
      show "disk_runs s2 s' \<and> pair_outcome records (dk_files s2) (?G (dk_files s2)) s' r"
        using r2
      proof (rule outcome_bind [where G = ?G, OF _ _ q])
        fix s3 mx
        assume mx: "planned_state S expected (rp_ManifestPath records) E s2 = (s3, Inr mx)" and s3: "dk_files s3 = dk_files s2"
          and r3: "(if re_Exists lx \<and> re_Exists mx \<and> re_SHA256 lx = ie_digest S (df_Data L) \<and> re_SHA256 mx = ie_digest S (df_Data M) then disk_return ()
            else replace_pair S records L M hooks) E s3 = (s', r)"
        have cur: "records_current S expected records L M \<longleftrightarrow>
            re_Exists lx \<and> re_Exists mx \<and> re_SHA256 lx = ie_digest S (df_Data L) \<and> re_SHA256 mx = ie_digest S (df_Data M)"
          using planned_state_expected [OF lx] planned_state_expected [OF mx] by (simp add: records_current_def)
        show "disk_runs s3 s' \<and> pair_outcome records (dk_files s3) (?G (dk_files s3)) s' r"
        proof (cases "records_current S expected records L M")
          case True
          with r3 cur LM show ?thesis by (simp add: records_after_def disk_return_def pair_outcome_def pair_partly_refl split: if_splits) auto
        next
          case False
          with r3 cur have "replace_pair S records L M hooks E s3 = (s', r)" by (simp split: if_splits)
          with replace_pair_outcome [OF q l m d _ this] False LM modes s1 s2 s3 show ?thesis by (simp add: records_after_def)
        qed
      qed (intro only_reads)
    qed (intro only_reads)
  qed (intro only_reads)
qed

section \<open>The files\<close>

definition change_node :: "(string, desiredFile) gomap \<Rightarrow> upgradeChange \<Rightarrow> disk_node option" where
  "change_node desired c =
     (if uc_Action c = ActionDelete then None
      else map_option (\<lambda>f. Regular (df_Data f) (df_Mode f mod 512)) (fmlookup desired (uc_Path c)))"

definition apply_changes :: "(string, desiredFile) gomap \<Rightarrow> upgradeChange list \<Rightarrow> files \<Rightarrow> files" where
  "apply_changes desired cs f q =
     (case find (\<lambda>c. writes_file c \<and> uc_Path c = q) cs of None \<Rightarrow> f q | Some c \<Rightarrow> change_node desired c)"

lemma applyUpgradeChange_effect:
  assumes q: "disk_quiet E" and p: "canonical (uc_Path c)" and run: "applyUpgradeChange S desired c E s = (s', r)"
  shows "disk_runs s s'" and "x \<noteq> uc_Path c \<or> \<not> writes_file c \<Longrightarrow> dk_files s' x = dk_files s x"
    and "r = Inr y \<Longrightarrow> writes_file c \<Longrightarrow> dk_files s' (uc_Path c) = change_node desired c"
proof -
  have ro: "reads_only_call (check_current S c)" by (intro only_reads)
  have "disk_runs s s' \<and> (\<forall>x. x \<noteq> uc_Path c \<or> \<not> writes_file c \<longrightarrow> dk_files s' x = dk_files s x)
    \<and> (r = Inr () \<and> writes_file c \<longrightarrow> dk_files s' (uc_Path c) = change_node desired c)"
    using run unfolding applyUpgradeChange_def
  proof (cases rule: disk_bind_cases)
    case (failed e)
    have "disk_reads s s'" by (rule disk_readsD [OF ro q failed(1)])
    with failed(2) show ?thesis by (simp add: disk_reads_runs disk_reads_def)
  next
    case (passed s1 u)
    have rd: "disk_reads s s1" by (rule disk_readsD [OF ro q passed(1)])
    then have f: "dk_files s1 = dk_files s" and rn: "disk_runs s s1" by (simp_all add: disk_reads_def disk_reads_runs)
    consider (delete) "uc_Action c = ActionDelete" | (written) "uc_Action c = ActionCreate \<or> uc_Action c = ActionUpdate" | (no_write) "\<not> writes_file c"
      by (auto simp: writes_file_def)
    then show ?thesis
    proof cases
      case delete
      obtain s2 z where rm: "removeFile (uc_Path c) E s1 = (s2, z)" by fastforce
      note w = removeFile_files [OF q rm p [unfolded canonical_def]]
      from passed(2) delete rm have out: "s' = s2" "\<forall>x. r = Inr x \<longrightarrow> z = Inr () \<or> z = Inl NotExist"
        by (auto split: sum.splits if_splits)
      then have "r = Inr () \<longrightarrow> dk_files s' (uc_Path c) = change_node desired c"
        using w(2,3) delete by (auto simp: change_node_def)
      moreover have "\<forall>x. x \<noteq> uc_Path c \<or> \<not> writes_file c \<longrightarrow> dk_files s' x = dk_files s x"
        using w(1) out(1) f delete by (auto simp: writes_file_def)
      ultimately show ?thesis using disk_runs_trans [OF rn removeFile_runs [OF rm]] out(1) by blast
    next
      case written
      show ?thesis
      proof (cases "fmlookup desired (uc_Path c)")
        case None
        with passed(2) written show ?thesis using rn f by (auto simp: disk_raise_def)
      next
        case (Some w0)
        with passed(2) written have wr: "writeAtomic (uc_Path c) (df_Data w0) (df_Mode w0) E s1 = (s', r)" by auto
        note w = writeAtomic_files [OF q wr p [unfolded canonical_def]]
        have "r = Inr () \<longrightarrow> dk_files s' (uc_Path c) = change_node desired c" using w(2) Some written by (auto simp: change_node_def)
        moreover have "\<forall>x. x \<noteq> uc_Path c \<or> \<not> writes_file c \<longrightarrow> dk_files s' x = dk_files s x"
          using w(1) f written by (auto simp: writes_file_def)
        ultimately show ?thesis using disk_runs_trans [OF rn writeAtomic_runs [OF wr]] by blast
      qed
    next
      case no_write
      with passed(2) have "s' = s1"
        by (cases "uc_Action c") (simp_all add: writes_file_def disk_return_def disk_raise_def)
      with rn f no_write show ?thesis by simp
    qed
  qed
  then show "disk_runs s s'" "x \<noteq> uc_Path c \<or> \<not> writes_file c \<Longrightarrow> dk_files s' x = dk_files s x"
    "r = Inr y \<Longrightarrow> writes_file c \<Longrightarrow> dk_files s' (uc_Path c) = change_node desired c" by (cases y; blast)+
qed

lemma apply_loop_effect:
  assumes "disk_quiet E" and "\<forall>c \<in> set cs. canonical (uc_Path c)" and "distinct (map uc_Path cs)"
    and "apply_loop S desired applied cs E s = (s', r, applied')"
  shows "\<exists>new. applied' = applied @ new \<and> set new \<subseteq> {c \<in> set cs. writes_file c} \<and> disk_runs s s'
    \<and> (\<forall>x. x \<notin> uc_Path ` set new \<longrightarrow> dk_files s' x = dk_files s x)
    \<and> (r = Inr () \<longrightarrow> (\<forall>c \<in> set cs. writes_file c \<longrightarrow> dk_files s' (uc_Path c) = change_node desired c))"
  using assms(2-)
proof (induction cs arbitrary: applied s)
  case (Cons c cs)
  let ?ap = "if writes_file c then applied @ [c] else applied"
  let ?first = "if writes_file c then [c] else []"
  obtain s1 z where c: "applyUpgradeChange S desired c E s = (s1, z)" by fastforce
  have can: "canonical (uc_Path c)" "\<forall>c \<in> set cs. canonical (uc_Path c)" "distinct (map uc_Path cs)" "uc_Path c \<notin> uc_Path ` set cs"
    using Cons.prems(1,2) by auto
  note step = applyUpgradeChange_effect [OF assms(1) can(1) c]
  show ?case
  proof (cases z)
    case (Inl e)
    with Cons.prems(3) c have "s' = s1" "r = Inl e" "applied' = applied @ ?first" by (auto simp: Let_def)
    with step(1,2) show ?thesis by (intro exI [of _ ?first]) auto
  next
    case (Inr u)
    with Cons.prems(3) c have rest: "apply_loop S desired ?ap cs E s1 = (s', r, applied')" by (simp add: Let_def)
    from Cons.IH [OF can(2,3) rest] obtain new where new: "applied' = ?ap @ new" "set new \<subseteq> {c \<in> set cs. writes_file c}" "disk_runs s1 s'"
        "\<forall>x. x \<notin> uc_Path ` set new \<longrightarrow> dk_files s' x = dk_files s1 x"
        "r = Inr () \<longrightarrow> (\<forall>c \<in> set cs. writes_file c \<longrightarrow> dk_files s' (uc_Path c) = change_node desired c)" by blast
    have here: "dk_files s' (uc_Path c) = change_node desired c" if "writes_file c"
    proof -
      have "uc_Path c \<notin> uc_Path ` set new" using new(2) can(4) by auto
      with new(4) step(3) [OF Inr that] show ?thesis by simp
    qed
    show ?thesis
    proof (intro exI [of _ "?first @ new"] conjI)
      show "applied' = applied @ ?first @ new" using new(1) by simp
      show "set (?first @ new) \<subseteq> {d \<in> set (c # cs). writes_file d}" using new(2) by auto
      show "disk_runs s s'" by (rule disk_runs_trans [OF step(1) new(3)])
      show "\<forall>x. x \<notin> uc_Path ` set (?first @ new) \<longrightarrow> dk_files s' x = dk_files s x"
      proof (intro allI impI)
        fix x
        assume "x \<notin> uc_Path ` set (?first @ new)"
        then have "x \<notin> uc_Path ` set new" "x \<noteq> uc_Path c \<or> \<not> writes_file c" by (auto split: if_splits)
        with new(4) step(2) show "dk_files s' x = dk_files s x" by simp
      qed
      show "r = Inr () \<longrightarrow> (\<forall>d \<in> set (c # cs). writes_file d \<longrightarrow> dk_files s' (uc_Path d) = change_node desired d)" using new(5) here by auto
    qed
  qed
qed auto

lemma apply_changes_reached:
  assumes "\<forall>x. x \<notin> uc_Path ` set new \<longrightarrow> g x = f x" and "set new \<subseteq> {c \<in> set cs. writes_file c}"
    and "\<forall>c \<in> set cs. writes_file c \<longrightarrow> g (uc_Path c) = change_node desired c"
  shows "g = apply_changes desired cs f"
proof
  fix q
  show "g q = apply_changes desired cs f q"
  proof (cases "find (\<lambda>c. writes_file c \<and> uc_Path c = q) cs")
    case None
    then have "q \<notin> uc_Path ` set new" using assms(2) by (auto simp: find_None_iff)
    with None assms(1) show ?thesis by (simp add: apply_changes_def)
  next
    case (Some c)
    then have "c \<in> set cs" "writes_file c" "uc_Path c = q" by (auto simp: find_Some_iff)
    with Some assms(3) show ?thesis by (auto simp: apply_changes_def)
  qed
qed

lemma apply_changes_modes: "sound_modes f \<Longrightarrow> sound_modes (apply_changes desired cs f)"
  by (auto simp: sound_modes_def apply_changes_def change_node_def split: option.splits if_splits)

end
