(* ===== verification/Blue_Guarantees.thy ===== *)
theory Blue_Guarantees
  imports Blue_Atomic
begin

text \<open>
  What an upgrade promises: interrupted anywhere, it leaves the old files, the new files, or a journal that readers
  refuse; it does not touch what the application has changed; and what the rollback does to an edit made during the upgrade.
\<close>

section \<open>What can be seen\<close>

definition visible :: "files \<Rightarrow> files \<Rightarrow> disk \<Rightarrow> disk \<Rightarrow> bool" where
  "visible f g s s' \<longleftrightarrow> (\<exists>vs. dk_seen s' = vs @ dk_seen s \<and> (\<forall>v \<in> set vs. snd v \<or> fst v = f \<or> fst v = g))"

lemma visible_refl: "visible f g s s"
  by (simp add: visible_def)

lemma visible_trans: "visible f g s s1 \<Longrightarrow> visible f g s1 s2 \<Longrightarrow> visible f g s s2"
  unfolding visible_def by auto

lemma visible_runs: "disk_runs s s' \<Longrightarrow> dk_journal s \<Longrightarrow> visible f g s s'"
  unfolding visible_def disk_runs_def by auto

lemma visible_reads: "disk_reads s s' \<Longrightarrow> dk_files s = f \<or> dk_files s = g \<Longrightarrow> visible f g s s'"
  unfolding visible_def disk_reads_def by (metis fst_conv)

text \<open>The two ends of a transaction.\<close>

lemma journal_effect_files:
  assumes "disk_quiet E" and "disk_effect h E s = (s', r)" and "\<And>s1 s2. h s1 = Inr s2 \<Longrightarrow> dk_files s2 = dk_files s1 \<and> dk_seen s2 = dk_seen s1"
  shows "dk_files s' = dk_files s" and "\<exists>vs. dk_seen s' = vs @ dk_seen s \<and> (\<forall>v \<in> set vs. fst v = dk_files s)"
proof -
  let ?v = "(dk_files s, dk_journal s)"
  have e: "dk_seen (disk_enter E s) = ?v # dk_seen s" "dk_files (disk_enter E s) = dk_files s"
    using assms(1) by (simp_all add: disk_enter_def disk_quiet_def apply_edits_def Let_def)
  have "dk_files s' = dk_files s \<and> (dk_seen s' = [?v] @ dk_seen s \<or> (\<exists>j. dk_seen s' = [(dk_files s, j), ?v] @ dk_seen s))"
  proof (cases "s' = disk_enter E s")
    case True
    with e show ?thesis by simp
  next
    case False
    with assms(2) obtain s2 where "h (disk_enter E s) = Inr s2" "s' = disk_note s2"
      by (auto simp: disk_effect_def Let_def split: fault.splits sum.splits)
    with assms(3) e show ?thesis by (simp add: disk_note_def)
  qed
  then show "dk_files s' = dk_files s" "\<exists>vs. dk_seen s' = vs @ dk_seen s \<and> (\<forall>v \<in> set vs. fst v = dk_files s)" by fastforce+
qed

lemma finish_outcome:
  assumes "disk_quiet E" and "finishTransaction E s = (s', r)"
  shows "dk_files s' = dk_files s" and "dk_files s = f \<or> dk_files s = g \<Longrightarrow> visible f g s s'" and "r = Inr x \<Longrightarrow> \<not> dk_journal s'"
proof -
  note d = journal_effect_files [OF assms(1) assms(2) [unfolded finishTransaction_def]]
  show "dk_files s' = dk_files s" by (rule d(1)) (auto simp: journal_remove_def)
  show "visible f g s s'" if "dk_files s = f \<or> dk_files s = g"
    using d(2) that by (auto simp: journal_remove_def visible_def)
  show "\<not> dk_journal s'" if "r = Inr x"
    using assms(2) that by (auto simp: finishTransaction_def disk_effect_def journal_remove_def Let_def split: fault.splits)
qed

lemma begin_outcome:
  assumes "disk_quiet E" and "beginSnapshotTransaction E s = (s', r)"
  shows "dk_files s' = dk_files s" and "dk_files s = f \<or> dk_files s = g \<Longrightarrow> visible f g s s'" and "r = Inr x \<Longrightarrow> dk_journal s'"
proof -
  let ?h = "\<lambda>s1. if dk_journal s1 then Inl NeedsRecovery else Inr (s1\<lparr>dk_journal := True\<rparr>)"
  obtain s1 z where c: "disk_effect ?h E s = (s1, z)" by fastforce
  have h: "dk_files s1 = dk_files s" "\<exists>vs. dk_seen s1 = vs @ dk_seen s \<and> (\<forall>v \<in> set vs. fst v = dk_files s)"
    by (rule journal_effect_files [OF assms(1) c]; auto split: if_splits)+
  obtain s2 y where u: "disk_effect journal_remove E s1 = (s2, y)" by fastforce
  have k: "dk_files s2 = dk_files s1" "\<exists>vs. dk_seen s2 = vs @ dk_seen s1 \<and> (\<forall>v \<in> set vs. fst v = dk_files s1)"
    by (rule journal_effect_files [OF assms(1) u]; auto simp: journal_remove_def)+
  have s': "s' = s1 \<or> s' = s2" using assms(2) c u by (auto simp: beginSnapshotTransaction_def split: sum.splits if_splits)
  show "dk_files s' = dk_files s" using s' h(1) k(1) by auto
  have v1: "visible f g s s1" if "dk_files s = f \<or> dk_files s = g" using h(2) that by (auto simp: visible_def)
  have v2: "visible f g s1 s2" if "dk_files s = f \<or> dk_files s = g" using k(2) h(1) that by (auto simp: visible_def)
  show "visible f g s s'" if "dk_files s = f \<or> dk_files s = g" using s' v1 v2 that visible_trans by blast
  show "dk_journal s'" if "r = Inr x"
    using assms(2) c that by (auto simp: beginSnapshotTransaction_def disk_effect_def Let_def split: sum.splits if_splits fault.splits)
qed

section \<open>The transaction\<close>

definition upgraded_files ::
  "snapshot_env \<Rightarrow> upgradeChange list \<Rightarrow> (string, desiredFile) gomap \<Rightarrow> snapshotRecordPaths \<Rightarrow> files \<Rightarrow> files" where
  "upgraded_files S changes desired records f =
     (if \<not> list_ex writes_file changes then f
      else records_after S records desired (upgradeRecordExpectations changes records)
             (apply_changes desired (filter (\<lambda>c. \<not> record_change records c) changes) f))"

definition disk_settled :: "files \<Rightarrow> files \<Rightarrow> disk \<Rightarrow> disk \<Rightarrow> bperr + unit \<Rightarrow> bool" where
  "disk_settled f g s s' r \<longleftrightarrow> visible f g s s' \<and> (r = Inr () \<longrightarrow> dk_files s' = g \<and> \<not> dk_journal s')
     \<and> (\<not> dk_journal s' \<longrightarrow> dk_files s' = f \<or> dk_files s' = g)"

lemma finish_upgrade_settled:
  assumes q: "disk_quiet E" and j: "dk_journal s"
    and applied: "\<forall>c \<in> set applied. canonical (uc_Path c) \<and> backup_node (backups (uc_Path c)) = f (uc_Path c)"
    and good: "\<And>u. result = Inr u \<Longrightarrow> dk_files s = g"
    and bad: "\<And>e. result = Inl e \<Longrightarrow> \<not> is_restore_failure e \<Longrightarrow> \<forall>x. x \<notin> uc_Path ` set applied \<longrightarrow> dk_files s x = f x"
    and run: "finish_upgrade backups applied result E s = (s', r)"
  shows "disk_settled f g s s' r"
proof (cases result)
  case (Inr u)
  with run have fin: "finishTransaction E s = (s', r)" by (simp add: finish_upgrade_def)
  note o = finish_outcome [OF q fin]
  from o good [OF Inr] show ?thesis by (auto simp: disk_settled_def)
next
  case (Inl e)
  obtain s1 es where rb: "roll_back backups (rev applied) E s = (s1, es)" by fastforce
  have b: "disk_runs s s1" "\<forall>x. x \<notin> uc_Path ` set applied \<longrightarrow> dk_files s1 x = dk_files s x"
      "es = [] \<longrightarrow> (\<forall>p \<in> uc_Path ` set applied. dk_files s1 p = backup_node (backups p))"
    using roll_back_restores [OF q rb] applied by auto
  have vis: "visible f g s s1" by (rule visible_runs [OF b(1) j])
  have j1: "dk_journal s1" using b(1) j by (simp add: disk_runs_def)
  show ?thesis
  proof (cases "is_restore_failure e \<or> es \<noteq> []")
    case True
    with run Inl rb have "s' = s1" "\<exists>e. r = Inl e" by (auto simp: finish_upgrade_def)
    with vis j1 show ?thesis by (auto simp: disk_settled_def)
  next
    case False
    obtain s2 z where fin: "finishTransaction E s1 = (s2, z)" by fastforce
    note o = finish_outcome [OF q fin]
    have "dk_files s1 = f"
    proof
      fix x
      show "dk_files s1 x = f x"
        using b bad [OF Inl] applied False by (cases "x \<in> uc_Path ` set applied") auto
    qed
    moreover have "s' = s2" "\<exists>e. r = Inl e" using run Inl rb False fin by (auto simp: finish_upgrade_def split: sum.splits)
    ultimately show ?thesis using o visible_trans [OF vis] by (auto simp: disk_settled_def)
  qed
qed

lemma upgrade_transaction_settled:
  assumes q: "disk_quiet E" and j: "dk_journal s" and modes: "sound_modes (dk_files s)"
    and l: "canonical (rp_LockPath records)" and m: "canonical (rp_ManifestPath records)" and d: "rp_LockPath records \<noteq> rp_ManifestPath records"
    and paths: "\<forall>c \<in> set changes. canonical (uc_Path c)" "distinct (map uc_Path changes)"
    and backups: "\<forall>c \<in> set changes. \<not> record_change records c \<and> writes_file c \<longrightarrow> backup_node (backups (uc_Path c)) = dk_files s (uc_Path c)"
    and w: "list_ex writes_file changes"
    and run: "upgrade_transaction S changes desired records hooks backups E s = (s', r)"
  shows "disk_settled (dk_files s) (upgraded_files S changes desired records (dk_files s)) s s' r"
proof -
  let ?f = "dk_files s" and ?g = "upgraded_files S changes desired records (dk_files s)"
  let ?managed = "filter (\<lambda>c. \<not> record_change records c) changes"
  let ?x = "upgradeRecordExpectations changes records"
  obtain s1 z applied where loop: "apply_loop S desired [] ?managed E s = (s1, z, applied)" by (metis prod.collapse)
  have can: "\<forall>c \<in> set ?managed. canonical (uc_Path c)" "distinct (map uc_Path ?managed)"
    using paths by (auto simp: distinct_map intro: inj_on_subset)
  from apply_loop_effect [OF q can loop] have a: "set applied \<subseteq> {c \<in> set ?managed. writes_file c}" "disk_runs s s1"
      "\<forall>x. x \<notin> uc_Path ` set applied \<longrightarrow> dk_files s1 x = ?f x"
      "z = Inr () \<longrightarrow> (\<forall>c \<in> set ?managed. writes_file c \<longrightarrow> dk_files s1 (uc_Path c) = change_node desired c)" by auto
  have ap: "\<forall>c \<in> set applied. canonical (uc_Path c) \<and> backup_node (backups (uc_Path c)) = ?f (uc_Path c)"
    using a(1) paths(1) backups by auto
  have vis: "visible ?f ?g s s1" by (rule visible_runs [OF a(2) j])
  have j1: "dk_journal s1" using a(2) j by (simp add: disk_runs_def)
  show ?thesis
  proof (cases z)
    case (Inl e)
    with run loop have fin: "finish_upgrade backups applied (Inl e) E s1 = (s', r)" by (simp add: upgrade_transaction_def Let_def)
    have "disk_settled ?f ?g s1 s' r"
      by (rule finish_upgrade_settled [OF q j1 ap _ _ fin]) (use a(3) in auto)
    with visible_trans [OF vis] show ?thesis by (auto simp: disk_settled_def)
  next
    case (Inr u)
    let ?h = "apply_changes desired ?managed ?f"
    have h: "dk_files s1 = ?h" by (rule apply_changes_reached [OF a(3,1)]) (use a(4) Inr in simp)
    let ?commit = "commitSnapshotPair S records desired ?x (SnapshotHooks hooks)"
    let ?rest = "disk_bind (verifyAppliedUpgradeState S desired ?managed) (\<lambda>_. disk_bind (run_commit_hook (BeforeSnapshotCommit hooks)) (\<lambda>_. ?commit))"
    obtain s2 res where rest: "?rest E s1 = (s2, res)" by fastforce
    have g: "?g = records_after S records desired ?x ?h" using w by (simp add: upgraded_files_def)
    have out: "disk_runs s1 s2 \<and> pair_outcome records (dk_files s1) (records_after S records desired ?x (dk_files s1)) s2 res"
      using rest
    proof (rule outcome_bind [where G = "records_after S records desired ?x", OF _ _ q])
      fix s3 and v :: unit
      assume s3: "dk_files s3 = dk_files s1" and r3: "disk_bind (run_commit_hook (BeforeSnapshotCommit hooks)) (\<lambda>_. ?commit) E s3 = (s2, res)"
      show "disk_runs s3 s2 \<and> pair_outcome records (dk_files s3) (records_after S records desired ?x (dk_files s3)) s2 res"
        using r3
      proof (rule outcome_bind [where G = "records_after S records desired ?x", OF _ _ q])
        fix s4 and v :: unit
        assume s4: "dk_files s4 = dk_files s3" and r4: "?commit E s4 = (s2, res)"
        have "sound_modes (dk_files s4)" unfolding s4 s3 h by (rule apply_changes_modes [OF modes])
        from commitSnapshotPair_outcome [OF q l m d this r4]
        show "disk_runs s4 s2 \<and> pair_outcome records (dk_files s4) (records_after S records desired ?x (dk_files s4)) s2 res" .
      qed (intro only_reads)
    qed (intro only_reads)
    from run loop Inr rest have fin: "finish_upgrade backups applied res E s2 = (s', r)" by (simp add: upgrade_transaction_def Let_def)
    have vis2: "visible ?f ?g s1 s2" by (rule visible_runs [OF conjunct1 [OF out] j1])
    have j2: "dk_journal s2" using out j1 by (simp add: disk_runs_def)
    have "disk_settled ?f ?g s2 s' r"
    proof (rule finish_upgrade_settled [OF q j2 ap _ _ fin])
      show "dk_files s2 = ?g" if "res = Inr u" for u using out that h g by (simp add: pair_outcome_def)
      show "\<forall>x. x \<notin> uc_Path ` set applied \<longrightarrow> dk_files s2 x = ?f x" if "res = Inl e" "\<not> is_restore_failure e" for e
        using out that a(3) by (simp add: pair_outcome_def)
    qed
    with visible_trans [OF vis visible_trans [OF vis2]] show ?thesis by (auto simp: disk_settled_def)
  qed
qed

section \<open>The whole upgrade\<close>

lemma backups_found:
  assumes "\<forall>(p, b) \<in> set bs. backup_node b = f p" and "p \<in> fst ` set bs"
  shows "backup_node (Option.bind (map_of bs p) id) = f p"
proof -
  obtain b where "map_of bs p = Some b" using assms(2) by (metis map_of_eq_None_iff not_Some_eq)
  with assms(1) map_of_SomeD show ?thesis by fastforce
qed

text \<open>A call that only reads comes before the rest.\<close>

lemma settled_bind:
  assumes "disk_bind m k E s = (s', r)" and "reads_only_call m" and "disk_quiet E"
    and "\<And>s1 x. m E s = (s1, Inr x) \<Longrightarrow> dk_files s1 = dk_files s \<Longrightarrow> k x E s1 = (s', r)
      \<Longrightarrow> visible (dk_files s) g s1 s' \<and> (r = Inr () \<longrightarrow> dk_files s' = g) \<and> (\<not> dk_journal s' \<longrightarrow> dk_files s' = dk_files s \<or> dk_files s' = g)"
  shows "visible (dk_files s) g s s' \<and> (r = Inr () \<longrightarrow> dk_files s' = g) \<and> (\<not> dk_journal s' \<longrightarrow> dk_files s' = dk_files s \<or> dk_files s' = g)"
  using assms(1)
proof (cases rule: disk_bind_cases)
  case (failed e)
  have "disk_reads s s'" by (rule disk_readsD [OF assms(2,3) failed(1)])
  with failed(2) show ?thesis by (simp add: visible_reads) (simp add: disk_reads_def)
next
  case (passed s1 x)
  have rd: "disk_reads s s1" by (rule disk_readsD [OF assms(2,3) passed(1)])
  then have f: "dk_files s1 = dk_files s" by (simp add: disk_reads_def)
  have "visible (dk_files s) g s s1" by (rule visible_reads [OF rd]) simp
  with assms(4) [OF passed(1) f passed(2)] visible_trans show ?thesis by blast
qed

lemma applyUpgrade_settled:
  assumes q: "disk_quiet E" and modes: "sound_modes (dk_files s)"
    and l: "canonical (rp_LockPath records)" and m: "canonical (rp_ManifestPath records)" and d: "rp_LockPath records \<noteq> rp_ManifestPath records"
    and paths: "\<forall>c \<in> set changes. canonical (uc_Path c)" "distinct (map uc_Path changes)"
    and run: "applyUpgradeWithHooks S changes desired records hooks E s = (s', r)"
  shows "visible (dk_files s) (upgraded_files S changes desired records (dk_files s)) s s'
    \<and> (r = Inr () \<longrightarrow> dk_files s' = upgraded_files S changes desired records (dk_files s))
    \<and> (\<not> dk_journal s' \<longrightarrow> dk_files s' = dk_files s \<or> dk_files s' = upgraded_files S changes desired records (dk_files s))"
  using run unfolding applyUpgradeWithHooks_def
proof (rule settled_bind [OF _ _ q])
  let ?g = "upgraded_files S changes desired records (dk_files s)"
  let ?todo = "filter (\<lambda>c. \<not> record_change records c \<and> writes_file c) changes"
  show "reads_only_call openManagedRoot" unfolding openManagedRoot_def by (intro only_reads)
  fix s1 and u :: unit
  assume s1: "dk_files s1 = dk_files s" and r1: "disk_bind acquireSnapshotWriter (\<lambda>_. disk_bind (verifyUpgradePlanCAS S changes) (\<lambda>_.
     disk_bind (take_backups ?todo) (\<lambda>backups. if \<not> list_ex writes_file changes then disk_return ()
     else disk_bind beginSnapshotTransaction (\<lambda>_.
       upgrade_transaction S changes desired records hooks (\<lambda>p. Option.bind (map_of backups p) id))))) E s1 = (s', r)"
  show "visible (dk_files s) ?g s1 s' \<and> (r = Inr () \<longrightarrow> dk_files s' = ?g) \<and> (\<not> dk_journal s' \<longrightarrow> dk_files s' = dk_files s \<or> dk_files s' = ?g)"
    unfolding s1 [symmetric] using r1
  proof (rule settled_bind [OF _ _ q])
    show "reads_only_call acquireSnapshotWriter" unfolding acquireSnapshotWriter_def by (intro only_reads)
    fix s2 and u :: unit
    assume s2: "dk_files s2 = dk_files s1" and r2: "disk_bind (verifyUpgradePlanCAS S changes) (\<lambda>_.
       disk_bind (take_backups ?todo) (\<lambda>backups. if \<not> list_ex writes_file changes then disk_return ()
       else disk_bind beginSnapshotTransaction (\<lambda>_.
         upgrade_transaction S changes desired records hooks (\<lambda>p. Option.bind (map_of backups p) id)))) E s2 = (s', r)"
    let ?g1 = "upgraded_files S changes desired records (dk_files s1)"
    show "visible (dk_files s1) ?g1 s2 s' \<and> (r = Inr () \<longrightarrow> dk_files s' = ?g1) \<and> (\<not> dk_journal s' \<longrightarrow> dk_files s' = dk_files s1 \<or> dk_files s' = ?g1)"
      unfolding s2 [symmetric] using r2
    proof (rule settled_bind [OF _ _ q])
      show "reads_only_call (verifyUpgradePlanCAS S changes)" by (intro only_reads)
      fix s3 and u :: unit
      assume s3: "dk_files s3 = dk_files s2" and r3: "disk_bind (take_backups ?todo) (\<lambda>backups. if \<not> list_ex writes_file changes then disk_return ()
         else disk_bind beginSnapshotTransaction (\<lambda>_.
           upgrade_transaction S changes desired records hooks (\<lambda>p. Option.bind (map_of backups p) id))) E s3 = (s', r)"
      let ?g2 = "upgraded_files S changes desired records (dk_files s2)"
      show "visible (dk_files s2) ?g2 s3 s' \<and> (r = Inr () \<longrightarrow> dk_files s' = ?g2) \<and> (\<not> dk_journal s' \<longrightarrow> dk_files s' = dk_files s2 \<or> dk_files s' = ?g2)"
        unfolding s3 [symmetric] using r3
      proof (rule settled_bind [OF _ _ q])
        show "reads_only_call (take_backups ?todo)" by (intro only_reads)
        fix s4 bs
        assume bs: "take_backups ?todo E s3 = (s4, Inr bs)" and s4: "dk_files s4 = dk_files s3"
          and r4: "(if \<not> list_ex writes_file changes then disk_return ()
            else disk_bind beginSnapshotTransaction (\<lambda>_.
              upgrade_transaction S changes desired records hooks (\<lambda>p. Option.bind (map_of bs p) id))) E s4 = (s', r)"
        let ?f = "dk_files s3"
        let ?g3 = "upgraded_files S changes desired records ?f"
        have mode3: "sound_modes ?f" using modes s1 s2 s3 by simp
        show "visible ?f ?g3 s4 s' \<and> (r = Inr () \<longrightarrow> dk_files s' = ?g3) \<and> (\<not> dk_journal s' \<longrightarrow> dk_files s' = ?f \<or> dk_files s' = ?g3)"
        proof (cases "list_ex writes_file changes")
          case False
          with r4 s4 show ?thesis by (simp add: disk_return_def upgraded_files_def visible_refl)
        next
          case True
          then have r5: "disk_bind beginSnapshotTransaction (\<lambda>_. upgrade_transaction S changes desired records hooks (\<lambda>p. Option.bind (map_of bs p) id)) E s4 = (s', r)"
            using r4 by simp
          have tb: "map fst bs = map uc_Path ?todo" "\<forall>(p, b) \<in> set bs. backup_node b = ?f p"
            using take_backups_files [OF q bs _ mode3] paths(1) by auto
          from r5 show ?thesis
          proof (cases rule: disk_bind_cases)
            case (failed e)
            with begin_outcome(1) [OF q failed(1)] begin_outcome(2) [OF q failed(1), of ?f ?g3] s4 show ?thesis by auto
          next
            case (passed s5 u)
            note b = begin_outcome(1) [OF q passed(1)] begin_outcome(2) [OF q passed(1), of ?f ?g3] begin_outcome(3) [OF q passed(1) refl]
            have f5: "dk_files s5 = ?f" using b(1) s4 by simp
            have found: "\<forall>c \<in> set changes. \<not> record_change records c \<and> writes_file c
                \<longrightarrow> backup_node (Option.bind (map_of bs (uc_Path c)) id) = dk_files s5 (uc_Path c)"
            proof (intro ballI impI)
              fix c
              assume "c \<in> set changes" "\<not> record_change records c \<and> writes_file c"
              then have "uc_Path c \<in> set (map fst bs)" unfolding tb(1) by auto
              then have "uc_Path c \<in> fst ` set bs" by simp
              from backups_found [OF tb(2) this] f5 show "backup_node (Option.bind (map_of bs (uc_Path c)) id) = dk_files s5 (uc_Path c)" by simp
            qed
            have "disk_settled ?f ?g3 s5 s' r"
              using upgrade_transaction_settled [OF q b(3) _ l m d paths found True passed(2)] mode3 unfolding f5 by simp
            with b(2) s4 visible_trans show ?thesis unfolding disk_settled_def by metis
          qed
        qed
      qed
    qed
  qed
qed

end
