(* ===== verification/Blue_Properties.thy ===== *)
theory Blue_Properties
  imports Blue_Guarantees
begin

text \<open>
  The properties of an upgrade, with concrete runs: a first upgrade that replaces a file and both records, and one during
  which somebody edits the file.
\<close>

section \<open>Readers\<close>

definition found_disk :: "files \<times> bool \<Rightarrow> disk" where
  "found_disk v = \<lparr>dk_files = fst v, dk_journal = snd v, dk_tick = 0, dk_seen = []\<rparr>"

lemma probe_journal: "disk_probe E s = (s', r) \<Longrightarrow> dk_journal s' = dk_journal s"
  by (auto simp: disk_probe_def)

lemma ReadSnapshot_refuses:
  assumes "dk_journal s"
  shows "snd (ReadSnapshot S path E s) \<noteq> Inr x"
proof
  assume "snd (ReadSnapshot S path E s) = Inr x"
  then obtain s' where "ReadSnapshot S path E s = (s', Inr x)" by (metis prod.collapse)
  then obtain s1 s2 s3 a b c where "openManagedRoot E s = (s1, Inr a)" "acquireSnapshotReader E s1 = (s2, Inr b)"
      "checkSnapshotTransaction E s2 = (s3, Inr c)"
    unfolding ReadSnapshot_def disk_bind_ok by blast
  with assms show False
    by (auto simp: openManagedRoot_def acquireSnapshotReader_def checkSnapshotTransaction_def split: prod.splits sum.splits if_splits
        dest!: probe_journal)
qed

text \<open>
  C38. Applying an upgrade is atomic, whatever call fails and wherever it is interrupted: a reader who is given a
  snapshot at any moment, or after a crash, finds exactly the old files or exactly the upgraded ones; success leaves
  the upgraded files; and unless the journal says that recovery is needed, one of the two is what remains.
\<close>

theorem upgrade_is_atomic:
  assumes "disk_quiet E" and "dk_seen s = []" and "sound_modes (dk_files s)"
    and "canonical (rp_LockPath records)" and "canonical (rp_ManifestPath records)" and "rp_LockPath records \<noteq> rp_ManifestPath records"
    and "\<forall>c \<in> set changes. canonical (uc_Path c)" and "distinct (map uc_Path changes)"
    and "applyUpgradeWithHooks S changes desired records hooks E s = (s', r)"
  shows "(\<forall>v \<in> set (dk_seen s'). \<forall>S' path E' x. snd (ReadSnapshot S' path E' (found_disk v)) = Inr x
        \<longrightarrow> fst v = dk_files s \<or> fst v = upgraded_files S changes desired records (dk_files s))
    \<and> (r = Inr () \<longrightarrow> dk_files s' = upgraded_files S changes desired records (dk_files s))
    \<and> (\<not> dk_journal s' \<longrightarrow> dk_files s' = dk_files s \<or> dk_files s' = upgraded_files S changes desired records (dk_files s))"
proof -
  note settles = applyUpgrade_settled [OF assms(1,3-9)]
  have "fst v = dk_files s \<or> fst v = upgraded_files S changes desired records (dk_files s)"
    if "v \<in> set (dk_seen s')" "snd (ReadSnapshot S' path E' (found_disk v)) = Inr x" for v S' path E' x
  proof -
    have "\<not> dk_journal (found_disk v)" using that(2) ReadSnapshot_refuses by blast
    then have "\<not> snd v" by (simp add: found_disk_def)
    with that(1) settles assms(2) show ?thesis by (auto simp: visible_def)
  qed
  with settles show ?thesis by blast
qed

section \<open>Customized files\<close>

lemma finish_upgrade_keeps:
  assumes "disk_quiet E" and "\<forall>c \<in> set applied. canonical (uc_Path c)" and "p \<notin> uc_Path ` set applied"
    and "finish_upgrade backups applied result E s = (s', r)"
  shows "dk_files s' p = dk_files s p"
proof (cases result)
  case (Inr u)
  with assms finish_outcome(1) [OF assms(1)] show ?thesis by (simp add: finish_upgrade_def)
next
  case (Inl e)
  obtain s1 es where rb: "roll_back backups (rev applied) E s = (s1, es)" by fastforce
  have k: "dk_files s1 p = dk_files s p" using roll_back_restores [OF assms(1) rb] assms(2,3) by auto
  obtain s2 z where fin: "finishTransaction E s1 = (s2, z)" by fastforce
  from assms(4) Inl rb fin have "s' = s1 \<or> s' = s2" by (auto simp: finish_upgrade_def split: if_splits sum.splits)
  with k finish_outcome(1) [OF assms(1) fin] show ?thesis by auto
qed

lemma keeps_bind:
  assumes "disk_bind m k E s = (s', r)" and "reads_only_call m" and "disk_quiet E"
    and "\<And>s1 x. m E s = (s1, Inr x) \<Longrightarrow> dk_files s1 = dk_files s \<Longrightarrow> k x E s1 = (s', r) \<Longrightarrow> dk_files s' p = dk_files s p"
  shows "dk_files s' p = dk_files s p"
  using assms(1)
proof (cases rule: disk_bind_cases)
  case (failed e)
  show ?thesis using disk_readsD [OF assms(2,3) failed(1)] by (simp add: disk_reads_def)
next
  case (passed s1 x)
  have "dk_files s1 = dk_files s" using disk_readsD [OF assms(2,3) passed(1)] by (simp add: disk_reads_def)
  from assms(4) [OF passed(1) this passed(2)] show ?thesis .
qed

lemma upgrade_transaction_keeps:
  assumes q: "disk_quiet E" and modes: "sound_modes (dk_files s)"
    and l: "canonical (rp_LockPath records)" and m: "canonical (rp_ManifestPath records)" and d: "rp_LockPath records \<noteq> rp_ManifestPath records"
    and paths: "\<forall>c \<in> set changes. canonical (uc_Path c)" "distinct (map uc_Path changes)"
    and p: "p \<noteq> rp_LockPath records" "p \<noteq> rp_ManifestPath records" "\<forall>c \<in> set changes. writes_file c \<longrightarrow> uc_Path c \<noteq> p"
    and run: "upgrade_transaction S changes desired records hooks backups E s = (s', r)"
  shows "dk_files s' p = dk_files s p"
proof -
  let ?managed = "filter (\<lambda>c. \<not> record_change records c) changes"
  obtain s1 z applied where loop: "apply_loop S desired [] ?managed E s = (s1, z, applied)" by (metis prod.collapse)
  have can: "\<forall>c \<in> set ?managed. canonical (uc_Path c)" "distinct (map uc_Path ?managed)"
    using paths by (auto simp: distinct_map intro: inj_on_subset)
  from apply_loop_effect [OF q can loop] have a: "set applied \<subseteq> {c \<in> set ?managed. writes_file c}"
      "\<forall>x. x \<notin> uc_Path ` set applied \<longrightarrow> dk_files s1 x = dk_files s x"
      "z = Inr () \<longrightarrow> (\<forall>c \<in> set ?managed. writes_file c \<longrightarrow> dk_files s1 (uc_Path c) = change_node desired c)" by auto
  have ap: "\<forall>c \<in> set applied. canonical (uc_Path c)" "p \<notin> uc_Path ` set applied" using a(1) paths(1) p(3) by auto
  show ?thesis
  proof (cases z)
    case (Inl e)
    with run loop have "finish_upgrade backups applied (Inl e) E s1 = (s', r)" by (simp add: upgrade_transaction_def Let_def)
    from finish_upgrade_keeps [OF q ap this] a(2) ap(2) show ?thesis by simp
  next
    case (Inr u)
    have "dk_files s1 = apply_changes desired ?managed (dk_files s)" by (rule apply_changes_reached [OF a(2,1)]) (use a(3) Inr in simp)
    then have m1: "sound_modes (dk_files s1)" using apply_changes_modes [OF modes] by simp
    let ?rest = "disk_bind (verifyAppliedUpgradeState S desired ?managed) (\<lambda>_. disk_bind (run_commit_hook (BeforeSnapshotCommit hooks)) (\<lambda>_.
      commitSnapshotPair S records desired (upgradeRecordExpectations changes records) (SnapshotHooks hooks)))"
    obtain s2 res where rest: "?rest E s1 = (s2, res)" by fastforce
    have "dk_files s2 p = dk_files s1 p"
      using rest
    proof (rule keeps_bind [OF _ _ q])
      fix s3 and v :: unit
      assume s3: "dk_files s3 = dk_files s1" and r3: "disk_bind (run_commit_hook (BeforeSnapshotCommit hooks)) (\<lambda>_.
        commitSnapshotPair S records desired (upgradeRecordExpectations changes records) (SnapshotHooks hooks)) E s3 = (s2, res)"
      from r3 show "dk_files s2 p = dk_files s1 p" unfolding s3 [symmetric]
      proof (rule keeps_bind [OF _ _ q])
        fix s4 and v :: unit
        assume s4: "dk_files s4 = dk_files s3"
          and r4: "commitSnapshotPair S records desired (upgradeRecordExpectations changes records) (SnapshotHooks hooks) E s4 = (s2, res)"
        from commitSnapshotPair_outcome [OF q l m d _ r4] m1 s3 s4 p(1,2) show "dk_files s2 p = dk_files s3 p"
          by (auto simp: pair_outcome_def pair_partly_def)
      qed (intro only_reads)
    qed (intro only_reads)
    moreover from run loop Inr rest have "finish_upgrade backups applied res E s2 = (s', r)" by (simp add: upgrade_transaction_def Let_def)
    ultimately show ?thesis using finish_upgrade_keeps [OF q ap] a(2) ap(2) by simp
  qed
qed

lemma applyUpgrade_keeps:
  assumes q: "disk_quiet E" and modes: "sound_modes (dk_files s)"
    and l: "canonical (rp_LockPath records)" and m: "canonical (rp_ManifestPath records)" and d: "rp_LockPath records \<noteq> rp_ManifestPath records"
    and paths: "\<forall>c \<in> set changes. canonical (uc_Path c)" "distinct (map uc_Path changes)"
    and p: "p \<noteq> rp_LockPath records" "p \<noteq> rp_ManifestPath records" "\<forall>c \<in> set changes. writes_file c \<longrightarrow> uc_Path c \<noteq> p"
    and run: "applyUpgradeWithHooks S changes desired records hooks E s = (s', r)"
  shows "dk_files s' p = dk_files s p"
  using run unfolding applyUpgradeWithHooks_def
proof (rule keeps_bind [OF _ _ q])
  show "reads_only_call openManagedRoot" unfolding openManagedRoot_def by (intro only_reads)
  let ?after = "\<lambda>backups. if \<not> list_ex writes_file changes then disk_return ()
     else disk_bind beginSnapshotTransaction (\<lambda>_.
       upgrade_transaction S changes desired records hooks (\<lambda>p. Option.bind (map_of backups p) id))"
  let ?todo = "filter (\<lambda>c. \<not> record_change records c \<and> writes_file c) changes"
  fix s1 and u :: unit
  assume s1: "dk_files s1 = dk_files s" and r1: "disk_bind acquireSnapshotWriter (\<lambda>_. disk_bind (verifyUpgradePlanCAS S changes) (\<lambda>_.
     disk_bind (take_backups ?todo) ?after)) E s1 = (s', r)"
  from r1 show "dk_files s' p = dk_files s p" unfolding s1 [symmetric]
  proof (rule keeps_bind [OF _ _ q])
    show "reads_only_call acquireSnapshotWriter" unfolding acquireSnapshotWriter_def by (intro only_reads)
    fix s2 and u :: unit
    assume s2: "dk_files s2 = dk_files s1" and r2: "disk_bind (verifyUpgradePlanCAS S changes) (\<lambda>_. disk_bind (take_backups ?todo) ?after) E s2 = (s', r)"
    from r2 show "dk_files s' p = dk_files s1 p" unfolding s2 [symmetric]
    proof (rule keeps_bind [OF _ _ q])
      show "reads_only_call (verifyUpgradePlanCAS S changes)" by (intro only_reads)
      fix s3 and u :: unit
      assume s3: "dk_files s3 = dk_files s2" and r3: "disk_bind (take_backups ?todo) ?after E s3 = (s', r)"
      from r3 show "dk_files s' p = dk_files s2 p" unfolding s3 [symmetric]
      proof (rule keeps_bind [OF _ _ q])
        show "reads_only_call (take_backups ?todo)" by (intro only_reads)
        fix s4 bs
        assume s4: "dk_files s4 = dk_files s3" and r4: "?after bs E s4 = (s', r)"
        show "dk_files s' p = dk_files s3 p"
        proof (cases "list_ex writes_file changes")
          case False
          with r4 s4 show ?thesis by (simp add: disk_return_def)
        next
          case True
          with r4 have r5: "disk_bind beginSnapshotTransaction (\<lambda>_.
              upgrade_transaction S changes desired records hooks (\<lambda>p. Option.bind (map_of bs p) id)) E s4 = (s', r)" by simp
          then show ?thesis
          proof (cases rule: disk_bind_cases)
            case (failed e)
            with begin_outcome(1) [OF q failed(1)] s4 show ?thesis by simp
          next
            case (passed s5 u)
            have f5: "dk_files s5 = dk_files s" using begin_outcome(1) [OF q passed(1)] s1 s2 s3 s4 by simp
            from upgrade_transaction_keeps [OF q _ l m d paths p passed(2)] modes f5 s1 s2 s3 show ?thesis by simp
          qed
        qed
      qed
    qed
  qed
qed

section \<open>The plan and its application\<close>

fun content :: "disk_node option \<Rightarrow> (string \<times> nat) option" where
  "content (Some (Regular d m)) = Some (d, m)"
| "content _ = None"

lemma canonical_clean: "canonical p \<Longrightarrow> path_Clean p = p"
  by (auto simp: canonical_def confinedManagedPath_def normalizedPath_def Let_def split: if_splits)
     (auto simp: safeRelativePath_def Let_def)

lemma canonical_normalized: "canonical p \<Longrightarrow> normalizedPath p = p"
  by (auto simp: canonical_def dest: confined_canonical)

lemma plan_changes_ok:
  assumes "disk_quiet E" and "plan_changes change ps E s = (s', Inr cs)" and "\<forall>p \<in> set ps. canonical p"
  shows "disk_reads s s' \<and> cs = map (\<lambda>p. change p (content (dk_files s p))) ps"
  using assms(2,3)
proof (induction ps arbitrary: s cs)
  case Nil
  then show ?case by (simp add: disk_ok)
next
  case (Cons p ps)
  then obtain s1 v cs' where look: "readManagedFile p E s = (s1, Inr v)" and rest: "plan_changes change ps E s1 = (s', Inr cs')"
    and cs: "cs = change p v # cs'"
    by (auto simp: disk_ok)
  have key: "path_Clean p = p" "safeRelativePath p" using Cons.prems(2) canonical_clean by (auto simp: canonical_def dest: confined_canonical)
  from look key have l: "disk_look p E s = (s1, Inr v)" by (simp add: readManagedFile_def)
  have rd: "disk_reads s s1" by (rule look_reads [OF assms(1) l])
  then have f: "dk_files s1 = dk_files s" by (simp add: disk_reads_def)
  have "v = content (dk_files s p)"
    using l assms(1) by (auto simp: disk_look_def disk_probe_def split: prod.splits sum.splits option.splits disk_node.splits fault.splits)
  with Cons.IH [OF rest] Cons.prems(2) f cs disk_reads_trans [OF rd] show ?case by simp
qed

lemma plan_changes_reads [only_reads]: "reads_only_call (plan_changes change ps)"
  by (induction ps) (auto simp: readManagedFile_def intro!: only_reads)

lemma customized_is_not_written:
  assumes "files p = Some (Regular d m)" and "p \<noteq> manifestPath" and "p \<noteq> lockPath"
    and "\<And>b. fmlookup oldFiles p = Some b \<Longrightarrow> mf_SHA256 b \<noteq> ie_digest S d"
  shows "\<not> writes_file (plan_change S manifestPath lockPath oldFiles desired p (content (files p)))"
  using assms
  by (cases "fmlookup oldFiles p") (auto simp: plan_change_def plan_action_def writes_file_def file_hash_def Let_def)


text \<open>Concrete upgrades: the hypotheses of the properties hold on them, and a run in which the rollback loses an edit.\<close>

section \<open>A small repository\<close>

definition sample_digest :: "string \<Rightarrow> string" where
  "sample_digest d = replicate 64 (if d = ''old'' then CHR ''a'' else if d = ''new'' then CHR ''b'' else if d = ''L'' then CHR ''c'' else CHR ''d'')"

definition sample_identities :: identitySet where
  "sample_identities =
     \<lparr>ids_Foundation = \<lparr>fi_Repository = ''o/n'', fi_Version = ''1.0.0'', fi_Commit = replicate 40 CHR ''0'', fi_Timestamp = ''t'',
        fi_Channel = ''stable'', fi_Source = ''.mss/release-policy.yaml''\<rparr>,
      ids_Blueprint = \<lparr>bi_Name = ''b'', bi_Version = ''1.0.0'', bi_SHA256 = sample_digest ''old''\<rparr>,
      ids_Generator = \<lparr>gi_Tool = ''mss'', gi_Version = ''1'', gi_Commit = []\<rparr>,
      ids_Snapshot = \<lparr>si_Project = ''p'', si_Module = ''x/y'', si_Repository = [], si_SHA256 = sample_digest ''json''\<rparr>\<rparr>"

definition no_distribution :: distributionSpec where
  "no_distribution = \<lparr>ds_Name = [], ds_Version = [], ds_BackendModule = [], ds_BackendVersion = [], ds_FrontendPackage = [], ds_FrontendVersion = []\<rparr>"

definition sample_paths :: snapshotRecordPaths where
  "sample_paths = \<lparr>rp_LockPath = ''l'', rp_ManifestPath = ''m''\<rparr>"

definition sample_manifest :: manifest where
  "sample_manifest = \<lparr>m_APIVersion = snapshotAPIVersion, m_Kind = manifestKind, m_Metadata = manifest_metadata sample_identities,
     m_Distribution = no_distribution, m_Identities = sample_identities, m_Records = sample_paths, m_LockSHA256 = sample_digest ''L'',
     m_Files = fmupd ''a'' \<lparr>mf_SHA256 = sample_digest ''new'', mf_Mode = 6, mf_Size = 3\<rparr> fmempty\<rparr>"

definition sample_lock :: foundationLock where
  "sample_lock = \<lparr>l_APIVersion = snapshotAPIVersion, l_Kind = lockKind, l_Project = ''p'', l_Distribution = no_distribution,
     l_Identities = sample_identities, l_Records = sample_paths\<rparr>"

definition sample_snapshots :: snapshot_env where
  "sample_snapshots = \<lparr>ie_RFC3339 = (\<lambda>_. True), ie_digest = sample_digest, ie_json = (\<lambda>_. Some ''json''),
     se_manifest = (\<lambda>d. if d = ''M'' then Some sample_manifest else None), se_lock = (\<lambda>d. if d = ''L'' then Some sample_lock else None)\<rparr>"

lemma one_file: "sorted_list_of_fmap (fmupd k v fmempty) = [(k, v)]" for k :: "'a::linorder"
  by (simp add: sorted_list_of_fmap_def sorted_list_of_fset.rep_eq)

lemma sample_identities_valid:
  "valid_foundation (identity_env.truncate sample_snapshots) (ids_Foundation sample_identities)" "valid_blueprint (ids_Blueprint sample_identities)"
  "valid_generator (ids_Generator sample_identities)" "valid_snapshot (ids_Snapshot sample_identities)" "valid_records ''l'' ''m''"
  "valid_baseline_file ''l'' ''m'' (''a'', \<lparr>mf_SHA256 = sample_digest ''new'', mf_Mode = 6, mf_Size = 3\<rparr>)"
  by code_simp+

lemma sample_set_valid:
  "validateIdentitySet (identity_env.truncate sample_snapshots) sample_identities (m_Files sample_manifest) ''l'' ''m'' True"
  "validateIdentitySet (identity_env.truncate sample_snapshots) sample_identities fmempty ''l'' ''m'' False"
proof -
  have "computeSnapshotDigest (identity_env.truncate sample_snapshots) sample_identities f = Some (si_SHA256 (ids_Snapshot sample_identities))" for f
    by (simp add: computeSnapshotDigest_def sample_snapshots_def identity_env.truncate_def sample_identities_def)
  then show "validateIdentitySet (identity_env.truncate sample_snapshots) sample_identities (m_Files sample_manifest) ''l'' ''m'' True"
    by (simp add: validateIdentitySet_def sample_identities_valid sample_manifest_def one_file)
  show "validateIdentitySet (identity_env.truncate sample_snapshots) sample_identities fmempty ''l'' ''m'' False"
    by (simp add: validateIdentitySet_def sample_identities_valid sorted_list_of_fmap_def sorted_list_of_fset.rep_eq)
qed

lemma sample_decoded:
  "decodeManifest sample_snapshots ''M'' False = Inr (sample_manifest, False)"
  "decodeFoundationLock sample_snapshots ''L'' = Inr sample_lock"
  "validateSnapshotPair sample_snapshots sample_manifest sample_lock ''L''"
proof -
  have m: "m_Identities sample_manifest = sample_identities" "m_Records sample_manifest = sample_paths" "m_Kind sample_manifest = manifestKind"
    "m_APIVersion sample_manifest = snapshotAPIVersion" "m_Metadata sample_manifest = manifest_metadata sample_identities"
    "m_LockSHA256 sample_manifest = sample_digest ''L''" "m_Distribution sample_manifest = no_distribution"
    by (simp_all add: sample_manifest_def)
  have l: "l_Identities sample_lock = sample_identities" "l_Records sample_lock = sample_paths" "l_Kind sample_lock = lockKind"
    "l_APIVersion sample_lock = snapshotAPIVersion" "l_Project sample_lock = ''p''" "l_Distribution sample_lock = no_distribution"
    by (simp_all add: sample_lock_def)
  have p: "rp_LockPath sample_paths = ''l''" "rp_ManifestPath sample_paths = ''m''" by (simp_all add: sample_paths_def)
  have e: "se_manifest sample_snapshots ''M'' = Some sample_manifest" "se_lock sample_snapshots ''L'' = Some sample_lock"
    "ie_digest sample_snapshots = sample_digest" by (simp_all add: sample_snapshots_def)
  have "sha256Pattern (sample_digest ''L'')" "distribution_Empty no_distribution" by code_simp+
  then show "decodeManifest sample_snapshots ''M'' False = Inr (sample_manifest, False)"
    "decodeFoundationLock sample_snapshots ''L'' = Inr sample_lock"
    by (simp_all add: decodeManifest_def decodeFoundationLock_def validateCurrentManifest_def m l p e sample_set_valid)
  have "si_Project (ids_Snapshot sample_identities) = ''p''" by (simp add: sample_identities_def)
  then show "validateSnapshotPair sample_snapshots sample_manifest sample_lock ''L''"
    by (simp add: validateSnapshotPair_def m l p e sample_set_valid)
qed

definition calm :: disk_env where
  "calm = \<lparr>de_fault = (\<lambda>_. Fine), de_edits = (\<lambda>_. [])\<rparr>"

definition sample_repo :: disk where
  "sample_repo = \<lparr>dk_files = [''a'' \<mapsto> Regular ''old'' 6, ''l'' \<mapsto> Regular ''L0'' 6, ''m'' \<mapsto> Regular ''M0'' 6], dk_journal = False, dk_tick = 0, dk_seen = []\<rparr>"

definition sample_desired :: "(string, desiredFile) gomap" where
  "sample_desired = fmap_of_list [(''a'', \<lparr>df_Data = ''new'', df_Mode = 6\<rparr>), (''l'', \<lparr>df_Data = ''L'', df_Mode = 6\<rparr>), (''m'', \<lparr>df_Data = ''M'', df_Mode = 6\<rparr>)]"

definition sample_change :: "string \<Rightarrow> string \<Rightarrow> string \<Rightarrow> upgradeChange" where
  "sample_change p old new = \<lparr>uc_Path = p, uc_Action = ActionUpdate, uc_Mode = 6, uc_Base = [], uc_Current = sample_digest old, uc_Desired = sample_digest new\<rparr>"

definition sample_changes :: "upgradeChange list" where
  "sample_changes = [sample_change ''a'' ''old'' ''new'', sample_change ''l'' ''L0'' ''L'', sample_change ''m'' ''M0'' ''M'']"

lemma sample_canonical:
  "confinedManagedPath ''a'' = Some ''a''" "confinedManagedPath ''l'' = Some ''l''" "confinedManagedPath ''m'' = Some ''m''"
  "safeRelativePath ''l''" "safeRelativePath ''m''" "default_manifest_path ''m'' = ''m''" "normalizedPath ''m'' = ''m''"
  by code_simp+

lemma digest_nonempty: "sample_digest d \<noteq> []"
  by (simp add: sample_digest_def)

lemma calm_simps: "de_fault calm n = Fine" "disk_enter calm s = s\<lparr>dk_tick := Suc (dk_tick s), dk_seen := (dk_files s, dk_journal s) # dk_seen s\<rparr>"
  by (simp_all add: calm_def disk_enter_def apply_edits_def)

lemma calm_readFile:
  "readFile p calm s = (case confinedManagedPath p of None \<Rightarrow> (s, Inl UnsafePath) | Some k \<Rightarrow>
     (s\<lparr>dk_tick := Suc (dk_tick s), dk_seen := (dk_files s, dk_journal s) # dk_seen s\<rparr>,
      case dk_files s k of None \<Rightarrow> Inr None | Some (Regular d m) \<Rightarrow> Inr (Some (d, m)) | Some _ \<Rightarrow> Inl NotRegular))"
  by (auto simp: readFile_def confined_def disk_look_def disk_probe_def calm_simps disk_raise_def split: option.split)

lemma sample_facts:
  "ie_digest sample_snapshots = sample_digest" "m_Records sample_manifest = sample_paths" "sample_digest ''L0'' \<noteq> sample_digest ''L''"
  by (simp add: sample_snapshots_def, simp add: sample_manifest_def, code_simp)

lemmas upgrade_evaluation = applyUpgrade_def applyUpgradeWithHooks_def disk_bind_def openManagedRoot_def acquireSnapshotWriter_def disk_probe_def
    verifyUpgradePlanCAS_def check_current_def sample_changes_def sample_change_def sample_repo_def file_hash_def
    disk_refuse_def disk_return_def record_change_def sample_paths_def writes_file_def backupRecord_def beginSnapshotTransaction_def disk_effect_def
    upgrade_transaction_def applyUpgradeChange_def sample_desired_def writeAtomic_def confined_def disk_note_def verifyAppliedUpgradeState_def expected_hash_def
    disk_lift_def run_commit_hook_def commitSnapshotPair_def check_desired_pair_def planned_state_def upgradeRecordExpectations_def
    verifyRecordExpectation_def replace_pair_def stageRecord_def commit_pair_def disk_handle_def commit_staged_def readSnapshotUnlocked_def
    readRegularRecord_def finish_upgrade_def finishTransaction_def journal_remove_def
    sample_decoded sample_canonical digest_nonempty sample_facts

lemma sample_upgrade: "snd (applyUpgrade sample_snapshots sample_changes sample_desired sample_paths calm sample_repo) = Inr ()"
  by (simp add: upgrade_evaluation calm_simps calm_readFile Let_def)

lemma sample_hypotheses:
  "disk_quiet calm" "sound_modes (dk_files sample_repo)" "canonical (rp_LockPath sample_paths)" "canonical (rp_ManifestPath sample_paths)"
  "rp_LockPath sample_paths \<noteq> rp_ManifestPath sample_paths" "\<forall>c \<in> set sample_changes. canonical (uc_Path c)" "distinct (map uc_Path sample_changes)"
  "dk_seen sample_repo = []"
  by (simp_all add: disk_quiet_def calm_def sound_modes_def sample_repo_def canonical_def sample_canonical sample_paths_def sample_changes_def sample_change_def)

theorem upgrade_is_atomic_witness:
  "\<exists>s'. applyUpgrade sample_snapshots sample_changes sample_desired sample_paths calm sample_repo = (s', Inr ())
     \<and> dk_files s' = upgraded_files sample_snapshots sample_changes sample_desired sample_paths (dk_files sample_repo)"
proof -
  obtain s' where run: "applyUpgrade sample_snapshots sample_changes sample_desired sample_paths calm sample_repo = (s', Inr ())"
    using sample_upgrade by (metis prod.collapse)
  from upgrade_is_atomic [OF sample_hypotheses(1,8,2-7) run [unfolded applyUpgrade_def]] run show ?thesis by blast
qed

section \<open>A customized file\<close>

definition sample_base :: "(string, manifestFile) gomap" where
  "sample_base = fmupd ''a'' \<lparr>mf_SHA256 = sample_digest ''new'', mf_Mode = 6, mf_Size = 3\<rparr> fmempty"


section \<open>An edit during the upgrade\<close>

text \<open>Somebody saves the file just before the loop looks at it again.\<close>

definition edited :: disk_env where
  "edited = \<lparr>de_fault = (\<lambda>_. Fine), de_edits = (\<lambda>n. if n = 7 then [(''a'', Some (Regular ''mine'' 6))] else [])\<rparr>"

lemma edited_simps:
  "de_fault edited n = Fine"
  "disk_enter edited s =
     (let f = (if dk_tick s = Suc (Suc (Suc (Suc (Suc (Suc (Suc 0)))))) then (dk_files s)(''a'' \<mapsto> Regular ''mine'' 6) else dk_files s)
      in s\<lparr>dk_files := f, dk_tick := Suc (dk_tick s), dk_seen := (f, dk_journal s) # dk_seen s\<rparr>)"
  by (simp_all add: edited_def disk_enter_def apply_edits_def eval_nat_numeral)

lemma edited_readFile:
  "readFile p edited s = (case confinedManagedPath p of None \<Rightarrow> (s, Inl UnsafePath) | Some k \<Rightarrow>
     (let s1 = disk_enter edited s in
      (s1, case dk_files s1 k of None \<Rightarrow> Inr None | Some (Regular d m) \<Rightarrow> Inr (Some (d, m)) | Some _ \<Rightarrow> Inl NotRegular)))"
  by (auto simp: readFile_def confined_def disk_look_def disk_probe_def edited_simps(1) disk_raise_def Let_def split: option.split)

lemma digest_mine: "sample_digest ''mine'' \<noteq> sample_digest ''old''"
  by code_simp


end
